(* ===== verification/GoPrelude.thy ===== *)
theory GoPrelude
  imports Main "HOL-Library.Char_ord" "HOL-Library.List_Lexorder" "HOL-Library.Product_Lexorder"
    "HOL-Library.Multiset"
begin

text \<open>
  Shared vocabulary of the development.

  Go strings are byte strings: \<open>string\<close> is a list of \<open>char\<close>, compared byte by byte
  (List_Lexorder over Char_ord is Go's \<open>\<open><\<close>\<close> on strings).  A Go \<open>map\<close> is a partial
  function.  Go leaves the order in which \<open>range\<close> visits a map unspecified, so every operation
  that ranges over a map takes the visiting order \<open>ks\<close> as an argument, and \<open>visits ks m\<close> says
  that \<open>ks\<close> is one of the orders the runtime may choose.  A \<open>time.Time\<close> is its instant in
  nanoseconds, an \<open>int\<close>; the clock closure of a store is a function from the number of the
  reading within the operation to the instant read.  A Go \<open>int\<close> has 64 bits: where a sum can
  leave the range it is wrapped by \<open>wrap64\<close>.  A nilable pointer is an \<open>option\<close>.
\<close>

named_theorems go_map "rules about the maps of a store after an update or a delete"

type_synonym gotime = int
type_synonym clock = "nat \<Rightarrow> gotime"

definition second_ns :: int where
  "second_ns = 1000000000"

definition max_int64 :: int where
  "max_int64 = 9223372036854775807"

definition wrap64 :: "int \<Rightarrow> int" where
  "wrap64 x = (x + 9223372036854775808) mod 18446744073709551616 - 9223372036854775808"

lemma wrap64_id: "- max_int64 - 1 \<le> x \<Longrightarrow> x \<le> max_int64 \<Longrightarrow> wrap64 x = x"
  by (simp add: wrap64_def max_int64_def)

lemma wrap64_above:
  assumes "max_int64 < x" and "x \<le> 2 * max_int64 + 1"
  shows "wrap64 x = x - 18446744073709551616"
proof -
  have "(x + 9223372036854775808) mod 18446744073709551616
      = (x - 9223372036854775808 + 1 * 18446744073709551616) mod 18446744073709551616"
    by (simp add: algebra_simps)
  also have "\<dots> = x - 9223372036854775808"
    unfolding mod_mult_self1 using assms by (simp add: max_int64_def)
  finally show ?thesis by (simp add: wrap64_def)
qed

subsection \<open>Joined keys\<close>

text \<open>A text is cut at the first occurrence of a separator in one way only.\<close>

lemma first_separator:
  "x \<notin> set us \<Longrightarrow> x \<notin> set ws \<Longrightarrow> us @ x # vs = ws @ x # zs \<longleftrightarrow> us = ws \<and> vs = zs"
proof (induction us arbitrary: ws)
  case Nil
  then show ?case by (cases ws) auto
next
  case (Cons u us)
  then show ?case by (cases ws) auto
qed

subsection \<open>Ranging over a map\<close>

definition visits :: "'k list \<Rightarrow> ('k \<rightharpoonup> 'v) \<Rightarrow> bool" where
  "visits ks m \<longleftrightarrow> distinct ks \<and> set ks = dom m"

primrec go_range :: "('k \<rightharpoonup> 'v) \<Rightarrow> 'k list \<Rightarrow> 'v list" where
  "go_range m [] = []"
| "go_range m (k # ks) =
     (case m k of None \<Rightarrow> go_range m ks | Some v \<Rightarrow> v # go_range m ks)"

lemma visitsD [dest]: "visits ks m \<Longrightarrow> distinct ks" "visits ks m \<Longrightarrow> set ks = dom m"
  by (simp_all add: visits_def)

lemma visits_finite: "visits ks m \<Longrightarrow> finite (dom m)"
  by (metis visits_def List.finite_set)

lemma visits_exists: "finite (dom m) \<Longrightarrow> \<exists>ks. visits ks m"
  by (metis finite_distinct_list visits_def)

lemma set_go_range [simp]: "set (go_range m ks) = {v. \<exists>k \<in> set ks. m k = Some v}"
  by (induction ks) (auto split: option.splits)

lemma in_go_range: "visits ks m \<Longrightarrow> v \<in> set (go_range m ks) \<longleftrightarrow> (\<exists>k. m k = Some v)"
  by (auto simp: visits_def domIff intro: domI)

lemma mset_go_range:
  "mset (go_range m ks) = image_mset (\<lambda>k. the (m k)) (filter_mset (\<lambda>k. m k \<noteq> None) (mset ks))"
  by (induction ks) (auto split: option.splits)

lemma visits_mset: "visits ks m \<Longrightarrow> visits ks' m \<Longrightarrow> mset ks = mset ks'"
  using set_eq_iff_mset_eq_distinct [of ks ks'] by (simp add: visits_def)

lemma go_range_order: "visits ks m \<Longrightarrow> visits ks' m \<Longrightarrow> mset (go_range m ks) = mset (go_range m ks')"
  by (simp add: mset_go_range visits_mset [of ks m ks'])

lemma go_range_distinct_by:
  assumes "\<And>k v. m k = Some v \<Longrightarrow> f v = k" and "distinct ks"
  shows "distinct (map f (go_range m ks))"
  using assms(2)
proof (induction ks)
  case Nil
  then show ?case by simp
next
  case (Cons k ks)
  then show ?case using assms(1) by (auto split: option.splits)
qed

lemma go_range_filter_order:
  "visits ks m \<Longrightarrow> visits ks' m \<Longrightarrow>
   mset (filter P (go_range m ks)) = mset (filter P (go_range m ks'))"
  using go_range_order [of ks m ks'] by simp

subsection \<open>Maps keyed by the identifier of their values\<close>

text \<open>
  The entity maps of every store bind a record to its own identifier.
\<close>

definition keyed_by :: "('v \<Rightarrow> 'k) \<Rightarrow> ('k \<rightharpoonup> 'v) \<Rightarrow> bool" where
  "keyed_by f m \<longleftrightarrow> (\<forall>k v. m k = Some v \<longrightarrow> f v = k)"

lemma keyed_byD: "keyed_by f m \<Longrightarrow> m k = Some v \<Longrightarrow> f v = k"
  by (simp add: keyed_by_def)

lemma keyed_by_empty [simp, intro]: "keyed_by f Map.empty"
  by (simp add: keyed_by_def)

lemma keyed_by_upd [go_map, intro]: "keyed_by f m \<Longrightarrow> f v = k \<Longrightarrow> keyed_by f (m(k \<mapsto> v))"
  by (simp add: keyed_by_def)

lemma keyed_by_del [go_map, intro]: "keyed_by f m \<Longrightarrow> keyed_by f (m(k := None))"
  by (simp add: keyed_by_def)

lemma dom_upd_present [go_map]: "m k = Some v \<Longrightarrow> dom (m(k \<mapsto> w)) = dom m"
  by (auto simp: dom_def)

lemma keyed_range_distinct: "keyed_by f m \<Longrightarrow> visits ks m \<Longrightarrow> distinct (map f (go_range m ks))"
  by (rule go_range_distinct_by) (auto simp: keyed_by_def visits_def)

lemma keyed_range_filter_distinct:
  "keyed_by f m \<Longrightarrow> visits ks m \<Longrightarrow> distinct (map f (filter P (go_range m ks)))"
  using keyed_range_distinct by (rule distinct_map_filter)

subsection \<open>Secondary indexes\<close>

text \<open>
  A secondary index maps the key of each record that has one (\<open>key v = Some k\<close>) to the record's
  identifier and holds nothing else.
\<close>

definition index_of :: "('v \<Rightarrow> 'k option) \<Rightarrow> ('i \<rightharpoonup> 'v) \<Rightarrow> ('k \<rightharpoonup> 'i) \<Rightarrow> bool" where
  "index_of key m idx \<longleftrightarrow> (\<forall>k i. idx k = Some i \<longleftrightarrow> (\<exists>v. m i = Some v \<and> key v = Some k))"

lemma index_ofD: "index_of key m idx \<Longrightarrow> idx k = Some i \<longleftrightarrow> (\<exists>v. m i = Some v \<and> key v = Some k)"
  by (simp add: index_of_def)

lemma index_of_empty [simp, intro]: "index_of key Map.empty Map.empty"
  by (simp add: index_of_def)

lemma index_of_key: "index_of key m idx \<Longrightarrow> m i = Some v \<Longrightarrow> key v = Some k \<Longrightarrow> idx k = Some i"
  by (simp add: index_ofD)

lemma index_of_inj:
  assumes "index_of key m idx" and "m i = Some v" and "m j = Some w" and "key v = Some k"
    and "key w = Some k"
  shows "i = j"
  using index_of_key [OF assms(1,2,4)] index_of_key [OF assms(1,3,5)] by simp

lemma index_of_insert [go_map]:
  assumes "index_of key m idx" and "m i = None" and "key v = Some k" and "idx k = None"
  shows "index_of key (m(i \<mapsto> v)) (idx(k \<mapsto> i))"
  unfolding index_of_def
proof (intro allI)
  fix k' i'
  show "(idx(k \<mapsto> i)) k' = Some i' \<longleftrightarrow> (\<exists>w. (m(i \<mapsto> v)) i' = Some w \<and> key w = Some k')"
    using index_ofD [OF assms(1), of k' i'] assms(2-4)
    by (cases "k' = k"; cases "i' = i") auto
qed

lemma index_of_insert_none [go_map]:
  assumes "index_of key m idx" and "m i = None" and "key v = None"
  shows "index_of key (m(i \<mapsto> v)) idx"
  unfolding index_of_def
proof (intro allI)
  fix k' i'
  show "idx k' = Some i' \<longleftrightarrow> (\<exists>w. (m(i \<mapsto> v)) i' = Some w \<and> key w = Some k')"
    using index_ofD [OF assms(1), of k' i'] assms(2,3) by (cases "i' = i") auto
qed

lemma index_of_update [go_map]:
  assumes "index_of key m idx" and "m i = Some v" and "key w = key v"
  shows "index_of key (m(i \<mapsto> w)) idx"
  unfolding index_of_def
proof (intro allI)
  fix k' i'
  show "idx k' = Some i' \<longleftrightarrow> (\<exists>x. (m(i \<mapsto> w)) i' = Some x \<and> key x = Some k')"
    using index_ofD [OF assms(1), of k' i'] assms(2,3) by (cases "i' = i") auto
qed

lemma index_of_drop [go_map]:
  assumes "index_of key m idx" and "m i = Some v" and "key v = Some k" and "key w = None"
  shows "index_of key (m(i \<mapsto> w)) (idx(k := None))"
  unfolding index_of_def
proof (intro allI)
  fix k' i'
  show "(idx(k := None)) k' = Some i' \<longleftrightarrow> (\<exists>x. (m(i \<mapsto> w)) i' = Some x \<and> key x = Some k')"
    using index_ofD [OF assms(1), of k' i'] index_of_key [OF assms(1-3)] assms(2-4)
    by (cases "k' = k"; cases "i' = i") auto
qed

lemma index_of_delete [go_map]:
  assumes "index_of key m idx" and "m i = Some v" and "key v = Some k"
  shows "index_of key (m(i := None)) (idx(k := None))"
  unfolding index_of_def
proof (intro allI)
  fix k' i'
  show "(idx(k := None)) k' = Some i' \<longleftrightarrow> (\<exists>x. (m(i := None)) i' = Some x \<and> key x = Some k')"
    using index_ofD [OF assms(1), of k' i'] index_of_key [OF assms(1-3)] assms(2,3)
    by (cases "k' = k"; cases "i' = i") auto
qed

lemma index_of_rekey [go_map]:
  assumes "index_of key m idx" and "m i = Some v" and "key w = Some k" and "idx k = None"
    and "\<And>k'. key v = Some k' \<Longrightarrow> idx' = idx(k' := None)" and "key v = None \<Longrightarrow> idx' = idx"
  shows "index_of key (m(i \<mapsto> w)) (idx'(k \<mapsto> i))"
proof -
  have "m(i \<mapsto> w) = (m(i := None))(i \<mapsto> w)" by simp
  moreover have "index_of key (m(i := None)) idx'"
  proof (cases "key v")
    case None
    have "idx k' = Some i' \<longleftrightarrow> (\<exists>x. (m(i := None)) i' = Some x \<and> key x = Some k')" for k' i'
      using index_ofD [OF assms(1), of k' i'] assms(2) None by (cases "i' = i") auto
    then show ?thesis using assms(6) [OF None] by (simp add: index_of_def)
  next
    case (Some k')
    then show ?thesis using assms(5) [OF Some] index_of_delete [OF assms(1,2) Some] by simp
  qed
  moreover have "idx' k = None"
    by (cases "key v") (use assms(4-6) in auto)
  ultimately show ?thesis
    using index_of_insert [of key "m(i := None)" idx' i w k] assms(3) by simp
qed

subsection \<open>The insertion sort loop\<close>

text \<open>
  The nested loop
  \<open>for i := 1; i < n; i++ { for j := i; j > 0; j-- { if less(xs[j], xs[j-1]) swap else break } }\<close>
  that the stores inline wherever they order a listing; \<open>sift\<close> is the inner loop.
\<close>

fun sift :: "('a \<Rightarrow> 'a \<Rightarrow> bool) \<Rightarrow> 'a list \<Rightarrow> nat \<Rightarrow> 'a list" where
  "sift lt xs 0 = xs"
| "sift lt xs (Suc j) =
     (if lt (xs ! Suc j) (xs ! j)
      then sift lt (xs[j := xs ! Suc j, Suc j := xs ! j]) j else xs)"

definition go_sort :: "('a \<Rightarrow> 'a \<Rightarrow> bool) \<Rightarrow> 'a list \<Rightarrow> 'a list" where
  "go_sort lt xs = fold (\<lambda>i ys. sift lt ys i) [1..<length xs] xs"

lemma swap_split:
  "(us @ a # b # vs)[length us := b, Suc (length us) := a] = us @ b # a # vs"
  by (simp add: list_update_append)

text \<open>A comparison that agrees with the order of a key, the contract the loop needs.\<close>

locale key_order =
  fixes lt :: "'a \<Rightarrow> 'a \<Rightarrow> bool" and key :: "'a \<Rightarrow> 'k::linorder"
  assumes lt_key: "lt x y \<longleftrightarrow> key x < key y"
begin

lemma sift_insert:
  assumes "sorted (map key ys)"
  shows "\<exists>ws. sift lt (ys @ x # zs) (length ys) = ws @ zs \<and> sorted (map key ws)
    \<and> mset ws = mset (ys @ [x])
    \<and> (\<forall>k. filter (\<lambda>a. key a = k) ws = filter (\<lambda>a. key a = k) (ys @ [x]))"
  using assms
proof (induction ys arbitrary: zs rule: rev_induct)
  case Nil
  show ?case by (intro exI [of _ "[x]"]) simp
next
  case (snoc y ys)
  show ?case
  proof (cases "key x < key y")
    case True
    obtain ws where ws: "sift lt (ys @ x # y # zs) (length ys) = ws @ y # zs"
      "sorted (map key ws)" "mset ws = mset (ys @ [x])"
      "\<forall>k. filter (\<lambda>a. key a = k) ws = filter (\<lambda>a. key a = k) (ys @ [x])"
      using snoc.IH [of "y # zs"] snoc.prems by (auto simp: sorted_append)
    have "set ws = insert x (set ys)" using ws(3) by (metis set_mset_mset list.set append_Nil2
      Un_insert_right set_append sup_bot.right_neutral)
    then have "sorted (map key (ws @ [y]))"
      using ws(2) True snoc.prems by (auto simp: sorted_append)
    moreover have "sift lt ((ys @ [y]) @ x # zs) (length (ys @ [y])) = (ws @ [y]) @ zs"
      using True ws(1) swap_split [of ys y x zs] by (simp add: lt_key nth_append)
    ultimately show ?thesis using ws(3,4) True by (intro exI [of _ "ws @ [y]"]) auto
  next
    case False
    then have "sift lt ((ys @ [y]) @ x # zs) (length (ys @ [y])) = (ys @ [y, x]) @ zs"
      by (simp add: lt_key nth_append)
    moreover have "sorted (map key (ys @ [y, x]))"
      using snoc.prems False by (auto simp: sorted_append intro: order_trans)
    ultimately show ?thesis by (intro exI [of _ "ys @ [y, x]"]) simp
  qed
qed

lemma outer_loop:
  assumes "n \<le> length xs"
  shows "\<exists>ws. fold (\<lambda>i ys. sift lt ys i) [1..<n] xs = ws @ drop n xs \<and> sorted (map key ws)
    \<and> mset ws = mset (take n xs)
    \<and> (\<forall>k. filter (\<lambda>a. key a = k) ws = filter (\<lambda>a. key a = k) (take n xs))"
  using assms
proof (induction n)
  case 0
  show ?case by simp
next
  case (Suc n)
  show ?case
  proof (cases "n = 0")
    case True
    then show ?thesis using Suc.prems by (intro exI [of _ "take 1 xs"]) (cases xs, auto)
  next
    case False
    obtain ws where ws: "fold (\<lambda>i ys. sift lt ys i) [1..<n] xs = ws @ drop n xs"
      "sorted (map key ws)" "mset ws = mset (take n xs)"
      "\<forall>k. filter (\<lambda>a. key a = k) ws = filter (\<lambda>a. key a = k) (take n xs)"
      using Suc by auto
    have len: "length ws = n"
      using ws(3) Suc.prems by (metis length_take min.absorb2 Suc_leD size_mset)
    have dr: "drop n xs = xs ! n # drop (Suc n) xs" and tk: "take (Suc n) xs = take n xs @ [xs ! n]"
      using Suc.prems by (simp_all add: Cons_nth_drop_Suc take_Suc_conv_app_nth)
    obtain vs where vs: "sift lt (ws @ xs ! n # drop (Suc n) xs) (length ws) = vs @ drop (Suc n) xs"
      "sorted (map key vs)" "mset vs = mset (ws @ [xs ! n])"
      "\<forall>k. filter (\<lambda>a. key a = k) vs = filter (\<lambda>a. key a = k) (ws @ [xs ! n])"
      using sift_insert [OF ws(2)] by blast
    have "fold (\<lambda>i ys. sift lt ys i) [1..<Suc n] xs = vs @ drop (Suc n) xs"
      using False ws(1) len dr vs(1) by simp
    then show ?thesis using vs(2-4) ws(3,4) tk by (intro exI [of _ vs]) auto
  qed
qed

lemma go_sort_sort_key: "go_sort lt xs = sort_key key xs"
proof -
  obtain ws where ws: "go_sort lt xs = ws" "sorted (map key ws)" "mset ws = mset xs"
    "\<forall>k. filter (\<lambda>a. key a = k) ws = filter (\<lambda>a. key a = k) xs"
    using outer_loop [of "length xs" xs] by (auto simp: go_sort_def)
  have "sort_key key xs = ws"
    using ws by (intro properties_for_sort_key) (auto simp: eq_commute)
  with ws(1) show ?thesis by simp
qed

lemma go_sort_order:
  "mset xs = mset ys \<Longrightarrow> inj_on key (set xs) \<Longrightarrow> go_sort lt xs = go_sort lt ys"
  by (simp add: go_sort_sort_key sort_key_inj_key_eq)

lemma go_sort_mset [simp]: "mset (go_sort lt xs) = mset xs"
  by (simp add: go_sort_sort_key)

lemma go_sort_set [simp]: "set (go_sort lt xs) = set xs"
  by (simp add: go_sort_sort_key)

lemma go_sort_sorted: "sorted (map key (go_sort lt xs))"
  by (simp add: go_sort_sort_key)

lemma go_sort_length [simp]: "length (go_sort lt xs) = length xs"
  by (simp add: go_sort_sort_key)

lemma go_sort_distinct: "distinct (map f (go_sort lt xs)) \<longleftrightarrow> distinct (map f xs)"
  by (metis go_sort_mset mset_eq_imp_distinct_iff mset_map)

end

subsection \<open>Stores as transition systems\<close>

text \<open>
  Every method of a store runs under its mutex, so a run of a store is a sequence of steps.  The
  locale gives the induction over runs once; \<open>stable_system\<close> adds a family of facts that every
  step keeps, such as being in a terminal state.
\<close>

locale op_system =
  fixes init :: "'s \<Rightarrow> bool" and step :: "'s \<Rightarrow> 's \<Rightarrow> bool" and inv :: "'s \<Rightarrow> bool"
  assumes inv_init: "init s \<Longrightarrow> inv s"
    and inv_step: "inv s \<Longrightarrow> step s t \<Longrightarrow> inv t"
begin

lemma inv_run: "step\<^sup>*\<^sup>* s t \<Longrightarrow> inv s \<Longrightarrow> inv t"
  by (induction rule: rtranclp_induct) (auto intro: inv_step)

lemma inv_reachable: "init s \<Longrightarrow> step\<^sup>*\<^sup>* s t \<Longrightarrow> inv t"
  using inv_init inv_run by blast

end

locale stable_system = op_system init step inv
  for init :: "'s \<Rightarrow> bool" and step :: "'s \<Rightarrow> 's \<Rightarrow> bool" and inv :: "'s \<Rightarrow> bool" +
  fixes P :: "'x \<Rightarrow> 's \<Rightarrow> bool"
  assumes stable: "inv s \<Longrightarrow> step s t \<Longrightarrow> P x s \<Longrightarrow> P x t"
begin

lemma stable_run: "step\<^sup>*\<^sup>* s t \<Longrightarrow> inv s \<Longrightarrow> P x s \<Longrightarrow> P x t"
proof (induction rule: rtranclp_induct)
  case (step u v)
  then show ?case using inv_run stable by blast
qed simp

end

text \<open>
  A store whose records only move forward: a record is never dropped, and \<open>le\<close>, a reflexive and
  transitive relation, says how it may have changed (immutable fields equal, terminal states kept).
\<close>

locale entity_store = op_system init step inv
  for init :: "'s \<Rightarrow> bool" and step :: "'s \<Rightarrow> 's \<Rightarrow> bool" and inv :: "'s \<Rightarrow> bool" +
  fixes entity :: "'s \<Rightarrow> 'k \<Rightarrow> 'v option" and le :: "'v \<Rightarrow> 'v \<Rightarrow> bool"
  assumes le_refl: "le v v"
    and le_trans: "le u v \<Longrightarrow> le v w \<Longrightarrow> le u w"
    and entity_step: "inv s \<Longrightarrow> step s t \<Longrightarrow> entity s k = Some v \<Longrightarrow>
      \<exists>w. entity t k = Some w \<and> le v w"

sublocale entity_store \<subseteq> stable_system init step inv
  "\<lambda>(k, v) s. \<exists>w. entity s k = Some w \<and> le v w"
  by unfold_locales (use entity_step le_trans in \<open>fastforce split: prod.splits\<close>)

context entity_store
begin

lemma entity_run:
  assumes "step\<^sup>*\<^sup>* s t" and "inv s" and "entity s k = Some v"
  shows "\<exists>w. entity t k = Some w \<and> le v w"
  using stable_run [OF assms(1,2), of "(k, v)"] assms(3) le_refl by auto

end

end
