(* ===== verification/Regexp.thy ===== *)
theory Regexp
  imports GoPrelude
begin

text \<open>
  The fragment of Go's regular expressions that the validators of the stores use: character
  classes with a repetition range, literals, concatenation and optional groups, always anchored
  by \<open>^\<close> and \<open>$\<close>.  All classes are ASCII, so matching bytes is matching runes.  The matcher
  \<open>rx_match\<close> computes; \<open>rx_lang\<close> is the language it decides (\<open>rx_match_lang\<close>).
\<close>

type_synonym char_class = "(char \<times> char) list"

definition in_class :: "char_class \<Rightarrow> char \<Rightarrow> bool" where
  "in_class cs c \<longleftrightarrow> list_ex (\<lambda>(lo, hi). lo \<le> c \<and> c \<le> hi) cs"

datatype rx =
    Rng char_class nat "nat option"
  | Lit string
  | Cat rx rx
  | Opt rx

fun rx_rest :: "rx \<Rightarrow> string \<Rightarrow> string list" where
  "rx_rest (Rng cs lo hi) s =
     (let n = length (takeWhile (in_class cs) s);
          m = (case hi of None \<Rightarrow> n | Some h \<Rightarrow> min h n)
      in map (\<lambda>i. drop i s) [lo..<Suc m])"
| "rx_rest (Lit l) s = (if take (length l) s = l then [drop (length l) s] else [])"
| "rx_rest (Cat r q) s = concat (map (rx_rest q) (rx_rest r s))"
| "rx_rest (Opt r) s = s # rx_rest r s"

definition rx_match :: "rx \<Rightarrow> string \<Rightarrow> bool" where
  "rx_match r s \<longleftrightarrow> list_ex (\<lambda>t. t = []) (rx_rest r s)"

fun rx_lang :: "rx \<Rightarrow> string set" where
  "rx_lang (Rng cs lo hi) =
     {u. lo \<le> length u \<and> (\<forall>h. hi = Some h \<longrightarrow> length u \<le> h) \<and> list_all (in_class cs) u}"
| "rx_lang (Lit l) = {l}"
| "rx_lang (Cat r q) = {u @ v |u v. u \<in> rx_lang r \<and> v \<in> rx_lang q}"
| "rx_lang (Opt r) = insert [] (rx_lang r)"

lemma takeWhile_prefix_length:
  "list_all P u \<Longrightarrow> length u \<le> length (takeWhile P (u @ t))"
  by (induction u) auto

lemma take_takeWhile_all:
  "i \<le> length (takeWhile P s) \<Longrightarrow> list_all P (take i s)"
proof (induction s arbitrary: i)
  case (Cons a s)
  then show ?case by (cases i) (auto split: if_splits)
qed simp

lemma rx_rest_Rng:
  "t \<in> set (rx_rest (Rng cs lo hi) s) \<longleftrightarrow> (\<exists>u \<in> rx_lang (Rng cs lo hi). s = u @ t)"
proof
  assume "t \<in> set (rx_rest (Rng cs lo hi) s)"
  then obtain i where i: "t = drop i s" "lo \<le> i" "i \<le> length (takeWhile (in_class cs) s)"
    "\<forall>h. hi = Some h \<longrightarrow> i \<le> h"
    by (auto simp: Let_def less_Suc_eq_le split: option.splits)
  moreover from i(3) have "i \<le> length s"
    using length_takeWhile_le le_trans by blast
  ultimately show "\<exists>u \<in> rx_lang (Rng cs lo hi). s = u @ t"
    by (intro bexI [of _ "take i s"]) (auto simp: take_takeWhile_all min_def)
next
  assume "\<exists>u \<in> rx_lang (Rng cs lo hi). s = u @ t"
  then obtain u where u: "s = u @ t" "lo \<le> length u" "\<forall>h. hi = Some h \<longrightarrow> length u \<le> h"
    "list_all (in_class cs) u" by auto
  from u(4) have "length u \<le> length (takeWhile (in_class cs) s)"
    unfolding u(1) by (rule takeWhile_prefix_length)
  with u show "t \<in> set (rx_rest (Rng cs lo hi) s)"
    by (auto simp: Let_def image_iff less_Suc_eq_le intro!: bexI [of _ "length u"]
        split: option.splits)
qed

lemma rx_rest_lang: "t \<in> set (rx_rest r s) \<longleftrightarrow> (\<exists>u \<in> rx_lang r. s = u @ t)"
proof (induction r arbitrary: s t)
  case (Rng cs lo hi)
  show ?case by (rule rx_rest_Rng)
next
  case (Lit l)
  show ?case using append_eq_conv_conj [of l t s] by auto
next
  case (Cat r q)
  have "t \<in> set (rx_rest (Cat r q) s) \<longleftrightarrow> (\<exists>w. w \<in> set (rx_rest r s) \<and> t \<in> set (rx_rest q w))"
    by auto
  also have "\<dots> \<longleftrightarrow> (\<exists>u \<in> rx_lang r. \<exists>v \<in> rx_lang q. s = u @ v @ t)"
    unfolding Cat by blast
  finally show ?case by fastforce
next
  case (Opt r)
  then show ?case by auto
qed

lemma rx_match_lang: "rx_match r s \<longleftrightarrow> s \<in> rx_lang r"
proof -
  have "rx_match r s \<longleftrightarrow> [] \<in> set (rx_rest r s)"
    by (auto simp: rx_match_def list_ex_iff)
  then show ?thesis by (simp add: rx_rest_lang)
qed

lemma rx_match_Rng [simp]:
  "rx_match (Rng cs lo (Some hi)) s \<longleftrightarrow>
   lo \<le> length s \<and> length s \<le> hi \<and> list_all (in_class cs) s"
  by (simp add: rx_match_lang)

subsection \<open>Character classes of the repository\<close>

definition az :: char_class where "az = [(CHR ''a'', CHR ''z'')]"
definition digits09 :: char_class where "digits09 = [(CHR ''0'', CHR ''9'')]"
definition hex_lower :: char_class where
  "hex_lower = [(CHR ''0'', CHR ''9''), (CHR ''a'', CHR ''f'')]"
definition single :: "char \<Rightarrow> char_class" where "single c = [(c, c)]"

lemmas class_defs = in_class_def az_def digits09_def hex_lower_def single_def

lemma in_class_append [simp]: "in_class (cs @ ds) c \<longleftrightarrow> in_class cs c \<or> in_class ds c"
  by (simp add: in_class_def)

lemma list_all_class_not: "list_all (in_class cs) s \<Longrightarrow> \<not> in_class cs c \<Longrightarrow> c \<notin> set s"
  by (auto simp: list_all_iff)

end
