(* ===== verification/Ids.thy ===== *)
theory Ids
  imports Regexp
begin

text \<open>
  \<open>packages/ids/id.go\<close>: the wire format \<open>{prefix}_{32 hex}\<close>.  \<open>Types\<close> is the registry,
  \<open>Encode\<close>, \<open>Decode\<close>, \<open>DecodeAny\<close>, \<open>IsValid\<close>, \<open>IsValidShape\<close>, \<open>TypeOf\<close>, \<open>Generate\<close> and
  \<open>MustGenerate\<close> are the functions of the package.  The module \<open>github.com/google/uuid\<close> is not
  part of the repository: \<open>uuid_lib\<close> holds what the code calls of it, \<open>uuid_Parse\<close> (whether
  \<open>uuid.Parse\<close> returns without an error) and \<open>uuid_NewV7\<close> (the result of the n-th call of
  \<open>uuid.NewV7\<close> in an operation, \<open>Inl\<close> an error message or \<open>Inr\<close> the text of \<open>u.String()\<close>);
  \<open>uuid_Parse_spec\<close> and \<open>uuid_NewV7_spec\<close> state its documented behaviour.
\<close>

record uuid_lib =
  uuid_Parse :: "string \<Rightarrow> bool"
  uuid_NewV7 :: "nat \<Rightarrow> string + string"

datatype id_error = InvalidIDError string | InvalidTypeError string

fun IsInvalidID :: "id_error \<Rightarrow> bool" where
  "IsInvalidID (InvalidIDError _) = True"
| "IsInvalidID (InvalidTypeError _) = False"

fun IsInvalidType :: "id_error \<Rightarrow> bool" where
  "IsInvalidType (InvalidTypeError _) = True"
| "IsInvalidType (InvalidIDError _) = False"

definition type_table :: "(string \<times> string) list" where
  "type_table =
     [(''usr'', ''user''), (''org'', ''organization''), (''mem'', ''membership''),
      (''inv'', ''invitation''), (''ses'', ''session''), (''cred'', ''credential''),
      (''tup'', ''authorization_tuple''), (''mfa'', ''mfa_factor''), (''shr'', ''share_token''),
      (''pat'', ''personal_access_token''), (''aud'', ''audit_event''),
      (''file'', ''file_metadata''), (''flag'', ''feature_flag''), (''not'', ''notification'')]"

definition Types :: "string \<rightharpoonup> string" where
  "Types = map_of type_table"

text \<open>The keys in the order \<open>ks\<close> in which the runtime visits the map, then the sort loop.\<close>

definition RegisteredPrefixes :: "string list \<Rightarrow> string list" where
  "RegisteredPrefixes ks = go_sort (\<lambda>x y. x < y) (filter (\<lambda>k. Types k \<noteq> None) ks)"

record DecodedID =
  dec_Type :: string
  dec_UUID :: string

definition hexPayloadLength :: nat where "hexPayloadLength = 32"

definition isHexLower :: "string \<Rightarrow> bool" where
  "isHexLower s \<longleftrightarrow> length s = hexPayloadLength \<and>
     list_all (\<lambda>c. CHR ''0'' \<le> c \<and> c \<le> CHR ''9'' \<or> CHR ''a'' \<le> c \<and> c \<le> CHR ''f'') s"

definition isVersionNibbleValid :: "char \<Rightarrow> bool" where
  "isVersionNibbleValid b \<longleftrightarrow> CHR ''1'' \<le> b \<and> b \<le> CHR ''8''"

definition assertType :: "string \<Rightarrow> id_error option" where
  "assertType t = (case Types t of None \<Rightarrow> Some (InvalidTypeError t) | Some _ \<Rightarrow> None)"

text \<open>\<open>strings.ToLower\<close> on ASCII text; its argument in \<open>Encode\<close> has passed \<open>uuid.Parse\<close>.\<close>

definition ascii_lower :: "char \<Rightarrow> char" where
  "ascii_lower c = (if CHR ''A'' \<le> c \<and> c \<le> CHR ''Z'' then char_of (of_char c + (32::nat)) else c)"

definition Encode :: "(string \<Rightarrow> bool) \<Rightarrow> string \<Rightarrow> string \<Rightarrow> id_error + string" where
  "Encode parse typ uuidStr =
     (case assertType typ of
        Some err \<Rightarrow> Inl err
      | None \<Rightarrow>
          if length uuidStr \<noteq> 36 \<or> uuidStr ! 8 \<noteq> CHR ''-'' \<or> uuidStr ! 13 \<noteq> CHR ''-'' \<or>
             uuidStr ! 18 \<noteq> CHR ''-'' \<or> uuidStr ! 23 \<noteq> CHR ''-''
          then Inl (InvalidIDError (''value is not a canonical UUID: '' @ uuidStr))
          else if \<not> parse uuidStr
          then Inl (InvalidIDError (''value is not a valid UUID: '' @ uuidStr))
          else let hexPayload = map ascii_lower (filter (\<lambda>c. c \<noteq> CHR ''-'') uuidStr)
               in Inr (typ @ ''_'' @ hexPayload))"

fun IndexByte :: "string \<Rightarrow> char \<Rightarrow> int" where
  "IndexByte [] c = -1"
| "IndexByte (x # xs) c =
     (if x = c then 0 else let i = IndexByte xs c in if i = -1 then -1 else i + 1)"

definition decodeShape :: "string \<Rightarrow> id_error + (string \<times> string)" where
  "decodeShape wid =
     (let sep = IndexByte wid (CHR ''_'')
      in if sep = -1 then Inl (InvalidIDError (''id missing type separator: '' @ wid))
         else let typ = take (nat sep) wid; hx = drop (nat sep + 1) wid
         in if length typ = 0 then Inl (InvalidIDError (''id has empty type prefix: '' @ wid))
         else if \<not> isHexLower hx
         then Inl (InvalidIDError (''id payload is not 32 lowercase hex characters: '' @ wid))
         else if \<not> isVersionNibbleValid (hx ! 12)
         then Inl (InvalidIDError (''id payload is not a valid UUID: '' @ wid))
         else Inr (typ, hx))"

definition substr :: "string \<Rightarrow> nat \<Rightarrow> nat \<Rightarrow> string" where
  "substr s i j = take (j - i) (drop i s)"

definition reconstructCanonical :: "string \<Rightarrow> string" where
  "reconstructCanonical hx =
     substr hx 0 8 @ ''-'' @ substr hx 8 12 @ ''-'' @ substr hx 12 16 @ ''-'' @
     substr hx 16 20 @ ''-'' @ substr hx 20 32"

definition Decode :: "string \<Rightarrow> id_error + DecodedID" where
  "Decode wid =
     (case decodeShape wid of
        Inl err \<Rightarrow> Inl err
      | Inr (typ, hx) \<Rightarrow>
          (case assertType typ of
             Some err \<Rightarrow> Inl err
           | None \<Rightarrow> Inr \<lparr>dec_Type = typ, dec_UUID = reconstructCanonical hx\<rparr>))"

definition DecodeAny :: "string \<Rightarrow> id_error + DecodedID" where
  "DecodeAny wid =
     (case decodeShape wid of
        Inl err \<Rightarrow> Inl err
      | Inr (typ, hx) \<Rightarrow> Inr \<lparr>dec_Type = typ, dec_UUID = reconstructCanonical hx\<rparr>)"

definition IsValid :: "string \<Rightarrow> string list \<Rightarrow> bool" where
  "IsValid s expectedType =
     (case Decode s of
        Inl _ \<Rightarrow> False
      | Inr decoded \<Rightarrow> \<not> list_ex (\<lambda>want. want \<noteq> '''' \<and> dec_Type decoded \<noteq> want) expectedType)"

definition IsValidShape :: "string \<Rightarrow> bool" where
  "IsValidShape s = (case DecodeAny s of Inl _ \<Rightarrow> False | Inr _ \<Rightarrow> True)"

definition TypeOf :: "string \<Rightarrow> id_error + string" where
  "TypeOf wid = (case Decode wid of Inl err \<Rightarrow> Inl err | Inr d \<Rightarrow> Inr (dec_Type d))"

definition Generate :: "uuid_lib \<Rightarrow> nat \<Rightarrow> string \<Rightarrow> id_error + string" where
  "Generate lib n typ =
     (case assertType typ of
        Some err \<Rightarrow> Inl err
      | None \<Rightarrow>
          (case uuid_NewV7 lib n of
             Inl msg \<Rightarrow> Inl (InvalidIDError (''uuid v7 generation failed: '' @ msg))
           | Inr u \<Rightarrow> Encode (uuid_Parse lib) typ u))"

text \<open>\<open>None\<close> is the panic of \<open>MustGenerate\<close>.\<close>

definition MustGenerate :: "uuid_lib \<Rightarrow> nat \<Rightarrow> string \<Rightarrow> string option" where
  "MustGenerate lib n typ = (case Generate lib n typ of Inl _ \<Rightarrow> None | Inr wid \<Rightarrow> Some wid)"

subsection \<open>The UUID library\<close>

definition is_hex :: "char \<Rightarrow> bool" where
  "is_hex c \<longleftrightarrow> in_class (hex_lower @ [(CHR ''A'', CHR ''F'')]) c"

definition uuid_text :: "string \<Rightarrow> string \<Rightarrow> string \<Rightarrow> string \<Rightarrow> string \<Rightarrow> string" where
  "uuid_text a b c d e = a @ ''-'' @ b @ ''-'' @ c @ ''-'' @ d @ ''-'' @ e"

definition group_lengths :: "string \<Rightarrow> string \<Rightarrow> string \<Rightarrow> string \<Rightarrow> string \<Rightarrow> bool" where
  "group_lengths a b c d e \<longleftrightarrow>
     length a = 8 \<and> length b = 4 \<and> length c = 4 \<and> length d = 4 \<and> length e = 12"

text \<open>
  \<open>uuid.Parse\<close> accepts a text of five hyphen-separated groups exactly when the groups are
  hexadecimal; \<open>u.String()\<close> of \<open>uuid.NewV7\<close> is such a text in lower case with version 7.
\<close>

definition uuid_Parse_spec :: "(string \<Rightarrow> bool) \<Rightarrow> bool" where
  "uuid_Parse_spec parse \<longleftrightarrow>
     (\<forall>a b c d e. group_lengths a b c d e \<longrightarrow>
        parse (uuid_text a b c d e) = list_all is_hex (a @ b @ c @ d @ e))"

definition uuid_NewV7_spec :: "(nat \<Rightarrow> string + string) \<Rightarrow> bool" where
  "uuid_NewV7_spec newV7 \<longleftrightarrow>
     (\<forall>n u. newV7 n = Inr u \<longrightarrow>
        (\<exists>a b c d e. u = uuid_text a b c d e \<and> group_lengths a b c d e \<and>
           list_all (in_class hex_lower) (a @ b @ c @ d @ e) \<and> hd c = CHR ''7''))"

definition uuid_ok :: "uuid_lib \<Rightarrow> bool" where
  "uuid_ok lib \<longleftrightarrow> uuid_Parse_spec (uuid_Parse lib) \<and> uuid_NewV7_spec (uuid_NewV7 lib)"

text \<open>A library that satisfies them, for the witnesses: always the same version 7 UUID.\<close>

definition demo_Parse :: "string \<Rightarrow> bool" where
  "demo_Parse s = list_all is_hex
     (substr s 0 8 @ substr s 9 13 @ substr s 14 18 @ substr s 19 23 @ substr s 24 36)"

definition demo_lib :: "string \<Rightarrow> uuid_lib" where
  "demo_lib u = \<lparr>uuid_Parse = demo_Parse, uuid_NewV7 = (\<lambda>_. Inr u)\<rparr>"

subsection \<open>Characters and hyphens\<close>

lemma isHexLower_class: "isHexLower s \<longleftrightarrow> length s = 32 \<and> list_all (in_class hex_lower) s"
  by (simp add: isHexLower_def hexPayloadLength_def in_class_def hex_lower_def list_all_iff)

lemma hex_lower_nat:
  "in_class hex_lower c \<longleftrightarrow> (48 \<le> (of_char c :: nat) \<and> (of_char c :: nat) \<le> 57)
     \<or> (97 \<le> (of_char c :: nat) \<and> (of_char c :: nat) \<le> 102)"
  by (simp add: class_defs less_eq_char_def)

lemma is_hex_nat:
  "is_hex c \<longleftrightarrow> in_class hex_lower c \<or> (65 \<le> (of_char c :: nat) \<and> (of_char c :: nat) \<le> 70)"
  by (simp add: is_hex_def in_class_def less_eq_char_def hex_lower_def)

lemma hex_lower_is_hex: "in_class hex_lower c \<Longrightarrow> is_hex c"
  by (simp add: is_hex_nat)

lemma is_hex_no_hyphen: "is_hex c \<Longrightarrow> c \<noteq> CHR ''-''"
  by (auto simp: is_hex_nat hex_lower_nat)

lemma ascii_lower_hex_lower: "in_class hex_lower c \<Longrightarrow> ascii_lower c = c"
  by (auto simp: ascii_lower_def hex_lower_nat less_eq_char_def)

lemma is_hex_ascii_lower: "is_hex c \<Longrightarrow> in_class hex_lower (ascii_lower c)"
  by (auto simp: ascii_lower_def is_hex_nat hex_lower_nat less_eq_char_def)

lemma ascii_lower_hyphen [simp]: "ascii_lower (CHR ''-'') = CHR ''-''"
  by (simp add: ascii_lower_def less_eq_char_def)

lemma filter_hex: "list_all is_hex s \<Longrightarrow> filter (\<lambda>c. c \<noteq> CHR ''-'') s = s"
  by (auto simp: list_all_iff filter_id_conv dest: is_hex_no_hyphen)

lemma filter_uuid_text:
  "list_all is_hex (a @ b @ c @ d @ e) \<Longrightarrow>
   filter (\<lambda>x. x \<noteq> CHR ''-'') (uuid_text a b c d e) = a @ b @ c @ d @ e"
  by (simp add: uuid_text_def filter_hex)

lemma map_lower_hex: "list_all (in_class hex_lower) s \<Longrightarrow> map ascii_lower s = s"
  by (induction s) (auto simp: ascii_lower_hex_lower)

lemma list_all_lower: "list_all is_hex s \<Longrightarrow> list_all (in_class hex_lower) (map ascii_lower s)"
  by (auto simp: list_all_iff is_hex_ascii_lower)

lemma list_all_is_hex: "list_all (in_class hex_lower) s \<Longrightarrow> list_all is_hex s"
  by (auto simp: list_all_iff hex_lower_is_hex)

subsection \<open>The canonical form\<close>

lemma uuid_text_nth:
  "group_lengths a b c d e \<Longrightarrow> length (uuid_text a b c d e) = 36 \<and>
     uuid_text a b c d e ! 8 = CHR ''-'' \<and> uuid_text a b c d e ! 13 = CHR ''-'' \<and>
     uuid_text a b c d e ! 18 = CHR ''-'' \<and> uuid_text a b c d e ! 23 = CHR ''-''"
  by (simp add: uuid_text_def group_lengths_def nth_append)

lemma uuid_text_exists:
  assumes "length u = 36" "u ! 8 = CHR ''-''" "u ! 13 = CHR ''-''" "u ! 18 = CHR ''-''"
    "u ! 23 = CHR ''-''"
  shows "u = uuid_text (substr u 0 8) (substr u 9 13) (substr u 14 18) (substr u 19 23) (substr u 24 36)"
    and "group_lengths (substr u 0 8) (substr u 9 13) (substr u 14 18) (substr u 19 23) (substr u 24 36)"
proof -
  have cut: "drop k u = take (i - k) (drop k u) @ u ! i # drop (Suc i) u"
    if "k \<le> i" "i < length u" for k i
    using that by (metis Cons_nth_drop_Suc append_take_drop_id drop_drop le_add_diff_inverse2)
  have tail: "drop 24 u = take 12 (drop 24 u)" using assms(1) by simp
  show "u = uuid_text (substr u 0 8) (substr u 9 13) (substr u 14 18) (substr u 19 23) (substr u 24 36)"
    using cut [of 0 8] cut [of 9 13] cut [of 14 18] cut [of 19 23] tail assms
    by (simp add: uuid_text_def substr_def)
  show "group_lengths (substr u 0 8) (substr u 9 13) (substr u 14 18) (substr u 19 23) (substr u 24 36)"
    using assms(1) by (simp add: group_lengths_def substr_def)
qed

lemma reconstruct_groups:
  "group_lengths a b c d e \<Longrightarrow> reconstructCanonical (a @ b @ c @ d @ e) = uuid_text a b c d e"
  by (simp add: reconstructCanonical_def uuid_text_def group_lengths_def substr_def)

lemma hex_groups_exist:
  assumes "length hx = 32"
  obtains a b c d e where "hx = a @ b @ c @ d @ e" "group_lengths a b c d e"
proof
  have "take (8 + (4 + (4 + (4 + 12)))) hx = take 8 hx @ take 4 (drop 8 hx) @
      take 4 (drop 4 (drop 8 hx)) @ take 4 (drop 4 (drop 4 (drop 8 hx))) @
      take 12 (drop 4 (drop 4 (drop 4 (drop 8 hx))))"
    by (simp only: take_add)
  then show "hx = take 8 hx @ take 4 (drop 8 hx) @ take 4 (drop 12 hx) @ take 4 (drop 16 hx) @
      take 12 (drop 20 hx)"
    using assms by simp
  show "group_lengths (take 8 hx) (take 4 (drop 8 hx)) (take 4 (drop 12 hx)) (take 4 (drop 16 hx))
      (take 12 (drop 20 hx))"
    using assms by (simp add: group_lengths_def)
qed

lemma IndexByte_notin: "IndexByte s c = -1 \<longleftrightarrow> c \<notin> set s"
proof (induction s)
  case (Cons x s)
  have "-1 \<le> IndexByte s c" for s by (induction s) (auto simp: Let_def)
  then show ?case using Cons by (auto simp: Let_def) (smt (verit))
qed simp

lemma IndexByte_append: "c \<notin> set t \<Longrightarrow> IndexByte (t @ c # r) c = int (length t)"
  by (induction t) (auto simp: Let_def)

lemma decodeShape_text:
  assumes "CHR ''_'' \<notin> set t"
  shows "decodeShape (t @ ''_'' @ hx) =
    (if t = [] then Inl (InvalidIDError (''id has empty type prefix: '' @ t @ ''_'' @ hx))
     else if \<not> isHexLower hx
     then Inl (InvalidIDError (''id payload is not 32 lowercase hex characters: '' @ t @ ''_'' @ hx))
     else if \<not> isVersionNibbleValid (hx ! 12)
     then Inl (InvalidIDError (''id payload is not a valid UUID: '' @ t @ ''_'' @ hx))
     else Inr (t, hx))"
  using assms IndexByte_append [of "CHR ''_''" t hx] by (simp add: decodeShape_def Let_def)

lemma decodeShape_Inr:
  "decodeShape wid = Inr (t, hx) \<longleftrightarrow>
     wid = t @ ''_'' @ hx \<and> CHR ''_'' \<notin> set t \<and> t \<noteq> [] \<and> isHexLower hx \<and>
     isVersionNibbleValid (hx ! 12)"
proof (cases "CHR ''_'' \<in> set wid")
  case True
  then obtain t' r where w: "wid = t' @ CHR ''_'' # r" "CHR ''_'' \<notin> set t'"
    by (meson split_list_first)
  have "t' = t \<and> r = hx" if "wid = t @ ''_'' @ hx" "CHR ''_'' \<notin> set t"
    using that w first_separator [of "CHR ''_''" t' t r hx] by simp
  then show ?thesis using w decodeShape_text [of t' r] by (auto split: if_splits)
next
  case False
  then show ?thesis by (auto simp: decodeShape_def IndexByte_notin)
qed

lemma registered_no_underscore: "Types t \<noteq> None \<Longrightarrow> CHR ''_'' \<notin> set t \<and> t \<noteq> []"
  by (auto simp: Types_def type_table_def split: if_splits)

subsection \<open>Decoding what is encoded\<close>

lemma Encode_Inr:
  assumes "uuid_Parse_spec parse" and "Encode parse t u = Inr w"
  obtains a b c d e where "Types t \<noteq> None" "u = uuid_text a b c d e" "group_lengths a b c d e"
    "list_all is_hex (a @ b @ c @ d @ e)" "w = t @ ''_'' @ map ascii_lower (a @ b @ c @ d @ e)"
proof -
  have t: "Types t \<noteq> None" and w: "w = t @ ''_'' @ map ascii_lower (filter (\<lambda>c. c \<noteq> CHR ''-'') u)"
    and p: "parse u" and u: "length u = 36" "u ! 8 = CHR ''-''" "u ! 13 = CHR ''-''"
      "u ! 18 = CHR ''-''" "u ! 23 = CHR ''-''"
    using assms(2) by (auto simp: Encode_def assertType_def split: option.splits if_splits)
  obtain a b c d e where g: "u = uuid_text a b c d e" "group_lengths a b c d e"
    using uuid_text_exists [OF u] by blast
  have h: "list_all is_hex (a @ b @ c @ d @ e)"
    using assms(1) p g unfolding uuid_Parse_spec_def by blast
  show ?thesis using that [OF t g h] w filter_uuid_text [OF h] g(1) by simp
qed

lemma Encode_text:
  assumes "uuid_Parse_spec parse" and "Types t \<noteq> None" and "group_lengths a b c d e"
    and "list_all is_hex (a @ b @ c @ d @ e)"
  shows "Encode parse t (uuid_text a b c d e) = Inr (t @ ''_'' @ map ascii_lower (a @ b @ c @ d @ e))"
proof -
  have "parse (uuid_text a b c d e)"
    using assms unfolding uuid_Parse_spec_def by blast
  with assms(2) uuid_text_nth [OF assms(3)] show ?thesis
    by (auto simp: Encode_def assertType_def filter_uuid_text [OF assms(4)] simp del: map_append)
qed

lemma version_nibble_lower: "isVersionNibbleValid (ascii_lower c) = isVersionNibbleValid c"
  by (auto simp: isVersionNibbleValid_def ascii_lower_def less_eq_char_def)

lemma groups_version:
  "group_lengths a b c d e \<Longrightarrow> (a @ b @ c @ d @ e) ! 12 = uuid_text a b c d e ! 14"
  by (simp add: group_lengths_def uuid_text_def nth_append)

lemma map_lower_uuid_text:
  "map ascii_lower (uuid_text a b c d e) =
   uuid_text (map ascii_lower a) (map ascii_lower b) (map ascii_lower c) (map ascii_lower d)
     (map ascii_lower e)"
  by (simp add: uuid_text_def)

lemma Decode_registered:
  "Types t \<noteq> None \<Longrightarrow> isHexLower hx \<Longrightarrow> Decode (t @ ''_'' @ hx) =
     (if isVersionNibbleValid (hx ! 12) then Inr \<lparr>dec_Type = t, dec_UUID = reconstructCanonical hx\<rparr>
      else Inl (InvalidIDError (''id payload is not a valid UUID: '' @ t @ ''_'' @ hx)))"
  using registered_no_underscore [of t] decodeShape_text [of t hx]
  by (auto simp: Decode_def assertType_def)

lemma isHexLower_groups:
  "group_lengths a b c d e \<Longrightarrow> list_all is_hex (a @ b @ c @ d @ e) \<Longrightarrow>
   isHexLower (map ascii_lower (a @ b @ c @ d @ e))"
  using list_all_lower [of "a @ b @ c @ d @ e"] by (simp add: isHexLower_class group_lengths_def)

lemma Decode_encoded:
  assumes "Types t \<noteq> None" and "group_lengths a b c d e"
    and "list_all is_hex (a @ b @ c @ d @ e)" and "u = uuid_text a b c d e"
    and "w = t @ ''_'' @ map ascii_lower (a @ b @ c @ d @ e)"
  shows "Decode w =
    (if isVersionNibbleValid (u ! 14)
     then Inr \<lparr>dec_Type = t, dec_UUID = map ascii_lower u\<rparr>
     else Inl (InvalidIDError (''id payload is not a valid UUID: '' @ w)))"
proof -
  let ?hx = "map ascii_lower (a @ b @ c @ d @ e)"
  have "length (a @ b @ c @ d @ e) = 32" using assms(2) by (simp add: group_lengths_def)
  then have "?hx ! 12 = ascii_lower ((a @ b @ c @ d @ e) ! 12)"
    by (subst nth_map) simp_all
  then have v: "isVersionNibbleValid (?hx ! 12) = isVersionNibbleValid (u ! 14)"
    unfolding groups_version [OF assms(2)] assms(4) by (simp only: version_nibble_lower)
  have gl: "group_lengths (map ascii_lower a) (map ascii_lower b) (map ascii_lower c)
      (map ascii_lower d) (map ascii_lower e)"
    using assms(2) by (simp add: group_lengths_def)
  have r: "reconstructCanonical ?hx = map ascii_lower u"
    using reconstruct_groups [OF gl] assms(4) by (simp add: map_lower_uuid_text)
  show ?thesis
    using Decode_registered [OF assms(1) isHexLower_groups [OF assms(2,3)]]
    unfolding v r assms(5) .
qed

lemma Decode_Inr:
  "Decode w = Inr d \<longleftrightarrow>
     (\<exists>t hx. w = t @ ''_'' @ hx \<and> Types t \<noteq> None \<and> isHexLower hx \<and> isVersionNibbleValid (hx ! 12)
        \<and> d = \<lparr>dec_Type = t, dec_UUID = reconstructCanonical hx\<rparr>)"
proof -
  have "Decode w = Inr d \<longleftrightarrow> (\<exists>t hx. decodeShape w = Inr (t, hx) \<and> Types t \<noteq> None \<and>
      d = \<lparr>dec_Type = t, dec_UUID = reconstructCanonical hx\<rparr>)"
    by (auto simp: Decode_def assertType_def split: sum.splits option.splits)
  then show ?thesis
    unfolding decodeShape_Inr using registered_no_underscore by blast
qed

lemma DecodeAny_Inr:
  "DecodeAny w = Inr d \<longleftrightarrow>
     (\<exists>t hx. w = t @ ''_'' @ hx \<and> t \<noteq> [] \<and> CHR ''_'' \<notin> set t \<and> isHexLower hx \<and>
        isVersionNibbleValid (hx ! 12) \<and> d = \<lparr>dec_Type = t, dec_UUID = reconstructCanonical hx\<rparr>)"
proof -
  have "DecodeAny w = Inr d \<longleftrightarrow> (\<exists>t hx. decodeShape w = Inr (t, hx) \<and>
      d = \<lparr>dec_Type = t, dec_UUID = reconstructCanonical hx\<rparr>)"
    by (auto simp: DecodeAny_def split: sum.splits)
  then show ?thesis unfolding decodeShape_Inr by blast
qed

subsection \<open>Which texts are valid\<close>

lemma IsValid_Decode:
  "IsValid s wants \<longleftrightarrow>
     (\<exists>d. Decode s = Inr d \<and> (\<forall>want \<in> set wants. want = '''' \<or> want = dec_Type d))"
  by (auto simp: IsValid_def list_ex_iff split: sum.splits)

lemma IsValid_grammar:
  "IsValid s wants \<longleftrightarrow>
     (\<exists>t hx. s = t @ ''_'' @ hx \<and> Types t \<noteq> None \<and> isHexLower hx \<and>
        isVersionNibbleValid (hx ! 12) \<and> (\<forall>want \<in> set wants. want = '''' \<or> want = t))"
  unfolding IsValid_Decode Decode_Inr by fastforce

lemma IsValid_type: "t \<noteq> '''' \<Longrightarrow> IsValid s [t] \<Longrightarrow> \<exists>hx. s = t @ ''_'' @ hx \<and> isHexLower hx"
  by (auto simp: IsValid_grammar)

lemma IsValid_no_char:
  assumes "IsValid s [t]" and "t \<noteq> ''''" and "c \<notin> set t" and "c \<noteq> CHR ''_''"
    and "\<not> in_class hex_lower c"
  shows "c \<notin> set s"
  using IsValid_type [OF assms(2,1)] assms(3-5)
  by (auto simp: isHexLower_class list_all_iff)

lemma IsValidShape_grammar:
  "IsValidShape s \<longleftrightarrow>
     (\<exists>t hx. s = t @ ''_'' @ hx \<and> t \<noteq> [] \<and> CHR ''_'' \<notin> set t \<and> isHexLower hx \<and>
        isVersionNibbleValid (hx ! 12))"
proof -
  have "IsValidShape s \<longleftrightarrow> (\<exists>d. DecodeAny s = Inr d)"
    by (simp add: IsValidShape_def split: sum.splits)
  then show ?thesis unfolding DecodeAny_Inr by blast
qed

lemma Generate_NewV7:
  assumes "uuid_ok lib" and "Types typ \<noteq> None" and "uuid_NewV7 lib n = Inr u"
  obtains w where "Generate lib n typ = Inr w" "Decode w = Inr \<lparr>dec_Type = typ, dec_UUID = u\<rparr>"
proof -
  obtain a b c d e where u: "u = uuid_text a b c d e" "group_lengths a b c d e"
    "list_all (in_class hex_lower) (a @ b @ c @ d @ e)" "hd c = CHR ''7''"
    using assms(1,3) unfolding uuid_ok_def uuid_NewV7_spec_def by blast
  note h = list_all_is_hex [OF u(3)]
  have ps: "uuid_Parse_spec (uuid_Parse lib)" using assms(1) by (simp add: uuid_ok_def)
  have "u ! 14 = CHR ''7''"
    using u(1,2,4) by (cases c) (auto simp: uuid_text_def group_lengths_def nth_append)
  then have v: "isVersionNibbleValid (u ! 14)" by (simp add: isVersionNibbleValid_def)
  have lower: "map ascii_lower u = u"
    using u(1,3) by (simp add: uuid_text_def map_lower_hex)
  have "Generate lib n typ = Inr (typ @ ''_'' @ map ascii_lower (a @ b @ c @ d @ e))"
    using assms(2,3) Encode_text [OF ps assms(2) u(2) h] u(1)
    by (auto simp: Generate_def assertType_def)
  then show ?thesis
    using that Decode_encoded [OF assms(2) u(2) h u(1) refl] v lower by simp
qed

lemma Generate_Inr:
  assumes "uuid_ok lib" and "Generate lib n typ = Inr w"
  shows "Types typ \<noteq> None" and "IsValid w [typ]"
proof -
  obtain u where u: "Types typ \<noteq> None" "uuid_NewV7 lib n = Inr u"
    using assms(2) by (auto simp: Generate_def assertType_def split: option.splits sum.splits)
  then show "Types typ \<noteq> None" by simp
  obtain w' where "Generate lib n typ = Inr w'" "Decode w' = Inr \<lparr>dec_Type = typ, dec_UUID = u\<rparr>"
    using Generate_NewV7 [OF assms(1) u] by blast
  then show "IsValid w [typ]" using assms(2) by (simp add: IsValid_def)
qed

lemma demo_Parse_spec: "uuid_Parse_spec demo_Parse"
  by (simp add: uuid_Parse_spec_def demo_Parse_def uuid_text_def group_lengths_def substr_def)

subsection \<open>The registered prefixes\<close>

interpretation string_order: key_order "\<lambda>x y. x < y" "\<lambda>s :: string. s"
  by unfold_locales simp

lemma visits_type_table: "visits (map fst type_table) Types"
  by (simp add: visits_def Types_def dom_map_of_conv_image_fst) (simp add: type_table_def)

lemma RegisteredPrefixes_sorted:
  assumes "visits ks Types"
  shows "RegisteredPrefixes ks =
    [''aud'', ''cred'', ''file'', ''flag'', ''inv'', ''mem'', ''mfa'', ''not'', ''org'', ''pat'',
     ''ses'', ''shr'', ''tup'', ''usr'']"
proof -
  have "filter (\<lambda>k. Types k \<noteq> None) ks = ks"
    using assms by (auto simp: visits_def filter_id_conv)
  then have "RegisteredPrefixes ks = sort ks"
    by (simp add: RegisteredPrefixes_def string_order.go_sort_sort_key)
  also have "\<dots> = sort (map fst type_table)"
    using visits_mset [OF assms visits_type_table] by (intro sort_key_inj_key_eq) simp_all
  also have "\<dots> = [''aud'', ''cred'', ''file'', ''flag'', ''inv'', ''mem'', ''mfa'', ''not'',
      ''org'', ''pat'', ''ses'', ''shr'', ''tup'', ''usr'']"
    by (simp add: type_table_def)
  finally show ?thesis .
qed

subsection \<open>Properties\<close>

text \<open>C25: decoding an encoded identifier gives back the type and the UUID in lower case, unless
  the version nibble of the UUID is outside 1..8: \<open>Encode\<close> accepts such a UUID (the nil UUID, for
  one) and \<open>Decode\<close> rejects what it made.\<close>

theorem Decode_Encode:
  assumes "uuid_Parse_spec parse" and "Encode parse t u = Inr w"
  shows "Decode w =
    (if isVersionNibbleValid (u ! 14) then Inr \<lparr>dec_Type = t, dec_UUID = map ascii_lower u\<rparr>
     else Inl (InvalidIDError (''id payload is not a valid UUID: '' @ w)))"
proof -
  obtain a b c d e where g: "Types t \<noteq> None" "u = uuid_text a b c d e" "group_lengths a b c d e"
    "list_all is_hex (a @ b @ c @ d @ e)" "w = t @ ''_'' @ map ascii_lower (a @ b @ c @ d @ e)"
    using Encode_Inr [OF assms] by blast
  show ?thesis by (rule Decode_encoded [OF g(1,3,4,2,5)])
qed

theorem Decode_Encode_witness:
  "Decode ''usr_0190f2a81b3c7abc8123456789abcdef''
     = Inr \<lparr>dec_Type = ''usr'', dec_UUID = ''0190f2a8-1b3c-7abc-8123-456789abcdef''\<rparr>"
proof -
  have e: "Encode demo_Parse ''usr'' ''0190F2A8-1b3c-7abc-8123-456789abcdef''
      = Inr ''usr_0190f2a81b3c7abc8123456789abcdef''" by code_simp
  have l: "map ascii_lower ''0190F2A8-1b3c-7abc-8123-456789abcdef''
      = ''0190f2a8-1b3c-7abc-8123-456789abcdef''" by code_simp
  have v: "isVersionNibbleValid (''0190F2A8-1b3c-7abc-8123-456789abcdef'' ! 14)" by code_simp
  show ?thesis using Decode_Encode [OF demo_Parse_spec e] unfolding l if_P [OF v] .
qed

text \<open>encoding a decoded identifier gives back the identifier.\<close>

theorem Encode_Decode:
  assumes "uuid_Parse_spec parse" and "Decode w = Inr d"
  shows "Encode parse (dec_Type d) (dec_UUID d) = Inr w"
proof -
  obtain t hx where w: "w = t @ ''_'' @ hx" "Types t \<noteq> None" "isHexLower hx"
    "d = \<lparr>dec_Type = t, dec_UUID = reconstructCanonical hx\<rparr>"
    using assms(2) by (auto simp: Decode_Inr)
  have hx: "length hx = 32" "list_all (in_class hex_lower) hx"
    using w(3) by (simp_all add: isHexLower_class)
  obtain a b c d' e where g: "hx = a @ b @ c @ d' @ e" "group_lengths a b c d' e"
    using hex_groups_exist [OF hx(1)] by blast
  have h: "list_all is_hex (a @ b @ c @ d' @ e)"
    using hx(2) unfolding g(1) by (rule list_all_is_hex)
  show ?thesis
    using Encode_text [OF assms(1) w(2) g(2) h] reconstruct_groups [OF g(2)] w(1,4)
      map_lower_hex [OF hx(2)] by (simp add: g(1))
qed

theorem Encode_Decode_witness:
  "Encode demo_Parse ''flag'' ''0190f2a8-1b3c-8abc-8123-456789abcdef''
     = Inr ''flag_0190f2a81b3c8abc8123456789abcdef''"
proof -
  have d: "Decode ''flag_0190f2a81b3c8abc8123456789abcdef''
     = Inr \<lparr>dec_Type = ''flag'', dec_UUID = ''0190f2a8-1b3c-8abc-8123-456789abcdef''\<rparr>" by code_simp
  show ?thesis using Encode_Decode [OF demo_Parse_spec d] by simp
qed

text \<open>\<open>Generate\<close> fails exactly when the prefix is not registered or the UUID generator fails,
  and otherwise returns an identifier that \<open>IsValid\<close> accepts for that type and that decodes to the
  type and the generated UUID.\<close>

theorem Generate_total:
  assumes "uuid_ok lib"
  shows "case Types typ of
      None \<Rightarrow> Generate lib n typ = Inl (InvalidTypeError typ) \<and> MustGenerate lib n typ = None
    | Some _ \<Rightarrow>
        (case uuid_NewV7 lib n of
           Inl msg \<Rightarrow> Generate lib n typ = Inl (InvalidIDError (''uuid v7 generation failed: '' @ msg))
         | Inr u \<Rightarrow> \<exists>w. Generate lib n typ = Inr w \<and> MustGenerate lib n typ = Some w \<and>
             Decode w = Inr \<lparr>dec_Type = typ, dec_UUID = u\<rparr> \<and> IsValid w [typ])"
proof (cases "Types typ")
  case None
  then show ?thesis by (simp add: Generate_def MustGenerate_def assertType_def)
next
  case (Some name)
  show ?thesis
  proof (cases "uuid_NewV7 lib n")
    case (Inl msg)
    with Some show ?thesis by (simp add: Generate_def assertType_def)
  next
    case (Inr u)
    obtain w where w: "Generate lib n typ = Inr w" "Decode w = Inr \<lparr>dec_Type = typ, dec_UUID = u\<rparr>"
      using Generate_NewV7 [OF assms _ Inr, of "typ"] Some by auto
    moreover have "IsValid w [typ]" using w(2) by (simp add: IsValid_def)
    ultimately show ?thesis using Some Inr by (simp add: MustGenerate_def)
  qed
qed

lemma demo_lib_ok: "uuid_ok (demo_lib ''0190f2a8-1b3c-7abc-8123-456789abcdef'')"
proof -
  have "uuid_NewV7_spec (\<lambda>_. Inr ''0190f2a8-1b3c-7abc-8123-456789abcdef'')"
    unfolding uuid_NewV7_spec_def
    by (intro allI impI exI [of _ "''0190f2a8''"] exI [of _ "''1b3c''"] exI [of _ "''7abc''"]
        exI [of _ "''8123''"] exI [of _ "''456789abcdef''"])
      (simp add: uuid_text_def group_lengths_def class_defs)
  then show ?thesis by (simp add: uuid_ok_def demo_lib_def demo_Parse_spec)
qed

theorem Generate_total_witness:
  "\<exists>w. Generate (demo_lib ''0190f2a8-1b3c-7abc-8123-456789abcdef'') 0 ''tup'' = Inr w
     \<and> IsValid w [''tup'']"
proof -
  have t: "Types ''tup'' = Some ''authorization_tuple''" by (simp add: Types_def type_table_def)
  have n: "uuid_NewV7 (demo_lib ''0190f2a8-1b3c-7abc-8123-456789abcdef'') 0
      = Inr ''0190f2a8-1b3c-7abc-8123-456789abcdef''" by (simp add: demo_lib_def)
  show ?thesis using Generate_total [OF demo_lib_ok, of 0 "''tup''"] unfolding t n by auto
qed

text \<open>A generator that hands out two different identifiers per call, for the concrete runs.\<close>

definition demo_uuid :: "char \<Rightarrow> nat \<Rightarrow> string" where
  "demo_uuid x n = ''0190f2a8-1b3c-7abc-8123-456789abcd'' @ [x, if n = 0 then CHR ''0'' else CHR ''1'']"

definition demo_seq :: "char \<Rightarrow> uuid_lib" where
  "demo_seq x = \<lparr>uuid_Parse = demo_Parse, uuid_NewV7 = (\<lambda>n. Inr (demo_uuid x n))\<rparr>"

lemma demo_seq_ok: "in_class hex_lower x \<Longrightarrow> uuid_ok (demo_seq x)"
proof -
  assume x: "in_class hex_lower x"
  have "uuid_NewV7_spec (\<lambda>n. Inr (demo_uuid x n))"
    unfolding uuid_NewV7_spec_def
    by (intro allI impI exI [of _ "''0190f2a8''"] exI [of _ "''1b3c''"] exI [of _ "''7abc''"]
        exI [of _ "''8123''"] exI [of _ "''456789abcd'' @ [x, if _ = 0 then CHR ''0'' else CHR ''1'']"])
      (use x in \<open>auto simp: uuid_text_def group_lengths_def class_defs demo_uuid_def\<close>)
  then show ?thesis by (simp add: uuid_ok_def demo_seq_def demo_Parse_spec)
qed

subsection \<open>Fresh identifiers\<close>

text \<open>UUIDs are unique: the identifier generated for this call is not in the store yet.\<close>

definition fresh_for :: "uuid_lib \<Rightarrow> nat \<Rightarrow> string \<Rightarrow> (string \<rightharpoonup> 'v) \<Rightarrow> bool" where
  "fresh_for lib n typ1 m \<longleftrightarrow> (\<forall>w. Generate lib n typ1 = Inr w \<longrightarrow> m w = None)"

lemma fresh_for_code [code]:
  "fresh_for lib n typ1 m \<longleftrightarrow> (case Generate lib n typ1 of Inl _ \<Rightarrow> True | Inr w \<Rightarrow> m w = None)"
  by (auto simp: fresh_for_def split: sum.split)

lemma Generate_nonempty: "Generate lib n t = Inr w \<Longrightarrow> w \<noteq> ''''"
  by (auto simp: Generate_def Encode_def Let_def split: option.splits sum.splits if_splits)

end
