(* ===== verification/AuthzTypes.thy ===== *)
theory AuthzTypes
  imports Regexp Ids
begin

text \<open>
  \<open>packages/authz/errors.go\<close> and \<open>patterns.go\<close>: the error values of the authorization layer
  (an error that \<open>fmt.Errorf\<close> wraps is its sentinel with the identifier it names; message texts
  are left out), their codes, and the two name patterns.
\<close>

datatype authz_error =
    ErrTupleNotFound string
  | ErrDuplicateTuple string
  | ErrEmptyRelationSet
  | ErrInvalidFormat string
  | ErrShareNotFound string
  | ErrInvalidShareToken
  | ErrShareExpired
  | ErrShareRevoked
  | ErrShareConsumed
  | ErrEvaluationLimit
  | ErrUnknownRuleNode
  | ErrGenerate id_error
  | ErrRandom string

fun authz_ErrorCode :: "authz_error \<Rightarrow> string" where
  "authz_ErrorCode (ErrTupleNotFound _) = ''not_found''"
| "authz_ErrorCode (ErrDuplicateTuple _) = ''conflict.duplicate_tuple''"
| "authz_ErrorCode ErrEmptyRelationSet = ''invalid_request.empty_relation_set''"
| "authz_ErrorCode (ErrInvalidFormat _) = ''invalid_format''"
| "authz_ErrorCode (ErrShareNotFound _) = ''share.not_found''"
| "authz_ErrorCode ErrInvalidShareToken = ''share.invalid_token''"
| "authz_ErrorCode ErrShareExpired = ''share.expired''"
| "authz_ErrorCode ErrShareRevoked = ''share.revoked''"
| "authz_ErrorCode ErrShareConsumed = ''share.consumed''"
| "authz_ErrorCode ErrEvaluationLimit = ''authz.evaluation_limit''"
| "authz_ErrorCode ErrUnknownRuleNode = ''''"
| "authz_ErrorCode (ErrGenerate _) = ''''"
| "authz_ErrorCode (ErrRandom _) = ''''"

fun IsTupleNotFound :: "authz_error \<Rightarrow> bool" where
  "IsTupleNotFound (ErrTupleNotFound _) = True"
| "IsTupleNotFound _ = False"

fun IsDuplicateTuple :: "authz_error \<Rightarrow> bool" where
  "IsDuplicateTuple (ErrDuplicateTuple _) = True"
| "IsDuplicateTuple _ = False"

fun IsInvalidShareToken :: "authz_error \<Rightarrow> bool" where
  "IsInvalidShareToken ErrInvalidShareToken = True"
| "IsInvalidShareToken (ErrShareNotFound _) = True"
| "IsInvalidShareToken ErrShareExpired = True"
| "IsInvalidShareToken ErrShareRevoked = True"
| "IsInvalidShareToken ErrShareConsumed = True"
| "IsInvalidShareToken _ = False"

definition RelationNamePattern :: rx where
  "RelationNamePattern = Rng (az @ single (CHR ''_'')) 2 (Some 32)"

definition TypePrefixPattern :: rx where
  "TypePrefixPattern = Rng az 2 (Some 6)"

lemma bar_not_in_classes [simp]:
  "\<not> in_class az (CHR ''|'')" "\<not> in_class (single (CHR ''_'')) (CHR ''|'')"
  by (simp_all add: class_defs)

lemma pattern_no_bar:
  "rx_match RelationNamePattern s \<Longrightarrow> CHR ''|'' \<notin> set s"
  "rx_match TypePrefixPattern s \<Longrightarrow> CHR ''|'' \<notin> set s"
  using list_all_class_not [of "az @ single (CHR ''_'')" s "CHR ''|''"]
    list_all_class_not [of az s "CHR ''|''"]
  by (auto simp: RelationNamePattern_def TypePrefixPattern_def)

end
