(* ===== verification/AuthzRewrite.thy ===== *)
theory AuthzRewrite
  imports AuthzTypes
begin

text \<open>
  \<open>packages/authz/rewrite_rules.go\<close>: rewrite rules and their evaluation.  A rule node is one of
  the three kinds of the source; \<open>OtherNode\<close> is any other value of the \<open>RuleNode\<close> interface (a nil
  interface or a pointer to one of the kinds), which the \<open>default\<close> case of the type switch
  rejects.  The recursion of \<open>rec\<close> is bounded by \<open>maxDepth\<close>: \<open>eval_rec\<close> takes the remaining
  depth \<open>maxDepth - depth\<close>, so that \<open>0\<close> is the failed depth check.  The callbacks are functions
  of the model: evaluation runs against one state of the store.

  \<open>grants\<close> is what the rules mean.  \<open>eval_rec_sound\<close> and \<open>eval_rec_complete\<close> show that the
  evaluation with its cycle check decides it, and \<open>eval_rec_no_error\<close> that it never reports a
  limit when the limits are at least the number of frames and the fan-out.
\<close>

datatype rule_node =
    This
  | ComputedUserset string
  | TupleToUserset string string
  | OtherNode

type_synonym Rule = "rule_node list"
type_synonym Rules = "string \<rightharpoonup> (string \<rightharpoonup> Rule)"

definition DefaultMaxDepth :: int where "DefaultMaxDepth = 8"
definition DefaultMaxFanOut :: int where "DefaultMaxFanOut = 1024"

record SubjectRef =
  ref_SubjectType :: string
  ref_SubjectID :: string
  ref_TupleID :: string

record EvaluationResult =
  Allowed :: bool
  MatchedTupleID :: string

record evalFrame =
  frame_Relation :: string
  frame_ObjectType :: string
  frame_ObjectID :: string

record EvaluateOptions =
  MaxDepth :: int
  MaxFanOut :: int

definition maxDepth :: "EvaluateOptions \<Rightarrow> int" where
  "maxDepth o1 = (if MaxDepth o1 = 0 then DefaultMaxDepth else MaxDepth o1)"

definition maxFanOut :: "EvaluateOptions \<Rightarrow> int" where
  "maxFanOut o1 = (if MaxFanOut o1 = 0 then DefaultMaxFanOut else MaxFanOut o1)"

type_synonym DirectLookup = "string \<Rightarrow> string \<Rightarrow> string \<Rightarrow> string \<Rightarrow> string \<Rightarrow> string option"
type_synonym ListByObject = "string \<Rightarrow> string \<Rightarrow> string \<Rightarrow> SubjectRef list"
type_synonym eval_result = "authz_error + EvaluationResult"

definition denied :: EvaluationResult where
  "denied = \<lparr>Allowed = False, MatchedTupleID = ''''\<rparr>"

text \<open>The variables that \<open>rec\<close> captures.\<close>

record eval_env =
  env_rules :: "Rules option"
  env_subjectType :: string
  env_subjectID :: string
  env_directLookup :: DirectLookup
  env_listByObject :: ListByObject
  env_maxFanOut :: int

fun expand_subs :: "(SubjectRef \<Rightarrow> eval_result) \<Rightarrow> SubjectRef list \<Rightarrow> eval_result" where
  "expand_subs f [] = Inr denied"
| "expand_subs f (sub # related) =
     (case f sub of Inl err \<Rightarrow> Inl err
      | Inr r \<Rightarrow> if Allowed r then Inr r else expand_subs f related)"

fun expand_nodes ::
  "eval_env \<Rightarrow> (string \<Rightarrow> string \<Rightarrow> string \<Rightarrow> eval_result) \<Rightarrow> string \<Rightarrow> string \<Rightarrow> Rule \<Rightarrow> eval_result"
where
  "expand_nodes E call objectType objectID [] = Inr denied"
| "expand_nodes E call objectType objectID (This # nodes) =
     expand_nodes E call objectType objectID nodes"
| "expand_nodes E call objectType objectID (ComputedUserset rel # nodes) =
     (case call rel objectType objectID of Inl err \<Rightarrow> Inl err
      | Inr r \<Rightarrow> if Allowed r then Inr r else expand_nodes E call objectType objectID nodes)"
| "expand_nodes E call objectType objectID (TupleToUserset tuplesetRel computedRel # nodes) =
     (let related = env_listByObject E objectType objectID tuplesetRel
      in if int (length related) > env_maxFanOut E then Inl ErrEvaluationLimit
         else case expand_subs (\<lambda>sub. call computedRel (ref_SubjectType sub) (ref_SubjectID sub)) related of
           Inl err \<Rightarrow> Inl err
         | Inr r \<Rightarrow> if Allowed r then Inr r else expand_nodes E call objectType objectID nodes)"
| "expand_nodes E call objectType objectID (OtherNode # nodes) = Inl ErrUnknownRuleNode"

definition rule_of :: "eval_env \<Rightarrow> string \<Rightarrow> string \<Rightarrow> Rule option" where
  "rule_of E objectType relation =
     (case env_rules E of None \<Rightarrow> None
      | Some rules \<Rightarrow> (case rules objectType of None \<Rightarrow> None | Some byObj \<Rightarrow> byObj relation))"

text \<open>One activation of \<open>rec\<close>; \<open>deeper\<close> is \<open>None\<close> when \<open>depth >= maxDepth\<close>.\<close>

definition eval_frame ::
  "eval_env \<Rightarrow> (evalFrame list \<Rightarrow> string \<Rightarrow> string \<Rightarrow> string \<Rightarrow> eval_result) option \<Rightarrow>
   evalFrame list \<Rightarrow> string \<Rightarrow> string \<Rightarrow> string \<Rightarrow> eval_result"
where
  "eval_frame E deeper stack relation objectType objectID =
     (case env_directLookup E (env_subjectType E) (env_subjectID E) relation objectType objectID of
        Some tid \<Rightarrow> Inr \<lparr>Allowed = True, MatchedTupleID = tid\<rparr>
      | None \<Rightarrow>
          (case rule_of E objectType relation of
             None \<Rightarrow> Inr denied
           | Some rule \<Rightarrow>
               let frame = \<lparr>frame_Relation = relation, frame_ObjectType = objectType,
                            frame_ObjectID = objectID\<rparr>
               in if list_ex (\<lambda>f. f = frame) stack then Inr denied
                  else case deeper of
                    None \<Rightarrow> Inl ErrEvaluationLimit
                  | Some call \<Rightarrow>
                      expand_nodes E (call (stack @ [frame])) objectType objectID rule))"

primrec eval_rec ::
  "eval_env \<Rightarrow> nat \<Rightarrow> evalFrame list \<Rightarrow> string \<Rightarrow> string \<Rightarrow> string \<Rightarrow> eval_result" where
  "eval_rec E 0 = eval_frame E None"
| "eval_rec E (Suc remaining) = eval_frame E (Some (eval_rec E remaining))"

definition captured ::
  "Rules option \<Rightarrow> string \<Rightarrow> string \<Rightarrow> DirectLookup \<Rightarrow> ListByObject \<Rightarrow> EvaluateOptions \<Rightarrow> eval_env"
where
  "captured rules subjectType subjectID directLookup listByObject opts =
     \<lparr>env_rules = rules, env_subjectType = subjectType, env_subjectID = subjectID,
      env_directLookup = directLookup, env_listByObject = listByObject,
      env_maxFanOut = maxFanOut opts\<rparr>"

definition Evaluate ::
  "Rules option \<Rightarrow> string \<Rightarrow> string \<Rightarrow> string \<Rightarrow> string \<Rightarrow> string \<Rightarrow>
   DirectLookup \<Rightarrow> ListByObject \<Rightarrow> EvaluateOptions \<Rightarrow> eval_result"
where
  "Evaluate rules subjectType subjectID relation objectType objectID directLookup listByObject opts =
     eval_rec (captured rules subjectType subjectID directLookup listByObject opts)
       (nat (maxDepth opts)) [] relation objectType objectID"

subsection \<open>The meaning of the rules\<close>

inductive grants :: "eval_env \<Rightarrow> string \<Rightarrow> string \<Rightarrow> string \<Rightarrow> bool" for E where
  grants_direct:
    "env_directLookup E (env_subjectType E) (env_subjectID E) rel ot oid = Some tid \<Longrightarrow>
     grants E rel ot oid"
| grants_computed:
    "rule_of E ot rel = Some rule \<Longrightarrow> ComputedUserset rel' \<in> set rule \<Longrightarrow> grants E rel' ot oid \<Longrightarrow>
     grants E rel ot oid"
| grants_userset:
    "rule_of E ot rel = Some rule \<Longrightarrow> TupleToUserset ts cu \<in> set rule \<Longrightarrow>
     sub \<in> set (env_listByObject E ot oid ts) \<Longrightarrow>
     grants E cu (ref_SubjectType sub) (ref_SubjectID sub) \<Longrightarrow> grants E rel ot oid"

text \<open>The frames that an activation of \<open>rec\<close> calls.\<close>

definition callees :: "eval_env \<Rightarrow> string \<Rightarrow> string \<Rightarrow> string \<Rightarrow> (string \<times> string \<times> string) set" where
  "callees E rel ot oid =
     (case rule_of E ot rel of None \<Rightarrow> {}
      | Some rule \<Rightarrow> {(rel', ot, oid) |rel'. ComputedUserset rel' \<in> set rule} \<union>
          {(cu, ref_SubjectType sub, ref_SubjectID sub) |ts cu sub.
             TupleToUserset ts cu \<in> set rule \<and> sub \<in> set (env_listByObject E ot oid ts)})"

definition direct :: "eval_env \<Rightarrow> string \<Rightarrow> string \<Rightarrow> string \<Rightarrow> bool" where
  "direct E rel ot oid \<longleftrightarrow>
     env_directLookup E (env_subjectType E) (env_subjectID E) rel ot oid \<noteq> None"

lemma grants_callee: "(rel', ot', oid') \<in> callees E rel ot oid \<Longrightarrow> grants E rel' ot' oid' \<Longrightarrow> grants E rel ot oid"
  by (auto simp: callees_def split: option.splits intro: grants_computed grants_userset)

lemma grants_unfold:
  "grants E rel ot oid \<longleftrightarrow>
     direct E rel ot oid \<or> (\<exists>(rel', ot', oid') \<in> callees E rel ot oid. grants E rel' ot' oid')"
proof
  assume "grants E rel ot oid"
  then show "direct E rel ot oid \<or> (\<exists>(rel', ot', oid') \<in> callees E rel ot oid. grants E rel' ot' oid')"
    by (cases rule: grants.cases) (fastforce simp: direct_def callees_def)+
next
  assume "direct E rel ot oid \<or> (\<exists>(rel', ot', oid') \<in> callees E rel ot oid. grants E rel' ot' oid')"
  then show "grants E rel ot oid"
    by (auto simp: direct_def intro: grants_direct grants_callee)
qed

text \<open>Derivations of bounded height.\<close>

primrec grants_within :: "eval_env \<Rightarrow> nat \<Rightarrow> string \<times> string \<times> string \<Rightarrow> bool" where
  "grants_within E 0 f = (case f of (rel, ot, oid) \<Rightarrow> direct E rel ot oid)"
| "grants_within E (Suc n) f = (case f of (rel, ot, oid) \<Rightarrow>
     direct E rel ot oid \<or> (\<exists>g \<in> callees E rel ot oid. grants_within E n g))"

lemma grants_within_Suc: "grants_within E n f \<Longrightarrow> grants_within E (Suc n) f"
proof (induction n arbitrary: f)
  case 0
  then show ?case by (cases f) simp
next
  case (Suc n)
  obtain rel ot oid where f: "f = (rel, ot, oid)" by (cases f)
  from Suc.prems have "direct E rel ot oid \<or> (\<exists>g \<in> callees E rel ot oid. grants_within E n g)"
    by (simp add: f)
  with Suc.IH have "direct E rel ot oid \<or> (\<exists>g \<in> callees E rel ot oid. grants_within E (Suc n) g)"
    by blast
  then show ?case unfolding grants_within.simps(2) [of E "Suc n"] f prod.case .
qed

lemma grants_height: "grants E rel ot oid \<Longrightarrow> \<exists>n. grants_within E n (rel, ot, oid)"
proof (induction rule: grants.induct)
  case (grants_direct rel ot oid tid)
  then have "grants_within E 0 (rel, ot, oid)" by (simp add: direct_def)
  then show ?case ..
next
  case (grants_computed ot rel rule rel' oid)
  then obtain n where n: "grants_within E n (rel', ot, oid)" by blast
  have "(rel', ot, oid) \<in> callees E rel ot oid"
    using grants_computed by (simp add: callees_def)
  with n have "grants_within E (Suc n) (rel, ot, oid)" by auto
  then show ?case ..
next
  case (grants_userset ot rel rule ts cu sub oid)
  then obtain n where n: "grants_within E n (cu, ref_SubjectType sub, ref_SubjectID sub)" by blast
  have "(cu, ref_SubjectType sub, ref_SubjectID sub) \<in> callees E rel ot oid"
    using grants_userset by (auto simp: callees_def)
  with n have "grants_within E (Suc n) (rel, ot, oid)" by auto
  then show ?case ..
qed

subsection \<open>The loops over nodes and subjects\<close>

lemma expand_subs_allowed:
  "expand_subs f subs = Inr r \<Longrightarrow> Allowed r \<Longrightarrow> \<exists>sub \<in> set subs. f sub = Inr r"
  by (induction subs) (auto simp: denied_def split: sum.splits if_splits)

lemma expand_subs_not_denied:
  "sub \<in> set subs \<Longrightarrow> (\<forall>r. f sub = Inr r \<longrightarrow> Allowed r) \<Longrightarrow> expand_subs f subs = Inr r \<Longrightarrow> Allowed r"
  by (induction subs) (auto split: sum.splits if_splits)

lemma expand_subs_Inl:
  "expand_subs f subs = Inl e \<Longrightarrow> \<exists>sub \<in> set subs. f sub = Inl e"
  by (induction subs) (auto split: sum.splits if_splits)

text \<open>Which calls the node loop makes for a rule that is in place for a frame.\<close>

lemma callees_computed:
  "rule_of E ot rel = Some rule \<Longrightarrow> ComputedUserset rel' \<in> set rule \<Longrightarrow>
   (rel', ot, oid) \<in> callees E rel ot oid"
  by (simp add: callees_def)

lemma callees_userset:
  "rule_of E ot rel = Some rule \<Longrightarrow> TupleToUserset ts cu \<in> set rule \<Longrightarrow>
   sub \<in> set (env_listByObject E ot oid ts) \<Longrightarrow>
   (cu, ref_SubjectType sub, ref_SubjectID sub) \<in> callees E rel ot oid"
  by (auto simp: callees_def)

definition node_calls :: "eval_env \<Rightarrow> string \<Rightarrow> string \<Rightarrow> rule_node \<Rightarrow> (string \<times> string \<times> string) set" where
  "node_calls E ot oid node =
     (case node of ComputedUserset rel' \<Rightarrow> {(rel', ot, oid)}
      | TupleToUserset ts cu \<Rightarrow>
          (\<lambda>sub. (cu, ref_SubjectType sub, ref_SubjectID sub)) ` set (env_listByObject E ot oid ts)
      | _ \<Rightarrow> {})"

lemma callees_nodes:
  "rule_of E ot rel = Some rule \<Longrightarrow> callees E rel ot oid = (\<Union>node \<in> set rule. node_calls E ot oid node)"
  by (auto simp: callees_def node_calls_def image_iff split: rule_node.splits) fastforce+

lemma expand_nodes_allowed:
  "expand_nodes E call ot oid nodes = Inr r \<Longrightarrow> Allowed r \<Longrightarrow>
   \<exists>node \<in> set nodes. \<exists>(rel', ot', oid') \<in> node_calls E ot oid node. call rel' ot' oid' = Inr r"
proof (induction E call ot oid nodes rule: expand_nodes.induct)
  case (3 E call ot oid rel nodes)
  then show ?case by (auto simp: node_calls_def split: sum.splits if_splits)
next
  case (4 E call ot oid ts cu nodes)
  let ?subs = "env_listByObject E ot oid ts"
  obtain r' where r': "\<not> int (length ?subs) > env_maxFanOut E"
    "expand_subs (\<lambda>sub. call cu (ref_SubjectType sub) (ref_SubjectID sub)) ?subs = Inr r'"
    "(if Allowed r' then Inr r' else expand_nodes E call ot oid nodes) = Inr r"
    using "4.prems"(1) by (auto simp: Let_def split: sum.splits if_splits)
  show ?case
  proof (cases "Allowed r'")
    case True
    then have "r' = r" using r'(3) by simp
    with expand_subs_allowed [OF r'(2)] True
    obtain sub where "sub \<in> set ?subs" "call cu (ref_SubjectType sub) (ref_SubjectID sub) = Inr r"
      by blast
    then show ?thesis by (force simp: node_calls_def)
  next
    case False
    then have "expand_nodes E call ot oid nodes = Inr r" using r'(3) by simp
    with "4.IH" r'(1,2) False "4.prems"(2) show ?thesis by fastforce
  qed
qed (auto simp: denied_def)

lemma expand_nodes_not_denied:
  "node \<in> set nodes \<Longrightarrow> (rel', ot', oid') \<in> node_calls E ot oid node \<Longrightarrow>
   (\<forall>r. call rel' ot' oid' = Inr r \<longrightarrow> Allowed r) \<Longrightarrow>
   expand_nodes E call ot oid nodes = Inr r \<Longrightarrow> Allowed r"
proof (induction E call ot oid nodes rule: expand_nodes.induct)
  case (3 E call ot oid rel nodes)
  then show ?case by (auto simp: node_calls_def split: sum.splits if_splits)
next
  case (4 E call ot oid ts cu nodes)
  let ?subs = "env_listByObject E ot oid ts"
  let ?f = "\<lambda>sub. call cu (ref_SubjectType sub) (ref_SubjectID sub)"
  obtain r' where r': "\<not> int (length ?subs) > env_maxFanOut E" "expand_subs ?f ?subs = Inr r'"
    "(if Allowed r' then Inr r' else expand_nodes E call ot oid nodes) = Inr r"
    using "4.prems"(4) by (auto simp: Let_def split: sum.splits if_splits)
  show ?case
  proof (cases "Allowed r'")
    case True
    with r'(3) show ?thesis by simp
  next
    case False
    have "node \<noteq> TupleToUserset ts cu"
    proof
      assume "node = TupleToUserset ts cu"
      then obtain sub where "sub \<in> set ?subs" "(rel', ot', oid') = (cu, ref_SubjectType sub, ref_SubjectID sub)"
        using "4.prems"(2) by (auto simp: node_calls_def)
      then show False
        using expand_subs_not_denied [of sub ?subs ?f] "4.prems"(3) r'(2) False by auto
    qed
    then have "node \<in> set nodes" using "4.prems"(1) by simp
    with "4.IH" r' False "4.prems"(2,3) show ?thesis by auto
  qed
qed (auto simp: node_calls_def)

lemma expand_nodes_Inl:
  "expand_nodes E call ot oid nodes = Inl e \<Longrightarrow>
   (\<exists>node \<in> set nodes. \<exists>(rel', ot', oid') \<in> node_calls E ot oid node. call rel' ot' oid' = Inl e) \<or>
   OtherNode \<in> set nodes \<or>
   (\<exists>ts cu. TupleToUserset ts cu \<in> set nodes \<and>
      int (length (env_listByObject E ot oid ts)) > env_maxFanOut E)"
proof (induction E call ot oid nodes rule: expand_nodes.induct)
  case (3 E call ot oid rel nodes)
  then show ?case by (auto simp: node_calls_def split: sum.splits if_splits)
next
  case (4 E call ot oid ts cu nodes)
  let ?subs = "env_listByObject E ot oid ts"
  let ?f = "\<lambda>sub. call cu (ref_SubjectType sub) (ref_SubjectID sub)"
  consider (fan) "int (length ?subs) > env_maxFanOut E"
    | (sub) "expand_subs ?f ?subs = Inl e"
    | (next_node) r where "\<not> int (length ?subs) > env_maxFanOut E" "expand_subs ?f ?subs = Inr r"
        "\<not> Allowed r" "expand_nodes E call ot oid nodes = Inl e"
    using "4.prems" by (auto simp: Let_def split: sum.splits if_splits)
  then show ?case
  proof cases
    case sub
    then obtain s where "s \<in> set ?subs" "?f s = Inl e" using expand_subs_Inl by blast
    then show ?thesis by (force simp: node_calls_def)
  next
    case next_node
    with "4.IH" show ?thesis by fastforce
  qed auto
qed auto

subsection \<open>The evaluation decides the meaning\<close>

lemma eval_rec_frame:
  obtains deeper where "eval_rec E n = eval_frame E deeper"
    "n = 0 \<Longrightarrow> deeper = None" "\<And>k. n = Suc k \<Longrightarrow> deeper = Some (eval_rec E k)"
  by (cases n) auto

lemma eval_rec_sound:
  "eval_rec E n stack rel ot oid = Inr r \<Longrightarrow> Allowed r \<Longrightarrow>
   grants E rel ot oid \<and>
   (\<exists>rel' ot' oid'. env_directLookup E (env_subjectType E) (env_subjectID E) rel' ot' oid'
      = Some (MatchedTupleID r))"
proof (induction n arbitrary: stack rel ot oid)
  case 0
  then have "env_directLookup E (env_subjectType E) (env_subjectID E) rel ot oid
      = Some (MatchedTupleID r)"
    by (auto simp: eval_frame_def Let_def denied_def split: option.splits if_splits)
  then show ?case by (blast intro: grants_direct)
next
  case (Suc n)
  show ?case
  proof (cases "env_directLookup E (env_subjectType E) (env_subjectID E) rel ot oid")
    case (Some tid)
    then have "env_directLookup E (env_subjectType E) (env_subjectID E) rel ot oid
        = Some (MatchedTupleID r)"
      using Suc.prems by (auto simp: eval_frame_def)
    then show ?thesis by (blast intro: grants_direct)
  next
    case None
    then obtain rule where rule: "rule_of E ot rel = Some rule"
      "expand_nodes E (eval_rec E n (stack @ [\<lparr>frame_Relation = rel, frame_ObjectType = ot,
         frame_ObjectID = oid\<rparr>])) ot oid rule = Inr r"
      using Suc.prems by (auto simp: eval_frame_def Let_def denied_def split: option.splits if_splits)
    obtain node rel' ot' oid' st where c: "node \<in> set rule" "(rel', ot', oid') \<in> node_calls E ot oid node"
      "eval_rec E n st rel' ot' oid' = Inr r"
      using expand_nodes_allowed [OF rule(2) Suc.prems(2)] by blast
    have "(rel', ot', oid') \<in> callees E rel ot oid"
      using c(1,2) by (auto simp: callees_nodes [OF rule(1)])
    with Suc.IH [OF c(3) Suc.prems(2)] show ?thesis by (blast intro: grants_callee)
  qed
qed

definition frame_key :: "evalFrame \<Rightarrow> string \<times> string \<times> string" where
  "frame_key f = (frame_Relation f, frame_ObjectType f, frame_ObjectID f)"

lemma frame_key_eq:
  "frame_key f = (rel, ot, oid) \<longleftrightarrow>
   f = \<lparr>frame_Relation = rel, frame_ObjectType = ot, frame_ObjectID = oid\<rparr>"
  by (cases f) (auto simp: frame_key_def)

lemma on_stack:
  "list_ex (\<lambda>f. f = \<lparr>frame_Relation = rel, frame_ObjectType = ot, frame_ObjectID = oid\<rparr>) stack
   \<longleftrightarrow> (rel, ot, oid) \<in> frame_key ` set stack"
  by (auto simp: list_ex_iff image_iff frame_key_eq eq_commute [of "(rel, ot, oid)"])

text \<open>
  Completeness by induction on the least height of a derivation: the callee with a smaller
  derivation cannot be cut off by the cycle check, because no frame of the stack has a derivation
  as small.
\<close>

lemma eval_rec_complete:
  assumes "grants_within E h (rel, ot, oid)"
    and "\<forall>g \<in> frame_key ` set stack. \<not> grants_within E h g"
    and "eval_rec E n stack rel ot oid = Inr r"
  shows "Allowed r"
  using assms
proof (induction h arbitrary: n stack rel ot oid r rule: less_induct)
  case (less h)
  let ?f = "(rel, ot, oid)"
  let ?frame = "\<lparr>frame_Relation = rel, frame_ObjectType = ot, frame_ObjectID = oid\<rparr>"
  show ?case
  proof (cases "direct E rel ot oid")
    case True
    then show ?thesis using less.prems(3)
      by (cases n) (auto simp: direct_def eval_frame_def)
  next
    case nodirect: False
    then obtain k where h: "h = Suc k" using less.prems(1) by (cases h) auto
    show ?thesis
    proof (cases "grants_within E k ?f")
      case True
      have "\<forall>g \<in> frame_key ` set stack. \<not> grants_within E k g"
        using less.prems(2) grants_within_Suc [of E k] unfolding h by blast
      with less.IH [of k] True less.prems(3) h show ?thesis by blast
    next
      case False
      obtain g where g: "g \<in> callees E rel ot oid" "grants_within E k g"
        using less.prems(1) nodirect unfolding h by auto
      obtain rule where rule: "rule_of E ot rel = Some rule"
        using g(1) by (auto simp: callees_def split: option.splits)
      obtain node where node: "node \<in> set rule" "g \<in> node_calls E ot oid node"
        using g(1) by (auto simp: callees_nodes [OF rule])
      have off: "?f \<notin> frame_key ` set stack" using less.prems(1,2) by blast
      obtain m where n: "n = Suc m" and e:
        "expand_nodes E (eval_rec E m (stack @ [?frame])) ot oid rule = Inr r"
        using less.prems(3) nodirect rule off
        by (cases n) (auto simp: eval_frame_def direct_def on_stack)
      have stk: "\<forall>x \<in> frame_key ` set (stack @ [?frame]). \<not> grants_within E k x"
      proof
        fix x
        assume "x \<in> frame_key ` set (stack @ [?frame])"
        then consider (new) "x = ?f" | (old) "x \<in> frame_key ` set stack"
          by (auto simp: frame_key_def)
        then show "\<not> grants_within E k x"
        proof cases
          case new
          with False show ?thesis by simp
        next
          case old
          then have "\<not> grants_within E (Suc k) x" using less.prems(2) h by blast
          then show ?thesis using grants_within_Suc by blast
        qed
      qed
      obtain rel' ot' oid' where gt: "g = (rel', ot', oid')" by (cases g)
      have "\<forall>r'. eval_rec E m (stack @ [?frame]) rel' ot' oid' = Inr r' \<longrightarrow> Allowed r'"
        using less.IH [of k rel' ot' oid' "stack @ [?frame]" m] g(2) stk h gt by blast
      then show ?thesis
        using expand_nodes_not_denied [OF node(1) _ _ e] node(2) gt by blast
    qed
  qed
qed

lemma eval_rec_decides:
  assumes "eval_rec E n [] rel ot oid = Inr r"
  shows "Allowed r \<longleftrightarrow> grants E rel ot oid"
proof
  show "grants E rel ot oid" if "Allowed r"
    using eval_rec_sound [OF assms that] by blast
  assume "grants E rel ot oid"
  then obtain h where "grants_within E h (rel, ot, oid)" using grants_height by blast
  with assms show "Allowed r" by (intro eval_rec_complete [of E h]) simp_all
qed

subsection \<open>When no limit is reported\<close>

text \<open>
  \<open>F\<close> holds the frames the evaluation may visit.  With \<open>card F\<close> levels of depth the cycle check
  fires before the depth check: a stack of \<open>card F\<close> different frames of \<open>F\<close> holds them all.
\<close>

definition rules_total :: "eval_env \<Rightarrow> (string \<times> string \<times> string) set \<Rightarrow> bool" where
  "rules_total E F \<longleftrightarrow> (\<forall>(rel, ot, oid) \<in> F. callees E rel ot oid \<subseteq> F \<and>
     (\<forall>rule. rule_of E ot rel = Some rule \<longrightarrow> OtherNode \<notin> set rule \<and>
        (\<forall>ts cu. TupleToUserset ts cu \<in> set rule \<longrightarrow>
           int (length (env_listByObject E ot oid ts)) \<le> env_maxFanOut E)))"

lemma frame_key_inj: "inj frame_key"
  by (rule injI) (auto simp: frame_key_def)

lemma rules_totalD:
  assumes "rules_total E F" and "(rel, ot, oid) \<in> F" and "rule_of E ot rel = Some rule"
  shows "callees E rel ot oid \<subseteq> F" and "OtherNode \<notin> set rule"
    and "TupleToUserset ts cu \<in> set rule \<Longrightarrow>
      int (length (env_listByObject E ot oid ts)) \<le> env_maxFanOut E"
  using bspec [OF assms(1) [unfolded rules_total_def] assms(2)] assms(3) by auto

lemma full_stack:
  assumes "finite F" "frame_key ` set stack \<subseteq> F" "distinct stack" "card F \<le> length stack"
  shows "frame_key ` set stack = F"
proof (rule card_subset_eq [OF assms(1,2)])
  have "card (frame_key ` set stack) = length stack"
    using assms(3) by (simp add: card_image distinct_card inj_on_subset [OF frame_key_inj])
  with assms card_mono [OF assms(1,2)] show "card (frame_key ` set stack) = card F" by simp
qed

lemma eval_rec_no_error:
  assumes "finite F" and "rules_total E F" and "(rel, ot, oid) \<in> F"
    and "frame_key ` set stack \<subseteq> F" and "distinct stack" and "card F \<le> length stack + n"
  shows "eval_rec E n stack rel ot oid \<noteq> Inl e"
  using assms(3-6)
proof (induction n arbitrary: stack rel ot oid)
  case 0
  then have "frame_key ` set stack = F" using assms(1) by (intro full_stack) simp_all
  with 0 show ?case by (auto simp: eval_frame_def on_stack Let_def split: option.splits)
next
  case (Suc n)
  let ?frame = "\<lparr>frame_Relation = rel, frame_ObjectType = ot, frame_ObjectID = oid\<rparr>"
  show ?case
  proof
    assume "eval_rec E (Suc n) stack rel ot oid = Inl e"
    then obtain rule where rule: "rule_of E ot rel = Some rule"
      and off: "(rel, ot, oid) \<notin> frame_key ` set stack"
      and e: "expand_nodes E (eval_rec E n (stack @ [?frame])) ot oid rule = Inl e"
      by (auto simp: eval_frame_def Let_def on_stack split: option.splits if_splits)
    note tot = rules_totalD [OF assms(2) Suc.prems(1) rule]
    obtain node rel' ot' oid' where c: "node \<in> set rule" "(rel', ot', oid') \<in> node_calls E ot oid node"
      "eval_rec E n (stack @ [?frame]) rel' ot' oid' = Inl e"
      using expand_nodes_Inl [OF e] tot(2,3) by fastforce
    have "(rel', ot', oid') \<in> F"
      using c(1,2) tot(1) by (auto simp: callees_nodes [OF rule])
    moreover have "distinct (stack @ [?frame])"
      using Suc.prems(3) off by (force simp: frame_key_def)
    moreover have "frame_key ` set (stack @ [?frame]) \<subseteq> F"
      using Suc.prems(1,2) by (simp add: frame_key_def)
    ultimately show False using Suc.IH [of rel' ot' oid' "stack @ [?frame]"] Suc.prems(4) c(3) by simp
  qed
qed

subsection \<open>The listed \<open>This\<close> nodes\<close>

definition drop_This :: "Rules \<Rightarrow> Rules" where
  "drop_This rules =
     (\<lambda>ot. map_option (\<lambda>byObj rel. map_option (filter (\<lambda>n. n \<noteq> This)) (byObj rel)) (rules ot))"

lemma expand_nodes_drop_This:
  "expand_nodes E call ot oid (filter (\<lambda>n. n \<noteq> This) nodes) = expand_nodes E call ot oid nodes"
  by (induction E call ot oid nodes rule: expand_nodes.induct) (auto simp: Let_def split: sum.splits)

lemma rule_of_drop_This:
  "rule_of (E\<lparr>env_rules := Some (drop_This rules)\<rparr>) ot rel =
   map_option (filter (\<lambda>n. n \<noteq> This)) (rule_of (E\<lparr>env_rules := Some rules\<rparr>) ot rel)"
  by (simp add: rule_of_def drop_This_def split: option.splits)

lemma expand_nodes_env:
  "env_listByObject E = env_listByObject E' \<Longrightarrow> env_maxFanOut E = env_maxFanOut E' \<Longrightarrow>
   expand_nodes E call ot oid nodes = expand_nodes E' call ot oid nodes"
  by (induction E call ot oid nodes rule: expand_nodes.induct) (auto simp: Let_def split: sum.splits)

lemma eval_frame_drop_This:
  "eval_frame (E\<lparr>env_rules := Some (drop_This rules)\<rparr>) deeper stack rel ot oid =
   eval_frame (E\<lparr>env_rules := Some rules\<rparr>) deeper stack rel ot oid"
  using expand_nodes_env [of "E\<lparr>env_rules := Some (drop_This rules)\<rparr>" "E\<lparr>env_rules := Some rules\<rparr>"]
  by (simp add: eval_frame_def rule_of_drop_This expand_nodes_drop_This Let_def split: option.splits)

lemma eval_rec_drop_This:
  "eval_rec (E\<lparr>env_rules := Some (drop_This rules)\<rparr>) n = eval_rec (E\<lparr>env_rules := Some rules\<rparr>) n"
proof (induction n)
  case 0
  show ?case by (simp add: fun_eq_iff eval_frame_drop_This)
next
  case (Suc n)
  show ?case unfolding eval_rec.simps Suc.IH by (simp add: fun_eq_iff eval_frame_drop_This)
qed

subsection \<open>Backends\<close>

text \<open>
  The meaning over an abstract set of tuples \<open>(subject_type, subject_id, relation, object_type,
  object_id)\<close>, and the contract of the two callbacks: they answer for that set, when they are asked
  about identifiers in the form \<open>wf\<close> in which the backend gives them out.
\<close>

type_synonym tuple_key = "string \<times> string \<times> string \<times> string \<times> string"

inductive holds :: "Rules option \<Rightarrow> tuple_key set \<Rightarrow> string \<Rightarrow> string \<Rightarrow> string \<Rightarrow> string \<Rightarrow> string \<Rightarrow> bool"
  for rules T st sid where
  holds_direct: "(st, sid, rel, ot, oid) \<in> T \<Longrightarrow> holds rules T st sid rel ot oid"
| holds_computed:
    "rules = Some rs \<Longrightarrow> rs ot = Some byObj \<Longrightarrow> byObj rel = Some rule \<Longrightarrow>
     ComputedUserset rel' \<in> set rule \<Longrightarrow> holds rules T st sid rel' ot oid \<Longrightarrow>
     holds rules T st sid rel ot oid"
| holds_userset:
    "rules = Some rs \<Longrightarrow> rs ot = Some byObj \<Longrightarrow> byObj rel = Some rule \<Longrightarrow>
     TupleToUserset ts cu \<in> set rule \<Longrightarrow> (st', sid', ts, ot, oid) \<in> T \<Longrightarrow>
     holds rules T st sid cu st' sid' \<Longrightarrow> holds rules T st sid rel ot oid"

text \<open>A store the evaluator reads.  The first contract lets a listing leave subjects out; the second does not.\<close>

locale tuple_source =
  fixes good :: "'s \<Rightarrow> bool" and tuples_of :: "'s \<Rightarrow> tuple_key set"
    and wf :: "string \<Rightarrow> string \<Rightarrow> bool"
    and lookup :: "'s \<Rightarrow> DirectLookup" and listing :: "'s \<Rightarrow> ListByObject"
  assumes lookup_tuple: "good s \<Longrightarrow> wf st sid \<Longrightarrow> wf ot oid \<Longrightarrow>
      (\<exists>tid. lookup s st sid rel ot oid = Some tid) \<longleftrightarrow> (st, sid, rel, ot, oid) \<in> tuples_of s"
    and listing_sound: "good s \<Longrightarrow> wf ot oid \<Longrightarrow> sub \<in> set (listing s ot oid rel) \<Longrightarrow>
      (ref_SubjectType sub, ref_SubjectID sub, rel, ot, oid) \<in> tuples_of s"
    and tuples_wf: "good s \<Longrightarrow> (st, sid, rel, ot, oid) \<in> tuples_of s \<Longrightarrow> wf st sid"
begin

lemma grants_imp_holds:
  assumes good: "good s" and wf: "wf st sid" and E: "env_rules E = rules" "env_subjectType E = st" "env_subjectID E = sid"
    "env_directLookup E = lookup s" "env_listByObject E = listing s"
  shows "grants E rel ot oid \<Longrightarrow> wf ot oid \<Longrightarrow> holds rules (tuples_of s) st sid rel ot oid"
proof (induction rule: grants.induct)
  case (grants_direct rel ot oid tid)
  then have "(st, sid, rel, ot, oid) \<in> tuples_of s"
    using lookup_tuple [OF good wf, of ot oid rel] E by auto
  then show ?case by (rule holds_direct)
next
  case (grants_computed ot rel rule rel' oid)
  then show ?case using E by (auto simp: rule_of_def split: option.splits intro: holds_computed)
next
  case (grants_userset ot rel rule ts cu sub oid)
  then have "(ref_SubjectType sub, ref_SubjectID sub, ts, ot, oid) \<in> tuples_of s"
    using listing_sound [OF good, of ot oid sub ts] E by simp
  with grants_userset tuples_wf [OF good this] show ?case
    using E by (auto simp: rule_of_def split: option.splits intro: holds_userset)
qed

lemma Evaluate_allows_holds:
  assumes "good s" and "wf st sid" and "wf ot oid"
    and "Evaluate rules st sid rel ot oid (lookup s) (listing s) opts = Inr r" and "Allowed r"
  shows "holds rules (tuples_of s) st sid rel ot oid"
  using eval_rec_decides [OF assms(4) [unfolded Evaluate_def]] assms(3,5)
    grants_imp_holds [OF assms(1,2), of "captured rules st sid (lookup s) (listing s) opts" rules rel ot oid]
  by (simp add: captured_def)

end

text \<open>A backend whose listings are complete decides the meaning.\<close>

locale tuple_backend = tuple_source +
  assumes listing_complete: "good s \<Longrightarrow> wf ot oid \<Longrightarrow> (st, sid, rel, ot, oid) \<in> tuples_of s \<Longrightarrow>
      \<exists>sub \<in> set (listing s ot oid rel). ref_SubjectType sub = st \<and> ref_SubjectID sub = sid"
begin

lemma grants_holds:
  assumes good: "good s" and wf: "wf st sid" and E: "env_rules E = rules" "env_subjectType E = st" "env_subjectID E = sid"
    "env_directLookup E = lookup s" "env_listByObject E = listing s" and obj: "wf ot oid"
  shows "grants E rel ot oid \<longleftrightarrow> holds rules (tuples_of s) st sid rel ot oid"
proof
  show "grants E rel ot oid \<Longrightarrow> holds rules (tuples_of s) st sid rel ot oid"
    by (rule grants_imp_holds [OF good wf E _ obj])
next
  assume "holds rules (tuples_of s) st sid rel ot oid"
  then show "grants E rel ot oid" using obj
  proof (induction rule: holds.induct)
    case (holds_direct rel ot oid)
    then obtain tid where "lookup s st sid rel ot oid = Some tid" using lookup_tuple [OF good wf] by blast
    then show ?case using E by (auto intro: grants_direct)
  next
    case (holds_computed rs ot byObj rel rule rel' oid)
    then show ?case using E by (auto simp: rule_of_def intro: grants_computed)
  next
    case (holds_userset rs ot byObj rel rule ts cu st' sid' oid)
    then obtain sub where "sub \<in> set (listing s ot oid ts)" "ref_SubjectType sub = st'"
      "ref_SubjectID sub = sid'"
      using listing_complete [OF good] by blast
    with holds_userset tuples_wf [OF good holds_userset.hyps(5)] show ?case
      using E by (auto simp: rule_of_def intro: grants_userset)
  qed
qed

lemma Evaluate_holds:
  assumes "good s" and "wf st sid" and "wf ot oid"
    and "Evaluate rules st sid rel ot oid (lookup s) (listing s) opts = Inr r"
  shows "Allowed r \<longleftrightarrow> holds rules (tuples_of s) st sid rel ot oid"
  using eval_rec_decides [OF assms(4) [unfolded Evaluate_def]] grants_holds [OF assms(1,2)] assms(3)
  by (simp add: captured_def)

end

subsection \<open>Properties\<close>

text \<open>C2: when \<open>Evaluate\<close> returns without an error it has decided the declarative meaning of the
  rules: it allows exactly what \<open>grants\<close> derives, in spite of the cycle check and the short
  circuits, and the tuple it names is a tuple of the subject that the direct lookup returned.\<close>

theorem Evaluate_decides:
  assumes "Evaluate rules st sid rel ot oid dl lbo opts = Inr r"
  shows "(Allowed r \<longleftrightarrow> grants (captured rules st sid dl lbo opts) rel ot oid) \<and>
    (Allowed r \<longrightarrow> (\<exists>rel' ot' oid'. dl st sid rel' ot' oid' = Some (MatchedTupleID r)))"
  using eval_rec_decides [OF assms [unfolded Evaluate_def]]
    eval_rec_sound [OF assms [unfolded Evaluate_def]]
  by (auto simp: captured_def)

definition demo_rules :: Rules where
  "demo_rules = [''doc'' \<mapsto> [''viewer'' \<mapsto> [This, ComputedUserset ''editor'', TupleToUserset ''parent'' ''viewer''],
                            ''editor'' \<mapsto> [ComputedUserset ''viewer'']]]"

definition demo_lookup :: DirectLookup where
  "demo_lookup st sid rel ot oid =
     (if (st, sid, rel, ot, oid) = (''usr'', ''ann'', ''viewer'', ''doc'', ''folder'') then Some ''t1''
      else None)"

definition demo_listing :: ListByObject where
  "demo_listing ot oid rel =
     (if (ot, oid, rel) = (''doc'', ''page'', ''parent'')
      then [\<lparr>ref_SubjectType = ''doc'', ref_SubjectID = ''folder'', ref_TupleID = ''t2''\<rparr>] else [])"

lemma demo_evaluate:
  "Evaluate (Some demo_rules) ''usr'' ''ann'' ''viewer'' ''doc'' ''page'' demo_lookup demo_listing
     \<lparr>MaxDepth = 0, MaxFanOut = 0\<rparr> = Inr \<lparr>Allowed = True, MatchedTupleID = ''t1''\<rparr>"
  by code_simp

theorem Evaluate_decides_witness:
  "grants (captured (Some demo_rules) ''usr'' ''ann'' demo_lookup demo_listing
     \<lparr>MaxDepth = 0, MaxFanOut = 0\<rparr>) ''viewer'' ''doc'' ''page''"
  using Evaluate_decides [OF demo_evaluate] by simp

text \<open>C31: an evaluation whose depth limit is at least the number of frames that the rules can reach
  from the query, whose enumerations stay within the fan-out limit and whose rules hold the three
  known kinds of nodes only, returns a decision and no error, whatever cycles the rules have.\<close>

theorem Evaluate_no_limit:
  assumes "finite F" and "(rel, ot, oid) \<in> F"
    and "rules_total (captured rules st sid dl lbo opts) F" and "int (card F) \<le> maxDepth opts"
  shows "\<exists>r. Evaluate rules st sid rel ot oid dl lbo opts = Inr r"
proof -
  have "card F \<le> nat (maxDepth opts)" using assms(4) by simp
  then have "Evaluate rules st sid rel ot oid dl lbo opts \<noteq> Inl e" for e
    unfolding Evaluate_def using assms(1-3) by (intro eval_rec_no_error) simp_all
  then show ?thesis by (cases "Evaluate rules st sid rel ot oid dl lbo opts") auto
qed

theorem Evaluate_no_limit_witness:
  "\<exists>r. Evaluate (Some demo_rules) ''usr'' ''bob'' ''viewer'' ''doc'' ''page'' demo_lookup demo_listing
     \<lparr>MaxDepth = 4, MaxFanOut = 1\<rparr> = Inr r"
proof (rule Evaluate_no_limit [where F = "{(''viewer'', ''doc'', ''page''), (''editor'', ''doc'', ''page''),
      (''viewer'', ''doc'', ''folder''), (''editor'', ''doc'', ''folder'')}"])
  show "rules_total (captured (Some demo_rules) ''usr'' ''bob'' demo_lookup demo_listing
      \<lparr>MaxDepth = 4, MaxFanOut = 1\<rparr>)
      {(''viewer'', ''doc'', ''page''), (''editor'', ''doc'', ''page''),
       (''viewer'', ''doc'', ''folder''), (''editor'', ''doc'', ''folder'')}"
    by (auto simp: rules_total_def captured_def callees_def rule_of_def demo_rules_def
        demo_listing_def maxFanOut_def)
qed (simp_all add: maxDepth_def)

text \<open>listing \<open>This\<close> in a rule is documentation: removing it everywhere changes no result, no
  error and no matched tuple.\<close>

theorem Evaluate_This:
  "Evaluate (Some (drop_This rules)) st sid rel ot oid dl lbo opts =
   Evaluate (Some rules) st sid rel ot oid dl lbo opts"
proof -
  let ?E = "captured (Some rules) st sid dl lbo opts"
  have "captured (Some (drop_This rules)) st sid dl lbo opts
      = ?E\<lparr>env_rules := Some (drop_This rules)\<rparr>"
    "?E = ?E\<lparr>env_rules := Some rules\<rparr>" by (simp_all add: captured_def)
  then show ?thesis unfolding Evaluate_def using eval_rec_drop_This [of rules ?E] by metis
qed

text \<open>the order of the nodes of a rule is not irrelevant: with a node whose enumeration exceeds
  the fan-out limit and a node that grants, the same rule allows in one order and reports
  \<open>ErrEvaluationLimit\<close> in the other.\<close>

theorem Evaluate_node_order:
  "let dl = (\<lambda>st sid rel ot oid. if rel = ''editor'' then Some ''t'' else None);
       sub = \<lparr>ref_SubjectType = ''org'', ref_SubjectID = ''o'', ref_TupleID = ''p''\<rparr>;
       run = (\<lambda>rule. Evaluate (Some [''doc'' \<mapsto> [''viewer'' \<mapsto> rule]]) ''usr'' ''ann'' ''viewer'' ''doc'' ''d''
                dl (\<lambda>_ _ _. [sub, sub]) \<lparr>MaxDepth = 0, MaxFanOut = 1\<rparr>)
   in run [ComputedUserset ''editor'', TupleToUserset ''parent'' ''viewer'']
        = Inr \<lparr>Allowed = True, MatchedTupleID = ''t''\<rparr> \<and>
      run [TupleToUserset ''parent'' ''viewer'', ComputedUserset ''editor''] = Inl ErrEvaluationLimit"
  by (simp add: Let_def Evaluate_def captured_def maxDepth_def maxFanOut_def DefaultMaxDepth_def
      numeral_eq_Suc eval_frame_def rule_of_def)

end
