(* ===== verification/Paging.thy ===== *)
theory Paging
  imports GoPrelude
begin

text \<open>
  Cursor pagination of a sorted listing.  The repository has two variants:
  \<open>paginate\<close>, which computes \<open>startIdx\<close> and \<open>end\<close> and slices (authz, tenancy, identity), and
  \<open>paginate_tail\<close>, which cuts the slice at the cursor and truncates it (flags, notify,
  file-metadata).  \<open>None\<close> as a result is a run-time panic of the slice expression.
  The locale \<open>paging\<close> is the contract a client that walks the pages relies on; both variants
  provide it.
\<close>

record 'a page =
  Data :: "'a list"
  NextCursor :: "string option"

definition page_limit :: "int \<Rightarrow> int" where
  "page_limit limit = (if limit \<le> 0 then 50 else limit)"

definition go_slice :: "'a list \<Rightarrow> int \<Rightarrow> int \<Rightarrow> 'a list option" where
  "go_slice xs i j =
     (if 0 \<le> i \<and> i \<le> j \<and> j \<le> int (length xs)
      then Some (take (nat j - nat i) (drop (nat i) xs)) else None)"

fun cursor_scan :: "('a \<Rightarrow> string) \<Rightarrow> string \<Rightarrow> nat \<Rightarrow> 'a list \<Rightarrow> nat" where
  "cursor_scan ident c i [] = 0"
| "cursor_scan ident c i (x # xs) = (if ident x = c then i + 1 else cursor_scan ident c (i + 1) xs)"

definition start_index :: "('a \<Rightarrow> string) \<Rightarrow> string option \<Rightarrow> 'a list \<Rightarrow> nat" where
  "start_index ident cursor xs =
     (case cursor of None \<Rightarrow> 0
      | Some c \<Rightarrow> if c = '''' then 0 else cursor_scan ident c 0 xs)"

definition paginate :: "('a \<Rightarrow> string) \<Rightarrow> string option \<Rightarrow> int \<Rightarrow> 'a list \<Rightarrow> 'a page option" where
  "paginate ident cursor limit matched =
     (let startIdx = start_index ident cursor matched;
          end0 = wrap64 (int startIdx + limit);
          end1 = (if end0 > int (length matched) then int (length matched) else end0)
      in case go_slice matched (int startIdx) end1 of
           None \<Rightarrow> None
         | Some data \<Rightarrow>
             Some \<lparr>Data = data,
                   NextCursor = (if end1 < int (length matched) \<and> data \<noteq> []
                                 then Some (ident (last data)) else None)\<rparr>)"

fun cut_after :: "('a \<Rightarrow> string) \<Rightarrow> string \<Rightarrow> 'a list \<Rightarrow> 'a list option" where
  "cut_after ident c [] = None"
| "cut_after ident c (x # xs) = (if ident x = c then Some xs else cut_after ident c xs)"

definition paginate_tail :: "('a \<Rightarrow> string) \<Rightarrow> string option \<Rightarrow> int \<Rightarrow> 'a list \<Rightarrow> 'a page" where
  "paginate_tail ident cursor limit matching =
     (let m = (case cursor of None \<Rightarrow> matching
               | Some c \<Rightarrow> (case cut_after ident c matching of None \<Rightarrow> matching | Some ys \<Rightarrow> ys))
      in if int (length m) > limit
         then \<lparr>Data = take (nat limit) m, NextCursor = Some (ident (m ! nat (limit - 1)))\<rparr>
         else \<lparr>Data = m, NextCursor = None\<rparr>)"

subsection \<open>Scanning for the cursor\<close>

lemma cursor_scan_found:
  "c \<notin> ident ` set us \<Longrightarrow> cursor_scan ident c i (us @ x # vs) =
     (if ident x = c then i + length us + 1 else cursor_scan ident c (i + length us + 1) vs)"
  by (induction us arbitrary: i) auto

lemma cursor_scan_le: "cursor_scan ident c i xs \<le> i + length xs"
proof (induction xs arbitrary: i)
  case (Cons x xs)
  show ?case using Cons [of "i + 1"] by simp
qed simp

lemma start_index_le: "start_index ident cursor xs \<le> length xs"
  using cursor_scan_le [of ident _ 0 xs] by (auto simp: start_index_def split: option.splits)

lemma cut_after_found:
  "c \<notin> ident ` set us \<Longrightarrow> ident x = c \<Longrightarrow> cut_after ident c (us @ x # vs) = Some vs"
  by (induction us) auto

lemma page_limit_pos [simp]: "0 < page_limit l"
  by (simp add: page_limit_def)

subsection \<open>When the slice expression panics\<close>

lemma paginate_page:
  assumes "0 < limit" and "int (length xs) + limit \<le> max_int64"
  shows "paginate ident cursor limit xs =
    (let s = start_index ident cursor xs; d = take (nat limit) (drop s xs)
     in Some \<lparr>Data = d, NextCursor = (if s + nat limit < length xs then Some (ident (last d)) else None)\<rparr>)"
proof -
  let ?s = "start_index ident cursor xs"
  have s: "?s \<le> length xs" by (rule start_index_le)
  with assms have w: "wrap64 (int ?s + limit) = int ?s + limit"
    by (intro wrap64_id) (simp_all add: max_int64_def)
  show ?thesis
  proof (cases "?s + nat limit < length xs")
    case True
    then have "take (nat limit) (drop ?s xs) \<noteq> []" using assms by simp
    moreover have "nat (int ?s + limit) - ?s = nat limit" by simp
    moreover have "int ?s + limit < int (length xs)" "?s < nat (int ?s + limit)"
      using True assms(1) by linarith+
    ultimately show ?thesis using True assms w s
      by (simp add: paginate_def Let_def go_slice_def)
  next
    case False
    then have "take (nat limit) (drop ?s xs) = drop ?s xs" by simp
    moreover have "\<not> int ?s + limit < int (length xs)" using False assms by simp
    ultimately show ?thesis using False assms w s
      by (auto simp: paginate_def Let_def go_slice_def)
  qed
qed

lemma paginate_no_panic:
  "0 < limit \<Longrightarrow> int (length xs) + limit \<le> max_int64 \<Longrightarrow> paginate ident cursor limit xs \<noteq> None"
  by (simp add: paginate_page Let_def)

lemma paginate_panic:
  assumes "start_index ident cursor xs = s" and "0 < s"
    and "max_int64 < int s + limit" and "limit \<le> max_int64"
    and "int (length xs) \<le> max_int64"
  shows "paginate ident cursor limit xs = None"
proof -
  have s: "s \<le> length xs" using assms(1) start_index_le [of ident cursor xs] by simp
  then have "wrap64 (int s + limit) = int s + limit - 18446744073709551616"
    using assms by (intro wrap64_above) (simp_all add: max_int64_def)
  then show ?thesis using assms s
    by (simp add: paginate_def Let_def go_slice_def max_int64_def)
qed

text \<open>Whatever the cursor, the data of a page is a segment of the listing.\<close>

lemma paginate_Data:
  "paginate ident cursor limit xs = Some p \<Longrightarrow> \<exists>i n. Data p = take n (drop i xs)"
proof -
  assume a: "paginate ident cursor limit xs = Some p"
  then obtain i j where "go_slice xs i j = Some (Data p)"
    by (auto simp: paginate_def Let_def split: option.splits)
  then show ?thesis unfolding go_slice_def by (metis option.distinct(1) option.sel)
qed

lemma paginate_tail_Data: "\<exists>i n. Data (paginate_tail ident cursor limit xs) = take n (drop i xs)"
proof -
  have cut: "\<exists>i. ys = drop i xs" if "cut_after ident c xs = Some ys" for c ys
    using that
  proof (induction xs)
    case (Cons x xs)
    then show ?case by (cases "ident x = c") (auto intro: exI [of _ 1] exI [of _ "Suc _"])
  qed simp
  have "\<exists>i. (case cursor of None \<Rightarrow> xs
       | Some c \<Rightarrow> (case cut_after ident c xs of None \<Rightarrow> xs | Some ys \<Rightarrow> ys)) = drop i xs"
    using cut by (auto split: option.split intro: exI [of _ 0])
  then obtain i where i: "(case cursor of None \<Rightarrow> xs
       | Some c \<Rightarrow> (case cut_after ident c xs of None \<Rightarrow> xs | Some ys \<Rightarrow> ys)) = drop i xs" by blast
  have seg: "\<exists>j n. drop i xs = take n (drop j xs)"
    by (metis drop_all le_refl length_drop take_all take_Nil append_Nil2 append_take_drop_id)
  show ?thesis unfolding paginate_tail_def i Let_def using seg by auto
qed

lemma segment_props:
  assumes "\<exists>i n. ys = take n (drop i xs)"
  shows "set ys \<subseteq> set xs" and "sorted (map f xs) \<Longrightarrow> sorted (map f ys)"
    and "distinct (map g xs) \<Longrightarrow> distinct (map g ys)"
proof -
  obtain i n where ys: "ys = take n (drop i xs)" using assms by blast
  show "set ys \<subseteq> set xs" unfolding ys by (meson order_trans set_drop_subset set_take_subset)
  show "sorted (map f xs) \<Longrightarrow> sorted (map f ys)"
    unfolding ys take_map [symmetric] drop_map [symmetric] by (simp add: sorted_wrt_drop sorted_wrt_take)
  show "distinct (map g xs) \<Longrightarrow> distinct (map g ys)"
    unfolding ys take_map [symmetric] drop_map [symmetric] by simp
qed

lemmas paginate_segment = segment_props [OF paginate_Data]
lemmas paginate_tail_segment = segment_props [OF paginate_tail_Data]

subsection \<open>Walking all pages\<close>

text \<open>
  The client's loop: fetch a page, append its data, follow \<open>NextCursor\<close> until it is nil.
  \<open>fuel\<close> bounds the number of requests; \<open>length xs + 1\<close> of them always suffice.
\<close>

fun walk_pages :: "(string option \<Rightarrow> 'a page option) \<Rightarrow> nat \<Rightarrow> string option \<Rightarrow> 'a list option" where
  "walk_pages fetch 0 cursor = None"
| "walk_pages fetch (Suc fuel) cursor =
     (case fetch cursor of None \<Rightarrow> None
      | Some p \<Rightarrow>
          (case NextCursor p of None \<Rightarrow> Some (Data p)
           | Some c \<Rightarrow> map_option (\<lambda>rest. Data p @ rest) (walk_pages fetch fuel (Some c))))"

definition listing_ok :: "('a \<Rightarrow> string) \<Rightarrow> 'a list \<Rightarrow> bool" where
  "listing_ok ident xs \<longleftrightarrow> distinct (map ident xs) \<and> '''' \<notin> ident ` set xs"

definition page_after :: "('a \<Rightarrow> string) \<Rightarrow> nat \<Rightarrow> 'a list \<Rightarrow> 'a page" where
  "page_after ident lim vs =
     \<lparr>Data = take lim vs, NextCursor = (if lim < length vs then Some (ident (vs ! (lim - 1))) else None)\<rparr>"

locale paging =
  fixes ident :: "'a \<Rightarrow> string" and lim :: nat and ok :: "'a list \<Rightarrow> bool"
    and fetch :: "'a list \<Rightarrow> string option \<Rightarrow> 'a page option"
  assumes lim_pos: "ok xs \<Longrightarrow> 0 < lim"
    and first_page: "ok xs \<Longrightarrow> listing_ok ident xs \<Longrightarrow> fetch xs None = Some (page_after ident lim xs)"
    and next_page: "ok xs \<Longrightarrow> listing_ok ident xs \<Longrightarrow> xs = us @ x # vs \<Longrightarrow>
      fetch xs (Some (ident x)) = Some (page_after ident lim vs)"
begin

lemma walk_after:
  assumes "ok xs" and "listing_ok ident xs" and "xs = us @ vs"
    and "length vs < fuel" and "fetch xs cursor = Some (page_after ident lim vs)"
  shows "walk_pages (fetch xs) fuel cursor = Some vs"
  using assms(3-5)
proof (induction fuel arbitrary: us vs cursor)
  case 0
  then show ?case by simp
next
  case (Suc fuel)
  show ?case
  proof (cases "lim < length vs")
    case False
    with Suc.prems(3) show ?thesis by (simp add: page_after_def)
  next
    case True
    let ?x = "vs ! (lim - 1)" and ?rest = "drop lim vs"
    have lim: "0 < lim" using assms(1) by (rule lim_pos)
    have split: "vs = take (lim - 1) vs @ ?x # ?rest"
      using True lim by (metis Cons_nth_drop_Suc Suc_pred' append_take_drop_id less_imp_diff_less)
    have xs: "xs = (us @ take (lim - 1) vs) @ ?x # ?rest"
      using Suc.prems(1) split by (metis append.assoc)
    have nxt: "fetch xs (Some (ident ?x)) = Some (page_after ident lim ?rest)"
      using next_page [OF assms(1,2) xs] .
    have "walk_pages (fetch xs) fuel (Some (ident ?x)) = Some ?rest"
    proof (rule Suc.IH [OF _ _ nxt])
      show "xs = (us @ take lim vs) @ ?rest" using Suc.prems(1) by simp
      show "length ?rest < fuel" using Suc.prems(2) True lim by simp
    qed
    with True Suc.prems(3) show ?thesis by (simp add: page_after_def)
  qed
qed

lemma walk_all:
  assumes "ok xs" and "listing_ok ident xs"
  shows "walk_pages (fetch xs) (length xs + 1) None = Some xs"
  using assms by (intro walk_after [of _ "[]"] first_page) simp_all

end

lemma listing_ok_split:
  "listing_ok ident (us @ x # vs) \<Longrightarrow>
   ident x \<notin> ident ` set us \<and> ident x \<noteq> ''''"
  by (auto simp: listing_ok_def)

lemma paginate_from:
  assumes "0 < l" and "int (length xs) + l \<le> max_int64"
    and "start_index ident cursor xs = length us" and "xs = us @ vs"
  shows "paginate ident cursor l xs = Some (page_after ident (nat l) vs)"
proof -
  have "nat l < length vs \<Longrightarrow> last (take (nat l) vs) = vs ! (nat l - 1)"
    using assms(1) by (subst last_conv_nth) auto
  with assms show ?thesis by (simp add: paginate_page Let_def page_after_def)
qed

interpretation paginate: paging ident "nat l"
  "\<lambda>xs. 0 < l \<and> int (length xs) + l \<le> max_int64" "\<lambda>xs c. paginate ident c l xs" for ident l
proof unfold_locales
  fix us :: "'a list" and x vs xs
  assume ok: "0 < l \<and> int (length xs) + l \<le> max_int64"
    and lok: "listing_ok ident xs" and xs: "xs = us @ x # vs"
  have "start_index ident (Some (ident x)) xs = length (us @ [x])"
    using lok xs listing_ok_split [of ident us x vs]
    by (simp add: start_index_def cursor_scan_found)
  then show "paginate ident (Some (ident x)) l xs = Some (page_after ident (nat l) vs)"
    using ok xs by (intro paginate_from) auto
qed (auto intro: paginate_from [of _ _ _ _ "[]"] simp: start_index_def)

interpretation paginate_tail: paging ident "nat l" "\<lambda>xs. 0 < l"
  "\<lambda>xs c. Some (paginate_tail ident c l xs)" for ident l
proof unfold_locales
  fix us :: "'a list" and x vs xs
  assume ok: "0 < l" and lok: "listing_ok ident xs" and xs: "xs = us @ x # vs"
  have "cut_after ident (ident x) xs = Some vs"
    using lok xs listing_ok_split [of ident us x vs] by (simp add: cut_after_found)
  then show "Some (paginate_tail ident (Some (ident x)) l xs) = Some (page_after ident (nat l) vs)"
    using ok by (auto simp: paginate_tail_def page_after_def nat_diff_distrib)
qed (auto simp: paginate_tail_def page_after_def nat_diff_distrib)

subsection \<open>Listings of a map\<close>

lemma keyed_sort_order:
  assumes "keyed_by f m" and "visits ks m" and "visits ks' m"
  shows "sort_key f (filter P (go_range m ks)) = sort_key f (filter P (go_range m ks'))"
proof (rule sort_key_inj_key_eq)
  show "mset (filter P (go_range m ks)) = mset (sort_key f (filter P (go_range m ks')))"
    using go_range_filter_order [OF assms(2,3)] by simp
  show "inj_on f (set (filter P (go_range m ks)))"
    using assms(1) by (auto simp: inj_on_def keyed_by_def)
qed simp

lemma distinct_sort_key [simp]: "distinct (map f (sort_key g xs)) \<longleftrightarrow> distinct (map f xs)"
  by (metis mset_map mset_sort mset_eq_imp_distinct_iff)

lemma keyed_listing_ok:
  assumes "keyed_by f m" and "m '''' = None" and "visits ks m"
  shows "listing_ok f (sort_key g (filter P (go_range m ks)))"
proof -
  have "distinct (map f (filter P (go_range m ks)))"
    by (rule keyed_range_filter_distinct [OF assms(1,3)])
  then have "distinct (map f (sort_key g (filter P (go_range m ks))))"
    by (simp only: distinct_sort_key)
  moreover have "'''' \<notin> f ` set (filter P (go_range m ks))"
    using assms(1,2) by (auto simp: keyed_by_def)
  ultimately show ?thesis by (simp add: listing_ok_def)
qed

end
