(* ===== verification/AuthzTuples.thy ===== *)
theory AuthzTuples
  imports AuthzRewrite Paging
begin

text \<open>
  \<open>packages/authz/types.go\<close>, \<open>store.go\<close> and the tuple store of \<open>inmem.go\<close>.  The state is the
  record \<open>tuple_store\<close>, with the fields of \<open>InMemoryTupleStore\<close>; each method is a definition with
  the name of the method that takes and returns the store.  \<open>order\<close> gives the visiting order of
  the \<open>range\<close> loop of each \<open>listByObject\<close> callback.  \<open>tuple_inv\<close> ties the map of tuples and the
  index of natural keys together; \<open>tuple_steps\<close> is the store as a transition system and
  \<open>inmem_tuples\<close> shows that it provides the contract \<open>tuple_backend\<close> of the rule evaluation.
\<close>

record Tuple =
  tup_ID :: string
  tup_SubjectType :: string
  tup_SubjectID :: string
  tup_Relation :: string
  tup_ObjectType :: string
  tup_ObjectID :: string
  tup_CreatedAt :: gotime
  tup_CreatedBy :: "string option"

record CheckResult =
  chk_Allowed :: bool
  chk_MatchedTupleID :: "string option"

record CreateTupleInput =
  cti_SubjectType :: string
  cti_SubjectID :: string
  cti_Relation :: string
  cti_ObjectType :: string
  cti_ObjectID :: string
  cti_CreatedBy :: "string option"

record CheckInput =
  ci_SubjectType :: string
  ci_SubjectID :: string
  ci_Relation :: string
  ci_ObjectType :: string
  ci_ObjectID :: string

record CheckAnyInput =
  ca_SubjectType :: string
  ca_SubjectID :: string
  ca_Relations :: "string list"
  ca_ObjectType :: string
  ca_ObjectID :: string

record ListTuplesOptions =
  lt_Cursor :: "string option"
  lt_Limit :: int

record ListByObjectOptions =
  lo_Cursor :: "string option"
  lo_Limit :: int
  lo_Relation :: "string option"

record tuple_store =
  ts_tuples :: "string \<rightharpoonup> Tuple"
  ts_naturalKeyToID :: "string \<rightharpoonup> string"
  ts_rules :: "Rules option"
  ts_maxDepth :: int
  ts_maxFanOut :: int

definition NewInMemoryTupleStore :: tuple_store where
  "NewInMemoryTupleStore =
     \<lparr>ts_tuples = Map.empty, ts_naturalKeyToID = Map.empty, ts_rules = None,
      ts_maxDepth = 0, ts_maxFanOut = 0\<rparr>"

definition NewInMemoryTupleStoreWithRules :: "Rules option \<Rightarrow> EvaluateOptions \<Rightarrow> tuple_store" where
  "NewInMemoryTupleStoreWithRules rules opts =
     NewInMemoryTupleStore\<lparr>ts_rules := rules, ts_maxDepth := MaxDepth opts,
                            ts_maxFanOut := MaxFanOut opts\<rparr>"

definition tupleNaturalKey :: "string \<Rightarrow> string \<Rightarrow> string \<Rightarrow> string \<Rightarrow> string \<Rightarrow> string" where
  "tupleNaturalKey subjectType subjectID relation objectType objectID =
     subjectType @ ''|'' @ subjectID @ ''|'' @ relation @ ''|'' @ objectType @ ''|'' @ objectID"

definition natural_key :: "Tuple \<Rightarrow> string" where
  "natural_key t = tupleNaturalKey (tup_SubjectType t) (tup_SubjectID t) (tup_Relation t)
     (tup_ObjectType t) (tup_ObjectID t)"

definition CreateTuple ::
  "uuid_lib \<Rightarrow> clock \<Rightarrow> CreateTupleInput \<Rightarrow> tuple_store \<Rightarrow> (authz_error + Tuple) \<times> tuple_store"
where
  "CreateTuple lib clk i s =
     (if \<not> rx_match RelationNamePattern (cti_Relation i)
      then (Inl (ErrInvalidFormat (cti_Relation i)), s)
      else if \<not> rx_match TypePrefixPattern (cti_SubjectType i)
      then (Inl (ErrInvalidFormat (cti_SubjectType i)), s)
      else if \<not> rx_match TypePrefixPattern (cti_ObjectType i)
      then (Inl (ErrInvalidFormat (cti_ObjectType i)), s)
      else
        let key = tupleNaturalKey (cti_SubjectType i) (cti_SubjectID i) (cti_Relation i)
                    (cti_ObjectType i) (cti_ObjectID i)
        in case ts_naturalKeyToID s key of
             Some existingID \<Rightarrow> (Inl (ErrDuplicateTuple existingID), s)
           | None \<Rightarrow>
               (case Generate lib 0 ''tup'' of
                  Inl err \<Rightarrow> (Inl (ErrGenerate err), s)
                | Inr tid \<Rightarrow>
                    let t = \<lparr>tup_ID = tid, tup_SubjectType = cti_SubjectType i,
                             tup_SubjectID = cti_SubjectID i, tup_Relation = cti_Relation i,
                             tup_ObjectType = cti_ObjectType i, tup_ObjectID = cti_ObjectID i,
                             tup_CreatedAt = clk 0, tup_CreatedBy = cti_CreatedBy i\<rparr>
                    in (Inr t, s\<lparr>ts_tuples := (ts_tuples s)(tid \<mapsto> t),
                                 ts_naturalKeyToID := (ts_naturalKeyToID s)(key \<mapsto> tid)\<rparr>)))"

definition DeleteTuple :: "string \<Rightarrow> tuple_store \<Rightarrow> (authz_error + unit) \<times> tuple_store" where
  "DeleteTuple tupleID s =
     (case ts_tuples s tupleID of
        None \<Rightarrow> (Inl (ErrTupleNotFound tupleID), s)
      | Some t \<Rightarrow>
          (Inr (), s\<lparr>ts_tuples := (ts_tuples s)(tupleID := None),
                     ts_naturalKeyToID := (ts_naturalKeyToID s)(natural_key t := None)\<rparr>))"

fun cascade_loop :: "string \<Rightarrow> string \<Rightarrow> string list \<Rightarrow> nat \<times> tuple_store \<Rightarrow> nat \<times> tuple_store" where
  "cascade_loop subjectType subjectID [] ns = ns"
| "cascade_loop subjectType subjectID (tid # ks) (n, s) =
     (case ts_tuples s tid of
        None \<Rightarrow> cascade_loop subjectType subjectID ks (n, s)
      | Some t \<Rightarrow>
          if tup_SubjectType t = subjectType \<and> tup_SubjectID t = subjectID
          then cascade_loop subjectType subjectID ks
                 (n + 1, s\<lparr>ts_tuples := (ts_tuples s)(tid := None),
                           ts_naturalKeyToID := (ts_naturalKeyToID s)(natural_key t := None)\<rparr>)
          else cascade_loop subjectType subjectID ks (n, s))"

definition CascadeRevokeSubject ::
  "string list \<Rightarrow> string \<Rightarrow> string \<Rightarrow> tuple_store \<Rightarrow> nat \<times> tuple_store" where
  "CascadeRevokeSubject ks subjectType subjectID s = cascade_loop subjectType subjectID ks (0, s)"

text \<open>The two callbacks of \<open>Check\<close>.\<close>

definition store_lookup :: "tuple_store \<Rightarrow> DirectLookup" where
  "store_lookup s st sid rel ot oid = ts_naturalKeyToID s (tupleNaturalKey st sid rel ot oid)"

definition store_listing ::
  "(string \<Rightarrow> string \<Rightarrow> string \<Rightarrow> string list) \<Rightarrow> tuple_store \<Rightarrow> ListByObject" where
  "store_listing order s ot oid rel =
     map (\<lambda>t. \<lparr>ref_SubjectType = tup_SubjectType t, ref_SubjectID = tup_SubjectID t,
               ref_TupleID = tup_ID t\<rparr>)
       (filter (\<lambda>t. tup_ObjectType t = ot \<and> tup_ObjectID t = oid \<and> tup_Relation t = rel)
         (go_range (ts_tuples s) (order ot oid rel)))"

definition Check ::
  "(string \<Rightarrow> string \<Rightarrow> string \<Rightarrow> string list) \<Rightarrow> CheckInput \<Rightarrow> tuple_store \<Rightarrow> authz_error + CheckResult"
where
  "Check order i s =
     (case ts_rules s of
        None \<Rightarrow>
          (case ts_naturalKeyToID s (tupleNaturalKey (ci_SubjectType i) (ci_SubjectID i)
                  (ci_Relation i) (ci_ObjectType i) (ci_ObjectID i)) of
             Some tid \<Rightarrow> Inr \<lparr>chk_Allowed = True, chk_MatchedTupleID = Some tid\<rparr>
           | None \<Rightarrow> Inr \<lparr>chk_Allowed = False, chk_MatchedTupleID = None\<rparr>)
      | Some rules \<Rightarrow>
          (case Evaluate (Some rules) (ci_SubjectType i) (ci_SubjectID i) (ci_Relation i)
                  (ci_ObjectType i) (ci_ObjectID i) (store_lookup s) (store_listing order s)
                  \<lparr>MaxDepth = ts_maxDepth s, MaxFanOut = ts_maxFanOut s\<rparr> of
             Inl err \<Rightarrow> Inl err
           | Inr res \<Rightarrow>
               if Allowed res
               then Inr \<lparr>chk_Allowed = True, chk_MatchedTupleID = Some (MatchedTupleID res)\<rparr>
               else Inr \<lparr>chk_Allowed = False, chk_MatchedTupleID = None\<rparr>))"

fun check_relations ::
  "(string \<Rightarrow> authz_error + CheckResult) \<Rightarrow> string list \<Rightarrow> authz_error + CheckResult" where
  "check_relations check [] = Inr \<lparr>chk_Allowed = False, chk_MatchedTupleID = None\<rparr>"
| "check_relations check (rel # rels) =
     (case check rel of Inl err \<Rightarrow> Inl err
      | Inr r \<Rightarrow> if chk_Allowed r then Inr r else check_relations check rels)"

definition CheckAny ::
  "(string \<Rightarrow> string \<Rightarrow> string \<Rightarrow> string list) \<Rightarrow> CheckAnyInput \<Rightarrow> tuple_store \<Rightarrow> authz_error + CheckResult"
where
  "CheckAny order i s =
     (if length (ca_Relations i) = 0 then Inl ErrEmptyRelationSet
      else check_relations
        (\<lambda>rel. Check order \<lparr>ci_SubjectType = ca_SubjectType i, ci_SubjectID = ca_SubjectID i,
                            ci_Relation = rel, ci_ObjectType = ca_ObjectType i,
                            ci_ObjectID = ca_ObjectID i\<rparr> s)
        (ca_Relations i))"

definition GetTuple :: "string \<Rightarrow> tuple_store \<Rightarrow> authz_error + Tuple" where
  "GetTuple tupleID s =
     (case ts_tuples s tupleID of None \<Rightarrow> Inl (ErrTupleNotFound tupleID) | Some t \<Rightarrow> Inr t)"

definition tuple_before :: "Tuple \<Rightarrow> Tuple \<Rightarrow> bool" where
  "tuple_before a b \<longleftrightarrow> tup_CreatedAt a < tup_CreatedAt b \<or>
     (tup_CreatedAt a = tup_CreatedAt b \<and> tup_ID a < tup_ID b)"

definition paginateTuples :: "Tuple list \<Rightarrow> string option \<Rightarrow> int \<Rightarrow> Tuple page option" where
  "paginateTuples matched cursor limit = paginate tup_ID cursor limit (go_sort tuple_before matched)"

definition ListTuplesBySubject ::
  "string list \<Rightarrow> string \<Rightarrow> string \<Rightarrow> ListTuplesOptions \<Rightarrow> tuple_store \<Rightarrow> Tuple page option" where
  "ListTuplesBySubject ks subjectType subjectID opts s =
     (let limit = page_limit (lt_Limit opts);
          matched = filter (\<lambda>t. tup_SubjectType t = subjectType \<and> tup_SubjectID t = subjectID)
                      (go_range (ts_tuples s) ks)
      in paginateTuples matched (lt_Cursor opts) limit)"

definition ListTuplesByObject ::
  "string list \<Rightarrow> string \<Rightarrow> string \<Rightarrow> ListByObjectOptions \<Rightarrow> tuple_store \<Rightarrow> Tuple page option" where
  "ListTuplesByObject ks objectType objectID opts s =
     (let limit = page_limit (lo_Limit opts);
          matched = filter (\<lambda>t. \<not> (tup_ObjectType t \<noteq> objectType \<or> tup_ObjectID t \<noteq> objectID) \<and>
                      \<not> (case lo_Relation opts of None \<Rightarrow> False | Some rel \<Rightarrow> tup_Relation t \<noteq> rel))
                      (go_range (ts_tuples s) ks)
      in paginateTuples matched (lo_Cursor opts) limit)"

subsection \<open>The invariant\<close>

definition tuple_names_ok :: "Tuple \<Rightarrow> bool" where
  "tuple_names_ok t \<longleftrightarrow> rx_match RelationNamePattern (tup_Relation t) \<and>
     rx_match TypePrefixPattern (tup_SubjectType t) \<and> rx_match TypePrefixPattern (tup_ObjectType t)"

definition tuple_inv :: "tuple_store \<Rightarrow> bool" where
  "tuple_inv s \<longleftrightarrow> keyed_by tup_ID (ts_tuples s) \<and> finite (dom (ts_tuples s)) \<and>
     ts_tuples s '''' = None \<and>
     (\<forall>tid t. ts_tuples s tid = Some t \<longrightarrow>
        ts_naturalKeyToID s (natural_key t) = Some tid \<and> tuple_names_ok t) \<and>
     (\<forall>key tid. ts_naturalKeyToID s key = Some tid \<longrightarrow>
        (\<exists>t. ts_tuples s tid = Some t \<and> natural_key t = key))"

lemma tuple_invD:
  assumes "tuple_inv s"
  shows "keyed_by tup_ID (ts_tuples s)" "finite (dom (ts_tuples s))" "ts_tuples s '''' = None"
    and "ts_tuples s tid = Some t \<Longrightarrow> ts_naturalKeyToID s (natural_key t) = Some tid"
    and "ts_tuples s tid = Some t \<Longrightarrow> tuple_names_ok t"
    and "ts_naturalKeyToID s key = Some tid \<Longrightarrow> \<exists>t. ts_tuples s tid = Some t \<and> natural_key t = key"
  using assms by (auto simp: tuple_inv_def)

lemma tuple_inv_init [simp]: "tuple_inv (NewInMemoryTupleStoreWithRules rules opts)" "tuple_inv NewInMemoryTupleStore"
  by (simp_all add: tuple_inv_def NewInMemoryTupleStoreWithRules_def NewInMemoryTupleStore_def)

text \<open>Dropping a set of tuples from both maps.\<close>

definition remove_ids :: "string set \<Rightarrow> tuple_store \<Rightarrow> tuple_store" where
  "remove_ids D s = s\<lparr>ts_tuples := (\<lambda>tid. if tid \<in> D then None else ts_tuples s tid),
     ts_naturalKeyToID := (\<lambda>key. case ts_naturalKeyToID s key of None \<Rightarrow> None
        | Some tid \<Rightarrow> if tid \<in> D then None else Some tid)\<rparr>"

lemma remove_ids_sel [simp]:
  "ts_tuples (remove_ids D s) tid = (if tid \<in> D then None else ts_tuples s tid)"
  "ts_rules (remove_ids D s) = ts_rules s"
  by (simp_all add: remove_ids_def)

lemma remove_ids_index:
  "ts_naturalKeyToID (remove_ids D s) key = Some tid \<longleftrightarrow>
   ts_naturalKeyToID s key = Some tid \<and> tid \<notin> D"
  by (auto simp: remove_ids_def split: option.splits)

lemma remove_ids_remove_ids: "remove_ids D (remove_ids D' s) = remove_ids (D \<union> D') s"
  by (cases s) (auto simp: remove_ids_def fun_eq_iff split: option.splits)

lemma remove_ids_empty [simp]: "remove_ids {} s = s"
  by (cases s) (auto simp: remove_ids_def fun_eq_iff split: option.splits)

lemma tuple_inv_remove_ids: "tuple_inv s \<Longrightarrow> tuple_inv (remove_ids D s)"
  unfolding tuple_inv_def
  by (auto simp: keyed_by_def remove_ids_index split: if_splits
      elim!: finite_subset [rotated])

lemma remove_one:
  assumes "tuple_inv s" and "ts_tuples s tid = Some t"
  shows "s\<lparr>ts_tuples := (ts_tuples s)(tid := None),
           ts_naturalKeyToID := (ts_naturalKeyToID s)(natural_key t := None)\<rparr> = remove_ids {tid} s"
proof -
  have "((ts_naturalKeyToID s)(natural_key t := None)) key =
      (case ts_naturalKeyToID s key of None \<Rightarrow> None
       | Some tid' \<Rightarrow> if tid' \<in> {tid} then None else Some tid')" for key
    using tuple_invD(4) [OF assms] tuple_invD(6) [OF assms(1), of key] assms(2)
    by (auto split: option.splits)
  then show ?thesis by (auto simp: remove_ids_def fun_eq_iff)
qed

definition owned :: "string \<Rightarrow> string \<Rightarrow> tuple_store \<Rightarrow> string set" where
  "owned st sid s = {tid. \<exists>t. ts_tuples s tid = Some t \<and> tup_SubjectType t = st \<and> tup_SubjectID t = sid}"

lemma owned_remove_ids: "owned st sid (remove_ids D s) = owned st sid s - D"
  by (auto simp: owned_def)

lemma cascade_loop_remove:
  "tuple_inv s \<Longrightarrow> distinct ks \<Longrightarrow> cascade_loop st sid ks (n, s) =
     (n + card (owned st sid s \<inter> set ks), remove_ids (owned st sid s \<inter> set ks) s)"
proof (induction ks arbitrary: n s)
  case Nil
  then show ?case by simp
next
  case (Cons tid ks)
  show ?case
  proof (cases "tid \<in> owned st sid s")
    case False
    then show ?thesis using Cons by (auto simp: owned_def split: option.splits)
  next
    case True
    then obtain t where t: "ts_tuples s tid = Some t" "tup_SubjectType t = st" "tup_SubjectID t = sid"
      by (auto simp: owned_def)
    have "cascade_loop st sid (tid # ks) (n, s) = cascade_loop st sid ks (n + 1, remove_ids {tid} s)"
      using t remove_one [OF Cons.prems(1) t(1)] by simp
    also have "\<dots> = (n + 1 + card ((owned st sid s - {tid}) \<inter> set ks),
        remove_ids ((owned st sid s - {tid}) \<inter> set ks \<union> {tid}) s)"
      using Cons by (simp add: tuple_inv_remove_ids owned_remove_ids remove_ids_remove_ids)
    also have "(owned st sid s - {tid}) \<inter> set ks \<union> {tid} = owned st sid s \<inter> set (tid # ks)"
      using True by auto
    also have "(owned st sid s - {tid}) \<inter> set ks = owned st sid s \<inter> set ks"
      using Cons.prems(2) by auto
    also have "n + 1 + card (owned st sid s \<inter> set ks) = n + card (owned st sid s \<inter> set (tid # ks))"
      using True Cons.prems(2) by simp
    finally show ?thesis .
  qed
qed

lemma cascade_remove:
  assumes "tuple_inv s" and "visits ks (ts_tuples s)"
  shows "CascadeRevokeSubject ks st sid s = (card (owned st sid s), remove_ids (owned st sid s) s)"
proof -
  have "owned st sid s \<inter> set ks = owned st sid s"
    using assms(2) by (auto simp: owned_def visits_def)
  then show ?thesis
    using cascade_loop_remove [OF assms(1), of ks st sid 0] assms(2)
    by (auto simp: CascadeRevokeSubject_def visits_def)
qed

lemma DeleteTuple_remove:
  assumes "tuple_inv s"
  shows "DeleteTuple tid s =
    (if ts_tuples s tid = None then (Inl (ErrTupleNotFound tid), s) else (Inr (), remove_ids {tid} s))"
  using remove_one [OF assms] by (auto simp: DeleteTuple_def split: option.splits)

subsection \<open>Creating a tuple\<close>

lemma CreateTuple_cases:
  obtains (unchanged) e where "CreateTuple lib clk i s = (Inl e, s)"
  | (created) t where "CreateTuple lib clk i s =
        (Inr t, s\<lparr>ts_tuples := (ts_tuples s)(tup_ID t \<mapsto> t),
                  ts_naturalKeyToID := (ts_naturalKeyToID s)(natural_key t \<mapsto> tup_ID t)\<rparr>)"
      "Generate lib 0 ''tup'' = Inr (tup_ID t)" "tuple_names_ok t"
      "ts_naturalKeyToID s (natural_key t) = None"
      "t = \<lparr>tup_ID = tup_ID t, tup_SubjectType = cti_SubjectType i,
            tup_SubjectID = cti_SubjectID i, tup_Relation = cti_Relation i,
            tup_ObjectType = cti_ObjectType i, tup_ObjectID = cti_ObjectID i,
            tup_CreatedAt = clk 0, tup_CreatedBy = cti_CreatedBy i\<rparr>"
proof (cases "\<exists>e. CreateTuple lib clk i s = (Inl e, s)")
  case True
  then show ?thesis using unchanged by blast
next
  case False
  then have p: "rx_match RelationNamePattern (cti_Relation i)"
    "rx_match TypePrefixPattern (cti_SubjectType i)" "rx_match TypePrefixPattern (cti_ObjectType i)"
    by (auto simp: CreateTuple_def split: if_splits)
  let ?key = "tupleNaturalKey (cti_SubjectType i) (cti_SubjectID i) (cti_Relation i)
                    (cti_ObjectType i) (cti_ObjectID i)"
  from False p have k: "ts_naturalKeyToID s ?key = None"
    by (auto simp: CreateTuple_def Let_def split: option.splits)
  from False p k obtain tid where g: "Generate lib 0 ''tup'' = Inr tid"
    by (auto simp: CreateTuple_def Let_def split: sum.splits)
  show ?thesis
    by (rule created [of "\<lparr>tup_ID = tid, tup_SubjectType = cti_SubjectType i,
            tup_SubjectID = cti_SubjectID i, tup_Relation = cti_Relation i,
            tup_ObjectType = cti_ObjectType i, tup_ObjectID = cti_ObjectID i,
            tup_CreatedAt = clk 0, tup_CreatedBy = cti_CreatedBy i\<rparr>"])
      (use p k g in \<open>simp_all add: CreateTuple_def Let_def natural_key_def tuple_names_ok_def\<close>)
qed

lemma tuple_inv_insert:
  assumes "tuple_inv s" and "ts_tuples s (tup_ID t) = None" and "tup_ID t \<noteq> ''''"
    and "ts_naturalKeyToID s (natural_key t) = None" and "tuple_names_ok t"
  shows "tuple_inv (s\<lparr>ts_tuples := (ts_tuples s)(tup_ID t \<mapsto> t),
                      ts_naturalKeyToID := (ts_naturalKeyToID s)(natural_key t \<mapsto> tup_ID t)\<rparr>)"
  using assms unfolding tuple_inv_def
  by (auto simp: keyed_by_def) (metis option.distinct(1))+

lemma tuple_inv_create:
  assumes "tuple_inv s" and "fresh_for lib 0 ''tup'' (ts_tuples s)"
  shows "tuple_inv (snd (CreateTuple lib clk i s))"
proof (cases rule: CreateTuple_cases [of lib clk i s])
  case (unchanged e)
  with assms show ?thesis by simp
next
  case (created t)
  moreover have "ts_tuples s (tup_ID t) = None" "tup_ID t \<noteq> ''''"
    using created(2) assms(2) Generate_nonempty by (auto simp: fresh_for_def)
  ultimately show ?thesis using tuple_inv_insert [OF assms(1)] by simp
qed

subsection \<open>Runs of the store\<close>

inductive tuple_step :: "tuple_store \<Rightarrow> tuple_store \<Rightarrow> bool" where
  step_create: "fresh_for lib 0 ''tup'' (ts_tuples s) \<Longrightarrow>
     tuple_step s (snd (CreateTuple lib clk i s))"
| step_delete: "tuple_step s (snd (DeleteTuple tid s))"
| step_cascade: "visits ks (ts_tuples s) \<Longrightarrow> tuple_step s (snd (CascadeRevokeSubject ks st sid s))"

lemma tuple_step_inv: "tuple_step s s' \<Longrightarrow> tuple_inv s \<Longrightarrow> tuple_inv s'"
proof (induction rule: tuple_step.induct)
  case (step_create lib s clk i)
  then show ?case by (simp add: tuple_inv_create)
next
  case (step_delete s tid)
  then show ?case by (simp add: DeleteTuple_remove tuple_inv_remove_ids)
next
  case (step_cascade ks s st sid)
  then show ?case by (simp add: cascade_remove tuple_inv_remove_ids)
qed

interpretation tuple_steps: op_system
  "\<lambda>s. \<exists>rules opts. s = NewInMemoryTupleStoreWithRules rules opts" tuple_step tuple_inv
  by unfold_locales (auto intro: tuple_step_inv)

subsection \<open>Natural keys without separators in the identifiers\<close>

definition bars :: "string \<Rightarrow> nat" where
  "bars s = length (filter (\<lambda>c. c = CHR ''|'') s)"

lemma bars_append [simp]: "bars (s @ t) = bars s + bars t" "bars ''|'' = 1"
  "bars (c # t) = bars [c] + bars t"
  by (simp_all add: bars_def)

lemma bars_zero: "bars s = 0 \<longleftrightarrow> CHR ''|'' \<notin> set s"
  by (induction s) (auto simp: bars_def)

lemma bars_key:
  "bars (tupleNaturalKey a b c d e) = bars a + bars b + bars c + bars d + bars e + 4"
  unfolding tupleNaturalKey_def by (simp only: bars_append(1,2))

lemma natural_key_unique:
  assumes "tupleNaturalKey a b c d e = tupleNaturalKey a' b' c' d' e'"
    and "bars a = 0" "bars b = 0" "bars c = 0" "bars d = 0" "bars e = 0"
  shows "a = a' \<and> b = b' \<and> c = c' \<and> d = d' \<and> e = e'"
proof -
  have "bars a' = 0 \<and> bars b' = 0 \<and> bars c' = 0 \<and> bars d' = 0 \<and> bars e' = 0"
    using arg_cong [OF assms(1), of bars] assms(2-) by (simp add: bars_key)
  then show ?thesis
    using assms unfolding bars_zero
    by (simp add: tupleNaturalKey_def first_separator)
qed

definition ids_bar_free :: "tuple_store \<Rightarrow> bool" where
  "ids_bar_free s \<longleftrightarrow> (\<forall>tid t. ts_tuples s tid = Some t \<longrightarrow>
     CHR ''|'' \<notin> set (tup_SubjectID t) \<and> CHR ''|'' \<notin> set (tup_ObjectID t))"

definition key_of :: "Tuple \<Rightarrow> tuple_key" where
  "key_of t = (tup_SubjectType t, tup_SubjectID t, tup_Relation t, tup_ObjectType t, tup_ObjectID t)"

definition tuple_set :: "tuple_store \<Rightarrow> tuple_key set" where
  "tuple_set s = {k. \<exists>tid t. ts_tuples s tid = Some t \<and> key_of t = k}"

lemma natural_key_key_of:
  assumes "tuple_names_ok t" and "CHR ''|'' \<notin> set (tup_SubjectID t)" "CHR ''|'' \<notin> set (tup_ObjectID t)"
  shows "natural_key t = tupleNaturalKey st sid rel ot oid \<longleftrightarrow> key_of t = (st, sid, rel, ot, oid)"
proof
  assume "natural_key t = tupleNaturalKey st sid rel ot oid"
  then show "key_of t = (st, sid, rel, ot, oid)"
    using assms pattern_no_bar unfolding natural_key_def key_of_def tuple_names_ok_def
    by (auto dest!: natural_key_unique simp: bars_zero)
qed (simp add: natural_key_def key_of_def)

lemma index_exact:
  assumes "tuple_inv s" and "ids_bar_free s"
  shows "ts_naturalKeyToID s (tupleNaturalKey st sid rel ot oid) = Some tid \<longleftrightarrow>
    (\<exists>t. ts_tuples s tid = Some t \<and> key_of t = (st, sid, rel, ot, oid))"
proof -
  have nk: "natural_key t = tupleNaturalKey st sid rel ot oid \<longleftrightarrow> key_of t = (st, sid, rel, ot, oid)"
    if "ts_tuples s tid' = Some t" for tid' t
    using that assms natural_key_key_of tuple_invD(5) unfolding ids_bar_free_def by metis
  show ?thesis
    using nk tuple_invD(4) [OF assms(1)] tuple_invD(6) [OF assms(1)] by metis
qed

type_synonym visit_order = "string \<Rightarrow> string \<Rightarrow> string \<Rightarrow> string list"

definition backend_ok :: "visit_order \<times> tuple_store \<Rightarrow> bool" where
  "backend_ok os \<longleftrightarrow> tuple_inv (snd os) \<and> ids_bar_free (snd os) \<and>
     (\<forall>ot oid rel. visits (fst os ot oid rel) (ts_tuples (snd os)))"

interpretation inmem_tuples: tuple_backend backend_ok "\<lambda>os. tuple_set (snd os)" "\<lambda>_ _. True"
  "\<lambda>os. store_lookup (snd os)" "\<lambda>os. store_listing (fst os) (snd os)"
proof unfold_locales
  fix os :: "visit_order \<times> tuple_store" and st sid rel ot oid :: string
  assume ok: "backend_ok os"
  then show "(\<exists>tid. store_lookup (snd os) st sid rel ot oid = Some tid) \<longleftrightarrow>
      (st, sid, rel, ot, oid) \<in> tuple_set (snd os)"
    using index_exact [of "snd os"] by (auto simp: backend_ok_def store_lookup_def tuple_set_def)
  have "v \<in> set (go_range (ts_tuples (snd os)) (fst os ot oid rel)) \<longleftrightarrow>
      (\<exists>k. ts_tuples (snd os) k = Some v)" for v
    using ok by (intro in_go_range) (simp add: backend_ok_def)
  then have iff: "(\<exists>sub \<in> set (store_listing (fst os) (snd os) ot oid rel).
        ref_SubjectType sub = st \<and> ref_SubjectID sub = sid) \<longleftrightarrow>
      (st, sid, rel, ot, oid) \<in> tuple_set (snd os)" for st sid
    by (auto simp: store_listing_def tuple_set_def key_of_def simp del: set_go_range)
  show "sub \<in> set (store_listing (fst os) (snd os) ot oid rel) \<Longrightarrow>
      (ref_SubjectType sub, ref_SubjectID sub, rel, ot, oid) \<in> tuple_set (snd os)" for sub
    using iff by blast
  show "(st, sid, rel, ot, oid) \<in> tuple_set (snd os) \<Longrightarrow>
      \<exists>sub \<in> set (store_listing (fst os) (snd os) ot oid rel). ref_SubjectType sub = st \<and> ref_SubjectID sub = sid"
    using iff by blast
qed simp

lemma Check_decides:
  assumes "tuple_inv s" and "ids_bar_free s" and "\<And>ot oid rel. visits (order ot oid rel) (ts_tuples s)"
    and "Check order i s = Inr r"
  shows "chk_Allowed r \<longleftrightarrow> holds (ts_rules s) (tuple_set s) (ci_SubjectType i) (ci_SubjectID i)
    (ci_Relation i) (ci_ObjectType i) (ci_ObjectID i)"
proof (cases "ts_rules s")
  case None
  have "holds None T st sid rel ot oid \<longleftrightarrow> (st, sid, rel, ot, oid) \<in> T" for T st sid rel ot oid
    by (auto elim: holds.cases intro: holds_direct)
  moreover have "chk_Allowed r \<longleftrightarrow> (\<exists>tid. ts_naturalKeyToID s (tupleNaturalKey (ci_SubjectType i)
      (ci_SubjectID i) (ci_Relation i) (ci_ObjectType i) (ci_ObjectID i)) = Some tid)"
    using assms(4) None by (auto simp: Check_def split: option.splits)
  ultimately show ?thesis
    unfolding None index_exact [OF assms(1,2)] tuple_set_def by auto
next
  case (Some rules)
  then obtain res where res: "Evaluate (Some rules) (ci_SubjectType i) (ci_SubjectID i) (ci_Relation i)
        (ci_ObjectType i) (ci_ObjectID i) (store_lookup s) (store_listing order s)
        \<lparr>MaxDepth = ts_maxDepth s, MaxFanOut = ts_maxFanOut s\<rparr> = Inr res"
    "chk_Allowed r = Allowed res"
    using assms(4) by (auto simp: Check_def split: sum.splits if_splits)
  have "backend_ok (order, s)" using assms(1-3) by (simp add: backend_ok_def)
  from inmem_tuples.Evaluate_holds [OF this TrueI TrueI, of "Some rules"] res Some show ?thesis by simp
qed

subsection \<open>Listings\<close>

interpretation tuple_order: key_order tuple_before "\<lambda>t. (tup_CreatedAt t, tup_ID t)"
  by unfold_locales (auto simp: tuple_before_def less_prod_def')

lemma tuple_listing_sorted:
  assumes "tuple_inv s" and "visits ks (ts_tuples s)" and "visits ks' (ts_tuples s)"
  shows "go_sort tuple_before (filter P (go_range (ts_tuples s) ks))
    = go_sort tuple_before (filter P (go_range (ts_tuples s) ks'))"
proof (rule tuple_order.go_sort_order)
  show "mset (filter P (go_range (ts_tuples s) ks)) = mset (filter P (go_range (ts_tuples s) ks'))"
    by (rule go_range_filter_order [OF assms(2,3)])
  show "inj_on (\<lambda>t. (tup_CreatedAt t, tup_ID t)) (set (filter P (go_range (ts_tuples s) ks)))"
    using tuple_invD(1) [OF assms(1)] by (auto simp: inj_on_def keyed_by_def)
qed

lemma tuple_listing_ok:
  assumes "tuple_inv s" and "visits ks (ts_tuples s)"
  shows "listing_ok tup_ID (go_sort tuple_before (filter P (go_range (ts_tuples s) ks)))"
  unfolding listing_ok_def
proof
  show "distinct (map tup_ID (go_sort tuple_before (filter P (go_range (ts_tuples s) ks))))"
    using keyed_range_filter_distinct [OF tuple_invD(1) [OF assms(1)] assms(2)]
    by (simp add: tuple_order.go_sort_distinct)
  show "'''' \<notin> tup_ID ` set (go_sort tuple_before (filter P (go_range (ts_tuples s) ks)))"
    using tuple_invD(1,3) [OF assms(1)] by (auto simp: keyed_by_def)
qed

subsection \<open>Properties\<close>

text \<open>C22: in every state that a tuple store reaches from an empty one (created with any rules), the
  index of natural keys and the map of tuples agree: each stored tuple is found under its natural key
  and each key leads to a stored tuple with that key, so no two tuples share a natural key; the names
  of every stored tuple match the patterns.\<close>

theorem tuple_store_invariant:
  assumes "tuple_step\<^sup>*\<^sup>* (NewInMemoryTupleStoreWithRules rules opts) s"
  shows "(\<forall>tid t. ts_tuples s tid = Some t \<longrightarrow> tup_ID t = tid \<and> tuple_names_ok t \<and>
      ts_naturalKeyToID s (natural_key t) = Some tid) \<and>
    (\<forall>key tid. ts_naturalKeyToID s key = Some tid \<longrightarrow>
      (\<exists>t. ts_tuples s tid = Some t \<and> natural_key t = key))"
  using tuple_steps.inv_reachable [OF _ assms] unfolding tuple_inv_def keyed_by_def by blast

definition demo_id :: string where "demo_id = ''tup_0190f2a81b3c7abc8123456789abcdef''"

definition demo_tuple :: Tuple where
  "demo_tuple = \<lparr>tup_ID = demo_id, tup_SubjectType = ''usr'', tup_SubjectID = ''ann'',
     tup_Relation = ''viewer'', tup_ObjectType = ''doc'', tup_ObjectID = ''d1'',
     tup_CreatedAt = 7, tup_CreatedBy = None\<rparr>"

definition demo_start :: tuple_store where
  "demo_start = NewInMemoryTupleStoreWithRules None \<lparr>MaxDepth = 0, MaxFanOut = 0\<rparr>"

definition demo_store :: tuple_store where
  "demo_store = snd (CreateTuple (demo_lib ''0190f2a8-1b3c-7abc-8123-456789abcdef'') (\<lambda>_. 7)
     \<lparr>cti_SubjectType = ''usr'', cti_SubjectID = ''ann'', cti_Relation = ''viewer'',
      cti_ObjectType = ''doc'', cti_ObjectID = ''d1'', cti_CreatedBy = None\<rparr> demo_start)"

lemma demo_run:
  "tuple_step\<^sup>*\<^sup>* (NewInMemoryTupleStoreWithRules None \<lparr>MaxDepth = 0, MaxFanOut = 0\<rparr>) demo_store"
  unfolding demo_store_def demo_start_def
  by (intro r_into_rtranclp step_create)
    (simp add: fresh_for_def NewInMemoryTupleStoreWithRules_def NewInMemoryTupleStore_def)

lemma demo_tuples: "ts_tuples demo_store = [demo_id \<mapsto> demo_tuple]"
proof -
  have g: "Generate (demo_lib ''0190f2a8-1b3c-7abc-8123-456789abcdef'') 0 ''tup'' = Inr demo_id"
    by code_simp
  have p: "rx_match RelationNamePattern ''viewer''" "rx_match TypePrefixPattern ''usr''"
    "rx_match TypePrefixPattern ''doc''" by code_simp+
  show ?thesis
    using g p by (simp add: demo_store_def demo_start_def CreateTuple_def Let_def demo_tuple_def
        NewInMemoryTupleStoreWithRules_def NewInMemoryTupleStore_def)
qed

lemma demo_visits: "visits [demo_id] (ts_tuples demo_store)"
  by (simp add: demo_tuples visits_def)

theorem tuple_store_invariant_witness:
  "ts_naturalKeyToID demo_store (natural_key demo_tuple) = Some demo_id"
  using tuple_store_invariant [OF demo_run] by (simp add: demo_tuples)

text \<open>C1: \<open>Check\<close>, with or without rewrite rules, whenever it returns no error, allows exactly what
  the stored tuples mean under the rules (without rules: the exact five-part match), for every
  visiting order, provided no stored identifier contains the separator of the natural keys.\<close>

theorem Check_meaning:
  assumes "tuple_step\<^sup>*\<^sup>* (NewInMemoryTupleStoreWithRules rules opts) s" and "ids_bar_free s"
    and "\<forall>ot oid rel. visits (order ot oid rel) (ts_tuples s)"
    and "Check order i s = Inr r"
  shows "chk_Allowed r \<longleftrightarrow> holds (ts_rules s) (tuple_set s) (ci_SubjectType i) (ci_SubjectID i)
    (ci_Relation i) (ci_ObjectType i) (ci_ObjectID i)"
  by (rule Check_decides [OF _ assms(2) _ assms(4)])
    (use assms(1,3) tuple_steps.inv_reachable in blast)+

theorem Check_meaning_witness:
  "holds (ts_rules demo_store) (tuple_set demo_store) ''usr'' ''ann'' ''viewer'' ''doc'' ''d1''
     \<and> \<not> holds (ts_rules demo_store) (tuple_set demo_store) ''usr'' ''ann'' ''viewer'' ''doc'' ''d2''"
proof -
  have bf: "ids_bar_free demo_store" by (simp add: ids_bar_free_def demo_tuples demo_tuple_def)
  have v: "\<forall>ot oid rel. visits [demo_id] (ts_tuples demo_store)" using demo_visits by simp
  have c1: "Check (\<lambda>_ _ _. [demo_id]) \<lparr>ci_SubjectType = ''usr'', ci_SubjectID = ''ann'',
      ci_Relation = ''viewer'', ci_ObjectType = ''doc'', ci_ObjectID = ''d1''\<rparr> demo_store
      = Inr \<lparr>chk_Allowed = True, chk_MatchedTupleID = Some demo_id\<rparr>" by code_simp
  have c2: "Check (\<lambda>_ _ _. [demo_id]) \<lparr>ci_SubjectType = ''usr'', ci_SubjectID = ''ann'',
      ci_Relation = ''viewer'', ci_ObjectType = ''doc'', ci_ObjectID = ''d2''\<rparr> demo_store
      = Inr \<lparr>chk_Allowed = False, chk_MatchedTupleID = None\<rparr>" by code_simp
  show ?thesis
    using Check_meaning [OF demo_run bf v c1] Check_meaning [OF demo_run bf v c2] by simp
qed

text \<open>the natural key joins its parts with a separator that subject and object identifiers may
  contain, so \<open>Check\<close> answers for tuples that nobody created: after the creation of one tuple whose
  subject identifier contains the separator, a check for a different subject, relation and object is
  allowed.\<close>

theorem Check_separator_collision:
  "let s = snd (CreateTuple (demo_lib ''0190f2a8-1b3c-7abc-8123-456789abcdef'') (\<lambda>_. 7)
        \<lparr>cti_SubjectType = ''usr'', cti_SubjectID = ''ann|member|org|b'', cti_Relation = ''viewer'',
         cti_ObjectType = ''doc'', cti_ObjectID = ''x'', cti_CreatedBy = None\<rparr> NewInMemoryTupleStore)
   in Check (\<lambda>_ _ _. []) \<lparr>ci_SubjectType = ''usr'', ci_SubjectID = ''ann'', ci_Relation = ''member'',
        ci_ObjectType = ''org'', ci_ObjectID = ''b|viewer|doc|x''\<rparr> s
      = Inr \<lparr>chk_Allowed = True, chk_MatchedTupleID = Some ''tup_0190f2a81b3c7abc8123456789abcdef''\<rparr>"
  by code_simp

text \<open>\<open>CascadeRevokeSubject\<close> removes exactly the tuples of the subject and their index entries,
  leaves every other tuple and entry alone, and returns their number, whatever order the runtime
  visits the map in; afterwards no direct lookup finds a tuple of the subject.\<close>

theorem CascadeRevokeSubject_exact:
  assumes "tuple_step\<^sup>*\<^sup>* (NewInMemoryTupleStoreWithRules rules opts) s"
    and "visits ks (ts_tuples s)" and "CascadeRevokeSubject ks st sid s = (n, s')"
  shows "n = card {tid. \<exists>t. ts_tuples s tid = Some t \<and> tup_SubjectType t = st \<and> tup_SubjectID t = sid} \<and>
    (\<forall>tid. ts_tuples s' tid =
       (case ts_tuples s tid of None \<Rightarrow> None
        | Some t \<Rightarrow> if tup_SubjectType t = st \<and> tup_SubjectID t = sid then None else Some t)) \<and>
    (\<forall>key tid. ts_naturalKeyToID s' key = Some tid \<longleftrightarrow>
       ts_naturalKeyToID s key = Some tid \<and> ts_tuples s' tid \<noteq> None)"
proof -
  have inv: "tuple_inv s" using tuple_steps.inv_reachable [OF _ assms(1)] by blast
  have n: "n = card (owned st sid s)" and s': "s' = remove_ids (owned st sid s) s"
    using cascade_remove [OF inv assms(2), of st sid] assms(3) by simp_all
  have "ts_tuples s' tid = (case ts_tuples s tid of None \<Rightarrow> None
      | Some t \<Rightarrow> if tup_SubjectType t = st \<and> tup_SubjectID t = sid then None else Some t)" for tid
    unfolding s' by (auto simp: owned_def split: option.splits)
  moreover have "ts_naturalKeyToID s' key = Some tid \<longleftrightarrow>
      ts_naturalKeyToID s key = Some tid \<and> ts_tuples s' tid \<noteq> None" for key tid
    unfolding s' remove_ids_index using tuple_invD(6) [OF inv, of key tid] by auto
  ultimately show ?thesis using n by (simp add: owned_def)
qed

theorem CascadeRevokeSubject_exact_witness:
  "\<exists>s'. CascadeRevokeSubject [demo_id] ''usr'' ''ann'' demo_store = (1, s') \<and>
     ts_tuples demo_store demo_id \<noteq> None \<and> ts_tuples s' demo_id = None"
proof -
  obtain n s' where c: "CascadeRevokeSubject [demo_id] ''usr'' ''ann'' demo_store = (n, s')"
    by (cases "CascadeRevokeSubject [demo_id] ''usr'' ''ann'' demo_store")
  note f = CascadeRevokeSubject_exact [OF demo_run demo_visits c]
  have "{tid. \<exists>t. ts_tuples demo_store tid = Some t \<and> tup_SubjectType t = ''usr'' \<and>
      tup_SubjectID t = ''ann''} = {demo_id}" by (auto simp: demo_tuples demo_tuple_def)
  then have "n = 1" "ts_tuples s' demo_id = None" using f by (simp_all add: demo_tuples demo_tuple_def)
  then show ?thesis using c by (simp add: demo_tuples)
qed

text \<open>C32: a client that follows \<open>NextCursor\<close> through \<open>ListTuplesBySubject\<close> receives every tuple of
  the subject exactly once, ordered by creation time and then identifier, although the runtime may
  visit the map in another order on every request; no request panics while the limit and the number
  of tuples stay within the range of \<open>int\<close>.\<close>

theorem ListTuplesBySubject_pages:
  assumes "tuple_step\<^sup>*\<^sup>* (NewInMemoryTupleStoreWithRules rules opts) s"
    and "\<forall>c. visits (ks c) (ts_tuples s)" and "visits ks0 (ts_tuples s)"
    and "xs = sort_key (\<lambda>t. (tup_CreatedAt t, tup_ID t))
      (filter (\<lambda>t. tup_SubjectType t = st \<and> tup_SubjectID t = sid) (go_range (ts_tuples s) ks0))"
    and "int (length xs) + page_limit limit \<le> max_int64"
  shows "walk_pages (\<lambda>c. ListTuplesBySubject (ks c) st sid \<lparr>lt_Cursor = c, lt_Limit = limit\<rparr> s)
      (length xs + 1) None = Some xs
    \<and> distinct (map tup_ID xs)
    \<and> (\<forall>t. t \<in> set xs \<longleftrightarrow> (\<exists>tid. ts_tuples s tid = Some t) \<and> tup_SubjectType t = st \<and> tup_SubjectID t = sid)"
proof -
  let ?P = "\<lambda>t. tup_SubjectType t = st \<and> tup_SubjectID t = sid"
  have inv: "tuple_inv s" using tuple_steps.inv_reachable [OF _ assms(1)] by blast
  have xs: "xs = go_sort tuple_before (filter ?P (go_range (ts_tuples s) ks0))"
    by (simp add: assms(4) tuple_order.go_sort_sort_key)
  have "(\<lambda>c. ListTuplesBySubject (ks c) st sid \<lparr>lt_Cursor = c, lt_Limit = limit\<rparr> s)
      = (\<lambda>c. paginate tup_ID c (page_limit limit) xs)"
  proof
    fix c
    show "ListTuplesBySubject (ks c) st sid \<lparr>lt_Cursor = c, lt_Limit = limit\<rparr> s
        = paginate tup_ID c (page_limit limit) xs"
      using tuple_listing_sorted [OF inv spec [OF assms(2), of c] assms(3), of ?P]
      by (simp add: ListTuplesBySubject_def paginateTuples_def xs)
  qed
  then have "walk_pages (\<lambda>c. ListTuplesBySubject (ks c) st sid \<lparr>lt_Cursor = c, lt_Limit = limit\<rparr> s)
      (length xs + 1) None = Some xs"
    using paginate.walk_all [of "page_limit limit" xs tup_ID] tuple_listing_ok [OF inv assms(3), of ?P]
      assms(5) xs by simp
  moreover have "distinct (map tup_ID xs)"
    using tuple_listing_ok [OF inv assms(3), of ?P] xs by (simp add: listing_ok_def)
  moreover have "t \<in> set xs \<longleftrightarrow> (\<exists>tid. ts_tuples s tid = Some t) \<and> ?P t" for t
    using in_go_range [OF assms(3)] by (auto simp: assms(4) simp del: set_go_range)
  ultimately show ?thesis by blast
qed

theorem ListTuplesBySubject_pages_witness:
  "walk_pages (\<lambda>c. ListTuplesBySubject [demo_id] ''usr'' ''ann'' \<lparr>lt_Cursor = c, lt_Limit = 0\<rparr> demo_store)
     2 None = Some [demo_tuple]"
proof -
  have x: "[demo_tuple] = sort_key (\<lambda>t. (tup_CreatedAt t, tup_ID t))
      (filter (\<lambda>t. tup_SubjectType t = ''usr'' \<and> tup_SubjectID t = ''ann'')
        (go_range (ts_tuples demo_store) [demo_id]))"
    by (simp add: demo_tuples demo_tuple_def)
  have b: "int (length [demo_tuple]) + page_limit 0 \<le> max_int64"
    by (simp add: page_limit_def max_int64_def)
  show ?thesis
    using ListTuplesBySubject_pages [OF demo_run _ demo_visits x b, of "\<lambda>_. [demo_id]"] demo_visits
    by (simp add: numeral_2_eq_2)
qed

end
