(* ===== verification/Encoding.thy ===== *)
theory Encoding
  imports GoPrelude
begin

text \<open>
  The text encodings the stores use for random bytes and digests: \<open>hex.EncodeToString\<close> and the
  unpadded base64 of \<open>encoding/base64\<close>, with the lemmas that different bytes have different texts.
  A byte is a \<open>char\<close>.
\<close>

definition hex_digit :: "nat \<Rightarrow> char" where
  "hex_digit n = ''0123456789abcdef'' ! n"

fun hex_EncodeToString :: "string \<Rightarrow> string" where
  "hex_EncodeToString [] = []"
| "hex_EncodeToString (c # cs) =
     hex_digit (of_char c div 16) # hex_digit (of_char c mod 16) # hex_EncodeToString cs"

definition urlAlphabet :: string where
  "urlAlphabet = ''ABCDEFGHIJKLMNOPQRSTUVWXYZabcdefghijklmnopqrstuvwxyz0123456789-_''"

definition stdAlphabet :: string where
  "stdAlphabet = ''ABCDEFGHIJKLMNOPQRSTUVWXYZabcdefghijklmnopqrstuvwxyz0123456789+/''"

fun sextets :: "nat list \<Rightarrow> nat list" where
  "sextets [] = []"
| "sextets [a] = [a div 4, a mod 4 * 16]"
| "sextets [a, b] = [a div 4, a mod 4 * 16 + b div 16, b mod 16 * 4]"
| "sextets (a # b # c # r) =
     a div 4 # (a mod 4 * 16 + b div 16) # (b mod 16 * 4 + c div 64) # c mod 64 # sextets r"

definition base64_raw :: "string \<Rightarrow> string \<Rightarrow> string" where
  "base64_raw alphabet s = map (\<lambda>n. alphabet ! n) (sextets (map of_char s))"

definition RawURLEncoding_EncodeToString :: "string \<Rightarrow> string" where
  "RawURLEncoding_EncodeToString = base64_raw urlAlphabet"

lemma of_char_less [simp]: "(of_char c :: nat) < 256"
  by (metis nat_of_char_less_256)

lemma hex_digit_inj: "m < 16 \<Longrightarrow> n < 16 \<Longrightarrow> hex_digit m = hex_digit n \<longleftrightarrow> m = n"
proof -
  have "distinct ''0123456789abcdef''" by simp
  from nth_eq_iff_index_eq [OF this, of m n] show "m < 16 \<Longrightarrow> n < 16 \<Longrightarrow> ?thesis"
    by (simp add: hex_digit_def)
qed

lemma of_char_div_16 [simp]: "(of_char c :: nat) div 16 < 16"
  using of_char_less [of c] by linarith

lemma hex_EncodeToString_inj [simp]: "hex_EncodeToString s = hex_EncodeToString t \<longleftrightarrow> s = t"
proof (induction s arbitrary: t)
  case Nil
  then show ?case by (cases t) auto
next
  case (Cons c s)
  show ?case
  proof (cases t)
    case (Cons d r)
    have "of_char c div 16 = (of_char d div 16 :: nat) \<Longrightarrow> of_char c mod 16 = (of_char d mod 16 :: nat)
        \<Longrightarrow> (of_char c :: nat) = of_char d"
      by (metis mult_div_mod_eq)
    then show ?thesis using Cons Cons.IH by (auto simp: hex_digit_inj)
  qed simp
qed

lemma hex_EncodeToString_length [simp]: "length (hex_EncodeToString s) = 2 * length s"
  by (induction s) auto

lemma digit_pair:
  assumes "u * k + v = u' * k + (v' :: nat)" and "v < k" and "v' < k"
  shows "u = u' \<and> v = v'"
proof -
  have "(u * k + v) div k = u" "(u' * k + v') div k = u'" "(u * k + v) mod k = v" "(u' * k + v') mod k = v'"
    using assms(2,3) by simp_all
  with assms(1) show ?thesis by metis
qed

lemma pair_bound: "(u::nat) < m \<Longrightarrow> v < k \<Longrightarrow> u * k + v < m * k"
proof -
  assume "u < m" "v < k"
  then have "u * k + v < Suc u * k" by simp
  also have "\<dots> \<le> m * k" using \<open>u < m\<close> by (intro mult_right_mono) auto
  finally show ?thesis .
qed

lemma sextet_bounds:
  assumes "(b::nat) < 256"
  shows "a mod 4 * 16 + b div 16 < 64" "a mod 16 * 4 + b div 64 < 64"
  using pair_bound [of "a mod 4" 4 "b div 16" 16] pair_bound [of "a mod 16" 16 "b div 64" 4] assms
  by simp_all

lemma sextets_less: "list_all (\<lambda>n. n < 256) xs \<Longrightarrow> list_all (\<lambda>n. n < 64) (sextets xs)"
  by (induction xs rule: sextets.induct) (auto simp: sextet_bounds)

lemma sextets_inj:
  "list_all (\<lambda>n. n < 256) xs \<Longrightarrow> list_all (\<lambda>n. n < 256) ys \<Longrightarrow> sextets xs = sextets ys \<Longrightarrow> xs = ys"
proof (induction xs arbitrary: ys rule: sextets.induct)
  case 1
  then show ?case by (cases ys rule: sextets.cases) auto
next
  case (2 a)
  then show ?case
    by (cases ys rule: sextets.cases) (auto, metis mult_div_mod_eq)
next
  case (3 a b)
  show ?case
  proof (cases ys rule: sextets.cases)
    case (3 a' b')
    have b: "a < 256" "b < 256" "a' < 256" "b' < 256" using 3 "3.prems" by auto
    have e: "a div 4 = a' div 4" "a mod 4 * 16 + b div 16 = a' mod 4 * 16 + b' div 16"
      "b mod 16 * 4 = b' mod 16 * 4" using 3 "3.prems" by auto
    have m: "a mod 4 = a' mod 4" "b div 16 = b' div 16"
      using digit_pair [OF e(2)] b by simp_all
    from e(1) m(1) have "a = a'" by (metis mult_div_mod_eq)
    moreover from e(3) m(2) have "b = b'" by (metis mult_div_mod_eq mult_right_cancel zero_neq_numeral)
    ultimately show ?thesis using 3 by simp
  qed (use "3.prems" in auto)
next
  case (4 a b c r)
  show ?case
  proof (cases ys rule: sextets.cases)
    case (4 a' b' c' r')
    have b: "a < 256" "b < 256" "c < 256" "a' < 256" "b' < 256" "c' < 256" using 4 "4.prems" by auto
    have e: "a div 4 = a' div 4" "a mod 4 * 16 + b div 16 = a' mod 4 * 16 + b' div 16"
      "b mod 16 * 4 + c div 64 = b' mod 16 * 4 + c' div 64" "c mod 64 = c' mod 64"
      "sextets r = sextets r'" using 4 "4.prems" by auto
    have m: "a mod 4 = a' mod 4" "b div 16 = b' div 16"
      using digit_pair [OF e(2)] b by simp_all
    have n: "b mod 16 = b' mod 16" "c div 64 = c' div 64"
      using digit_pair [OF e(3)] b by simp_all
    have "a = a'" "b = b'" "c = c'" using e m n by (metis mult_div_mod_eq)+
    moreover have "r = r'" using "4.IH" [OF _ _ e(5)] "4.prems" 4 by auto
    ultimately show ?thesis using 4 by simp
  qed (use "4.prems" in auto)
qed

lemma base64_raw_inj:
  assumes "distinct alphabet" and "length alphabet = 64"
  shows "base64_raw alphabet s = base64_raw alphabet t \<longleftrightarrow> s = t"
proof
  assume eq: "base64_raw alphabet s = base64_raw alphabet t"
  have l: "list_all (\<lambda>n. n < 256) (map (of_char :: char \<Rightarrow> nat) s)"
    "list_all (\<lambda>n. n < 256) (map (of_char :: char \<Rightarrow> nat) t)"
    by (simp_all add: list_all_iff)
  have "inj_on (\<lambda>n. alphabet ! n) (set (sextets (map of_char s)) \<union> set (sextets (map of_char t)))"
    using sextets_less [OF l(1)] sextets_less [OF l(2)] assms
    by (auto simp: inj_on_def list_all_iff nth_eq_iff_index_eq)
  with eq have "sextets (map of_char s) = sextets (map of_char t)"
    by (simp add: base64_raw_def inj_on_map_eq_map)
  then have "map (of_char :: char \<Rightarrow> nat) s = map of_char t" by (rule sextets_inj [OF l])
  then show "s = t" by (simp add: inj_map_eq_map inj_of_char)
qed simp

lemma RawURLEncoding_inj [simp]:
  "RawURLEncoding_EncodeToString s = RawURLEncoding_EncodeToString t \<longleftrightarrow> s = t"
  by (simp add: RawURLEncoding_EncodeToString_def base64_raw_inj urlAlphabet_def)

end
