(* ===== verification/AuthzShares.thy ===== *)
theory AuthzShares
  imports AuthzTypes Paging Encoding
begin

text \<open>
  \<open>packages/authz\<close>: the share tokens of \<open>types.go\<close>, \<open>store.go\<close> and \<open>InMemoryShareStore\<close> of
  \<open>inmem.go\<close>.  \<open>crypto/sha256\<close> is the argument \<open>sha256\<close> (any function from texts to digests) and
  \<open>crypto/rand\<close> the argument \<open>rand\<close> (\<open>Inl\<close> an error, \<open>Inr\<close> the bytes read).  \<open>share_le\<close> is the
  order in which a share may change; \<open>share_steps\<close> shows that every method respects it.
\<close>

record Share =
  shr_ID :: string
  shr_ObjectType :: string
  shr_ObjectID :: string
  shr_Relation :: string
  shr_CreatedBy :: string
  shr_ExpiresAt :: gotime
  shr_SingleUse :: bool
  shr_ConsumedAt :: "gotime option"
  shr_RevokedAt :: "gotime option"
  shr_CreatedAt :: gotime

record CreateShareResult =
  csr_Share :: Share
  csr_Token :: string

record VerifiedShare =
  vs_ShareID :: string
  vs_ObjectType :: string
  vs_ObjectID :: string
  vs_Relation :: string

definition ShareMaxTTLSeconds :: int where
  "ShareMaxTTLSeconds = 365 * 24 * 60 * 60"

record CreateShareInput =
  csi_ObjectType :: string
  csi_ObjectID :: string
  csi_Relation :: string
  csi_CreatedBy :: string
  csi_ExpiresInSeconds :: int
  csi_SingleUse :: bool

record ListSharesOptions =
  ls_Cursor :: "string option"
  ls_Limit :: int

record share_store =
  ss_shares :: "string \<rightharpoonup> Share"
  ss_shareTokenHashes :: "string \<rightharpoonup> string"
  ss_shareIDByTokenHash :: "string \<rightharpoonup> string"

definition NewInMemoryShareStore :: share_store where
  "NewInMemoryShareStore =
     \<lparr>ss_shares = Map.empty, ss_shareTokenHashes = Map.empty, ss_shareIDByTokenHash = Map.empty\<rparr>"

text \<open>The zero values that reading an absent key of the maps gives.\<close>

definition zero_time :: gotime where
  "zero_time = - 62135596800 * second_ns"

definition zero_Share :: Share where
  "zero_Share = \<lparr>shr_ID = '''', shr_ObjectType = '''', shr_ObjectID = '''', shr_Relation = '''',
     shr_CreatedBy = '''', shr_ExpiresAt = zero_time, shr_SingleUse = False, shr_ConsumedAt = None,
     shr_RevokedAt = None, shr_CreatedAt = zero_time\<rparr>"

definition CreateShare ::
  "(string \<Rightarrow> string) \<Rightarrow> uuid_lib \<Rightarrow> (string + string) \<Rightarrow> clock \<Rightarrow> CreateShareInput \<Rightarrow> share_store \<Rightarrow>
   (authz_error + CreateShareResult) \<times> share_store"
where
  "CreateShare sha256 lib rand clk i s =
     (if \<not> rx_match RelationNamePattern (csi_Relation i)
      then (Inl (ErrInvalidFormat (csi_Relation i)), s)
      else if csi_ExpiresInSeconds i \<le> 0 \<or> csi_ExpiresInSeconds i > ShareMaxTTLSeconds
      then (Inl (ErrInvalidFormat ''ttl''), s)
      else case Generate lib 0 ''shr'' of
        Inl err \<Rightarrow> (Inl (ErrGenerate err), s)
      | Inr sid \<Rightarrow>
          (case rand of
             Inl err \<Rightarrow> (Inl (ErrRandom err), s)
           | Inr tokenBytes \<Rightarrow>
               let token = RawURLEncoding_EncodeToString tokenBytes;
                   h = sha256 token;
                   now = clk 0;
                   share = \<lparr>shr_ID = sid, shr_ObjectType = csi_ObjectType i,
                     shr_ObjectID = csi_ObjectID i, shr_Relation = csi_Relation i,
                     shr_CreatedBy = csi_CreatedBy i,
                     shr_ExpiresAt = now + wrap64 (csi_ExpiresInSeconds i * second_ns),
                     shr_SingleUse = csi_SingleUse i, shr_ConsumedAt = None,
                     shr_RevokedAt = None, shr_CreatedAt = now\<rparr>
               in (Inr \<lparr>csr_Share = share, csr_Token = token\<rparr>,
                   s\<lparr>ss_shares := (ss_shares s)(sid \<mapsto> share),
                     ss_shareTokenHashes := (ss_shareTokenHashes s)(sid \<mapsto> h),
                     ss_shareIDByTokenHash := (ss_shareIDByTokenHash s)(hex_EncodeToString h \<mapsto> sid)\<rparr>)))"

definition GetShare :: "string \<Rightarrow> share_store \<Rightarrow> authz_error + Share" where
  "GetShare shareID s =
     (case ss_shares s shareID of None \<Rightarrow> Inl (ErrShareNotFound shareID) | Some sh \<Rightarrow> Inr sh)"

definition VerifyShareToken ::
  "(string \<Rightarrow> string) \<Rightarrow> clock \<Rightarrow> string \<Rightarrow> share_store \<Rightarrow> (authz_error + VerifiedShare) \<times> share_store"
where
  "VerifyShareToken sha256 clk token s =
     (let h = sha256 token
      in case ss_shareIDByTokenHash s (hex_EncodeToString h) of
           None \<Rightarrow> (Inl ErrInvalidShareToken, s)
         | Some shareID \<Rightarrow>
             let storedHash = (case ss_shareTokenHashes s shareID of None \<Rightarrow> [] | Some x \<Rightarrow> x)
             in if h \<noteq> storedHash then (Inl ErrInvalidShareToken, s)
                else let sh = (case ss_shares s shareID of None \<Rightarrow> zero_Share | Some x \<Rightarrow> x)
                     in if shr_RevokedAt sh \<noteq> None then (Inl ErrShareRevoked, s)
                        else if shr_SingleUse sh \<and> shr_ConsumedAt sh \<noteq> None
                        then (Inl ErrShareConsumed, s)
                        else if \<not> clk 0 < shr_ExpiresAt sh then (Inl ErrShareExpired, s)
                        else (Inr \<lparr>vs_ShareID = shr_ID sh, vs_ObjectType = shr_ObjectType sh,
                                   vs_ObjectID = shr_ObjectID sh, vs_Relation = shr_Relation sh\<rparr>,
                              if shr_SingleUse sh
                              then s\<lparr>ss_shares := (ss_shares s)(shareID \<mapsto> sh\<lparr>shr_ConsumedAt := Some (clk 1)\<rparr>)\<rparr>
                              else s))"

definition RevokeShare :: "clock \<Rightarrow> string \<Rightarrow> share_store \<Rightarrow> (authz_error + Share) \<times> share_store" where
  "RevokeShare clk shareID s =
     (case ss_shares s shareID of
        None \<Rightarrow> (Inl (ErrShareNotFound shareID), s)
      | Some sh \<Rightarrow>
          if shr_RevokedAt sh \<noteq> None then (Inr sh, s)
          else let sh' = sh\<lparr>shr_RevokedAt := Some (clk 0)\<rparr>
               in (Inr sh', s\<lparr>ss_shares := (ss_shares s)(shareID \<mapsto> sh')\<rparr>))"

definition share_before :: "Share \<Rightarrow> Share \<Rightarrow> bool" where
  "share_before a b \<longleftrightarrow> shr_CreatedAt a < shr_CreatedAt b \<or>
     (shr_CreatedAt a = shr_CreatedAt b \<and> shr_ID a < shr_ID b)"

definition ListSharesForObject ::
  "string list \<Rightarrow> string \<Rightarrow> string \<Rightarrow> ListSharesOptions \<Rightarrow> share_store \<Rightarrow> Share page option" where
  "ListSharesForObject ks objectType objectID opts s =
     (let limit = page_limit (ls_Limit opts);
          matched = filter (\<lambda>sh. shr_ObjectType sh = objectType \<and> shr_ObjectID sh = objectID)
                      (go_range (ss_shares s) ks)
      in paginate shr_ID (ls_Cursor opts) limit (go_sort share_before matched))"

subsection \<open>The invariant and the order of shares\<close>

definition share_inv :: "share_store \<Rightarrow> bool" where
  "share_inv s \<longleftrightarrow> keyed_by shr_ID (ss_shares s) \<and> finite (dom (ss_shares s)) \<and>
     ss_shares s '''' = None \<and> dom (ss_shareTokenHashes s) = dom (ss_shares s) \<and>
     (\<forall>key sid. ss_shareIDByTokenHash s key = Some sid \<longleftrightarrow>
        (\<exists>h. ss_shareTokenHashes s sid = Some h \<and> key = hex_EncodeToString h))"

lemma share_invD:
  assumes "share_inv s"
  shows "keyed_by shr_ID (ss_shares s)" "finite (dom (ss_shares s))" "ss_shares s '''' = None"
    and "dom (ss_shareTokenHashes s) = dom (ss_shares s)"
    and "ss_shareIDByTokenHash s key = Some sid \<longleftrightarrow>
      (\<exists>h. ss_shareTokenHashes s sid = Some h \<and> key = hex_EncodeToString h)"
  using assms by (simp_all add: share_inv_def)

lemma share_inv_init [simp]: "share_inv NewInMemoryShareStore"
  by (simp add: share_inv_def NewInMemoryShareStore_def)

text \<open>How a share may change: the deadline and the grant never, the two timestamps only once.\<close>

definition share_le :: "Share \<Rightarrow> Share \<Rightarrow> bool" where
  "share_le a b \<longleftrightarrow>
     b = a\<lparr>shr_ConsumedAt := shr_ConsumedAt b, shr_RevokedAt := shr_RevokedAt b\<rparr> \<and>
     (shr_RevokedAt a \<noteq> None \<longrightarrow> shr_RevokedAt b = shr_RevokedAt a) \<and>
     (shr_ConsumedAt a \<noteq> None \<longrightarrow> shr_SingleUse a \<longrightarrow> shr_ConsumedAt b = shr_ConsumedAt a)"

lemma share_le_refl [simp]: "share_le a a"
  by (simp add: share_le_def)

lemma share_le_sel:
  assumes "share_le a b"
  shows "shr_ID b = shr_ID a" "shr_ObjectType b = shr_ObjectType a" "shr_ObjectID b = shr_ObjectID a"
    "shr_Relation b = shr_Relation a" "shr_ExpiresAt b = shr_ExpiresAt a"
    "shr_SingleUse b = shr_SingleUse a" "shr_CreatedAt b = shr_CreatedAt a"
  using assms unfolding share_le_def by (cases a; cases b; simp)+

lemma share_le_trans: "share_le a b \<Longrightarrow> share_le b c \<Longrightarrow> share_le a c"
  unfolding share_le_def by (cases a; cases b; cases c) auto

lemma share_inv_update:
  assumes "share_inv s" and "ss_shares s k = Some sh" and "share_le sh sh'"
  shows "share_inv (s\<lparr>ss_shares := (ss_shares s)(k \<mapsto> sh')\<rparr>)"
proof -
  have "shr_ID sh' = k"
    using share_le_sel(1) [OF assms(3)] keyed_byD [OF share_invD(1) [OF assms(1)] assms(2)] by simp
  then show ?thesis
    using assms dom_upd_present [where m = "ss_shares s" and w = sh', OF assms(2)] by (auto simp: share_inv_def keyed_by_def)
qed

lemma index_lookup:
  assumes "share_inv s"
  shows "ss_shareIDByTokenHash s (hex_EncodeToString h) = Some sid \<longleftrightarrow>
    ss_shareTokenHashes s sid = Some h"
  using share_invD(5) [OF assms] by auto

lemma hash_has_share:
  "share_inv s \<Longrightarrow> ss_shareTokenHashes s sid = Some h \<Longrightarrow>
    \<exists>sh. ss_shares s sid = Some sh \<and> shr_ID sh = sid"
  using share_invD(1,4) [of s] by (metis domD domI keyed_byD)

text \<open>The share whose token has a given digest.\<close>

definition share_of :: "share_store \<Rightarrow> string \<Rightarrow> Share option" where
  "share_of s h = (case ss_shareIDByTokenHash s (hex_EncodeToString h) of None \<Rightarrow> None
     | Some sid \<Rightarrow> ss_shares s sid)"

lemma share_of_Some:
  "share_inv s \<Longrightarrow> share_of s h = Some sh \<longleftrightarrow>
    (\<exists>sid. ss_shareTokenHashes s sid = Some h \<and> ss_shares s sid = Some sh)"
  by (simp add: index_lookup [symmetric] share_of_def split: option.splits)

text \<open>With the invariant, verification is the decision list of the contract in \<open>store.go\<close>.\<close>

lemma VerifyShareToken_branches:
  assumes "share_inv s"
  shows "VerifyShareToken sha256 clk token s =
    (case share_of s (sha256 token) of
       None \<Rightarrow> (Inl ErrInvalidShareToken, s)
     | Some sh \<Rightarrow>
         if shr_RevokedAt sh \<noteq> None then (Inl ErrShareRevoked, s)
         else if shr_SingleUse sh \<and> shr_ConsumedAt sh \<noteq> None then (Inl ErrShareConsumed, s)
         else if shr_ExpiresAt sh \<le> clk 0 then (Inl ErrShareExpired, s)
         else (Inr \<lparr>vs_ShareID = shr_ID sh, vs_ObjectType = shr_ObjectType sh,
                    vs_ObjectID = shr_ObjectID sh, vs_Relation = shr_Relation sh\<rparr>,
               if shr_SingleUse sh
               then s\<lparr>ss_shares := (ss_shares s)(shr_ID sh \<mapsto> sh\<lparr>shr_ConsumedAt := Some (clk 1)\<rparr>)\<rparr>
               else s))"
proof (cases "ss_shareIDByTokenHash s (hex_EncodeToString (sha256 token))")
  case None
  then show ?thesis by (simp add: VerifyShareToken_def share_of_def)
next
  case (Some sid)
  then have h: "ss_shareTokenHashes s sid = Some (sha256 token)"
    using index_lookup [OF assms] by simp
  then obtain sh where "ss_shares s sid = Some sh" "shr_ID sh = sid"
    using hash_has_share [OF assms] by blast
  with Some h show ?thesis by (auto simp: VerifyShareToken_def share_of_def Let_def not_less)
qed

subsection \<open>Runs of the store\<close>

text \<open>
  A new share has a fresh identifier, and its random token has a digest that no other share of the
  store has.
\<close>

inductive share_step :: "(string \<Rightarrow> string) \<Rightarrow> share_store \<Rightarrow> share_store \<Rightarrow> bool" for sha256 where
  share_step_create: "fresh_for lib 0 ''shr'' (ss_shares s) \<Longrightarrow>
     (\<And>b. rand = Inr b \<Longrightarrow> share_of s (sha256 (RawURLEncoding_EncodeToString b)) = None) \<Longrightarrow>
     share_step sha256 s (snd (CreateShare sha256 lib rand clk i s))"
| share_step_verify: "share_step sha256 s (snd (VerifyShareToken sha256 clk token s))"
| share_step_revoke: "share_step sha256 s (snd (RevokeShare clk sid s))"

lemma CreateShare_cases:
  obtains (unchanged) e where "CreateShare sha256 lib rand clk i s = (Inl e, s)"
  | (created) b sid sh where "rand = Inr b" "Generate lib 0 ''shr'' = Inr sid"
      "0 < csi_ExpiresInSeconds i" "csi_ExpiresInSeconds i \<le> ShareMaxTTLSeconds"
      "rx_match RelationNamePattern (csi_Relation i)"
      "sh = \<lparr>shr_ID = sid, shr_ObjectType = csi_ObjectType i, shr_ObjectID = csi_ObjectID i,
        shr_Relation = csi_Relation i, shr_CreatedBy = csi_CreatedBy i,
        shr_ExpiresAt = clk 0 + csi_ExpiresInSeconds i * second_ns,
        shr_SingleUse = csi_SingleUse i, shr_ConsumedAt = None,
        shr_RevokedAt = None, shr_CreatedAt = clk 0\<rparr>"
      "CreateShare sha256 lib rand clk i s =
        (Inr \<lparr>csr_Share = sh, csr_Token = RawURLEncoding_EncodeToString b\<rparr>,
         s\<lparr>ss_shares := (ss_shares s)(sid \<mapsto> sh),
           ss_shareTokenHashes := (ss_shareTokenHashes s)(sid \<mapsto> sha256 (RawURLEncoding_EncodeToString b)),
           ss_shareIDByTokenHash := (ss_shareIDByTokenHash s)
             (hex_EncodeToString (sha256 (RawURLEncoding_EncodeToString b)) \<mapsto> sid)\<rparr>)"
proof (cases "\<exists>e. CreateShare sha256 lib rand clk i s = (Inl e, s)")
  case True
  then show ?thesis using unchanged by blast
next
  case False
  then have p: "rx_match RelationNamePattern (csi_Relation i)"
    "0 < csi_ExpiresInSeconds i" "csi_ExpiresInSeconds i \<le> ShareMaxTTLSeconds"
    by (auto simp: CreateShare_def split: if_splits)
  with False obtain sid where g: "Generate lib 0 ''shr'' = Inr sid"
    by (auto simp: CreateShare_def split: sum.splits)
  with False p obtain b where r: "rand = Inr b" by (auto simp: CreateShare_def split: sum.splits)
  have w: "wrap64 (csi_ExpiresInSeconds i * second_ns) = csi_ExpiresInSeconds i * second_ns"
    using p(2,3) by (intro wrap64_id) (simp_all add: second_ns_def max_int64_def ShareMaxTTLSeconds_def)
  show ?thesis
    by (rule created [OF r g p(2,3,1) refl]) (use p g r w in \<open>simp add: CreateShare_def Let_def\<close>)
qed

lemma share_inv_insert:
  assumes inv: "share_inv s" and "ss_shares s sid = None" and "sid \<noteq> ''''" and "shr_ID sh = sid"
    and new: "share_of s h = None"
  shows "share_inv (s\<lparr>ss_shares := (ss_shares s)(sid \<mapsto> sh),
      ss_shareTokenHashes := (ss_shareTokenHashes s)(sid \<mapsto> h),
      ss_shareIDByTokenHash := (ss_shareIDByTokenHash s)(hex_EncodeToString h \<mapsto> sid)\<rparr>)"
proof -
  have no: "ss_shareTokenHashes s sid = None" using share_invD(4) [OF inv] assms(2) by (metis domIff)
  have other: "ss_shareTokenHashes s k \<noteq> Some h" for k
    using new share_of_Some [OF inv, of h] hash_has_share [OF inv, of k h] by fastforce
  have "((ss_shareIDByTokenHash s)(hex_EncodeToString h \<mapsto> sid)) key = Some sid' \<longleftrightarrow>
      (\<exists>h'. ((ss_shareTokenHashes s)(sid \<mapsto> h)) sid' = Some h' \<and> key = hex_EncodeToString h')" for key sid'
  proof (cases "sid' = sid")
    case True
    then show ?thesis using share_invD(5) [OF inv, of key sid] no by simp
  next
    case False
    then show ?thesis using index_lookup [OF inv, of h sid'] other [of sid']
      share_invD(5) [OF inv, of key sid'] by (cases "key = hex_EncodeToString h") auto
  qed
  moreover have "keyed_by shr_ID ((ss_shares s)(sid \<mapsto> sh))"
    using share_invD(1) [OF inv] assms(4) by (rule keyed_by_upd)
  ultimately show ?thesis
    using share_invD(2-4) [OF inv] assms(3) by (simp add: share_inv_def)
qed

lemma share_inv_create:
  assumes "share_inv s" and "fresh_for lib 0 ''shr'' (ss_shares s)"
    and "\<And>b. rand = Inr b \<Longrightarrow> share_of s (sha256 (RawURLEncoding_EncodeToString b)) = None"
  shows "share_inv (snd (CreateShare sha256 lib rand clk i s))"
proof (cases rule: CreateShare_cases [of sha256 lib rand clk i s])
  case (created b sid sh)
  then show ?thesis
    using share_inv_insert [OF assms(1), of sid sh] assms(2,3) Generate_nonempty [OF created(2)]
    by (simp add: fresh_for_def)
qed (use assms in simp)

lemma VerifyShareToken_state:
  assumes "share_inv s"
  shows "snd (VerifyShareToken sha256 clk token s) = s \<or>
    (\<exists>sh t. ss_shares s (shr_ID sh) = Some sh \<and> shr_ConsumedAt sh = None \<and> shr_RevokedAt sh = None \<and>
      snd (VerifyShareToken sha256 clk token s) =
        s\<lparr>ss_shares := (ss_shares s)(shr_ID sh \<mapsto> sh\<lparr>shr_ConsumedAt := Some t\<rparr>)\<rparr>)"
proof -
  have "share_of s h = Some sh \<Longrightarrow> ss_shares s (shr_ID sh) = Some sh" for h sh
    using share_of_Some [OF assms] keyed_byD [OF share_invD(1) [OF assms]] by metis
  then show ?thesis
    unfolding VerifyShareToken_branches [OF assms] by (auto split: option.split)
qed

lemma share_le_consume: "shr_ConsumedAt sh = None \<Longrightarrow> share_le sh (sh\<lparr>shr_ConsumedAt := Some t\<rparr>)"
  and share_le_revoke: "shr_RevokedAt sh = None \<Longrightarrow> share_le sh (sh\<lparr>shr_RevokedAt := Some t\<rparr>)"
  by (simp_all add: share_le_def)

lemma share_step_inv:
  assumes "share_step sha256 s t" and "share_inv s"
  shows "share_inv t"
  using assms
proof (induction rule: share_step.induct)
  case (share_step_create lib s rand clk i)
  then show ?case by (intro share_inv_create)
next
  case (share_step_verify s clk token)
  then show ?case
    using VerifyShareToken_state [of s sha256 clk token] share_inv_update share_le_consume by metis
next
  case (share_step_revoke s clk sid)
  then show ?case
    by (auto simp: RevokeShare_def Let_def share_inv_update share_le_revoke split: option.split)
qed

lemma share_step_le:
  assumes "share_step sha256 s t" and "share_inv s" and "ss_shares s k = Some v"
  shows "\<exists>w. ss_shares t k = Some w \<and> share_le v w"
  using assms
proof (induction rule: share_step.induct)
  case (share_step_create lib s rand clk i)
  then show ?case
    by (cases rule: CreateShare_cases [of sha256 lib rand clk i s]) (auto simp: fresh_for_def)
next
  case (share_step_verify s clk token)
  then show ?case using VerifyShareToken_state [of s sha256 clk token]
    by (auto simp: share_le_consume)
next
  case (share_step_revoke s clk sid)
  then show ?case by (auto simp: RevokeShare_def Let_def share_le_revoke split: option.split)
qed

interpretation share_steps: entity_store "\<lambda>s. s = NewInMemoryShareStore" "share_step sha256" share_inv
  ss_shares share_le for sha256
  by unfold_locales (auto intro: share_step_inv share_le_trans dest: share_step_le)

lemma token_hash_stays:
  assumes "share_step sha256 s t" and "share_inv s" and "ss_shareTokenHashes s k = Some h"
  shows "ss_shareTokenHashes t k = Some h"
  using assms
proof (induction rule: share_step.induct)
  case (share_step_create lib s rand clk i)
  have "ss_shares s k \<noteq> None" using hash_has_share share_step_create(3,4) by fastforce
  then show ?case using share_step_create
    by (cases rule: CreateShare_cases [of sha256 lib rand clk i s]) (auto simp: fresh_for_def)
next
  case (share_step_verify s clk token)
  then show ?case using VerifyShareToken_state [of s sha256 clk token] by auto
qed (auto simp: RevokeShare_def Let_def split: option.split)

interpretation token_hashes: stable_system "\<lambda>s. s = NewInMemoryShareStore" "share_step sha256" share_inv
  "\<lambda>(k, h) s. ss_shareTokenHashes s k = Some h" for sha256
  by unfold_locales (auto dest: token_hash_stays)

text \<open>The share of a token along a run.\<close>

lemma share_of_run:
  assumes "share_inv s" and "(share_step sha256)\<^sup>*\<^sup>* s t" and "share_of s h = Some sh"
  shows "\<exists>sh'. share_of t h = Some sh' \<and> share_le sh sh'"
proof -
  obtain sid where sid: "ss_shareTokenHashes s sid = Some h" "ss_shares s sid = Some sh"
    using share_of_Some [OF assms(1)] assms(3) by blast
  have "ss_shareTokenHashes t sid = Some h"
    using token_hashes.stable_run [OF assms(2,1), of "(sid, h)"] sid(1) by simp
  moreover obtain sh' where "ss_shares t sid = Some sh'" "share_le sh sh'"
    using share_steps.entity_run [OF assms(2,1) sid(2)] by blast
  ultimately show ?thesis
    using share_of_Some [OF share_steps.inv_run [OF assms(2,1)]] by blast
qed

subsection \<open>Listings\<close>

interpretation share_order: key_order share_before "\<lambda>sh. (shr_CreatedAt sh, shr_ID sh)"
  by unfold_locales (auto simp: share_before_def less_prod_def')

lemma ListSharesForObject_page:
  assumes "visits ks (ss_shares s)" and "ListSharesForObject ks ot oid opts s = Some p"
  shows "sorted (map (\<lambda>sh. (shr_CreatedAt sh, shr_ID sh)) (Data p)) \<and>
    (\<forall>sh \<in> set (Data p). shr_ObjectType sh = ot \<and> shr_ObjectID sh = oid)"
  using paginate_segment(1,2) [OF assms(2) [unfolded ListSharesForObject_def Let_def]]
    share_order.go_sort_sorted by (fastforce simp del: set_go_range)

subsection \<open>Properties\<close>

text \<open>C26: the life of a share.  A successful \<open>CreateShare\<close> returns a share that expires the requested
  number of seconds, at most 365 days, after its creation.  In every later state of the store the
  share is still there, changed at most by its consumption and its revocation, and verifying its
  token answers, in this order, revoked, consumed (single use), expired, or the grant that was
  asked for at creation.\<close>

theorem share_token_life:
  assumes "(share_step sha256)\<^sup>*\<^sup>* NewInMemoryShareStore s"
    and "fresh_for lib 0 ''shr'' (ss_shares s)"
    and "\<And>b. rand = Inr b \<Longrightarrow> share_of s (sha256 (RawURLEncoding_EncodeToString b)) = None"
    and "CreateShare sha256 lib rand clk i s = (Inr r, s')"
    and "(share_step sha256)\<^sup>*\<^sup>* s' t"
  shows "shr_ExpiresAt (csr_Share r) = clk 0 + csi_ExpiresInSeconds i * second_ns \<and>
    shr_ExpiresAt (csr_Share r) \<le> clk 0 + ShareMaxTTLSeconds * second_ns \<and>
    (\<exists>sh. GetShare (shr_ID (csr_Share r)) t = Inr sh \<and> share_le (csr_Share r) sh \<and>
      fst (VerifyShareToken sha256 clk' (csr_Token r) t) =
        (if shr_RevokedAt sh \<noteq> None then Inl ErrShareRevoked
         else if csi_SingleUse i \<and> shr_ConsumedAt sh \<noteq> None then Inl ErrShareConsumed
         else if shr_ExpiresAt (csr_Share r) \<le> clk' 0 then Inl ErrShareExpired
         else Inr \<lparr>vs_ShareID = shr_ID (csr_Share r), vs_ObjectType = csi_ObjectType i,
                   vs_ObjectID = csi_ObjectID i, vs_Relation = csi_Relation i\<rparr>))"
proof (cases rule: CreateShare_cases [of sha256 lib rand clk i s])
  case (created b sid sh)
  let ?h = "sha256 (RawURLEncoding_EncodeToString b)"
  have r: "r = \<lparr>csr_Share = sh, csr_Token = RawURLEncoding_EncodeToString b\<rparr>"
    and s': "s' = s\<lparr>ss_shares := (ss_shares s)(sid \<mapsto> sh),
      ss_shareTokenHashes := (ss_shareTokenHashes s)(sid \<mapsto> ?h),
      ss_shareIDByTokenHash := (ss_shareIDByTokenHash s)(hex_EncodeToString ?h \<mapsto> sid)\<rparr>"
    using created(7) assms(4) by auto
  have inv: "share_inv s" using share_steps.inv_reachable [OF refl assms(1)] .
  have inv': "share_inv s'"
    using share_step_inv [OF share_step_create inv, of lib rand sha256 clk i] assms(2-4) by simp
  have "share_of s' ?h = Some sh" by (simp add: s' share_of_def)
  then obtain sh' where sh': "share_of t ?h = Some sh'" "share_le sh sh'"
    using share_of_run [OF inv' assms(5)] by blast
  have invt: "share_inv t" using share_steps.inv_run [OF assms(5) inv'] .
  have "ss_shares t (shr_ID sh') = Some sh'"
    using share_of_Some [OF invt] sh'(1) keyed_byD [OF share_invD(1) [OF invt]] by metis
  then have "GetShare (shr_ID sh) t = Inr sh'" using share_le_sel(1) [OF sh'(2)] by (simp add: GetShare_def)
  moreover have "csi_ExpiresInSeconds i * second_ns \<le> ShareMaxTTLSeconds * second_ns"
    using created(4) by (simp add: second_ns_def)
  ultimately show ?thesis
    using sh' share_le_sel [OF sh'(2)] created(6)
    by (auto simp: r VerifyShareToken_branches [OF invt] simp del: share_le_def)
qed (use assms(4) in simp)

definition demo_share_lib :: uuid_lib where
  "demo_share_lib = demo_lib ''0190f2a8-1b3c-7abc-8123-456789abcdef''"

definition demo_share_input :: CreateShareInput where
  "demo_share_input = \<lparr>csi_ObjectType = ''doc'', csi_ObjectID = ''d1'', csi_Relation = ''viewer'',
     csi_CreatedBy = ''ann'', csi_ExpiresInSeconds = 60, csi_SingleUse = True\<rparr>"

definition demo_shares :: share_store where
  "demo_shares = snd (CreateShare (\<lambda>x. x) demo_share_lib (Inr ''abc'') (\<lambda>_. 7) demo_share_input
     NewInMemoryShareStore)"

definition demo_share :: Share where
  "demo_share = \<lparr>shr_ID = ''shr_0190f2a81b3c7abc8123456789abcdef'', shr_ObjectType = ''doc'',
     shr_ObjectID = ''d1'', shr_Relation = ''viewer'', shr_CreatedBy = ''ann'',
     shr_ExpiresAt = 60000000007, shr_SingleUse = True, shr_ConsumedAt = None,
     shr_RevokedAt = None, shr_CreatedAt = 7\<rparr>"

lemma demo_share_new:
  "CreateShare (\<lambda>x. x) demo_share_lib (Inr ''abc'') (\<lambda>_. 7) demo_share_input NewInMemoryShareStore
     = (Inr \<lparr>csr_Share = demo_share, csr_Token = ''YWJj''\<rparr>, demo_shares)"
  by (subst surjective_pairing, unfold demo_shares_def, simp only: prod.inject simp_thms, code_simp)

lemma demo_share_fresh:
  "fresh_for demo_share_lib 0 ''shr'' (ss_shares NewInMemoryShareStore)"
  "share_of NewInMemoryShareStore h = None"
  by (simp_all add: fresh_for_def NewInMemoryShareStore_def share_of_def)

lemma demo_share_run: "(share_step (\<lambda>x. x))\<^sup>*\<^sup>* NewInMemoryShareStore demo_shares"
  unfolding demo_shares_def
  by (intro r_into_rtranclp share_step_create) (simp_all add: demo_share_fresh)

theorem share_token_life_witness:
  "fst (VerifyShareToken (\<lambda>x. x) (\<lambda>_. 8) ''YWJj'' demo_shares)
     = Inr \<lparr>vs_ShareID = ''shr_0190f2a81b3c7abc8123456789abcdef'', vs_ObjectType = ''doc'',
            vs_ObjectID = ''d1'', vs_Relation = ''viewer''\<rparr>"
proof -
  note life = share_token_life [OF rtranclp.rtrancl_refl demo_share_fresh(1) demo_share_fresh(2)
      demo_share_new rtranclp.rtrancl_refl]
  have "ss_shares demo_shares (shr_ID demo_share) = Some demo_share"
    unfolding demo_shares_def demo_share_def by code_simp
  then show ?thesis using life [of "\<lambda>_. 8"] by (auto simp: GetShare_def demo_share_def demo_share_input_def)
qed

text \<open>C21: a single-use share is redeemed at most once.  After one successful verification of its
  token, every later verification in every later state fails, as consumed or as revoked.\<close>

theorem single_use_once:
  assumes "(share_step sha256)\<^sup>*\<^sup>* NewInMemoryShareStore s"
    and "VerifyShareToken sha256 clk token s = (Inr v, s')"
    and "GetShare (vs_ShareID v) s = Inr sh" and "shr_SingleUse sh"
    and "(share_step sha256)\<^sup>*\<^sup>* s' t"
  shows "fst (VerifyShareToken sha256 clk' token t) \<in> {Inl ErrShareConsumed, Inl ErrShareRevoked}"
proof -
  have inv: "share_inv s" using share_steps.inv_reachable [OF refl assms(1)] .
  obtain sh0 where sh0: "share_of s (sha256 token) = Some sh0" "vs_ShareID v = shr_ID sh0"
    "shr_RevokedAt sh0 = None"
    "s' = (if shr_SingleUse sh0
       then s\<lparr>ss_shares := (ss_shares s)(shr_ID sh0 \<mapsto> sh0\<lparr>shr_ConsumedAt := Some (clk 1)\<rparr>)\<rparr> else s)"
    using assms(2) VerifyShareToken_branches [OF inv] by (auto split: option.splits if_splits)
  obtain sid where sid: "ss_shareTokenHashes s sid = Some (sha256 token)" "ss_shares s sid = Some sh0"
    using share_of_Some [OF inv] sh0(1) by blast
  have id0: "shr_ID sh0 = sid" using keyed_byD [OF share_invD(1) [OF inv] sid(2)] .
  then have "sh = sh0" using assms(3) sh0(2) sid by (simp add: GetShare_def)
  have inv': "share_inv s'"
    using share_step_inv [OF share_step_verify inv, of sha256 clk token] assms(2) by simp
  have "share_of s' (sha256 token) = Some (sh0\<lparr>shr_ConsumedAt := Some (clk 1)\<rparr>)"
    unfolding share_of_Some [OF inv'] using sid id0 sh0(4) assms(4) \<open>sh = sh0\<close> by auto
  then obtain sh' where sh': "share_of t (sha256 token) = Some sh'"
    "share_le (sh0\<lparr>shr_ConsumedAt := Some (clk 1)\<rparr>) sh'"
    using share_of_run [OF inv' assms(5)] by blast
  have "shr_SingleUse sh'" "shr_ConsumedAt sh' \<noteq> None"
    using sh'(2) assms(4) \<open>sh = sh0\<close> share_le_sel(6) [OF sh'(2)] by (simp_all add: share_le_def)
  then show ?thesis
    using VerifyShareToken_branches [OF share_steps.inv_run [OF assms(5) inv']] sh'(1) by simp
qed

theorem single_use_once_witness:
  "fst (VerifyShareToken (\<lambda>x. x) (\<lambda>_. 9) ''YWJj''
      (snd (VerifyShareToken (\<lambda>x. x) (\<lambda>_. 8) ''YWJj'' demo_shares)))
    \<in> {Inl ErrShareConsumed, Inl ErrShareRevoked}"
proof -
  let ?v = "\<lparr>vs_ShareID = ''shr_0190f2a81b3c7abc8123456789abcdef'', vs_ObjectType = ''doc'',
            vs_ObjectID = ''d1'', vs_Relation = ''viewer''\<rparr>"
  have v: "VerifyShareToken (\<lambda>x. x) (\<lambda>_. 8) ''YWJj'' demo_shares
      = (Inr ?v, snd (VerifyShareToken (\<lambda>x. x) (\<lambda>_. 8) ''YWJj'' demo_shares))"
    by (rule prod_eqI) (simp, unfold demo_shares_def, code_simp, simp)
  have g: "GetShare (vs_ShareID ?v) demo_shares = Inr demo_share"
    unfolding demo_shares_def demo_share_def by code_simp
  show ?thesis
    by (rule single_use_once [OF demo_share_run v g _ rtranclp.rtrancl_refl]) (simp add: demo_share_def)
qed

end
