(* ===== verification/GoBytes.thy ===== *)
theory GoBytes
  imports GoPrelude "HOL-Library.Word" "HOL-Library.Signed_Division"
begin

unbundle bit_operations_syntax

text \<open>
  \<open>encoding/binary\<close>: big-endian integers in byte strings, and the division of signed integers, which
  truncates towards zero in Go.
\<close>

definition BigEndian_Uint32 :: "string \<Rightarrow> 32 word" where
  "BigEndian_Uint32 b =
     (let w = (\<lambda>i. word_of_nat (of_char (b ! i)) :: 32 word)
      in w 3 OR push_bit 8 (w 2) OR push_bit 16 (w 1) OR push_bit 24 (w 0))"

definition be_nat :: "string \<Rightarrow> nat" where
  "be_nat s = foldl (\<lambda>n c. n * 256 + of_char c) 0 s"

fun be_bytes :: "nat \<Rightarrow> nat \<Rightarrow> string" where
  "be_bytes 0 n = []"
| "be_bytes (Suc k) n = be_bytes k (n div 256) @ [char_of (n mod 256)]"

definition BigEndian_PutUint64 :: "nat \<Rightarrow> string" where
  "BigEndian_PutUint64 n = be_bytes 8 n"

definition go_div64 :: "int \<Rightarrow> int \<Rightarrow> int" where
  "go_div64 x y = wrap64 (x sdiv y)"

lemma length_be_bytes [simp]: "length (be_bytes k n) = k"
  by (induction k arbitrary: n) auto

lemma be_nat_bytes: "be_nat (be_bytes k n) = n mod 256 ^ k"
proof (induction k arbitrary: n)
  case (Suc k)
  have "be_nat (be_bytes (Suc k) n) = (n div 256 mod 256 ^ k) * 256 + n mod 256"
    using Suc by (simp add: be_nat_def of_char_of)
  also have "\<dots> = n mod 256 ^ Suc k"
    by (simp add: mod_mult2_eq mult.commute)
  finally show ?case .
qed (simp add: be_nat_def)

lemma of_char_byte: "(of_char c :: nat) < 256"
  by (metis nat_of_char_less_256)

lemma be_nat_bound: "be_nat s < 256 ^ length s"
proof (induction s rule: rev_induct)
  case (snoc c s)
  have "be_nat (s @ [c]) = be_nat s * 256 + of_char c" by (simp add: be_nat_def)
  also have "\<dots> < (be_nat s + 1) * 256" using of_char_byte [of c] by simp
  also have "\<dots> \<le> 256 ^ length s * 256" using snoc by (intro mult_right_mono) auto
  finally show ?case by (simp add: mult.commute)
qed (simp add: be_nat_def)

lemma go_div64_nonneg:
  assumes "0 \<le> x" and "0 < y" and "x \<le> max_int64"
  shows "go_div64 x y = x div y"
proof -
  have "x sdiv y = x div y" using assms by (cases "x = 0") (simp_all add: signed_divide_int_def)
  moreover have "x div y \<le> x"
    using assms zdiv_mono2 [of x 1 y] by simp
  moreover have "0 \<le> x div y" using assms by (simp add: pos_imp_zdiv_nonneg_iff)
  ultimately show ?thesis using assms unfolding go_div64_def by (intro trans [OF wrap64_id]) (auto simp: max_int64_def)
qed

end
