(* ===== verification/Flags.thy ===== *)
theory Flags
  imports Ids Paging GoBytes
begin

unbundle bit_operations_syntax

text \<open>
  \<open>packages/flags\<close>: feature flags.  The model follows \<open>bucket.go\<close>, \<open>types.go\<close>, \<open>store.go\<close>,
  \<open>errors.go\<close> and \<open>InMemoryFlagsStore\<close> of \<open>inmem.go\<close>.  \<open>crypto/sha256\<close> is the argument
  \<open>sha256\<close>, the caller's authorization predicate the argument \<open>check\<close> (\<open>None\<close> is the nil
  function).  \<open>None\<close> as the result of \<open>GetFlagByKey\<close> and \<open>Evaluate\<close> is the panic of a nil
  pointer.  The identifiers of a listing are distinct, so \<open>sort.Slice\<close> by identifier has one result.
\<close>

datatype flag_error =
    FlagNotFound
  | FlagInvalidFormat string string
  | FlagPrecondition string
  | FlagGenerate id_error

fun flag_IsInvalidFormat :: "flag_error \<Rightarrow> bool" where
  "flag_IsInvalidFormat (FlagInvalidFormat _ _) = True"
| "flag_IsInvalidFormat _ = False"

fun flag_IsPrecondition :: "flag_error \<Rightarrow> bool" where
  "flag_IsPrecondition (FlagPrecondition _) = True"
| "flag_IsPrecondition _ = False"

definition RuleKindAuthz :: string where "RuleKindAuthz = ''authz''"
definition RuleKindPercentage :: string where "RuleKindPercentage = ''percentage''"

record RuleObject =
  ro_Type :: string
  ro_ID :: string

record FlagRule =
  rul_Kind :: string
  rul_Relation :: string
  rul_Object :: "RuleObject option"
  rul_BasisPoints :: int
  rul_Variant :: bool

record Flag =
  flg_ID :: string
  flg_Scope :: string
  flg_Key :: string
  flg_Enabled :: bool
  flg_DefaultVariant :: bool
  flg_Rules :: "FlagRule list"
  flg_CreatedAt :: gotime
  flg_UpdatedAt :: gotime

record CreateFlagInput =
  cfi_Scope :: string
  cfi_Key :: string
  cfi_Enabled :: bool
  cfi_DefaultVariant :: bool
  cfi_Rules :: "FlagRule list"

record UpdateFlagInput =
  ufi_ID :: string
  ufi_Enabled :: "bool option"
  ufi_DefaultVariant :: "bool option"
  ufi_Rules :: "FlagRule list"
  ufi_UpdateRules :: bool

record ListFlagsOptions =
  lf_Scope :: string
  lf_Cursor :: "string option"
  lf_Limit :: int

type_synonym CheckFn = "string \<Rightarrow> string \<Rightarrow> string \<Rightarrow> string \<Rightarrow> bool"

subsection \<open>Buckets\<close>

definition AssignBucket :: "(string \<Rightarrow> string) \<Rightarrow> string \<Rightarrow> string \<Rightarrow> 32 word" where
  "AssignBucket sha256 key subjectID =
     (let digest = sha256 (key @ [CHR 0x00] @ subjectID);
          n = BigEndian_Uint32 (take 4 digest)
      in n mod 10000)"

subsection \<open>Validation\<close>

definition keyRe :: rx where
  "keyRe = Rng (az @ digits09 @ single (CHR ''.'') @ single (CHR ''_'') @ single (CHR ''-'')) 1 (Some 128)"

definition relationRe :: rx where
  "relationRe = Rng (az @ single (CHR ''_'')) 2 (Some 32)"

fun validateRules :: "FlagRule list \<Rightarrow> flag_error option" where
  "validateRules [] = None"
| "validateRules (r # rules) =
     (if rul_Kind r = RuleKindAuthz then
        if \<not> rx_match relationRe (rul_Relation r)
        then Some (FlagInvalidFormat ''rules[*].relation'' ''must match ^[a-z_]{2,32}$'')
        else if (case rul_Object r of None \<Rightarrow> True | Some ob \<Rightarrow> ro_Type ob = '''')
        then Some (FlagInvalidFormat ''rules[*].object.type'' ''must be non-empty for authz rules'')
        else if (case rul_Object r of None \<Rightarrow> True | Some ob \<Rightarrow> ro_ID ob = '''')
        then Some (FlagInvalidFormat ''rules[*].object.id'' ''must be non-empty for authz rules'')
        else validateRules rules
      else if rul_Kind r = RuleKindPercentage then
        if rul_BasisPoints r < 0 \<or> rul_BasisPoints r > 10000
        then Some (FlagInvalidFormat ''rules[*].basis_points'' ''must be in [0, 10000]'')
        else validateRules rules
      else Some (FlagInvalidFormat ''rules[*].kind'' ''must be \"authz\" or \"percentage\"''))"

subsection \<open>The store\<close>

record flags_store =
  fs_flags :: "string \<rightharpoonup> Flag"
  fs_byKey :: "string \<rightharpoonup> string"

definition NewInMemoryFlagsStore :: flags_store where
  "NewInMemoryFlagsStore = \<lparr>fs_flags = Map.empty, fs_byKey = Map.empty\<rparr>"

definition scopeKey :: "string \<Rightarrow> string \<Rightarrow> string" where
  "scopeKey scope key = scope @ ''#'' @ key"

definition CreateFlag ::
  "uuid_lib \<Rightarrow> clock \<Rightarrow> CreateFlagInput \<Rightarrow> flags_store \<Rightarrow> (flag_error + Flag) \<times> flags_store" where
  "CreateFlag lib clk i s =
     (if \<not> IsValid (cfi_Scope i) [''org'']
      then (Inl (FlagInvalidFormat ''scope'' ''must be a valid org_ id''), s)
      else if \<not> rx_match keyRe (cfi_Key i)
      then (Inl (FlagInvalidFormat ''key'' ''must match ^[a-z0-9._-]{1,128}$''), s)
      else case validateRules (cfi_Rules i) of
        Some err \<Rightarrow> (Inl err, s)
      | None \<Rightarrow>
          (case fs_byKey s (scopeKey (cfi_Scope i) (cfi_Key i)) of
             Some _ \<Rightarrow> (Inl (FlagPrecondition ''flag key already exists in scope''), s)
           | None \<Rightarrow>
               (case Generate lib 0 ''flag'' of
                  Inl err \<Rightarrow> (Inl (FlagGenerate err), s)
                | Inr fid \<Rightarrow>
                    let now = clk 0;
                        f = \<lparr>flg_ID = fid, flg_Scope = cfi_Scope i, flg_Key = cfi_Key i,
                             flg_Enabled = cfi_Enabled i, flg_DefaultVariant = cfi_DefaultVariant i,
                             flg_Rules = cfi_Rules i, flg_CreatedAt = now, flg_UpdatedAt = now\<rparr>
                    in (Inr f, s\<lparr>fs_flags := (fs_flags s)(fid \<mapsto> f),
                                 fs_byKey := (fs_byKey s)(scopeKey (cfi_Scope i) (cfi_Key i) \<mapsto> fid)\<rparr>))))"

definition GetFlag :: "string \<Rightarrow> flags_store \<Rightarrow> flag_error + Flag" where
  "GetFlag fid s = (case fs_flags s fid of None \<Rightarrow> Inl FlagNotFound | Some f \<Rightarrow> Inr f)"

definition GetFlagByKey :: "string \<Rightarrow> string \<Rightarrow> flags_store \<Rightarrow> (flag_error + Flag) option" where
  "GetFlagByKey scope key s =
     (case fs_byKey s (scopeKey scope key) of
        None \<Rightarrow> Some (Inl FlagNotFound)
      | Some fid \<Rightarrow> map_option Inr (fs_flags s fid))"

definition ListFlags :: "string list \<Rightarrow> ListFlagsOptions \<Rightarrow> flags_store \<Rightarrow> Flag page" where
  "ListFlags ks opts s =
     (let limit = page_limit (lf_Limit opts);
          matching = sort_key flg_ID
            (filter (\<lambda>f. flg_Scope f = lf_Scope opts) (go_range (fs_flags s) ks))
      in paginate_tail flg_ID (lf_Cursor opts) limit matching)"

text \<open>\<open>UpdateFlag\<close> writes through the pointer of the map before it validates the rules.\<close>

definition UpdateFlag ::
  "clock \<Rightarrow> UpdateFlagInput \<Rightarrow> flags_store \<Rightarrow> (flag_error + Flag) \<times> flags_store" where
  "UpdateFlag clk i s =
     (case fs_flags s (ufi_ID i) of
        None \<Rightarrow> (Inl FlagNotFound, s)
      | Some f \<Rightarrow>
          let f1 = (case ufi_Enabled i of None \<Rightarrow> f | Some b \<Rightarrow> f\<lparr>flg_Enabled := b\<rparr>);
              f2 = (case ufi_DefaultVariant i of None \<Rightarrow> f1 | Some b \<Rightarrow> f1\<lparr>flg_DefaultVariant := b\<rparr>);
              put = (\<lambda>g. s\<lparr>fs_flags := (fs_flags s)(ufi_ID i \<mapsto> g)\<rparr>)
          in if ufi_UpdateRules i
             then (case validateRules (ufi_Rules i) of
                     Some err \<Rightarrow> (Inl err, put f2)
                   | None \<Rightarrow>
                       let f3 = f2\<lparr>flg_Rules := ufi_Rules i, flg_UpdatedAt := clk 0\<rparr>
                       in (Inr f3, put f3))
             else let f3 = f2\<lparr>flg_UpdatedAt := clk 0\<rparr> in (Inr f3, put f3))"

definition DeleteFlag :: "string \<Rightarrow> flags_store \<Rightarrow> (flag_error + unit) \<times> flags_store" where
  "DeleteFlag fid s =
     (case fs_flags s fid of
        None \<Rightarrow> (Inl FlagNotFound, s)
      | Some f \<Rightarrow>
          (Inr (), s\<lparr>fs_byKey := (fs_byKey s)(scopeKey (flg_Scope f) (flg_Key f) := None),
                     fs_flags := (fs_flags s)(fid := None)\<rparr>))"

text \<open>The loop over the rules: \<open>None\<close> is a panic, \<open>Some None\<close> no match.\<close>

fun eval_rules ::
  "(string \<Rightarrow> string) \<Rightarrow> string \<Rightarrow> string \<Rightarrow> CheckFn option \<Rightarrow> FlagRule list \<Rightarrow> bool option option" where
  "eval_rules sha256 key subjectID check [] = Some None"
| "eval_rules sha256 key subjectID check (r # rules) =
     (if rul_Kind r = RuleKindAuthz then
        (case check of
           None \<Rightarrow> eval_rules sha256 key subjectID check rules
         | Some chk \<Rightarrow>
             (case rul_Object r of
                None \<Rightarrow> None
              | Some ob \<Rightarrow>
                  if chk subjectID (rul_Relation r) (ro_Type ob) (ro_ID ob)
                  then Some (Some (rul_Variant r))
                  else eval_rules sha256 key subjectID check rules))
      else if rul_Kind r = RuleKindPercentage then
        if AssignBucket sha256 key subjectID < word_of_int (rul_BasisPoints r)
        then Some (Some (rul_Variant r))
        else eval_rules sha256 key subjectID check rules
      else eval_rules sha256 key subjectID check rules)"

definition EvaluateFlag ::
  "(string \<Rightarrow> string) \<Rightarrow> string \<Rightarrow> string \<Rightarrow> string \<Rightarrow> CheckFn option \<Rightarrow> flags_store \<Rightarrow> bool option" where
  "EvaluateFlag sha256 scope key subjectID check s =
     (case fs_byKey s (scopeKey scope key) of
        None \<Rightarrow> Some False
      | Some fid \<Rightarrow>
          (case fs_flags s fid of
             None \<Rightarrow> None
           | Some f \<Rightarrow>
               if \<not> flg_Enabled f then Some (flg_DefaultVariant f)
               else (case eval_rules sha256 (flg_Key f) subjectID check (flg_Rules f) of
                       None \<Rightarrow> None
                     | Some None \<Rightarrow> Some (flg_DefaultVariant f)
                     | Some (Some v) \<Rightarrow> Some v)))"

subsection \<open>The invariant\<close>

definition flag_key :: "Flag \<Rightarrow> string option" where
  "flag_key f = Some (scopeKey (flg_Scope f) (flg_Key f))"

definition flag_ok :: "Flag \<Rightarrow> bool" where
  "flag_ok f \<longleftrightarrow> IsValid (flg_Scope f) [''org''] \<and> rx_match keyRe (flg_Key f) \<and>
     validateRules (flg_Rules f) = None"

definition flag_inv :: "flags_store \<Rightarrow> bool" where
  "flag_inv s \<longleftrightarrow> keyed_by flg_ID (fs_flags s) \<and> finite (dom (fs_flags s)) \<and> fs_flags s '''' = None \<and>
     index_of flag_key (fs_flags s) (fs_byKey s) \<and> (\<forall>fid f. fs_flags s fid = Some f \<longrightarrow> flag_ok f)"

lemma flag_invD:
  assumes "flag_inv s"
  shows "keyed_by flg_ID (fs_flags s)" "finite (dom (fs_flags s))" "fs_flags s '''' = None"
    and "index_of flag_key (fs_flags s) (fs_byKey s)" and "fs_flags s fid = Some f \<Longrightarrow> flag_ok f"
  using assms by (auto simp: flag_inv_def)

lemma flag_inv_init [simp]: "flag_inv NewInMemoryFlagsStore"
  by (simp add: flag_inv_def NewInMemoryFlagsStore_def)

lemma flag_inv_create:
  assumes inv: "flag_inv s" and fresh: "fresh_for lib 0 ''flag'' (fs_flags s)"
  shows "flag_inv (snd (CreateFlag lib clk i s))"
proof (cases "\<exists>f. fst (CreateFlag lib clk i s) = Inr f")
  case False
  then have "snd (CreateFlag lib clk i s) = s"
    by (auto simp: CreateFlag_def Let_def split: option.splits sum.splits)
  with inv show ?thesis by simp
next
  case True
  then obtain fid where g: "Generate lib 0 ''flag'' = Inr fid" "IsValid (cfi_Scope i) [''org'']"
    "rx_match keyRe (cfi_Key i)" "validateRules (cfi_Rules i) = None"
    "fs_byKey s (scopeKey (cfi_Scope i) (cfi_Key i)) = None"
    by (auto simp: CreateFlag_def Let_def split: option.splits sum.splits if_splits)
  let ?f = "\<lparr>flg_ID = fid, flg_Scope = cfi_Scope i, flg_Key = cfi_Key i,
     flg_Enabled = cfi_Enabled i, flg_DefaultVariant = cfi_DefaultVariant i,
     flg_Rules = cfi_Rules i, flg_CreatedAt = clk 0, flg_UpdatedAt = clk 0\<rparr>"
  have st: "snd (CreateFlag lib clk i s) = s\<lparr>fs_flags := (fs_flags s)(fid \<mapsto> ?f),
      fs_byKey := (fs_byKey s)(scopeKey (cfi_Scope i) (cfi_Key i) \<mapsto> fid)\<rparr>"
    using g by (simp add: CreateFlag_def Let_def)
  have new: "fs_flags s fid = None" "fid \<noteq> ''''"
    using fresh g(1) Generate_nonempty by (auto simp: fresh_for_def)
  have "index_of flag_key ((fs_flags s)(fid \<mapsto> ?f))
      ((fs_byKey s)(scopeKey (cfi_Scope i) (cfi_Key i) \<mapsto> fid))"
    by (rule index_of_insert [OF flag_invD(4) [OF inv] new(1) _ g(5)]) (simp add: flag_key_def)
  moreover have "flag_ok ?f" using g by (simp add: flag_ok_def)
  ultimately show ?thesis
    unfolding st using flag_invD(1-3,5) [OF inv] new by (auto simp: flag_inv_def keyed_by_def)
qed

lemma flag_inv_put:
  assumes "flag_inv s" and "fs_flags s fid = Some f" and "flg_ID g = flg_ID f"
    and "flg_Scope g = flg_Scope f" and "flg_Key g = flg_Key f" and "validateRules (flg_Rules g) = None"
  shows "flag_inv (s\<lparr>fs_flags := (fs_flags s)(fid \<mapsto> g)\<rparr>)"
proof -
  have "index_of flag_key ((fs_flags s)(fid \<mapsto> g)) (fs_byKey s)"
    by (rule index_of_update [OF flag_invD(4) [OF assms(1)] assms(2)])
      (use assms(4,5) in \<open>simp add: flag_key_def\<close>)
  moreover have "flag_ok g" using flag_invD(5) [OF assms(1,2)] assms(4-6) by (simp add: flag_ok_def)
  moreover have "flg_ID g = fid" using keyed_byD [OF flag_invD(1) [OF assms(1)] assms(2)] assms(3) by simp
  moreover have "fid \<noteq> ''''" using assms(2) flag_invD(3) [OF assms(1)] by auto
  ultimately show ?thesis
    using flag_invD(1-3,5) [OF assms(1)] by (auto simp: flag_inv_def keyed_by_def)
qed

lemma flag_inv_update:
  assumes "flag_inv s"
  shows "flag_inv (snd (UpdateFlag clk i s))"
proof (cases "fs_flags s (ufi_ID i)")
  case None
  with assms show ?thesis by (simp add: UpdateFlag_def)
next
  case (Some f)
  note ok = flag_invD(5) [OF assms Some]
  show ?thesis
    using ok by (auto simp: UpdateFlag_def Let_def Some flag_ok_def
        intro!: flag_inv_put [OF assms Some] split: option.split)
qed

lemma flag_inv_delete:
  assumes "flag_inv s"
  shows "flag_inv (snd (DeleteFlag fid s))"
proof (cases "fs_flags s fid")
  case None
  with assms show ?thesis by (simp add: DeleteFlag_def)
next
  case (Some f)
  have "index_of flag_key ((fs_flags s)(fid := None))
      ((fs_byKey s)(scopeKey (flg_Scope f) (flg_Key f) := None))"
    by (rule index_of_delete [OF flag_invD(4) [OF assms] Some]) (simp add: flag_key_def)
  then show ?thesis
    using flag_invD(1-3,5) [OF assms] Some
    by (auto simp: flag_inv_def DeleteFlag_def keyed_by_def)
qed

inductive flag_step :: "flags_store \<Rightarrow> flags_store \<Rightarrow> bool" where
  flag_step_create: "fresh_for lib 0 ''flag'' (fs_flags s) \<Longrightarrow> flag_step s (snd (CreateFlag lib clk i s))"
| flag_step_update: "flag_step s (snd (UpdateFlag clk i s))"
| flag_step_delete: "flag_step s (snd (DeleteFlag fid s))"

lemma flag_step_inv: "flag_step s t \<Longrightarrow> flag_inv s \<Longrightarrow> flag_inv t"
  by (induction rule: flag_step.induct) (simp_all add: flag_inv_create flag_inv_update flag_inv_delete)

interpretation flag_steps: op_system "\<lambda>s. s = NewInMemoryFlagsStore" flag_step flag_inv
  by unfold_locales (auto intro: flag_step_inv)

subsection \<open>Finding a flag by scope and key\<close>

lemma one_separator:
  assumes "x \<notin> set us" and "x \<notin> set vs"
  shows "as @ x # bs = us @ x # vs \<longleftrightarrow> as = us \<and> bs = vs"
proof
  assume eq: "as @ x # bs = us @ x # vs"
  then have "count_list as x + count_list bs x = count_list us x + count_list vs x"
    by (metis add.commute add_left_cancel count_list.simps(2) count_list_append plus_1_eq_Suc add_Suc_right Suc_inject)
  then have "x \<notin> set as" using assms by (simp add: count_list_0_iff)
  with eq assms(1) show "as = us \<and> bs = vs" by (simp add: first_separator)
qed simp

lemma keyRe_no_hash: "rx_match keyRe k \<Longrightarrow> CHR ''#'' \<notin> set k"
proof -
  have "\<not> in_class (az @ digits09 @ single (CHR ''.'') @ single (CHR ''_'') @ single (CHR ''-'')) (CHR ''#'')"
    by (simp add: class_defs)
  from list_all_class_not [OF _ this] show "rx_match keyRe k \<Longrightarrow> CHR ''#'' \<notin> set k"
    by (simp add: keyRe_def del: in_class_append)
qed

lemma flag_scope_no_hash: "IsValid sc [''org''] \<Longrightarrow> CHR ''#'' \<notin> set sc"
  using IsValid_no_char [of sc "''org''" "CHR ''#''"] by (simp add: class_defs)

definition flag_named :: "flags_store \<Rightarrow> string \<Rightarrow> string \<Rightarrow> Flag \<Rightarrow> bool" where
  "flag_named s scope key f \<longleftrightarrow>
     (\<exists>fid. fs_flags s fid = Some f) \<and> flg_Scope f = scope \<and> flg_Key f = key"

lemma byKey_named:
  assumes "flag_inv s"
  shows "(\<exists>fid. fs_byKey s (scopeKey scope key) = Some fid \<and> fs_flags s fid = Some f)
    \<longleftrightarrow> flag_named s scope key f"
proof -
  have "scopeKey scope key = scopeKey (flg_Scope f) (flg_Key f) \<longleftrightarrow> scope = flg_Scope f \<and> key = flg_Key f"
    if "fs_flags s fid = Some f" for fid
    using flag_invD(5) [OF assms that] keyRe_no_hash flag_scope_no_hash
      one_separator [of "CHR ''#''" "flg_Scope f" "flg_Key f" scope key]
    by (simp add: flag_ok_def scopeKey_def)
  then show ?thesis
    unfolding index_ofD [OF flag_invD(4) [OF assms]] flag_named_def flag_key_def by fastforce
qed

lemma byKey_present:
  assumes "flag_inv s" and "fs_byKey s k = Some fid"
  shows "\<exists>f. fs_flags s fid = Some f"
  using assms index_ofD [OF flag_invD(4) [OF assms(1)], of k fid] by auto

lemma GetFlagByKey_named:
  assumes "flag_inv s"
  shows "GetFlagByKey scope key s = Some (Inr f) \<longleftrightarrow> flag_named s scope key f"
    and "GetFlagByKey scope key s \<noteq> None"
  using byKey_named [OF assms, of scope key f] byKey_present [OF assms, of "scopeKey scope key"]
  by (auto simp: GetFlagByKey_def split: option.split)

subsection \<open>Evaluation\<close>

definition rule_matches ::
  "(string \<Rightarrow> string) \<Rightarrow> string \<Rightarrow> string \<Rightarrow> CheckFn option \<Rightarrow> FlagRule \<Rightarrow> bool" where
  "rule_matches sha256 key subjectID check r \<longleftrightarrow>
     (rul_Kind r = RuleKindAuthz \<and> (\<exists>chk ob. check = Some chk \<and> rul_Object r = Some ob \<and>
        chk subjectID (rul_Relation r) (ro_Type ob) (ro_ID ob))) \<or>
     (rul_Kind r = RuleKindPercentage \<and>
        int (unat (AssignBucket sha256 key subjectID)) < rul_BasisPoints r)"

lemma kinds_differ [simp]: "RuleKindAuthz \<noteq> RuleKindPercentage" "RuleKindPercentage \<noteq> RuleKindAuthz"
  by (simp_all add: RuleKindAuthz_def RuleKindPercentage_def)

lemma word_less_basis_points:
  assumes "0 \<le> bp" and "bp \<le> 10000"
  shows "(w :: 32 word) < word_of_int bp \<longleftrightarrow> int (unat w) < bp"
proof -
  have "uint (word_of_int bp :: 32 word) = bp"
    using assms by (simp add: uint_word_of_int)
  then show ?thesis by (simp add: word_less_def)
qed

lemma validateRules_Cons:
  "validateRules (r # rules) = None \<longleftrightarrow> validateRules rules = None \<and>
     ((rul_Kind r = RuleKindAuthz \<and> rx_match relationRe (rul_Relation r) \<and>
        (\<exists>ob. rul_Object r = Some ob \<and> ro_Type ob \<noteq> [] \<and> ro_ID ob \<noteq> [])) \<or>
      (rul_Kind r = RuleKindPercentage \<and> 0 \<le> rul_BasisPoints r \<and> rul_BasisPoints r \<le> 10000))"
  by (auto split: option.splits simp del: rx_match_Rng)

lemma eval_rules_find:
  "validateRules rules = None \<Longrightarrow> eval_rules sha256 key subj check rules =
     Some (map_option rul_Variant (find (rule_matches sha256 key subj check) rules))"
proof (induction rules)
  case (Cons r rules)
  then show ?case
    unfolding validateRules_Cons
    by (auto simp: rule_matches_def word_less_basis_points split: option.split)
qed simp

text \<open>What a flag is worth for a subject.\<close>

definition flag_value :: "(string \<Rightarrow> string) \<Rightarrow> string \<Rightarrow> CheckFn option \<Rightarrow> Flag \<Rightarrow> bool" where
  "flag_value sha256 subj check f =
     (if flg_Enabled f
      then (case find (rule_matches sha256 (flg_Key f) subj check) (flg_Rules f) of
              None \<Rightarrow> flg_DefaultVariant f | Some r \<Rightarrow> rul_Variant r)
      else flg_DefaultVariant f)"

lemma EvaluateFlag_named:
  assumes "flag_inv s" and "flag_named s scope key f"
  shows "EvaluateFlag sha256 scope key subj check s = Some (flag_value sha256 subj check f)"
proof -
  obtain fid where fid: "fs_byKey s (scopeKey scope key) = Some fid" "fs_flags s fid = Some f"
    using byKey_named [OF assms(1)] assms(2) by blast
  then show ?thesis
    using flag_invD(5) [OF assms(1) fid(2)]
    by (auto simp: EvaluateFlag_def eval_rules_find flag_ok_def flag_value_def split: option.split)
qed

lemma EvaluateFlag_unnamed:
  assumes "flag_inv s" and no: "\<And>f. \<not> flag_named s scope key f"
  shows "EvaluateFlag sha256 scope key subj check s = Some False"
proof (cases "fs_byKey s (scopeKey scope key)")
  case None
  then show ?thesis by (simp add: EvaluateFlag_def)
next
  case (Some fid)
  then obtain f where "fs_flags s fid = Some f" using byKey_present [OF assms(1)] by blast
  then show ?thesis using byKey_named [OF assms(1), of scope key f] no [of f] Some by blast
qed

lemma flag_named_unique:
  assumes "flag_inv s" and "flag_named s scope key f" and "flag_named s scope key g"
  shows "f = g"
proof -
  obtain i j where "fs_byKey s (scopeKey scope key) = Some i" "fs_flags s i = Some f"
    "fs_byKey s (scopeKey scope key) = Some j" "fs_flags s j = Some g"
    using byKey_named [OF assms(1), of scope key] assms(2,3) by blast
  then show ?thesis by simp
qed

lemma AssignBucket_bound: "unat (AssignBucket sha256 key subj) < 10000"
  by (simp add: AssignBucket_def Let_def unat_mod)

lemma AssignBucket_bound_int [simp]: "uint (AssignBucket sha256 key subj) < 10000"
proof -
  have "int (unat (AssignBucket sha256 key subj)) < int 10000"
    using AssignBucket_bound [of sha256 key subj] by (simp only: of_nat_less_iff)
  then show ?thesis by simp
qed

subsection \<open>Properties\<close>

text \<open>C27: in every reachable state of the flag store, evaluating a flag returns without a panic, for
  every subject, every authorization predicate (nil included) and every scope and key asked for:
  \<open>False\<close> when no flag has that scope and key; otherwise the default variant when the flag is
  disabled, and the variant of its first matching rule, or the default, when it is enabled.\<close>

theorem flag_evaluation:
  assumes "flag_step\<^sup>*\<^sup>* NewInMemoryFlagsStore s"
  shows "(\<forall>f. flag_named s scope key f \<longrightarrow>
      EvaluateFlag sha256 scope key subj check s = Some (flag_value sha256 subj check f)) \<and>
    ((\<forall>f. \<not> flag_named s scope key f) \<longrightarrow> EvaluateFlag sha256 scope key subj check s = Some False) \<and>
    (\<forall>f g. flag_named s scope key f \<longrightarrow> flag_named s scope key g \<longrightarrow> f = g)"
  using EvaluateFlag_named EvaluateFlag_unnamed flag_named_unique flag_steps.inv_reachable [OF refl assms]
  by blast

definition demo_rule :: "string \<Rightarrow> int \<Rightarrow> FlagRule" where
  "demo_rule kind bp = \<lparr>rul_Kind = kind, rul_Relation = ''viewer'',
     rul_Object = Some \<lparr>ro_Type = ''doc'', ro_ID = ''d1''\<rparr>, rul_BasisPoints = bp, rul_Variant = True\<rparr>"

definition demo_scope :: string where "demo_scope = ''org_0190f2a81b3c7abc8123456789abcdef''"

definition demo_flags :: flags_store where
  "demo_flags = snd (CreateFlag (demo_lib ''0190f2a8-1b3c-7abc-8123-456789abcdef'') (\<lambda>_. 7)
     \<lparr>cfi_Scope = demo_scope, cfi_Key = ''beta'', cfi_Enabled = True, cfi_DefaultVariant = False,
      cfi_Rules = [demo_rule RuleKindAuthz 0, demo_rule RuleKindPercentage 10000]\<rparr>
     NewInMemoryFlagsStore)"

lemma demo_flags_run: "flag_step\<^sup>*\<^sup>* NewInMemoryFlagsStore demo_flags"
  unfolding demo_flags_def
  by (intro r_into_rtranclp flag_step_create) (simp add: fresh_for_def NewInMemoryFlagsStore_def)

definition demo_flag :: Flag where
  "demo_flag = \<lparr>flg_ID = ''flag_0190f2a81b3c7abc8123456789abcdef'', flg_Scope = demo_scope,
     flg_Key = ''beta'', flg_Enabled = True, flg_DefaultVariant = False,
     flg_Rules = [demo_rule RuleKindAuthz 0, demo_rule RuleKindPercentage 10000],
     flg_CreatedAt = 7, flg_UpdatedAt = 7\<rparr>"

lemma demo_flags_flags: "fs_flags demo_flags = [flg_ID demo_flag \<mapsto> demo_flag]"
proof -
  have "Generate (demo_lib ''0190f2a8-1b3c-7abc-8123-456789abcdef'') 0 ''flag''
      = Inr (flg_ID demo_flag)" by code_simp
  moreover have "IsValid demo_scope [''org'']" "rx_match keyRe ''beta''" by code_simp+
  moreover have "validateRules [demo_rule RuleKindAuthz 0, demo_rule RuleKindPercentage 10000] = None"
    by code_simp
  ultimately show ?thesis
    by (simp add: demo_flags_def CreateFlag_def Let_def NewInMemoryFlagsStore_def demo_flag_def
        del: validateRules.simps rx_match_Rng)
qed

theorem flag_evaluation_witness:
  "EvaluateFlag (\<lambda>x. x) demo_scope ''beta'' ''usr'' None demo_flags = Some True"
proof -
  have n: "flag_named demo_flags demo_scope ''beta'' f \<longleftrightarrow> f = demo_flag" for f
    by (auto simp: flag_named_def demo_flags_flags demo_flag_def)
  have "flag_value (\<lambda>x. x) ''usr'' None demo_flag"
    by (simp add: flag_value_def demo_flag_def rule_matches_def demo_rule_def)
  then show ?thesis
    using flag_evaluation [OF demo_flags_run, of demo_scope "''beta''" "\<lambda>x. x" "''usr''" None]
    by (simp add: n)
qed

text \<open>C33: percentage rollouts.  The bucket of a subject is below 10000; a percentage rule of 0 basis
  points matches no subject, one of 10000 every subject, and raising the basis points of a rule
  never takes a subject out of it.\<close>

theorem percentage_rollout:
  assumes "rul_Kind r = RuleKindPercentage" and "0 \<le> bp" and "bp \<le> bp'" and "bp' \<le> 10000"
  shows "unat (AssignBucket sha256 key subj) < 10000 \<and>
    eval_rules sha256 key subj check [r\<lparr>rul_BasisPoints := 0\<rparr>] = Some None \<and>
    eval_rules sha256 key subj check [r\<lparr>rul_BasisPoints := 10000\<rparr>] = Some (Some (rul_Variant r)) \<and>
    (eval_rules sha256 key subj check [r\<lparr>rul_BasisPoints := bp\<rparr>] = Some (Some (rul_Variant r)) \<longrightarrow>
     eval_rules sha256 key subj check [r\<lparr>rul_BasisPoints := bp'\<rparr>] = Some (Some (rul_Variant r)))"
proof -
  have e: "eval_rules sha256 key subj check [r\<lparr>rul_BasisPoints := b\<rparr>] =
      Some (if int (unat (AssignBucket sha256 key subj)) < b then Some (rul_Variant r) else None)"
    if "0 \<le> b" "b \<le> 10000" for b
    using word_less_basis_points [OF that] assms(1) by simp
  show ?thesis
    using AssignBucket_bound [of sha256 key subj] assms(2-4)
    by (simp add: e del: eval_rules.simps split: if_split)
qed

theorem percentage_rollout_witness:
  "eval_rules (\<lambda>x. x) ''beta'' ''usr'' None [demo_rule RuleKindPercentage 10000] = Some (Some True)"
  using percentage_rollout [of "demo_rule RuleKindPercentage 10000" 0 0 "\<lambda>x. x" "''beta''" "''usr''" None]
  by (simp add: demo_rule_def del: eval_rules.simps)

text \<open>\<open>UpdateFlag\<close> is not atomic: when it rejects the new rules it has already stored the new
  \<open>Enabled\<close> and \<open>DefaultVariant\<close>, so a request answered with an error turns a flag off.\<close>

theorem UpdateFlag_partial:
  "case UpdateFlag (\<lambda>_. 9) \<lparr>ufi_ID = flg_ID demo_flag, ufi_Enabled = Some False,
       ufi_DefaultVariant = None, ufi_Rules = [demo_rule ''segment'' 0], ufi_UpdateRules = True\<rparr> demo_flags of
     (res, s) \<Rightarrow> (case res of Inl e \<Rightarrow> flag_IsInvalidFormat e | Inr _ \<Rightarrow> False) \<and>
       GetFlag (flg_ID demo_flag) demo_flags = Inr demo_flag \<and>
       GetFlag (flg_ID demo_flag) s = Inr (demo_flag\<lparr>flg_Enabled := False\<rparr>)"
proof -
  have "validateRules [demo_rule ''segment'' 0] =
      Some (FlagInvalidFormat ''rules[*].kind'' ''must be \"authz\" or \"percentage\"'')"
    by (simp add: demo_rule_def RuleKindAuthz_def RuleKindPercentage_def)
  then show ?thesis
    by (simp add: UpdateFlag_def GetFlag_def demo_flags_flags Let_def del: validateRules.simps)
qed

text \<open>a client that follows \<open>NextCursor\<close> through \<open>ListFlags\<close> receives every flag of the scope
  exactly once, in the order of identifiers, whatever order the runtime visits the map in.\<close>

theorem ListFlags_pages:
  assumes "flag_step\<^sup>*\<^sup>* NewInMemoryFlagsStore s"
    and "\<forall>c. visits (ks c) (fs_flags s)" and "visits ks0 (fs_flags s)"
    and "xs = sort_key flg_ID (filter (\<lambda>f. flg_Scope f = scope) (go_range (fs_flags s) ks0))"
  shows "walk_pages (\<lambda>c. Some (ListFlags (ks c) \<lparr>lf_Scope = scope, lf_Cursor = c, lf_Limit = limit\<rparr> s))
      (length xs + 1) None = Some xs
    \<and> distinct (map flg_ID xs)
    \<and> (\<forall>f. f \<in> set xs \<longleftrightarrow> (\<exists>fid. fs_flags s fid = Some f) \<and> flg_Scope f = scope)"
proof -
  have inv: "flag_inv s" using flag_steps.inv_reachable [OF refl assms(1)] .
  have "ListFlags (ks c) \<lparr>lf_Scope = scope, lf_Cursor = c, lf_Limit = limit\<rparr> s
      = paginate_tail flg_ID c (page_limit limit) xs" for c
    using keyed_sort_order [OF flag_invD(1) [OF inv] spec [OF assms(2), of c] assms(3)]
    by (simp add: ListFlags_def assms(4))
  moreover have ok: "listing_ok flg_ID xs"
    using keyed_listing_ok [OF flag_invD(1,3) [OF inv] assms(3)] by (simp add: assms(4))
  ultimately have "walk_pages
      (\<lambda>c. Some (ListFlags (ks c) \<lparr>lf_Scope = scope, lf_Cursor = c, lf_Limit = limit\<rparr> s))
      (length xs + 1) None = Some xs"
    using paginate_tail.walk_all [OF page_limit_pos ok] by simp
  moreover have "f \<in> set xs \<longleftrightarrow> (\<exists>fid. fs_flags s fid = Some f) \<and> flg_Scope f = scope" for f
    using in_go_range [OF assms(3)] by (auto simp: assms(4) simp del: set_go_range)
  ultimately show ?thesis using ok by (simp add: listing_ok_def)
qed

theorem ListFlags_pages_witness:
  "walk_pages (\<lambda>c. Some (ListFlags [flg_ID demo_flag]
       \<lparr>lf_Scope = demo_scope, lf_Cursor = c, lf_Limit = 0\<rparr> demo_flags)) 2 None = Some [demo_flag]"
proof -
  have v: "visits [flg_ID demo_flag] (fs_flags demo_flags)" by (simp add: demo_flags_flags visits_def)
  have x: "[demo_flag] = sort_key flg_ID
      (filter (\<lambda>f. flg_Scope f = demo_scope) (go_range (fs_flags demo_flags) [flg_ID demo_flag]))"
    by (simp add: demo_flags_flags) (simp add: demo_flag_def)
  show ?thesis
    using ListFlags_pages [OF demo_flags_run _ v x, of "\<lambda>_. [flg_ID demo_flag]" 0] v
    by (simp add: numeral_2_eq_2)
qed

end
