(* ===== verification/Notify.thy ===== *)
theory Notify
  imports Ids Paging
begin

text \<open>
  \<open>packages/notify\<close>: per-recipient notifications, after \<open>types.go\<close>, \<open>store.go\<close>, \<open>errors.go\<close>
  and \<open>InMemoryNotificationStore\<close> of \<open>inmem.go\<close>.  The payload \<open>map[string]any\<close> is the type
  \<open>'d\<close>, and \<open>encoding/json\<close> on it is the argument \<open>json\<close>: \<open>json_Marshal d\<close> is \<open>None\<close> when
  marshalling fails, \<open>json_Unmarshal b\<close> the map after unmarshalling into a nil map.  Every method
  that concerns one notification takes the recipient first, as in the code.
\<close>

record 'd json_lib =
  json_Marshal :: "'d \<Rightarrow> string option"
  json_Unmarshal :: "string \<Rightarrow> 'd option"

datatype notify_error =
    NotifyNotFound
  | NotifyInvalidFormat string string
  | NotifyPrecondition string
  | NotifyGenerate id_error

fun notify_IsInvalidFormat :: "notify_error \<Rightarrow> bool" where
  "notify_IsInvalidFormat (NotifyInvalidFormat _ _) = True"
| "notify_IsInvalidFormat _ = False"

fun notify_IsPrecondition :: "notify_error \<Rightarrow> bool" where
  "notify_IsPrecondition (NotifyPrecondition _) = True"
| "notify_IsPrecondition _ = False"

definition StateUnread :: string where "StateUnread = ''unread''"
definition StateRead :: string where "StateRead = ''read''"
definition StateDismissed :: string where "StateDismissed = ''dismissed''"

record Subject =
  sub_Kind :: string
  sub_ID :: string

record 'd Notification =
  ntf_ID :: string
  ntf_Scope :: string
  ntf_RecipientUsrID :: string
  ntf_Type :: string
  ntf_Subject :: Subject
  ntf_Data :: "'d option"
  ntf_State :: string
  ntf_CreatedAt :: gotime
  ntf_StateChangedAt :: gotime

record 'd CreateNotificationInput =
  cni_Scope :: string
  cni_RecipientUsrID :: string
  cni_Type :: string
  cni_Subject :: Subject
  cni_Data :: "'d option"

record ListNotificationsOptions =
  ln_RecipientUsrID :: string
  ln_Scope :: string
  ln_State :: "string option"
  ln_Type :: "string option"
  ln_Cursor :: "string option"
  ln_Limit :: int

type_synonym 'd notif_store = "string \<rightharpoonup> 'd Notification"

definition typeRe :: rx where
  "typeRe = Rng (az @ digits09 @ single (CHR ''.'') @ single (CHR ''_'') @ single (CHR ''-'')) 1 (Some 64)"

definition cloneData :: "'d json_lib \<Rightarrow> 'd option \<Rightarrow> 'd option" where
  "cloneData json d =
     (case d of None \<Rightarrow> None
      | Some x \<Rightarrow> (case json_Marshal json x of None \<Rightarrow> None | Some b \<Rightarrow> json_Unmarshal json b))"

definition cloneNotification :: "'d json_lib \<Rightarrow> 'd Notification \<Rightarrow> 'd Notification" where
  "cloneNotification json n = n\<lparr>ntf_Data := cloneData json (ntf_Data n)\<rparr>"

definition NewInMemoryNotificationStore :: "'d notif_store" where
  "NewInMemoryNotificationStore = Map.empty"

definition CreateNotification ::
  "'d json_lib \<Rightarrow> uuid_lib \<Rightarrow> clock \<Rightarrow> 'd CreateNotificationInput \<Rightarrow> 'd notif_store \<Rightarrow>
   (notify_error + 'd Notification) \<times> 'd notif_store" where
  "CreateNotification json lib clk i s =
     (if \<not> IsValid (cni_Scope i) [''org'']
      then (Inl (NotifyInvalidFormat ''scope'' ''must be a valid org_ id''), s)
      else if \<not> IsValid (cni_RecipientUsrID i) [''usr'']
      then (Inl (NotifyInvalidFormat ''recipient_usr_id'' ''must be a valid usr_ id''), s)
      else if \<not> rx_match typeRe (cni_Type i)
      then (Inl (NotifyInvalidFormat ''type'' ''must match ^[a-z0-9._-]{1,64}$''), s)
      else if sub_Kind (cni_Subject i) = '''' \<or> sub_ID (cni_Subject i) = ''''
      then (Inl (NotifyInvalidFormat ''subject'' ''must have non-empty kind and id''), s)
      else if (case cni_Data i of None \<Rightarrow> False
               | Some d \<Rightarrow> (case json_Marshal json d of None \<Rightarrow> True | Some b \<Rightarrow> length b > 16 * 1024))
      then (Inl (NotifyInvalidFormat ''data'' ''must be a JSON object <= 16 KB''), s)
      else case Generate lib 0 ''not'' of
        Inl err \<Rightarrow> (Inl (NotifyGenerate err), s)
      | Inr nid \<Rightarrow>
          let now = clk 0;
              n = \<lparr>ntf_ID = nid, ntf_Scope = cni_Scope i, ntf_RecipientUsrID = cni_RecipientUsrID i,
                   ntf_Type = cni_Type i, ntf_Subject = cni_Subject i,
                   ntf_Data = cloneData json (cni_Data i), ntf_State = StateUnread,
                   ntf_CreatedAt = now, ntf_StateChangedAt = now\<rparr>
          in (Inr (cloneNotification json n), s(nid \<mapsto> n)))"

definition GetNotification ::
  "'d json_lib \<Rightarrow> string \<Rightarrow> string \<Rightarrow> 'd notif_store \<Rightarrow> notify_error + 'd Notification" where
  "GetNotification json recipient nid s =
     (case s nid of None \<Rightarrow> Inl NotifyNotFound
      | Some n \<Rightarrow> if ntf_RecipientUsrID n \<noteq> recipient then Inl NotifyNotFound
                  else Inr (cloneNotification json n))"

definition MarkRead ::
  "'d json_lib \<Rightarrow> clock \<Rightarrow> string \<Rightarrow> string \<Rightarrow> 'd notif_store \<Rightarrow>
   (notify_error + 'd Notification) \<times> 'd notif_store" where
  "MarkRead json clk recipient nid s =
     (case s nid of None \<Rightarrow> (Inl NotifyNotFound, s)
      | Some n \<Rightarrow>
          if ntf_RecipientUsrID n \<noteq> recipient then (Inl NotifyNotFound, s)
          else if ntf_State n = StateDismissed
          then (Inl (NotifyPrecondition ''cannot modify a dismissed notification''), s)
          else let n' = (if ntf_State n \<noteq> StateRead
                         then n\<lparr>ntf_State := StateRead, ntf_StateChangedAt := clk 0\<rparr> else n)
               in (Inr (cloneNotification json n'), s(nid \<mapsto> n')))"

definition MarkUnread ::
  "'d json_lib \<Rightarrow> clock \<Rightarrow> string \<Rightarrow> string \<Rightarrow> 'd notif_store \<Rightarrow>
   (notify_error + 'd Notification) \<times> 'd notif_store" where
  "MarkUnread json clk recipient nid s =
     (case s nid of None \<Rightarrow> (Inl NotifyNotFound, s)
      | Some n \<Rightarrow>
          if ntf_RecipientUsrID n \<noteq> recipient then (Inl NotifyNotFound, s)
          else if ntf_State n = StateDismissed
          then (Inl (NotifyPrecondition ''cannot modify a dismissed notification''), s)
          else let n' = (if ntf_State n \<noteq> StateUnread
                         then n\<lparr>ntf_State := StateUnread, ntf_StateChangedAt := clk 0\<rparr> else n)
               in (Inr (cloneNotification json n'), s(nid \<mapsto> n')))"

definition Dismiss ::
  "'d json_lib \<Rightarrow> clock \<Rightarrow> string \<Rightarrow> string \<Rightarrow> 'd notif_store \<Rightarrow>
   (notify_error + 'd Notification) \<times> 'd notif_store" where
  "Dismiss json clk recipient nid s =
     (case s nid of None \<Rightarrow> (Inl NotifyNotFound, s)
      | Some n \<Rightarrow>
          if ntf_RecipientUsrID n \<noteq> recipient then (Inl NotifyNotFound, s)
          else if ntf_State n = StateDismissed
          then (Inl (NotifyPrecondition ''notification is already dismissed''), s)
          else let n' = n\<lparr>ntf_State := StateDismissed, ntf_StateChangedAt := clk 0\<rparr>
               in (Inr (cloneNotification json n'), s(nid \<mapsto> n')))"

definition CountUnread :: "string list \<Rightarrow> string \<Rightarrow> 'd notif_store \<Rightarrow> nat" where
  "CountUnread ks recipient s =
     foldl (\<lambda>count n. if ntf_RecipientUsrID n = recipient \<and> ntf_State n = StateUnread
                      then count + 1 else count) 0 (go_range s ks)"

definition list_selects :: "ListNotificationsOptions \<Rightarrow> 'd Notification \<Rightarrow> bool" where
  "list_selects opts n \<longleftrightarrow>
     \<not> (ntf_RecipientUsrID n \<noteq> ln_RecipientUsrID opts) \<and>
     \<not> (ln_Scope opts \<noteq> '''' \<and> ntf_Scope n \<noteq> ln_Scope opts) \<and>
     \<not> (case ln_State opts of None \<Rightarrow> False | Some st \<Rightarrow> ntf_State n \<noteq> st) \<and>
     \<not> (case ln_Type opts of None \<Rightarrow> False | Some t \<Rightarrow> ntf_Type n \<noteq> t)"

definition ListNotifications ::
  "'d json_lib \<Rightarrow> string list \<Rightarrow> ListNotificationsOptions \<Rightarrow> 'd notif_store \<Rightarrow> 'd Notification page" where
  "ListNotifications json ks opts s =
     (let limit = page_limit (ln_Limit opts);
          matching = sort_key ntf_ID
            (map (cloneNotification json) (filter (list_selects opts) (go_range s ks)))
      in paginate_tail ntf_ID (ln_Cursor opts) limit matching)"

lemma states_distinct [simp]:
  "StateUnread \<noteq> StateRead" "StateUnread \<noteq> StateDismissed" "StateRead \<noteq> StateDismissed"
  "StateRead \<noteq> StateUnread" "StateDismissed \<noteq> StateUnread" "StateDismissed \<noteq> StateRead"
  by (simp_all add: StateUnread_def StateRead_def StateDismissed_def)

lemma clone_sel [simp]:
  "ntf_ID (cloneNotification json n) = ntf_ID n"
  "ntf_State (cloneNotification json n) = ntf_State n"
  "ntf_RecipientUsrID (cloneNotification json n) = ntf_RecipientUsrID n"
  by (simp_all add: cloneNotification_def)

subsection \<open>The invariant and the life of a notification\<close>

definition notif_inv :: "'d notif_store \<Rightarrow> bool" where
  "notif_inv s \<longleftrightarrow> keyed_by ntf_ID s \<and> finite (dom s) \<and> s '''' = None \<and>
     (\<forall>nid n. s nid = Some n \<longrightarrow> ntf_State n \<in> {StateUnread, StateRead, StateDismissed})"

text \<open>Everything but the state and its timestamp is immutable; \<open>dismissed\<close> is final.\<close>

definition notif_le :: "'d Notification \<Rightarrow> 'd Notification \<Rightarrow> bool" where
  "notif_le a b \<longleftrightarrow>
     b = a\<lparr>ntf_State := ntf_State b, ntf_StateChangedAt := ntf_StateChangedAt b\<rparr> \<and>
     (ntf_State a = StateDismissed \<longrightarrow> b = a)"

lemma notif_le_refl [simp]: "notif_le a a"
  by (simp add: notif_le_def)

lemma notif_le_trans: "notif_le a b \<Longrightarrow> notif_le b c \<Longrightarrow> notif_le a c"
  unfolding notif_le_def by (cases a; cases b; cases c) auto

lemma notif_le_set:
  "ntf_State n \<noteq> StateDismissed \<Longrightarrow> notif_le n (n\<lparr>ntf_State := st, ntf_StateChangedAt := t\<rparr>)"
  by (simp add: notif_le_def)

lemma notif_le_sel: "notif_le a b \<Longrightarrow> ntf_ID b = ntf_ID a \<and> ntf_RecipientUsrID b = ntf_RecipientUsrID a"
  unfolding notif_le_def by (cases a; cases b) simp

inductive notif_step :: "'d notif_store \<Rightarrow> 'd notif_store \<Rightarrow> bool" where
  notif_step_create: "fresh_for lib 0 ''not'' s \<Longrightarrow>
     notif_step s (snd (CreateNotification json lib clk i s))"
| notif_step_read: "notif_step s (snd (MarkRead json clk r nid s))"
| notif_step_unread: "notif_step s (snd (MarkUnread json clk r nid s))"
| notif_step_dismiss: "notif_step s (snd (Dismiss json clk r nid s))"

text \<open>Each step leaves the store alone, adds a notification under a fresh identifier, or moves one on.\<close>

lemma notif_step_cases:
  assumes "notif_step s t"
  obtains (same) "t = s"
  | (new) nid n where "s nid = None" "nid \<noteq> ''''" "ntf_ID n = nid" "ntf_State n = StateUnread"
      "t = s(nid \<mapsto> n)"
  | (move) nid n n' where "s nid = Some n" "notif_le n n'"
      "ntf_State n' \<in> {StateUnread, StateRead, StateDismissed, ntf_State n}" "t = s(nid \<mapsto> n')"
  using assms
proof (cases rule: notif_step.cases)
  case (notif_step_create lib json clk i)
  then show ?thesis
    by (auto simp: CreateNotification_def Let_def fresh_for_def split: if_splits sum.splits intro: same)
      (rule new [rotated 4], assumption, auto dest: Generate_nonempty)
next
  case (notif_step_read json clk r nid)
  then show ?thesis
    by (auto simp: MarkRead_def Let_def split: if_splits option.splits intro: same)
      (rule move [rotated 3], assumption, assumption, auto intro: notif_le_set)+
next
  case (notif_step_unread json clk r nid)
  then show ?thesis
    by (auto simp: MarkUnread_def Let_def split: if_splits option.splits intro: same)
      (rule move [rotated 3], assumption, assumption, auto intro: notif_le_set)+
next
  case (notif_step_dismiss json clk r nid)
  then show ?thesis
    by (auto simp: Dismiss_def Let_def split: if_splits option.splits intro: same)
      (rule move [rotated 3], assumption, assumption, auto intro: notif_le_set)+
qed

lemma notif_step_inv: "notif_step s t \<Longrightarrow> notif_inv s \<Longrightarrow> notif_inv t"
proof (erule notif_step_cases, goal_cases)
  case (3 nid n n')
  then have "ntf_ID n' = nid" "nid \<noteq> ''''"
    using notif_le_sel [OF 3(3)] by (auto simp: notif_inv_def keyed_by_def)
  moreover have "ntf_State n' \<in> {StateUnread, StateRead, StateDismissed}"
    using 3 by (simp add: notif_inv_def) metis
  ultimately show ?case using 3 by (simp add: notif_inv_def keyed_by_def)
qed (auto simp: notif_inv_def keyed_by_def)

lemma notif_inv_init [simp]: "notif_inv NewInMemoryNotificationStore"
  by (simp add: notif_inv_def NewInMemoryNotificationStore_def)

lemma notif_step_le: "notif_step s t \<Longrightarrow> s k = Some n \<Longrightarrow> \<exists>n'. t k = Some n' \<and> notif_le n n'"
  by (erule notif_step_cases) auto

interpretation notif_steps: entity_store "\<lambda>s. s = NewInMemoryNotificationStore" notif_step notif_inv
  "\<lambda>s. s" notif_le
  by unfold_locales
    (auto intro: notif_le_trans notif_step_inv dest: notif_step_le)

subsection \<open>What one recipient can see\<close>

definition inbox :: "string \<Rightarrow> 'd notif_store \<Rightarrow> 'd notif_store" where
  "inbox r s = (\<lambda>nid. case s nid of None \<Rightarrow> None
     | Some n \<Rightarrow> if ntf_RecipientUsrID n = r then Some n else None)"

lemma inbox_Some [simp]: "inbox r s nid = Some n \<longleftrightarrow> s nid = Some n \<and> ntf_RecipientUsrID n = r"
  by (auto simp: inbox_def split: option.splits)

lemma inbox_None: "inbox r s nid = None \<longleftrightarrow> (\<forall>n. s nid = Some n \<longrightarrow> ntf_RecipientUsrID n \<noteq> r)"
  by (auto simp: inbox_def split: option.splits)

text \<open>The operations on one notification read and write the caller's inbox only.\<close>

lemma GetNotification_inbox:
  "GetNotification json r nid s = (case inbox r s nid of None \<Rightarrow> Inl NotifyNotFound
     | Some n \<Rightarrow> Inr (cloneNotification json n))"
  by (auto simp: GetNotification_def inbox_def split: option.split)

definition owner_step ::
  "('d Notification \<Rightarrow> notify_error + 'd Notification) \<Rightarrow> 'd json_lib \<Rightarrow> string \<Rightarrow> string \<Rightarrow> 'd notif_store \<Rightarrow>
   (notify_error + 'd Notification) \<times> 'd notif_store" where
  "owner_step f json r nid s =
     (case inbox r s nid of None \<Rightarrow> (Inl NotifyNotFound, s)
      | Some n \<Rightarrow> (case f n of Inl e \<Rightarrow> (Inl e, s)
                   | Inr n' \<Rightarrow> (Inr (cloneNotification json n'), s(nid \<mapsto> n'))))"

definition read_move :: "clock \<Rightarrow> 'd Notification \<Rightarrow> notify_error + 'd Notification" where
  "read_move clk n = (if ntf_State n = StateDismissed
     then Inl (NotifyPrecondition ''cannot modify a dismissed notification'')
     else Inr (if ntf_State n \<noteq> StateRead
               then n\<lparr>ntf_State := StateRead, ntf_StateChangedAt := clk 0\<rparr> else n))"

definition unread_move :: "clock \<Rightarrow> 'd Notification \<Rightarrow> notify_error + 'd Notification" where
  "unread_move clk n = (if ntf_State n = StateDismissed
     then Inl (NotifyPrecondition ''cannot modify a dismissed notification'')
     else Inr (if ntf_State n \<noteq> StateUnread
               then n\<lparr>ntf_State := StateUnread, ntf_StateChangedAt := clk 0\<rparr> else n))"

definition dismiss_move :: "clock \<Rightarrow> 'd Notification \<Rightarrow> notify_error + 'd Notification" where
  "dismiss_move clk n = (if ntf_State n = StateDismissed
     then Inl (NotifyPrecondition ''notification is already dismissed'')
     else Inr (n\<lparr>ntf_State := StateDismissed, ntf_StateChangedAt := clk 0\<rparr>))"

lemma MarkRead_owner: "MarkRead json clk r nid s = owner_step (read_move clk) json r nid s"
  by (auto simp: MarkRead_def owner_step_def read_move_def inbox_def Let_def split: option.split)

lemma MarkUnread_owner: "MarkUnread json clk r nid s = owner_step (unread_move clk) json r nid s"
  by (auto simp: MarkUnread_def owner_step_def unread_move_def inbox_def Let_def split: option.split)

lemma Dismiss_owner: "Dismiss json clk r nid s = owner_step (dismiss_move clk) json r nid s"
  by (auto simp: Dismiss_def owner_step_def dismiss_move_def inbox_def Let_def split: option.split)

lemmas owner_ops = MarkRead_owner MarkUnread_owner Dismiss_owner

definition keeps_recipient :: "('d Notification \<Rightarrow> notify_error + 'd Notification) \<Rightarrow> bool" where
  "keeps_recipient f \<longleftrightarrow> (\<forall>n n'. f n = Inr n' \<longrightarrow> ntf_RecipientUsrID n' = ntf_RecipientUsrID n)"

lemma move_recipient [simp]:
  "keeps_recipient (read_move clk)" "keeps_recipient (unread_move clk)" "keeps_recipient (dismiss_move clk)"
  by (auto simp: keeps_recipient_def read_move_def unread_move_def dismiss_move_def)

lemma inbox_upd: "inbox r (s(nid \<mapsto> n)) = (if ntf_RecipientUsrID n = r then (inbox r s)(nid \<mapsto> n)
    else (inbox r s)(nid := None))"
  by (auto simp: inbox_def fun_eq_iff)

lemma owner_step_inbox:
  assumes "inbox r s = inbox r t" and "keeps_recipient f"
  shows "fst (owner_step f json r nid s) = fst (owner_step f json r nid t)
    \<and> inbox r (snd (owner_step f json r nid s)) = inbox r (snd (owner_step f json r nid t))"
proof (cases "inbox r t nid")
  case (Some n)
  moreover have "ntf_RecipientUsrID n = r" using Some by simp
  ultimately show ?thesis
    using assms by (simp add: owner_step_def inbox_upd keeps_recipient_def del: inbox_Some split: sum.split)
qed (use assms in \<open>simp add: owner_step_def\<close>)

lemma owner_step_other:
  assumes "keeps_recipient f" and "r' \<noteq> r"
  shows "inbox r' (snd (owner_step f json r nid s)) = inbox r' s"
proof (cases "inbox r s nid")
  case (Some n)
  then have "inbox r' s nid = None" using assms(2) by (simp add: inbox_None)
  moreover have "ntf_RecipientUsrID n = r" using Some by simp
  ultimately show ?thesis
    using Some assms
    by (simp add: owner_step_def inbox_upd fun_upd_idem keeps_recipient_def del: inbox_Some
        split: sum.split)
qed (simp add: owner_step_def)

lemma inbox_mset:
  assumes "inbox r s = inbox r t" and "keyed_by ntf_ID s" and "keyed_by ntf_ID t"
    and "visits ks s" and "visits ks' t" and P: "\<And>n. P n \<Longrightarrow> ntf_RecipientUsrID n = r"
  shows "mset (filter P (go_range s ks)) = mset (filter P (go_range t ks'))"
proof -
  have d: "distinct (filter P (go_range s ks))" "distinct (filter P (go_range t ks'))"
    using keyed_range_filter_distinct [OF assms(2,4), of P]
      keyed_range_filter_distinct [OF assms(3,5), of P] by (simp_all add: distinct_map)
  have "(\<exists>k. s k = Some n) \<and> P n \<longleftrightarrow> (\<exists>k. t k = Some n) \<and> P n" for n
    using assms(1) P inbox_Some by metis
  then have "set (filter P (go_range s ks)) = set (filter P (go_range t ks'))"
    using in_go_range [OF assms(4)] in_go_range [OF assms(5)] by (auto simp del: set_go_range)
  then show ?thesis using set_eq_iff_mset_eq_distinct [OF d] by (simp only:)
qed

lemma CountUnread_length:
  "CountUnread ks r s =
    length (filter (\<lambda>n. ntf_RecipientUsrID n = r \<and> ntf_State n = StateUnread) (go_range s ks))"
proof -
  have "foldl (\<lambda>c n. if P n then c + 1 else c) a xs = a + length (filter P xs)"
    for P :: "'a Notification \<Rightarrow> bool" and a xs
    by (induction xs arbitrary: a) auto
  from this [of "\<lambda>n. ntf_RecipientUsrID n = r \<and> ntf_State n = StateUnread" 0] show ?thesis
    by (simp add: CountUnread_def)
qed

lemma listing_mset_cong:
  assumes "keyed_by ntf_ID s" and "mset (filter P (go_range s ks)) = mset (filter P (go_range t ks'))"
  shows "sort_key ntf_ID (map (cloneNotification json) (filter P (go_range s ks)))
    = sort_key ntf_ID (map (cloneNotification json) (filter P (go_range t ks')))"
proof (rule sort_key_inj_key_eq)
  show "mset (map (cloneNotification json) (filter P (go_range s ks)))
      = mset (sort_key ntf_ID (map (cloneNotification json) (filter P (go_range t ks'))))"
    using assms(2) by simp
  show "inj_on ntf_ID (set (map (cloneNotification json) (filter P (go_range s ks))))"
    using assms(1) by (auto simp: inj_on_def keyed_by_def)
qed simp

lemma list_selects_recipient: "list_selects opts n \<Longrightarrow> ntf_RecipientUsrID n = ln_RecipientUsrID opts"
  by (simp add: list_selects_def)

subsection \<open>Properties\<close>

text \<open>C34: non-inference.  What a caller observes depends only on the caller's own notifications: in two
  states with the same inbox of recipient \<open>r\<close> (however much they differ in notifications of others)
  every operation of \<open>r\<close> has the same result and leaves the same inbox, whatever order the runtime
  visits the two maps in; and no operation of \<open>r\<close> changes the inbox of anybody else.\<close>

theorem notification_noninference:
  assumes "notif_step\<^sup>*\<^sup>* NewInMemoryNotificationStore s"
    and "notif_step\<^sup>*\<^sup>* NewInMemoryNotificationStore t"
    and "inbox r s = inbox r t" and "visits ks s" and "visits ks' t" and "ln_RecipientUsrID opts = r"
  shows "GetNotification json r nid s = GetNotification json r nid t \<and>
    CountUnread ks r s = CountUnread ks' r t \<and>
    ListNotifications json ks opts s = ListNotifications json ks' opts t \<and>
    (\<forall>op \<in> {MarkRead json clk, MarkUnread json clk, Dismiss json clk}.
       fst (op r nid s) = fst (op r nid t) \<and> inbox r (snd (op r nid s)) = inbox r (snd (op r nid t)) \<and>
       (\<forall>r'. r' \<noteq> r \<longrightarrow> inbox r' (snd (op r nid s)) = inbox r' s))"
proof -
  have k: "keyed_by ntf_ID s" "keyed_by ntf_ID t"
    using notif_steps.inv_reachable [OF refl] assms(1,2) by (auto simp: notif_inv_def)
  have "CountUnread ks r s = CountUnread ks' r t"
    unfolding CountUnread_length
    by (rule mset_eq_length, rule inbox_mset [OF assms(3) k assms(4,5)]) simp
  moreover have "ListNotifications json ks opts s = ListNotifications json ks' opts t"
    using listing_mset_cong [OF k(1) inbox_mset [OF assms(3) k assms(4,5)
          list_selects_recipient [of opts, unfolded assms(6)]], where json = json]
    by (simp only: ListNotifications_def)
  moreover have "GetNotification json r nid s = GetNotification json r nid t"
    by (simp only: GetNotification_inbox assms(3))
  ultimately show ?thesis
    by (simp add: owner_ops owner_step_inbox [OF assms(3)] owner_step_other)
qed

definition demo_json :: "string json_lib" where
  "demo_json = \<lparr>json_Marshal = Some, json_Unmarshal = Some\<rparr>"

definition demo_usr :: string where "demo_usr = ''usr_0190f2a81b3c7abc8123456789abcdef''"

definition demo_notification :: "string Notification" where
  "demo_notification = \<lparr>ntf_ID = ''not_0190f2a81b3c7abc8123456789abcdef'',
     ntf_Scope = ''org_0190f2a81b3c7abc8123456789abcdef'', ntf_RecipientUsrID = demo_usr,
     ntf_Type = ''ping'', ntf_Subject = \<lparr>sub_Kind = ''doc'', sub_ID = ''d1''\<rparr>, ntf_Data = None,
     ntf_State = StateUnread, ntf_CreatedAt = 7, ntf_StateChangedAt = 7\<rparr>"

definition demo_inbox :: "string notif_store" where
  "demo_inbox = [ntf_ID demo_notification \<mapsto> demo_notification]"

lemma demo_notif_run: "notif_step\<^sup>*\<^sup>* NewInMemoryNotificationStore demo_inbox"
proof -
  let ?lib = "demo_lib ''0190f2a8-1b3c-7abc-8123-456789abcdef''"
    and ?i = "\<lparr>cni_Scope = ''org_0190f2a81b3c7abc8123456789abcdef'', cni_RecipientUsrID = demo_usr,
      cni_Type = ''ping'', cni_Subject = \<lparr>sub_Kind = ''doc'', sub_ID = ''d1''\<rparr>, cni_Data = None\<rparr>"
  have "Generate ?lib 0 ''not'' = Inr (ntf_ID demo_notification)" by code_simp
  moreover have "IsValid ''org_0190f2a81b3c7abc8123456789abcdef'' [''org'']"
    "IsValid demo_usr [''usr'']" "rx_match typeRe ''ping''" by code_simp+
  ultimately have "snd (CreateNotification demo_json ?lib (\<lambda>_. 7) ?i NewInMemoryNotificationStore) = demo_inbox"
    by (simp add: CreateNotification_def Let_def NewInMemoryNotificationStore_def demo_inbox_def
        cloneData_def del: rx_match_Rng) (simp add: demo_notification_def)
  moreover have "fresh_for ?lib 0 ''not'' NewInMemoryNotificationStore"
    by (simp add: fresh_for_def NewInMemoryNotificationStore_def)
  ultimately show ?thesis by (metis notif_step_create r_into_rtranclp)
qed

theorem notification_noninference_witness:
  "GetNotification demo_json ''usr_x'' (ntf_ID demo_notification) demo_inbox
     = GetNotification demo_json ''usr_x'' (ntf_ID demo_notification) NewInMemoryNotificationStore
   \<and> inbox demo_usr (snd (Dismiss demo_json (\<lambda>_. 9) ''usr_x'' (ntf_ID demo_notification) demo_inbox))
     = inbox demo_usr demo_inbox"
proof -
  have i: "inbox ''usr_x'' demo_inbox = inbox ''usr_x'' NewInMemoryNotificationStore"
    by (auto simp: inbox_def demo_inbox_def demo_notification_def demo_usr_def
        NewInMemoryNotificationStore_def fun_eq_iff)
  have v: "visits [ntf_ID demo_notification] demo_inbox" "visits [] NewInMemoryNotificationStore"
    by (simp_all add: visits_def demo_inbox_def NewInMemoryNotificationStore_def)
  have "demo_usr \<noteq> ''usr_x''" by (simp add: demo_usr_def)
  then show ?thesis
    using notification_noninference [OF demo_notif_run rtranclp.rtrancl_refl i v,
        of "\<lparr>ln_RecipientUsrID = ''usr_x'', ln_Scope = [], ln_State = None, ln_Type = None,
             ln_Cursor = None, ln_Limit = 0\<rparr>" demo_json "ntf_ID demo_notification" "\<lambda>_. 9"]
    by simp
qed

text \<open>dismissing is final.  After a successful \<open>Dismiss\<close> the notification keeps its state, its
  timestamp and everything else in every later state of the store, and each attempt of its recipient
  to mark or dismiss it again is refused as a precondition error and changes nothing.\<close>

theorem dismissed_final:
  assumes "notif_step\<^sup>*\<^sup>* NewInMemoryNotificationStore s"
    and "Dismiss json clk r nid s = (Inr n, s')" and "notif_step\<^sup>*\<^sup>* s' t"
  shows "t nid = s' nid \<and> ntf_State n = StateDismissed \<and> ntf_StateChangedAt n = clk 0 \<and>
    GetNotification json r nid t = Inr n \<and>
    (\<forall>op \<in> {MarkRead json clk', MarkUnread json clk', Dismiss json clk'}.
       \<exists>why. op r nid t = (Inl (NotifyPrecondition why), t))"
proof -
  have inv: "notif_inv s" using notif_steps.inv_reachable [OF refl assms(1)] .
  obtain n0 where n0: "inbox r s nid = Some n0" "ntf_State n0 \<noteq> StateDismissed"
    using assms(2)
    by (auto simp: Dismiss_owner owner_step_def dismiss_move_def split: option.splits if_splits)
  let ?n1 = "n0\<lparr>ntf_State := StateDismissed, ntf_StateChangedAt := clk 0\<rparr>"
  have n: "n = cloneNotification json ?n1" and s': "s' = s(nid \<mapsto> ?n1)"
    using assms(2) n0 by (simp_all add: Dismiss_owner owner_step_def dismiss_move_def del: inbox_Some)
  have "notif_inv s'"
    using notif_step_inv [OF notif_step_dismiss inv, of json clk r nid] assms(2) by simp
  then have tn: "t nid = Some ?n1"
    using notif_steps.entity_run [OF assms(3), of nid ?n1] s' by (auto simp: notif_le_def)
  then have it: "inbox r t nid = Some ?n1" using n0(1) by simp
  then have "\<exists>why. op r nid t = (Inl (NotifyPrecondition why), t)"
    if "op \<in> {MarkRead json clk', MarkUnread json clk', Dismiss json clk'}" for op
    using that by (auto simp: owner_ops owner_step_def read_move_def unread_move_def dismiss_move_def
        simp del: inbox_Some)
  moreover have "GetNotification json r nid t = Inr n"
    using it n by (simp only: GetNotification_inbox option.case)
  moreover have "t nid = s' nid" using tn s' by simp
  moreover have "ntf_State n = StateDismissed" "ntf_StateChangedAt n = clk 0"
    using n by (simp_all add: cloneNotification_def)
  ultimately show ?thesis by blast
qed

theorem dismissed_final_witness:
  "\<exists>why. MarkRead demo_json (\<lambda>_. 12) demo_usr (ntf_ID demo_notification)
      (snd (Dismiss demo_json (\<lambda>_. 9) demo_usr (ntf_ID demo_notification) demo_inbox))
    = (Inl (NotifyPrecondition why),
       snd (Dismiss demo_json (\<lambda>_. 9) demo_usr (ntf_ID demo_notification) demo_inbox))"
proof -
  have "inbox demo_usr demo_inbox (ntf_ID demo_notification) = Some demo_notification"
    by (simp add: demo_inbox_def) (simp add: demo_notification_def)
  then have "Dismiss demo_json (\<lambda>_. 9) demo_usr (ntf_ID demo_notification) demo_inbox =
      (Inr (cloneNotification demo_json (demo_notification\<lparr>ntf_State := StateDismissed, ntf_StateChangedAt := 9\<rparr>)),
       snd (Dismiss demo_json (\<lambda>_. 9) demo_usr (ntf_ID demo_notification) demo_inbox))"
    by (simp add: Dismiss_owner owner_step_def dismiss_move_def del: inbox_Some)
      (simp add: demo_notification_def)
  from dismissed_final [OF demo_notif_run this rtranclp.rtrancl_refl, of "\<lambda>_. 12"]
  show ?thesis by simp
qed

text \<open>\<open>CountUnread\<close> agrees with the inbox query: a client that follows \<open>NextCursor\<close> through
  \<open>ListNotifications\<close> with the state filter \<open>unread\<close> receives each unread notification of the
  recipient once, in the order of identifiers, and their number is the count.\<close>

theorem CountUnread_listing:
  assumes "notif_step\<^sup>*\<^sup>* NewInMemoryNotificationStore s"
    and "\<forall>c. visits (ks c) s" and "visits ks0 s"
  shows "\<exists>xs. walk_pages (\<lambda>c. Some (ListNotifications json (ks c)
        \<lparr>ln_RecipientUsrID = r, ln_Scope = [], ln_State = Some StateUnread, ln_Type = None,
         ln_Cursor = c, ln_Limit = limit\<rparr> s)) (length xs + 1) None = Some xs
    \<and> length xs = CountUnread ks0 r s \<and> sorted (map ntf_ID xs) \<and> distinct (map ntf_ID xs)
    \<and> set (map ntf_ID xs) = {nid. \<exists>n. s nid = Some n \<and> ntf_RecipientUsrID n = r \<and> ntf_State n = StateUnread}"
proof -
  have inv: "keyed_by ntf_ID s" "s [] = None"
    using notif_steps.inv_reachable [OF refl assms(1)] by (simp_all add: notif_inv_def)
  let ?P = "\<lambda>n. ntf_RecipientUsrID n = r \<and> ntf_State n = StateUnread"
  let ?xs = "sort_key ntf_ID (map (cloneNotification json) (filter ?P (go_range s ks0)))"
  let ?o = "\<lambda>c. \<lparr>ln_RecipientUsrID = r, ln_Scope = [], ln_State = Some StateUnread, ln_Type = None,
         ln_Cursor = c, ln_Limit = limit\<rparr>"
  have sel: "list_selects (?o c) = ?P" for c by (auto simp: list_selects_def fun_eq_iff)
  have page: "ListNotifications json (ks c) (?o c) s = paginate_tail ntf_ID c (page_limit limit) ?xs" for c
    using listing_mset_cong [OF inv(1) go_range_filter_order [OF spec [OF assms(2), of c] assms(3)], of json ?P]
    by (simp add: ListNotifications_def sel)
  have ids: "map ntf_ID (map (cloneNotification json) ys) = map ntf_ID ys" for ys by simp
  have d: "distinct (map ntf_ID ?xs)"
    unfolding distinct_sort_key ids by (rule keyed_range_filter_distinct [OF inv(1) assms(3)])
  have st: "set (map ntf_ID ?xs) = {nid. \<exists>n. s nid = Some n \<and> ?P n}"
    using inv(1) in_go_range [OF assms(3)]
    by (fastforce simp: keyed_by_def image_iff simp del: set_go_range)
  then have "[] \<notin> ntf_ID ` set ?xs" using inv(2) by simp
  with d have ok: "listing_ok ntf_ID ?xs" by (simp add: listing_ok_def)
  have "length ?xs = CountUnread ks0 r s" unfolding CountUnread_length by simp
  moreover have "walk_pages (\<lambda>c. Some (ListNotifications json (ks c) (?o c) s)) (length ?xs + 1) None = Some ?xs"
    using paginate_tail.walk_all [OF page_limit_pos ok] by (simp only: page)
  moreover have "sorted (map ntf_ID ?xs)" by (rule sorted_sort_key)
  ultimately show ?thesis using d st by (intro exI [of _ ?xs] conjI)
qed

theorem CountUnread_listing_witness:
  "\<exists>xs :: string Notification list. length xs = CountUnread [ntf_ID demo_notification] demo_usr demo_inbox
     \<and> set (map ntf_ID xs) = {ntf_ID demo_notification}"
proof -
  have v: "visits [ntf_ID demo_notification] demo_inbox" by (simp add: visits_def demo_inbox_def)
  have "{nid. \<exists>n. demo_inbox nid = Some n \<and> ntf_RecipientUsrID n = demo_usr \<and> ntf_State n = StateUnread}
      = {ntf_ID demo_notification}"
    by (auto simp: demo_inbox_def demo_notification_def)
  moreover have "\<forall>c. visits ((\<lambda>_. [ntf_ID demo_notification]) c) demo_inbox" using v by simp
  from CountUnread_listing [OF demo_notif_run this v, of demo_json demo_usr 0]
  obtain xs :: "string Notification list" where "length xs = CountUnread [ntf_ID demo_notification] demo_usr demo_inbox"
    "set (map ntf_ID xs) = {nid. \<exists>n. demo_inbox nid = Some n \<and> ntf_RecipientUsrID n = demo_usr
       \<and> ntf_State n = StateUnread}" by blast
  ultimately show ?thesis by (intro exI [of _ xs]) (simp only:)
qed

end
