(* ===== verification/FileMetadata.thy ===== *)
theory FileMetadata
  imports Ids Paging
begin

text \<open>
  \<open>packages/file-metadata\<close>: file records and their lifecycle, after \<open>types.go\<close>, \<open>store.go\<close>,
  \<open>errors.go\<close> and \<open>InMemoryFileMetadataStore\<close> of \<open>inmem.go\<close>.  \<open>RuneCountInString\<close> is the
  function of \<open>unicode/utf8\<close> with its rules for malformed bytes.  A status is the string the code
  keeps, because \<open>UpdateFileMetadata\<close> stores any string a caller passes.  \<open>file_step\<close> restricts the
  runs to callers that pass one of the three statuses.
\<close>

datatype file_error =
    FileNotFound
  | FileInvalidFormat string string
  | FilePrecondition string
  | FileGenerate id_error

fun file_IsInvalidFormat :: "file_error \<Rightarrow> bool" where
  "file_IsInvalidFormat (FileInvalidFormat _ _) = True"
| "file_IsInvalidFormat _ = False"

fun file_IsPreconditionError :: "file_error \<Rightarrow> bool" where
  "file_IsPreconditionError (FilePrecondition _) = True"
| "file_IsPreconditionError _ = False"

definition StatusPending :: string where "StatusPending = ''pending''"
definition StatusActive :: string where "StatusActive = ''active''"
definition StatusDeleted :: string where "StatusDeleted = ''deleted''"

record Checksum =
  cks_Algo :: string
  cks_Value :: string

record FileMetadata =
  fil_ID :: string
  fil_Scope :: string
  fil_OwnerUsrID :: string
  fil_Name :: string
  fil_ContentType :: string
  fil_SizeBytes :: "int option"
  fil_Checksum :: "Checksum option"
  fil_StorageRef :: "string option"
  fil_Status :: string
  fil_CreatedAt :: gotime
  fil_UpdatedAt :: gotime

record CreateFileMetadataInput =
  cfm_Scope :: string
  cfm_OwnerUsrID :: string
  cfm_Name :: string
  cfm_ContentType :: string
  cfm_SizeBytes :: "int option"
  cfm_Checksum :: "Checksum option"
  cfm_StorageRef :: "string option"
  cfm_Status :: string

record UpdateFileMetadataInput =
  ufm_ID :: string
  ufm_Name :: "string option"
  ufm_Status :: "string option"
  ufm_SizeBytes :: "int option"
  ufm_Checksum :: "Checksum option"
  ufm_StorageRef :: "string option"

record ListFileMetadataOptions =
  lfm_Scope :: string
  lfm_OwnerUsrID :: "string option"
  lfm_Status :: "string option"
  lfm_ContentType :: "string option"
  lfm_Cursor :: "string option"
  lfm_Limit :: int

subsection \<open>Counting runes\<close>

definition in_bytes :: "nat \<Rightarrow> nat \<Rightarrow> nat \<Rightarrow> bool" where
  "in_bytes lo hi b \<longleftrightarrow> lo \<le> b \<and> b \<le> hi"

text \<open>The length of the encoding a first byte announces and the range of the second byte.\<close>

definition first_byte :: "nat \<Rightarrow> (nat \<times> nat \<times> nat) option" where
  "first_byte c =
     (if in_bytes 0xC2 0xDF c then Some (2, 0x80, 0xBF)
      else if c = 0xE0 then Some (3, 0xA0, 0xBF)
      else if in_bytes 0xE1 0xEC c then Some (3, 0x80, 0xBF)
      else if c = 0xED then Some (3, 0x80, 0x9F)
      else if in_bytes 0xEE 0xEF c then Some (3, 0x80, 0xBF)
      else if c = 0xF0 then Some (4, 0x90, 0xBF)
      else if in_bytes 0xF1 0xF3 c then Some (4, 0x80, 0xBF)
      else if c = 0xF4 then Some (4, 0x80, 0x8F)
      else None)"

text \<open>How many of the bytes \<open>r\<close> after the first byte \<open>c\<close> belong to its rune.\<close>

definition rune_tail :: "nat \<Rightarrow> nat list \<Rightarrow> nat" where
  "rune_tail c r =
     (if c < 0x80 then 0
      else case first_byte c of
        None \<Rightarrow> 0
      | Some (sz, lo, hi) \<Rightarrow>
          if 1 + length r < sz then 0
          else if \<not> in_bytes lo hi (r ! 0) then 0
          else if sz = 2 then 1
          else if \<not> in_bytes 0x80 0xBF (r ! 1) then 0
          else if sz = 3 then 2
          else if \<not> in_bytes 0x80 0xBF (r ! 2) then 0
          else 3)"

fun rune_count :: "nat list \<Rightarrow> nat" where
  "rune_count [] = 0"
| "rune_count (c # r) = Suc (rune_count (drop (rune_tail c r) r))"

definition RuneCountInString :: "string \<Rightarrow> nat" where
  "RuneCountInString s = rune_count (map of_char s)"

lemma rune_count_le: "rune_count s \<le> length s"
proof (induction s rule: rune_count.induct)
  case (2 c r)
  then show ?case using diff_le_self [of "length r" "rune_tail c r"] by simp
qed simp

lemma rune_count_0 [simp]: "rune_count s = 0 \<longleftrightarrow> s = []"
  by (cases s) auto

lemma rune_count_ascii: "list_all (\<lambda>c. c < 0x80) s \<Longrightarrow> rune_count s = length s"
  by (induction s) (auto simp: rune_tail_def)

subsection \<open>Operations\<close>

definition checksumValueRe :: rx where
  "checksumValueRe = Rng hex_lower 64 (Some 64)"

definition validateChecksum :: "Checksum \<Rightarrow> string \<Rightarrow> file_error option" where
  "validateChecksum c field =
     (if cks_Algo c \<noteq> ''sha-256'' then Some (FileInvalidFormat (field @ ''.algo'') ''must be sha-256'')
      else if \<not> rx_match checksumValueRe (cks_Value c)
      then Some (FileInvalidFormat (field @ ''.value'') ''must be 64 lowercase hex characters'')
      else None)"

text \<open>The checks on the facts about the bytes, in creation and in the step from pending to active.\<close>

definition check_facts :: "int option \<Rightarrow> Checksum option \<Rightarrow> string option \<Rightarrow> file_error option" where
  "check_facts sizeBytes checksum storageRef =
     (if (case sizeBytes of None \<Rightarrow> True | Some n \<Rightarrow> n < 0)
      then Some (FileInvalidFormat ''size_bytes'' ''must be non-negative'')
      else case checksum of
        None \<Rightarrow> Some (FileInvalidFormat ''checksum'' ''must be set'')
      | Some c \<Rightarrow>
          (case validateChecksum c ''checksum'' of
             Some err \<Rightarrow> Some err
           | None \<Rightarrow>
               if (case storageRef of None \<Rightarrow> True | Some r \<Rightarrow> r = [])
               then Some (FileInvalidFormat ''storage_ref'' ''must be non-empty'')
               else None))"

type_synonym file_store = "string \<rightharpoonup> FileMetadata"

definition NewInMemoryFileMetadataStore :: file_store where
  "NewInMemoryFileMetadataStore = Map.empty"

definition CreateFileMetadata ::
  "uuid_lib \<Rightarrow> clock \<Rightarrow> CreateFileMetadataInput \<Rightarrow> file_store \<Rightarrow> (file_error + FileMetadata) \<times> file_store"
where
  "CreateFileMetadata lib clk i s =
     (if \<not> IsValid (cfm_Scope i) [''org'']
      then (Inl (FileInvalidFormat ''scope'' ''must be a valid org_ id''), s)
      else if \<not> IsValid (cfm_OwnerUsrID i) [''usr'']
      then (Inl (FileInvalidFormat ''owner_usr_id'' ''must be a valid usr_ id''), s)
      else if RuneCountInString (cfm_Name i) < 1 \<or> RuneCountInString (cfm_Name i) > 255
      then (Inl (FileInvalidFormat ''name'' ''must be 1-255 Unicode code units''), s)
      else if cfm_ContentType i = []
      then (Inl (FileInvalidFormat ''content_type'' ''must be non-empty''), s)
      else if cfm_Status i \<noteq> StatusPending \<and> cfm_Status i \<noteq> StatusActive
      then (Inl (FileInvalidFormat ''status'' ''create status must be pending or active''), s)
      else case (if cfm_Status i = StatusActive
                 then check_facts (cfm_SizeBytes i) (cfm_Checksum i) (cfm_StorageRef i) else None) of
        Some err \<Rightarrow> (Inl err, s)
      | None \<Rightarrow>
          (case Generate lib 0 ''file'' of
             Inl err \<Rightarrow> (Inl (FileGenerate err), s)
           | Inr fid \<Rightarrow>
               let now = clk 0;
                   f = \<lparr>fil_ID = fid, fil_Scope = cfm_Scope i, fil_OwnerUsrID = cfm_OwnerUsrID i,
                        fil_Name = cfm_Name i, fil_ContentType = cfm_ContentType i,
                        fil_SizeBytes = cfm_SizeBytes i, fil_Checksum = cfm_Checksum i,
                        fil_StorageRef = cfm_StorageRef i, fil_Status = cfm_Status i,
                        fil_CreatedAt = now, fil_UpdatedAt = now\<rparr>
               in (Inr f, s(fid \<mapsto> f))))"

definition GetFileMetadata :: "string \<Rightarrow> file_store \<Rightarrow> file_error + FileMetadata" where
  "GetFileMetadata fid s = (case s fid of None \<Rightarrow> Inl FileNotFound | Some f \<Rightarrow> Inr f)"

definition file_selects :: "ListFileMetadataOptions \<Rightarrow> FileMetadata \<Rightarrow> bool" where
  "file_selects opts f \<longleftrightarrow>
     \<not> (fil_Scope f \<noteq> lfm_Scope opts) \<and>
     \<not> (case lfm_OwnerUsrID opts of None \<Rightarrow> False | Some u \<Rightarrow> fil_OwnerUsrID f \<noteq> u) \<and>
     \<not> (case lfm_Status opts of None \<Rightarrow> False | Some st \<Rightarrow> fil_Status f \<noteq> st) \<and>
     \<not> (case lfm_ContentType opts of None \<Rightarrow> False | Some ct \<Rightarrow> fil_ContentType f \<noteq> ct)"

definition ListFileMetadata ::
  "string list \<Rightarrow> ListFileMetadataOptions \<Rightarrow> file_store \<Rightarrow> FileMetadata page" where
  "ListFileMetadata ks opts s =
     (let limit = page_limit (lfm_Limit opts);
          matching = sort_key fil_ID (filter (file_selects opts) (go_range s ks))
      in paginate_tail fil_ID (lfm_Cursor opts) limit matching)"

text \<open>The part of \<open>UpdateFileMetadata\<close> about status and facts; an error of it leaves the record alone.\<close>

definition update_status :: "UpdateFileMetadataInput \<Rightarrow> FileMetadata \<Rightarrow> file_error + FileMetadata" where
  "update_status i f =
     (case ufm_Status i of
        Some newStatus \<Rightarrow>
          if fil_Status f = StatusDeleted
          then Inl (FilePrecondition ''deleted files cannot be transitioned'')
          else if fil_Status f = StatusActive \<and> newStatus = StatusPending
          then Inl (FilePrecondition ''cannot revert active file to pending'')
          else if fil_Status f = StatusPending \<and> newStatus = StatusActive
          then (case check_facts (ufm_SizeBytes i) (ufm_Checksum i) (ufm_StorageRef i) of
                  Some err \<Rightarrow> Inl err
                | None \<Rightarrow> Inr (f\<lparr>fil_SizeBytes := ufm_SizeBytes i, fil_Checksum := ufm_Checksum i,
                                fil_StorageRef := ufm_StorageRef i, fil_Status := newStatus\<rparr>))
          else Inr (f\<lparr>fil_Status := newStatus\<rparr>)
      | None \<Rightarrow>
          if fil_Status f = StatusActive \<and>
             (ufm_SizeBytes i \<noteq> None \<or> ufm_Checksum i \<noteq> None \<or> ufm_StorageRef i \<noteq> None)
          then Inl (FilePrecondition ''size_bytes, checksum, and storage_ref are immutable once active'')
          else Inr f)"

text \<open>The record is updated through its pointer, so a name that is rejected comes after the new status.\<close>

definition UpdateFileMetadata ::
  "clock \<Rightarrow> UpdateFileMetadataInput \<Rightarrow> file_store \<Rightarrow> (file_error + FileMetadata) \<times> file_store" where
  "UpdateFileMetadata clk i s =
     (case s (ufm_ID i) of
        None \<Rightarrow> (Inl FileNotFound, s)
      | Some f \<Rightarrow>
          (case update_status i f of
             Inl err \<Rightarrow> (Inl err, s)
           | Inr f1 \<Rightarrow>
               (case ufm_Name i of
                  None \<Rightarrow> let f2 = f1\<lparr>fil_UpdatedAt := clk 0\<rparr> in (Inr f2, s(ufm_ID i \<mapsto> f2))
                | Some name \<Rightarrow>
                    if RuneCountInString name < 1 \<or> RuneCountInString name > 255
                    then (Inl (FileInvalidFormat ''name'' ''must be 1-255 Unicode code units''),
                          s(ufm_ID i \<mapsto> f1))
                    else let f2 = f1\<lparr>fil_Name := name, fil_UpdatedAt := clk 0\<rparr>
                         in (Inr f2, s(ufm_ID i \<mapsto> f2)))))"

definition DeleteFileMetadata :: "clock \<Rightarrow> string \<Rightarrow> file_store \<Rightarrow> (file_error + unit) \<times> file_store" where
  "DeleteFileMetadata clk fid s =
     (case s fid of
        None \<Rightarrow> (Inl FileNotFound, s)
      | Some f \<Rightarrow>
          (Inr (), if fil_Status f \<noteq> StatusDeleted
                   then s(fid \<mapsto> f\<lparr>fil_Status := StatusDeleted, fil_UpdatedAt := clk 0\<rparr>) else s))"

lemma file_statuses_distinct [simp]:
  "StatusPending \<noteq> StatusActive" "StatusPending \<noteq> StatusDeleted" "StatusActive \<noteq> StatusDeleted"
  "StatusActive \<noteq> StatusPending" "StatusDeleted \<noteq> StatusPending" "StatusDeleted \<noteq> StatusActive"
  by (simp_all add: StatusPending_def StatusActive_def StatusDeleted_def)

subsection \<open>The lifecycle\<close>

definition facts_ok :: "FileMetadata \<Rightarrow> bool" where
  "facts_ok f \<longleftrightarrow> (\<exists>n c r. fil_SizeBytes f = Some n \<and> 0 \<le> n \<and> fil_Checksum f = Some c \<and>
     cks_Algo c = ''sha-256'' \<and> length (cks_Value c) = 64 \<and> list_all (in_class hex_lower) (cks_Value c) \<and>
     fil_StorageRef f = Some r \<and> r \<noteq> [])"

lemma facts_ok_status [simp]: "facts_ok (f\<lparr>fil_Status := st\<rparr>) = facts_ok f"
  by (simp add: facts_ok_def)

lemma check_facts_ok:
  "check_facts (fil_SizeBytes f) (fil_Checksum f) (fil_StorageRef f) = None \<longleftrightarrow> facts_ok f"
  by (auto simp: check_facts_def validateChecksum_def facts_ok_def checksumValueRe_def
      split: option.split)

definition file_inv :: "file_store \<Rightarrow> bool" where
  "file_inv s \<longleftrightarrow> keyed_by fil_ID s \<and> finite (dom s) \<and> s [] = None \<and>
     (\<forall>fid f. s fid = Some f \<longrightarrow> fil_Status f \<in> {StatusPending, StatusActive, StatusDeleted} \<and>
        (fil_Status f = StatusActive \<longrightarrow> facts_ok f))"

definition same_facts :: "FileMetadata \<Rightarrow> FileMetadata \<Rightarrow> bool" where
  "same_facts a b \<longleftrightarrow> fil_SizeBytes b = fil_SizeBytes a \<and> fil_Checksum b = fil_Checksum a \<and>
     fil_StorageRef b = fil_StorageRef a"

definition file_le :: "FileMetadata \<Rightarrow> FileMetadata \<Rightarrow> bool" where
  "file_le a b \<longleftrightarrow> fil_ID b = fil_ID a \<and> fil_Scope b = fil_Scope a \<and> fil_OwnerUsrID b = fil_OwnerUsrID a \<and>
     fil_ContentType b = fil_ContentType a \<and> fil_CreatedAt b = fil_CreatedAt a \<and>
     (fil_Status a = StatusActive \<longrightarrow> same_facts a b \<and> fil_Status b \<in> {StatusActive, StatusDeleted}) \<and>
     (fil_Status a = StatusDeleted \<longrightarrow> same_facts a b \<and> fil_Status b = StatusDeleted)"

lemma file_le_refl [simp]: "file_le a a"
  by (simp add: file_le_def same_facts_def)

lemma file_le_trans: "file_le a b \<Longrightarrow> file_le b c \<Longrightarrow> file_le a c"
  by (auto simp: file_le_def same_facts_def)

definition status_known :: "UpdateFileMetadataInput \<Rightarrow> bool" where
  "status_known i \<longleftrightarrow> ufm_Status i \<in> {None, Some StatusPending, Some StatusActive, Some StatusDeleted}"

inductive file_step :: "file_store \<Rightarrow> file_store \<Rightarrow> bool" where
  file_step_create: "fresh_for lib 0 ''file'' s \<Longrightarrow> file_step s (snd (CreateFileMetadata lib clk i s))"
| file_step_update: "status_known i \<Longrightarrow> file_step s (snd (UpdateFileMetadata clk i s))"
| file_step_delete: "file_step s (snd (DeleteFileMetadata clk fid s))"

text \<open>The two ways a record is touched: its status and facts move on, or only name and time change.\<close>

definition file_ok :: "FileMetadata \<Rightarrow> bool" where
  "file_ok f \<longleftrightarrow> fil_Status f \<in> {StatusPending, StatusActive, StatusDeleted} \<and>
     (fil_Status f = StatusActive \<longrightarrow> facts_ok f)"

lemma update_status_ok:
  assumes "update_status i f = Inr g" and "status_known i" and "file_ok f"
  shows "file_le f g \<and> file_ok g"
proof -
  have "facts_ok (f\<lparr>fil_SizeBytes := ufm_SizeBytes i, fil_Checksum := ufm_Checksum i,
      fil_StorageRef := ufm_StorageRef i, fil_Status := st\<rparr>)"
    if "check_facts (ufm_SizeBytes i) (ufm_Checksum i) (ufm_StorageRef i) = None" for st
    using that by (simp add: check_facts_ok [symmetric])
  with assms show ?thesis
    by (auto simp: update_status_def status_known_def file_ok_def file_le_def same_facts_def
        split: option.splits if_splits)
qed

lemma file_touch:
  "file_le f (g\<lparr>fil_UpdatedAt := t\<rparr>) = file_le f g" "file_ok (g\<lparr>fil_UpdatedAt := t\<rparr>) = file_ok g"
  "file_le f (g\<lparr>fil_Name := n\<rparr>) = file_le f g" "file_ok (g\<lparr>fil_Name := n\<rparr>) = file_ok g"
  by (simp_all add: file_le_def same_facts_def file_ok_def facts_ok_def)

lemma file_step_cases:
  assumes "file_step s t" and "\<forall>fid f. s fid = Some f \<longrightarrow> file_ok f"
  obtains (same) "t = s"
  | (new) fid f where "t = s(fid \<mapsto> f)" "s fid = None" "fid \<noteq> []" "fil_ID f = fid" "file_ok f"
  | (move) fid f g where "t = s(fid \<mapsto> g)" "s fid = Some f" "file_le f g" "file_ok g"
  using assms(1)
proof (cases rule: file_step.cases)
  case (file_step_create lib clk i)
  show ?thesis
  proof (cases "\<exists>f. fst (CreateFileMetadata lib clk i s) = Inr f")
    case False
    then have "t = s" using file_step_create
      by (auto simp: CreateFileMetadata_def Let_def split: option.splits sum.splits)
    then show ?thesis by (rule same)
  next
    case True
    then obtain fid where g: "Generate lib 0 ''file'' = Inr fid"
      and st: "cfm_Status i = StatusPending \<or> cfm_Status i = StatusActive"
      and fc: "cfm_Status i = StatusActive \<Longrightarrow>
        check_facts (cfm_SizeBytes i) (cfm_Checksum i) (cfm_StorageRef i) = None"
      and t: "t = s(fid \<mapsto> \<lparr>fil_ID = fid, fil_Scope = cfm_Scope i, fil_OwnerUsrID = cfm_OwnerUsrID i,
                        fil_Name = cfm_Name i, fil_ContentType = cfm_ContentType i,
                        fil_SizeBytes = cfm_SizeBytes i, fil_Checksum = cfm_Checksum i,
                        fil_StorageRef = cfm_StorageRef i, fil_Status = cfm_Status i,
                        fil_CreatedAt = clk 0, fil_UpdatedAt = clk 0\<rparr>)" (is "t = s(fid \<mapsto> ?f)")
      using file_step_create(1)
      by (auto simp: CreateFileMetadata_def Let_def split: option.splits sum.splits if_splits)
    have "file_ok ?f" using st fc check_facts_ok [of ?f] by (auto simp: file_ok_def)
    then show ?thesis
      using g file_step_create(2) Generate_nonempty [OF g] by (intro new [OF t]) (auto simp: fresh_for_def)
  qed
next
  case (file_step_update i clk)
  show ?thesis
  proof (cases "s (ufm_ID i)")
    case None
    then show ?thesis using file_step_update by (intro same) (simp add: UpdateFileMetadata_def)
  next
    case (Some f)
    have ok: "file_ok f" using assms(2) Some by blast
    show ?thesis
    proof (cases "update_status i f")
      case (Inl e)
      then show ?thesis using file_step_update Some by (intro same) (simp add: UpdateFileMetadata_def)
    next
      case (Inr g)
      have g: "file_le f g" "file_ok g" using update_status_ok [OF Inr file_step_update(2) ok] by blast+
      have "\<exists>h. t = s(ufm_ID i \<mapsto> h) \<and> file_le f h \<and> file_ok h"
        using file_step_update(1) Some Inr g
        by (cases "ufm_Name i")
          (auto simp: UpdateFileMetadata_def Let_def file_touch intro!: exI conjI)
      then obtain h where "t = s(ufm_ID i \<mapsto> h)" "file_le f h" "file_ok h" by (elim exE conjE)
      then show ?thesis by (intro move [of "ufm_ID i" h f] Some)
    qed
  qed
next
  case (file_step_delete clk fid)
  show ?thesis
  proof (cases "s fid")
    case None
    then show ?thesis using file_step_delete by (intro same) (simp add: DeleteFileMetadata_def)
  next
    case (Some f)
    then show ?thesis
    proof (cases "fil_Status f = StatusDeleted")
      case True
      then show ?thesis using file_step_delete Some by (intro same) (simp add: DeleteFileMetadata_def)
    next
      case False
      then show ?thesis using file_step_delete Some
        by (intro move [of fid "f\<lparr>fil_Status := StatusDeleted, fil_UpdatedAt := clk 0\<rparr>" f])
          (auto simp: DeleteFileMetadata_def file_le_def same_facts_def file_ok_def)
    qed
  qed
qed

lemma file_inv_ok: "file_inv s \<Longrightarrow> \<forall>fid f. s fid = Some f \<longrightarrow> file_ok f"
  by (simp add: file_inv_def file_ok_def)

lemma file_step_inv: "file_step s t \<Longrightarrow> file_inv s \<Longrightarrow> file_inv t"
proof (erule file_step_cases [OF _ file_inv_ok], assumption, goal_cases)
  case (2 fid f)
  then show ?case by (auto simp: file_inv_def keyed_by_def file_ok_def)
next
  case (3 fid f g)
  then have "fil_ID g = fid" "fid \<noteq> []" by (auto simp: file_inv_def keyed_by_def file_le_def)
  with 3 show ?case by (auto simp: file_inv_def keyed_by_def file_ok_def)
qed simp

lemma file_step_le: "file_step s t \<Longrightarrow> file_inv s \<Longrightarrow> s k = Some f \<Longrightarrow> \<exists>g. t k = Some g \<and> file_le f g"
  by (erule file_step_cases [OF _ file_inv_ok], assumption) auto

lemma file_inv_init [simp]: "file_inv NewInMemoryFileMetadataStore"
  by (simp add: file_inv_def NewInMemoryFileMetadataStore_def)

interpretation file_steps: entity_store "\<lambda>s. s = NewInMemoryFileMetadataStore" file_step file_inv
  "\<lambda>s. s" file_le
  by unfold_locales (auto intro: file_le_trans file_step_inv dest: file_step_le)

subsection \<open>Properties\<close>

text \<open>C35: the lifecycle of a file.  As long as callers pass one of the three statuses, an active file
  has a non-negative size, a SHA-256 checksum of 64 hexadecimal digits and a non-empty storage
  reference; in every later state the record is still there with the same scope, owner, content type,
  creation time and the same facts, and it is active or deleted.\<close>

theorem active_file_facts:
  assumes "file_step\<^sup>*\<^sup>* NewInMemoryFileMetadataStore s"
    and "GetFileMetadata fid s = Inr f" and "fil_Status f = StatusActive" and "file_step\<^sup>*\<^sup>* s t"
  shows "facts_ok f \<and> (\<exists>g. GetFileMetadata fid t = Inr g \<and> same_facts f g \<and>
    fil_ID g = fid \<and> fil_Scope g = fil_Scope f \<and> fil_OwnerUsrID g = fil_OwnerUsrID f \<and>
    fil_ContentType g = fil_ContentType f \<and> fil_CreatedAt g = fil_CreatedAt f \<and>
    fil_Status g \<in> {StatusActive, StatusDeleted})"
proof -
  have inv: "file_inv s" using file_steps.inv_reachable [OF refl assms(1)] .
  have f: "s fid = Some f" using assms(2) by (simp add: GetFileMetadata_def split: option.splits)
  then have "fil_ID f = fid" "facts_ok f" using inv assms(3) by (auto simp: file_inv_def keyed_by_def)
  moreover obtain g where "t fid = Some g" "file_le f g"
    using file_steps.entity_run [OF assms(4) inv f] by blast
  ultimately show ?thesis using assms(3) by (simp add: GetFileMetadata_def file_le_def)
qed

definition demo_file_input :: "string \<Rightarrow> CreateFileMetadataInput" where
  "demo_file_input st = \<lparr>cfm_Scope = ''org_0190f2a81b3c7abc8123456789abcdef'',
     cfm_OwnerUsrID = ''usr_0190f2a81b3c7abc8123456789abcdef'', cfm_Name = ''report'',
     cfm_ContentType = ''text/plain'', cfm_SizeBytes = (if st = StatusActive then Some 12 else None),
     cfm_Checksum = (if st = StatusActive
       then Some \<lparr>cks_Algo = ''sha-256'', cks_Value = replicate 64 (CHR ''a'')\<rparr> else None),
     cfm_StorageRef = (if st = StatusActive then Some ''s3://b/k'' else None), cfm_Status = st\<rparr>"

definition demo_file_id :: string where
  "demo_file_id = ''file_0190f2a81b3c7abc8123456789abcdef''"

definition demo_file :: "string \<Rightarrow> FileMetadata" where
  "demo_file st = \<lparr>fil_ID = demo_file_id,
     fil_Scope = ''org_0190f2a81b3c7abc8123456789abcdef'',
     fil_OwnerUsrID = ''usr_0190f2a81b3c7abc8123456789abcdef'', fil_Name = ''report'',
     fil_ContentType = ''text/plain'', fil_SizeBytes = cfm_SizeBytes (demo_file_input st),
     fil_Checksum = cfm_Checksum (demo_file_input st),
     fil_StorageRef = cfm_StorageRef (demo_file_input st), fil_Status = st,
     fil_CreatedAt = 7, fil_UpdatedAt = 7\<rparr>"

definition demo_files :: "string \<Rightarrow> file_store" where
  "demo_files st = snd (CreateFileMetadata (demo_lib ''0190f2a8-1b3c-7abc-8123-456789abcdef'')
     (\<lambda>_. 7) (demo_file_input st) NewInMemoryFileMetadataStore)"

lemma demo_files_file:
  assumes "st = StatusActive \<or> st = StatusPending"
  shows "demo_files st = [demo_file_id \<mapsto> demo_file st]"
proof -
  have "Generate (demo_lib ''0190f2a8-1b3c-7abc-8123-456789abcdef'') 0 ''file''
      = Inr demo_file_id" unfolding demo_file_id_def by code_simp
  moreover have "IsValid (cfm_Scope (demo_file_input st)) [''org'']"
    "IsValid (cfm_OwnerUsrID (demo_file_input st)) [''usr'']"
    unfolding demo_file_input_def by code_simp+
  moreover have "RuneCountInString ''report'' = 6" by code_simp
  moreover have "check_facts (cfm_SizeBytes (demo_file_input StatusActive))
      (cfm_Checksum (demo_file_input StatusActive)) (cfm_StorageRef (demo_file_input StatusActive)) = None"
    by code_simp
  ultimately show ?thesis
    using assms by (auto simp: demo_files_def CreateFileMetadata_def Let_def
        NewInMemoryFileMetadataStore_def) (auto simp: demo_file_def demo_file_input_def)
qed

lemma demo_files_run: "file_step\<^sup>*\<^sup>* NewInMemoryFileMetadataStore (demo_files st)"
  unfolding demo_files_def
  by (intro r_into_rtranclp file_step_create) (simp add: fresh_for_def NewInMemoryFileMetadataStore_def)

theorem active_file_facts_witness:
  "facts_ok (demo_file StatusActive) \<and> (\<exists>g. GetFileMetadata (demo_file_id)
      (snd (DeleteFileMetadata (\<lambda>_. 9) (demo_file_id) (demo_files StatusActive))) = Inr g
    \<and> same_facts (demo_file StatusActive) g)"
proof -
  have g: "GetFileMetadata (demo_file_id) (demo_files StatusActive)
      = Inr (demo_file StatusActive)"
    by (simp add: demo_files_file GetFileMetadata_def)
  have a: "fil_Status (demo_file StatusActive) = StatusActive" by (simp add: demo_file_def)
  have "file_step\<^sup>*\<^sup>* (demo_files StatusActive)
      (snd (DeleteFileMetadata (\<lambda>_. 9) demo_file_id (demo_files StatusActive)))"
    by (intro r_into_rtranclp file_step_delete)
  from active_file_facts [OF demo_files_run g a this] show ?thesis by blast
qed

definition status_update :: "string \<Rightarrow> UpdateFileMetadataInput" where
  "status_update st = \<lparr>ufm_ID = demo_file_id, ufm_Name = None, ufm_Status = Some st,
     ufm_SizeBytes = None, ufm_Checksum = None, ufm_StorageRef = None\<rparr>"

text \<open>\<open>UpdateFileMetadata\<close> accepts any string as a status.  Through one that is none of the three,
  a pending file reaches \<open>active\<close> with neither size nor checksum nor storage reference: both
  updates succeed.\<close>

theorem active_without_facts:
  "let (r1, s1) = UpdateFileMetadata (\<lambda>_. 8) (status_update ''draft'') (demo_files StatusPending);
       (r2, s2) = UpdateFileMetadata (\<lambda>_. 9) (status_update StatusActive) s1
   in (\<exists>f. r1 = Inr f) \<and> (\<exists>f. r2 = Inr f \<and> fil_Status f = StatusActive \<and> \<not> facts_ok f \<and>
        GetFileMetadata (fil_ID f) s2 = Inr f)"
proof -
  have d: "demo_files StatusPending = [demo_file_id \<mapsto> demo_file StatusPending]"
    by (simp add: demo_files_file)
  have n: "''draft'' \<noteq> StatusActive" "''draft'' \<noteq> StatusDeleted" "''draft'' \<noteq> StatusPending"
    by (simp_all add: StatusActive_def StatusDeleted_def StatusPending_def)
  have p: "fil_Status (demo_file StatusPending) = StatusPending"
    "fil_SizeBytes (demo_file StatusPending) = None" "fil_ID (demo_file StatusPending) = demo_file_id"
    by (simp_all add: demo_file_def demo_file_input_def)
  show ?thesis
    using n p by (simp add: UpdateFileMetadata_def d status_update_def update_status_def
        GetFileMetadata_def facts_ok_def Let_def)
qed

text \<open>An update whose name is rejected has already deleted the file.\<close>

lemma UpdateFileMetadata_partial:
  "let (r, s) = UpdateFileMetadata (\<lambda>_. 8) ((status_update StatusDeleted)\<lparr>ufm_Name := Some []\<rparr>)
         (demo_files StatusPending)
   in (\<exists>e. r = Inl e \<and> file_IsInvalidFormat e) \<and>
      (\<exists>f. GetFileMetadata (demo_file_id) s = Inr f \<and> fil_Status f = StatusDeleted)"
proof -
  have d: "demo_files StatusPending = [demo_file_id \<mapsto> demo_file StatusPending]"
    by (simp add: demo_files_file)
  have "fil_Status (demo_file StatusPending) = StatusPending" by (simp add: demo_file_def)
  then show ?thesis
    by (simp add: UpdateFileMetadata_def d status_update_def update_status_def
        GetFileMetadata_def RuneCountInString_def Let_def)
qed

end
