(* ===== verification/AuditLog.thy ===== *)
theory AuditLog
  imports Ids
begin

text \<open>
  \<open>packages/audit\<close>: the append-only audit log, after \<open>types.go\<close>, \<open>store.go\<close>, \<open>errors.go\<close> and
  \<open>InMemoryAuditStore\<close> of \<open>inmem.go\<close>.  An event holds the pointers its caller passed and a map that is handed out
  again, so what the log shares with its callers is modelled: a pointer or a map is an address, and \<open>audit_heap\<close> has
  what the addresses lead to.  The values of the metadata map are of any type \<open>'v\<close>; \<open>marshal\<close> is \<open>json.Marshal\<close> of
  the struct that wraps the metadata (\<open>None\<close> an error); a nil map or pointer is \<open>None\<close>.
\<close>

datatype audit_error =
    AuditNotFound string
  | AuditInvalidFormat string
  | AuditGenerate id_error

fun audit_IsInvalidFormat :: "audit_error \<Rightarrow> bool" where
  "audit_IsInvalidFormat (AuditInvalidFormat _) = True"
| "audit_IsInvalidFormat _ = False"

definition OutcomeSuccess :: string where "OutcomeSuccess = ''success''"
definition OutcomeFailure :: string where "OutcomeFailure = ''failure''"
definition OutcomeDenied :: string where "OutcomeDenied = ''denied''"
definition OutcomePending :: string where "OutcomePending = ''pending''"

definition AuthKindSession :: string where "AuthKindSession = ''session''"
definition AuthKindPat :: string where "AuthKindPat = ''pat''"
definition AuthKindShare :: string where "AuthKindShare = ''share''"
definition AuthKindSystem :: string where "AuthKindSystem = ''system''"

type_synonym addr = nat

record Auth =
  aut_Kind :: string
  aut_SessionID :: "addr option"
  aut_PatID :: "addr option"
  aut_ShareID :: "addr option"
  aut_SystemID :: "addr option"

record OnBehalf = onb_AgentID :: string

record Target =
  tgt_Kind :: string
  tgt_ID :: string

record Scope =
  scp_Kind :: string
  scp_ID :: string

record EventContext =
  ctx_RequestID :: "addr option"
  ctx_IP :: "addr option"
  ctx_UserAgent :: "addr option"

record AuditEvent =
  aev_ID :: string
  aev_OccurredAt :: gotime
  aev_RecordedAt :: gotime
  aev_ActorUsrID :: "addr option"
  aev_Auth :: "addr option"
  aev_OnBehalf :: "addr option"
  aev_Action :: string
  aev_Target :: Target
  aev_Scope :: "addr option"
  aev_Outcome :: string
  aev_Metadata :: addr
  aev_Context :: "addr option"

record WriteInput =
  win_OccurredAt :: gotime
  win_ActorUsrID :: "addr option"
  win_Auth :: "addr option"
  win_OnBehalf :: "addr option"
  win_Action :: string
  win_Target :: Target
  win_Scope :: "addr option"
  win_Outcome :: string
  win_Metadata :: "addr option"
  win_Context :: "addr option"

text \<open>Memory: one function for each kind of cell; the addresses below \<open>ah_next\<close> are in use.\<close>

record 'v audit_heap =
  ah_next :: addr
  ah_string :: "addr \<Rightarrow> string"
  ah_Auth :: "addr \<Rightarrow> Auth"
  ah_OnBehalf :: "addr \<Rightarrow> OnBehalf"
  ah_Scope :: "addr \<Rightarrow> Scope"
  ah_Context :: "addr \<Rightarrow> EventContext"
  ah_map :: "addr \<Rightarrow> (string \<rightharpoonup> 'v)"

definition new_map :: "(string \<rightharpoonup> 'v) \<Rightarrow> 'v audit_heap \<Rightarrow> addr \<times> 'v audit_heap" where
  "new_map m h = (ah_next h, h\<lparr>ah_next := Suc (ah_next h), ah_map := (ah_map h)(ah_next h := m)\<rparr>)"

type_synonym audit_store = "string \<rightharpoonup> AuditEvent"
type_synonym 'v marshal = "(string \<rightharpoonup> 'v) option \<Rightarrow> string option"

definition adopterObjectTypeRe :: rx where
  "adopterObjectTypeRe = Rng az 2 (Some 6)"

definition maxEventBytes :: nat where
  "maxEventBytes = 64 * 1024"

definition NewInMemoryAuditStore :: audit_store where
  "NewInMemoryAuditStore = Map.empty"

subsection \<open>Validation\<close>

definition validate_actor :: "string option \<Rightarrow> audit_error option" where
  "validate_actor actor =
     (case actor of None \<Rightarrow> None
      | Some u \<Rightarrow>
          (case Decode u of
             Inl _ \<Rightarrow> Some (AuditInvalidFormat ''actor_usr_id'')
           | Inr decoded \<Rightarrow>
               if dec_Type decoded \<noteq> ''usr'' then Some (AuditInvalidFormat ''actor_usr_id'') else None))"

definition validate_auth :: "Auth option \<Rightarrow> audit_error option" where
  "validate_auth auth =
     (case auth of None \<Rightarrow> None
      | Some a \<Rightarrow>
          let sidCount = (if aut_SessionID a \<noteq> None then 1 else 0) + (if aut_PatID a \<noteq> None then 1 else 0) +
                (if aut_ShareID a \<noteq> None then 1 else 0) + (if aut_SystemID a \<noteq> None then 1 else (0::nat))
          in if sidCount \<noteq> 1 then Some (AuditInvalidFormat ''auth'')
             else if aut_Kind a = AuthKindSession
             then (if aut_SessionID a = None then Some (AuditInvalidFormat ''auth'') else None)
             else if aut_Kind a = AuthKindPat
             then (if aut_PatID a = None then Some (AuditInvalidFormat ''auth'') else None)
             else if aut_Kind a = AuthKindShare
             then (if aut_ShareID a = None then Some (AuditInvalidFormat ''auth'') else None)
             else if aut_Kind a = AuthKindSystem
             then (if aut_SystemID a = None then Some (AuditInvalidFormat ''auth'') else None)
             else Some (AuditInvalidFormat ''auth''))"

definition validateWrite :: "'v marshal \<Rightarrow> 'v audit_heap \<Rightarrow> WriteInput \<Rightarrow> audit_error option" where
  "validateWrite marshal h i =
     (if win_Outcome i \<notin> {OutcomeSuccess, OutcomeFailure, OutcomeDenied, OutcomePending}
      then Some (AuditInvalidFormat ''outcome'')
      else case validate_actor (map_option (ah_string h) (win_ActorUsrID i)) of
        Some err \<Rightarrow> Some err
      | None \<Rightarrow>
          (case validate_auth (map_option (ah_Auth h) (win_Auth i)) of
             Some err \<Rightarrow> Some err
           | None \<Rightarrow>
               if tgt_Kind (win_Target i) \<noteq> [] \<and> Types (tgt_Kind (win_Target i)) = None \<and>
                  \<not> rx_match adopterObjectTypeRe (tgt_Kind (win_Target i))
               then Some (AuditInvalidFormat ''target.kind'')
               else (case marshal (map_option (ah_map h) (win_Metadata i)) of
                       None \<Rightarrow> None
                     | Some raw \<Rightarrow> if length raw > maxEventBytes
                                    then Some (AuditInvalidFormat ''size'') else None)))"

text \<open>The metadata map is copied into a new one; the pointers are stored as they come, and the event that is
  returned shares both with the one that is stored.\<close>

definition Write ::
  "'v marshal \<Rightarrow> uuid_lib \<Rightarrow> clock \<Rightarrow> WriteInput \<Rightarrow> 'v audit_heap \<Rightarrow> audit_store \<Rightarrow>
   (audit_error + AuditEvent) \<times> 'v audit_heap \<times> audit_store" where
  "Write marshal lib clk i h s =
     (case validateWrite marshal h i of
        Some err \<Rightarrow> (Inl err, h, s)
      | None \<Rightarrow>
          (case Generate lib 0 ''aud'' of
             Inl err \<Rightarrow> (Inl (AuditGenerate err), h, s)
           | Inr audID \<Rightarrow>
               let now = clk 0;
                   (meta, h') = new_map (case win_Metadata i of None \<Rightarrow> Map.empty | Some m \<Rightarrow> ah_map h m) h;
                   ev = \<lparr>aev_ID = audID, aev_OccurredAt = win_OccurredAt i, aev_RecordedAt = now,
                         aev_ActorUsrID = win_ActorUsrID i, aev_Auth = win_Auth i,
                         aev_OnBehalf = win_OnBehalf i, aev_Action = win_Action i,
                         aev_Target = win_Target i, aev_Scope = win_Scope i,
                         aev_Outcome = win_Outcome i, aev_Metadata = meta, aev_Context = win_Context i\<rparr>
               in (Inr ev, h', s(audID \<mapsto> ev))))"

definition Get :: "string \<Rightarrow> audit_store \<Rightarrow> audit_error + AuditEvent" where
  "Get audID s = (case s audID of None \<Rightarrow> Inl (AuditNotFound audID) | Some ev \<Rightarrow> Inr ev)"

subsection \<open>What a written event satisfies\<close>

definition auth_ids :: "Auth \<Rightarrow> (string \<times> addr) list" where
  "auth_ids a = concat (map (\<lambda>(k, v). case v of None \<Rightarrow> [] | Some x \<Rightarrow> [(k, x)])
     [(AuthKindSession, aut_SessionID a), (AuthKindPat, aut_PatID a), (AuthKindShare, aut_ShareID a),
      (AuthKindSystem, aut_SystemID a)])"

definition actor_ok :: "string option \<Rightarrow> bool" where
  "actor_ok actor \<longleftrightarrow> (case actor of None \<Rightarrow> True | Some u \<Rightarrow> IsValid u [''usr''])"

definition auth_ok :: "Auth option \<Rightarrow> bool" where
  "auth_ok auth \<longleftrightarrow> (case auth of None \<Rightarrow> True | Some a \<Rightarrow> \<exists>x. auth_ids a = [(aut_Kind a, x)])"

definition target_ok :: "Target \<Rightarrow> bool" where
  "target_ok t \<longleftrightarrow> tgt_Kind t = [] \<or> Types (tgt_Kind t) \<noteq> None \<or>
     (2 \<le> length (tgt_Kind t) \<and> length (tgt_Kind t) \<le> 6 \<and> list_all (in_class az) (tgt_Kind t))"

lemma kinds_distinct [simp]:
  "AuthKindSession \<noteq> AuthKindPat" "AuthKindSession \<noteq> AuthKindShare" "AuthKindSession \<noteq> AuthKindSystem"
  "AuthKindPat \<noteq> AuthKindShare" "AuthKindPat \<noteq> AuthKindSystem" "AuthKindShare \<noteq> AuthKindSystem"
  "AuthKindPat \<noteq> AuthKindSession" "AuthKindShare \<noteq> AuthKindSession" "AuthKindSystem \<noteq> AuthKindSession"
  "AuthKindShare \<noteq> AuthKindPat" "AuthKindSystem \<noteq> AuthKindPat" "AuthKindSystem \<noteq> AuthKindShare"
  by (simp_all add: AuthKindSession_def AuthKindPat_def AuthKindShare_def AuthKindSystem_def)

lemma validate_actor_ok: "validate_actor actor = None \<longleftrightarrow> actor_ok actor"
  by (auto simp: validate_actor_def actor_ok_def IsValid_def split: option.split sum.split)

lemma validate_auth_ok: "validate_auth auth = None \<longleftrightarrow> auth_ok auth"
proof (cases auth)
  case (Some a)
  then show ?thesis
    by (cases "aut_SessionID a"; cases "aut_PatID a"; cases "aut_ShareID a"; cases "aut_SystemID a")
      (auto simp: validate_auth_def auth_ok_def auth_ids_def)
qed (simp add: validate_auth_def auth_ok_def)

lemma validateWrite_ok:
  "validateWrite marshal h i = None \<longleftrightarrow>
     win_Outcome i \<in> {OutcomeSuccess, OutcomeFailure, OutcomeDenied, OutcomePending} \<and>
     actor_ok (map_option (ah_string h) (win_ActorUsrID i)) \<and> auth_ok (map_option (ah_Auth h) (win_Auth i)) \<and>
     target_ok (win_Target i) \<and>
     (\<forall>raw. marshal (map_option (ah_map h) (win_Metadata i)) = Some raw \<longrightarrow> length raw \<le> maxEventBytes)"
  unfolding validateWrite_def target_ok_def validate_actor_ok [symmetric] validate_auth_ok [symmetric]
  by (auto simp: adopterObjectTypeRe_def not_less split: option.split)

subsection \<open>What an event shows\<close>

definition opt_list :: "'a option \<Rightarrow> 'a list" where
  "opt_list x = (case x of None \<Rightarrow> [] | Some y \<Rightarrow> [y])"

definition auth_addrs :: "Auth \<Rightarrow> addr list" where
  "auth_addrs a = concat (map opt_list [aut_SessionID a, aut_PatID a, aut_ShareID a, aut_SystemID a])"

definition ctx_addrs :: "EventContext \<Rightarrow> addr list" where
  "ctx_addrs c = concat (map opt_list [ctx_RequestID c, ctx_IP c, ctx_UserAgent c])"

text \<open>The addresses of pointers, and those behind an \<open>Auth\<close> and an \<open>EventContext\<close>.\<close>

definition cells :: "'v audit_heap \<Rightarrow> addr option \<Rightarrow> addr option \<Rightarrow> addr option \<Rightarrow> addr option \<Rightarrow> addr option \<Rightarrow> addr set" where
  "cells h actor auth onBehalf scope ctx =
     set (concat (map opt_list [actor, auth, onBehalf, scope, ctx])) \<union>
     set (case auth of None \<Rightarrow> [] | Some a \<Rightarrow> auth_addrs (ah_Auth h a)) \<union>
     set (case ctx of None \<Rightarrow> [] | Some a \<Rightarrow> ctx_addrs (ah_Context h a))"

definition event_cells :: "'v audit_heap \<Rightarrow> AuditEvent \<Rightarrow> addr set" where
  "event_cells h ev = insert (aev_Metadata ev)
     (cells h (aev_ActorUsrID ev) (aev_Auth ev) (aev_OnBehalf ev) (aev_Scope ev) (aev_Context ev))"

definition input_allocated :: "'v audit_heap \<Rightarrow> WriteInput \<Rightarrow> bool" where
  "input_allocated h i \<longleftrightarrow>
     (\<forall>a \<in> cells h (win_ActorUsrID i) (win_Auth i) (win_OnBehalf i) (win_Scope i) (win_Context i). a < ah_next h)"

text \<open>What a reader of an event finds when every pointer is followed.\<close>

record 'v event_view =
  vw_ID :: string
  vw_OccurredAt :: gotime
  vw_RecordedAt :: gotime
  vw_Action :: string
  vw_Target :: Target
  vw_Outcome :: string
  vw_ActorUsrID :: "string option"
  vw_Auth :: "(string \<times> string option list) option"
  vw_OnBehalf :: "OnBehalf option"
  vw_Scope :: "Scope option"
  vw_Metadata :: "string \<rightharpoonup> 'v"
  vw_Context :: "string option list option"

definition view :: "'v audit_heap \<Rightarrow> AuditEvent \<Rightarrow> 'v event_view" where
  "view h ev = \<lparr>vw_ID = aev_ID ev, vw_OccurredAt = aev_OccurredAt ev, vw_RecordedAt = aev_RecordedAt ev,
     vw_Action = aev_Action ev, vw_Target = aev_Target ev, vw_Outcome = aev_Outcome ev,
     vw_ActorUsrID = map_option (ah_string h) (aev_ActorUsrID ev),
     vw_Auth = map_option (\<lambda>a. let u = ah_Auth h a in (aut_Kind u, map (map_option (ah_string h))
        [aut_SessionID u, aut_PatID u, aut_ShareID u, aut_SystemID u])) (aev_Auth ev),
     vw_OnBehalf = map_option (ah_OnBehalf h) (aev_OnBehalf ev), vw_Scope = map_option (ah_Scope h) (aev_Scope ev),
     vw_Metadata = ah_map h (aev_Metadata ev),
     vw_Context = map_option (\<lambda>a. let c = ah_Context h a in map (map_option (ah_string h))
        [ctx_RequestID c, ctx_IP c, ctx_UserAgent c]) (aev_Context ev)\<rparr>"

definition same_cell :: "'v audit_heap \<Rightarrow> 'v audit_heap \<Rightarrow> addr \<Rightarrow> bool" where
  "same_cell h h' a \<longleftrightarrow> ah_string h' a = ah_string h a \<and> ah_Auth h' a = ah_Auth h a \<and> ah_OnBehalf h' a = ah_OnBehalf h a \<and>
     ah_Scope h' a = ah_Scope h a \<and> ah_Context h' a = ah_Context h a \<and> ah_map h' a = ah_map h a"

lemma cells_simps [simp]:
  "set (opt_list x) = set_option x" "set (auth_addrs u) = set_option (aut_SessionID u) \<union> set_option (aut_PatID u) \<union>
     set_option (aut_ShareID u) \<union> set_option (aut_SystemID u)"
  "set (ctx_addrs c) = set_option (ctx_RequestID c) \<union> set_option (ctx_IP c) \<union> set_option (ctx_UserAgent c)"
  by (auto simp: opt_list_def auth_addrs_def ctx_addrs_def split: option.split)

lemma same_cells_event:
  assumes "\<forall>a \<in> event_cells h ev. same_cell h h' a"
  shows "view h' ev = view h ev" and "event_cells h' ev = event_cells h ev"
  using assms
  by (cases "aev_ActorUsrID ev"; cases "aev_Auth ev"; cases "aev_OnBehalf ev"; cases "aev_Scope ev"; cases "aev_Context ev";
      auto simp: view_def event_cells_def cells_def same_cell_def Let_def intro!: option.map_cong0)+

subsection \<open>Runs\<close>


text \<open>
  Steps of the log and of the code around it.  \<open>audit_caller\<close>: a caller allocates what it likes and writes through the
  pointers and maps it holds, to addresses in \<open>W\<close> or to new ones.
\<close>

inductive audit_step :: "addr set \<Rightarrow> 'v audit_heap \<times> audit_store \<Rightarrow> 'v audit_heap \<times> audit_store \<Rightarrow> bool" for W where
  audit_write: "fresh_for lib 0 ''aud'' s \<Longrightarrow> Write marshal lib clk i h s = (r, h', s') \<Longrightarrow> audit_step W (h, s) (h', s')"
| audit_caller: "ah_next h \<le> ah_next h' \<Longrightarrow> \<forall>a < ah_next h. a \<notin> W \<longrightarrow> same_cell h h' a \<Longrightarrow> audit_step W (h, s) (h', s)"

inductive_cases audit_step_pair: "audit_step W (h, s) (h', s')"

lemma Write_Inr:
  assumes "Write marshal lib clk i h s = (Inr ev, h', s')"
  shows "validateWrite marshal h i = None" and "Generate lib 0 ''aud'' = Inr (aev_ID ev)"
    and "s' = s(aev_ID ev \<mapsto> ev)" and "aev_RecordedAt ev = clk 0" and "aev_Outcome ev = win_Outcome i"
    and "aev_ActorUsrID ev = win_ActorUsrID i" and "aev_Auth ev = win_Auth i" and "aev_Target ev = win_Target i"
    and "aev_Metadata ev = ah_next h" and "ah_next h' = Suc (ah_next h)"
    and "ah_map h' = (ah_map h)(ah_next h := (case win_Metadata i of None \<Rightarrow> Map.empty | Some m \<Rightarrow> ah_map h m))"
    and "ah_string h' = ah_string h" and "ah_Auth h' = ah_Auth h"
    and "event_cells h' ev = insert (ah_next h) (cells h (win_ActorUsrID i) (win_Auth i) (win_OnBehalf i) (win_Scope i) (win_Context i))"
  using assms by (auto simp: Write_def new_map_def Let_def event_cells_def cells_def split: option.splits sum.splits)

lemma Write_heap:
  assumes "Write marshal lib clk i h s = (r, h', s')"
  shows "ah_next h \<le> ah_next h'" and "a < ah_next h \<Longrightarrow> same_cell h h' a"
  using assms by (auto simp: Write_def new_map_def Let_def same_cell_def split: option.splits sum.splits)

lemma Write_store:
  assumes "Write marshal lib clk i h s = (r, h', s')"
  obtains (same) "s' = s" | (new) ev where "Generate lib 0 ''aud'' = Inr (aev_ID ev)" "s' = s(aev_ID ev \<mapsto> ev)"
proof (cases r)
  case (Inl e)
  then show ?thesis using assms same by (auto simp: Write_def Let_def split: option.splits sum.splits prod.splits)
next
  case (Inr ev)
  then show ?thesis using Write_Inr(2,3) [OF assms [unfolded Inr]] new by blast
qed

lemma audit_step_store:
  assumes "audit_step W x y"
  obtains (same) "snd y = snd x" | (new) ev where "snd x (aev_ID ev) = None" "snd y = (snd x)(aev_ID ev \<mapsto> ev)"
  using assms
proof (cases rule: audit_step.cases)
  case (audit_write lib s marshal clk i h r h' s')
  from audit_write(4) show ?thesis
    by (cases rule: Write_store) (use audit_write(1-3) same new in \<open>auto simp: fresh_for_def\<close>)
qed (use same in auto)

interpretation audit_steps: entity_store "\<lambda>x. snd x = NewInMemoryAuditStore" "audit_step W" "\<lambda>x. keyed_by aev_ID (snd x)"
  snd "(=)" for W
  by unfold_locales (auto simp: NewInMemoryAuditStore_def elim!: audit_step_store)

text \<open>An event whose cells nobody writes to reads the same after any number of steps.\<close>

lemma audit_step_cell: "audit_step W x y \<Longrightarrow> a < ah_next (fst x) \<Longrightarrow> a \<notin> W \<Longrightarrow> same_cell (fst x) (fst y) a \<and> a < ah_next (fst y)"
proof (induction rule: audit_step.induct)
  case (audit_write lib s marshal clk i h r h' s')
  then show ?case using Write_heap [OF audit_write(2)] by simp
qed auto

lemma audit_run_event:
  assumes "(audit_step W)\<^sup>*\<^sup>* x y" and "event_cells (fst x) ev \<inter> W = {}" and "\<forall>a \<in> event_cells (fst x) ev. a < ah_next (fst x)"
  shows "view (fst y) ev = view (fst x) ev"
proof -
  have "view (fst y) ev = view (fst x) ev \<and> event_cells (fst y) ev = event_cells (fst x) ev \<and>
      (\<forall>a \<in> event_cells (fst x) ev. a < ah_next (fst y))"
    using assms(1)
  proof (induction rule: rtranclp_induct)
    case (step y z)
    then have "\<forall>a \<in> event_cells (fst y) ev. same_cell (fst y) (fst z) a \<and> a < ah_next (fst z)"
      using audit_step_cell [OF step(2)] assms(2) by blast
    then show ?case using step.IH same_cells_event [of "fst y" ev "fst z"] by simp
  qed (use assms(3) in simp)
  then show ?thesis by simp
qed

subsection \<open>Properties\<close>

text \<open>C36: the log is append-only and holds valid events only.  An accepted \<open>Write\<close> changes no memory in use, stores an
  event under a fresh identifier with the store's own time, a copy of the metadata in a map of its own, and an actor,
  credential, target and outcome as the event shape demands.  In every later state \<open>Get\<close> returns the same struct
  for it, and for every event before it; and following its pointers shows what they showed when it was written,
  unless a caller has written to them: through the pointers it passed, or to the map that \<open>Write\<close> and \<open>Get\<close> hand out.\<close>

theorem audit_append_only:
  assumes "fresh_for lib 0 ''aud'' s" and "input_allocated h i" and "Write marshal lib clk i h s = (Inr ev, h', s')"
    and "(audit_step UNIV)\<^sup>*\<^sup>* (h0, NewInMemoryAuditStore) (h, s)" and "(audit_step W)\<^sup>*\<^sup>* (h', s') (h'', t)"
  shows "Get (aev_ID ev) t = Inr ev \<and> s (aev_ID ev) = None \<and> (\<forall>k ev0. Get k s = Inr ev0 \<longrightarrow> Get k t = Inr ev0) \<and>
    (event_cells h' ev \<inter> W = {} \<longrightarrow> view h'' ev = view h' ev) \<and>
    (\<forall>a < ah_next h. same_cell h h' a) \<and> ah_next h \<le> aev_Metadata ev \<and>
    vw_Metadata (view h' ev) = (case win_Metadata i of None \<Rightarrow> Map.empty | Some m \<Rightarrow> ah_map h m) \<and>
    aev_RecordedAt ev = clk 0 \<and>
    aev_Outcome ev \<in> {OutcomeSuccess, OutcomeFailure, OutcomeDenied, OutcomePending} \<and>
    actor_ok (vw_ActorUsrID (view h' ev)) \<and> auth_ok (map_option (ah_Auth h') (aev_Auth ev)) \<and> target_ok (aev_Target ev)"
proof -
  note w = Write_Inr [OF assms(3)]
  have new: "s (aev_ID ev) = None" using assms(1) w(2) by (simp add: fresh_for_def)
  have inv: "keyed_by aev_ID (snd (h', s'))" unfolding w(3) snd_conv
    by (rule keyed_by_upd [OF _ refl]) (use audit_steps.inv_reachable [OF _ assms(4)] in simp)
  have keep: "s' k = Some e \<Longrightarrow> t k = Some e" for k e
    using audit_steps.entity_run [OF assms(5) inv, of k e] by simp
  have "t (aev_ID ev) = Some ev" using keep w(3) by simp
  moreover have "\<forall>k ev0. s k = Some ev0 \<longrightarrow> t k = Some ev0"
    using keep w(3) new by (metis fun_upd_apply option.distinct(1))
  moreover have "\<forall>a \<in> event_cells h' ev. a < ah_next h'"
    using assms(2) unfolding w(14) by (auto simp: w(10) input_allocated_def)
  then have "event_cells h' ev \<inter> W = {} \<longrightarrow> view h'' ev = view h' ev"
    using audit_run_event [OF assms(5), of ev] by simp
  moreover have "view h' ev = view h' ev \<and> vw_Metadata (view h' ev) = (case win_Metadata i of None \<Rightarrow> Map.empty | Some m \<Rightarrow> ah_map h m)"
    "vw_ActorUsrID (view h' ev) = map_option (ah_string h) (win_ActorUsrID i)" by (simp_all add: view_def w)
  ultimately show ?thesis
    using w new validateWrite_ok [of marshal h i] Write_heap(2) [OF assms(3)] by (auto simp: Get_def split: option.splits)
qed

text \<open>A log with one cell of each kind: an authentication by token and a metadata map, which the caller empties later.\<close>

definition demo_heap :: "nat audit_heap" where
  "demo_heap = \<lparr>ah_next = 3, ah_string = (\<lambda>_. ''pat_1''),
     ah_Auth = (\<lambda>_. \<lparr>aut_Kind = AuthKindPat, aut_SessionID = None, aut_PatID = Some 1, aut_ShareID = None, aut_SystemID = None\<rparr>),
     ah_OnBehalf = (\<lambda>_. \<lparr>onb_AgentID = []\<rparr>), ah_Scope = (\<lambda>_. \<lparr>scp_Kind = [], scp_ID = []\<rparr>),
     ah_Context = (\<lambda>_. \<lparr>ctx_RequestID = None, ctx_IP = None, ctx_UserAgent = None\<rparr>), ah_map = (\<lambda>_. [''n'' \<mapsto> 5])\<rparr>"

definition demo_write :: WriteInput where
  "demo_write = \<lparr>win_OccurredAt = 3, win_ActorUsrID = None, win_Auth = Some 0,
     win_OnBehalf = None, win_Action = ''login'', win_Target = \<lparr>tgt_Kind = ''usr'', tgt_ID = ''u''\<rparr>,
     win_Scope = None, win_Outcome = OutcomeDenied, win_Metadata = Some 2, win_Context = None\<rparr>"

theorem audit_append_only_witness:
  "\<exists>ev h' s'. Write (\<lambda>_. Some ''{}'') (demo_lib ''0190f2a8-1b3c-7abc-8123-456789abcdef'') (\<lambda>_. 7)
      demo_write demo_heap NewInMemoryAuditStore = (Inr ev, h', s') \<and> Get (aev_ID ev) s' = Inr ev \<and>
      vw_Metadata (view (h'\<lparr>ah_map := (ah_map h')(2 := Map.empty)\<rparr>) ev) = [''n'' \<mapsto> 5]"
proof -
  let ?lib = "demo_lib ''0190f2a8-1b3c-7abc-8123-456789abcdef''"
  have "validateWrite (\<lambda>_. Some ''{}'') demo_heap demo_write = None"
    by (simp add: validateWrite_ok maxEventBytes_def demo_write_def demo_heap_def actor_ok_def auth_ok_def auth_ids_def
        target_ok_def Types_def type_table_def)
  moreover have "Generate ?lib 0 ''aud'' = Inr ''aud_0190f2a81b3c7abc8123456789abcdef''" by code_simp
  ultimately obtain ev h' s' where w: "Write (\<lambda>_. Some ''{}'') ?lib (\<lambda>_. 7) demo_write demo_heap NewInMemoryAuditStore
      = (Inr ev, h', s')"
    by (simp add: Write_def Let_def new_map_def)
  let ?h = "h'\<lparr>ah_map := (ah_map h')(2 := Map.empty)\<rparr>"
  have f: "fresh_for ?lib 0 ''aud'' NewInMemoryAuditStore"
    by (simp add: fresh_for_def NewInMemoryAuditStore_def)
  have i: "input_allocated demo_heap demo_write"
    by (simp add: input_allocated_def cells_def demo_heap_def demo_write_def)
  have "audit_step {2} (h', s') (?h, s')"
    by (rule audit_caller) (simp_all add: same_cell_def)
  then have run: "(audit_step {2})\<^sup>*\<^sup>* (h', s') (?h, s')" by (rule r_into_rtranclp)
  have "event_cells h' ev \<inter> {2} = {}"
    using Write_Inr(14) [OF w] by (simp add: cells_def demo_heap_def demo_write_def)
  then have "Get (aev_ID ev) s' = Inr ev" "view ?h ev = view h' ev"
    "vw_Metadata (view h' ev) = (case win_Metadata demo_write of None \<Rightarrow> Map.empty | Some m \<Rightarrow> ah_map demo_heap m)"
    using audit_append_only [OF f i w rtranclp.rtrancl_refl run] by blast+
  then have "vw_Metadata (view ?h ev) = [''n'' \<mapsto> 5]" by (simp add: demo_write_def demo_heap_def)
  with w \<open>Get (aev_ID ev) s' = Inr ev\<close> show ?thesis by blast
qed

text \<open>The log is not immutable for its callers: writing to the metadata map of the event that \<open>Write\<close> returns changes the
  event that \<open>Get\<close> returns.\<close>

theorem audit_metadata_shared:
  assumes "Write marshal lib clk i h s = (Inr ev, h', s')"
  shows "audit_step {aev_Metadata ev} (h', s') (h'\<lparr>ah_map := (ah_map h')(aev_Metadata ev := m)\<rparr>, s') \<and>
    Get (aev_ID ev) s' = Inr ev \<and> vw_Metadata (view (h'\<lparr>ah_map := (ah_map h')(aev_Metadata ev := m)\<rparr>) ev) = m"
proof
  show "audit_step {aev_Metadata ev} (h', s') (h'\<lparr>ah_map := (ah_map h')(aev_Metadata ev := m)\<rparr>, s')"
    by (rule audit_caller) (simp_all add: same_cell_def)
qed (simp add: Get_def view_def Write_Inr(3) [OF assms])

end
