(* ===== verification/TenancyTypes.thy ===== *)
theory TenancyTypes
  imports Ids Paging
begin

text \<open>
  \<open>packages/tenancy\<close>: the records of \<open>types.go\<close>, the options of \<open>store.go\<close>, the errors of
  \<open>errors.go\<close>, and the state \<open>tenancy\<close> with the fields of \<open>InMemoryTenancyStore\<close>.  The string
  enumerations that only the store sets are datatypes; \<open>StZero\<close> is the empty status of a zero
  record (and stands for any other text in a filter).  A \<open>Role\<close> stays a string, because
  \<open>AddMember\<close>, \<open>ChangeRole\<close> and \<open>CreateInvitation\<close> accept any.
\<close>

type_synonym Role = string

definition RoleOwner :: Role where "RoleOwner = ''owner''"
definition RoleAdmin :: Role where "RoleAdmin = ''admin''"
definition RoleMember :: Role where "RoleMember = ''member''"
definition RoleGuest :: Role where "RoleGuest = ''guest''"
definition RoleViewer :: Role where "RoleViewer = ''viewer''"
definition RoleEditor :: Role where "RoleEditor = ''editor''"

definition AdminRank :: "Role \<Rightarrow> nat" where
  "AdminRank r =
     (if r = RoleOwner then 4 else if r = RoleAdmin then 3 else if r = RoleMember then 2
      else if r = RoleGuest then 1 else 0)"

datatype Status = StActive | StSuspended | StRevoked | StZero

datatype InvitationStatus = InvPending | InvAccepted | InvDeclined | InvRevoked | InvExpired

record Organization =
  org_ID :: string
  org_Status :: Status
  org_CreatedAt :: gotime
  org_UpdatedAt :: gotime
  org_Name :: "string option"
  org_Slug :: "string option"

definition WithStatus :: "Organization \<Rightarrow> Status \<Rightarrow> gotime \<Rightarrow> Organization" where
  "WithStatus o1 st at = o1\<lparr>org_Status := st, org_UpdatedAt := at\<rparr>"

record Membership =
  mem_ID :: string
  mem_UsrID :: string
  mem_OrgID :: string
  mem_Role :: Role
  mem_Status :: Status
  mem_Replaces :: "string option"
  mem_InvitedBy :: "string option"
  mem_RemovedBy :: "string option"
  mem_CreatedAt :: gotime
  mem_UpdatedAt :: gotime

definition zero_instant :: gotime where
  "zero_instant = - 62135596800 * second_ns"

definition zero_Membership :: Membership where
  "zero_Membership = \<lparr>mem_ID = [], mem_UsrID = [], mem_OrgID = [], mem_Role = [], mem_Status = StZero,
     mem_Replaces = None, mem_InvitedBy = None, mem_RemovedBy = None, mem_CreatedAt = zero_instant,
     mem_UpdatedAt = zero_instant\<rparr>"

record TenTuple =
  tt_SubjectType :: string
  tt_SubjectID :: string
  tt_Relation :: string
  tt_ObjectType :: string
  tt_ObjectID :: string

record PreTuple =
  pt_Relation :: string
  pt_ObjectType :: string
  pt_ObjectID :: string

record Invitation =
  inv_ID :: string
  inv_OrgID :: string
  inv_Identifier :: string
  inv_Role :: Role
  inv_Status :: InvitationStatus
  inv_PreTuples :: "PreTuple list"
  inv_InvitedBy :: string
  inv_InvitedUserID :: "string option"
  inv_CreatedAt :: gotime
  inv_ExpiresAt :: gotime
  inv_TerminalAt :: "gotime option"
  inv_TerminalBy :: "string option"

record CreateOrgResult =
  cor_Org :: Organization
  cor_OwnerMembership :: Membership

record TransferOwnershipResult =
  tor_FromMembership :: Membership
  tor_ToMembership :: Membership

record AcceptInvitationResult =
  air_Invitation :: Invitation
  air_Membership :: Membership
  air_MaterializedTuples :: "TenTuple list"

record UpdateOrgInput =
  uoi_Name :: "string option"
  uoi_Slug :: "string option"
  uoi_ClearName :: bool
  uoi_ClearSlug :: bool

record CreateOrgOptions =
  coo_Name :: "string option"
  coo_Slug :: "string option"

record ListMembersOptions =
  lmo_Cursor :: "string option"
  lmo_Limit :: int
  lmo_Status :: "Status option"

record ListInvitationsOptions =
  lio_Cursor :: "string option"
  lio_Limit :: int
  lio_Status :: "InvitationStatus option"

record AcceptInvitationOptions =
  aio_AsUsrID :: "string option"
  aio_AcceptingIdentifier :: "string option"

record ListOrgsOptions =
  loo_Cursor :: "string option"
  loo_Limit :: int
  loo_Query :: "string option"
  loo_Status :: "Status option"

subsection \<open>Errors\<close>

datatype ten_error =
    TenNotFound string
  | TenDuplicateMembership
  | TenOrgSlugConflict string
  | TenSoleOwner
  | TenAlreadyTerminal
  | TenInvitationNotPending
  | TenInvitationExpired
  | TenForbidden
  | TenIdentifierBindingRequired
  | TenIdentifierMismatch
  | TenRoleHierarchy
  | TenPrecondition string
  | TenGenerate id_error

text \<open>\<open>ErrorCode\<close> sees the sentinels; a \<open>PreconditionError\<close> has its own \<open>Code\<close> method.\<close>

fun ten_ErrorCode :: "ten_error \<Rightarrow> string" where
  "ten_ErrorCode (TenNotFound _) = ''not_found''"
| "ten_ErrorCode TenDuplicateMembership = ''conflict.duplicate_membership''"
| "ten_ErrorCode (TenOrgSlugConflict _) = ''conflict.slug_taken''"
| "ten_ErrorCode TenSoleOwner = ''precondition.sole_owner''"
| "ten_ErrorCode TenAlreadyTerminal = ''already_terminal''"
| "ten_ErrorCode TenInvitationNotPending = ''invitation_not_pending''"
| "ten_ErrorCode TenInvitationExpired = ''invitation_expired''"
| "ten_ErrorCode TenForbidden = ''forbidden''"
| "ten_ErrorCode TenIdentifierBindingRequired = ''identifier_binding_required''"
| "ten_ErrorCode TenIdentifierMismatch = ''identifier_mismatch''"
| "ten_ErrorCode TenRoleHierarchy = ''precondition.role_hierarchy''"
| "ten_ErrorCode (TenPrecondition _) = []"
| "ten_ErrorCode (TenGenerate _) = []"

definition ten_PreconditionCode :: "string \<Rightarrow> string" where
  "ten_PreconditionCode reason = ''precondition.'' @ reason"

fun ten_IsNotFound :: "ten_error \<Rightarrow> bool" where
  "ten_IsNotFound (TenNotFound _) = True"
| "ten_IsNotFound _ = False"

fun ten_IsOrgSlugConflict :: "ten_error \<Rightarrow> bool" where
  "ten_IsOrgSlugConflict (TenOrgSlugConflict _) = True"
| "ten_IsOrgSlugConflict _ = False"

fun ten_IsDuplicateMembership :: "ten_error \<Rightarrow> bool" where
  "ten_IsDuplicateMembership TenDuplicateMembership = True"
| "ten_IsDuplicateMembership _ = False"

subsection \<open>The state\<close>

record tenancy =
  ten_orgs :: "string \<rightharpoonup> Organization"
  ten_memberships :: "string \<rightharpoonup> Membership"
  ten_invitations :: "string \<rightharpoonup> Invitation"
  ten_tuples :: "string \<rightharpoonup> TenTuple"
  ten_orgBySlug :: "string \<rightharpoonup> string"
  ten_activeMemByOrgUsr :: "string \<rightharpoonup> string"

definition NewInMemoryTenancyStore :: tenancy where
  "NewInMemoryTenancyStore =
     \<lparr>ten_orgs = Map.empty, ten_memberships = Map.empty, ten_invitations = Map.empty,
      ten_tuples = Map.empty, ten_orgBySlug = Map.empty, ten_activeMemByOrgUsr = Map.empty\<rparr>"

definition slugRe :: rx where
  "slugRe = Cat (Rng (az @ digits09) 1 (Some 1))
     (Opt (Cat (Rng (az @ digits09 @ single (CHR ''-'')) 0 (Some 61)) (Rng (az @ digits09) 1 (Some 1))))"

definition validateSlug :: "string \<Rightarrow> ten_error option" where
  "validateSlug slug = (if \<not> rx_match slugRe slug then Some (TenPrecondition ''invalid_slug'') else None)"

definition tupleKey :: "TenTuple \<Rightarrow> string" where
  "tupleKey t = tt_SubjectType t @ ''|'' @ tt_SubjectID t @ ''|'' @ tt_Relation t @ ''|'' @
     tt_ObjectType t @ ''|'' @ tt_ObjectID t"

definition orgUsrKey :: "string \<Rightarrow> string \<Rightarrow> string" where
  "orgUsrKey orgID usrID = orgID @ ''|'' @ usrID"

text \<open>The tuple that a role in an organization stands for.\<close>

definition role_tuple :: "string \<Rightarrow> Role \<Rightarrow> string \<Rightarrow> TenTuple" where
  "role_tuple usrID role orgID = \<lparr>tt_SubjectType = ''usr'', tt_SubjectID = usrID,
     tt_Relation = role, tt_ObjectType = ''org'', tt_ObjectID = orgID\<rparr>"

definition mem_tuple :: "Membership \<Rightarrow> TenTuple" where
  "mem_tuple m = role_tuple (mem_UsrID m) (mem_Role m) (mem_OrgID m)"

definition mem_index_key :: "Membership \<Rightarrow> string" where
  "mem_index_key m = orgUsrKey (mem_OrgID m) (mem_UsrID m)"

text \<open>The writes the methods share: adding an active membership with its index entry and tuple, and
  taking the index entry and the tuple of a membership away.\<close>

definition put_member :: "string \<Rightarrow> Membership \<Rightarrow> tenancy \<Rightarrow> tenancy" where
  "put_member memID m s = s\<lparr>
     ten_memberships := (ten_memberships s)(memID \<mapsto> m),
     ten_activeMemByOrgUsr := (ten_activeMemByOrgUsr s)(mem_index_key m \<mapsto> memID),
     ten_tuples := (ten_tuples s)(tupleKey (mem_tuple m) \<mapsto> mem_tuple m)\<rparr>"

definition drop_member :: "string \<Rightarrow> Membership \<Rightarrow> Membership \<Rightarrow> tenancy \<Rightarrow> tenancy" where
  "drop_member memID old m s = s\<lparr>
     ten_memberships := (ten_memberships s)(memID \<mapsto> m),
     ten_activeMemByOrgUsr := (ten_activeMemByOrgUsr s)(mem_index_key old := None),
     ten_tuples := (ten_tuples s)(tupleKey (mem_tuple old) := None)\<rparr>"

lemma put_member_sel [simp]:
  "ten_orgs (put_member k m s) = ten_orgs s"
  "ten_orgBySlug (put_member k m s) = ten_orgBySlug s"
  "ten_invitations (put_member k m s) = ten_invitations s"
  "ten_memberships (put_member k m s) = (ten_memberships s)(k \<mapsto> m)"
  "ten_activeMemByOrgUsr (put_member k m s) = (ten_activeMemByOrgUsr s)(mem_index_key m \<mapsto> k)"
  "ten_tuples (put_member k m s) = (ten_tuples s)(tupleKey (mem_tuple m) \<mapsto> mem_tuple m)"
  by (simp_all add: put_member_def)

lemma drop_member_sel [simp]:
  "ten_orgs (drop_member k old m s) = ten_orgs s"
  "ten_orgBySlug (drop_member k old m s) = ten_orgBySlug s"
  "ten_invitations (drop_member k old m s) = ten_invitations s"
  "ten_memberships (drop_member k old m s) = (ten_memberships s)(k \<mapsto> m)"
  "ten_activeMemByOrgUsr (drop_member k old m s) = (ten_activeMemByOrgUsr s)(mem_index_key old := None)"
  "ten_tuples (drop_member k old m s) = (ten_tuples s)(tupleKey (mem_tuple old) := None)"
  by (simp_all add: drop_member_def)

text \<open>Keys of an organization without the separator determine organization and user.\<close>

lemma orgUsrKey_inj:
  "CHR ''|'' \<notin> set o1 \<Longrightarrow> CHR ''|'' \<notin> set o2 \<Longrightarrow>
   orgUsrKey o1 u1 = orgUsrKey o2 u2 \<longleftrightarrow> o1 = o2 \<and> u1 = u2"
  by (simp add: orgUsrKey_def first_separator)

text \<open>The slug grammar: 1 to 63 lower-case letters, digits and hyphens, no hyphen at either end.\<close>

lemma wrapped_lang:
  "s \<in> {u @ v |u v. u \<in> {[c] |c. P c} \<and> v \<in> insert [] {m @ w |m w. m \<in> M \<and> w \<in> {[d] |d. P d}}}
   \<longleftrightarrow> (\<exists>c. P c \<and> (s = [c] \<or> (\<exists>m d. s = c # m @ [d] \<and> m \<in> M \<and> P d)))"
proof
  assume "\<exists>c. P c \<and> (s = [c] \<or> (\<exists>m d. s = c # m @ [d] \<and> m \<in> M \<and> P d))"
  then obtain c where c: "P c" "s = [c] \<or> (\<exists>m d. s = c # m @ [d] \<and> m \<in> M \<and> P d)" by blast
  from c(2) show "s \<in> {u @ v |u v. u \<in> {[c] |c. P c} \<and> v \<in> insert [] {m @ w |m w. m \<in> M \<and> w \<in> {[d] |d. P d}}}"
  proof (elim disjE exE conjE)
    fix m d
    assume "s = c # m @ [d]" "m \<in> M" "P d"
    then show ?thesis using c(1)
      by - (rule CollectI, rule exI [of _ "[c]"], rule exI [of _ "m @ [d]"], intro conjI, simp, blast, blast)
  qed (use c(1) in force)
qed auto

lemma one_char_lang: "rx_lang (Rng cs 1 (Some 1)) = {[c] |c. in_class cs c}"
proof -
  have "u \<in> rx_lang (Rng cs 1 (Some 1)) \<longleftrightarrow> u \<in> {[c] |c. in_class cs c}" for u
    by (cases u) auto
  then show ?thesis by blast
qed

lemma slug_grammar:
  "validateSlug s = None \<longleftrightarrow> 1 \<le> length s \<and> length s \<le> 63 \<and>
     list_all (in_class (az @ digits09 @ single (CHR ''-''))) s \<and> hd s \<noteq> CHR ''-'' \<and> last s \<noteq> CHR ''-''"
proof -
  let ?Q = "in_class (az @ digits09 @ single (CHR ''-''))"
  have cl: "in_class (az @ digits09) c \<longleftrightarrow> ?Q c \<and> c \<noteq> CHR ''-''" for c
    by (auto simp: class_defs)
  have "rx_match slugRe s \<longleftrightarrow> (\<exists>c. in_class (az @ digits09) c \<and> (s = [c] \<or>
      (\<exists>m d. s = c # m @ [d] \<and> m \<in> {m. length m \<le> 61 \<and> list_all ?Q m} \<and> in_class (az @ digits09) d)))"
    unfolding wrapped_lang [symmetric] rx_match_lang slugRe_def rx_lang.simps(3,4) one_char_lang
    by (simp del: in_class_append)
  also have "\<dots> \<longleftrightarrow> 1 \<le> length s \<and> length s \<le> 63 \<and> list_all ?Q s \<and> hd s \<noteq> CHR ''-'' \<and> last s \<noteq> CHR ''-''"
  proof (cases s)
    case (Cons c r)
    show ?thesis
    proof (cases r rule: rev_cases)
      case Nil
      then show ?thesis using Cons unfolding cl by (simp del: in_class_append)
    next
      case (snoc m d)
      then show ?thesis using Cons unfolding cl by (simp del: in_class_append) blast
    qed
  qed simp
  finally show ?thesis by (simp add: validateSlug_def)
qed

end
