(* ===== verification/GoText.thy ===== *)
theory GoText
  imports Encoding
begin

text \<open>
  The text functions of Go's library that the identity package uses: decimal printing and
  \<open>strconv.ParseUint\<close>/\<open>strconv.Atoi\<close> (base 10), \<open>strings.Split\<close>/\<open>strings.SplitN\<close> at one
  character, the ASCII part of \<open>strings.ToUpper\<close> and \<open>strings.TrimSpace\<close>, and the decoders of
  \<open>encoding/base64\<close>, with the round trips against the encoders.
\<close>

subsection \<open>Decimal numbers\<close>

definition digit :: "nat \<Rightarrow> char" where
  "digit n = ''0123456789'' ! n"

fun decimal :: "nat \<Rightarrow> string" where
  "decimal n = (if n < 10 then [digit n] else decimal (n div 10) @ [digit (n mod 10)])"

declare decimal.simps [simp del]

definition is_digit :: "char \<Rightarrow> bool" where
  "is_digit c \<longleftrightarrow> CHR ''0'' \<le> c \<and> c \<le> CHR ''9''"

definition digit_value :: "char \<Rightarrow> nat" where
  "digit_value c = of_char c - 48"

definition number :: "string \<Rightarrow> nat" where
  "number s = foldl (\<lambda>n c. n * 10 + digit_value c) 0 s"

definition ParseUint :: "nat \<Rightarrow> string \<Rightarrow> nat option" where
  "ParseUint bits s =
     (if s = [] \<or> \<not> list_all is_digit s then None
      else if number s < 2 ^ bits then Some (number s) else None)"

definition Atoi :: "string \<Rightarrow> int option" where
  "Atoi s =
     (let (neg, body) = (case s of [] \<Rightarrow> (False, [])
        | c # cs \<Rightarrow> if c = CHR ''-'' then (True, cs) else if c = CHR ''+'' then (False, cs) else (False, s))
      in if body = [] \<or> \<not> list_all is_digit body then None
         else let v = (if neg then - int (number body) else int (number body))
              in if - max_int64 - 1 \<le> v \<and> v \<le> max_int64 then Some v else None)"

lemma all_digits: "(\<forall>n < 10. P n) \<longleftrightarrow> P 0 \<and> P 1 \<and> P 2 \<and> P 3 \<and> P 4 \<and> P 5 \<and> P 6 \<and> P 7 \<and> P 8 \<and> P (9::nat)"
  by (simp add: eval_nat_numeral All_less_Suc conj_ac)

lemma digit_ok:
  assumes "n < 10"
  shows "is_digit (digit n)" "digit_value (digit n) = n"
proof -
  have "\<forall>n < 10. is_digit (digit n) \<and> digit_value (digit n) = n"
    unfolding all_digits by (simp add: digit_def is_digit_def digit_value_def less_eq_char_def)
  with assms show "is_digit (digit n)" "digit_value (digit n) = n" by auto
qed

lemma decimal_digits: "list_all is_digit (decimal n)" "decimal n \<noteq> []"
proof -
  show "list_all is_digit (decimal n)"
  proof (induction n rule: decimal.induct)
    case (1 n)
    then show ?case by (subst decimal.simps) (simp add: digit_ok)
  qed
  show "decimal n \<noteq> []" by (subst decimal.simps) simp
qed

lemma number_decimal [simp]: "number (decimal n) = n"
proof (induction n rule: decimal.induct)
  case (1 n)
  then show ?case by (subst decimal.simps) (simp add: digit_ok number_def)
qed

lemma ParseUint_decimal: "n < 2 ^ bits \<Longrightarrow> ParseUint bits (decimal n) = Some n"
  by (simp add: ParseUint_def decimal_digits)

lemma Atoi_decimal: "int n \<le> max_int64 \<Longrightarrow> Atoi (decimal n) = Some (int n)"
proof -
  assume n: "int n \<le> max_int64"
  obtain c cs where c: "decimal n = c # cs" using decimal_digits(2) by (cases "decimal n") auto
  then have "is_digit c" using decimal_digits(1) [of n] by simp
  then have "c \<noteq> CHR ''-''" "c \<noteq> CHR ''+''" by (auto simp: is_digit_def less_eq_char_def)
  then show ?thesis
    using n decimal_digits(1) [of n] c number_decimal [of n] by (simp add: Atoi_def max_int64_def)
qed

lemma decimal_length: "n < 10 ^ d \<Longrightarrow> 0 < d \<Longrightarrow> length (decimal n) \<le> d"
proof (induction n arbitrary: d rule: decimal.induct)
  case (1 n)
  show ?case
  proof (cases "n < 10")
    case True
    then show ?thesis using 1 by (subst decimal.simps) simp
  next
    case False
    then obtain e where e: "d = Suc e" "0 < e"
      using 1(2,3) by (cases d; cases "d - 1") auto
    then have "n div 10 < 10 ^ e" using 1(2) by (simp add: less_mult_imp_div_less mult.commute)
    from 1(1) [OF False this e(2)] show ?thesis
      using False e by (subst decimal.simps) simp
  qed
qed

subsection \<open>Splitting\<close>

fun split_at :: "char \<Rightarrow> string \<Rightarrow> string list" where
  "split_at sep [] = [[]]"
| "split_at sep (c # cs) =
     (if c = sep then [] # split_at sep cs
      else case split_at sep cs of [] \<Rightarrow> [[c]] | w # ws \<Rightarrow> (c # w) # ws)"

fun cut :: "char \<Rightarrow> string \<Rightarrow> (string \<times> string) option" where
  "cut sep [] = None"
| "cut sep (c # cs) =
     (if c = sep then Some ([], cs) else map_option (\<lambda>(w, r). (c # w, r)) (cut sep cs))"

text \<open>\<open>strings.SplitN\<close> with at most \<open>n + 1\<close> parts.\<close>

fun split_n :: "nat \<Rightarrow> char \<Rightarrow> string \<Rightarrow> string list" where
  "split_n 0 sep s = [s]"
| "split_n (Suc n) sep s = (case cut sep s of None \<Rightarrow> [s] | Some (w, r) \<Rightarrow> w # split_n n sep r)"

lemma split_at_nonempty [simp]: "split_at sep s \<noteq> []"
  by (induction s) (auto split: list.split)

lemma split_at_none [simp]: "sep \<notin> set w \<Longrightarrow> split_at sep w = [w]"
  by (induction w) auto

lemma split_at_cons: "sep \<notin> set w \<Longrightarrow> split_at sep (w @ sep # r) = w # split_at sep r"
  by (induction w) auto

lemma cut_cons: "sep \<notin> set w \<Longrightarrow> cut sep (w @ sep # r) = Some (w, r)"
  by (induction w) auto

lemma cut_Some: "cut sep s = Some (w, r) \<longleftrightarrow> s = w @ sep # r \<and> sep \<notin> set w"
proof (induction s arbitrary: w)
  case (Cons c s)
  then show ?case by (cases w) auto
qed simp

text \<open>\<open>strings.Contains\<close>.\<close>

fun Contains :: "string \<Rightarrow> string \<Rightarrow> bool" where
  "Contains [] sub = (sub = [])"
| "Contains (c # cs) sub = (take (length sub) (c # cs) = sub \<or> Contains cs sub)"

subsection \<open>Decoding base64\<close>

text \<open>
  \<open>encoding/base64\<close> skips line breaks, ignores the unused bits of the last character and takes a
  quantum of two or three characters at the end, unpadded (\<open>RawStdEncoding\<close>) or padded with the
  equality sign to four (\<open>URLEncoding\<close>).
\<close>

fun index_in :: "string \<Rightarrow> char \<Rightarrow> nat option" where
  "index_in [] c = None"
| "index_in (a # as) c = (if a = c then Some 0 else map_option Suc (index_in as c))"

fun unsextets :: "nat list \<Rightarrow> nat list" where
  "unsextets (a # b # c # d # r) =
     (a * 4 + b div 16) # (b mod 16 * 16 + c div 4) # (c mod 4 * 64 + d) # unsextets r"
| "unsextets [a, b, c] = [a * 4 + b div 16, b mod 16 * 16 + c div 4]"
| "unsextets [a, b] = [a * 4 + b div 16]"
| "unsextets _ = []"

definition no_breaks :: "string \<Rightarrow> string" where
  "no_breaks s = filter (\<lambda>c. c \<noteq> CHR 0x0A \<and> c \<noteq> CHR 0x0D) s"

definition decode_sextets :: "string \<Rightarrow> string \<Rightarrow> string option" where
  "decode_sextets alphabet t = map_option (\<lambda>ns. map char_of (unsextets ns)) (those (map (index_in alphabet) t))"

definition RawStdEncoding_DecodeString :: "string \<Rightarrow> string option" where
  "RawStdEncoding_DecodeString s =
     (let t = no_breaks s in if length t mod 4 = 1 then None else decode_sextets stdAlphabet t)"

definition URLEncoding_DecodeString :: "string \<Rightarrow> string option" where
  "URLEncoding_DecodeString s =
     (let t = no_breaks s; body = takeWhile (\<lambda>c. c \<noteq> CHR ''='') t; rest = dropWhile (\<lambda>c. c \<noteq> CHR ''='') t
      in if length t mod 4 \<noteq> 0 \<or> rest \<notin> {[], ''='', ''==''} then None else decode_sextets urlAlphabet body)"

definition RawStdEncoding_EncodeToString :: "string \<Rightarrow> string" where
  "RawStdEncoding_EncodeToString = base64_raw stdAlphabet"

lemma index_in_nth: "distinct as \<Longrightarrow> n < length as \<Longrightarrow> index_in as (as ! n) = Some n"
proof (induction as arbitrary: n)
  case (Cons a as)
  show ?case
  proof (cases n)
    case (Suc m)
    with Cons show ?thesis by auto
  qed simp
qed simp

lemma those_index: "distinct as \<Longrightarrow> list_all (\<lambda>n. n < length as) ns \<Longrightarrow>
   those (map (index_in as) (map (\<lambda>n. as ! n) ns)) = Some ns"
  by (induction ns) (auto simp: index_in_nth)

lemma join_parts: "b < k * m \<Longrightarrow> (a mod j * k + b div m) mod k = b div m" for a :: nat
  by (simp add: less_mult_imp_div_less)

lemma unsextets_sextets: "list_all (\<lambda>n. n < 256) xs \<Longrightarrow> unsextets (sextets xs) = xs"
proof (induction xs rule: sextets.induct)
  case (2 a)
  then show ?case by simp
next
  case (3 a b)
  then have b: "b < 16 * 16" by simp
  have "(a mod 4 * 16 + b div 16) div 16 = a mod 4" "(a mod 4 * 16 + b div 16) mod 16 = b div 16"
    using b by (simp_all add: less_mult_imp_div_less)
  then show ?case by (simp add: mult.commute)
next
  case (4 a b c r)
  then have b: "b < 16 * 16" "c < 4 * 64" by simp_all
  have "(a mod 4 * 16 + b div 16) div 16 = a mod 4" "(a mod 4 * 16 + b div 16) mod 16 = b div 16"
    "(b mod 16 * 4 + c div 64) div 4 = b mod 16" "(b mod 16 * 4 + c div 64) mod 4 = c div 64"
    using b by (simp_all add: less_mult_imp_div_less)
  then show ?case using 4 by (simp add: mult.commute)
qed simp

lemma length_sextets: "length (sextets xs) mod 4 \<noteq> 1"
proof (induction xs rule: sextets.induct)
  case (4 a b c r)
  then show ?case by (simp add: mod_Suc)
qed simp_all

lemma decode_base64_raw:
  assumes "distinct alphabet" and "length alphabet = 64"
  shows "decode_sextets alphabet (base64_raw alphabet s) = Some s"
proof -
  have l: "list_all (\<lambda>n. n < 256) (map (of_char :: char \<Rightarrow> nat) s)" by (simp add: list_all_iff)
  show ?thesis
    using those_index [OF assms(1), of "sextets (map of_char s)"] sextets_less [OF l] assms(2)
      unsextets_sextets [OF l]
    by (simp add: decode_sextets_def base64_raw_def comp_def)
qed

lemma set_base64_raw: "length alphabet = 64 \<Longrightarrow> set (base64_raw alphabet s) \<subseteq> set alphabet"
proof -
  assume a: "length alphabet = 64"
  have "list_all (\<lambda>n. n < 256) (map (of_char :: char \<Rightarrow> nat) s)" by (simp add: list_all_iff)
  from sextets_less [OF this] show ?thesis using a by (auto simp: base64_raw_def list_all_iff)
qed

lemma alphabets:
  "distinct stdAlphabet" "length stdAlphabet = 64" "distinct urlAlphabet" "length urlAlphabet = 64"
  "CHR 0x0A \<notin> set stdAlphabet" "CHR 0x0D \<notin> set stdAlphabet" "CHR ''$'' \<notin> set stdAlphabet"
  "CHR 0x0A \<notin> set urlAlphabet" "CHR 0x0D \<notin> set urlAlphabet" "CHR ''='' \<notin> set urlAlphabet"
  by (simp_all add: stdAlphabet_def urlAlphabet_def)

lemma no_breaks_id: "CHR 0x0A \<notin> set s \<Longrightarrow> CHR 0x0D \<notin> set s \<Longrightarrow> no_breaks s = s"
  unfolding no_breaks_def by (rule filter_True) auto

lemma RawStd_roundtrip: "RawStdEncoding_DecodeString (RawStdEncoding_EncodeToString s) = Some s"
proof -
  have "no_breaks (base64_raw stdAlphabet s) = base64_raw stdAlphabet s"
    using set_base64_raw [OF alphabets(2), of s] alphabets(5,6) by (intro no_breaks_id) blast+
  moreover have "length (base64_raw stdAlphabet s) mod 4 \<noteq> 1"
    using length_sextets [of "map of_char s"] by (simp add: base64_raw_def)
  ultimately show ?thesis
    using decode_base64_raw [OF alphabets(1,2), of s]
    by (simp add: RawStdEncoding_DecodeString_def RawStdEncoding_EncodeToString_def)
qed

lemma RawStd_no_dollar: "CHR ''$'' \<notin> set (RawStdEncoding_EncodeToString s)"
  using set_base64_raw [OF alphabets(2), of s] alphabets(7) by (auto simp: RawStdEncoding_EncodeToString_def)

end
