(* ===== verification/TenancyOrgs.thy ===== *)
theory TenancyOrgs
  imports TenancyTypes GoText
begin

text \<open>
  \<open>packages/tenancy/inmem.go\<close>, organizations.  Each method takes and returns the state; \<open>clk n\<close>
  is the n-th reading of the clock in the call, \<open>ks\<close> the order in which the runtime visits the map
  it ranges over.  A method that fails after it has written returns the state it has reached.
  \<open>lower\<close> is \<open>strings.ToLower\<close>.
\<close>

definition CreateOrg ::
  "uuid_lib \<Rightarrow> clock \<Rightarrow> string \<Rightarrow> CreateOrgOptions \<Rightarrow> tenancy \<Rightarrow> (ten_error + CreateOrgResult) \<times> tenancy"
where
  "CreateOrg lib clk creator opts s =
     (case (case coo_Slug opts of None \<Rightarrow> None
            | Some slug \<Rightarrow>
                (case validateSlug slug of Some err \<Rightarrow> Some err
                 | None \<Rightarrow> if ten_orgBySlug s slug \<noteq> None then Some (TenOrgSlugConflict slug) else None)) of
        Some err \<Rightarrow> (Inl err, s)
      | None \<Rightarrow>
          (case Generate lib 0 ''org'' of
             Inl err \<Rightarrow> (Inl (TenGenerate err), s)
           | Inr orgID \<Rightarrow>
               let now = clk 0;
                   org = \<lparr>org_ID = orgID, org_Status = StActive, org_CreatedAt = now,
                          org_UpdatedAt = now, org_Name = coo_Name opts, org_Slug = coo_Slug opts\<rparr>;
                   s1 = s\<lparr>ten_orgs := (ten_orgs s)(orgID \<mapsto> org),
                          ten_orgBySlug := (case coo_Slug opts of None \<Rightarrow> ten_orgBySlug s
                             | Some slug \<Rightarrow> (ten_orgBySlug s)(slug \<mapsto> orgID))\<rparr>
               in case Generate lib 1 ''mem'' of
                    Inl err \<Rightarrow> (Inl (TenGenerate err), s1)
                  | Inr memID \<Rightarrow>
                      let mem = \<lparr>mem_ID = memID, mem_UsrID = creator, mem_OrgID = orgID,
                                 mem_Role = RoleOwner, mem_Status = StActive, mem_Replaces = None,
                                 mem_InvitedBy = None, mem_RemovedBy = None,
                                 mem_CreatedAt = now, mem_UpdatedAt = now\<rparr>
                      in (Inr \<lparr>cor_Org = org, cor_OwnerMembership = mem\<rparr>, put_member memID mem s1)))"

definition GetOrg :: "string \<Rightarrow> tenancy \<Rightarrow> ten_error + Organization" where
  "GetOrg orgID s = (case ten_orgs s orgID of None \<Rightarrow> Inl (TenNotFound orgID) | Some o1 \<Rightarrow> Inr o1)"

definition rename_org :: "UpdateOrgInput \<Rightarrow> Organization \<Rightarrow> Organization" where
  "rename_org i o0 =
     (if uoi_ClearName i then o0\<lparr>org_Name := None\<rparr>
      else case uoi_Name i of None \<Rightarrow> o0 | Some n \<Rightarrow> o0\<lparr>org_Name := Some n\<rparr>)"

lemma rename_org_sel [simp]:
  "org_ID (rename_org i o0) = org_ID o0" "org_Slug (rename_org i o0) = org_Slug o0"
  "org_Status (rename_org i o0) = org_Status o0" "org_CreatedAt (rename_org i o0) = org_CreatedAt o0"
  by (auto simp: rename_org_def split: option.split)

definition UpdateOrg ::
  "clock \<Rightarrow> string \<Rightarrow> UpdateOrgInput \<Rightarrow> tenancy \<Rightarrow> (ten_error + Organization) \<times> tenancy" where
  "UpdateOrg clk orgID i s =
     (case ten_orgs s orgID of
        None \<Rightarrow> (Inl (TenNotFound orgID), s)
      | Some o0 \<Rightarrow>
          if org_Status o0 = StRevoked then (Inl TenAlreadyTerminal, s)
          else
            let o1 = rename_org i o0;
                unslug = (case org_Slug o1 of None \<Rightarrow> ten_orgBySlug s
                          | Some old \<Rightarrow> (ten_orgBySlug s)(old := None));
                finish = (\<lambda>o2 idx. let o3 = o2\<lparr>org_UpdatedAt := clk 0\<rparr>
                            in (Inr o3, s\<lparr>ten_orgs := (ten_orgs s)(orgID \<mapsto> o3), ten_orgBySlug := idx\<rparr>))
            in if uoi_ClearSlug i then finish (o1\<lparr>org_Slug := None\<rparr>) unslug
               else case uoi_Slug i of
                 None \<Rightarrow> finish o1 (ten_orgBySlug s)
               | Some newSlug \<Rightarrow>
                   (case validateSlug newSlug of
                      Some err \<Rightarrow> (Inl err, s)
                    | None \<Rightarrow>
                        if (case ten_orgBySlug s newSlug of None \<Rightarrow> False | Some existing \<Rightarrow> existing \<noteq> orgID)
                        then (Inl (TenOrgSlugConflict newSlug), s)
                        else finish (o1\<lparr>org_Slug := Some newSlug\<rparr>) (unslug(newSlug \<mapsto> orgID))))"

text \<open>The cascade of a revocation; \<open>n\<close> counts the readings of the clock.\<close>

fun revoke_members :: "clock \<Rightarrow> string \<Rightarrow> nat \<Rightarrow> string list \<Rightarrow> tenancy \<Rightarrow> tenancy" where
  "revoke_members clk orgID n [] s = s"
| "revoke_members clk orgID n (mid # ks) s =
     (case ten_memberships s mid of
        None \<Rightarrow> revoke_members clk orgID n ks s
      | Some m \<Rightarrow>
          if mem_OrgID m = orgID \<and> mem_Status m = StActive
          then revoke_members clk orgID (Suc n) ks
                 (drop_member mid m (m\<lparr>mem_Status := StRevoked, mem_UpdatedAt := clk n\<rparr>) s)
          else revoke_members clk orgID n ks s)"

definition transitionOrg ::
  "clock \<Rightarrow> string list \<Rightarrow> string \<Rightarrow> Status \<Rightarrow> tenancy \<Rightarrow> (ten_error + Organization) \<times> tenancy" where
  "transitionOrg clk ks orgID to s =
     (case ten_orgs s orgID of
        None \<Rightarrow> (Inl (TenNotFound orgID), s)
      | Some o0 \<Rightarrow>
          if org_Status o0 = StRevoked then (Inl TenAlreadyTerminal, s)
          else if to = StActive \<and> org_Status o0 \<noteq> StSuspended
          then (Inl (TenPrecondition ''invalid_transition''), s)
          else
            let o1 = WithStatus o0 to (clk 0);
                s1 = s\<lparr>ten_orgs := (ten_orgs s)(orgID \<mapsto> o1)\<rparr>
            in if to = StRevoked
               then let s2 = revoke_members clk orgID 1 ks s1
                    in (Inr o1, case org_Slug o1 of None \<Rightarrow> s2
                          | Some slug \<Rightarrow> s2\<lparr>ten_orgBySlug := (ten_orgBySlug s2)(slug := None)\<rparr>)
               else (Inr o1, s1))"

definition SuspendOrg :: "clock \<Rightarrow> string \<Rightarrow> tenancy \<Rightarrow> (ten_error + Organization) \<times> tenancy" where
  "SuspendOrg clk orgID s = transitionOrg clk [] orgID StSuspended s"

definition ReinstateOrg :: "clock \<Rightarrow> string \<Rightarrow> tenancy \<Rightarrow> (ten_error + Organization) \<times> tenancy" where
  "ReinstateOrg clk orgID s = transitionOrg clk [] orgID StActive s"

definition RevokeOrg ::
  "clock \<Rightarrow> string list \<Rightarrow> string \<Rightarrow> tenancy \<Rightarrow> (ten_error + Organization) \<times> tenancy" where
  "RevokeOrg clk ks orgID s = transitionOrg clk ks orgID StRevoked s"

definition org_selects :: "(string \<Rightarrow> string) \<Rightarrow> ListOrgsOptions \<Rightarrow> Organization \<Rightarrow> bool" where
  "org_selects lower opts o1 \<longleftrightarrow>
     \<not> (case loo_Status opts of None \<Rightarrow> False | Some st \<Rightarrow> org_Status o1 \<noteq> st) \<and>
     (let queryLower = (case loo_Query opts of None \<Rightarrow> [] | Some q \<Rightarrow> lower q);
          hit = (\<lambda>field. case field of None \<Rightarrow> False | Some x \<Rightarrow> Contains (lower x) queryLower)
      in queryLower \<noteq> [] \<longrightarrow> hit (org_Name o1) \<or> hit (org_Slug o1))"

definition org_before :: "Organization \<Rightarrow> Organization \<Rightarrow> bool" where
  "org_before a b \<longleftrightarrow> org_ID a < org_ID b"

definition ListOrgs ::
  "(string \<Rightarrow> string) \<Rightarrow> string list \<Rightarrow> ListOrgsOptions \<Rightarrow> tenancy \<Rightarrow> Organization page option" where
  "ListOrgs lower ks opts s =
     (let limit = page_limit (loo_Limit opts);
          matched = filter (org_selects lower opts) (go_range (ten_orgs s) ks)
      in paginate org_ID (loo_Cursor opts) limit (go_sort org_before matched))"

subsection \<open>The cascade\<close>

definition cascade_hit :: "string \<Rightarrow> Membership \<Rightarrow> bool" where
  "cascade_hit orgID m \<longleftrightarrow> mem_OrgID m = orgID \<and> mem_Status m = StActive"

lemma revoke_members_frame [simp]:
  "ten_orgs (revoke_members clk orgID n ks s) = ten_orgs s"
  "ten_orgBySlug (revoke_members clk orgID n ks s) = ten_orgBySlug s"
  "ten_invitations (revoke_members clk orgID n ks s) = ten_invitations s"
  by (induction ks arbitrary: n s) (auto split: option.split)

lemma revoke_members_skip:
  "\<not> (\<exists>m. ten_memberships s k = Some m \<and> cascade_hit orgID m) \<Longrightarrow>
   revoke_members clk orgID n (k # ks) s = revoke_members clk orgID n ks s"
  by (auto simp: cascade_hit_def split: option.split)

lemma revoke_members_hit:
  "ten_memberships s k = Some m \<Longrightarrow> cascade_hit orgID m \<Longrightarrow>
   revoke_members clk orgID n (k # ks) s = revoke_members clk orgID (Suc n) ks
     (drop_member k m (m\<lparr>mem_Status := StRevoked, mem_UpdatedAt := clk n\<rparr>) s)"
  by (simp add: cascade_hit_def)

text \<open>Each membership keeps everything but status and time; the active ones of the organization are
  revoked, and their index entries and tuples are gone.\<close>

lemma revoke_members_mem:
  "distinct ks \<Longrightarrow> \<exists>at. ten_memberships (revoke_members clk orgID n ks s) mid =
    map_option (\<lambda>m. if mid \<in> set ks \<and> cascade_hit orgID m
      then m\<lparr>mem_Status := StRevoked, mem_UpdatedAt := at\<rparr> else m) (ten_memberships s mid)"
proof (induction ks arbitrary: n s)
  case Nil
  then show ?case by (cases "ten_memberships s mid") auto
next
  case (Cons k ks)
  then have d: "k \<notin> set ks" "distinct ks" by auto
  show ?case
  proof (cases "\<exists>m. ten_memberships s k = Some m \<and> cascade_hit orgID m")
    case False
    then show ?thesis
      unfolding revoke_members_skip [OF False]
      using Cons.IH [OF d(2), of n s] by (cases "mid = k"; cases "ten_memberships s mid") auto
  next
    case True
    then obtain m where m: "ten_memberships s k = Some m" "cascade_hit orgID m" by blast
    show ?thesis
      unfolding revoke_members_hit [OF m]
      using Cons.IH [OF d(2), of "Suc n" "drop_member k m (m\<lparr>mem_Status := StRevoked,
          mem_UpdatedAt := clk n\<rparr>) s"] d(1) m
      by (cases "mid = k") auto
  qed
qed

lemma revoke_members_maps:
  "distinct ks \<Longrightarrow>
   ten_activeMemByOrgUsr (revoke_members clk orgID n ks s) ikey =
    (if \<exists>k \<in> set ks. \<exists>m. ten_memberships s k = Some m \<and> cascade_hit orgID m \<and> mem_index_key m = ikey
     then None else ten_activeMemByOrgUsr s ikey) \<and>
   ten_tuples (revoke_members clk orgID n ks s) tkey =
    (if \<exists>k \<in> set ks. \<exists>m. ten_memberships s k = Some m \<and> cascade_hit orgID m \<and> tupleKey (mem_tuple m) = tkey
     then None else ten_tuples s tkey)"
proof (induction ks arbitrary: n s)
  case Nil
  then show ?case by simp
next
  case (Cons k ks)
  then have d: "k \<notin> set ks" "distinct ks" by auto
  show ?case
  proof (cases "\<exists>m. ten_memberships s k = Some m \<and> cascade_hit orgID m")
    case False
    then show ?thesis unfolding revoke_members_skip [OF False] using Cons.IH [OF d(2), of n s] by auto
  next
    case True
    then obtain m where m: "ten_memberships s k = Some m" "cascade_hit orgID m" by blast
    let ?s' = "drop_member k m (m\<lparr>mem_Status := StRevoked, mem_UpdatedAt := clk n\<rparr>) s"
    have "ten_memberships ?s' k' = ten_memberships s k'" if "k' \<in> set ks" for k'
      using that d(1) by auto
    then show ?thesis
      unfolding revoke_members_hit [OF m] using Cons.IH [OF d(2), of "Suc n" ?s'] m
      by (simp add: fun_upd_def cong: bex_cong) blast
  qed
qed

end
