(* ===== verification/TenancyMembers.thy ===== *)
theory TenancyMembers
  imports TenancyTypes
begin

text \<open>
  \<open>packages/tenancy/inmem.go\<close>, memberships: revoke-and-re-add role changes, suspension, leaving,
  removal by an admin and the transfer of ownership.  The n-th generated identifier of a call is
  \<open>Generate lib n ''mem''\<close>; \<open>changeRoleAtomicLocked\<close> drops the error of the generator, so its new
  identifier is then empty.
\<close>

definition AddMember ::
  "uuid_lib \<Rightarrow> clock \<Rightarrow> string \<Rightarrow> string \<Rightarrow> Role \<Rightarrow> string option \<Rightarrow> tenancy \<Rightarrow>
   (ten_error + Membership) \<times> tenancy" where
  "AddMember lib clk orgID usrID role invitedBy s =
     (if ten_orgs s orgID = None then (Inl (TenNotFound orgID), s)
      else if ten_activeMemByOrgUsr s (orgUsrKey orgID usrID) \<noteq> None then (Inl TenDuplicateMembership, s)
      else case Generate lib 0 ''mem'' of
        Inl err \<Rightarrow> (Inl (TenGenerate err), s)
      | Inr memID \<Rightarrow>
          let now = clk 0;
              mem = \<lparr>mem_ID = memID, mem_UsrID = usrID, mem_OrgID = orgID, mem_Role = role,
                     mem_Status = StActive, mem_Replaces = None, mem_InvitedBy = invitedBy,
                     mem_RemovedBy = None, mem_CreatedAt = now, mem_UpdatedAt = now\<rparr>
          in (Inr mem, put_member memID mem s))"

definition GetMembership :: "string \<Rightarrow> tenancy \<Rightarrow> ten_error + Membership" where
  "GetMembership memID s =
     (case ten_memberships s memID of None \<Rightarrow> Inl (TenNotFound memID) | Some m \<Rightarrow> Inr m)"

definition member_before :: "Membership \<Rightarrow> Membership \<Rightarrow> bool" where
  "member_before a b \<longleftrightarrow> mem_CreatedAt a < mem_CreatedAt b \<or>
     (mem_CreatedAt a = mem_CreatedAt b \<and> mem_ID a < mem_ID b)"

text \<open>The outer option of the page is the panic of the slice expression.\<close>

definition ListMembers ::
  "string list \<Rightarrow> string \<Rightarrow> ListMembersOptions \<Rightarrow> tenancy \<Rightarrow> (ten_error + Membership page) option" where
  "ListMembers ks orgID opts s =
     (if ten_orgs s orgID = None then Some (Inl (TenNotFound orgID))
      else
        let limit = page_limit (lmo_Limit opts);
            matched = filter (\<lambda>m. \<not> (mem_OrgID m \<noteq> orgID) \<and>
                \<not> (case lmo_Status opts of None \<Rightarrow> False | Some st \<Rightarrow> mem_Status m \<noteq> st))
              (go_range (ten_memberships s) ks)
        in map_option Inr (paginate mem_ID (lmo_Cursor opts) limit (go_sort member_before matched)))"

definition countActiveOwnersLocked :: "string list \<Rightarrow> string \<Rightarrow> tenancy \<Rightarrow> nat" where
  "countActiveOwnersLocked ks orgID s =
     foldl (\<lambda>n m. if mem_OrgID m = orgID \<and> mem_Status m = StActive \<and> mem_Role m = RoleOwner
                  then n + 1 else n) 0 (go_range (ten_memberships s) ks)"

text \<open>The membership that replaces \<open>old\<close> under a new role.\<close>

definition successor :: "string \<Rightarrow> string \<Rightarrow> Role \<Rightarrow> gotime \<Rightarrow> Membership \<Rightarrow> Membership" where
  "successor newID memID newRole now old =
     \<lparr>mem_ID = newID, mem_UsrID = mem_UsrID old, mem_OrgID = mem_OrgID old, mem_Role = newRole,
      mem_Status = StActive, mem_Replaces = Some memID, mem_InvitedBy = mem_InvitedBy old,
      mem_RemovedBy = None, mem_CreatedAt = now, mem_UpdatedAt = now\<rparr>"

definition revoked_at :: "gotime \<Rightarrow> Membership \<Rightarrow> Membership" where
  "revoked_at now m = m\<lparr>mem_Status := StRevoked, mem_UpdatedAt := now\<rparr>"

definition ChangeRole ::
  "uuid_lib \<Rightarrow> clock \<Rightarrow> string list \<Rightarrow> string \<Rightarrow> Role \<Rightarrow> tenancy \<Rightarrow> (ten_error + Membership) \<times> tenancy" where
  "ChangeRole lib clk ks memID newRole s =
     (case ten_memberships s memID of
        None \<Rightarrow> (Inl (TenNotFound memID), s)
      | Some old \<Rightarrow>
          if mem_Status old \<noteq> StActive then (Inl (TenPrecondition ''mem_not_active''), s)
          else if mem_Role old = newRole then (Inr old, s)
          else if mem_Role old = RoleOwner \<and> newRole \<noteq> RoleOwner \<and>
                  countActiveOwnersLocked ks (mem_OrgID old) s = 1
          then (Inl TenSoleOwner, s)
          else
            let now = clk 0; s1 = drop_member memID old (revoked_at now old) s
            in case Generate lib 0 ''mem'' of
                 Inl err \<Rightarrow> (Inl (TenGenerate err), s1)
               | Inr newID \<Rightarrow>
                   let nm = successor newID memID newRole now old
                   in (Inr nm, put_member newID nm s1))"

definition transitionMembership ::
  "clock \<Rightarrow> string list \<Rightarrow> string \<Rightarrow> Status \<Rightarrow> string option \<Rightarrow> tenancy \<Rightarrow>
   (ten_error + Membership) \<times> tenancy" where
  "transitionMembership clk ks memID to removedBy s =
     (case ten_memberships s memID of
        None \<Rightarrow> (Inl (TenNotFound memID), s)
      | Some m \<Rightarrow>
          let m' = m\<lparr>mem_Status := to,
                     mem_RemovedBy := (case removedBy of None \<Rightarrow> mem_RemovedBy m | Some r \<Rightarrow> Some r),
                     mem_UpdatedAt := clk 0\<rparr>
          in if mem_Status m = StRevoked then (Inl TenAlreadyTerminal, s)
             else if to \<noteq> StActive \<and> mem_Status m = StActive \<and> mem_Role m = RoleOwner \<and>
                     countActiveOwnersLocked ks (mem_OrgID m) s = 1
             then (Inl TenSoleOwner, s)
             else if to = StActive then
               if mem_Status m \<noteq> StSuspended then (Inl (TenPrecondition ''invalid_transition''), s)
               else if ten_activeMemByOrgUsr s (mem_index_key m) \<noteq> None
               then (Inl TenDuplicateMembership, s)
               else (Inr m', put_member memID m' s)
             else (Inr m', drop_member memID m m' s))"

definition SuspendMembership ::
  "clock \<Rightarrow> string list \<Rightarrow> string \<Rightarrow> tenancy \<Rightarrow> (ten_error + Membership) \<times> tenancy" where
  "SuspendMembership clk ks memID s = transitionMembership clk ks memID StSuspended None s"

definition ReinstateMembership ::
  "clock \<Rightarrow> string list \<Rightarrow> string \<Rightarrow> tenancy \<Rightarrow> (ten_error + Membership) \<times> tenancy" where
  "ReinstateMembership clk ks memID s = transitionMembership clk ks memID StActive None s"

definition mem_lookup :: "tenancy \<Rightarrow> string \<Rightarrow> Membership" where
  "mem_lookup s memID = (case ten_memberships s memID of None \<Rightarrow> zero_Membership | Some m \<Rightarrow> m)"

definition changeRoleAtomicLocked ::
  "uuid_lib \<Rightarrow> nat \<Rightarrow> clock \<Rightarrow> nat \<Rightarrow> string \<Rightarrow> Role \<Rightarrow> tenancy \<Rightarrow> tenancy" where
  "changeRoleAtomicLocked lib g clk c memID newRole s =
     (let old = mem_lookup s memID;
          now = clk c;
          s1 = drop_member memID old (revoked_at now old) s;
          newID = (case Generate lib g ''mem'' of Inl _ \<Rightarrow> [] | Inr x \<Rightarrow> x)
      in put_member newID (successor newID memID newRole now old) s1)"

text \<open>The end of \<open>SelfLeave\<close> and \<open>AdminRemove\<close>.\<close>

definition leave :: "string \<Rightarrow> Membership \<Rightarrow> string \<Rightarrow> gotime \<Rightarrow> tenancy \<Rightarrow> (ten_error + Membership) \<times> tenancy"
where
  "leave memID m by now s =
     (let m' = m\<lparr>mem_Status := StRevoked, mem_RemovedBy := Some by, mem_UpdatedAt := now\<rparr>
      in (Inr m', drop_member memID m m' s))"

definition SelfLeave ::
  "uuid_lib \<Rightarrow> clock \<Rightarrow> string list \<Rightarrow> string \<Rightarrow> string option \<Rightarrow> tenancy \<Rightarrow>
   (ten_error + Membership) \<times> tenancy" where
  "SelfLeave lib clk ks memID transferTo s =
     (case ten_memberships s memID of
        None \<Rightarrow> (Inl (TenNotFound memID), s)
      | Some m \<Rightarrow>
          if mem_Status m \<noteq> StActive then (Inl (TenPrecondition ''mem_not_active''), s)
          else if mem_Role m = RoleOwner \<and> countActiveOwnersLocked ks (mem_OrgID m) s = 1
          then (case transferTo of
                  None \<Rightarrow> (Inl TenSoleOwner, s)
                | Some target \<Rightarrow>
                    (case ten_activeMemByOrgUsr s (orgUsrKey (mem_OrgID m) target) of
                       None \<Rightarrow> (Inl (TenNotFound target), s)
                     | Some ttMemID \<Rightarrow>
                         if mem_Role (mem_lookup s ttMemID) = RoleOwner
                         then (Inl (TenPrecondition ''already_owner''), s)
                         else leave memID m (mem_UsrID m) (clk 1)
                                (changeRoleAtomicLocked lib 0 clk 0 ttMemID RoleOwner s)))
          else leave memID m (mem_UsrID m) (clk 0) s)"

definition AdminRemove ::
  "clock \<Rightarrow> string list \<Rightarrow> string \<Rightarrow> string \<Rightarrow> tenancy \<Rightarrow> (ten_error + Membership) \<times> tenancy" where
  "AdminRemove clk ks memID adminUsrID s =
     (case ten_memberships s memID of
        None \<Rightarrow> (Inl (TenNotFound memID), s)
      | Some target \<Rightarrow>
          if mem_Status target \<noteq> StActive then (Inl (TenPrecondition ''mem_not_active''), s)
          else case ten_activeMemByOrgUsr s (orgUsrKey (mem_OrgID target) adminUsrID) of
            None \<Rightarrow> (Inl TenForbidden, s)
          | Some adminMemID \<Rightarrow>
              let admin = mem_lookup s adminMemID
              in if AdminRank (mem_Role admin) < 3 then (Inl TenForbidden, s)
                 else if AdminRank (mem_Role admin) < AdminRank (mem_Role target)
                 then (Inl TenRoleHierarchy, s)
                 else if mem_Role target = RoleOwner \<and>
                         countActiveOwnersLocked ks (mem_OrgID target) s = 1
                 then (Inl TenSoleOwner, s)
                 else leave memID target adminUsrID (clk 0) s)"

definition TransferOwnership ::
  "uuid_lib \<Rightarrow> clock \<Rightarrow> string \<Rightarrow> string \<Rightarrow> string \<Rightarrow> tenancy \<Rightarrow>
   (ten_error + TransferOwnershipResult) \<times> tenancy" where
  "TransferOwnership lib clk orgID fromMemID toMemID s =
     (if fromMemID = toMemID then (Inl (TenPrecondition ''self_transfer''), s)
      else case ten_memberships s fromMemID of
        None \<Rightarrow> (Inl (TenPrecondition ''not_active_owner''), s)
      | Some fm \<Rightarrow>
          if mem_OrgID fm \<noteq> orgID \<or> mem_Role fm \<noteq> RoleOwner \<or> mem_Status fm \<noteq> StActive
          then (Inl (TenPrecondition ''not_active_owner''), s)
          else case ten_memberships s toMemID of
            None \<Rightarrow> (Inl (TenPrecondition ''not_active_member''), s)
          | Some tm \<Rightarrow>
              if mem_OrgID tm \<noteq> orgID \<or> mem_Status tm \<noteq> StActive
              then (Inl (TenPrecondition ''not_active_member''), s)
              else
                let s1 = changeRoleAtomicLocked lib 0 clk 0 toMemID RoleOwner s;
                    s2 = changeRoleAtomicLocked lib 1 clk 1 fromMemID RoleMember s1;
                    at = (\<lambda>usrID. mem_lookup s2
                      (case ten_activeMemByOrgUsr s2 (orgUsrKey orgID usrID) of None \<Rightarrow> [] | Some x \<Rightarrow> x))
                in (Inr \<lparr>tor_FromMembership = at (mem_UsrID fm), tor_ToMembership = at (mem_UsrID tm)\<rparr>, s2))"

end
