(* ===== verification/TenancyInvitations.thy ===== *)
theory TenancyInvitations
  imports TenancyTypes
begin

text \<open>
  \<open>packages/tenancy/inmem.go\<close>, invitations and the tuple accessors.  \<open>GetInvitation\<close> and
  \<open>AcceptInvitation\<close> expire a pending invitation whose deadline has passed when they meet it.
\<close>

definition CreateInvitation ::
  "uuid_lib \<Rightarrow> clock \<Rightarrow> string \<Rightarrow> string \<Rightarrow> Role \<Rightarrow> string \<Rightarrow> gotime \<Rightarrow> PreTuple list \<Rightarrow> tenancy \<Rightarrow>
   (ten_error + Invitation) \<times> tenancy" where
  "CreateInvitation lib clk orgID identifier role invitedBy expiresAt preTuples s =
     (if ten_orgs s orgID = None then (Inl (TenNotFound orgID), s)
      else case Generate lib 0 ''inv'' of
        Inl err \<Rightarrow> (Inl (TenGenerate err), s)
      | Inr invID \<Rightarrow>
          let iv = \<lparr>inv_ID = invID, inv_OrgID = orgID, inv_Identifier = identifier, inv_Role = role,
                     inv_Status = InvPending, inv_PreTuples = preTuples, inv_InvitedBy = invitedBy,
                     inv_InvitedUserID = None, inv_CreatedAt = clk 0, inv_ExpiresAt = expiresAt,
                     inv_TerminalAt = None, inv_TerminalBy = None\<rparr>
          in (Inr iv, s\<lparr>ten_invitations := (ten_invitations s)(invID \<mapsto> iv)\<rparr>))"

definition expire :: "gotime \<Rightarrow> Invitation \<Rightarrow> Invitation" where
  "expire now iv = iv\<lparr>inv_Status := InvExpired, inv_TerminalAt := Some now\<rparr>"

definition put_invitation :: "string \<Rightarrow> Invitation \<Rightarrow> tenancy \<Rightarrow> tenancy" where
  "put_invitation invID iv s = s\<lparr>ten_invitations := (ten_invitations s)(invID \<mapsto> iv)\<rparr>"

definition GetInvitation :: "clock \<Rightarrow> string \<Rightarrow> tenancy \<Rightarrow> (ten_error + Invitation) \<times> tenancy" where
  "GetInvitation clk invID s =
     (case ten_invitations s invID of
        None \<Rightarrow> (Inl (TenNotFound invID), s)
      | Some iv \<Rightarrow>
          if inv_Status iv = InvPending \<and> \<not> clk 0 < inv_ExpiresAt iv
          then let iv' = expire (clk 1) iv in (Inr iv', put_invitation invID iv' s)
          else (Inr iv, s))"

definition invitation_before :: "Invitation \<Rightarrow> Invitation \<Rightarrow> bool" where
  "invitation_before a b \<longleftrightarrow> inv_CreatedAt a < inv_CreatedAt b \<or>
     (inv_CreatedAt a = inv_CreatedAt b \<and> inv_ID a < inv_ID b)"

definition ListInvitations ::
  "string list \<Rightarrow> string \<Rightarrow> ListInvitationsOptions \<Rightarrow> tenancy \<Rightarrow> (ten_error + Invitation page) option" where
  "ListInvitations ks orgID opts s =
     (if ten_orgs s orgID = None then Some (Inl (TenNotFound orgID))
      else
        let limit = page_limit (lio_Limit opts);
            matched = filter (\<lambda>iv. \<not> (inv_OrgID iv \<noteq> orgID) \<and>
                \<not> (case lio_Status opts of None \<Rightarrow> False | Some st \<Rightarrow> inv_Status iv \<noteq> st))
              (go_range (ten_invitations s) ks)
        in map_option Inr (paginate inv_ID (lio_Cursor opts) limit (go_sort invitation_before matched)))"

definition pre_tuple :: "string \<Rightarrow> PreTuple \<Rightarrow> TenTuple" where
  "pre_tuple usrID pt = \<lparr>tt_SubjectType = ''usr'', tt_SubjectID = usrID,
     tt_Relation = pt_Relation pt, tt_ObjectType = pt_ObjectType pt, tt_ObjectID = pt_ObjectID pt\<rparr>"

fun put_tuples :: "TenTuple list \<Rightarrow> (string \<rightharpoonup> TenTuple) \<Rightarrow> (string \<rightharpoonup> TenTuple)" where
  "put_tuples [] m = m"
| "put_tuples (t # ts) m = put_tuples ts (m(tupleKey t \<mapsto> t))"

text \<open>From the deadline check on; \<open>clk 0\<close> was the first reading.\<close>

definition AcceptInvitation ::
  "uuid_lib \<Rightarrow> clock \<Rightarrow> string \<Rightarrow> AcceptInvitationOptions \<Rightarrow> tenancy \<Rightarrow>
   (ten_error + AcceptInvitationResult) \<times> tenancy" where
  "AcceptInvitation lib clk invID opts s =
     (case ten_invitations s invID of
        None \<Rightarrow> (Inl (TenNotFound invID), s)
      | Some iv \<Rightarrow>
          if inv_Status iv \<noteq> InvPending then (Inl TenInvitationNotPending, s)
          else if \<not> clk 0 < inv_ExpiresAt iv
          then (Inl TenInvitationExpired, put_invitation invID (expire (clk 1) iv) s)
          else
            (case (case aio_AsUsrID opts of
                     None \<Rightarrow> (case Generate lib 0 ''usr'' of Inl err \<Rightarrow> Inl (TenGenerate err) | Inr u \<Rightarrow> Inr u)
                   | Some u \<Rightarrow>
                       (case aio_AcceptingIdentifier opts of
                          None \<Rightarrow> Inl TenIdentifierBindingRequired
                        | Some ident \<Rightarrow>
                            if ident \<noteq> inv_Identifier iv then Inl TenIdentifierMismatch else Inr u)) of
               Inl err \<Rightarrow> (Inl err, s)
             | Inr acceptingUsr \<Rightarrow>
                 if ten_activeMemByOrgUsr s (orgUsrKey (inv_OrgID iv) acceptingUsr) \<noteq> None
                 then (Inl TenDuplicateMembership, s)
                 else case Generate lib 1 ''mem'' of
                   Inl err \<Rightarrow> (Inl (TenGenerate err), s)
                 | Inr memID \<Rightarrow>
                     let now = clk 1;
                         mem = \<lparr>mem_ID = memID, mem_UsrID = acceptingUsr, mem_OrgID = inv_OrgID iv,
                                mem_Role = inv_Role iv, mem_Status = StActive, mem_Replaces = None,
                                mem_InvitedBy = Some (inv_InvitedBy iv), mem_RemovedBy = None,
                                mem_CreatedAt = now, mem_UpdatedAt = now\<rparr>;
                         s1 = put_member memID mem s;
                         pts = map (pre_tuple acceptingUsr) (inv_PreTuples iv);
                         s2 = s1\<lparr>ten_tuples := put_tuples pts (ten_tuples s1)\<rparr>;
                         iv' = iv\<lparr>inv_Status := InvAccepted, inv_TerminalAt := Some now,
                                   inv_InvitedUserID := Some acceptingUsr\<rparr>
                     in (Inr \<lparr>air_Invitation = iv', air_Membership = mem,
                              air_MaterializedTuples = mem_tuple mem # pts\<rparr>,
                         put_invitation invID iv' s2)))"

definition DeclineInvitation ::
  "clock \<Rightarrow> string \<Rightarrow> string option \<Rightarrow> tenancy \<Rightarrow> (ten_error + Invitation) \<times> tenancy" where
  "DeclineInvitation clk invID asUsrID s =
     (case ten_invitations s invID of
        None \<Rightarrow> (Inl (TenNotFound invID), s)
      | Some iv \<Rightarrow>
          if inv_Status iv \<noteq> InvPending then (Inl TenInvitationNotPending, s)
          else
            let iv1 = iv\<lparr>inv_Status := InvDeclined, inv_TerminalAt := Some (clk 0)\<rparr>;
                iv2 = (case asUsrID of None \<Rightarrow> iv1
                        | Some u \<Rightarrow> iv1\<lparr>inv_TerminalBy := Some u, inv_InvitedUserID := Some u\<rparr>)
            in (Inr iv2, put_invitation invID iv2 s))"

definition RevokeInvitation ::
  "clock \<Rightarrow> string \<Rightarrow> string \<Rightarrow> tenancy \<Rightarrow> (ten_error + Invitation) \<times> tenancy" where
  "RevokeInvitation clk invID adminUsrID s =
     (case ten_invitations s invID of
        None \<Rightarrow> (Inl (TenNotFound invID), s)
      | Some iv \<Rightarrow>
          if inv_Status iv \<noteq> InvPending then (Inl TenInvitationNotPending, s)
          else
            let iv1 = iv\<lparr>inv_Status := InvRevoked, inv_TerminalAt := Some (clk 0),
                          inv_TerminalBy := Some adminUsrID\<rparr>
            in (Inr iv1, put_invitation invID iv1 s))"

definition ListTuplesForSubject :: "string list \<Rightarrow> string \<Rightarrow> string \<Rightarrow> tenancy \<Rightarrow> TenTuple list" where
  "ListTuplesForSubject ks subjectType subjectID s =
     filter (\<lambda>t. tt_SubjectType t = subjectType \<and> tt_SubjectID t = subjectID) (go_range (ten_tuples s) ks)"

definition ListTuplesForObject ::
  "string list \<Rightarrow> string \<Rightarrow> string \<Rightarrow> string option \<Rightarrow> tenancy \<Rightarrow> TenTuple list" where
  "ListTuplesForObject ks objectType objectID relation s =
     filter (\<lambda>t. \<not> (tt_ObjectType t \<noteq> objectType \<or> tt_ObjectID t \<noteq> objectID) \<and>
        \<not> (case relation of None \<Rightarrow> False | Some r \<Rightarrow> tt_Relation t \<noteq> r)) (go_range (ten_tuples s) ks)"

lemma put_invitation_sel [simp]:
  "ten_orgs (put_invitation k v s) = ten_orgs s"
  "ten_orgBySlug (put_invitation k v s) = ten_orgBySlug s"
  "ten_memberships (put_invitation k v s) = ten_memberships s"
  "ten_activeMemByOrgUsr (put_invitation k v s) = ten_activeMemByOrgUsr s"
  "ten_tuples (put_invitation k v s) = ten_tuples s"
  "ten_invitations (put_invitation k v s) = (ten_invitations s)(k \<mapsto> v)"
  by (simp_all add: put_invitation_def)

lemma put_tuples_other: "key \<notin> tupleKey ` set ts \<Longrightarrow> put_tuples ts m key = m key"
  by (induction ts arbitrary: m) auto

lemma put_tuples_in: "key \<in> tupleKey ` set ts \<Longrightarrow> \<exists>t. put_tuples ts m key = Some t \<and> tupleKey t = key"
proof (induction ts arbitrary: m)
  case (Cons u ts)
  show ?case
  proof (cases "key \<in> tupleKey ` set ts")
    case True
    then show ?thesis using Cons.IH [OF True, of "m(tupleKey u \<mapsto> u)"] by (simp only: put_tuples.simps)
  next
    case False
    then show ?thesis using Cons.prems by (simp add: put_tuples_other)
  qed
qed simp

end
