(* ===== verification/TenancyRuns.thy ===== *)
theory TenancyRuns
  imports TenancyOrgs TenancyMembers TenancyInvitations
begin

text \<open>
  The tenancy store as a transition system.  \<open>ten_move\<close> lists the elementary writes of the methods
  with what guards them, \<open>ten_inv\<close> is the invariant that every one of them keeps, and \<open>org_le\<close>,
  \<open>mem_le\<close> and \<open>inv_le\<close> say how organizations, memberships and invitations may change.  Each
  method is a sequence of such writes (\<open>ten_step_moves\<close>), so the three entity maps are
  \<open>entity_store\<close>s.  Method calls happen with a generator that works: \<open>gen_ok\<close>.
\<close>

definition gen_ok :: "uuid_lib \<Rightarrow> tenancy \<Rightarrow> bool" where
  "gen_ok lib s \<longleftrightarrow> uuid_ok lib \<and>
     (\<exists>u v. uuid_NewV7 lib 0 = Inr u \<and> uuid_NewV7 lib 1 = Inr v \<and> u \<noteq> v) \<and>
     (\<forall>n \<in> {0, 1}. fresh_for lib n ''org'' (ten_orgs s) \<and> fresh_for lib n ''mem'' (ten_memberships s) \<and>
        fresh_for lib n ''inv'' (ten_invitations s))"

lemma ten_types: "Types ''org'' \<noteq> None" "Types ''mem'' \<noteq> None" "Types ''inv'' \<noteq> None" "Types ''usr'' \<noteq> None"
  by (simp_all add: Types_def type_table_def)

lemma gen_ok_Generate:
  assumes "gen_ok lib s" and "Types typ1 \<noteq> None" and "n \<in> {0, 1}"
  obtains w where "Generate lib n typ1 = Inr w" "w \<noteq> []"
proof -
  obtain u where "uuid_NewV7 lib n = Inr u" using assms by (auto simp: gen_ok_def)
  with assms Generate_NewV7 [of lib typ1 n u] that Generate_nonempty show ?thesis
    by (metis gen_ok_def)
qed

lemma gen_ok_distinct:
  assumes "gen_ok lib s" and "Generate lib 0 ''mem'' = Inr v" and "Generate lib 1 ''mem'' = Inr w"
  shows "v \<noteq> w"
proof -
  obtain a b where ab: "uuid_NewV7 lib 0 = Inr a" "uuid_NewV7 lib 1 = Inr b" "a \<noteq> b" and ok: "uuid_ok lib"
    using assms(1) by (auto simp: gen_ok_def)
  have "Decode v = Inr \<lparr>dec_Type = ''mem'', dec_UUID = a\<rparr>" "Decode w = Inr \<lparr>dec_Type = ''mem'', dec_UUID = b\<rparr>"
    using Generate_NewV7 [OF ok ten_types(2)] ab assms(2,3) by (metis sum.inject(2))+
  with ab(3) show ?thesis by auto
qed

lemma gen_ok_fresh:
  assumes "gen_ok lib s" and "n \<in> {0, 1}"
  shows "Generate lib n ''org'' = Inr w \<Longrightarrow> ten_orgs s w = None"
    and "Generate lib n ''mem'' = Inr w \<Longrightarrow> ten_memberships s w = None"
    and "Generate lib n ''inv'' = Inr w \<Longrightarrow> ten_invitations s w = None"
  using assms unfolding gen_ok_def fresh_for_def by blast+

lemma gen_ok_no_bar:
  assumes "gen_ok lib s" and "Generate lib n ''org'' = Inr w"
  shows "CHR ''|'' \<notin> set w"
proof -
  have "IsValid w [''org'']" using Generate_Inr(2) assms by (auto simp: gen_ok_def)
  then show ?thesis using IsValid_no_char [of w "''org''" "CHR ''|''"] by (simp add: class_defs)
qed

subsection \<open>How the records change\<close>

definition org_le :: "Organization \<Rightarrow> Organization \<Rightarrow> bool" where
  "org_le a b \<longleftrightarrow> org_ID b = org_ID a \<and> org_CreatedAt b = org_CreatedAt a \<and>
     (org_Status a = StRevoked \<longrightarrow> b = a)"

definition mem_le :: "Membership \<Rightarrow> Membership \<Rightarrow> bool" where
  "mem_le a b \<longleftrightarrow> mem_ID b = mem_ID a \<and> mem_UsrID b = mem_UsrID a \<and> mem_OrgID b = mem_OrgID a \<and>
     mem_Role b = mem_Role a \<and> mem_Replaces b = mem_Replaces a \<and> mem_InvitedBy b = mem_InvitedBy a \<and>
     mem_CreatedAt b = mem_CreatedAt a \<and> (mem_Status a = StRevoked \<longrightarrow> b = a)"

definition inv_le :: "Invitation \<Rightarrow> Invitation \<Rightarrow> bool" where
  "inv_le a b \<longleftrightarrow> inv_ID b = inv_ID a \<and> inv_OrgID b = inv_OrgID a \<and> inv_Identifier b = inv_Identifier a \<and>
     inv_Role b = inv_Role a \<and> inv_PreTuples b = inv_PreTuples a \<and> inv_InvitedBy b = inv_InvitedBy a \<and>
     inv_CreatedAt b = inv_CreatedAt a \<and> inv_ExpiresAt b = inv_ExpiresAt a \<and>
     (inv_Status a \<noteq> InvPending \<longrightarrow> b = a)"

lemma le_refls [simp]: "org_le a a" "mem_le m m" "inv_le i i"
  by (simp_all add: org_le_def mem_le_def inv_le_def)

lemma le_transs:
  "org_le a b \<Longrightarrow> org_le b c \<Longrightarrow> org_le a c" "mem_le l m \<Longrightarrow> mem_le m n \<Longrightarrow> mem_le l n"
  "inv_le i j \<Longrightarrow> inv_le j k \<Longrightarrow> inv_le i k"
  by (auto simp: org_le_def mem_le_def inv_le_def)

lemma mem_le_key: "mem_le m m' \<Longrightarrow> mem_index_key m' = mem_index_key m" "mem_le m m' \<Longrightarrow> mem_tuple m' = mem_tuple m"
  by (simp_all add: mem_le_def mem_index_key_def mem_tuple_def)

subsection \<open>The invariant\<close>

definition slug_key :: "Organization \<Rightarrow> string option" where
  "slug_key o1 = (if org_Status o1 = StRevoked then None else org_Slug o1)"

definition active_index_ok :: "tenancy \<Rightarrow> bool" where
  "active_index_ok s \<longleftrightarrow> (\<forall>key mid. ten_activeMemByOrgUsr s key = Some mid \<longrightarrow>
     (\<exists>m. ten_memberships s mid = Some m \<and> mem_Status m = StActive \<and> mem_index_key m = key))"

definition ten_inv :: "tenancy \<Rightarrow> bool" where
  "ten_inv s \<longleftrightarrow>
     keyed_by org_ID (ten_orgs s) \<and> finite (dom (ten_orgs s)) \<and> ten_orgs s [] = None \<and>
     keyed_by mem_ID (ten_memberships s) \<and> finite (dom (ten_memberships s)) \<and> ten_memberships s [] = None \<and>
     keyed_by inv_ID (ten_invitations s) \<and> finite (dom (ten_invitations s)) \<and> ten_invitations s [] = None \<and>
     (\<forall>k \<in> dom (ten_orgs s). CHR ''|'' \<notin> set k) \<and>
     (\<forall>k m. ten_memberships s k = Some m \<longrightarrow> mem_OrgID m \<in> dom (ten_orgs s)) \<and>
     (\<forall>k i. ten_invitations s k = Some i \<longrightarrow> inv_OrgID i \<in> dom (ten_orgs s)) \<and>
     index_of slug_key (ten_orgs s) (ten_orgBySlug s) \<and> active_index_ok s"

lemma ten_invD:
  assumes "ten_inv s"
  shows "keyed_by org_ID (ten_orgs s)" "ten_orgs s [] = None" "keyed_by mem_ID (ten_memberships s)"
    "ten_memberships s [] = None" "finite (dom (ten_memberships s))"
    "keyed_by inv_ID (ten_invitations s)" "ten_invitations s [] = None"
    "k \<in> dom (ten_orgs s) \<Longrightarrow> CHR ''|'' \<notin> set k"
    "ten_memberships s k = Some m \<Longrightarrow> mem_OrgID m \<in> dom (ten_orgs s)"
    "ten_invitations s k = Some i \<Longrightarrow> inv_OrgID i \<in> dom (ten_orgs s)"
    "index_of slug_key (ten_orgs s) (ten_orgBySlug s)" "active_index_ok s"
  using assms unfolding ten_inv_def by blast+

lemma ten_inv_init [simp]: "ten_inv NewInMemoryTenancyStore"
  by (simp add: ten_inv_def NewInMemoryTenancyStore_def active_index_ok_def)

lemma active_indexD:
  "ten_inv s \<Longrightarrow> ten_activeMemByOrgUsr s key = Some mid \<Longrightarrow>
    \<exists>m. ten_memberships s mid = Some m \<and> mem_Status m = StActive \<and> mem_index_key m = key"
  by (simp add: ten_inv_def active_index_ok_def)

subsection \<open>Elementary writes\<close>

inductive ten_move :: "tenancy \<Rightarrow> tenancy \<Rightarrow> bool" where
  mv_org: "org_ID o1 = k \<Longrightarrow> k \<noteq> [] \<Longrightarrow> CHR ''|'' \<notin> set k \<Longrightarrow>
     (\<And>o0. ten_orgs s k = Some o0 \<Longrightarrow> org_le o0 o1) \<Longrightarrow>
     index_of slug_key ((ten_orgs s)(k \<mapsto> o1)) idx \<Longrightarrow>
     ten_move s (s\<lparr>ten_orgs := (ten_orgs s)(k \<mapsto> o1), ten_orgBySlug := idx\<rparr>)"
| mv_join: "ten_memberships s k = None \<Longrightarrow> mem_ID m = k \<Longrightarrow> k \<noteq> [] \<Longrightarrow> mem_Status m = StActive \<Longrightarrow>
     mem_OrgID m \<in> dom (ten_orgs s) \<Longrightarrow> ten_move s (put_member k m s)"
| mv_drop: "ten_memberships s k = Some m \<Longrightarrow> mem_Status m \<noteq> StRevoked \<Longrightarrow> mem_le m m' \<Longrightarrow>
     mem_Status m' \<noteq> StActive \<Longrightarrow> ten_move s (drop_member k m m' s)"
| mv_restore: "ten_memberships s k = Some m \<Longrightarrow> mem_Status m = StSuspended \<Longrightarrow> mem_le m m' \<Longrightarrow>
     mem_Status m' = StActive \<Longrightarrow> ten_activeMemByOrgUsr s (mem_index_key m) = None \<Longrightarrow>
     ten_move s (put_member k m' s)"
| mv_invite: "ten_invitations s k = None \<Longrightarrow> inv_ID i = k \<Longrightarrow> k \<noteq> [] \<Longrightarrow>
     inv_OrgID i \<in> dom (ten_orgs s) \<Longrightarrow> ten_move s (put_invitation k i s)"
| mv_invitation: "ten_invitations s k = Some i \<Longrightarrow> inv_le i i' \<Longrightarrow> ten_move s (put_invitation k i' s)"
| mv_tuples: "ten_move s (s\<lparr>ten_tuples := tuples\<rparr>)"

lemma active_index_put:
  assumes "active_index_ok s" and "ten_memberships s k = None \<or>
      (\<exists>m0. ten_memberships s k = Some m0 \<and> mem_Status m0 \<noteq> StActive)" and "mem_Status m = StActive"
  shows "active_index_ok (put_member k m s)"
  unfolding active_index_ok_def
proof (intro allI impI)
  fix key mid
  assume a: "ten_activeMemByOrgUsr (put_member k m s) key = Some mid"
  show "\<exists>m'. ten_memberships (put_member k m s) mid = Some m' \<and> mem_Status m' = StActive \<and> mem_index_key m' = key"
  proof (cases "key = mem_index_key m")
    case True
    then show ?thesis using a assms(3) by simp
  next
    case False
    then have "ten_activeMemByOrgUsr s key = Some mid" using a by simp
    then obtain m' where "ten_memberships s mid = Some m'" "mem_Status m' = StActive" "mem_index_key m' = key"
      using assms(1) unfolding active_index_ok_def by blast
    then show ?thesis using assms(2) by (cases "mid = k") auto
  qed
qed

lemma active_index_drop:
  assumes "active_index_ok s" and "ten_memberships s k = Some m"
  shows "active_index_ok (drop_member k m m' s)"
  unfolding active_index_ok_def
proof (intro allI impI)
  fix key mid
  assume a: "ten_activeMemByOrgUsr (drop_member k m m' s) key = Some mid"
  then have n: "key \<noteq> mem_index_key m" "ten_activeMemByOrgUsr s key = Some mid"
    by (auto split: if_splits)
  then obtain m1 where m1: "ten_memberships s mid = Some m1" "mem_Status m1 = StActive" "mem_index_key m1 = key"
    using assms(1) unfolding active_index_ok_def by blast
  then have "mid \<noteq> k" using n(1) assms(2) by auto
  then show "\<exists>m1. ten_memberships (drop_member k m m' s) mid = Some m1 \<and> mem_Status m1 = StActive \<and> mem_index_key m1 = key"
    using m1 by simp
qed

lemma ten_move_inv:
  assumes "ten_move s t" and "ten_inv s"
  shows "ten_inv t"
  using assms
proof (induction rule: ten_move.induct)
  case (mv_org o1 k s idx)
  then show ?case by (auto simp: ten_inv_def keyed_by_def active_index_ok_def)
next
  case (mv_join s k m)
  then show ?case
    using active_index_put [of s k m] by (auto simp: ten_inv_def keyed_by_def)
next
  case (mv_drop s k m m')
  then have "mem_ID m' = k" "k \<noteq> []" "mem_OrgID m' \<in> dom (ten_orgs s)"
    using ten_invD(3,4,9) [of s] by (auto simp: keyed_by_def mem_le_def)
  with mv_drop show ?case
    using active_index_drop [of s k m m'] by (auto simp: ten_inv_def keyed_by_def)
next
  case (mv_restore s k m m')
  then have "mem_ID m' = k" "k \<noteq> []" "mem_OrgID m' \<in> dom (ten_orgs s)"
    using ten_invD(3,4,9) [of s] by (auto simp: keyed_by_def mem_le_def)
  with mv_restore show ?case
    using active_index_put [of s k m'] by (auto simp: ten_inv_def keyed_by_def)
next
  case (mv_invite s k i)
  then show ?case by (auto simp: ten_inv_def keyed_by_def active_index_ok_def)
next
  case (mv_invitation s k i i')
  then have "inv_ID i' = k" "k \<noteq> []" "inv_OrgID i' \<in> dom (ten_orgs s)"
    using ten_invD(6,7,10) [of s] by (auto simp: keyed_by_def inv_le_def)
  with mv_invitation show ?case by (auto simp: ten_inv_def keyed_by_def active_index_ok_def)
next
  case (mv_tuples s tuples)
  then show ?case by (simp add: ten_inv_def active_index_ok_def)
qed

lemma ten_move_org_le:
  "ten_move s t \<Longrightarrow> ten_orgs s k = Some v \<Longrightarrow> \<exists>w. ten_orgs t k = Some w \<and> org_le v w"
  by (induction rule: ten_move.induct) auto

lemma ten_move_mem_le:
  "ten_move s t \<Longrightarrow> ten_memberships s k = Some v \<Longrightarrow> \<exists>w. ten_memberships t k = Some w \<and> mem_le v w"
  by (induction rule: ten_move.induct) auto

lemma ten_move_inv_le:
  "ten_move s t \<Longrightarrow> ten_invitations s k = Some v \<Longrightarrow> \<exists>w. ten_invitations t k = Some w \<and> inv_le v w"
  by (induction rule: ten_move.induct) auto

interpretation org_moves: entity_store "\<lambda>s. s = NewInMemoryTenancyStore" ten_move ten_inv ten_orgs org_le
  by unfold_locales (auto intro: ten_move_inv le_transs dest: ten_move_org_le)

interpretation mem_moves: entity_store "\<lambda>s. s = NewInMemoryTenancyStore" ten_move ten_inv
  ten_memberships mem_le
  by unfold_locales (auto intro: le_transs dest: ten_move_mem_le)

interpretation inv_moves: entity_store "\<lambda>s. s = NewInMemoryTenancyStore" ten_move ten_inv
  ten_invitations inv_le
  by unfold_locales (auto intro: le_transs dest: ten_move_inv_le)

subsection \<open>Methods as sequences of writes\<close>

lemma put_member_moves:
  assumes "gen_ok lib s" and "Generate lib n ''mem'' = Inr (mem_ID m)" and "n \<in> {0, 1}"
    and "mem_Status m = StActive" and "mem_OrgID m \<in> dom (ten_orgs s)"
  shows "ten_move\<^sup>*\<^sup>* s (put_member (mem_ID m) m s)"
  using assms gen_ok_fresh(2) Generate_nonempty by (intro r_into_rtranclp mv_join) auto

lemma CreateOrg_moves:
  assumes inv: "ten_inv s" and g: "gen_ok lib s"
  shows "ten_move\<^sup>*\<^sup>* s (snd (CreateOrg lib clk creator opts s))"
proof (cases "\<exists>e. CreateOrg lib clk creator opts s = (Inl e, s)")
  case True
  then show ?thesis by auto
next
  case False
  obtain oid where oid: "Generate lib 0 ''org'' = Inr oid" "oid \<noteq> []"
    using gen_ok_Generate [OF g ten_types(1), of 0] by auto
  obtain mid where mid: "Generate lib 1 ''mem'' = Inr mid" "mid \<noteq> []"
    using gen_ok_Generate [OF g ten_types(2), of 1] by auto
  let ?o = "\<lparr>org_ID = oid, org_Status = StActive, org_CreatedAt = clk 0, org_UpdatedAt = clk 0,
      org_Name = coo_Name opts, org_Slug = coo_Slug opts\<rparr>"
  let ?m = "\<lparr>mem_ID = mid, mem_UsrID = creator, mem_OrgID = oid, mem_Role = RoleOwner,
      mem_Status = StActive, mem_Replaces = None, mem_InvitedBy = None, mem_RemovedBy = None,
      mem_CreatedAt = clk 0, mem_UpdatedAt = clk 0\<rparr>"
  let ?idx = "case coo_Slug opts of None \<Rightarrow> ten_orgBySlug s | Some slug \<Rightarrow> (ten_orgBySlug s)(slug \<mapsto> oid)"
  let ?s1 = "s\<lparr>ten_orgs := (ten_orgs s)(oid \<mapsto> ?o), ten_orgBySlug := ?idx\<rparr>"
  have new: "ten_orgs s oid = None" using gen_ok_fresh(1) [OF g, of 0] oid by simp
  have st: "snd (CreateOrg lib clk creator opts s) = put_member mid ?m ?s1"
    and free: "\<And>slug. coo_Slug opts = Some slug \<Longrightarrow> ten_orgBySlug s slug = None"
    using False oid mid by (auto simp: CreateOrg_def Let_def split: option.splits if_splits)
  have "index_of slug_key ((ten_orgs s)(oid \<mapsto> ?o)) ?idx"
    using ten_invD(11) [OF inv] new free
    by (cases "coo_Slug opts") (simp_all add: index_of_insert_none index_of_insert slug_key_def)
  then have "ten_move s ?s1"
    using oid gen_ok_no_bar [OF g oid(1)] new by (intro mv_org) auto
  moreover have "ten_move ?s1 (put_member mid ?m ?s1)"
    using gen_ok_fresh(2) [OF g, of 1] mid by (intro mv_join) auto
  ultimately show ?thesis unfolding st by (meson converse_rtranclp_into_rtranclp r_into_rtranclp)
qed

lemma UpdateOrg_moves:
  assumes inv: "ten_inv s"
  shows "ten_move\<^sup>*\<^sup>* s (snd (UpdateOrg clk orgID i s))"
proof (cases "ten_orgs s orgID")
  case None
  then show ?thesis by (simp add: UpdateOrg_def)
next
  case (Some o0)
  show ?thesis
  proof (cases "org_Status o0 = StRevoked")
    case True
    then show ?thesis using Some by (simp add: UpdateOrg_def)
  next
    case False
    note ix = ten_invD(11) [OF inv]
    have id: "org_ID o0 = orgID" "orgID \<noteq> []" "CHR ''|'' \<notin> set orgID"
      using ten_invD(1,2,8) [OF inv] Some by (auto simp: keyed_by_def)
    define o1 where "o1 = rename_org i o0"
    have o1: "org_ID o1 = orgID" "org_Slug o1 = org_Slug o0" "org_Status o1 = org_Status o0"
      "org_CreatedAt o1 = org_CreatedAt o0"
      using id(1) by (simp_all add: o1_def)
    have mv: "ten_move\<^sup>*\<^sup>* s (s\<lparr>ten_orgs := (ten_orgs s)(orgID \<mapsto> o2), ten_orgBySlug := idx\<rparr>)"
      if "org_ID o2 = orgID" "org_CreatedAt o2 = org_CreatedAt o0"
        "index_of slug_key ((ten_orgs s)(orgID \<mapsto> o2)) idx" for o2 idx
      using that id Some False by (intro r_into_rtranclp mv_org) (auto simp: org_le_def)
    have clear: "index_of slug_key ((ten_orgs s)(orgID \<mapsto> o1\<lparr>org_Slug := None, org_UpdatedAt := t\<rparr>))
        (case org_Slug o1 of None \<Rightarrow> ten_orgBySlug s | Some old \<Rightarrow> (ten_orgBySlug s)(old := None))" for t
      using False o1 index_of_update [OF ix Some] index_of_drop [OF ix Some]
      by (auto simp: slug_key_def split: option.split)
    have keep: "index_of slug_key ((ten_orgs s)(orgID \<mapsto> o1\<lparr>org_UpdatedAt := t\<rparr>)) (ten_orgBySlug s)" for t
      by (rule index_of_update [OF ix Some]) (use o1 in \<open>simp add: slug_key_def\<close>)
    have set: "index_of slug_key ((ten_orgs s)(orgID \<mapsto> o1\<lparr>org_Slug := Some new, org_UpdatedAt := t\<rparr>))
        ((case org_Slug o1 of None \<Rightarrow> ten_orgBySlug s | Some old \<Rightarrow> (ten_orgBySlug s)(old := None))(new \<mapsto> orgID))"
      if free: "\<not> (case ten_orgBySlug s new of None \<Rightarrow> False | Some existing \<Rightarrow> existing \<noteq> orgID)" for t new
    proof (cases "ten_orgBySlug s new")
      case None
      show ?thesis
        by (rule index_of_rekey [OF ix Some _ None]) (use o1 False in \<open>auto simp: slug_key_def\<close>)
    next
      case (Some e)
      then have e: "ten_orgBySlug s new = Some orgID" using free by simp
      then have sk: "slug_key o0 = Some new" using index_ofD [OF ix, of new orgID] \<open>ten_orgs s orgID = Some o0\<close> by simp
      then have "(case org_Slug o1 of None \<Rightarrow> ten_orgBySlug s | Some old \<Rightarrow> (ten_orgBySlug s)(old := None))(new \<mapsto> orgID)
          = ten_orgBySlug s"
        using e o1(2) False by (auto simp: slug_key_def fun_upd_idem)
      moreover have "index_of slug_key ((ten_orgs s)(orgID \<mapsto> o1\<lparr>org_Slug := Some new, org_UpdatedAt := t\<rparr>))
          (ten_orgBySlug s)"
        by (rule index_of_update [OF ix \<open>ten_orgs s orgID = Some o0\<close>])
          (use o1 sk False in \<open>simp add: slug_key_def\<close>)
      ultimately show ?thesis by simp
    qed
    show ?thesis
    proof (cases "uoi_ClearSlug i")
      case True
      then have "snd (UpdateOrg clk orgID i s) = s\<lparr>ten_orgs := (ten_orgs s)(orgID \<mapsto> o1\<lparr>org_Slug := None,
          org_UpdatedAt := clk 0\<rparr>), ten_orgBySlug := (case org_Slug o1 of None \<Rightarrow> ten_orgBySlug s
            | Some old \<Rightarrow> (ten_orgBySlug s)(old := None))\<rparr>"
        using False by (simp add: UpdateOrg_def Some Let_def o1_def)
      then show ?thesis using mv [OF _ _ clear] o1 by simp
    next
      case cl: False
      show ?thesis
      proof (cases "uoi_Slug i")
        case None
        then have "snd (UpdateOrg clk orgID i s) = s\<lparr>ten_orgs := (ten_orgs s)(orgID \<mapsto> o1\<lparr>org_UpdatedAt := clk 0\<rparr>),
            ten_orgBySlug := ten_orgBySlug s\<rparr>"
          using False cl by (simp add: UpdateOrg_def Some Let_def o1_def)
        then show ?thesis using mv [OF _ _ keep] o1 by simp
      next
        case new: (Some new)
        show ?thesis
        proof (cases "validateSlug new = None \<and>
            \<not> (case ten_orgBySlug s new of None \<Rightarrow> False | Some existing \<Rightarrow> existing \<noteq> orgID)")
          case True
          then have "snd (UpdateOrg clk orgID i s) = s\<lparr>ten_orgs := (ten_orgs s)(orgID \<mapsto> o1\<lparr>org_Slug := Some new,
              org_UpdatedAt := clk 0\<rparr>), ten_orgBySlug := (case org_Slug o1 of None \<Rightarrow> ten_orgBySlug s
                | Some old \<Rightarrow> (ten_orgBySlug s)(old := None))(new \<mapsto> orgID)\<rparr>"
            using False cl new by (simp add: UpdateOrg_def Some Let_def o1_def)
          then show ?thesis using mv [OF _ _ set] True o1 by simp
        next
          case bad: False
          then show ?thesis using False cl new
            by (auto simp: UpdateOrg_def Some Let_def split: option.split)
        qed
      qed
    qed
  qed
qed

lemma revoke_members_moves: "ten_move\<^sup>*\<^sup>* s (revoke_members clk orgID n ks s)"
proof (induction ks arbitrary: n s)
  case (Cons k ks)
  show ?case
  proof (cases "\<exists>m. ten_memberships s k = Some m \<and> cascade_hit orgID m")
    case False
    show ?thesis unfolding revoke_members_skip [OF False] by (rule Cons.IH)
  next
    case True
    then obtain m where m: "ten_memberships s k = Some m" "cascade_hit orgID m" by blast
    then have "ten_move s (drop_member k m (m\<lparr>mem_Status := StRevoked, mem_UpdatedAt := clk n\<rparr>) s)"
      by (intro mv_drop) (auto simp: cascade_hit_def mem_le_def)
    then show ?thesis
      unfolding revoke_members_hit [OF m] using Cons.IH by (rule converse_rtranclp_into_rtranclp)
  qed
qed simp

lemma revoke_members_slug:
  "(revoke_members clk orgID n ks s)\<lparr>ten_orgBySlug := f\<rparr> = revoke_members clk orgID n ks (s\<lparr>ten_orgBySlug := f\<rparr>)"
proof (induction ks arbitrary: n s)
  case (Cons k ks)
  have d: "(drop_member k m m' s)\<lparr>ten_orgBySlug := f\<rparr> = drop_member k m m' (s\<lparr>ten_orgBySlug := f\<rparr>)" for k m m'
    by (simp add: drop_member_def)
  show ?case using Cons.IH by (auto simp: d split: option.split)
qed simp

text \<open>A successful transition writes the organization with its slug index and then cascades.\<close>

lemma transitionOrg_Inr:
  assumes "transitionOrg clk ks orgID to s = (Inr o1, t)"
  obtains o0 where "ten_orgs s orgID = Some o0" "org_Status o0 \<noteq> StRevoked" "o1 = WithStatus o0 to (clk 0)"
    "to = StActive \<Longrightarrow> org_Status o0 = StSuspended"
    "t = (if to = StRevoked
       then revoke_members clk orgID 1 ks (s\<lparr>ten_orgs := (ten_orgs s)(orgID \<mapsto> o1),
          ten_orgBySlug := (case org_Slug o0 of None \<Rightarrow> ten_orgBySlug s | Some sl \<Rightarrow> (ten_orgBySlug s)(sl := None))\<rparr>)
       else s\<lparr>ten_orgs := (ten_orgs s)(orgID \<mapsto> o1), ten_orgBySlug := ten_orgBySlug s\<rparr>)"
proof -
  obtain o0 where o0: "ten_orgs s orgID = Some o0" using assms by (auto simp: transitionOrg_def split: option.splits)
  have ne: "org_Status o0 \<noteq> StRevoked" "to = StActive \<Longrightarrow> org_Status o0 = StSuspended"
    using assms by (auto simp: transitionOrg_def o0 split: if_splits)
  have o1: "o1 = WithStatus o0 to (clk 0)" and
    t: "t = (if to = StRevoked
      then let s2 = revoke_members clk orgID 1 ks (s\<lparr>ten_orgs := (ten_orgs s)(orgID \<mapsto> o1)\<rparr>)
           in (case org_Slug o1 of None \<Rightarrow> s2 | Some sl \<Rightarrow> s2\<lparr>ten_orgBySlug := (ten_orgBySlug s2)(sl := None)\<rparr>)
      else s\<lparr>ten_orgs := (ten_orgs s)(orgID \<mapsto> o1)\<rparr>)"
    using assms ne by (auto simp: transitionOrg_def o0 Let_def split: if_splits)
  have "org_Slug o1 = org_Slug o0" by (simp add: o1 WithStatus_def)
  then show ?thesis
    using that [OF o0 ne(1) o1 ne(2)] t
    by (auto simp: revoke_members_slug Let_def split: option.split)
qed

lemma transitionOrg_Inl: "fst (transitionOrg clk ks orgID to s) = Inl e \<Longrightarrow> snd (transitionOrg clk ks orgID to s) = s"
  by (auto simp: transitionOrg_def Let_def split: option.splits if_splits)

lemma transitionOrg_moves:
  assumes inv: "ten_inv s"
  shows "ten_move\<^sup>*\<^sup>* s (snd (transitionOrg clk ks orgID to s))"
proof (cases "fst (transitionOrg clk ks orgID to s)")
  case (Inl e)
  then show ?thesis by (simp add: transitionOrg_Inl)
next
  case (Inr o1)
  then have "transitionOrg clk ks orgID to s = (Inr o1, snd (transitionOrg clk ks orgID to s))"
    by (simp add: prod_eq_iff)
  then obtain o0 where o0: "ten_orgs s orgID = Some o0" "org_Status o0 \<noteq> StRevoked"
    "o1 = WithStatus o0 to (clk 0)"
    and t: "snd (transitionOrg clk ks orgID to s) = (if to = StRevoked
       then revoke_members clk orgID 1 ks (s\<lparr>ten_orgs := (ten_orgs s)(orgID \<mapsto> o1),
          ten_orgBySlug := (case org_Slug o0 of None \<Rightarrow> ten_orgBySlug s | Some sl \<Rightarrow> (ten_orgBySlug s)(sl := None))\<rparr>)
       else s\<lparr>ten_orgs := (ten_orgs s)(orgID \<mapsto> o1), ten_orgBySlug := ten_orgBySlug s\<rparr>)"
    by (rule transitionOrg_Inr)
  note ix = ten_invD(11) [OF inv]
  have id: "org_ID o0 = orgID" "orgID \<noteq> []" "CHR ''|'' \<notin> set orgID"
    using ten_invD(1,2,8) [OF inv] o0(1) by (auto simp: keyed_by_def)
  have mv: "ten_move s (s\<lparr>ten_orgs := (ten_orgs s)(orgID \<mapsto> o1), ten_orgBySlug := idx\<rparr>)"
    if "index_of slug_key ((ten_orgs s)(orgID \<mapsto> o1)) idx" for idx
    using that id o0 by (intro mv_org) (auto simp: org_le_def WithStatus_def)
  show ?thesis
  proof (cases "to = StRevoked")
    case True
    have "index_of slug_key ((ten_orgs s)(orgID \<mapsto> o1))
        (case org_Slug o0 of None \<Rightarrow> ten_orgBySlug s | Some sl \<Rightarrow> (ten_orgBySlug s)(sl := None))"
      using True o0 index_of_update [OF ix o0(1), of o1] index_of_drop [OF ix o0(1), of _ o1]
      by (auto simp: slug_key_def WithStatus_def split: option.split)
    from mv [OF this] True show ?thesis
      unfolding t using revoke_members_moves by (auto intro: converse_rtranclp_into_rtranclp)
  next
    case False
    have "index_of slug_key ((ten_orgs s)(orgID \<mapsto> o1)) (ten_orgBySlug s)"
      by (rule index_of_update [OF ix o0(1)]) (use o0 False in \<open>simp add: slug_key_def WithStatus_def\<close>)
    from mv [OF this] False show ?thesis unfolding t by auto
  qed
qed

lemma AddMember_moves:
  assumes "gen_ok lib s"
  shows "ten_move\<^sup>*\<^sup>* s (snd (AddMember lib clk orgID usrID role by1 s))"
proof -
  obtain w where w: "Generate lib 0 ''mem'' = Inr w" using gen_ok_Generate [OF assms ten_types(2)] by blast
  show ?thesis
    using put_member_moves [OF assms, of 0 "\<lparr>mem_ID = w, mem_UsrID = usrID, mem_OrgID = orgID,
        mem_Role = role, mem_Status = StActive, mem_Replaces = None, mem_InvitedBy = by1,
        mem_RemovedBy = None, mem_CreatedAt = clk 0, mem_UpdatedAt = clk 0\<rparr>"] w
    by (auto simp: AddMember_def Let_def)
qed

lemma revoke_move:
  assumes "ten_memberships s k = Some m" and "mem_Status m = StActive"
    and "mem_le m m'" and "mem_Status m' = StRevoked"
  shows "ten_move s (drop_member k m m' s)"
  using assms by (intro mv_drop) auto

lemma mem_le_revoked [simp]:
  "mem_Status m = StActive \<Longrightarrow> mem_le m (revoked_at t m)"
  "mem_Status (revoked_at t m) = StRevoked"
  by (simp_all add: mem_le_def revoked_at_def)

lemma successor_sel [simp]:
  "mem_ID (successor w k r t m) = w" "mem_Status (successor w k r t m) = StActive"
  "mem_OrgID (successor w k r t m) = mem_OrgID m" "mem_UsrID (successor w k r t m) = mem_UsrID m"
  "mem_Role (successor w k r t m) = r" "mem_Replaces (successor w k r t m) = Some k"
  by (simp_all add: successor_def)

lemma swap_moves:
  assumes inv: "ten_inv s" and m: "ten_memberships s k = Some m" "mem_Status m = StActive"
    and w: "ten_memberships s w = None" "w \<noteq> []"
  shows "ten_move\<^sup>*\<^sup>* s (put_member w (successor w k r t m) (drop_member k m (revoked_at t m) s))"
proof -
  have "ten_move s (drop_member k m (revoked_at t m) s)"
    using m by (intro revoke_move) simp_all
  moreover have "w \<noteq> k" using m(1) w(1) by auto
  then have "ten_move (drop_member k m (revoked_at t m) s)
      (put_member w (successor w k r t m) (drop_member k m (revoked_at t m) s))"
    using w ten_invD(9) [OF inv m(1)] by (intro mv_join) auto
  ultimately show ?thesis by (meson converse_rtranclp_into_rtranclp r_into_rtranclp)
qed

lemma ChangeRole_moves:
  assumes inv: "ten_inv s" and g: "gen_ok lib s"
  shows "ten_move\<^sup>*\<^sup>* s (snd (ChangeRole lib clk ks k r s))"
proof -
  obtain w where w: "Generate lib 0 ''mem'' = Inr w" "w \<noteq> []"
    using gen_ok_Generate [OF g ten_types(2)] by blast
  then have "ten_memberships s w = None" using gen_ok_fresh(2) [OF g, of 0] by simp
  from swap_moves [OF inv _ _ this w(2)] w(1) show ?thesis
    by (auto simp: ChangeRole_def Let_def split: option.split)
qed

lemma transitionMembership_moves:
  assumes "to = StActive \<or> to = StSuspended"
  shows "ten_move\<^sup>*\<^sup>* s (snd (transitionMembership clk ks k to rb s))"
proof (cases "ten_memberships s k")
  case None
  then show ?thesis by (simp add: transitionMembership_def)
next
  case (Some m)
  let ?m' = "m\<lparr>mem_Status := to, mem_RemovedBy := (case rb of None \<Rightarrow> mem_RemovedBy m | Some r \<Rightarrow> Some r),
     mem_UpdatedAt := clk 0\<rparr>"
  have le: "mem_Status m \<noteq> StRevoked \<Longrightarrow> mem_le m ?m'" by (simp add: mem_le_def)
  show ?thesis
    using assms le mv_drop [OF Some _ le] mv_restore [OF Some _ le]
    by (auto simp: transitionMembership_def Some Let_def)
qed

lemma changeRoleAtomicLocked_eq:
  "ten_memberships s k = Some m \<Longrightarrow> Generate lib g ''mem'' = Inr w \<Longrightarrow>
   changeRoleAtomicLocked lib g clk c k r s =
     put_member w (successor w k r (clk c) m) (drop_member k m (revoked_at (clk c) m) s)"
  by (simp add: changeRoleAtomicLocked_def mem_lookup_def Let_def)

lemma leave_moves:
  assumes "ten_memberships s k = Some m" and "mem_Status m = StActive"
  shows "ten_move\<^sup>*\<^sup>* s (snd (leave k m b t s))"
proof -
  have "ten_move s (snd (leave k m b t s))"
    unfolding leave_def Let_def snd_conv using assms by (intro revoke_move) (simp_all add: mem_le_def)
  then show ?thesis by blast
qed

text \<open>The transfer in \<open>SelfLeave\<close>: the target is another membership, so the leaver's record is intact.\<close>

lemma SelfLeave_moves:
  assumes inv: "ten_inv s" and g: "gen_ok lib s"
  shows "ten_move\<^sup>*\<^sup>* s (snd (SelfLeave lib clk ks k transferTo s))"
proof (cases "ten_memberships s k")
  case None
  then show ?thesis by (simp add: SelfLeave_def)
next
  case m: (Some m)
  obtain w where w: "Generate lib 0 ''mem'' = Inr w" "w \<noteq> []"
    using gen_ok_Generate [OF g ten_types(2)] by blast
  have wn: "ten_memberships s w = None" using gen_ok_fresh(2) [OF g, of 0] w(1) by simp
  have transfer: "ten_move\<^sup>*\<^sup>* s (snd (leave k m b t (changeRoleAtomicLocked lib 0 clk 0 tt RoleOwner s)))"
    if idx: "ten_activeMemByOrgUsr s key = Some tt" and r: "mem_Role (mem_lookup s tt) \<noteq> RoleOwner"
      "mem_Role m = RoleOwner" "mem_Status m = StActive" for key tt b t
  proof -
    obtain n where n: "ten_memberships s tt = Some n" "mem_Status n = StActive"
      using active_indexD [OF inv idx] by blast
    have ne: "tt \<noteq> k" "w \<noteq> k" using r m n wn by (auto simp: mem_lookup_def)
    let ?s1 = "put_member w (successor w tt RoleOwner (clk 0) n) (drop_member tt n (revoked_at (clk 0) n) s)"
    have "ten_memberships ?s1 k = Some m" using ne m by simp
    then have "ten_move\<^sup>*\<^sup>* ?s1 (snd (leave k m b t ?s1))" using r(3) by (rule leave_moves)
    with swap_moves [OF inv n wn w(2)] show ?thesis
      unfolding changeRoleAtomicLocked_eq [OF n(1) w(1)] by (rule rtranclp_trans)
  qed
  show ?thesis
    using transfer leave_moves [OF m]
    by (auto simp: SelfLeave_def m split: option.split)
qed

lemma AdminRemove_moves: "ten_move\<^sup>*\<^sup>* s (snd (AdminRemove clk ks k a s))"
  using leave_moves by (auto simp: AdminRemove_def Let_def split: option.split)

text \<open>What a successful transfer writes.\<close>

definition transferred :: "clock \<Rightarrow> string \<Rightarrow> string \<Rightarrow> string \<Rightarrow> string \<Rightarrow> Membership \<Rightarrow> Membership \<Rightarrow> tenancy \<Rightarrow> tenancy"
where
  "transferred clk v w fk tk fm tm s =
     put_member w (successor w fk RoleMember (clk 1) fm) (drop_member fk fm (revoked_at (clk 1) fm)
       (put_member v (successor v tk RoleOwner (clk 0) tm) (drop_member tk tm (revoked_at (clk 0) tm) s)))"

lemma TransferOwnership_Inr:
  assumes g: "gen_ok lib s" and r: "TransferOwnership lib clk orgID fk tk s = (Inr res, t)"
  obtains v w fm tm where "Generate lib 0 ''mem'' = Inr v" "Generate lib 1 ''mem'' = Inr w"
    "ten_memberships s fk = Some fm" "mem_OrgID fm = orgID" "mem_Role fm = RoleOwner" "mem_Status fm = StActive"
    "ten_memberships s tk = Some tm" "mem_OrgID tm = orgID" "mem_Status tm = StActive" "fk \<noteq> tk"
    "fk \<noteq> v" "v \<noteq> w" "ten_memberships s v = None" "ten_memberships s w = None" "v \<noteq> []" "w \<noteq> []"
    "t = transferred clk v w fk tk fm tm s"
    "res = (let at = (\<lambda>u. mem_lookup t (case ten_activeMemByOrgUsr t (orgUsrKey orgID u) of None \<Rightarrow> [] | Some x \<Rightarrow> x))
       in \<lparr>tor_FromMembership = at (mem_UsrID fm), tor_ToMembership = at (mem_UsrID tm)\<rparr>)"
proof -
  obtain v where v: "Generate lib 0 ''mem'' = Inr v" "v \<noteq> []" using gen_ok_Generate [OF g ten_types(2)] by blast
  obtain w where w: "Generate lib 1 ''mem'' = Inr w" "w \<noteq> []"
    using gen_ok_Generate [OF g ten_types(2), of 1] by blast
  have n: "ten_memberships s v = None" "ten_memberships s w = None" "v \<noteq> w"
    using gen_ok_fresh(2) [OF g] v(1) w(1) gen_ok_distinct [OF g] by blast+
  obtain fm tm where m: "ten_memberships s fk = Some fm" "mem_OrgID fm = orgID" "mem_Role fm = RoleOwner"
    "mem_Status fm = StActive" "ten_memberships s tk = Some tm" "mem_OrgID tm = orgID"
    "mem_Status tm = StActive" "fk \<noteq> tk"
    using r by (auto simp: TransferOwnership_def split: if_splits option.splits)
  have fv: "fk \<noteq> v" using m(1) n(1) by auto
  have s1: "ten_memberships (put_member v (successor v tk RoleOwner (clk 0) tm)
      (drop_member tk tm (revoked_at (clk 0) tm) s)) fk = Some fm" using fv m(1,8) by simp
  show ?thesis
    by (rule that [OF v(1) w(1) m fv n(3,1,2) v(2) w(2)])
      (use r m in \<open>auto simp: TransferOwnership_def Let_def transferred_def
        changeRoleAtomicLocked_eq [OF m(5) v(1)] changeRoleAtomicLocked_eq [OF s1 w(1)]
        simp del: One_nat_def\<close>)
qed

lemma TransferOwnership_Inl:
  "fst (TransferOwnership lib clk orgID fk tk s) = Inl e \<Longrightarrow> snd (TransferOwnership lib clk orgID fk tk s) = s"
  by (auto simp: TransferOwnership_def Let_def split: if_splits option.splits)

lemma TransferOwnership_moves:
  assumes inv: "ten_inv s" and g: "gen_ok lib s"
  shows "ten_move\<^sup>*\<^sup>* s (snd (TransferOwnership lib clk orgID fk tk s))"
proof (cases "fst (TransferOwnership lib clk orgID fk tk s)")
  case (Inl e)
  then show ?thesis by (simp add: TransferOwnership_Inl)
next
  case (Inr res)
  then have "TransferOwnership lib clk orgID fk tk s = (Inr res, snd (TransferOwnership lib clk orgID fk tk s))"
    by (simp add: prod_eq_iff)
  from TransferOwnership_Inr [OF g this] obtain v w fm tm where
    m: "ten_memberships s fk = Some fm" "mem_Status fm = StActive" "ten_memberships s tk = Some tm"
      "mem_Status tm = StActive" "fk \<noteq> tk" "fk \<noteq> v" "v \<noteq> w" "ten_memberships s v = None"
      "ten_memberships s w = None" "v \<noteq> []" "w \<noteq> []"
    and t: "snd (TransferOwnership lib clk orgID fk tk s) = transferred clk v w fk tk fm tm s" by metis
  let ?s1 = "put_member v (successor v tk RoleOwner (clk 0) tm) (drop_member tk tm (revoked_at (clk 0) tm) s)"
  have one: "ten_move\<^sup>*\<^sup>* s ?s1" by (rule swap_moves [OF inv m(3,4,8,10)])
  have "ten_inv ?s1" by (rule org_moves.inv_run [OF one inv])
  moreover have "w \<noteq> tk" using m(3,9) by auto
  ultimately have "ten_move\<^sup>*\<^sup>* ?s1 (transferred clk v w fk tk fm tm s)"
    unfolding transferred_def using m by (intro swap_moves) auto
  with one show ?thesis unfolding t by (rule rtranclp_trans)
qed

lemma CreateInvitation_moves:
  assumes "gen_ok lib s"
  shows "ten_move\<^sup>*\<^sup>* s (snd (CreateInvitation lib clk orgID ident role by1 ex pts s))"
proof -
  obtain w where w: "Generate lib 0 ''inv'' = Inr w" "w \<noteq> []" using gen_ok_Generate [OF assms ten_types(3)] by blast
  then have "ten_invitations s w = None" using gen_ok_fresh(3) [OF assms, of 0] by simp
  with w show ?thesis
    by (auto simp: CreateInvitation_def Let_def put_invitation_def [symmetric]
        intro!: r_into_rtranclp mv_invite)
qed

lemma GetInvitation_moves: "ten_move\<^sup>*\<^sup>* s (snd (GetInvitation clk k s))"
  and DeclineInvitation_moves: "ten_move\<^sup>*\<^sup>* s (snd (DeclineInvitation clk k u s))"
  and RevokeInvitation_moves: "ten_move\<^sup>*\<^sup>* s (snd (RevokeInvitation clk k a s))"
  using mv_invitation [of s k]
  by (auto simp: GetInvitation_def DeclineInvitation_def RevokeInvitation_def Let_def inv_le_def expire_def
      split: option.split)

text \<open>The branches of an acceptance that write.\<close>

lemma AcceptInvitation_cases:
  obtains (fails) e where "AcceptInvitation lib clk k opts s = (Inl e, s)"
  | (expires) iv where "ten_invitations s k = Some iv" "inv_Status iv = InvPending" "inv_ExpiresAt iv \<le> clk 0"
      "AcceptInvitation lib clk k opts s = (Inl TenInvitationExpired, put_invitation k (expire (clk 1) iv) s)"
  | (accepts) iv u w mem iv' where "ten_invitations s k = Some iv" "inv_Status iv = InvPending"
      "clk 0 < inv_ExpiresAt iv"
      "case aio_AsUsrID opts of None \<Rightarrow> Generate lib 0 ''usr'' = Inr u
       | Some x \<Rightarrow> u = x \<and> aio_AcceptingIdentifier opts = Some (inv_Identifier iv)"
      "ten_activeMemByOrgUsr s (orgUsrKey (inv_OrgID iv) u) = None" "Generate lib 1 ''mem'' = Inr w"
      "mem = \<lparr>mem_ID = w, mem_UsrID = u, mem_OrgID = inv_OrgID iv, mem_Role = inv_Role iv,
         mem_Status = StActive, mem_Replaces = None, mem_InvitedBy = Some (inv_InvitedBy iv),
         mem_RemovedBy = None, mem_CreatedAt = clk 1, mem_UpdatedAt = clk 1\<rparr>"
      "iv' = iv\<lparr>inv_Status := InvAccepted, inv_TerminalAt := Some (clk 1), inv_InvitedUserID := Some u\<rparr>"
      "AcceptInvitation lib clk k opts s =
        (Inr \<lparr>air_Invitation = iv', air_Membership = mem,
              air_MaterializedTuples = mem_tuple mem # map (pre_tuple u) (inv_PreTuples iv)\<rparr>,
         put_invitation k iv' ((put_member w mem s)\<lparr>ten_tuples :=
           put_tuples (map (pre_tuple u) (inv_PreTuples iv)) (ten_tuples (put_member w mem s))\<rparr>))"
proof (cases "\<exists>e. AcceptInvitation lib clk k opts s = (Inl e, s)")
  case True
  then show ?thesis using fails by blast
next
  case False
  then obtain iv where iv: "ten_invitations s k = Some iv" "inv_Status iv = InvPending"
    by (auto simp: AcceptInvitation_def split: option.splits if_splits)
  show ?thesis
  proof (cases "clk 0 < inv_ExpiresAt iv")
    case late: False
    then show ?thesis using iv by (intro expires [of iv]) (simp_all add: AcceptInvitation_def)
  next
    case ok: True
    define who where "who = (case aio_AsUsrID opts of
        None \<Rightarrow> (case Generate lib 0 ''usr'' of Inl err \<Rightarrow> Inl (TenGenerate err) | Inr u \<Rightarrow> Inr u)
      | Some u \<Rightarrow> (case aio_AcceptingIdentifier opts of
            None \<Rightarrow> Inl TenIdentifierBindingRequired
          | Some ident \<Rightarrow> if ident \<noteq> inv_Identifier iv then Inl TenIdentifierMismatch else Inr u))"
    obtain u where u: "who = Inr u"
      using False iv ok by (cases who) (auto simp: AcceptInvitation_def who_def [symmetric])
    have free: "ten_activeMemByOrgUsr s (orgUsrKey (inv_OrgID iv) u) = None"
      using False iv ok u by (auto simp: AcceptInvitation_def who_def [symmetric] split: if_splits)
    obtain w where w: "Generate lib 1 ''mem'' = Inr w"
      using False iv ok u free by (auto simp: AcceptInvitation_def who_def [symmetric] split: sum.splits)
    have b: "case aio_AsUsrID opts of None \<Rightarrow> Generate lib 0 ''usr'' = Inr u
       | Some x \<Rightarrow> u = x \<and> aio_AcceptingIdentifier opts = Some (inv_Identifier iv)"
      using u by (auto simp: who_def split: option.splits sum.splits if_splits)
    show ?thesis
      by (rule accepts [OF iv ok b free w refl refl])
        (use iv ok u free w in \<open>simp add: AcceptInvitation_def who_def [symmetric] Let_def\<close>)
  qed
qed

lemma AcceptInvitation_moves:
  assumes inv: "ten_inv s" and g: "gen_ok lib s"
  shows "ten_move\<^sup>*\<^sup>* s (snd (AcceptInvitation lib clk k opts s))"
proof (cases rule: AcceptInvitation_cases [of lib clk k opts s])
  case (fails e)
  then show ?thesis by simp
next
  case (expires iv)
  have "ten_move s (put_invitation k (expire (clk 1) iv) s)"
    by (rule mv_invitation [OF expires(1)]) (use expires(2) in \<open>simp add: expire_def inv_le_def\<close>)
  then show ?thesis using expires(4) by simp
next
  case (accepts iv u w mem iv')
  let ?s1 = "put_member w mem s"
  let ?s2 = "?s1\<lparr>ten_tuples := put_tuples (map (pre_tuple u) (inv_PreTuples iv)) (ten_tuples ?s1)\<rparr>"
  have "ten_move s ?s1"
    using gen_ok_fresh(2) [OF g, of 1] accepts(6,7) Generate_nonempty ten_invD(10) [OF inv accepts(1)]
    by (intro mv_join) auto
  moreover have "ten_move ?s1 ?s2" by (rule mv_tuples)
  moreover have "ten_move ?s2 (put_invitation k iv' ?s2)"
    by (rule mv_invitation [of _ _ iv]) (use accepts in \<open>simp_all add: inv_le_def\<close>)
  ultimately have "ten_move\<^sup>*\<^sup>* s (put_invitation k iv' ?s2)"
    by (meson converse_rtranclp_into_rtranclp r_into_rtranclp)
  then show ?thesis using accepts(9) by simp
qed

subsection \<open>Method calls\<close>

inductive ten_step :: "tenancy \<Rightarrow> tenancy \<Rightarrow> bool" where
  st_CreateOrg: "gen_ok lib s \<Longrightarrow> ten_step s (snd (CreateOrg lib clk creator coo s))"
| st_UpdateOrg: "ten_step s (snd (UpdateOrg clk orgID uoi s))"
| st_SuspendOrg: "ten_step s (snd (SuspendOrg clk orgID s))"
| st_ReinstateOrg: "ten_step s (snd (ReinstateOrg clk orgID s))"
| st_RevokeOrg: "visits ks (ten_memberships s) \<Longrightarrow> ten_step s (snd (RevokeOrg clk ks orgID s))"
| st_AddMember: "gen_ok lib s \<Longrightarrow> ten_step s (snd (AddMember lib clk orgID usrID role by1 s))"
| st_ChangeRole: "gen_ok lib s \<Longrightarrow> visits ks (ten_memberships s) \<Longrightarrow>
    ten_step s (snd (ChangeRole lib clk ks k role s))"
| st_SuspendMembership: "visits ks (ten_memberships s) \<Longrightarrow>
    ten_step s (snd (SuspendMembership clk ks k s))"
| st_ReinstateMembership: "visits ks (ten_memberships s) \<Longrightarrow>
    ten_step s (snd (ReinstateMembership clk ks k s))"
| st_SelfLeave: "gen_ok lib s \<Longrightarrow> visits ks (ten_memberships s) \<Longrightarrow>
    ten_step s (snd (SelfLeave lib clk ks k transferTo s))"
| st_AdminRemove: "visits ks (ten_memberships s) \<Longrightarrow> ten_step s (snd (AdminRemove clk ks k usrID s))"
| st_TransferOwnership: "gen_ok lib s \<Longrightarrow> ten_step s (snd (TransferOwnership lib clk orgID k k' s))"
| st_CreateInvitation: "gen_ok lib s \<Longrightarrow>
    ten_step s (snd (CreateInvitation lib clk orgID ident role usrID expires pts s))"
| st_GetInvitation: "ten_step s (snd (GetInvitation clk k s))"
| st_AcceptInvitation: "gen_ok lib s \<Longrightarrow> ten_step s (snd (AcceptInvitation lib clk k aio s))"
| st_DeclineInvitation: "ten_step s (snd (DeclineInvitation clk k asUsr s))"
| st_RevokeInvitation: "ten_step s (snd (RevokeInvitation clk k usrID s))"

lemmas method_moves = CreateOrg_moves UpdateOrg_moves AddMember_moves ChangeRole_moves SelfLeave_moves
  AdminRemove_moves TransferOwnership_moves CreateInvitation_moves GetInvitation_moves
  AcceptInvitation_moves DeclineInvitation_moves RevokeInvitation_moves

lemma ten_step_moves:
  assumes "ten_step s t" and "ten_inv s"
  shows "ten_move\<^sup>*\<^sup>* s t"
  using assms
  by (induction rule: ten_step.induct)
    (simp_all add: method_moves SuspendOrg_def ReinstateOrg_def RevokeOrg_def transitionOrg_moves
      SuspendMembership_def ReinstateMembership_def transitionMembership_moves)

lemma ten_step_inv: "ten_step s t \<Longrightarrow> ten_inv s \<Longrightarrow> ten_inv t"
  using ten_step_moves org_moves.inv_run by blast

lemma ten_step_org_le:
  "ten_step s t \<Longrightarrow> ten_inv s \<Longrightarrow> ten_orgs s k = Some v \<Longrightarrow> \<exists>w. ten_orgs t k = Some w \<and> org_le v w"
  using ten_step_moves org_moves.entity_run by blast

lemma ten_step_mem_le:
  "ten_step s t \<Longrightarrow> ten_inv s \<Longrightarrow> ten_memberships s k = Some v \<Longrightarrow>
    \<exists>w. ten_memberships t k = Some w \<and> mem_le v w"
  using ten_step_moves mem_moves.entity_run by blast

lemma ten_step_inv_le:
  "ten_step s t \<Longrightarrow> ten_inv s \<Longrightarrow> ten_invitations s k = Some v \<Longrightarrow>
    \<exists>w. ten_invitations t k = Some w \<and> inv_le v w"
  using ten_step_moves inv_moves.entity_run by blast

interpretation orgs: entity_store "\<lambda>s. s = NewInMemoryTenancyStore" ten_step ten_inv ten_orgs org_le
  by unfold_locales (auto intro: ten_step_inv le_transs dest: ten_step_org_le)

interpretation members: entity_store "\<lambda>s. s = NewInMemoryTenancyStore" ten_step ten_inv
  ten_memberships mem_le
  by unfold_locales (auto intro: le_transs dest: ten_step_mem_le)

interpretation invitations: entity_store "\<lambda>s. s = NewInMemoryTenancyStore" ten_step ten_inv
  ten_invitations inv_le
  by unfold_locales (auto intro: le_transs dest: ten_step_inv_le)

end
