(* ===== verification/TenancyClaims.thy ===== *)
theory TenancyClaims
  imports TenancyRuns
begin

text \<open>
  What the tenancy store promises: unique slugs and sound indexes in every reachable state, an
  organization that keeps an active owner until it is revoked, invitations that are answered once,
  the guards of \<open>AdminRemove\<close>, the exact effect of \<open>TransferOwnership\<close> and of \<open>RevokeOrg\<close>; and two
  runs that break the uniqueness of active memberships and the end of a revoked organization.
\<close>

subsection \<open>Owners\<close>

definition owners :: "tenancy \<Rightarrow> string \<Rightarrow> string set" where
  "owners s orgID = {k. \<exists>m. ten_memberships s k = Some m \<and> mem_OrgID m = orgID \<and>
     mem_Status m = StActive \<and> mem_Role m = RoleOwner}"

lemma in_owners: "k \<in> owners s orgID \<longleftrightarrow> (\<exists>m. ten_memberships s k = Some m \<and> mem_OrgID m = orgID \<and>
     mem_Status m = StActive \<and> mem_Role m = RoleOwner)"
  by (simp add: owners_def)

lemma owners_finite: "ten_inv s \<Longrightarrow> finite (owners s orgID)"
  by (rule finite_subset [OF _ ten_invD(5)]) (auto simp: owners_def)

lemma foldl_count: "foldl (\<lambda>n x. if P x then n + 1 else n) a xs = a + length (filter P xs)" for a :: nat
  by (induction xs arbitrary: a) auto

lemma length_filter_go_range:
  "distinct ks \<Longrightarrow> length (filter P (go_range m ks)) = card {k \<in> set ks. \<exists>v. m k = Some v \<and> P v}"
proof (induction ks)
  case (Cons k ks)
  have s: "{k' \<in> set (k # ks). \<exists>v. m k' = Some v \<and> P v} =
    (if \<exists>v. m k = Some v \<and> P v then insert k else id) {k \<in> set ks. \<exists>v. m k = Some v \<and> P v}"
    by auto
  show ?case unfolding s using Cons by (cases "m k") auto
qed simp

lemma count_owners:
  assumes "visits ks (ten_memberships s)"
  shows "countActiveOwnersLocked ks orgID s = card (owners s orgID)"
proof -
  have "{k \<in> set ks. \<exists>v. ten_memberships s k = Some v \<and> mem_OrgID v = orgID \<and>
     mem_Status v = StActive \<and> mem_Role v = RoleOwner} = owners s orgID"
    using assms by (auto simp: owners_def visits_def)
  then show ?thesis
    unfolding countActiveOwnersLocked_def foldl_count add_0
    by (subst length_filter_go_range) (use assms in \<open>simp_all add: visits_def\<close>)
qed

lemma other_owner:
  assumes "ten_inv s" and "visits ks (ten_memberships s)" and "k \<in> owners s orgID"
    and "countActiveOwnersLocked ks orgID s \<noteq> 1"
  obtains k' where "k' \<in> owners s orgID" "k' \<noteq> k"
proof -
  have "card (owners s orgID) \<noteq> 1" using assms(4) unfolding count_owners [OF assms(2)] .
  then have "\<not> owners s orgID \<subseteq> {k}" using assms(3) by (metis card_1_singleton_iff subset_singletonD empty_iff One_nat_def)
  then show ?thesis using that by blast
qed

text \<open>Writes that leave the active memberships as they are.\<close>

definition actives_kept :: "tenancy \<Rightarrow> tenancy \<Rightarrow> bool" where
  "actives_kept s t \<longleftrightarrow> (\<forall>k m. ten_memberships s k = Some m \<longrightarrow> mem_Status m = StActive \<longrightarrow>
     ten_memberships t k = Some m)"

lemma actives_kept_refl [simp]: "actives_kept s s"
  by (simp add: actives_kept_def)

lemma actives_kept_same: "ten_memberships t = ten_memberships s \<Longrightarrow> actives_kept s t"
  by (simp add: actives_kept_def)

lemma actives_kept_put:
  "ten_memberships s k = None \<or> (\<exists>m0. ten_memberships s k = Some m0 \<and> mem_Status m0 \<noteq> StActive) \<Longrightarrow>
   ten_memberships t = (ten_memberships s)(k \<mapsto> m) \<Longrightarrow> actives_kept s t"
  by (auto simp: actives_kept_def)

lemma owners_kept: "actives_kept s t \<Longrightarrow> owners s orgID \<subseteq> owners t orgID"
  by (auto simp: actives_kept_def owners_def)

lemma owners_drop: "owners s orgID - {k} \<subseteq> owners (drop_member k m m' s) orgID"
  by (auto simp: owners_def)

lemma owners_drop_other:
  "ten_memberships s k = Some m \<Longrightarrow> \<not> (mem_OrgID m = orgID \<and> mem_Role m = RoleOwner \<and> mem_Status m = StActive) \<Longrightarrow>
   owners s orgID \<subseteq> owners (drop_member k m m' s) orgID"
  by (auto simp: owners_def)

lemma owners_put: "ten_memberships s k = None \<Longrightarrow> owners s orgID \<subseteq> owners (put_member k m s) orgID"
  by (auto simp: owners_def)

text \<open>Dropping a member is safe when he is not the only active owner of his organization.\<close>

lemma drop_keeps_owner:
  assumes "ten_inv s" and "visits ks (ten_memberships s)" and "ten_memberships s k = Some m"
    and "mem_Status m = StActive \<longrightarrow> mem_Role m = RoleOwner \<longrightarrow> countActiveOwnersLocked ks (mem_OrgID m) s \<noteq> 1"
    and "owners s orgID \<noteq> {}"
  shows "owners (drop_member k m m' s) orgID \<noteq> {}"
proof (cases "mem_OrgID m = orgID \<and> mem_Role m = RoleOwner \<and> mem_Status m = StActive")
  case True
  then have "k \<in> owners s orgID" using assms(3) by (auto simp: owners_def)
  with True assms obtain k' where "k' \<in> owners s orgID" "k' \<noteq> k"
    by (metis other_owner)
  then show ?thesis using owners_drop [of s orgID k m m'] by blast
next
  case False
  then show ?thesis using owners_drop_other [OF assms(3) False] assms(5) by blast
qed

subsection \<open>An organization keeps an active owner\<close>

lemma kept_easy:
  shows "actives_kept s (snd (UpdateOrg clk orgID uoi s))"
    and "actives_kept s (snd (CreateInvitation lib clk orgID ident role usrID expires pts s))"
    and "actives_kept s (snd (GetInvitation clk k s))"
    and "actives_kept s (snd (DeclineInvitation clk k asUsr s))"
    and "actives_kept s (snd (RevokeInvitation clk k usrID s))"
    and "to \<noteq> StRevoked \<Longrightarrow> actives_kept s (snd (transitionOrg clk ks orgID to s))"
proof -
  show "actives_kept s (snd (UpdateOrg clk orgID uoi s))"
    by (rule actives_kept_same) (simp add: UpdateOrg_def Let_def split: option.split)
  show "actives_kept s (snd (CreateInvitation lib clk orgID ident role usrID expires pts s))"
    by (rule actives_kept_same) (simp add: CreateInvitation_def Let_def split: sum.split)
  show "actives_kept s (snd (GetInvitation clk k s))"
    by (rule actives_kept_same) (simp add: GetInvitation_def Let_def split: option.split)
  show "actives_kept s (snd (DeclineInvitation clk k asUsr s))"
    by (rule actives_kept_same) (simp add: DeclineInvitation_def Let_def split: option.split)
  show "actives_kept s (snd (RevokeInvitation clk k usrID s))"
    by (rule actives_kept_same) (simp add: RevokeInvitation_def Let_def split: option.split)
  show "actives_kept s (snd (transitionOrg clk ks orgID to s))" if "to \<noteq> StRevoked"
    by (rule actives_kept_same) (use that in \<open>simp add: transitionOrg_def Let_def split: option.split\<close>)
qed

lemma kept_joins:
  assumes "gen_ok lib s"
  shows "actives_kept s (snd (CreateOrg lib clk creator coo s))"
    and "actives_kept s (snd (AddMember lib clk orgID usrID role by1 s))"
    and "actives_kept s (snd (AcceptInvitation lib clk k aio s))"
proof -
  have new: "ten_memberships s w = None" if "Generate lib n ''mem'' = Inr w" "n \<in> {0, 1}" for n w
    using gen_ok_fresh(2) [OF assms] that by blast
  show "actives_kept s (snd (CreateOrg lib clk creator coo s))"
    using new [of 1]
    by (auto simp: CreateOrg_def Let_def actives_kept_def simp del: One_nat_def split: option.split sum.split)
  show "actives_kept s (snd (AddMember lib clk orgID usrID role by1 s))"
    using new [of 0] by (auto simp: AddMember_def Let_def actives_kept_def split: sum.split)
  show "actives_kept s (snd (AcceptInvitation lib clk k aio s))"
    by (rule AcceptInvitation_cases [of lib clk k aio s])
      (use new [of 1] in \<open>auto simp: actives_kept_def simp del: One_nat_def\<close>)
qed

lemma ChangeRole_owner:
  assumes "ten_inv s" and g: "gen_ok lib s" and "visits ks (ten_memberships s)"
    and own: "owners s orgID \<noteq> {}"
  shows "owners (snd (ChangeRole lib clk ks k role s)) orgID \<noteq> {}"
proof (cases "\<exists>r. ChangeRole lib clk ks k role s = (r, s)")
  case True
  then show ?thesis using own by auto
next
  case False
  then obtain m where m: "ten_memberships s k = Some m" "mem_Status m = StActive" "mem_Role m \<noteq> role"
    "\<not> (mem_Role m = RoleOwner \<and> role \<noteq> RoleOwner \<and> countActiveOwnersLocked ks (mem_OrgID m) s = 1)"
    by (auto simp: ChangeRole_def split: option.splits if_splits)
  let ?s1 = "drop_member k m (revoked_at (clk 0) m) s"
  obtain w where w: "Generate lib 0 ''mem'' = Inr w" using gen_ok_Generate [OF g ten_types(2)] by blast
  have "ten_memberships s w = None" using gen_ok_fresh(2) [OF g _ w] by blast
  then have n: "ten_memberships ?s1 w = None" using m(1) by auto
  have "owners ?s1 orgID \<noteq> {}"
    by (rule drop_keeps_owner [OF assms(1,3) m(1) _ own]) (use m in auto)
  moreover have "snd (ChangeRole lib clk ks k role s) = put_member w (successor w k role (clk 0) m) ?s1"
    using m w by (auto simp: ChangeRole_def Let_def)
  ultimately show ?thesis using owners_put [OF n] by auto
qed

lemma transitionMembership_owner:
  assumes "ten_inv s" and "visits ks (ten_memberships s)" and own: "owners s orgID \<noteq> {}"
  shows "owners (snd (transitionMembership clk ks k to rb s)) orgID \<noteq> {}"
proof (cases "\<exists>r. transitionMembership clk ks k to rb s = (r, s)")
  case True
  then show ?thesis using own by auto
next
  case False
  then obtain m where m: "ten_memberships s k = Some m" "mem_Status m \<noteq> StRevoked"
    "\<not> (to \<noteq> StActive \<and> mem_Status m = StActive \<and> mem_Role m = RoleOwner \<and>
        countActiveOwnersLocked ks (mem_OrgID m) s = 1)"
    "to = StActive \<Longrightarrow> mem_Status m = StSuspended"
    by (auto simp: transitionMembership_def Let_def split: option.splits if_splits)
  obtain m' where t: "snd (transitionMembership clk ks k to rb s) =
      (if to = StActive then put_member k m' s else drop_member k m m' s)"
    using m False by (auto simp: transitionMembership_def Let_def split: if_splits)
  show ?thesis
  proof (cases "to = StActive")
    case True
    then have "actives_kept s (put_member k m' s)" using m by (auto simp: actives_kept_def)
    then show ?thesis using True owners_kept own unfolding t by fastforce
  next
    case False
    then show ?thesis using drop_keeps_owner [OF assms(1,2) m(1) _ own] m(3) unfolding t by auto
  qed
qed

lemma AdminRemove_owner:
  assumes "ten_inv s" and "visits ks (ten_memberships s)" and own: "owners s orgID \<noteq> {}"
  shows "owners (snd (AdminRemove clk ks k usr s)) orgID \<noteq> {}"
proof (cases "\<exists>r. AdminRemove clk ks k usr s = (r, s)")
  case True
  then show ?thesis using own by auto
next
  case False
  then obtain m where m: "ten_memberships s k = Some m" "mem_Status m = StActive"
    "\<not> (mem_Role m = RoleOwner \<and> countActiveOwnersLocked ks (mem_OrgID m) s = 1)"
    by (auto simp: AdminRemove_def Let_def split: option.splits if_splits)
  then obtain m' where "snd (AdminRemove clk ks k usr s) = drop_member k m m' s"
    using False by (auto simp: AdminRemove_def leave_def Let_def split: option.splits if_splits)
  then show ?thesis using drop_keeps_owner [OF assms(1,2) m(1) _ own] m(3) by auto
qed

lemma swap_to_owner:
  assumes "ten_memberships s k = Some m" and "ten_memberships s w = None" and "owners s orgID \<noteq> {}"
  shows "owners (put_member w (successor w k RoleOwner t m) (drop_member k m m' s)) orgID \<noteq> {}"
    and "mem_OrgID m = orgID \<Longrightarrow>
      w \<in> owners (put_member w (successor w k RoleOwner t m) (drop_member k m m' s)) orgID"
proof -
  let ?t = "put_member w (successor w k RoleOwner t m) (drop_member k m m' s)"
  show w: "w \<in> owners ?t orgID" if "mem_OrgID m = orgID" using that by (simp add: owners_def)
  show "owners ?t orgID \<noteq> {}"
  proof (cases "mem_OrgID m = orgID")
    case False
    have "owners s orgID \<subseteq> owners (drop_member k m m' s) orgID"
      by (rule owners_drop_other [OF assms(1)]) (use False in simp)
    also have "\<dots> \<subseteq> owners ?t orgID" by (rule owners_put) (use assms in auto)
    finally show ?thesis using assms(3) by blast
  qed (use w in blast)
qed

lemma SelfLeave_owner:
  assumes inv: "ten_inv s" and g: "gen_ok lib s" and v: "visits ks (ten_memberships s)"
    and own: "owners s orgID \<noteq> {}"
  shows "owners (snd (SelfLeave lib clk ks k transferTo s)) orgID \<noteq> {}"
proof (cases "\<exists>r. SelfLeave lib clk ks k transferTo s = (r, s)")
  case True
  then show ?thesis using own by auto
next
  case False
  then obtain m where m: "ten_memberships s k = Some m" "mem_Status m = StActive"
    by (auto simp: SelfLeave_def split: option.splits if_splits)
  show ?thesis
  proof (cases "mem_Role m = RoleOwner \<and> countActiveOwnersLocked ks (mem_OrgID m) s = 1")
    case lone: False
    then obtain m' where "snd (SelfLeave lib clk ks k transferTo s) = drop_member k m m' s"
      using m by (auto simp: SelfLeave_def leave_def Let_def)
    then show ?thesis using drop_keeps_owner [OF inv v m(1) _ own] lone by auto
  next
    case True
    then obtain target tt where tt: "transferTo = Some target"
      "ten_activeMemByOrgUsr s (orgUsrKey (mem_OrgID m) target) = Some tt"
      "mem_Role (mem_lookup s tt) \<noteq> RoleOwner"
      using False m by (auto simp: SelfLeave_def split: option.splits if_splits)
    obtain n where n: "ten_memberships s tt = Some n" "mem_index_key n = orgUsrKey (mem_OrgID m) target"
      using active_indexD [OF inv tt(2)] by blast
    have org: "mem_OrgID n = mem_OrgID m"
      using n(2) orgUsrKey_inj ten_invD(8) [OF inv ten_invD(9) [OF inv n(1)]]
        ten_invD(8) [OF inv ten_invD(9) [OF inv m(1)]] by (simp add: mem_index_key_def)
    obtain w where w: "Generate lib 0 ''mem'' = Inr w" using gen_ok_Generate [OF g ten_types(2)] by blast
    have wn: "ten_memberships s w = None" using gen_ok_fresh(2) [OF g _ w] by blast
    let ?s1 = "put_member w (successor w tt RoleOwner (clk 0) n) (drop_member tt n (revoked_at (clk 0) n) s)"
    have s1: "owners ?s1 orgID \<noteq> {}" "mem_OrgID n = orgID \<Longrightarrow> w \<in> owners ?s1 orgID"
      by (rule swap_to_owner [OF n(1) wn own], assumption?)+
    have ne: "tt \<noteq> k" "w \<noteq> k" using m n tt(3) True wn by (auto simp: mem_lookup_def)
    obtain m' where t: "snd (SelfLeave lib clk ks k transferTo s) = drop_member k m m' ?s1"
      using True m tt by (simp add: SelfLeave_def leave_def Let_def changeRoleAtomicLocked_eq [OF n(1) w])
    have s1k: "ten_memberships ?s1 k = Some m" using ne m by simp
    show ?thesis
    proof (cases "mem_OrgID m = orgID")
      case True
      then have "w \<in> owners ?s1 orgID - {k}" using s1(2) org ne by auto
      then show ?thesis unfolding t using owners_drop by blast
    next
      case False
      then show ?thesis unfolding t using owners_drop_other [OF s1k] s1(1) by blast
    qed
  qed
qed

lemma TransferOwnership_owner:
  assumes inv: "ten_inv s" and g: "gen_ok lib s" and own: "owners s orgID \<noteq> {}"
  shows "owners (snd (TransferOwnership lib clk org2 fk tk s)) orgID \<noteq> {}"
proof (cases "fst (TransferOwnership lib clk org2 fk tk s)")
  case (Inl e)
  then show ?thesis using own by (simp add: TransferOwnership_Inl)
next
  case (Inr res)
  then have "TransferOwnership lib clk org2 fk tk s = (Inr res, snd (TransferOwnership lib clk org2 fk tk s))"
    by (simp add: prod_eq_iff)
  from TransferOwnership_Inr [OF g this] obtain v w fm tm where
    m: "ten_memberships s fk = Some fm" "mem_OrgID fm = org2" "ten_memberships s tk = Some tm"
      "mem_OrgID tm = org2" "fk \<noteq> tk" "fk \<noteq> v" "v \<noteq> w" "ten_memberships s v = None"
      "ten_memberships s w = None"
    and t: "snd (TransferOwnership lib clk org2 fk tk s) = transferred clk v w fk tk fm tm s" by metis
  let ?s1 = "put_member v (successor v tk RoleOwner (clk 0) tm) (drop_member tk tm (revoked_at (clk 0) tm) s)"
  let ?s2 = "drop_member fk fm (revoked_at (clk 1) fm) ?s1"
  have s1: "owners ?s1 orgID \<noteq> {}" "org2 = orgID \<Longrightarrow> v \<in> owners ?s1 orgID"
    using swap_to_owner [OF m(3,8) own] m(4) by auto
  have "owners ?s2 orgID \<noteq> {}"
  proof (cases "org2 = orgID")
    case True
    then show ?thesis using s1(2) m(6) owners_drop [of ?s1 orgID fk fm] by blast
  next
    case False
    have "owners ?s1 orgID \<subseteq> owners ?s2 orgID"
      by (rule owners_drop_other) (use m False in auto)
    then show ?thesis using s1(1) by blast
  qed
  moreover have "ten_memberships ?s2 w = None" using m by auto
  ultimately show ?thesis unfolding t transferred_def using owners_put by blast
qed

lemma revoke_members_other:
  "distinct ks \<Longrightarrow> ten_memberships s k = Some m \<Longrightarrow> \<not> cascade_hit orgID m \<Longrightarrow>
   ten_memberships (revoke_members clk orgID n ks s) k = Some m"
  using revoke_members_mem [of ks clk orgID n s k] by auto

lemma RevokeOrg_owner:
  assumes v: "visits ks (ten_memberships s)" and own: "owners s orgID \<noteq> {}"
  shows "owners (snd (RevokeOrg clk ks org2 s)) orgID \<noteq> {} \<or>
    (\<exists>o1. ten_orgs (snd (RevokeOrg clk ks org2 s)) orgID = Some o1 \<and> org_Status o1 = StRevoked)"
proof (cases "fst (RevokeOrg clk ks org2 s)")
  case (Inl e)
  then show ?thesis using own by (simp add: RevokeOrg_def transitionOrg_Inl)
next
  case (Inr o1)
  then have r: "transitionOrg clk ks org2 StRevoked s = (Inr o1, snd (RevokeOrg clk ks org2 s))"
    by (simp add: prod_eq_iff RevokeOrg_def)
  obtain o0 where o1: "o1 = WithStatus o0 StRevoked (clk 0)" and
    t: "snd (RevokeOrg clk ks org2 s) = revoke_members clk org2 1 ks (s\<lparr>ten_orgs := (ten_orgs s)(org2 \<mapsto> o1),
      ten_orgBySlug := (case org_Slug o0 of None \<Rightarrow> ten_orgBySlug s | Some sl \<Rightarrow> (ten_orgBySlug s)(sl := None))\<rparr>)"
    using transitionOrg_Inr [OF r] by auto
  show ?thesis
  proof (cases "org2 = orgID")
    case True
    then show ?thesis unfolding t o1 by (simp add: WithStatus_def)
  next
    case False
    have "owners s orgID \<subseteq> owners (snd (RevokeOrg clk ks org2 s)) orgID"
    proof
      fix k assume "k \<in> owners s orgID"
      then obtain m where m: "ten_memberships s k = Some m" "mem_OrgID m = orgID" "mem_Status m = StActive"
        "mem_Role m = RoleOwner" by (auto simp: owners_def)
      have "distinct ks" using v by blast
      then show "k \<in> owners (snd (RevokeOrg clk ks org2 s)) orgID"
        unfolding t in_owners using m False by (intro exI [of _ m]) (simp add: revoke_members_other cascade_hit_def)
    qed
    then show ?thesis using own by blast
  qed
qed

definition org_revoked :: "tenancy \<Rightarrow> string \<Rightarrow> bool" where
  "org_revoked s orgID \<longleftrightarrow> (\<exists>o1. ten_orgs s orgID = Some o1 \<and> org_Status o1 = StRevoked)"

lemma kept_owner: "actives_kept s t \<Longrightarrow> owners s orgID \<noteq> {} \<Longrightarrow> owners t orgID \<noteq> {} \<or> P"
  using owners_kept by blast

lemma ten_step_owner:
  assumes "ten_step s t" and "ten_inv s" and "owners s orgID \<noteq> {}"
  shows "owners t orgID \<noteq> {} \<or> org_revoked t orgID"
  using assms
proof (induction rule: ten_step.induct)
  case (st_RevokeOrg ks s clk org2)
  then show ?case unfolding org_revoked_def by (intro RevokeOrg_owner)
next
  case (st_ChangeRole lib s ks clk k role)
  then show ?case using ChangeRole_owner by blast
next
  case (st_SuspendMembership ks s clk k)
  then show ?case unfolding SuspendMembership_def using transitionMembership_owner by blast
next
  case (st_ReinstateMembership ks s clk k)
  then show ?case unfolding ReinstateMembership_def using transitionMembership_owner by blast
next
  case (st_SelfLeave lib s ks clk k transferTo)
  then show ?case using SelfLeave_owner by blast
next
  case (st_AdminRemove ks s clk k usrID)
  then show ?case using AdminRemove_owner by blast
next
  case (st_TransferOwnership lib s clk org2 k k')
  then show ?case using TransferOwnership_owner by blast
next
  case (st_SuspendOrg s clk org2)
  then show ?case
    using kept_owner [OF kept_easy(6) [of StSuspended s clk "[]" org2]] unfolding SuspendOrg_def by blast
next
  case (st_ReinstateOrg s clk org2)
  then show ?case
    using kept_owner [OF kept_easy(6) [of StActive s clk "[]" org2]] unfolding ReinstateOrg_def by blast
qed ((rule kept_owner, (rule kept_easy(1-5) kept_joins; assumption?), assumption)+)

lemma ten_step_revoked:
  "ten_step s t \<Longrightarrow> ten_inv s \<Longrightarrow> org_revoked s orgID \<Longrightarrow> org_revoked t orgID"
  unfolding org_revoked_def using ten_step_org_le [of s t orgID] org_le_def by metis

interpretation owned: stable_system "\<lambda>s. s = NewInMemoryTenancyStore" ten_step ten_inv
  "\<lambda>orgID s. owners s orgID \<noteq> {} \<or> org_revoked s orgID"
proof unfold_locales
  fix s t orgID
  assume "ten_inv s" "ten_step s t" "owners s orgID \<noteq> {} \<or> org_revoked s orgID"
  then show "owners t orgID \<noteq> {} \<or> org_revoked t orgID"
    using ten_step_owner [of s t orgID] ten_step_revoked [of s t orgID] by blast
qed

lemma CreateOrg_Inr:
  assumes "CreateOrg lib clk creator opts s = (Inr res, t)"
  shows "ten_orgs t (org_ID (cor_Org res)) = Some (cor_Org res)"
    "ten_memberships t (mem_ID (cor_OwnerMembership res)) = Some (cor_OwnerMembership res)"
    "mem_OrgID (cor_OwnerMembership res) = org_ID (cor_Org res)"
    "mem_Role (cor_OwnerMembership res) = RoleOwner" "mem_UsrID (cor_OwnerMembership res) = creator"
    "mem_Status (cor_OwnerMembership res) = StActive" "org_Status (cor_Org res) = StActive"
  using assms by (auto simp: CreateOrg_def Let_def split: option.splits sum.splits if_splits)

text \<open>C17: An organization is never left without an owner.  After \<open>CreateOrg\<close> has succeeded in a
  reachable state, in every later state the organization has an active membership with the role
  owner, whatever calls of the 17 methods that write (role changes, suspensions, leaving, removals
  and transfers of ownership included) have been made, or it has been revoked.\<close>

theorem organization_keeps_owner:
  assumes "ten_step\<^sup>*\<^sup>* NewInMemoryTenancyStore s" and "gen_ok lib s"
    and "CreateOrg lib clk creator opts s = (Inr res, t)" and "ten_step\<^sup>*\<^sup>* t u"
    and "orgID = org_ID (cor_Org res)"
  shows "(\<exists>k m. ten_memberships u k = Some m \<and> mem_OrgID m = orgID \<and> mem_Status m = StActive \<and>
      mem_Role m = RoleOwner) \<or> (\<exists>o1. ten_orgs u orgID = Some o1 \<and> org_Status o1 = StRevoked)"
proof -
  have "ten_inv s" using orgs.inv_reachable assms(1) by blast
  then have "ten_inv t" using ten_step_inv [OF st_CreateOrg [OF assms(2)]] assms(3) by (metis snd_conv)
  moreover have "owners t orgID \<noteq> {}"
    using CreateOrg_Inr [OF assms(3)] assms(5) by (auto simp: owners_def)
  ultimately have "owners u orgID \<noteq> {} \<or> org_revoked u orgID"
    using owned.stable_run [OF assms(4)] by blast
  then show ?thesis by (auto simp: owners_def org_revoked_def)
qed

subsection \<open>Concrete runs\<close>

lemma gen_ok_demo:
  assumes "in_class hex_lower x"
    and "\<forall>n \<in> {0, 1}. fresh_for (demo_seq x) n ''org'' (ten_orgs s) \<and>
      fresh_for (demo_seq x) n ''mem'' (ten_memberships s) \<and> fresh_for (demo_seq x) n ''inv'' (ten_invitations s)"
  shows "gen_ok (demo_seq x) s"
  using assms demo_seq_ok [OF assms(1)] by (simp add: gen_ok_def demo_seq_def demo_uuid_def)

definition ten_fresh :: "char \<Rightarrow> tenancy \<Rightarrow> bool" where
  "ten_fresh x s \<longleftrightarrow> in_class hex_lower x \<and> (\<forall>n \<in> {0, 1}. fresh_for (demo_seq x) n ''org'' (ten_orgs s) \<and>
      fresh_for (demo_seq x) n ''mem'' (ten_memberships s) \<and> fresh_for (demo_seq x) n ''inv'' (ten_invitations s))"

lemma ten_fresh_ok: "ten_fresh x s \<Longrightarrow> gen_ok (demo_seq x) s"
  unfolding ten_fresh_def using gen_ok_demo by blast

definition demo_org :: string where "demo_org = ''org_0190f2a81b3c7abc8123456789abcda0''"
definition demo_ann :: string where "demo_ann = ''mem_0190f2a81b3c7abc8123456789abcda1''"
definition demo_bob :: string where "demo_bob = ''mem_0190f2a81b3c7abc8123456789abcdb0''"

definition demo_ten1 :: tenancy where
  "demo_ten1 = snd (CreateOrg (demo_seq CHR ''a'') (\<lambda>_. 7) ''ann''
     \<lparr>coo_Name = None, coo_Slug = Some ''acme''\<rparr> NewInMemoryTenancyStore)"

definition demo_ten2 :: tenancy where
  "demo_ten2 = snd (AddMember (demo_seq CHR ''b'') (\<lambda>_. 8) demo_org ''bob'' RoleMember None demo_ten1)"

lemma demo_ten1_run: "ten_step\<^sup>*\<^sup>* NewInMemoryTenancyStore demo_ten1"
proof -
  have "ten_fresh CHR ''a'' NewInMemoryTenancyStore" by code_simp
  then show ?thesis unfolding demo_ten1_def by (intro r_into_rtranclp st_CreateOrg ten_fresh_ok)
qed

lemma demo_ten2_run: "ten_step\<^sup>*\<^sup>* NewInMemoryTenancyStore demo_ten2"
proof -
  have "ten_fresh CHR ''b'' demo_ten1" by code_simp
  then show ?thesis unfolding demo_ten2_def
    by (intro rtranclp.rtrancl_into_rtrancl [OF demo_ten1_run] st_AddMember ten_fresh_ok)
qed

theorem organization_keeps_owner_witness:
  "(\<exists>k m. ten_memberships demo_ten2 k = Some m \<and> mem_OrgID m = demo_org \<and> mem_Status m = StActive \<and>
      mem_Role m = RoleOwner) \<or> (\<exists>o1. ten_orgs demo_ten2 demo_org = Some o1 \<and> org_Status o1 = StRevoked)"
proof -
  have f: "ten_fresh CHR ''a'' NewInMemoryTenancyStore" by code_simp
  let ?r = "CreateOrg (demo_seq CHR ''a'') (\<lambda>_. 7) ''ann'' \<lparr>coo_Name = None, coo_Slug = Some ''acme''\<rparr>
      NewInMemoryTenancyStore"
  have "case fst ?r of Inl _ \<Rightarrow> False | Inr r \<Rightarrow> org_ID (cor_Org r) = demo_org" by code_simp
  then obtain res where res: "?r = (Inr res, demo_ten1)" "demo_org = org_ID (cor_Org res)"
    unfolding demo_ten1_def by (cases ?r) (auto split: sum.splits)
  have "ten_fresh CHR ''b'' demo_ten1" by code_simp
  then have "ten_step\<^sup>*\<^sup>* demo_ten1 demo_ten2"
    unfolding demo_ten2_def by (intro r_into_rtranclp st_AddMember ten_fresh_ok)
  then show ?thesis
    by (rule organization_keeps_owner [OF rtranclp.rtrancl_refl ten_fresh_ok [OF f] res(1) _ res(2)])
qed

subsection \<open>Runs that break what the indexes promise\<close>

text \<open>Without the sole-owner guard the visiting order of a suspension does not matter.\<close>

lemma suspend_step:
  assumes "ten_inv s"
    and "case ten_memberships s k of None \<Rightarrow> True | Some m \<Rightarrow> mem_Role m \<noteq> RoleOwner"
  shows "ten_step s (snd (SuspendMembership clk [] k s))"
proof -
  obtain ks where ks: "visits ks (ten_memberships s)" using visits_exists ten_invD(5) [OF assms(1)] by blast
  have "SuspendMembership clk ks k s = SuspendMembership clk [] k s"
    using assms(2) by (cases "ten_memberships s k") (simp_all add: SuspendMembership_def transitionMembership_def Let_def)
  with st_SuspendMembership [OF ks, of clk k] show ?thesis by simp
qed

definition demo_bob2 :: string where "demo_bob2 = ''mem_0190f2a81b3c7abc8123456789abcdc0''"
definition demo_bob3 :: string where "demo_bob3 = ''mem_0190f2a81b3c7abc8123456789abcdd0''"

definition demo_ten3 :: tenancy where
  "demo_ten3 = snd (SuspendMembership (\<lambda>_. 9) [] demo_bob demo_ten2)"

definition demo_ten4 :: tenancy where
  "demo_ten4 = snd (AddMember (demo_seq CHR ''c'') (\<lambda>_. 10) demo_org ''bob'' RoleMember None demo_ten3)"

definition demo_ten5 :: tenancy where
  "demo_ten5 = snd (SuspendMembership (\<lambda>_. 11) [] demo_bob demo_ten4)"

definition demo_ten6 :: tenancy where
  "demo_ten6 = snd (AddMember (demo_seq CHR ''d'') (\<lambda>_. 12) demo_org ''bob'' RoleMember None demo_ten5)"

lemma demo_ten6_run: "ten_step\<^sup>*\<^sup>* NewInMemoryTenancyStore demo_ten6"
proof -
  have i2: "ten_inv demo_ten2" using orgs.inv_reachable demo_ten2_run by blast
  have "case ten_memberships demo_ten2 demo_bob of None \<Rightarrow> True | Some m \<Rightarrow> mem_Role m \<noteq> RoleOwner" by code_simp
  then have s3: "ten_step demo_ten2 demo_ten3" unfolding demo_ten3_def by (rule suspend_step [OF i2])
  have "ten_fresh CHR ''c'' demo_ten3" by code_simp
  then have s4: "ten_step demo_ten3 demo_ten4"
    unfolding demo_ten4_def by (intro st_AddMember ten_fresh_ok)
  have i4: "ten_inv demo_ten4" using ten_step_inv [OF s4] ten_step_inv [OF s3] i2 by blast
  have "case ten_memberships demo_ten4 demo_bob of None \<Rightarrow> True | Some m \<Rightarrow> mem_Role m \<noteq> RoleOwner" by code_simp
  then have s5: "ten_step demo_ten4 demo_ten5" unfolding demo_ten5_def by (rule suspend_step [OF i4])
  have "ten_fresh CHR ''d'' demo_ten5" by code_simp
  then have "ten_step demo_ten5 demo_ten6"
    unfolding demo_ten6_def by (intro st_AddMember ten_fresh_ok)
  with demo_ten2_run s3 s4 s5 show ?thesis by (meson rtranclp.rtrancl_into_rtrancl)
qed

text \<open>The index does not keep active memberships unique.  Suspending a membership twice, with the
  user added again in between, deletes the index entry of the newer membership, and a third
  \<open>AddMember\<close> then succeeds: a reachable state has two active memberships of one user in one
  organization.\<close>

theorem duplicate_active_membership:
  "\<exists>s k k' m m'. ten_step\<^sup>*\<^sup>* NewInMemoryTenancyStore s \<and> k \<noteq> k' \<and>
     ten_memberships s k = Some m \<and> ten_memberships s k' = Some m' \<and> mem_Status m = StActive \<and>
     mem_Status m' = StActive \<and> mem_UsrID m = mem_UsrID m' \<and> mem_OrgID m = mem_OrgID m'"
proof -
  have "case (ten_memberships demo_ten6 demo_bob2, ten_memberships demo_ten6 demo_bob3) of
      (Some m, Some m') \<Rightarrow> mem_Status m = StActive \<and> mem_Status m' = StActive \<and> mem_UsrID m = mem_UsrID m' \<and>
        mem_OrgID m = mem_OrgID m'
    | _ \<Rightarrow> False" by code_simp
  then obtain m m' where m: "ten_memberships demo_ten6 demo_bob2 = Some m"
    "ten_memberships demo_ten6 demo_bob3 = Some m'" "mem_Status m = StActive" "mem_Status m' = StActive"
    "mem_UsrID m = mem_UsrID m'" "mem_OrgID m = mem_OrgID m'"
    by (cases "ten_memberships demo_ten6 demo_bob2"; cases "ten_memberships demo_ten6 demo_bob3") auto
  have "demo_bob2 \<noteq> demo_bob3" by code_simp
  with demo_ten6_run m show ?thesis
    by (intro exI [of _ demo_ten6] exI [of _ demo_bob2] exI [of _ demo_bob3] exI [of _ m] exI [of _ m'] conjI)
qed

lemma CreateOrg_memberships:
  "CreateOrg lib clk creator opts s = (Inr res, t) \<Longrightarrow>
   ten_memberships t = (ten_memberships s)(mem_ID (cor_OwnerMembership res) \<mapsto> cor_OwnerMembership res)"
  by (auto simp: CreateOrg_def Let_def split: option.splits sum.splits if_splits)

lemma demo_ten1_visits: "visits [demo_ann] (ten_memberships demo_ten1)"
proof -
  let ?r = "CreateOrg (demo_seq CHR ''a'') (\<lambda>_. 7) ''ann'' \<lparr>coo_Name = None, coo_Slug = Some ''acme''\<rparr>
      NewInMemoryTenancyStore"
  have "case fst ?r of Inl _ \<Rightarrow> False | Inr r \<Rightarrow> mem_ID (cor_OwnerMembership r) = demo_ann" by code_simp
  then obtain res where res: "?r = (Inr res, demo_ten1)" "mem_ID (cor_OwnerMembership res) = demo_ann"
    unfolding demo_ten1_def by (cases ?r) (auto split: sum.splits)
  show ?thesis using CreateOrg_memberships [OF res(1)] res(2)
    by (simp add: visits_def NewInMemoryTenancyStore_def)
qed

definition demo_ten7 :: tenancy where
  "demo_ten7 = snd (RevokeOrg (\<lambda>_. 8) [demo_ann] demo_org demo_ten1)"

definition demo_ten8 :: tenancy where
  "demo_ten8 = snd (AddMember (demo_seq CHR ''b'') (\<lambda>_. 9) demo_org ''bob'' RoleMember None demo_ten7)"

text \<open>A revoked organization still takes members.  \<open>RevokeOrg\<close> ends the active memberships, but
  \<open>AddMember\<close> only asks whether the organization exists: a reachable state has an active
  membership in a revoked organization.\<close>

theorem member_of_revoked_org:
  "\<exists>s k m o1. ten_step\<^sup>*\<^sup>* NewInMemoryTenancyStore s \<and> ten_memberships s k = Some m \<and>
     mem_Status m = StActive \<and> ten_orgs s (mem_OrgID m) = Some o1 \<and> org_Status o1 = StRevoked"
proof -
  have v: "visits [demo_ann] (ten_memberships demo_ten1)" by (rule demo_ten1_visits)
  have "ten_fresh CHR ''b'' demo_ten7" by code_simp
  then have "ten_step demo_ten7 demo_ten8" unfolding demo_ten8_def by (intro st_AddMember ten_fresh_ok)
  moreover have "ten_step demo_ten1 demo_ten7" unfolding demo_ten7_def by (rule st_RevokeOrg [OF v])
  ultimately have run: "ten_step\<^sup>*\<^sup>* NewInMemoryTenancyStore demo_ten8"
    using demo_ten1_run by (meson rtranclp.rtrancl_into_rtrancl)
  have "case ten_memberships demo_ten8 demo_bob of None \<Rightarrow> False
    | Some m \<Rightarrow> mem_Status m = StActive \<and> (case ten_orgs demo_ten8 (mem_OrgID m) of None \<Rightarrow> False
        | Some o1 \<Rightarrow> org_Status o1 = StRevoked)" by code_simp
  then obtain m o1 where "ten_memberships demo_ten8 demo_bob = Some m" "mem_Status m = StActive"
    "ten_orgs demo_ten8 (mem_OrgID m) = Some o1" "org_Status o1 = StRevoked"
    by (auto split: option.splits)
  with run show ?thesis by blast
qed

subsection \<open>Reachable states\<close>

text \<open>C37: The state of the tenancy store is consistent in every reachable state.  Records are stored
  under their identifiers; no two organizations that are not revoked share a slug and the slug index
  finds exactly them; an entry of the active index leads to an active membership of that organization
  and user; memberships and invitations belong to existing organizations.\<close>

theorem tenancy_invariant:
  assumes "ten_step\<^sup>*\<^sup>* NewInMemoryTenancyStore s"
  shows "(\<forall>k o1. ten_orgs s k = Some o1 \<longrightarrow> org_ID o1 = k) \<and>
    (\<forall>k m. ten_memberships s k = Some m \<longrightarrow> mem_ID m = k \<and> ten_orgs s (mem_OrgID m) \<noteq> None) \<and>
    (\<forall>k i. ten_invitations s k = Some i \<longrightarrow> inv_ID i = k \<and> ten_orgs s (inv_OrgID i) \<noteq> None) \<and>
    (\<forall>slug k. ten_orgBySlug s slug = Some k \<longleftrightarrow>
       (\<exists>o1. ten_orgs s k = Some o1 \<and> org_Status o1 \<noteq> StRevoked \<and> org_Slug o1 = Some slug)) \<and>
    (\<forall>orgID usrID k. ten_orgs s orgID \<noteq> None \<longrightarrow>
       ten_activeMemByOrgUsr s (orgUsrKey orgID usrID) = Some k \<longrightarrow>
       (\<exists>m. ten_memberships s k = Some m \<and> mem_Status m = StActive \<and> mem_OrgID m = orgID \<and>
          mem_UsrID m = usrID))"
proof -
  have inv: "ten_inv s" using orgs.inv_reachable assms by blast
  have "mem_OrgID m = orgID \<and> mem_UsrID m = usrID"
    if "ten_orgs s orgID \<noteq> None" "ten_memberships s k = Some m" "mem_index_key m = orgUsrKey orgID usrID"
    for orgID usrID k m
  proof -
    have "orgID \<in> dom (ten_orgs s)" using that(1) by (simp add: domIff)
    then show ?thesis
      using that(3) orgUsrKey_inj ten_invD(8) [OF inv] ten_invD(9) [OF inv that(2)] by (simp add: mem_index_key_def)
  qed
  then have ix: "\<exists>m. ten_memberships s k = Some m \<and> mem_Status m = StActive \<and> mem_OrgID m = orgID \<and>
      mem_UsrID m = usrID"
    if "ten_orgs s orgID \<noteq> None" "ten_activeMemByOrgUsr s (orgUsrKey orgID usrID) = Some k" for orgID usrID k
    using active_indexD [OF inv that(2)] that(1) by blast
  have sl: "ten_orgBySlug s slug = Some k \<longleftrightarrow>
       (\<exists>o1. ten_orgs s k = Some o1 \<and> org_Status o1 \<noteq> StRevoked \<and> org_Slug o1 = Some slug)" for slug k
    unfolding index_ofD [OF ten_invD(11) [OF inv]] by (auto simp: slug_key_def)
  have mo: "ten_orgs s (mem_OrgID m) \<noteq> None" if "ten_memberships s k = Some m" for k m
    using ten_invD(9) [OF inv that] by auto
  have io: "ten_orgs s (inv_OrgID i) \<noteq> None" if "ten_invitations s k = Some i" for k i
    using ten_invD(10) [OF inv that] by auto
  show ?thesis
    using ten_invD(1,3,6) [OF inv] ix sl mo io unfolding keyed_by_def by blast
qed

theorem tenancy_invariant_witness:
  "\<exists>m. ten_memberships demo_ten1 demo_ann = Some m \<and> mem_OrgID m = demo_org \<and> mem_UsrID m = ''ann''"
proof -
  have "ten_orgs demo_ten1 demo_org \<noteq> None" by code_simp
  moreover have "ten_activeMemByOrgUsr demo_ten1 (orgUsrKey demo_org ''ann'') = Some demo_ann" by code_simp
  ultimately show ?thesis using tenancy_invariant [OF demo_ten1_run] by blast
qed

subsection \<open>Invitations\<close>

lemma answered:
  assumes "ten_invitations u k = Some i" and "inv_Status i \<noteq> InvPending"
  shows "AcceptInvitation lib clk k opts u = (Inl TenInvitationNotPending, u)"
    and "DeclineInvitation clk k x u = (Inl TenInvitationNotPending, u)"
    and "RevokeInvitation clk k y u = (Inl TenInvitationNotPending, u)"
    and "GetInvitation clk k u = (Inr i, u)"
  using assms by (simp_all add: AcceptInvitation_def DeclineInvitation_def RevokeInvitation_def GetInvitation_def)

text \<open>C23: An invitation is accepted at most once, in time, and by the invitee.  A successful
  \<open>AcceptInvitation\<close> met a pending invitation before its deadline; an existing user had to present
  the identifier of the invitation; the membership has the invited role in the inviting
  organization; and in every later state the invitation reads as accepted and can no longer be
  accepted, declined or revoked.\<close>

theorem invitation_accepted_once:
  assumes "ten_step\<^sup>*\<^sup>* NewInMemoryTenancyStore s" and "gen_ok lib s"
    and "AcceptInvitation lib clk k opts s = (Inr res, t)" and "ten_step\<^sup>*\<^sup>* t u"
  shows "\<exists>iv. ten_invitations s k = Some iv \<and> inv_Status iv = InvPending \<and> clk 0 < inv_ExpiresAt iv \<and>
      (\<forall>x. aio_AsUsrID opts = Some x \<longrightarrow>
         aio_AcceptingIdentifier opts = Some (inv_Identifier iv) \<and> mem_UsrID (air_Membership res) = x) \<and>
      mem_OrgID (air_Membership res) = inv_OrgID iv \<and> mem_Role (air_Membership res) = inv_Role iv \<and>
      inv_Status (air_Invitation res) = InvAccepted \<and>
      GetInvitation clk' k u = (Inr (air_Invitation res), u) \<and>
      AcceptInvitation lib' clk' k opts' u = (Inl TenInvitationNotPending, u) \<and>
      DeclineInvitation clk' k x' u = (Inl TenInvitationNotPending, u) \<and>
      RevokeInvitation clk' k y' u = (Inl TenInvitationNotPending, u)"
proof (cases rule: AcceptInvitation_cases [of lib clk k opts s])
  case (accepts iv v w mem iv')
  have inv: "ten_inv s" using orgs.inv_reachable assms(1) by blast
  have invt: "ten_inv t" using ten_step_inv [OF st_AcceptInvitation [OF assms(2)] inv] assms(3) by (metis snd_conv)
  have t: "ten_invitations t k = Some iv'" and res: "air_Invitation res = iv'" "air_Membership res = mem"
    using accepts(9) assms(3) by auto
  obtain i where i: "ten_invitations u k = Some i" "inv_le iv' i"
    using invitations.entity_run [OF assms(4) invt t] by blast
  have acc: "inv_Status iv' = InvAccepted" using accepts(8) by simp
  then have "i = iv'" using i(2) by (simp add: inv_le_def)
  then have ans: "ten_invitations u k = Some iv'" "inv_Status iv' \<noteq> InvPending" using i(1) acc by simp_all
  have who: "\<forall>x. aio_AsUsrID opts = Some x \<longrightarrow> aio_AcceptingIdentifier opts = Some (inv_Identifier iv) \<and>
      mem_UsrID mem = x"
    using accepts(4,7) by (auto split: option.splits)
  show ?thesis
    using accepts(1-3) accepts(7) who acc answered [OF ans] res by (intro exI [of _ iv]) simp
qed (use assms(3) in simp_all)

definition demo_inv :: string where "demo_inv = ''inv_0190f2a81b3c7abc8123456789abcdb0''"

definition demo_ten9 :: tenancy where
  "demo_ten9 = snd (CreateInvitation (demo_seq CHR ''b'') (\<lambda>_. 8) demo_org ''bob@x'' RoleMember ''ann'' 20 [] demo_ten1)"

definition demo_ten10 :: tenancy where
  "demo_ten10 = snd (AcceptInvitation (demo_seq CHR ''c'') (\<lambda>_. 9) demo_inv
     \<lparr>aio_AsUsrID = Some ''bob'', aio_AcceptingIdentifier = Some ''bob@x''\<rparr> demo_ten9)"

theorem invitation_accepted_once_witness:
  "DeclineInvitation (\<lambda>_. 10) demo_inv None demo_ten10 = (Inl TenInvitationNotPending, demo_ten10)"
proof -
  have "ten_fresh CHR ''b'' demo_ten1" by code_simp
  then have "ten_step demo_ten1 demo_ten9" unfolding demo_ten9_def by (intro st_CreateInvitation ten_fresh_ok)
  then have run: "ten_step\<^sup>*\<^sup>* NewInMemoryTenancyStore demo_ten9"
    using demo_ten1_run by (meson rtranclp.rtrancl_into_rtrancl)
  let ?r = "AcceptInvitation (demo_seq CHR ''c'') (\<lambda>_. 9) demo_inv
     \<lparr>aio_AsUsrID = Some ''bob'', aio_AcceptingIdentifier = Some ''bob@x''\<rparr> demo_ten9"
  have "case fst ?r of Inl _ \<Rightarrow> False | Inr _ \<Rightarrow> True" by code_simp
  then obtain res where res: "?r = (Inr res, demo_ten10)"
    unfolding demo_ten10_def by (cases ?r) (auto split: sum.splits)
  have "ten_fresh CHR ''c'' demo_ten9" by code_simp
  from invitation_accepted_once [OF run ten_fresh_ok [OF this] res rtranclp.rtrancl_refl]
  show ?thesis by blast
qed

subsection \<open>Revoking an organization\<close>

lemma org_gone:
  assumes "ten_orgs u k = Some o1" and "org_Status o1 = StRevoked"
  shows "UpdateOrg clk k i u = (Inl TenAlreadyTerminal, u)" and "SuspendOrg clk k u = (Inl TenAlreadyTerminal, u)"
    and "ReinstateOrg clk k u = (Inl TenAlreadyTerminal, u)" and "RevokeOrg clk ks k u = (Inl TenAlreadyTerminal, u)"
    and "GetOrg k u = Inr o1"
  using assms
  by (simp_all add: UpdateOrg_def SuspendOrg_def ReinstateOrg_def RevokeOrg_def transitionOrg_def GetOrg_def)

text \<open>\<open>RevokeOrg\<close> revokes exactly the active memberships of its organization, takes their tuples and
  the slug away, and is final: in every later state the organization reads the same and can be
  neither updated, suspended, reinstated nor revoked.\<close>

theorem RevokeOrg_cascade:
  assumes "ten_step\<^sup>*\<^sup>* NewInMemoryTenancyStore s" and "visits ks (ten_memberships s)"
    and "RevokeOrg clk ks orgID s = (Inr o1, t)" and "ten_step\<^sup>*\<^sup>* t u"
  shows "org_Status o1 = StRevoked \<and>
    (\<forall>k m. ten_memberships s k = Some m \<longrightarrow>
       (if mem_OrgID m = orgID \<and> mem_Status m = StActive
        then (\<exists>at. ten_memberships t k = Some (m\<lparr>mem_Status := StRevoked, mem_UpdatedAt := at\<rparr>)) \<and>
             ten_tuples t (tupleKey (mem_tuple m)) = None
        else ten_memberships t k = Some m)) \<and>
    (\<forall>k. ten_memberships s k = None \<longrightarrow> ten_memberships t k = None) \<and>
    (\<forall>slug. org_Slug o1 = Some slug \<longrightarrow> ten_orgBySlug t slug = None) \<and>
    GetOrg orgID u = Inr o1 \<and> UpdateOrg clk' orgID i u = (Inl TenAlreadyTerminal, u) \<and>
    SuspendOrg clk' orgID u = (Inl TenAlreadyTerminal, u) \<and>
    ReinstateOrg clk' orgID u = (Inl TenAlreadyTerminal, u) \<and>
    RevokeOrg clk' ks' orgID u = (Inl TenAlreadyTerminal, u)"
proof -
  have inv: "ten_inv s" using orgs.inv_reachable assms(1) by blast
  have invt: "ten_inv t" using ten_step_inv [OF st_RevokeOrg [OF assms(2)] inv] assms(3) by (metis snd_conv)
  have d: "distinct ks" "set ks = dom (ten_memberships s)" using assms(2) by (simp_all add: visits_def)
  from assms(3) obtain o0 where o1: "o1 = WithStatus o0 StRevoked (clk 0)"
    and t: "t = revoke_members clk orgID 1 ks (s\<lparr>ten_orgs := (ten_orgs s)(orgID \<mapsto> o1),
      ten_orgBySlug := (case org_Slug o0 of None \<Rightarrow> ten_orgBySlug s | Some sl \<Rightarrow> (ten_orgBySlug s)(sl := None))\<rparr>)"
    unfolding RevokeOrg_def by (elim transitionOrg_Inr) simp
  let ?s1 = "s\<lparr>ten_orgs := (ten_orgs s)(orgID \<mapsto> o1),
      ten_orgBySlug := (case org_Slug o0 of None \<Rightarrow> ten_orgBySlug s | Some sl \<Rightarrow> (ten_orgBySlug s)(sl := None))\<rparr>"
  have st: "org_Status o1 = StRevoked" "org_Slug o1 = org_Slug o0" by (simp_all add: o1 WithStatus_def)
  have ot: "ten_orgs t orgID = Some o1" by (simp add: t)
  have mem: "if mem_OrgID m = orgID \<and> mem_Status m = StActive
        then (\<exists>at. ten_memberships t k = Some (m\<lparr>mem_Status := StRevoked, mem_UpdatedAt := at\<rparr>)) \<and>
             ten_tuples t (tupleKey (mem_tuple m)) = None
        else ten_memberships t k = Some m" if m: "ten_memberships s k = Some m" for k m
  proof -
    have k: "k \<in> set ks" using m d(2) by auto
    have s1: "ten_memberships ?s1 k = Some m" using m by simp
    show ?thesis
      using revoke_members_mem [OF d(1), of clk orgID 1 ?s1 k] k s1
        revoke_members_maps [OF d(1), of clk orgID 1 ?s1 _ "tupleKey (mem_tuple m)"]
      unfolding t by (auto simp: cascade_hit_def)
  qed
  have none: "ten_memberships t k = None" if "ten_memberships s k = None" for k
    using revoke_members_mem [OF d(1), of clk orgID 1 ?s1 k] that unfolding t by simp
  have sl: "ten_orgBySlug t slug = None" if "org_Slug o1 = Some slug" for slug
    using that st(2) by (simp add: t)
  obtain o2 where "ten_orgs u orgID = Some o2" "org_le o1 o2"
    using orgs.entity_run [OF assms(4) invt ot] by blast
  then have "ten_orgs u orgID = Some o1" using st(1) by (simp add: org_le_def)
  from org_gone [OF this st(1)] show ?thesis using st(1) mem none sl by blast
qed

theorem RevokeOrg_cascade_witness:
  "ReinstateOrg (\<lambda>_. 9) demo_org demo_ten7 = (Inl TenAlreadyTerminal, demo_ten7)"
proof -
  have "case fst (RevokeOrg (\<lambda>_. 8) [demo_ann] demo_org demo_ten1) of Inl _ \<Rightarrow> False | Inr _ \<Rightarrow> True" by code_simp
  then obtain o1 where o1: "RevokeOrg (\<lambda>_. 8) [demo_ann] demo_org demo_ten1 = (Inr o1, demo_ten7)"
    unfolding demo_ten7_def by (cases "RevokeOrg (\<lambda>_. 8) [demo_ann] demo_org demo_ten1") (auto split: sum.splits)
  from RevokeOrg_cascade [OF demo_ten1_run demo_ten1_visits o1 rtranclp.rtrancl_refl] show ?thesis by blast
qed

subsection \<open>Removal by an administrator\<close>

lemma AdminRank_admin: "\<not> AdminRank r < 3 \<longleftrightarrow> r = RoleOwner \<or> r = RoleAdmin"
  by (auto simp: AdminRank_def)

lemma AdminRemove_Inr:
  assumes "AdminRemove clk ks k adm s = (Inr m', t)"
  obtains m a where "ten_memberships s k = Some m" "mem_Status m = StActive"
    "ten_activeMemByOrgUsr s (orgUsrKey (mem_OrgID m) adm) = Some a"
    "\<not> AdminRank (mem_Role (mem_lookup s a)) < 3" "AdminRank (mem_Role m) \<le> AdminRank (mem_Role (mem_lookup s a))"
    "\<not> (mem_Role m = RoleOwner \<and> countActiveOwnersLocked ks (mem_OrgID m) s = 1)"
    "m' = m\<lparr>mem_Status := StRevoked, mem_RemovedBy := Some adm, mem_UpdatedAt := clk 0\<rparr>" "t = drop_member k m m' s"
  using assms
  by (auto simp: AdminRemove_def leave_def Let_def split: option.splits if_splits)

text \<open>\<open>AdminRemove\<close> needs the right.  When it succeeds, the caller holds an active membership of the
  target's own organization as owner or admin, of a rank not below the target's, and the target is
  not the last active owner; the target is revoked with the caller recorded and stays so in every
  later state.\<close>

theorem AdminRemove_authorized:
  assumes "ten_step\<^sup>*\<^sup>* NewInMemoryTenancyStore s" and "visits ks (ten_memberships s)"
    and "AdminRemove clk ks k adm s = (Inr m', t)" and "ten_step\<^sup>*\<^sup>* t u"
  shows "\<exists>m a adminMem. ten_memberships s k = Some m \<and> mem_Status m = StActive \<and>
      ten_memberships s a = Some adminMem \<and> mem_OrgID adminMem = mem_OrgID m \<and> mem_UsrID adminMem = adm \<and>
      mem_Status adminMem = StActive \<and> mem_Role adminMem \<in> {RoleOwner, RoleAdmin} \<and>
      AdminRank (mem_Role m) \<le> AdminRank (mem_Role adminMem) \<and>
      (mem_Role m = RoleOwner \<longrightarrow> 1 < card (owners s (mem_OrgID m))) \<and>
      m' = m\<lparr>mem_Status := StRevoked, mem_RemovedBy := Some adm, mem_UpdatedAt := clk 0\<rparr> \<and>
      GetMembership k u = Inr m'"
proof -
  have inv: "ten_inv s" using orgs.inv_reachable assms(1) by blast
  obtain m a where m: "ten_memberships s k = Some m" "mem_Status m = StActive"
    "ten_activeMemByOrgUsr s (orgUsrKey (mem_OrgID m) adm) = Some a"
    "\<not> AdminRank (mem_Role (mem_lookup s a)) < 3" "AdminRank (mem_Role m) \<le> AdminRank (mem_Role (mem_lookup s a))"
    "\<not> (mem_Role m = RoleOwner \<and> countActiveOwnersLocked ks (mem_OrgID m) s = 1)"
    "m' = m\<lparr>mem_Status := StRevoked, mem_RemovedBy := Some adm, mem_UpdatedAt := clk 0\<rparr>" "t = drop_member k m m' s"
    using AdminRemove_Inr [OF assms(3)] .
  obtain am where am: "ten_memberships s a = Some am" "mem_Status am = StActive"
    "mem_index_key am = orgUsrKey (mem_OrgID m) adm"
    using active_indexD [OF inv m(3)] by blast
  have org: "mem_OrgID am = mem_OrgID m" "mem_UsrID am = adm"
    using am(3) orgUsrKey_inj ten_invD(8) [OF inv ten_invD(9) [OF inv am(1)]]
      ten_invD(8) [OF inv ten_invD(9) [OF inv m(1)]] by (simp_all add: mem_index_key_def)
  have "mem_lookup s a = am" by (simp add: mem_lookup_def am(1))
  then have rank: "mem_Role am \<in> {RoleOwner, RoleAdmin}" "AdminRank (mem_Role m) \<le> AdminRank (mem_Role am)"
    using m(4,5) AdminRank_admin by auto
  have many: "1 < card (owners s (mem_OrgID m))" if "mem_Role m = RoleOwner"
  proof -
    have "k \<in> owners s (mem_OrgID m)" using m(1,2) that by (simp add: in_owners)
    then have "card (owners s (mem_OrgID m)) \<noteq> 0" using owners_finite [OF inv] by auto
    moreover have "card (owners s (mem_OrgID m)) \<noteq> 1" using m(6) that unfolding count_owners [OF assms(2)] by simp
    ultimately show ?thesis by linarith
  qed
  have invt: "ten_inv t" using ten_step_inv [OF st_AdminRemove [OF assms(2)] inv] assms(3) by (metis snd_conv)
  have "ten_memberships t k = Some m'" using m(8) by simp
  then obtain n where "ten_memberships u k = Some n" "mem_le m' n"
    using members.entity_run [OF assms(4) invt] by blast
  then have "ten_memberships u k = Some m'" using m(7) by (simp add: mem_le_def)
  then have g: "GetMembership k u = Inr m'" by (simp add: GetMembership_def)
  show ?thesis
    using m(1,2,7) am(1,2) org rank many g by (intro exI [of _ m] exI [of _ a] exI [of _ am]) blast
qed

subsection \<open>Transfer of ownership\<close>

lemma owners_transferred:
  assumes "ten_memberships s fk = Some fm" "ten_memberships s tk = Some tm" "mem_OrgID fm = orgID"
    "mem_OrgID tm = orgID" "fk \<noteq> tk" "fk \<noteq> v" "v \<noteq> w" "ten_memberships s v = None" "ten_memberships s w = None"
  shows "owners (transferred clk v w fk tk fm tm s) orgID = insert v (owners s orgID - {fk, tk})"
    and "orgID' \<noteq> orgID \<Longrightarrow> owners (transferred clk v w fk tk fm tm s) orgID' = owners s orgID'"
proof -
  have ne: "v \<noteq> tk" "w \<noteq> tk" "w \<noteq> fk" using assms by auto
  have r: "RoleMember \<noteq> RoleOwner" by (simp add: RoleMember_def RoleOwner_def)
  have mem: "ten_memberships (transferred clk v w fk tk fm tm s) x =
     (if x = w then Some (successor w fk RoleMember (clk 1) fm)
      else if x = fk then Some (revoked_at (clk 1) fm)
      else if x = v then Some (successor v tk RoleOwner (clk 0) tm)
      else if x = tk then Some (revoked_at (clk 0) tm) else ten_memberships s x)" for x
    by (simp add: transferred_def)
  show "owners (transferred clk v w fk tk fm tm s) orgID = insert v (owners s orgID - {fk, tk})"
  proof (rule set_eqI)
    fix x
    show "x \<in> owners (transferred clk v w fk tk fm tm s) orgID \<longleftrightarrow> x \<in> insert v (owners s orgID - {fk, tk})"
      using assms ne r unfolding insert_iff Diff_iff in_owners mem
      by (cases "x = w"; cases "x = fk"; cases "x = v"; cases "x = tk") (auto simp: revoked_at_def)
  qed
  show "owners (transferred clk v w fk tk fm tm s) orgID' = owners s orgID'" if "orgID' \<noteq> orgID"
  proof (rule set_eqI)
    fix x
    show "x \<in> owners (transferred clk v w fk tk fm tm s) orgID' \<longleftrightarrow> x \<in> owners s orgID'"
      using assms ne r that unfolding in_owners mem
      by (cases "x = w"; cases "x = fk"; cases "x = v"; cases "x = tk") (auto simp: revoked_at_def)
  qed
qed

lemma AddMember_memberships:
  "AddMember lib clk orgID usrID role by1 s = (Inr m, t) \<Longrightarrow>
   ten_memberships t = (ten_memberships s)(mem_ID m \<mapsto> m)"
  by (auto simp: AddMember_def Let_def split: sum.splits if_splits)

lemma demo_ten2_visits: "visits [demo_bob, demo_ann] (ten_memberships demo_ten2)"
proof -
  let ?r = "AddMember (demo_seq CHR ''b'') (\<lambda>_. 8) demo_org ''bob'' RoleMember None demo_ten1"
  have "case fst ?r of Inl _ \<Rightarrow> False | Inr m \<Rightarrow> mem_ID m = demo_bob" by code_simp
  then obtain m where m: "?r = (Inr m, demo_ten2)" "mem_ID m = demo_bob"
    unfolding demo_ten2_def by (cases ?r) (auto split: sum.splits)
  have "demo_bob \<noteq> demo_ann" by code_simp
  then show ?thesis using AddMember_memberships [OF m(1)] m(2) demo_ten1_visits by (auto simp: visits_def)
qed

theorem AdminRemove_authorized_witness:
  "\<exists>m'. GetMembership demo_bob (snd (AdminRemove (\<lambda>_. 9) [demo_bob, demo_ann] demo_bob ''ann'' demo_ten2)) = Inr m'
     \<and> mem_Status m' = StRevoked"
proof -
  let ?r = "AdminRemove (\<lambda>_. 9) [demo_bob, demo_ann] demo_bob ''ann'' demo_ten2"
  have "case fst ?r of Inl _ \<Rightarrow> False | Inr m \<Rightarrow> mem_Status m = StRevoked" by code_simp
  then obtain m' where m: "?r = (Inr m', snd ?r)" "mem_Status m' = StRevoked"
    by (cases ?r) (auto split: sum.splits)
  from AdminRemove_authorized [OF demo_ten2_run demo_ten2_visits m(1) rtranclp.rtrancl_refl] m(2)
  show ?thesis by blast
qed

text \<open>\<open>TransferOwnership\<close> moves the role and nothing else.  When it succeeds, the two memberships are
  revoked and replaced by new active ones that carry their users, the giver's with the role member
  and the receiver's with the role owner, each pointing back at what it replaces; every other
  membership is untouched; and an organization has as many active owners as before when the receiver
  was not an owner yet.\<close>

theorem TransferOwnership_effect:
  assumes "ten_step\<^sup>*\<^sup>* NewInMemoryTenancyStore s" and "gen_ok lib s"
    and "TransferOwnership lib clk orgID fk tk s = (Inr res, t)"
    and "visits ks (ten_memberships s)" and "visits ks' (ten_memberships t)"
  shows "\<exists>fm tm v w f' t'. ten_memberships s fk = Some fm \<and> mem_Role fm = RoleOwner \<and> mem_Status fm = StActive \<and>
      ten_memberships s tk = Some tm \<and> mem_Status tm = StActive \<and>
      ten_memberships s v = None \<and> ten_memberships s w = None \<and> v \<noteq> w \<and>
      ten_memberships t = (ten_memberships s)(tk \<mapsto> revoked_at (clk 0) tm, fk \<mapsto> revoked_at (clk 1) fm,
        v \<mapsto> t', w \<mapsto> f') \<and>
      mem_UsrID t' = mem_UsrID tm \<and> mem_OrgID t' = orgID \<and> mem_Role t' = RoleOwner \<and>
      mem_Status t' = StActive \<and> mem_Replaces t' = Some tk \<and>
      mem_UsrID f' = mem_UsrID fm \<and> mem_OrgID f' = orgID \<and> mem_Role f' = RoleMember \<and>
      mem_Status f' = StActive \<and> mem_Replaces f' = Some fk \<and>
      (mem_UsrID fm \<noteq> mem_UsrID tm \<longrightarrow> res = \<lparr>tor_FromMembership = f', tor_ToMembership = t'\<rparr>) \<and>
      (mem_Role tm \<noteq> RoleOwner \<longrightarrow>
         (\<forall>o1. countActiveOwnersLocked ks' o1 t = countActiveOwnersLocked ks o1 s))"
proof -
  have inv: "ten_inv s" using orgs.inv_reachable assms(1) by blast
  from TransferOwnership_Inr [OF assms(2,3)] obtain v w fm tm where
    m: "ten_memberships s fk = Some fm" "mem_OrgID fm = orgID" "mem_Role fm = RoleOwner" "mem_Status fm = StActive"
    "ten_memberships s tk = Some tm" "mem_OrgID tm = orgID" "mem_Status tm = StActive" "fk \<noteq> tk"
    "fk \<noteq> v" "v \<noteq> w" "ten_memberships s v = None" "ten_memberships s w = None"
    and t: "t = transferred clk v w fk tk fm tm s"
    and res: "res = (let at = (\<lambda>u. mem_lookup t (case ten_activeMemByOrgUsr t (orgUsrKey orgID u) of None \<Rightarrow> [] | Some x \<Rightarrow> x))
       in \<lparr>tor_FromMembership = at (mem_UsrID fm), tor_ToMembership = at (mem_UsrID tm)\<rparr>)" by metis
  let ?f = "successor w fk RoleMember (clk 1) fm" and ?t = "successor v tk RoleOwner (clk 0) tm"
  have ne: "v \<noteq> tk" "w \<noteq> tk" "w \<noteq> fk" using m by auto
  have mem: "ten_memberships t = (ten_memberships s)(tk \<mapsto> revoked_at (clk 0) tm, fk \<mapsto> revoked_at (clk 1) fm,
        v \<mapsto> ?t, w \<mapsto> ?f)"
    using m(8,9,10) ne by (auto simp: t transferred_def fun_eq_iff)
  have bar: "CHR ''|'' \<notin> set orgID" using ten_invD(8) [OF inv] ten_invD(9) [OF inv m(1)] m(2) by simp
  have r: "res = \<lparr>tor_FromMembership = ?f, tor_ToMembership = ?t\<rparr>" if "mem_UsrID fm \<noteq> mem_UsrID tm"
    using that m ne bar
    by (simp add: res t transferred_def mem_index_key_def orgUsrKey_inj mem_lookup_def)
  have cnt: "countActiveOwnersLocked ks' o1 t = countActiveOwnersLocked ks o1 s" if nt: "mem_Role tm \<noteq> RoleOwner" for o1
  proof (cases "o1 = orgID")
    case False
    then show ?thesis
      unfolding count_owners [OF assms(4)] count_owners [OF assms(5)]
      using owners_transferred(2) [OF m(1,5,2,6,8-12) False] t by simp
  next
    case True
    have "fk \<in> owners s orgID" "tk \<notin> owners s orgID" "v \<notin> owners s orgID"
      using m nt by (simp_all add: in_owners)
    moreover from this have "owners s orgID - {fk, tk} = owners s orgID - {fk}" by blast
    ultimately have "card (insert v (owners s orgID - {fk, tk})) = card (owners s orgID)"
      using owners_finite [OF inv, of orgID] by (simp add: card_Suc_Diff1 del: card_Diff_insert card_Diff_singleton)
    then show ?thesis
      unfolding count_owners [OF assms(4)] count_owners [OF assms(5)] True
      using owners_transferred(1) [OF m(1,5,2,6,8-12)] t by simp
  qed
  show ?thesis
    using m mem r cnt
    by (intro exI [of _ fm] exI [of _ tm] exI [of _ v] exI [of _ w] exI [of _ ?f] exI [of _ ?t]) simp
qed

theorem TransferOwnership_effect_witness:
  "\<exists>k m. ten_memberships (snd (TransferOwnership (demo_seq CHR ''c'') (\<lambda>_. 9) demo_org demo_ann demo_bob demo_ten2)) k
     = Some m \<and> mem_UsrID m = ''ann'' \<and> mem_Role m = RoleMember"
proof -
  let ?r = "TransferOwnership (demo_seq CHR ''c'') (\<lambda>_. 9) demo_org demo_ann demo_bob demo_ten2"
  have f: "ten_fresh CHR ''c'' demo_ten2" by code_simp
  have "case fst ?r of Inl _ \<Rightarrow> False | Inr _ \<Rightarrow> True" by code_simp
  then obtain res where res: "?r = (Inr res, snd ?r)" by (cases ?r) (auto split: sum.splits)
  have "ten_step\<^sup>*\<^sup>* demo_ten2 (snd ?r)" by (intro r_into_rtranclp st_TransferOwnership ten_fresh_ok f)
  then have "ten_inv (snd ?r)" using orgs.inv_run orgs.inv_reachable demo_ten2_run by blast
  then obtain ks' where ks': "visits ks' (ten_memberships (snd ?r))" using visits_exists ten_invD(5) by blast
  have ann: "case ten_memberships demo_ten2 demo_ann of None \<Rightarrow> False | Some m \<Rightarrow> mem_UsrID m = ''ann''" by code_simp
  from TransferOwnership_effect [OF demo_ten2_run ten_fresh_ok [OF f] res demo_ten2_visits ks']
  obtain fm w f' m0 where "ten_memberships demo_ten2 demo_ann = Some fm" "ten_memberships (snd ?r) = m0(w \<mapsto> f')"
    "mem_UsrID f' = mem_UsrID fm" "mem_Role f' = RoleMember" by blast
  then have "ten_memberships (snd ?r) w = Some f' \<and> mem_UsrID f' = ''ann'' \<and> mem_Role f' = RoleMember"
    using ann by simp
  then show ?thesis by blast
qed

end
