(* ===== verification/Totp.thy ===== *)
theory Totp
  imports GoText GoBytes
begin

text \<open>
  \<open>packages/identity/mfa.go\<close>, time-based one-time passwords (RFC 6238).  \<open>hmac alg key msg\<close> is the MAC
  of \<open>crypto/hmac\<close> under the hash named \<open>alg\<close>.  The outer option of a result is a run-time panic:
  the slice of a digest that is too short and the remainder by a modulus that has wrapped to zero.
  \<open>Unix\<close> seconds are 64-bit integers, kept as \<open>int\<close> with \<open>wrap64\<close> where a product or a sum may
  leave the range.
\<close>

type_synonym hmac = "string \<Rightarrow> string \<Rightarrow> string \<Rightarrow> string"

definition DefaultTotpPeriod :: int where "DefaultTotpPeriod = 30"
definition DefaultTotpDigits :: int where "DefaultTotpDigits = 6"
definition DefaultTotpAlgorithm :: string where "DefaultTotpAlgorithm = ''sha1''"

record TotpComputeOptions =
  tco_Period :: int
  tco_Digits :: int
  tco_Algorithm :: string

definition totp_zero :: TotpComputeOptions where
  "totp_zero = \<lparr>tco_Period = 0, tco_Digits = 0, tco_Algorithm = []\<rparr>"

datatype totp_error =
    TotpUnsupported string
  | TotpDrift int

definition totp_period :: "TotpComputeOptions \<Rightarrow> int" where
  "totp_period o1 = (if tco_Period o1 = 0 then DefaultTotpPeriod else tco_Period o1)"

definition totp_digits :: "TotpComputeOptions \<Rightarrow> int" where
  "totp_digits o1 = (if tco_Digits o1 = 0 then DefaultTotpDigits else tco_Digits o1)"

definition totp_hash :: "TotpComputeOptions \<Rightarrow> totp_error + string" where
  "totp_hash o1 =
     (let alg = (if tco_Algorithm o1 = [] then DefaultTotpAlgorithm else tco_Algorithm o1)
      in if alg = ''sha1'' \<or> alg = ''sha256'' \<or> alg = ''sha512'' then Inr alg
         else Inl (TotpUnsupported alg))"

text \<open>\<open>fmt.Sprintf\<close> with the verb \<open>%0*d\<close>: a negative width fills with blanks on the right, and a width
  beyond a million is refused.\<close>

definition sprintf_0d :: "int \<Rightarrow> nat \<Rightarrow> string" where
  "sprintf_0d w n =
     (let d = decimal n
      in if w > 1000000 \<or> w < - 1000000 then ''%!(BADWIDTH)'' @ d
         else if w < 0 then d @ replicate (nat (- w) - length d) (CHR '' '')
         else replicate (nat w - length d) (CHR ''0'') @ d)"

definition totp_modulus :: "int \<Rightarrow> 32 word" where
  "totp_modulus digits = ((\<lambda>m. m * 10) ^^ nat digits) 1"

definition TotpCompute :: "hmac \<Rightarrow> string \<Rightarrow> int \<Rightarrow> TotpComputeOptions \<Rightarrow> (totp_error + string) option" where
  "TotpCompute hmac secret timestamp opts =
     (let period = totp_period opts; digits = totp_digits opts
      in case totp_hash opts of
        Inl err \<Rightarrow> Some (Inl err)
      | Inr alg \<Rightarrow>
          let counter = go_div64 timestamp period;
              digest = hmac alg secret (BigEndian_PutUint64 (nat (counter mod 2 ^ 64)))
          in if digest = [] then None
             else
               let offset = of_char (last digest) mod 16
               in if length digest < offset + 4 then None
                  else
                    let codeInt = BigEndian_Uint32 (take 4 (drop offset digest)) AND 0x7FFFFFFF;
                        modulus = totp_modulus digits
                    in if modulus = 0 then None
                       else Some (Inr (sprintf_0d digits (unat (codeInt mod modulus)))))"

text \<open>The loop over the windows \<open>-driftWindows\<close> to \<open>driftWindows\<close>.\<close>

fun verify_windows ::
  "hmac \<Rightarrow> string \<Rightarrow> string \<Rightarrow> int \<Rightarrow> TotpComputeOptions \<Rightarrow> int list \<Rightarrow> (totp_error + bool) option" where
  "verify_windows hmac secret candidate timestamp opts [] = Some (Inr False)"
| "verify_windows hmac secret candidate timestamp opts (offset # os) =
     (let ts = wrap64 (timestamp + wrap64 (offset * totp_period opts))
      in case TotpCompute hmac secret ts opts of
           None \<Rightarrow> None
         | Some (Inl err) \<Rightarrow> Some (Inl err)
         | Some (Inr expected) \<Rightarrow>
             if expected = candidate then Some (Inr True)
             else verify_windows hmac secret candidate timestamp opts os)"

definition TotpVerify ::
  "hmac \<Rightarrow> string \<Rightarrow> string \<Rightarrow> int \<Rightarrow> int \<Rightarrow> TotpComputeOptions \<Rightarrow> (totp_error + bool) option" where
  "TotpVerify hmac secret candidate timestamp driftWindows opts =
     (if driftWindows < 0 \<or> driftWindows > 10 then Some (Inl (TotpDrift driftWindows))
      else if int (length candidate) \<noteq> totp_digits opts then Some (Inr False)
      else if \<not> list_all is_digit candidate then Some (Inr False)
      else verify_windows hmac secret candidate timestamp opts [- driftWindows..driftWindows])"

text \<open>The random bytes are given; \<open>numBytes\<close> says how many \<open>GenerateTotpSecret\<close> asks for.\<close>

definition totp_secret_size :: "int \<Rightarrow> int" where
  "totp_secret_size numBytes = (if numBytes \<le> 0 then 20 else numBytes)"

definition GenerateTotpSecret :: "(int \<Rightarrow> string + string) \<Rightarrow> int \<Rightarrow> string + string" where
  "GenerateTotpSecret rand numBytes = rand (totp_secret_size numBytes)"

subsection \<open>The modulus\<close>

lemma totp_modulus_power: "totp_modulus d = 10 ^ nat d"
proof -
  have "((\<lambda>m. m * 10) ^^ k) 1 = (10 :: 32 word) ^ k" for k
    by (induction k) (simp_all add: mult.commute)
  then show ?thesis by (simp add: totp_modulus_def)
qed

lemma totp_modulus_small: "0 \<le> d \<Longrightarrow> d \<le> 9 \<Longrightarrow> unat (totp_modulus d) = 10 ^ nat d"
proof -
  assume d: "0 \<le> d" "d \<le> 9"
  have "(10::nat) ^ nat d \<le> 10 ^ 9" by (rule power_increasing) (use d in auto)
  then have "(10::nat) ^ nat d < 2 ^ LENGTH(32)" by simp
  moreover have "totp_modulus d = of_nat (10 ^ nat d)" by (simp add: totp_modulus_power)
  ultimately show ?thesis by (simp only: unsigned_of_nat take_bit_nat_eq_self of_nat_id)
qed

lemma totp_modulus_zero: "32 \<le> d \<Longrightarrow> totp_modulus d = 0"
proof -
  assume d: "32 \<le> d"
  then obtain k where k: "nat d = 32 + k" by (metis nat_le_iff_add nat_mono nat_numeral)
  have "(10 :: 32 word) ^ 32 = 0" by code_simp
  then show ?thesis by (simp only: totp_modulus_power k power_add mult_zero_left)
qed

subsection \<open>The code\<close>

text \<open>The documented sizes of the digests: at least the 20 bytes of SHA-1.\<close>

definition hmac_long :: "hmac \<Rightarrow> bool" where
  "hmac_long hmac \<longleftrightarrow> (\<forall>alg key msg. 20 \<le> length (hmac alg key msg))"

lemma sprintf_0d_digits:
  assumes "0 < w" and "w \<le> 1000000" and "n < 10 ^ nat w"
  shows "length (sprintf_0d w n) = nat w \<and> list_all is_digit (sprintf_0d w n) \<and> number (sprintf_0d w n) = n"
proof -
  have l: "length (decimal n) \<le> nat w" using decimal_length [OF assms(3)] assms(1) by simp
  have zeros: "number (replicate k (CHR ''0'') @ s) = number s" for k s
    by (induction k) (simp_all add: number_def digit_value_def)
  have "list_all is_digit (replicate k (CHR ''0''))" for k
    by (induction k) (simp_all add: is_digit_def)
  then show ?thesis using assms l decimal_digits(1) [of n] by (simp add: sprintf_0d_def Let_def zeros)
qed

lemma TotpCompute_Inr:
  assumes "hmac_long hmac" and "0 < totp_digits opts" and "totp_digits opts \<le> 9" and "totp_hash opts = Inr alg"
  obtains n where "TotpCompute hmac secret ts opts = Some (Inr (sprintf_0d (totp_digits opts) n))"
    "n < 10 ^ nat (totp_digits opts)"
proof -
  let ?d = "hmac alg secret (BigEndian_PutUint64 (nat (go_div64 ts (totp_period opts) mod 2 ^ 64)))"
  have l: "20 \<le> length ?d" using assms(1) by (simp add: hmac_long_def)
  then have "?d \<noteq> []" "\<not> length ?d < of_char (last ?d) mod 16 + 4"
    using mod_less_divisor [of 16 "of_char (last ?d)"] by auto
  moreover have u: "unat (totp_modulus (totp_digits opts)) = 10 ^ nat (totp_digits opts)"
    using assms(2,3) by (intro totp_modulus_small) simp_all
  moreover from u have "totp_modulus (totp_digits opts) \<noteq> 0" by (metis power_not_zero unat_0 zero_neq_numeral)
  moreover have "unat (c mod totp_modulus (totp_digits opts)) < 10 ^ nat (totp_digits opts)" for c
    using u by (simp add: unat_mod)
  ultimately show ?thesis using that assms(4) by (simp add: TotpCompute_def Let_def)
qed

text \<open>A one-time code has the shape it should have.  With one to nine digits and a supported hash,
  \<open>TotpCompute\<close> neither fails nor panics, for every secret and every 64-bit time, and returns exactly that
  many decimal digits.\<close>

theorem TotpCompute_shape:
  assumes "hmac_long hmac" and "0 < totp_digits opts" and "totp_digits opts \<le> 9"
    and "tco_Algorithm opts \<in> {[], ''sha1'', ''sha256'', ''sha512''}"
  shows "\<exists>code. TotpCompute hmac secret ts opts = Some (Inr code) \<and>
     int (length code) = totp_digits opts \<and> list_all is_digit code \<and> number code < 10 ^ nat (totp_digits opts)"
proof -
  obtain alg where alg: "totp_hash opts = Inr alg"
    using assms(4) by (auto simp: totp_hash_def Let_def DefaultTotpAlgorithm_def)
  obtain n where n: "TotpCompute hmac secret ts opts = Some (Inr (sprintf_0d (totp_digits opts) n))"
    "n < 10 ^ nat (totp_digits opts)"
    using TotpCompute_Inr [OF assms(1-3) alg] .
  from sprintf_0d_digits [OF assms(2) _ n(2)] assms(2,3) n show ?thesis by auto
qed

definition demo_hmac :: hmac where
  "demo_hmac alg key msg = take 20 (key @ msg @ replicate 20 (CHR 0x00))"

lemma demo_hmac_long: "hmac_long demo_hmac"
  by (auto simp: hmac_long_def demo_hmac_def min_def)


text \<open>Thirty-two digits or more crash \<open>TotpCompute\<close>: the modulus \<open>10 ^ digits\<close> is computed in 32 bits
  and is then zero, and the remainder by it is a run-time panic.\<close>

theorem TotpCompute_panics:
  assumes "32 \<le> tco_Digits opts" and "totp_hash opts = Inr alg"
  shows "TotpCompute hmac secret ts opts = None"
proof -
  have "totp_modulus (totp_digits opts) = 0" using assms(1) by (intro totp_modulus_zero) (simp add: totp_digits_def)
  then show ?thesis using assms(2) by (simp add: TotpCompute_def Let_def)
qed

theorem TotpCompute_shape_witness:
  "\<exists>code. TotpCompute demo_hmac ''key'' 1111111109 totp_zero = Some (Inr code) \<and> length code = 6"
proof -
  have "totp_digits totp_zero = 6" by (simp add: totp_digits_def totp_zero_def DefaultTotpDigits_def)
  then show ?thesis
    using TotpCompute_shape [OF demo_hmac_long, of totp_zero "''key''" 1111111109] by (auto simp: totp_zero_def)
qed

theorem TotpCompute_panics_witness:
  "TotpCompute demo_hmac ''key'' 59 \<lparr>tco_Period = 30, tco_Digits = 40, tco_Algorithm = ''sha256''\<rparr> = None"
  by (rule TotpCompute_panics) (simp_all add: totp_hash_def)

subsection \<open>Drift\<close>

lemma verify_windows_meaning:
  assumes "\<And>ts. \<exists>code. TotpCompute hmac secret ts opts = Some (Inr code)"
  shows "verify_windows hmac secret candidate timestamp opts os = Some (Inr (\<exists>k \<in> set os.
    TotpCompute hmac secret (wrap64 (timestamp + wrap64 (k * totp_period opts))) opts = Some (Inr candidate)))"
proof (induction os)
  case (Cons k os)
  obtain code where "TotpCompute hmac secret (wrap64 (timestamp + wrap64 (k * totp_period opts))) opts = Some (Inr code)"
    using assms by blast
  then show ?case using Cons by simp
qed simp

lemma TotpVerify_meaning:
  assumes "hmac_long hmac" and "0 < totp_digits opts" and "totp_digits opts \<le> 9" and "totp_hash opts = Inr alg"
    and "0 \<le> drift" and "drift \<le> 10"
  shows "TotpVerify hmac secret candidate ts drift opts = Some (Inr (\<exists>k. - drift \<le> k \<and> k \<le> drift \<and>
     TotpCompute hmac secret (wrap64 (ts + wrap64 (k * totp_period opts))) opts = Some (Inr candidate)))"
proof -
  have total: "\<exists>code. TotpCompute hmac secret ts opts = Some (Inr code)" for ts
    using TotpCompute_Inr [OF assms(1-4)] by metis
  have shape: "int (length candidate) = totp_digits opts \<and> list_all is_digit candidate"
    if "TotpCompute hmac secret ts' opts = Some (Inr candidate)" for ts'
  proof -
    obtain n where "TotpCompute hmac secret ts' opts = Some (Inr (sprintf_0d (totp_digits opts) n))"
      "n < 10 ^ nat (totp_digits opts)"
      using TotpCompute_Inr [OF assms(1-4)] by metis
    then show ?thesis using that sprintf_0d_digits [OF assms(2)] assms(2,3) by auto
  qed
  show ?thesis
    using verify_windows_meaning [OF total] shape assms(5,6) unfolding TotpVerify_def by auto
qed

text \<open>The counter of a shifted time: whole periods move it by whole steps.\<close>

lemma shifted_window:
  assumes "0 < p" and "0 \<le> t" and "0 \<le> t'" and "p \<le> t'" and "t' + p \<le> max_int64" and "t \<le> max_int64"
    and "\<bar>t - t'\<bar> \<le> p"
  shows "\<exists>k \<in> {- 1, 0, 1}. go_div64 (wrap64 (t' + wrap64 (k * p))) p = go_div64 t p"
proof -
  have w: "wrap64 (t' + wrap64 (k * p)) = t' + k * p" if "k \<in> {- 1, 0, 1}" for k
  proof -
    have "wrap64 (k * p) = k * p" using that assms by (intro wrap64_id) (auto simp: max_int64_def)
    moreover have "wrap64 (t' + k * p) = t' + k * p" using that assms by (intro wrap64_id) (auto simp: max_int64_def)
    ultimately show ?thesis by simp
  qed
  have dv: "go_div64 (t' + k * p) p = t' div p + k" if "k \<in> {- 1, 0, 1}" for k
    using that assms by (subst go_div64_nonneg) auto
  have t: "go_div64 t p = t div p" using assms by (intro go_div64_nonneg) simp_all
  have "(t' - p) div p \<le> t div p" "t div p \<le> (t' + p) div p"
    using assms by (auto intro!: zdiv_mono1)
  moreover have "(t' - p) div p = t' div p - 1" "(t' + p) div p = t' div p + 1"
    using assms(1) div_add_self2 [of p t'] div_add_self2 [of p "t' - p"] by simp_all
  ultimately have "t div p - t' div p = - 1 \<or> t div p - t' div p = 0 \<or> t div p - t' div p = 1" by linarith
  then have "t div p - t' div p \<in> {- 1, 0, 1}" by blast
  then show ?thesis
    unfolding t using w dv by (intro bexI [of _ "t div p - t' div p"]) simp_all
qed

text \<open>C29: A code is good for its window and one on either side, and only a code of these windows is.  Within one
  period of the moment a code was computed for, \<open>TotpVerify\<close> with a drift of one accepts it; and whatever
  \<open>TotpVerify\<close> accepts is the code of one of the windows within the drift.\<close>

theorem TotpVerify_drift:
  assumes "hmac_long hmac" and "0 < totp_digits opts" and "totp_digits opts \<le> 9" and "totp_hash opts = Inr alg"
    and "0 \<le> drift" and "drift \<le> 10" and "0 < totp_period opts"
  shows "(TotpVerify hmac secret candidate now drift opts = Some (Inr True) \<longleftrightarrow>
      (\<exists>k. - drift \<le> k \<and> k \<le> drift \<and>
         TotpCompute hmac secret (wrap64 (now + wrap64 (k * totp_period opts))) opts = Some (Inr candidate))) \<and>
    (TotpCompute hmac secret t opts = Some (Inr code) \<and> 1 \<le> drift \<and> 0 \<le> t \<and> t \<le> max_int64 \<and>
       totp_period opts \<le> now \<and> now + totp_period opts \<le> max_int64 \<and> \<bar>t - now\<bar> \<le> totp_period opts \<longrightarrow>
     TotpVerify hmac secret code now drift opts = Some (Inr True))"
proof (intro conjI impI)
  note m = TotpVerify_meaning [OF assms(1-6)]
  show "TotpVerify hmac secret candidate now drift opts = Some (Inr True) \<longleftrightarrow>
      (\<exists>k. - drift \<le> k \<and> k \<le> drift \<and>
         TotpCompute hmac secret (wrap64 (now + wrap64 (k * totp_period opts))) opts = Some (Inr candidate))"
    unfolding m by simp
  assume a: "TotpCompute hmac secret t opts = Some (Inr code) \<and> 1 \<le> drift \<and> 0 \<le> t \<and> t \<le> max_int64 \<and>
       totp_period opts \<le> now \<and> now + totp_period opts \<le> max_int64 \<and> \<bar>t - now\<bar> \<le> totp_period opts"
  have "\<exists>k \<in> {- 1, 0, 1}. go_div64 (wrap64 (now + wrap64 (k * totp_period opts))) (totp_period opts)
      = go_div64 t (totp_period opts)"
    by (rule shifted_window) (use a assms(7) in linarith)+
  then obtain k where k: "k \<in> {- 1, 0, 1}"
    "go_div64 (wrap64 (now + wrap64 (k * totp_period opts))) (totp_period opts) = go_div64 t (totp_period opts)"
    by blast
  have "TotpCompute hmac secret (wrap64 (now + wrap64 (k * totp_period opts))) opts =
      TotpCompute hmac secret t opts"
    by (simp only: TotpCompute_def Let_def k(2))
  then show "TotpVerify hmac secret code now drift opts = Some (Inr True)"
    unfolding m using a k(1) by (intro arg_cong [where f = Some] arg_cong [where f = Inr] iffD2 [OF eq_True]
        exI [of _ k]) auto
qed

theorem TotpVerify_drift_witness:
  "\<exists>code. TotpCompute demo_hmac ''key'' 1000 totp_zero = Some (Inr code) \<and>
     TotpVerify demo_hmac ''key'' code 1030 1 totp_zero = Some (Inr True)"
proof -
  have o1: "totp_digits totp_zero = 6" "totp_period totp_zero = 30" "totp_hash totp_zero = Inr ''sha1''"
    by (simp_all add: totp_digits_def totp_period_def totp_hash_def totp_zero_def DefaultTotpDigits_def
        DefaultTotpPeriod_def DefaultTotpAlgorithm_def)
  obtain code where c: "TotpCompute demo_hmac ''key'' 1000 totp_zero = Some (Inr code)"
    using TotpCompute_Inr [OF demo_hmac_long, of totp_zero "''sha1''" "''key''" 1000] o1 by auto
  then show ?thesis
    using TotpVerify_drift [OF demo_hmac_long, of totp_zero "''sha1''" 1 "''key''" "''000000''" 1030 1000 code] o1
    by (simp add: max_int64_def)
qed

end
