(* ===== verification/RecoveryCodes.thy ===== *)
theory RecoveryCodes
  imports GoText
begin

text \<open>
  \<open>packages/identity/mfa.go\<close>, recovery codes.  \<open>rand n\<close> is the n-th one-byte read of
  \<open>crypto/rand\<close>; the rejection loop reads until a byte lies below the threshold, so it is a
  \<open>partial_function\<close> and \<open>None\<close> is a loop that never ends.  \<open>strings.ToUpper\<close> and
  \<open>strings.TrimSpace\<close> follow the Unicode tables; they are the fields of \<open>text_lib\<close> and \<open>text_ok\<close>
  is what is used of them, their documented effect on ASCII texts.
\<close>

type_synonym byte_source = "nat \<Rightarrow> string + char"

definition recoveryAlphabet :: string where
  "recoveryAlphabet = ''ABCDEFGHJKMNPQRSTUVWXYZ23456789''"

definition RecoveryCodeCount :: nat where "RecoveryCodeCount = 10"
definition RecoveryCodeLength :: nat where "RecoveryCodeLength = 12"

definition recovery_threshold :: nat where
  "recovery_threshold = (256 div length recoveryAlphabet * length recoveryAlphabet) mod 256"

definition accepted :: "char \<Rightarrow> bool" where
  "accepted b \<longleftrightarrow> of_char b < recovery_threshold"

definition recovery_pick :: "char \<Rightarrow> char" where
  "recovery_pick b = recoveryAlphabet ! (of_char b mod length recoveryAlphabet)"

partial_function (option) recovery_char :: "byte_source \<Rightarrow> nat \<Rightarrow> (string + char \<times> nat) option" where
  "recovery_char rand n =
     (case rand n of
        Inl err \<Rightarrow> Some (Inl err)
      | Inr b \<Rightarrow> if accepted b then Some (Inr (recovery_pick b, Suc n)) else recovery_char rand (Suc n))"

fun recovery_chars :: "byte_source \<Rightarrow> nat \<Rightarrow> nat \<Rightarrow> (string + string \<times> nat) option" where
  "recovery_chars rand 0 n = Some (Inr ([], n))"
| "recovery_chars rand (Suc k) n =
     (case recovery_char rand n of
        None \<Rightarrow> None
      | Some (Inl err) \<Rightarrow> Some (Inl err)
      | Some (Inr (c, n')) \<Rightarrow>
          (case recovery_chars rand k n' of
             None \<Rightarrow> None
           | Some (Inl err) \<Rightarrow> Some (Inl err)
           | Some (Inr (cs, n'')) \<Rightarrow> Some (Inr (c # cs, n''))))"

definition GenerateRecoveryCode :: "byte_source \<Rightarrow> nat \<Rightarrow> (string + string \<times> nat) option" where
  "GenerateRecoveryCode rand n =
     (case recovery_chars rand RecoveryCodeLength n of
        None \<Rightarrow> None
      | Some (Inl err) \<Rightarrow> Some (Inl err)
      | Some (Inr (chars, n')) \<Rightarrow>
          Some (Inr (take 4 chars @ ''-'' @ take 4 (drop 4 chars) @ ''-'' @ drop 8 chars, n')))"

fun recovery_codes :: "byte_source \<Rightarrow> nat \<Rightarrow> nat \<Rightarrow> (string + string list \<times> nat) option" where
  "recovery_codes rand 0 n = Some (Inr ([], n))"
| "recovery_codes rand (Suc k) n =
     (case GenerateRecoveryCode rand n of
        None \<Rightarrow> None
      | Some (Inl err) \<Rightarrow> Some (Inl err)
      | Some (Inr (c, n')) \<Rightarrow>
          (case recovery_codes rand k n' of
             None \<Rightarrow> None
           | Some (Inl err) \<Rightarrow> Some (Inl err)
           | Some (Inr (cs, n'')) \<Rightarrow> Some (Inr (c # cs, n''))))"

definition GenerateRecoveryCodes :: "byte_source \<Rightarrow> (string + string list) option" where
  "GenerateRecoveryCodes rand = map_option (map_sum id fst) (recovery_codes rand RecoveryCodeCount 0)"

record text_lib =
  lib_ToUpper :: "string \<Rightarrow> string"
  lib_TrimSpace :: "string \<Rightarrow> string"

definition NormalizeRecoveryInput :: "text_lib \<Rightarrow> string \<Rightarrow> string" where
  "NormalizeRecoveryInput tl1 code = lib_ToUpper tl1 (lib_TrimSpace tl1 code)"

definition IsValidRecoveryCode :: "string \<Rightarrow> bool" where
  "IsValidRecoveryCode code \<longleftrightarrow>
     length code = RecoveryCodeLength + 2 \<and>
     (let parts = split_at (CHR ''-'') code
      in length parts = 3 \<and> list_all (\<lambda>p. length p = 4 \<and> list_all (\<lambda>c. c \<in> set recoveryAlphabet) p) parts)"

subsection \<open>ASCII texts\<close>

definition ascii :: "string \<Rightarrow> bool" where
  "ascii s \<longleftrightarrow> list_all (\<lambda>c. of_char c < (128::nat)) s"

definition upper_char :: "char \<Rightarrow> char" where
  "upper_char c = (if CHR ''a'' \<le> c \<and> c \<le> CHR ''z'' then char_of (of_char c - 32 :: nat) else c)"

definition lower_char :: "char \<Rightarrow> char" where
  "lower_char c = (if CHR ''A'' \<le> c \<and> c \<le> CHR ''Z'' then char_of (of_char c + 32 :: nat) else c)"

definition is_space :: "char \<Rightarrow> bool" where
  "is_space c \<longleftrightarrow> c \<in> {CHR '' '', CHR 0x09, CHR 0x0A, CHR 0x0B, CHR 0x0C, CHR 0x0D}"

definition trim_ascii :: "string \<Rightarrow> string" where
  "trim_ascii s = rev (dropWhile is_space (rev (dropWhile is_space s)))"

definition text_ok :: "text_lib \<Rightarrow> bool" where
  "text_ok tl1 \<longleftrightarrow> (\<forall>s. ascii s \<longrightarrow> lib_ToUpper tl1 s = map upper_char s \<and> lib_TrimSpace tl1 s = trim_ascii s)"

lemma recovery_alphabet:
  "length recoveryAlphabet = 31" "distinct recoveryAlphabet" "CHR ''-'' \<notin> set recoveryAlphabet"
  by (simp_all add: recoveryAlphabet_def)

lemma recovery_threshold_value: "recovery_threshold = 248"
  by (simp add: recovery_threshold_def recovery_alphabet)

lemma recovery_pick_in: "recovery_pick b \<in> set recoveryAlphabet"
  by (simp add: recovery_pick_def recovery_alphabet)

lemma alphabet_text:
  assumes "c \<in> set recoveryAlphabet"
  shows "upper_char c = c" "upper_char (lower_char c) = c" "\<not> is_space c" "\<not> is_space (lower_char c)"
    "of_char c < (128::nat)" "of_char (lower_char c) < (128::nat)"
proof -
  have "list_all (\<lambda>c. upper_char c = c \<and> upper_char (lower_char c) = c \<and> \<not> is_space c \<and> \<not> is_space (lower_char c)
      \<and> of_char c < (128::nat) \<and> of_char (lower_char c) < (128::nat)) recoveryAlphabet"
    by code_simp
  with assms show "upper_char c = c" "upper_char (lower_char c) = c" "\<not> is_space c" "\<not> is_space (lower_char c)"
    "of_char c < (128::nat)" "of_char (lower_char c) < (128::nat)"
    by (auto simp: list_all_iff)
qed

subsection \<open>Generated codes\<close>

text \<open>Every byte source that keeps delivering acceptable bytes lets the rejection loop end.\<close>

definition delivers :: "byte_source \<Rightarrow> bool" where
  "delivers rand \<longleftrightarrow> (\<forall>n. \<exists>b. rand n = Inr b) \<and> (\<forall>n. \<exists>m b. n \<le> m \<and> rand m = Inr b \<and> accepted b)"

lemma recovery_char_found:
  assumes "delivers rand" and "n \<le> m" and "rand m = Inr b" and "accepted b"
  shows "\<exists>c n'. recovery_char rand n = Some (Inr (c, n')) \<and> c \<in> set recoveryAlphabet"
  using assms(2)
proof (induction "m - n" arbitrary: n)
  case 0
  then have "n = m" by simp
  then show ?case using assms(3,4) recovery_pick_in by (subst recovery_char.simps) auto
next
  case (Suc d)
  obtain x where x: "rand n = Inr x" using assms(1) unfolding delivers_def by blast
  show ?case
  proof (cases "accepted x")
    case True
    then show ?thesis using x recovery_pick_in by (subst recovery_char.simps) auto
  next
    case False
    then show ?thesis using Suc.hyps(1) [of "Suc n"] Suc.hyps(2) x by (subst recovery_char.simps) auto
  qed
qed

lemma recovery_char_ends: "delivers rand \<Longrightarrow> \<exists>c n'. recovery_char rand n = Some (Inr (c, n')) \<and> c \<in> set recoveryAlphabet"
  using recovery_char_found unfolding delivers_def by blast

lemma recovery_chars_end:
  assumes "delivers rand"
  shows "\<exists>cs n'. recovery_chars rand k n = Some (Inr (cs, n')) \<and> length cs = k \<and> set cs \<subseteq> set recoveryAlphabet"
proof (induction k arbitrary: n)
  case (Suc k)
  obtain c n1 where c: "recovery_char rand n = Some (Inr (c, n1))" "c \<in> set recoveryAlphabet"
    using recovery_char_ends [OF assms] by blast
  obtain cs n2 where "recovery_chars rand k n1 = Some (Inr (cs, n2))" "length cs = k" "set cs \<subseteq> set recoveryAlphabet"
    using Suc by blast
  with c show ?case by simp
qed simp

lemma GenerateRecoveryCode_ends:
  assumes "delivers rand"
  obtains p q r n' where "GenerateRecoveryCode rand n = Some (Inr (p @ ''-'' @ q @ ''-'' @ r, n'))"
    "length p = 4" "length q = 4" "length r = 4" "set (p @ q @ r) \<subseteq> set recoveryAlphabet"
proof -
  obtain cs n' where cs: "recovery_chars rand RecoveryCodeLength n = Some (Inr (cs, n'))"
    "length cs = RecoveryCodeLength" "set cs \<subseteq> set recoveryAlphabet"
    using recovery_chars_end [OF assms] by blast
  have "set (take 4 cs @ take 4 (drop 4 cs) @ drop 8 cs) \<subseteq> set recoveryAlphabet"
    using cs(3) set_take_subset [of 4 cs] set_drop_subset [of 8 cs] set_take_subset [of 4 "drop 4 cs"]
      set_drop_subset [of 4 cs] by (simp only: set_append) blast
  then show ?thesis
    using that [of "take 4 cs" "take 4 (drop 4 cs)" "drop 8 cs" n'] cs(1,2)
    by (simp add: GenerateRecoveryCode_def RecoveryCodeLength_def)
qed

lemma valid_parts:
  assumes "length p = 4" "length q = 4" "length r = 4" "set (p @ q @ r) \<subseteq> set recoveryAlphabet"
  shows "IsValidRecoveryCode (p @ ''-'' @ q @ ''-'' @ r)"
proof -
  have "CHR ''-'' \<notin> set p" "CHR ''-'' \<notin> set q" "CHR ''-'' \<notin> set r"
    using assms(4) recovery_alphabet(3) by auto
  then have "split_at (CHR ''-'') (p @ ''-'' @ q @ ''-'' @ r) = [p, q, r]"
    by (simp add: split_at_cons)
  then show ?thesis using assms by (auto simp: IsValidRecoveryCode_def RecoveryCodeLength_def list_all_iff)
qed

lemma dropWhile_none: "list_all (\<lambda>c. \<not> P c) s \<Longrightarrow> dropWhile P s = s"
  by (cases s) auto

lemma trim_blanks:
  assumes "list_all is_space u" "list_all is_space v" "list_all (\<lambda>c. \<not> is_space c) s"
  shows "trim_ascii (u @ s @ v) = s"
proof (cases "s = []")
  case True
  have "dropWhile is_space (u @ v) = []"
    using assms(1,2) by (subst dropWhile_eq_Nil_conv) (auto simp: list_all_iff)
  then show ?thesis by (simp only: trim_ascii_def True append_Nil rev.simps dropWhile.simps)
next
  case False
  have "dropWhile is_space (u @ s @ v) = s @ v"
    using assms(1,3) False by (cases s) (simp_all add: dropWhile_append list_all_iff)
  moreover have "dropWhile is_space (rev v @ rev s) = rev s"
    using assms(2,3) dropWhile_none [of is_space "rev s"] by (simp add: dropWhile_append list_all_iff)
  ultimately show ?thesis by (simp add: trim_ascii_def)
qed

text \<open>C38: Generating a recovery code ends, and the user gets back in with it.  From any byte source that keeps
  delivering bytes below the rejection threshold the loop returns; the code is valid; and typed in lower case
  with blanks around it, it is normalised to the same code.\<close>

theorem GenerateRecoveryCode_returns:
  assumes "delivers rand" and "text_ok tl1" and "list_all is_space u" and "list_all is_space v"
  shows "\<exists>code n'. GenerateRecoveryCode rand n = Some (Inr (code, n')) \<and> IsValidRecoveryCode code \<and>
     NormalizeRecoveryInput tl1 (u @ map lower_char code @ v) = code"
proof -
  obtain p q r n' where g: "GenerateRecoveryCode rand n = Some (Inr (p @ ''-'' @ q @ ''-'' @ r, n'))"
    "length p = 4" "length q = 4" "length r = 4" "set (p @ q @ r) \<subseteq> set recoveryAlphabet"
    using GenerateRecoveryCode_ends [OF assms(1)] .
  define code where "code = p @ ''-'' @ q @ ''-'' @ r"
  have dash: "upper_char (lower_char (CHR ''-'')) = CHR ''-''" "\<not> is_space (lower_char (CHR ''-''))"
    "of_char (lower_char (CHR ''-'')) < (128::nat)"
    by (simp_all add: upper_char_def lower_char_def is_space_def less_eq_char_def)
  have c: "upper_char (lower_char x) = x \<and> \<not> is_space (lower_char x) \<and> of_char (lower_char x) < (128::nat)"
    if "x \<in> set code" for x
    using that g(5) alphabet_text dash by (cases "x = CHR ''-''") (auto simp: code_def)
  have "of_char x < (128::nat)" if "is_space x" for x
    using that by (auto simp: is_space_def)
  then have a: "ascii u" "ascii v" using assms(3,4) by (auto simp: ascii_def list_all_iff)
  have m: "ascii (map lower_char code)" "list_all (\<lambda>c. \<not> is_space c) (map lower_char code)"
    using c by (simp_all add: ascii_def list_all_iff)
  have "trim_ascii (u @ map lower_char code @ v) = map lower_char code"
    by (rule trim_blanks [OF assms(3,4) m(2)])
  moreover have "map upper_char (map lower_char code) = code"
    unfolding map_map using c by (intro map_idI) simp
  moreover have "ascii (u @ map lower_char code @ v)" using a m(1) by (simp add: ascii_def)
  ultimately have "NormalizeRecoveryInput tl1 (u @ map lower_char code @ v) = code"
    using assms(2) m(1) unfolding NormalizeRecoveryInput_def text_ok_def by metis
  then show ?thesis
    using g(1) valid_parts [OF g(2-5)] unfolding code_def [symmetric] by blast
qed

definition demo_text :: text_lib where
  "demo_text = \<lparr>lib_ToUpper = map upper_char, lib_TrimSpace = trim_ascii\<rparr>"

theorem GenerateRecoveryCode_returns_witness:
  "\<exists>code n'. GenerateRecoveryCode (\<lambda>n. Inr (char_of (n mod 256))) 0 = Some (Inr (code, n')) \<and>
     NormalizeRecoveryInput demo_text ('' '' @ map lower_char code @ []) = code"
proof -
  have d: "delivers (\<lambda>n. Inr (char_of (n mod 256)))"
    unfolding delivers_def
  proof (intro conjI allI)
    fix n :: nat
    show "\<exists>b. (Inr (char_of (n mod 256)) :: string + char) = Inr b" by simp
    have "accepted (char_of (n * 256 mod 256))" by (simp add: accepted_def recovery_threshold_value)
    then show "\<exists>m b. n \<le> m \<and> (Inr (char_of (m mod 256)) :: string + char) = Inr b \<and> accepted b"
      by (intro exI [of _ "n * 256"] exI [of _ "char_of (n * 256 mod 256)"]) simp
  qed
  have t: "text_ok demo_text" by (simp add: text_ok_def demo_text_def)
  show ?thesis using GenerateRecoveryCode_returns [OF d t, of "'' ''" "[]" 0] by (auto simp: is_space_def)
qed

text \<open>The codes are drawn without bias: among the accepted byte values each of the 31 characters is picked by
  exactly eight, and nothing else is picked.\<close>

theorem recovery_pick_uniform:
  "(\<forall>c \<in> set recoveryAlphabet. card {b. accepted b \<and> recovery_pick b = c} = 8) \<and>
   (\<forall>b. recovery_pick b \<in> set recoveryAlphabet)"
proof (intro conjI ballI allI)
  fix c assume "c \<in> set recoveryAlphabet"
  then obtain i where i: "i < 31" "c = recoveryAlphabet ! i"
    by (metis in_set_conv_nth recovery_alphabet(1))
  have "{b. accepted b \<and> recovery_pick b = c} = {b. of_char b < (248::nat) \<and> of_char b mod 31 = i}"
    using nth_eq_iff_index_eq [OF recovery_alphabet(2)] i
    by (simp add: recovery_pick_def accepted_def recovery_threshold_value recovery_alphabet(1))
  also have "\<dots> = (\<lambda>k. char_of (i + 31 * k)) ` {..<8}"
  proof (rule set_eqI)
    fix b
    have "of_char b < (248::nat) \<and> of_char b mod 31 = i \<longleftrightarrow> (\<exists>k < 8. of_char b = i + 31 * k)"
    proof
      assume h: "of_char b < (248::nat) \<and> of_char b mod 31 = i"
      then have "of_char b div 31 < (8::nat)" by (simp add: less_mult_imp_div_less)
      moreover have "of_char b = i + 31 * (of_char b div 31)" using h by (metis mod_mult_div_eq)
      ultimately show "\<exists>k < 8. of_char b = i + 31 * k" by blast
    qed (use i(1) in auto)
    also have "\<dots> \<longleftrightarrow> (\<exists>k < 8. b = char_of (i + 31 * k))"
    proof -
      have "of_char b = i + 31 * k \<longleftrightarrow> b = char_of (i + 31 * k)" if "k < 8" for k
        using that i(1) by (intro iffI) (metis char_of_char, simp add: of_char_of)
      then show ?thesis by blast
    qed
    finally show "b \<in> {b. of_char b < (248::nat) \<and> of_char b mod 31 = i} \<longleftrightarrow> b \<in> (\<lambda>k. char_of (i + 31 * k)) ` {..<8}"
      by auto
  qed
  also have "card \<dots> = 8"
  proof -
    have "inj_on (\<lambda>k. char_of (i + 31 * k)) {..<8}"
    proof (rule inj_onI)
      fix j k :: nat
      assume "j \<in> {..<8}" "k \<in> {..<8}" "(char_of (i + 31 * j) :: char) = char_of (i + 31 * k)"
      moreover from this have "(i + 31 * j) mod 256 = (i + 31 * k) mod 256" by (metis of_char_of)
      ultimately show "j = k" using i(1) by simp
    qed
    then show ?thesis by (simp add: card_image)
  qed
  finally show "card {b. accepted b \<and> recovery_pick b = c} = 8" .
qed (rule recovery_pick_in)

end
