(* ===== verification/Otpauth.thy ===== *)
theory Otpauth
  imports Totp RecoveryCodes
begin

text \<open>
  The texts of a TOTP enrolment: the hand-written base32 of \<open>packages/identity/inmem.go\<close>, the
  \<open>encoding/base32\<close> and \<open>net/url\<close> functions that \<open>TotpOtpauthURI\<close> of \<open>mfa.go\<close> calls, and the proof
  that the two base32 encoders agree.  The packed \<open>uint64\<close> of a chunk stays below \<open>2 ^ 40\<close>, so
  shifting in a byte is \<open>v * 256 + b\<close> and taking five bits \<open>v div 32 ^ j mod 32\<close>.
\<close>

definition b32Alphabet :: string where
  "b32Alphabet = ''ABCDEFGHIJKLMNOPQRSTUVWXYZ234567''"

definition b32_pack :: "string \<Rightarrow> nat" where
  "b32_pack chunk =
     foldl (\<lambda>v j. v * 256 + (if j < length chunk then of_char (chunk ! j) else 0)) 0 [0..<5]"

definition b32_chunk :: "string \<Rightarrow> string" where
  "b32_chunk chunk = map (\<lambda>j. b32Alphabet ! (b32_pack chunk div 32 ^ j mod 32)) (rev [0..<8])"

function b32_chunks :: "string \<Rightarrow> string" where
  "b32_chunks b = (if b = [] then [] else b32_chunk (take 5 b) @ b32_chunks (drop 5 b))"
  by pat_completeness auto
termination by (relation "measure length") auto

declare b32_chunks.simps [simp del]

definition base32StdEncodeNoPad :: "string \<Rightarrow> string" where
  "base32StdEncodeNoPad b =
     (let out = b32_chunks b; k = length b mod 5;
          cut_off = (if k = 1 then 6 else if k = 2 then 4 else if k = 3 then 3 else if k = 4 then 1 else 0)
      in take (length out - cut_off) out)"

definition base64SecretB32 :: "string \<Rightarrow> string" where
  "base64SecretB32 secret = base32StdEncodeNoPad secret"

text \<open>\<open>base32.StdEncoding.EncodeToString\<close> and \<open>strings.TrimRight\<close> of the padding.\<close>

fun quintets :: "nat list \<Rightarrow> nat list" where
  "quintets [] = []"
| "quintets [a] = [a div 8, a mod 8 * 4]"
| "quintets [a, b] = [a div 8, a mod 8 * 4 + b div 64, b div 2 mod 32, b mod 2 * 16]"
| "quintets [a, b, c] = [a div 8, a mod 8 * 4 + b div 64, b div 2 mod 32, b mod 2 * 16 + c div 16, c mod 16 * 2]"
| "quintets [a, b, c, d] = [a div 8, a mod 8 * 4 + b div 64, b div 2 mod 32, b mod 2 * 16 + c div 16,
     c mod 16 * 2 + d div 128, d div 4 mod 32, d mod 4 * 8]"
| "quintets (a # b # c # d # e # r) =
     a div 8 # (a mod 8 * 4 + b div 64) # (b div 2 mod 32) # (b mod 2 * 16 + c div 16) #
     (c mod 16 * 2 + d div 128) # (d div 4 mod 32) # (d mod 4 * 8 + e div 32) # (e mod 32) # quintets r"

definition base32_StdEncoding :: "string \<Rightarrow> string" where
  "base32_StdEncoding s =
     (let t = map (\<lambda>n. b32Alphabet ! n) (quintets (map of_char s))
      in t @ replicate ((8 - length t mod 8) mod 8) (CHR ''=''))"

definition TrimRight :: "char \<Rightarrow> string \<Rightarrow> string" where
  "TrimRight c s = rev (dropWhile (\<lambda>x. x = c) (rev s))"

text \<open>\<open>url.PathEscape\<close>, \<open>url.QueryEscape\<close> and \<open>Values.Encode\<close> (which sorts by key).\<close>

definition unreserved :: "char \<Rightarrow> bool" where
  "unreserved c \<longleftrightarrow> (CHR ''a'' \<le> c \<and> c \<le> CHR ''z'') \<or> (CHR ''A'' \<le> c \<and> c \<le> CHR ''Z'') \<or> is_digit c \<or>
     c \<in> {CHR ''-'', CHR ''_'', CHR ''.'', CHR ''~''}"

definition percent :: "char \<Rightarrow> string" where
  "percent c = [CHR ''%'', ''0123456789ABCDEF'' ! (of_char c div 16), ''0123456789ABCDEF'' ! (of_char c mod 16)]"

definition PathEscape :: "string \<Rightarrow> string" where
  "PathEscape s = concat (map (\<lambda>c. if unreserved c \<or>
     c \<in> {CHR ''$'', CHR 0x26, CHR ''+'', CHR ''='', CHR '':'', CHR ''@''} then [c] else percent c) s)"

definition QueryEscape :: "string \<Rightarrow> string" where
  "QueryEscape s = concat (map (\<lambda>c. if c = CHR '' '' then ''+'' else if unreserved c then [c] else percent c) s)"

definition decimal_int :: "int \<Rightarrow> string" where
  "decimal_int i = (if i < 0 then ''-'' @ decimal (nat (- i)) else decimal (nat i))"

definition TotpOtpauthURI :: "text_lib \<Rightarrow> string \<Rightarrow> string \<Rightarrow> string \<Rightarrow> TotpComputeOptions \<Rightarrow> string" where
  "TotpOtpauthURI tl1 secret label issuer opts =
     (let secretB32 = TrimRight (CHR ''='') (base32_StdEncoding secret);
          alg = (if tco_Algorithm opts = [] then DefaultTotpAlgorithm else tco_Algorithm opts)
      in ''otpauth://totp/'' @ PathEscape (issuer @ '':'' @ label) @ ''?algorithm='' @ QueryEscape (lib_ToUpper tl1 alg) @
         [CHR 0x26] @ ''digits='' @ QueryEscape (decimal_int (totp_digits opts)) @
         [CHR 0x26] @ ''issuer='' @ QueryEscape issuer @
         [CHR 0x26] @ ''period='' @ QueryEscape (decimal_int (totp_period opts)) @
         [CHR 0x26] @ ''secret='' @ QueryEscape secretB32)"

subsection \<open>The two base32 encoders\<close>

lemma shift_div: "r < 2 ^ k \<Longrightarrow> (u * 2 ^ k + r) div (2 ^ k * m) = u div (m::nat)"
  by (simp add: div_mult2_eq)

lemma field_mod: "t < m \<Longrightarrow> (x * m + t) mod (k * m) = x mod k * m + t" for t :: nat
  using mod_mult2_eq [of "x * m + t" m k] by (simp add: mult.commute)

lemma field_div: "0 < n \<Longrightarrow> (x * (m * n) + b) div n = x * m + b div n" for b :: nat
  using div_mult_self3 [of n "x * m" b] by (simp add: mult.assoc)

lemma field_low: "(x * (k * m) + b) mod m = b mod m" for b :: nat
  by (metis mod_mult_self3 mult.assoc)

lemma small_quintets:
  assumes "b < (256::nat)" "c < 256" "d < 256" "e < 256"
  shows "(a * 256 + b) div 64 mod 32 = a mod 8 * 4 + b div 64"
    "(x * 256 + b) div 2 mod 32 = b div 2 mod 32"
    "((x * 256 + b) * 256 + c) div 16 mod 32 = b mod 2 * 16 + c div 16"
    "((y * 256 + c) * 256 + d) div 128 mod 32 = c mod 16 * 2 + d div 128"
    "(z * 256 + d) div 4 mod 32 = d div 4 mod 32"
    "((z * 256 + d) * 256 + e) div 32 mod 32 = d mod 4 * 8 + e div 32"
    "(z * 256 + e) mod 32 = e mod 32"
proof -
  have bounds: "b div 64 < 4" "c div 16 < 16" "d div 128 < 2" "e div 32 < 8"
    using assms by (simp_all add: less_mult_imp_div_less)
  show "(a * 256 + b) div 64 mod 32 = a mod 8 * 4 + b div 64"
    using field_div [of 64 a 4 b] field_mod [OF bounds(1), of a 8] by simp
  show "(x * 256 + b) div 2 mod 32 = b div 2 mod 32"
    using field_div [of 2 x 128 b] field_low [of x 4 32 "b div 2"] by simp
  show "((x * 256 + b) * 256 + c) div 16 mod 32 = b mod 2 * 16 + c div 16"
    using field_div [of 16 "x * 256 + b" 16 c] field_mod [OF bounds(2), of "x * 256 + b" 2]
      field_low [of x 128 2 b] by simp
  show "((y * 256 + c) * 256 + d) div 128 mod 32 = c mod 16 * 2 + d div 128"
    using field_div [of 128 "y * 256 + c" 2 d] field_mod [OF bounds(3), of "y * 256 + c" 16]
      field_low [of y 16 16 c] by simp
  show "(z * 256 + d) div 4 mod 32 = d div 4 mod 32"
    using field_div [of 4 z 64 d] field_low [of z 2 32 "d div 4"] by simp
  show "((z * 256 + d) * 256 + e) div 32 mod 32 = d mod 4 * 8 + e div 32"
    using field_div [of 32 "z * 256 + d" 8 e] field_mod [OF bounds(4), of "z * 256 + d" 4]
      field_low [of z 64 4 d] by simp
  show "(z * 256 + e) mod 32 = e mod 32" using field_low [of z 8 32 e] by simp
qed

lemma pack_quintets:
  assumes "a < (256::nat)" "b < 256" "c < 256" "d < 256" "e < 256"
    and "v = (((a * 256 + b) * 256 + c) * 256 + d) * 256 + e"
  shows "map (\<lambda>j. v div 32 ^ j mod 32) (rev [0..<8]) =
    [a div 8, a mod 8 * 4 + b div 64, b div 2 mod 32, b mod 2 * 16 + c div 16,
     c mod 16 * 2 + d div 128, d div 4 mod 32, d mod 4 * 8 + e div 32, e mod 32]"
proof -
  have v: "v = a * 2 ^ 32 + (((b * 256 + c) * 256 + d) * 256 + e)"
    "v = (a * 256 + b) * 2 ^ 24 + ((c * 256 + d) * 256 + e)"
    "v = ((a * 256 + b) * 256 + c) * 2 ^ 16 + (d * 256 + e)"
    "v = (((a * 256 + b) * 256 + c) * 256 + d) * 2 ^ 8 + e"
    using assms(6) by simp_all
  have r: "((b * 256 + c) * 256 + d) * 256 + e < 2 ^ 32" "(c * 256 + d) * 256 + e < 2 ^ 24"
    "d * 256 + e < 2 ^ 16" "e < 2 ^ 8"
    using assms(1-5) by simp_all
  have pw: "32 ^ 7 = (2 ^ 32 * 8 :: nat)" "32 ^ 6 = (2 ^ 24 * 64 :: nat)" "32 ^ 5 = (2 ^ 24 * 2 :: nat)"
    "32 ^ 4 = (2 ^ 16 * 16 :: nat)" "32 ^ 3 = (2 ^ 8 * 128 :: nat)" "32 ^ 2 = (2 ^ 8 * 4 :: nat)"
    by simp_all
  have q: "v div 32 ^ 7 = a div 8" unfolding pw v(1) by (rule shift_div [OF r(1)])
  have q6: "v div 32 ^ 6 = (a * 256 + b) div 64" unfolding pw v(2) by (rule shift_div [OF r(2)])
  have q5: "v div 32 ^ 5 = (a * 256 + b) div 2" unfolding pw v(2) by (rule shift_div [OF r(2)])
  have q4: "v div 32 ^ 4 = ((a * 256 + b) * 256 + c) div 16" unfolding pw v(3) by (rule shift_div [OF r(3)])
  have q3: "v div 32 ^ 3 = (((a * 256 + b) * 256 + c) * 256 + d) div 128"
    unfolding pw v(4) by (rule shift_div [OF r(4)])
  have q2: "v div 32 ^ 2 = (((a * 256 + b) * 256 + c) * 256 + d) div 4"
    unfolding pw v(4) by (rule shift_div [OF r(4)])
  have l: "rev [0..<8] = [7, 6, 5, 4, 3, 2, 1, 0::nat]" by (simp add: upt_rec)
  have a: "a div 8 mod 32 = a div 8" using assms(1) by simp
  have q0: "v div 32 ^ 1 = ((((a * 256 + b) * 256 + c) * 256 + d) * 256 + e) div 32" "v div 32 ^ 0 = v"
    using assms(6) by simp_all
  have e: "v mod 32 = e mod 32" unfolding assms(6) by (rule small_quintets(7) [OF assms(2-5)])
  show ?thesis
    unfolding l list.map q q6 q5 q4 q3 q2 q0 a e small_quintets(1-6) [OF assms(2-5)] by (rule refl)
qed

lemma b32_chunk_text:
  "b32_chunk [v, w, x, y, z] = map (\<lambda>n. b32Alphabet ! n) (quintets (map of_char [v, w, x, y, z]))"
  "take 7 (b32_chunk [v, w, x, y]) = map (\<lambda>n. b32Alphabet ! n) (quintets (map of_char [v, w, x, y]))"
  "take 5 (b32_chunk [v, w, x]) = map (\<lambda>n. b32Alphabet ! n) (quintets (map of_char [v, w, x]))"
  "take 4 (b32_chunk [v, w]) = map (\<lambda>n. b32Alphabet ! n) (quintets (map of_char [v, w]))"
  "take 2 (b32_chunk [v]) = map (\<lambda>n. b32Alphabet ! n) (quintets (map of_char [v]))"
proof -
  have l: "[0..<5] = [0, 1, 2, 3, 4::nat]" by (simp add: upt_rec)
  have chunk: "b32_chunk s = map (\<lambda>n. b32Alphabet ! n)
     [a div 8, a mod 8 * 4 + b div 64, b div 2 mod 32, b mod 2 * 16 + c div 16,
      c mod 16 * 2 + d div 128, d div 4 mod 32, d mod 4 * 8 + e div 32, e mod 32]"
    if "b32_pack s = (((a * 256 + b) * 256 + c) * 256 + d) * 256 + e"
      "a < 256" "b < 256" "c < 256" "d < 256" "e < 256" for s a b c d e
  proof -
    have "b32_chunk s = map (\<lambda>n. b32Alphabet ! n) (map (\<lambda>j. b32_pack s div 32 ^ j mod 32) (rev [0..<8]))"
      by (simp add: b32_chunk_def)
    then show ?thesis unfolding pack_quintets [OF that(2-6,1)] .
  qed
  have "b32_pack [v, w, x, y, z] = (((of_char v * 256 + of_char w) * 256 + of_char x) * 256 + of_char y) * 256 + of_char z"
    by (simp add: b32_pack_def l)
  from chunk [OF this] show "b32_chunk [v, w, x, y, z] = map (\<lambda>n. b32Alphabet ! n) (quintets (map of_char [v, w, x, y, z]))"
    by simp
  have "b32_pack [v, w, x, y] = (((of_char v * 256 + of_char w) * 256 + of_char x) * 256 + of_char y) * 256 + 0"
    by (simp add: b32_pack_def l)
  from chunk [OF this] show "take 7 (b32_chunk [v, w, x, y]) = map (\<lambda>n. b32Alphabet ! n) (quintets (map of_char [v, w, x, y]))"
    by simp
  have "b32_pack [v, w, x] = (((of_char v * 256 + of_char w) * 256 + of_char x) * 256 + 0) * 256 + 0"
    by (simp add: b32_pack_def l)
  from chunk [OF this] show "take 5 (b32_chunk [v, w, x]) = map (\<lambda>n. b32Alphabet ! n) (quintets (map of_char [v, w, x]))"
    by simp
  have "b32_pack [v, w] = (((of_char v * 256 + of_char w) * 256 + 0) * 256 + 0) * 256 + 0"
    by (simp add: b32_pack_def l)
  from chunk [OF this] show "take 4 (b32_chunk [v, w]) = map (\<lambda>n. b32Alphabet ! n) (quintets (map of_char [v, w]))"
    by simp
  have "b32_pack [v] = (((of_char v * 256 + 0) * 256 + 0) * 256 + 0) * 256 + 0"
    by (simp add: b32_pack_def l)
  from chunk [OF this] show "take 2 (b32_chunk [v]) = map (\<lambda>n. b32Alphabet ! n) (quintets (map of_char [v]))"
    by simp
qed

lemma length_b32_chunk [simp]: "length (b32_chunk s) = 8"
  by (simp add: b32_chunk_def)

lemma b32_chunks_length: "b \<noteq> [] \<Longrightarrow> 8 \<le> length (b32_chunks b)"
  by (subst b32_chunks.simps) simp

lemma base32_step:
  "base32StdEncodeNoPad (v # w # x # y # z # r) = b32_chunk [v, w, x, y, z] @ base32StdEncodeNoPad r"
proof -
  have c: "b32_chunks (v # w # x # y # z # r) = b32_chunk [v, w, x, y, z] @ b32_chunks r"
    by (subst b32_chunks.simps) simp
  have "length (v # w # x # y # z # r) mod 5 = length r mod 5"
  proof -
    have "length (v # w # x # y # z # r) = length r + 5" by simp
    then show ?thesis by (simp only: mod_add_self2)
  qed
  then show ?thesis using b32_chunks_length [of r] unfolding base32StdEncodeNoPad_def c
    by (cases "r = []") (simp_all add: Let_def del: list.size(4))
qed

lemma base32NoPad_text: "base32StdEncodeNoPad b = map (\<lambda>n. b32Alphabet ! n) (quintets (map of_char b))"
proof (induction b rule: length_induct)
  case (1 b)
  have nil: "b32_chunks [] = []" by (subst b32_chunks.simps) simp
  have short: "b \<noteq> [] \<Longrightarrow> length b \<le> 5 \<Longrightarrow> b32_chunks b = b32_chunk b"
    by (subst b32_chunks.simps) (simp add: nil)
  have cases5: "b = [] \<or> (\<exists>v. b = [v]) \<or> (\<exists>v w. b = [v, w]) \<or> (\<exists>v w x. b = [v, w, x]) \<or>
      (\<exists>v w x y. b = [v, w, x, y]) \<or> (\<exists>v w x y z r. b = v # w # x # y # z # r)"
    by (metis list.exhaust)
  then consider "b = []" | v where "b = [v]" | v w where "b = [v, w]" | v w x where "b = [v, w, x]"
    | v w x y where "b = [v, w, x, y]" | v w x y z r where "b = v # w # x # y # z # r"
    by blast
  then show ?case
  proof cases
    case 1
    then show ?thesis by (simp add: base32StdEncodeNoPad_def nil)
  next
    case (2 v)
    then show ?thesis using short b32_chunk_text(5) [of v] by (simp add: base32StdEncodeNoPad_def)
  next
    case (3 v w)
    then show ?thesis using short b32_chunk_text(4) [of v w] by (simp add: base32StdEncodeNoPad_def)
  next
    case (4 v w x)
    then show ?thesis using short b32_chunk_text(3) [of v w x] by (simp add: base32StdEncodeNoPad_def)
  next
    case (5 v w x y)
    then show ?thesis using short b32_chunk_text(2) [of v w x y] by (simp add: base32StdEncodeNoPad_def)
  next
    case (6 v w x y z r)
    then have "base32StdEncodeNoPad r = map (\<lambda>n. b32Alphabet ! n) (quintets (map of_char r))"
      using "1.IH" by simp
    then show ?thesis unfolding 6 base32_step b32_chunk_text(1) by simp
  qed
qed

lemma quintets_less: "list_all (\<lambda>n. n < 256) xs \<Longrightarrow> list_all (\<lambda>n. n < 32) (quintets xs)"
proof -
  have p: "u < m \<Longrightarrow> v < k \<Longrightarrow> m * k = 32 \<Longrightarrow> u * k + v < 32" for u v m k :: nat
    using pair_bound [of u m v k] by simp
  have b: "a mod 8 * 4 + b div 64 < 32" "b mod 2 * 16 + c div 16 < 32" "c mod 16 * 2 + d div 128 < 32"
    "d mod 4 * 8 + e div 32 < 32" "a div 8 < 32" if "a < 256" "b < 256" "c < 256" "d < 256" "e < 256"
    for a b c d e :: nat
    using that by (auto intro!: p simp: less_mult_imp_div_less)
  have b0: "a mod 8 * 4 < 32" "b mod 2 * 16 < 32" "c mod 16 * 2 < 32" "d mod 4 * 8 < 32" for a b c d :: nat
    using p [of "a mod 8" 8 0 4] p [of "b mod 2" 2 0 16] p [of "c mod 16" 16 0 2] p [of "d mod 4" 4 0 8] by simp_all
  show "list_all (\<lambda>n. n < 256) xs \<Longrightarrow> list_all (\<lambda>n. n < 32) (quintets xs)"
    by (induction xs rule: quintets.induct) (simp_all add: less_mult_imp_div_less b [of _ _ 0 0 0] b [of 0 _ _ 0 0] b [of 0 0 _ _ 0] b [of 0 0 0 _ _] b0)
qed

lemma b32_length: "length b32Alphabet = 32"
  by (simp add: b32Alphabet_def)

lemma TrimRight_pad: "c \<notin> set t \<Longrightarrow> TrimRight c (t @ replicate n c) = t"
proof -
  assume c: "c \<notin> set t"
  have "dropWhile (\<lambda>x. x = c) (replicate n c @ rev t) = rev t"
    using c by (induction n) (auto simp: dropWhile_eq_self_iff hd_rev)
  then show ?thesis by (simp add: TrimRight_def)
qed

text \<open>The hand-written base32 agrees with the library: for every secret the text that \<open>EnrollTotpFactor\<close>
  returns is RFC 4648 base32 as \<open>encoding/base32\<close> produces it, with the padding trimmed, the same text that
  \<open>TotpOtpauthURI\<close> puts into the QR code.\<close>

theorem base32_agrees:
  "TrimRight (CHR ''='') (base64SecretB32 secret) = TrimRight (CHR ''='') (base32_StdEncoding secret) \<and>
   base64SecretB32 secret = TrimRight (CHR ''='') (base32_StdEncoding secret)"
proof -
  let ?t = "map (\<lambda>n. b32Alphabet ! n) (quintets (map of_char secret))"
  have "list_all (\<lambda>n. n < 256) (map (of_char :: char \<Rightarrow> nat) secret)" by (simp add: list_all_iff of_char_byte)
  from quintets_less [OF this] have "\<forall>n \<in> set (quintets (map of_char secret)). n < length b32Alphabet"
    by (simp add: list_all_iff b32_length)
  then have "set ?t \<subseteq> set b32Alphabet" by auto
  moreover have "CHR ''='' \<notin> set b32Alphabet" by (simp add: b32Alphabet_def)
  ultimately have "CHR ''='' \<notin> set ?t" by blast
  then have "TrimRight (CHR ''='') (?t @ replicate n (CHR ''='')) = ?t" for n by (rule TrimRight_pad)
  from this [of 0] this show ?thesis
    by (simp add: base64SecretB32_def base32NoPad_text base32_StdEncoding_def Let_def)
qed

end
