(* ===== verification/Passwords.thy ===== *)
theory Passwords
  imports GoText "HOL-Library.Word"
begin

text \<open>
  \<open>packages/identity/hashing.go\<close>: Argon2id hashes in PHC format.  \<open>argon2.IDKey\<close> is the parameter
  \<open>idkey\<close> of type \<open>argon\<close> (password, salt, time, memory, threads, key length), the salt of
  \<open>rand.Read\<close> an argument.  \<open>subtle.ConstantTimeCompare\<close> is equality of byte strings.
\<close>

type_synonym argon = "string \<Rightarrow> string \<Rightarrow> 32 word \<Rightarrow> 32 word \<Rightarrow> 8 word \<Rightarrow> 32 word \<Rightarrow> string"

definition MaxPasswordBytes :: nat where "MaxPasswordBytes = 1024"

definition argon2idSaltBytes :: nat where "argon2idSaltBytes = 16"
definition argon2idKeyLen :: "32 word" where "argon2idKeyLen = 32"
definition argon2idVariant :: string where "argon2idVariant = ''argon2id''"
definition argon2idVersion :: nat where "argon2idVersion = 19"

record argon2idParams =
  prm_MemoryKiB :: "32 word"
  prm_TimeCost :: "32 word"
  prm_Parallelism :: "8 word"

definition Argon2idFloor :: argon2idParams where
  "Argon2idFloor = \<lparr>prm_MemoryKiB = 19456, prm_TimeCost = 2, prm_Parallelism = 1\<rparr>"

datatype hash_error =
    ErrPasswordTooLong
  | ErrSalt string

datatype phc_error =
    PhcMalformed
  | PhcVariant string
  | PhcNoVersion
  | PhcVersion string
  | PhcParam string
  | PhcNonInteger string
  | PhcUnknown string
  | PhcMissing
  | PhcSalt
  | PhcHash

definition checkPasswordLength :: "string \<Rightarrow> hash_error option" where
  "checkPasswordLength plaintext =
     (if length plaintext > MaxPasswordBytes then Some ErrPasswordTooLong else None)"

definition encodePHC :: "string \<Rightarrow> string \<Rightarrow> string" where
  "encodePHC salt key =
     ''$'' @ argon2idVariant @ ''$v='' @ decimal argon2idVersion @
     ''$m='' @ decimal (unat (prm_MemoryKiB Argon2idFloor)) @
     '',t='' @ decimal (unat (prm_TimeCost Argon2idFloor)) @
     '',p='' @ decimal (unat (prm_Parallelism Argon2idFloor)) @
     ''$'' @ RawStdEncoding_EncodeToString salt @ ''$'' @ RawStdEncoding_EncodeToString key"

definition HashPassword :: "argon \<Rightarrow> (string + string) \<Rightarrow> string \<Rightarrow> hash_error + string" where
  "HashPassword idkey rand plaintext =
     (case checkPasswordLength plaintext of
        Some err \<Rightarrow> Inl err
      | None \<Rightarrow>
          (case rand of
             Inl err \<Rightarrow> Inl (ErrSalt err)
           | Inr salt \<Rightarrow>
               Inr (encodePHC salt
                 (idkey plaintext salt (prm_TimeCost Argon2idFloor) (prm_MemoryKiB Argon2idFloor)
                    (prm_Parallelism Argon2idFloor) argon2idKeyLen))))"

text \<open>The loop over the parameters; \<open>uint32(n)\<close> and \<open>uint8(n)\<close> truncate.\<close>

fun decode_params :: "string list \<Rightarrow> argon2idParams \<Rightarrow> phc_error + argon2idParams" where
  "decode_params [] params = Inr params"
| "decode_params (kv # kvs) params =
     (case cut (CHR ''='') kv of
        None \<Rightarrow> Inl (PhcParam kv)
      | Some (key, val) \<Rightarrow>
          (case ParseUint 32 val of
             None \<Rightarrow> Inl (PhcNonInteger kv)
           | Some n \<Rightarrow>
               if key = ''m'' then decode_params kvs (params\<lparr>prm_MemoryKiB := of_nat n\<rparr>)
               else if key = ''t'' then decode_params kvs (params\<lparr>prm_TimeCost := of_nat n\<rparr>)
               else if key = ''p'' then decode_params kvs (params\<lparr>prm_Parallelism := of_nat n\<rparr>)
               else Inl (PhcUnknown key)))"

definition decodePHC :: "string \<Rightarrow> phc_error + argon2idParams \<times> string \<times> string" where
  "decodePHC phc =
     (case split_at (CHR ''$'') phc of
        [p0, p1, p2, p3, p4, p5] \<Rightarrow>
          if p0 \<noteq> [] then Inl PhcMalformed
          else if p1 \<noteq> argon2idVariant then Inl (PhcVariant p1)
          else if take 2 p2 \<noteq> ''v='' then Inl PhcNoVersion
          else if Atoi (drop 2 p2) \<noteq> Some (int argon2idVersion) then Inl (PhcVersion p2)
          else
            (case decode_params (split_at (CHR '','') p3)
                    \<lparr>prm_MemoryKiB = 0, prm_TimeCost = 0, prm_Parallelism = 0\<rparr> of
               Inl err \<Rightarrow> Inl err
             | Inr params \<Rightarrow>
                 if prm_MemoryKiB params = 0 \<or> prm_TimeCost params = 0 \<or> prm_Parallelism params = 0
                 then Inl PhcMissing
                 else (case RawStdEncoding_DecodeString p4 of
                         None \<Rightarrow> Inl PhcSalt
                       | Some salt \<Rightarrow>
                           (case RawStdEncoding_DecodeString p5 of
                              None \<Rightarrow> Inl PhcHash
                            | Some key \<Rightarrow> Inr (params, salt, key))))
      | _ \<Rightarrow> Inl PhcMalformed)"

definition VerifyPasswordHash :: "argon \<Rightarrow> string \<Rightarrow> string \<Rightarrow> hash_error + bool" where
  "VerifyPasswordHash idkey phcHash candidatePassword =
     (case checkPasswordLength candidatePassword of
        Some err \<Rightarrow> Inl err
      | None \<Rightarrow>
          (case decodePHC phcHash of
             Inl err \<Rightarrow> Inr False
           | Inr (params, salt, want) \<Rightarrow>
               Inr (idkey candidatePassword salt (prm_TimeCost params) (prm_MemoryKiB params)
                      (prm_Parallelism params) (of_nat (length want)) = want)))"

subsection \<open>Round trip\<close>

lemma floor_text:
  "decimal argon2idVersion = ''19''" "decimal (unat (prm_MemoryKiB Argon2idFloor)) = ''19456''"
  "decimal (unat (prm_TimeCost Argon2idFloor)) = ''2''" "decimal (unat (prm_Parallelism Argon2idFloor)) = ''1''"
  by (simp_all add: argon2idVersion_def Argon2idFloor_def decimal.simps digit_def)

lemmas parse_defs = ParseUint_def is_digit_def digit_value_def number_def less_eq_char_def

lemma encodePHC_text:
  "encodePHC salt key = ''$argon2id$v=19$m=19456,t=2,p=1$'' @ RawStdEncoding_EncodeToString salt @ ''$'' @
     RawStdEncoding_EncodeToString key"
  unfolding encodePHC_def floor_text argon2idVariant_def by simp

lemma floor_params:
  "decode_params (split_at (CHR '','') ''m=19456,t=2,p=1'')
     \<lparr>prm_MemoryKiB = 0, prm_TimeCost = 0, prm_Parallelism = 0\<rparr> = Inr Argon2idFloor"
  by (simp add: parse_defs Argon2idFloor_def)

lemma decodePHC_encodePHC_aux: "decodePHC (encodePHC salt key) = Inr (Argon2idFloor, salt, key)"
proof -
  have "split_at (CHR ''$'') (encodePHC salt key) =
    [[], ''argon2id'', ''v=19'', ''m=19456,t=2,p=1'', RawStdEncoding_EncodeToString salt, RawStdEncoding_EncodeToString key]"
    unfolding encodePHC_text
    using split_at_cons [OF RawStd_no_dollar, of salt "RawStdEncoding_EncodeToString key"] RawStd_no_dollar
    by simp
  moreover have "Atoi ''19'' = Some (int argon2idVersion)"
    by (simp add: Atoi_def parse_defs argon2idVersion_def max_int64_def)
  moreover note floor_params
  ultimately show ?thesis
    by (simp add: decodePHC_def argon2idVariant_def RawStd_roundtrip Argon2idFloor_def
        del: decode_params.simps split_at.simps)
qed

text \<open>A PHC string reads back as what it was built from: \<open>decodePHC\<close> of \<open>encodePHC\<close> gives the floor
  parameters, the salt and the key, whatever bytes these are.\<close>

theorem decodePHC_encodePHC: "decodePHC (encodePHC salt key) = Inr (Argon2idFloor, salt, key)"
  by (rule decodePHC_encodePHC_aux)


subsection \<open>Hashing and verifying\<close>

text \<open>The documented behaviour of \<open>argon2.IDKey\<close>: the key has the requested length.\<close>

definition idkey_length :: "argon \<Rightarrow> bool" where
  "idkey_length idkey \<longleftrightarrow> (\<forall>pw salt t m p n. length (idkey pw salt t m p n) = unat n)"

lemma HashPassword_Inr:
  assumes "HashPassword idkey rand pw = Inr phc"
  obtains salt where "rand = Inr salt" "length pw \<le> MaxPasswordBytes"
    "phc = encodePHC salt (idkey pw salt (prm_TimeCost Argon2idFloor) (prm_MemoryKiB Argon2idFloor)
        (prm_Parallelism Argon2idFloor) argon2idKeyLen)"
  using assms by (auto simp: HashPassword_def checkPasswordLength_def split: sum.splits if_splits)

lemma VerifyPasswordHash_encoded:
  assumes "idkey_length idkey" and "length q \<le> MaxPasswordBytes"
  shows "VerifyPasswordHash idkey (encodePHC salt (idkey p salt t m par argon2idKeyLen)) q =
    Inr (idkey q salt (prm_TimeCost Argon2idFloor) (prm_MemoryKiB Argon2idFloor)
        (prm_Parallelism Argon2idFloor) argon2idKeyLen = idkey p salt t m par argon2idKeyLen)"
proof -
  have "of_nat (length (idkey p salt t m par argon2idKeyLen)) = argon2idKeyLen"
    using assms(1) by (simp add: idkey_length_def)
  then show ?thesis
    using assms(2) by (simp add: VerifyPasswordHash_def checkPasswordLength_def decodePHC_encodePHC_aux)
qed

text \<open>C30: A stored hash verifies its own password and tells passwords apart as Argon2id does.  The hash that
  \<open>HashPassword\<close> returns for \<open>p\<close> accepts \<open>p\<close>; it accepts another password exactly when Argon2id gives both
  the same key under the salt and the floor parameters; a password over 1024 bytes is an error.\<close>

theorem VerifyPasswordHash_HashPassword:
  assumes "idkey_length idkey" and "HashPassword idkey rand p = Inr phc"
  shows "VerifyPasswordHash idkey phc p = Inr True \<and>
    (\<exists>salt. rand = Inr salt \<and> (\<forall>q. VerifyPasswordHash idkey phc q =
       (if length q > 1024 then Inl ErrPasswordTooLong
        else Inr (idkey q salt 2 19456 1 32 = idkey p salt 2 19456 1 32))))"
proof -
  obtain salt where s: "rand = Inr salt" "length p \<le> MaxPasswordBytes"
    "phc = encodePHC salt (idkey p salt (prm_TimeCost Argon2idFloor) (prm_MemoryKiB Argon2idFloor)
        (prm_Parallelism Argon2idFloor) argon2idKeyLen)"
    using HashPassword_Inr [OF assms(2)] .
  have "VerifyPasswordHash idkey phc q =
       (if length q > 1024 then Inl ErrPasswordTooLong
        else Inr (idkey q salt 2 19456 1 32 = idkey p salt 2 19456 1 32))" for q
  proof (cases "length q \<le> MaxPasswordBytes")
    case True
    then show ?thesis unfolding s(3) VerifyPasswordHash_encoded [OF assms(1) True]
      by (simp add: MaxPasswordBytes_def Argon2idFloor_def argon2idKeyLen_def)
  next
    case False
    then show ?thesis
      by (simp add: VerifyPasswordHash_def checkPasswordLength_def MaxPasswordBytes_def)
  qed
  with s(1,2) show ?thesis by (auto simp: MaxPasswordBytes_def)
qed

definition demo_idkey :: argon where
  "demo_idkey pw salt t m p n = take (unat n) (pw @ salt @ replicate (unat n) (CHR ''.''))"

lemma demo_idkey_length: "idkey_length demo_idkey"
  by (auto simp: idkey_length_def demo_idkey_def min_def)

theorem VerifyPasswordHash_HashPassword_witness:
  "\<exists>phc. HashPassword demo_idkey (Inr ''salt'') ''secret'' = Inr phc \<and>
     VerifyPasswordHash demo_idkey phc ''secret'' = Inr True"
proof -
  obtain phc where "HashPassword demo_idkey (Inr ''salt'') ''secret'' = Inr phc"
    by (simp add: HashPassword_def checkPasswordLength_def MaxPasswordBytes_def)
  with VerifyPasswordHash_HashPassword [OF demo_idkey_length this] show ?thesis by blast
qed

text \<open>The parallelism of a PHC string is read modulo 256: \<open>p=257\<close> decodes as one thread instead of being
  refused, because the 32-bit number is cut to \<open>uint8\<close>.\<close>

theorem decodePHC_parallelism_wraps:
  "decodePHC ''$argon2id$v=19$m=19456,t=2,p=257$$'' = Inr (Argon2idFloor, [], [])"
proof -
  have "RawStdEncoding_DecodeString [] = Some []"
    by (simp add: RawStdEncoding_DecodeString_def no_breaks_def decode_sextets_def)
  moreover have "Atoi ''19'' = Some (int argon2idVersion)"
    by (simp add: Atoi_def parse_defs argon2idVersion_def max_int64_def)
  ultimately show ?thesis
    by (simp add: decodePHC_def argon2idVariant_def Argon2idFloor_def parse_defs)
qed

end
