(* ===== verification/Cbor.thy ===== *)
theory Cbor
  imports GoText GoBytes
begin

text \<open>
  The minimal CBOR reader and the COSE keys of \<open>packages/identity/webauthn.go\<close>.  The decoder keeps the
  buffer and an offset.  \<open>CPanic\<close> is the run-time panic of a slice whose bounds are out of order:
  \<open>int(ln)\<close> of a length from \<open>2 ^ 63\<close> on is negative, and \<open>d.offset + n\<close> may wrap.  It is also the end of a process
  that cannot allocate: \<open>make(map[int64]any, ln)\<close> asks for room for the announced number of entries before the first of
  them is read, and \<open>mk ln\<close> says whether the runtime can serve that.  \<open>fuel\<close> bounds the
  nesting and the number of entries read; \<open>cbor_fuel\<close> always suffices (\<open>decodeItem_fuel\<close>), because
  every item takes at least one byte.  A map keeps its entries newest first, so that looking a key up finds
  the last value stored.  Of a \<open>WebAuthnError\<close> its stable \<open>Reason\<close> is kept.
\<close>

datatype wa_error = WebAuthnError string

fun wa_Code :: "wa_error \<Rightarrow> string" where
  "wa_Code (WebAuthnError reason) = ''webauthn.'' @ reason"

definition wa_malformed :: wa_error where "wa_malformed = WebAuthnError ''malformed''"
definition wa_unsupported :: wa_error where "wa_unsupported = WebAuthnError ''unsupported_key''"

datatype cbor =
    CInt int
  | CBytes string
  | CMap "(int \<times> cbor) list"

datatype 'a cres =
    COk 'a nat
  | CErr wa_error
  | CPanic
  | CFuel

definition cbor_read :: "string \<Rightarrow> nat \<Rightarrow> int \<Rightarrow> string cres" where
  "cbor_read buf offset n =
     (let e = wrap64 (int offset + n)
      in if e > int (length buf) then CErr wa_malformed
         else if e < int offset then CPanic
         else COk (take (nat e - offset) (drop offset buf)) (nat e))"

definition readUint :: "string \<Rightarrow> nat \<Rightarrow> nat \<Rightarrow> nat cres" where
  "readUint buf offset info =
     (if info < 24 then COk info offset
      else if info < 28
      then (case cbor_read buf offset (2 ^ (info - 24)) of
              COk b off \<Rightarrow> COk (be_nat b) off | CErr e \<Rightarrow> CErr e | CPanic \<Rightarrow> CPanic | CFuel \<Rightarrow> CFuel)
      else CErr wa_malformed)"

fun decodeItem :: "(nat \<Rightarrow> bool) \<Rightarrow> nat \<Rightarrow> string \<Rightarrow> nat \<Rightarrow> cbor cres"
  and decode_entries :: "(nat \<Rightarrow> bool) \<Rightarrow> nat \<Rightarrow> string \<Rightarrow> nat \<Rightarrow> nat \<Rightarrow> (int \<times> cbor) list \<Rightarrow> cbor cres" where
  "decodeItem mk 0 buf offset = CFuel"
| "decodeItem mk (Suc fuel) buf offset =
     (case cbor_read buf offset 1 of
        CErr e \<Rightarrow> CErr e | CPanic \<Rightarrow> CPanic | CFuel \<Rightarrow> CFuel
      | COk first off \<Rightarrow>
          let b = of_char (hd first); major = b div 32; info = b mod 32
          in if major = 0
             then (case readUint buf off info of
                     COk u off' \<Rightarrow> COk (CInt (wrap64 (int u))) off'
                   | CErr e \<Rightarrow> CErr e | CPanic \<Rightarrow> CPanic | CFuel \<Rightarrow> CFuel)
             else if major = 1
             then (case readUint buf off info of
                     COk u off' \<Rightarrow> COk (CInt (wrap64 (- 1 - wrap64 (int u)))) off'
                   | CErr e \<Rightarrow> CErr e | CPanic \<Rightarrow> CPanic | CFuel \<Rightarrow> CFuel)
             else if major = 2
             then (case readUint buf off info of
                     COk ln off' \<Rightarrow>
                       (case cbor_read buf off' (wrap64 (int ln)) of
                          COk bs off'' \<Rightarrow> COk (CBytes bs) off''
                        | CErr e \<Rightarrow> CErr e | CPanic \<Rightarrow> CPanic | CFuel \<Rightarrow> CFuel)
                   | CErr e \<Rightarrow> CErr e | CPanic \<Rightarrow> CPanic | CFuel \<Rightarrow> CFuel)
             else if major = 5
             then (case readUint buf off info of
                     COk ln off' \<Rightarrow> if mk ln then decode_entries mk fuel buf off' ln [] else CPanic
                   | CErr e \<Rightarrow> CErr e | CPanic \<Rightarrow> CPanic | CFuel \<Rightarrow> CFuel)
             else CErr wa_malformed)"
| "decode_entries mk fuel buf offset 0 out = COk (CMap out) offset"
| "decode_entries mk 0 buf offset (Suc n) out = CFuel"
| "decode_entries mk (Suc fuel) buf offset (Suc n) out =
     (case decodeItem mk fuel buf offset of
        CErr e \<Rightarrow> CErr e | CPanic \<Rightarrow> CPanic | CFuel \<Rightarrow> CFuel
      | COk k off \<Rightarrow>
          (case k of
             CInt kInt \<Rightarrow>
               (case decodeItem mk fuel buf off of
                  COk v off' \<Rightarrow> decode_entries mk fuel buf off' n ((kInt, v) # out)
                | CErr e \<Rightarrow> CErr e | CPanic \<Rightarrow> CPanic | CFuel \<Rightarrow> CFuel)
           | _ \<Rightarrow> CErr wa_malformed))"

definition cbor_fuel :: "string \<Rightarrow> nat" where
  "cbor_fuel buf = 2 * length buf + 2"

definition decodeCBORMap :: "(nat \<Rightarrow> bool) \<Rightarrow> string \<Rightarrow> (int \<rightharpoonup> cbor) cres" where
  "decodeCBORMap mk buf =
     (case decodeItem mk (cbor_fuel buf) buf 0 of
        CErr e \<Rightarrow> CErr e | CPanic \<Rightarrow> CPanic | CFuel \<Rightarrow> CFuel
      | COk v off \<Rightarrow>
          if off \<noteq> length buf then CErr wa_malformed
          else (case v of CMap m \<Rightarrow> COk (map_of m) off | _ \<Rightarrow> CErr wa_malformed))"

subsection \<open>COSE keys\<close>

definition RSAMinKeySizeBits :: nat where "RSAMinKeySizeBits = 2048"

datatype cose_key =
    ES256Key string string
  | RS256Key nat int
  | EdDSAKey string

definition int_field :: "(int \<rightharpoonup> cbor) \<Rightarrow> int \<Rightarrow> int" where
  "int_field fields k = (case fields k of Some (CInt i) \<Rightarrow> i | _ \<Rightarrow> 0)"

definition bytes_field :: "(int \<rightharpoonup> cbor) \<Rightarrow> int \<Rightarrow> string option" where
  "bytes_field fields k = (case fields k of Some (CBytes b) \<Rightarrow> Some b | _ \<Rightarrow> None)"

definition parseCOSEES256 :: "(int \<rightharpoonup> cbor) \<Rightarrow> wa_error + cose_key" where
  "parseCOSEES256 fields =
     (if int_field fields 1 \<noteq> 2 then Inl wa_unsupported
      else if int_field fields (- 1) \<noteq> 1 then Inl wa_unsupported
      else case bytes_field fields (- 2) of
        None \<Rightarrow> Inl wa_malformed
      | Some xB \<Rightarrow>
          if length xB \<noteq> 32 then Inl wa_malformed
          else case bytes_field fields (- 3) of
            None \<Rightarrow> Inl wa_malformed
          | Some yB \<Rightarrow> if length yB \<noteq> 32 then Inl wa_malformed else Inr (ES256Key xB yB))"

definition parseCOSERS256 :: "(int \<rightharpoonup> cbor) \<Rightarrow> wa_error + cose_key" where
  "parseCOSERS256 fields =
     (if int_field fields 1 \<noteq> 3 then Inl wa_unsupported
      else case bytes_field fields (- 1) of
        None \<Rightarrow> Inl wa_malformed
      | Some nB \<Rightarrow>
          (case bytes_field fields (- 2) of
             None \<Rightarrow> Inl wa_malformed
           | Some eB \<Rightarrow>
               if be_nat nB < 2 ^ (RSAMinKeySizeBits - 1) then Inl wa_unsupported
               else if int (be_nat eB) > max_int64 then Inl wa_malformed
               else Inr (RS256Key (be_nat nB) (int (be_nat eB)))))"

definition parseCOSEEdDSA :: "(int \<rightharpoonup> cbor) \<Rightarrow> wa_error + cose_key" where
  "parseCOSEEdDSA fields =
     (if int_field fields 1 \<noteq> 1 then Inl wa_unsupported
      else if int_field fields (- 1) \<noteq> 6 then Inl wa_unsupported
      else case bytes_field fields (- 2) of
        None \<Rightarrow> Inl wa_malformed
      | Some xB \<Rightarrow> if length xB \<noteq> 32 then Inl wa_malformed else Inr (EdDSAKey xB))"

text \<open>\<open>None\<close> is the panic of the CBOR reader.\<close>

definition parseCOSEKey :: "(nat \<Rightarrow> bool) \<Rightarrow> string \<Rightarrow> (wa_error + int \<times> cose_key) option" where
  "parseCOSEKey mk coseKey =
     (case decodeCBORMap mk coseKey of
        CErr e \<Rightarrow> Some (Inl e) | CPanic \<Rightarrow> None | CFuel \<Rightarrow> None
      | COk fields off \<Rightarrow>
          (case fields 3 of
             Some (CInt alg) \<Rightarrow>
               Some (if alg = - 7 then map_sum id (Pair alg) (parseCOSEES256 fields)
                     else if alg = - 257 then map_sum id (Pair alg) (parseCOSERS256 fields)
                     else if alg = - 8 then map_sum id (Pair alg) (parseCOSEEdDSA fields)
                     else Inl wa_unsupported)
           | _ \<Rightarrow> Some (Inl wa_malformed)))"

definition CoseKeyES256 :: "string \<Rightarrow> string \<Rightarrow> string option" where
  "CoseKeyES256 x y =
     (if length x \<noteq> 32 \<or> length y \<noteq> 32 then None
      else Some ([CHR 0xA5, CHR 0x01, CHR 0x02, CHR 0x03, CHR 0x26, CHR 0x20, CHR 0x01, CHR 0x21, CHR 0x58,
        CHR 0x20] @ x @ [CHR 0x22, CHR 0x58, CHR 0x20] @ y))"

subsection \<open>Reading ends\<close>

lemma wrap64_le: "wrap64 x \<le> max_int64"
proof -
  have "(x + 9223372036854775808) mod 18446744073709551616 < 18446744073709551616" by simp
  then show ?thesis unfolding wrap64_def max_int64_def by linarith
qed

lemma cbor_read_COk:
  assumes "cbor_read buf offset n = COk b off"
  shows "offset \<le> off" "off \<le> length buf" "b = take (off - offset) (drop offset buf)" "n = 1 \<Longrightarrow> off = Suc offset"
proof -
  let ?e = "wrap64 (int offset + n)"
  have e: "?e \<le> int (length buf)" "int offset \<le> ?e" "off = nat ?e" "b = take (nat ?e - offset) (drop offset buf)"
    using assms by (auto simp: cbor_read_def Let_def split: if_splits)
  then show "offset \<le> off" "off \<le> length buf" "b = take (off - offset) (drop offset buf)" by auto
  assume n: "n = 1"
  have m: "int offset \<le> max_int64" using e(2) wrap64_le [of "int offset + n"] by linarith
  show "off = Suc offset"
  proof (cases "int offset = max_int64")
    case True
    have "wrap64 (max_int64 + 1) = - max_int64 - 1" by (simp add: wrap64_def max_int64_def)
    then show ?thesis using e(2) True n by (simp add: max_int64_def)
  next
    case False
    then have "?e = int offset + 1" using m n by (intro trans [OF wrap64_id]) (auto simp: max_int64_def)
    then show ?thesis using e(3) by simp
  qed
qed

lemma cbor_read_no_fuel [simp]: "cbor_read buf offset n \<noteq> CFuel"
  by (simp add: cbor_read_def Let_def)

lemma readUint_COk: "readUint buf offset info = COk u off \<Longrightarrow> offset \<le> length buf \<Longrightarrow> offset \<le> off \<and> off \<le> length buf"
  using cbor_read_COk by (auto simp: readUint_def split: if_splits cres.splits)

lemma readUint_no_fuel [simp]: "readUint buf offset info \<noteq> CFuel"
  by (auto simp: readUint_def split: cres.split)

lemma decode_progress:
  "decodeItem mk fuel buf offset = COk v off \<Longrightarrow> offset < off \<and> off \<le> length buf"
  "offset \<le> length buf \<Longrightarrow> decode_entries mk fuel buf offset n out = COk v off \<Longrightarrow> offset \<le> off \<and> off \<le> length buf"
proof (induction mk fuel buf offset and mk fuel buf offset n out arbitrary: v off and v off
    rule: decodeItem_decode_entries.induct)
  case (2 mk fuel buf offset)
  obtain first o1 where r: "cbor_read buf offset 1 = COk first o1"
    using "2.prems" by (auto split: cres.splits)
  note o1 = cbor_read_COk [OF r]
  let ?b = "of_char (hd first) :: nat"
  have f: "offset < off \<and> off \<le> length buf" if "o1 \<le> off \<and> off \<le> length buf" using that o1(4) by simp
  have "?b div 32 \<in> {0, 1, 2, 5}" using "2.prems" r by (simp add: Let_def split: if_splits)
  then consider "?b div 32 = 0 \<or> ?b div 32 = 1" | "?b div 32 = 2" | "?b div 32 = 5" by blast
  then show ?case
  proof cases
    case 1
    then have "\<exists>u. readUint buf o1 (?b mod 32) = COk u off"
      using "2.prems" r by (auto split: cres.splits)
    then show ?thesis using readUint_COk o1(2) f by blast
  next
    case 2
    then obtain ln o2 bs where "readUint buf o1 (?b mod 32) = COk ln o2" "cbor_read buf o2 (wrap64 (int ln)) = COk bs off"
      using "2.prems" r by (auto split: cres.splits)
    then show ?thesis using readUint_COk [of buf o1 "?b mod 32" ln o2] cbor_read_COk(1,2) o1(2) f
      by (meson le_trans)
  next
    case 3
    then obtain ln o2 where ln: "readUint buf o1 (?b mod 32) = COk ln o2" "decode_entries mk fuel buf o2 ln [] = COk v off" "mk ln"
      using "2.prems" r by (auto split: cres.splits if_splits)
    have "o2 \<le> length buf" using readUint_COk [OF ln(1)] o1(2) by blast
    from "2.IH" [OF r refl refl refl _ _ _ 3 ln(1,3) this ln(2)] 3 readUint_COk [OF ln(1)] o1(2) f
    show ?thesis by auto
  qed
next
  case (5 mk fuel buf offset n out)
  obtain kv o1 where d: "decodeItem mk fuel buf offset = COk kv o1"
    using "5.prems" by (cases "decodeItem mk fuel buf offset") auto
  obtain i where i: "kv = CInt i" using "5.prems" d by (cases kv) auto
  obtain w o2 where w: "decodeItem mk fuel buf o1 = COk w o2"
    using "5.prems" d i by (cases "decodeItem mk fuel buf o1") auto
  have e: "decode_entries mk fuel buf o2 n ((i, w) # out) = COk v off" using "5.prems" d i w by simp
  have a: "offset < o1 \<and> o1 \<le> length buf" using "5.IH"(1) [OF d] .
  have b: "o1 < o2 \<and> o2 \<le> length buf" using "5.IH"(2) [OF d i w] .
  then have "o2 \<le> off \<and> off \<le> length buf" using "5.IH"(3) [OF d i w _ e] by blast
  then show ?case using a b by linarith
qed auto

lemma decode_fuel:
  "offset \<le> length buf \<Longrightarrow> 2 * (length buf - offset) + 1 \<le> fuel \<Longrightarrow> decodeItem mk fuel buf offset \<noteq> CFuel"
  "offset \<le> length buf \<Longrightarrow> 2 * (length buf - offset) + 2 \<le> fuel \<Longrightarrow> decode_entries mk fuel buf offset n out \<noteq> CFuel"
proof (induction mk fuel buf offset and mk fuel buf offset n out rule: decodeItem_decode_entries.induct)
  case (2 mk fuel buf offset)
  show ?case
  proof (cases "cbor_read buf offset 1")
    case (COk first o1)
    note o1 = cbor_read_COk [OF COk]
    let ?b = "of_char (hd first) :: nat"
    show ?thesis
    proof (cases "?b div 32 = 5")
      case True
      show ?thesis
      proof (cases "readUint buf o1 (?b mod 32)")
        case ln: (COk ln o2)
        have o2: "o1 \<le> o2 \<and> o2 \<le> length buf" using readUint_COk [OF ln o1(2)] .
        have "2 * (length buf - o2) + 2 \<le> fuel" using "2.prems"(1,2) o1(4) o2 by linarith
        from "2.IH" [OF COk refl refl refl _ _ _ True ln _ _ this] True o2
        show ?thesis using COk ln True by simp
      qed (use COk True readUint_no_fuel in auto)
    next
      case False
      have "readUint buf o1 (?b mod 32) \<noteq> CFuel" by simp
      then show ?thesis using COk False
        by (cases "readUint buf o1 (?b mod 32)") (auto simp: Let_def split: cres.splits)
    qed
  qed (use cbor_read_no_fuel [of buf offset 1] in auto)
next
  case (5 mk fuel buf offset n out)
  have f: "2 * (length buf - offset) + 1 \<le> fuel" using "5.prems"(2) by simp
  show ?case
  proof (cases "decodeItem mk fuel buf offset")
    case (COk kv o1)
    have o1: "offset < o1" "o1 \<le> length buf" using decode_progress(1) [OF COk] by auto
    show ?thesis
    proof (cases kv)
      case (CInt i)
      have f1: "2 * (length buf - o1) + 1 \<le> fuel" using f o1 by simp
      show ?thesis
      proof (cases "decodeItem mk fuel buf o1")
        case w: (COk w o2)
        have o2: "o1 < o2" "o2 \<le> length buf" using decode_progress(1) [OF w] by auto
        have "2 * (length buf - o2) + 2 \<le> fuel" using f o1 o2 by simp
        from "5.IH"(3) [OF COk CInt w o2(2) this] show ?thesis using COk CInt w by simp
      next
        case CFuel
        then show ?thesis using "5.IH"(2) [OF COk CInt o1(2) f1] by simp
      qed (use COk CInt in auto)
    qed (use COk in auto)
  next
    case CFuel
    then show ?thesis using "5.IH"(1) [OF "5.prems"(1) f] by simp
  qed auto
qed auto

text \<open>The fuel \<open>decodeCBORMap\<close> starts from, twice the number of bytes and two, never runs out: the items and entries
  that are read, however many were announced, are bounded by the bytes that are there.\<close>

theorem decodeCBORMap_returns: "decodeCBORMap mk buf \<noteq> CFuel \<and> decodeItem mk (cbor_fuel buf) buf 0 \<noteq> CFuel"
proof -
  have "decodeItem mk (cbor_fuel buf) buf 0 \<noteq> CFuel" by (rule decode_fuel(1)) (simp_all add: cbor_fuel_def)
  then show ?thesis by (auto simp: decodeCBORMap_def split: cres.split cbor.split)
qed

lemma of_char_5B: "of_char (CHR 0x5B) = (91 :: nat)"
  by simp

text \<open>A nine-byte key crashes the verifier: a byte string that announces \<open>2 ^ 63\<close> bytes or more makes the
  length negative, and the slice expression of \<open>read\<close> panics instead of reporting a malformed key.\<close>

theorem decodeCBORMap_panics:
  "decodeCBORMap mk [CHR 0x5B, CHR 0xFF, CHR 0xFF, CHR 0xFF, CHR 0xFF, CHR 0xFF, CHR 0xFF, CHR 0xFF, CHR 0xFF] = CPanic"
proof -
  let ?ff = "[CHR 0xFF, CHR 0xFF, CHR 0xFF, CHR 0xFF, CHR 0xFF, CHR 0xFF, CHR 0xFF, CHR 0xFF]"
  let ?buf = "CHR 0x5B # ?ff"
  have "be_nat ?ff = 18446744073709551615" by (simp add: be_nat_def)
  moreover have "cbor_read ?buf 1 8 = COk ?ff 9" by (simp add: cbor_read_def wrap64_def)
  ultimately have "readUint ?buf 1 27 = COk 18446744073709551615 9" by (simp add: readUint_def)
  moreover have "wrap64 (int 18446744073709551615) = - 1" by (simp add: wrap64_def)
  moreover have "cbor_read ?buf 9 (- 1) = CPanic" by (simp add: cbor_read_def wrap64_def)
  moreover have "cbor_read ?buf 0 1 = COk [CHR 0x5B] 1" by (simp add: cbor_read_def wrap64_def)
  ultimately have "decodeItem mk (Suc 19) ?buf 0 = CPanic"
    by (simp only: decodeItem.simps Let_def list.sel cres.case of_char_5B) simp
  moreover have "cbor_fuel ?buf = Suc 19" by (simp add: cbor_fuel_def)
  ultimately show ?thesis by (simp only: decodeCBORMap_def cres.case)
qed

subsection \<open>Reading what was written\<close>

lemma cbor_read_at:
  assumes "int (length (u @ v @ w)) \<le> max_int64"
  shows "cbor_read (u @ v @ w) (length u) (int (length v)) = COk v (length u + length v)"
proof -
  have "wrap64 (int (length u) + int (length v)) = int (length u + length v)"
    using assms by (intro trans [OF wrap64_id]) (auto simp: max_int64_def)
  then show ?thesis by (simp add: cbor_read_def)
qed

lemma head_byte: "k < 32 \<Longrightarrow> (32 * m + k) div 32 = m" "k < 32 \<Longrightarrow> (32 * m + k) mod 32 = k" for k m :: nat
  by simp_all

text \<open>The encoding of RFC 8949 for the items of a COSE key: a major type with its number in the shortest form.  A map
  lists its entries newest first, so the last of the list is written first.\<close>

definition cbor_head :: "nat \<Rightarrow> nat \<Rightarrow> string" where
  "cbor_head m n =
     (if n < 24 then [char_of (32 * m + n)]
      else if n < 256 then char_of (32 * m + 24) # be_bytes 1 n
      else if n < 256 ^ 2 then char_of (32 * m + 25) # be_bytes 2 n
      else if n < 256 ^ 4 then char_of (32 * m + 26) # be_bytes 4 n
      else char_of (32 * m + 27) # be_bytes 8 n)"

definition cbor_int :: "int \<Rightarrow> string" where
  "cbor_int i = (if 0 \<le> i then cbor_head 0 (nat i) else cbor_head 1 (nat (- 1 - i)))"

fun cbor_encode :: "cbor \<Rightarrow> string" and cbor_entries :: "(int \<times> cbor) list \<Rightarrow> string" where
  "cbor_encode (CInt i) = cbor_int i"
| "cbor_encode (CBytes b) = cbor_head 2 (length b) @ b"
| "cbor_encode (CMap m) = cbor_head 5 (length m) @ cbor_entries m"
| "cbor_entries [] = []"
| "cbor_entries ((k, v) # m) = cbor_entries m @ cbor_int k @ cbor_encode v"

definition int64_ok :: "int \<Rightarrow> bool" where
  "int64_ok i \<longleftrightarrow> - max_int64 - 1 \<le> i \<and> i \<le> max_int64"

fun cbor_ok :: "(nat \<Rightarrow> bool) \<Rightarrow> cbor \<Rightarrow> bool" and entries_ok :: "(nat \<Rightarrow> bool) \<Rightarrow> (int \<times> cbor) list \<Rightarrow> bool" where
  "cbor_ok mk (CInt i) = int64_ok i"
| "cbor_ok mk (CBytes b) = True"
| "cbor_ok mk (CMap m) = (mk (length m) \<and> entries_ok mk m)"
| "entries_ok mk [] = True"
| "entries_ok mk ((k, v) # m) = (int64_ok k \<and> cbor_ok mk v \<and> entries_ok mk m)"

lemma cbor_head_length: "0 < length (cbor_head m n)"
  by (simp add: cbor_head_def)

lemma cbor_int_length: "0 < length (cbor_int i)"
  by (simp add: cbor_int_def cbor_head_length del: length_greater_0_conv)

lemma cbor_entries_length: "length m \<le> length (cbor_entries m)"
proof (induction m)
  case (Cons e m)
  then show ?case using cbor_int_length [of "fst e"] by (cases e) (simp del: length_greater_0_conv)
qed simp

text \<open>Reading the head of an item.\<close>

lemma head_parts:
  assumes "m < 8" and "n < 256 ^ 8"
  obtains k b where "cbor_head m n = char_of (32 * m + k) # b" "k < 28"
    "k < 24 \<Longrightarrow> b = [] \<and> n = k" "24 \<le> k \<Longrightarrow> length b = 2 ^ (k - 24) \<and> be_nat b = n"
proof -
  have e: "n < 256 ^ j \<Longrightarrow> be_nat (be_bytes j n) = n" for j by (simp add: be_nat_bytes)
  consider "n < 24" | "24 \<le> n" "n < 256 ^ 1" | "256 \<le> n" "n < 256 ^ 2" | "256 ^ 2 \<le> n" "n < 256 ^ 4" | "256 ^ 4 \<le> n"
    by (cases "n < 24"; cases "n < 256"; cases "n < 256 ^ 2"; cases "n < 256 ^ 4") (auto simp: not_less)
  then show thesis
  proof cases
    case 1
    then show thesis by (intro that [of n "[]"]) (simp_all add: cbor_head_def)
  next
    case 2
    then show thesis by (intro that [of 24 "be_bytes 1 n"]) (simp_all add: cbor_head_def e del: be_bytes.simps)
  next
    case 3
    then show thesis by (intro that [of 25 "be_bytes 2 n"]) (simp_all add: cbor_head_def e del: be_bytes.simps)
  next
    case 4
    then show thesis by (intro that [of 26 "be_bytes 4 n"]) (simp_all add: cbor_head_def e del: be_bytes.simps)
  next
    case 5
    then show thesis using assms(2) by (intro that [of 27 "be_bytes 8 n"]) (simp_all add: cbor_head_def e del: be_bytes.simps)
  qed
qed

lemma head_read:
  assumes "int (length (u @ cbor_head m n @ w)) \<le> max_int64" and "m < 8" and "n < 256 ^ 8"
  obtains c where "cbor_read (u @ cbor_head m n @ w) (length u) 1 = COk [c] (length u + 1)" "of_char c div 32 = m"
    "readUint (u @ cbor_head m n @ w) (length u + 1) (of_char c mod 32) = COk n (length u + length (cbor_head m n))"
proof -
  obtain k b where h: "cbor_head m n = char_of (32 * m + k) # b" "k < 28"
    "k < 24 \<Longrightarrow> b = [] \<and> n = k" "24 \<le> k \<Longrightarrow> length b = 2 ^ (k - 24) \<and> be_nat b = n"
    using head_parts [OF assms(2,3)] by blast
  let ?c = "char_of (32 * m + k) :: char"
  have c: "of_char ?c = 32 * m + k" using assms(2) h(2) by (simp add: of_char_of)
  have "cbor_read (u @ cbor_head m n @ w) (length u) 1 = COk [?c] (length u + 1)"
    using cbor_read_at [of u "[?c]" "b @ w"] assms(1) by (simp add: h(1))
  moreover have "readUint (u @ cbor_head m n @ w) (length u + 1) k = COk n (length u + length (cbor_head m n))"
  proof (cases "k < 24")
    case True
    then have "length (cbor_head m n) = 1" "n = k" using h(1,3) by simp_all
    then show ?thesis using True by (simp add: readUint_def)
  next
    case False
    then have "cbor_read (u @ cbor_head m n @ w) (length u + 1) (2 ^ (k - 24)) = COk b (length u + 1 + length b)"
      using cbor_read_at [of "u @ [?c]" b w] assms(1) h(4) by (simp add: h(1))
    moreover have "length (cbor_head m n) = 1 + length b" using h(1) by simp
    ultimately show ?thesis using False h(2,4) by (simp add: readUint_def)
  qed
  moreover have "of_char ?c div 32 = m" "of_char ?c mod 32 = k" unfolding c using h(2) by simp_all
  ultimately show thesis using that by metis
qed

text \<open>Reading what was encoded.\<close>

lemma wrap64_of_int64: "int64_ok i \<Longrightarrow> wrap64 i = i"
  by (intro wrap64_id) (simp_all add: int64_ok_def)

lemma item_head:
  assumes "int (length (u @ cbor_head m n @ w)) \<le> max_int64" and "n < 256 ^ 8"
  shows "m = 0 \<Longrightarrow> decodeItem mk (Suc f) (u @ cbor_head m n @ w) (length u)
      = COk (CInt (wrap64 (int n))) (length u + length (cbor_head m n))"
    and "m = 1 \<Longrightarrow> decodeItem mk (Suc f) (u @ cbor_head m n @ w) (length u)
      = COk (CInt (wrap64 (- 1 - wrap64 (int n)))) (length u + length (cbor_head m n))"
    and "m = 2 \<Longrightarrow> decodeItem mk (Suc f) (u @ cbor_head m n @ w) (length u)
      = (case cbor_read (u @ cbor_head m n @ w) (length u + length (cbor_head m n)) (wrap64 (int n)) of
           COk bs off \<Rightarrow> COk (CBytes bs) off | CErr e \<Rightarrow> CErr e | CPanic \<Rightarrow> CPanic | CFuel \<Rightarrow> CFuel)"
    and "m = 5 \<Longrightarrow> mk n \<Longrightarrow> decodeItem mk (Suc f) (u @ cbor_head m n @ w) (length u)
      = decode_entries mk f (u @ cbor_head m n @ w) (length u + length (cbor_head m n)) n []"
proof -
  have step: "m < 8 \<Longrightarrow> \<exists>c. cbor_read (u @ cbor_head m n @ w) (length u) 1 = COk [c] (length u + 1) \<and> of_char c div 32 = m \<and>
      readUint (u @ cbor_head m n @ w) (length u + 1) (of_char c mod 32) = COk n (length u + length (cbor_head m n))"
    using head_read [OF assms(1) _ assms(2)] by metis
  note s = decodeItem.simps(2) cres.case Let_def list.sel
  show "m = 0 \<Longrightarrow> decodeItem mk (Suc f) (u @ cbor_head m n @ w) (length u)
      = COk (CInt (wrap64 (int n))) (length u + length (cbor_head m n))"
    using step by (auto simp: s)
  show "m = 1 \<Longrightarrow> decodeItem mk (Suc f) (u @ cbor_head m n @ w) (length u)
      = COk (CInt (wrap64 (- 1 - wrap64 (int n)))) (length u + length (cbor_head m n))"
    using step by (auto simp: s)
  show "m = 2 \<Longrightarrow> decodeItem mk (Suc f) (u @ cbor_head m n @ w) (length u)
      = (case cbor_read (u @ cbor_head m n @ w) (length u + length (cbor_head m n)) (wrap64 (int n)) of
           COk bs off \<Rightarrow> COk (CBytes bs) off | CErr e \<Rightarrow> CErr e | CPanic \<Rightarrow> CPanic | CFuel \<Rightarrow> CFuel)"
    using step by (auto simp: s)
  show "m = 5 \<Longrightarrow> mk n \<Longrightarrow> decodeItem mk (Suc f) (u @ cbor_head m n @ w) (length u)
      = decode_entries mk f (u @ cbor_head m n @ w) (length u + length (cbor_head m n)) n []"
    using step by (auto simp: s)
qed

lemma small_nat: "int n \<le> max_int64 \<Longrightarrow> n < 256 ^ 8"
  by (simp add: max_int64_def)

lemma item_int:
  assumes "int (length (u @ cbor_int i @ w)) \<le> max_int64" and "int64_ok i" and "0 < f"
  shows "decodeItem mk f (u @ cbor_int i @ w) (length u) = COk (CInt i) (length u + length (cbor_int i))"
proof -
  obtain g where g: "f = Suc g" using assms(3) by (cases f) auto
  show ?thesis
  proof (cases "0 \<le> i")
    case True
    then have "nat i < 256 ^ 8" using assms(2) by (intro small_nat) (simp add: int64_ok_def)
    then show ?thesis
      using item_head(1) [of u 0 "nat i" w mk g] assms(1,2) True by (simp add: cbor_int_def g wrap64_of_int64)
  next
    case False
    then have "nat (- 1 - i) < 256 ^ 8" using assms(2) by (intro small_nat) (simp add: int64_ok_def)
    moreover have "int64_ok (- 1 - i)" using False assms(2) by (simp add: int64_ok_def)
    ultimately show ?thesis
      using item_head(2) [of u 1 "nat (- 1 - i)" w mk g] assms(1,2) False by (simp add: cbor_int_def g wrap64_of_int64)
  qed
qed

lemma decode_encoded:
  "cbor_ok mk v \<Longrightarrow> int (length (u @ cbor_encode v @ w)) \<le> max_int64 \<Longrightarrow> 2 * length (cbor_encode v) \<le> f \<Longrightarrow>
     decodeItem mk f (u @ cbor_encode v @ w) (length u) = COk v (length u + length (cbor_encode v))"
  "entries_ok mk m \<Longrightarrow> int (length (u @ cbor_entries m @ w)) \<le> max_int64 \<Longrightarrow> 2 * length (cbor_entries m) + 1 \<le> f \<Longrightarrow>
     decode_entries mk f (u @ cbor_entries m @ w) (length u) (length m + n) out
     = decode_entries mk (f - length m) (u @ cbor_entries m @ w) (length u + length (cbor_entries m)) n (m @ out)"
proof (induction v and m arbitrary: u w f and u w f n out rule: cbor_encode_cbor_entries.induct)
  case (1 i)
  then show ?case using item_int [of u i w f mk] cbor_int_length [of i] by simp
next
  case (2 b)
  obtain g where g: "f = Suc g" using 2(3) cbor_head_length [of 2 "length b"] by (cases f) (auto simp del: length_greater_0_conv)
  have l: "int (length b) \<le> max_int64" using 2(2) by simp
  then have "wrap64 (int (length b)) = int (length b)" by (intro wrap64_id) (auto simp: max_int64_def)
  then show ?case
    using item_head(3) [of u 2 "length b" "b @ w" mk g] 2(2) small_nat [OF l]
      cbor_read_at [of "u @ cbor_head 2 (length b)" b w] by (simp add: g)
next
  case (3 m)
  obtain g where g: "f = Suc g" using 3(4) cbor_head_length [of 5 "length m"] by (cases f) (auto simp del: length_greater_0_conv)
  have "2 * length (cbor_entries m) + 1 \<le> g"
    using 3(4) cbor_head_length [of 5 "length m"] g by (simp del: length_greater_0_conv)
  moreover have "int (length m) \<le> max_int64" using 3(3) cbor_entries_length [of m] by simp
  ultimately show ?case
    using item_head(4) [of u 5 "length m" "cbor_entries m @ w" mk g] 3(2,3) small_nat
      3(1) [of "u @ cbor_head 5 (length m)" w g 0 "[]"] by (simp add: g add.assoc)
next
  case (5 k v m)
  have len: "int (length (u @ cbor_entries m @ cbor_int k @ cbor_encode v @ w)) \<le> max_int64" using 5(4) by simp
  have key: "0 < length (cbor_int k)" by (rule cbor_int_length)
  have es: "length m \<le> length (cbor_entries m)" by (rule cbor_entries_length)
  have fuel: "2 * length (cbor_entries m) + 2 * length (cbor_int k) + 2 * length (cbor_encode v) + 1 \<le> f" using 5(5) by simp
  have first: "decode_entries mk f (u @ cbor_entries ((k, v) # m) @ w) (length u) (length m + Suc n) out
     = decode_entries mk (f - length m) (u @ cbor_entries ((k, v) # m) @ w) (length u + length (cbor_entries m)) (Suc n) (m @ out)"
    using 5(1) [of u "cbor_int k @ cbor_encode v @ w" f "Suc n" out] 5(3) len fuel by simp
  obtain g where g: "f - length m = Suc g" using fuel es by (cases "f - length m") auto
  then have "0 < g" "2 * length (cbor_encode v) \<le> g" using fuel es key by linarith+
  moreover have "int64_ok k" "cbor_ok mk v" using 5(3) by simp_all
  ultimately have "decodeItem mk g (u @ cbor_entries ((k, v) # m) @ w) (length u + length (cbor_entries m))
      = COk (CInt k) (length u + length (cbor_entries m) + length (cbor_int k))"
    "decodeItem mk g (u @ cbor_entries ((k, v) # m) @ w) (length u + length (cbor_entries m) + length (cbor_int k))
      = COk v (length u + length (cbor_entries m) + length (cbor_int k) + length (cbor_encode v))"
    using item_int [of "u @ cbor_entries m" k "cbor_encode v @ w" g mk] len
      5(2) [of "u @ cbor_entries m @ cbor_int k" w g] by (simp_all add: add.assoc)
  moreover have "f - Suc (length m) = g" using g by simp
  ultimately show ?case using first g by (simp add: add.assoc)
qed simp

lemma decode_map:
  assumes "cbor_ok mk (CMap m)" and "buf = cbor_encode (CMap m) @ w" and "int (length buf) \<le> max_int64"
  shows "decodeItem mk (cbor_fuel buf) buf 0 = COk (CMap m) (length (cbor_encode (CMap m)))"
proof -
  have f: "2 * length (cbor_encode (CMap m)) \<le> cbor_fuel buf" by (simp only: cbor_fuel_def assms(2) length_append) simp
  show ?thesis
    using decode_encoded(1) [of mk "CMap m" "[]" w, OF assms(1) _ f] assms(2,3)
    by (simp only: append_Nil list.size add_0)
qed


lemma be_bytes_numeral: "be_bytes (numeral k) n = be_bytes (pred_numeral k) (n div 256) @ [char_of (n mod 256)]"
  unfolding numeral_eq_Suc [of k] by (rule be_bytes.simps(2))

lemmas cbor_write = cbor_int_def cbor_head_def be_bytes_numeral


text \<open>Five bytes may cost the process its life: a map that announces \<open>2 ^ 32 - 1\<close> entries is allocated for that many
  before the decoder looks for the first of them.\<close>

theorem decodeCBORMap_allocates:
  assumes "\<not> mk 4294967295"
  shows "decodeCBORMap mk [CHR 0xBA, CHR 0xFF, CHR 0xFF, CHR 0xFF, CHR 0xFF] = CPanic"
proof -
  let ?buf = "[CHR 0xBA, CHR 0xFF, CHR 0xFF, CHR 0xFF, CHR 0xFF]"
  have b: "cbor_head 5 4294967295 = ?buf" by (simp add: cbor_write) code_simp
  obtain c where c: "cbor_read ?buf 0 1 = COk [c] 1" "of_char c div 32 = (5::nat)"
    "readUint ?buf 1 (of_char c mod 32) = COk 4294967295 5"
    by (rule head_read [of "[]" 5 4294967295 "[]", unfolded b]) (simp_all add: max_int64_def)
  have f: "cbor_fuel ?buf = Suc 11" by (simp add: cbor_fuel_def)
  have "decodeItem mk (Suc 11) ?buf 0 = CPanic"
    by (simp only: decodeItem.simps(2) c(1) cres.case Let_def list.sel c(2,3)) (simp add: assms)
  then show ?thesis by (simp only: decodeCBORMap_def f cres.case)
qed

subsection \<open>COSE keys read back\<close>

definition es256_fields :: "string \<Rightarrow> string \<Rightarrow> (int \<times> cbor) list" where
  "es256_fields x y =
     [(- 3, CBytes y), (- 2, CBytes x), (- 1, CInt 1), (3, CInt (- 7)), (1, CInt 2)]"

lemma es256_encoded:
  assumes "CoseKeyES256 x y = Some b"
  shows "b = cbor_encode (CMap (es256_fields x y))" and "length b = 77"
proof -
  have l: "length x = 32" "length y = 32" using assms by (simp_all add: CoseKeyES256_def split: if_splits)
  have h: "cbor_head 5 5 = [CHR 0xA5]" "cbor_int 1 = [CHR 0x01]" "cbor_int 2 = [CHR 0x02]" "cbor_int 3 = [CHR 0x03]"
    "cbor_int (- 7) = [CHR 0x26]" "cbor_int (- 1) = [CHR 0x20]" "cbor_int (- 2) = [CHR 0x21]" "cbor_int (- 3) = [CHR 0x22]"
    "cbor_head 2 32 = [CHR 0x58, CHR 0x20]" by code_simp+
  have n: "length (es256_fields x y) = 5" by (simp add: es256_fields_def)
  show "b = cbor_encode (CMap (es256_fields x y))"
    using assms l by (simp add: CoseKeyES256_def n h) (simp add: es256_fields_def h l)
  show "length b = 77" using assms l by (simp add: CoseKeyES256_def split: if_splits) auto
qed

lemma key_roundtrip:
  "mk 5 \<Longrightarrow> case CoseKeyES256 x y of
     None \<Rightarrow> length x \<noteq> 32 \<or> length y \<noteq> 32
   | Some b \<Rightarrow> parseCOSEKey mk b = Some (Inr (- 7, ES256Key x y))"
proof (cases "CoseKeyES256 x y")
  case (Some b)
  assume "mk 5"
  moreover have "length (es256_fields x y) = 5" by (simp add: es256_fields_def)
  ultimately have "cbor_ok mk (CMap (es256_fields x y))"
    by (simp only: cbor_ok.simps) (simp add: es256_fields_def int64_ok_def max_int64_def)
  then have "decodeItem mk (cbor_fuel b) b 0 = COk (CMap (es256_fields x y)) 77"
    using decode_map [of mk "es256_fields x y" b "[]"] es256_encoded [OF Some]
    by (simp only: append_Nil2) (simp add: max_int64_def)
  then have "decodeCBORMap mk b = COk (map_of (es256_fields x y)) 77"
    using es256_encoded(2) [OF Some] by (simp add: decodeCBORMap_def)
  moreover have "length x = 32" "length y = 32" using Some by (simp_all add: CoseKeyES256_def split: if_splits)
  ultimately show ?thesis
    by (simp add: Some parseCOSEKey_def es256_fields_def parseCOSEES256_def int_field_def bytes_field_def)
qed (simp add: CoseKeyES256_def split: if_splits)

text \<open>A written ES256 key reads back: for coordinates of 32 bytes \<open>parseCOSEKey\<close> of what \<open>CoseKeyES256\<close>
  encodes gives the algorithm -7 and the same coordinates, and other lengths are refused.\<close>

theorem parseCOSEKey_CoseKeyES256:
  "mk 5 \<Longrightarrow> case CoseKeyES256 x y of
     None \<Rightarrow> (length x, length y) \<noteq> (32, 32)
   | Some b \<Rightarrow> parseCOSEKey mk b = Some (Inr (- 7, ES256Key x y))"
  using key_roundtrip [of mk x y] by (auto split: option.splits)

end
