(* ===== verification/WebAuthn.thy ===== *)
theory WebAuthn
  imports Cbor Encoding
begin

unbundle bit_operations_syntax

text \<open>
  WebAuthn assertions (\<open>packages/identity/webauthn.go\<close>).  The digests, the signature checks and the JSON
  decoder the code calls are the fields of \<open>wa_lib\<close>, as is \<open>map_Make\<close>, the sizes for which a map can be allocated; a decoded \<open>clientDataJSON\<close> maps member names to
  values, of which the code only distinguishes strings from the rest.  \<open>None\<close> is the run-time panic of the
  CBOR reader.  \<open>assertion_valid\<close> is the relying party's contract: the conditions a verified assertion
  fulfils, each stated once, without the order in which the code tests them.
\<close>

datatype json_value = JString string | JOther

record wa_lib =
  json_Unmarshal :: "string \<Rightarrow> (string \<rightharpoonup> json_value) option"
  sha256_Sum256 :: "string \<Rightarrow> string"
  ecdsa_VerifyASN1 :: "string \<Rightarrow> string \<Rightarrow> string \<Rightarrow> string \<Rightarrow> bool"
  rsa_VerifyPKCS1v15 :: "nat \<Rightarrow> int \<Rightarrow> string \<Rightarrow> string \<Rightarrow> bool"
  ed25519_Verify :: "string \<Rightarrow> string \<Rightarrow> string \<Rightarrow> bool"
  map_Make :: "nat \<Rightarrow> bool"

record WebAuthnVerifyOptions =
  wo_CosePublicKey :: string
  wo_StoredSignCount :: int
  wo_StoredRpID :: string
  wo_ExpectedChallenge :: string
  wo_ExpectedOrigin :: string
  wo_AuthenticatorData :: string
  wo_ClientDataJSON :: string
  wo_Signature :: string
  wo_RequireUserVerified :: bool
  wo_RequireUserPresent :: bool

definition NewWebAuthnVerifyOptions :: WebAuthnVerifyOptions where
  "NewWebAuthnVerifyOptions =
     \<lparr>wo_CosePublicKey = [], wo_StoredSignCount = 0, wo_StoredRpID = [], wo_ExpectedChallenge = [],
      wo_ExpectedOrigin = [], wo_AuthenticatorData = [], wo_ClientDataJSON = [], wo_Signature = [],
      wo_RequireUserVerified = True, wo_RequireUserPresent = True\<rparr>"

fun bytesEqual :: "string \<Rightarrow> string \<Rightarrow> bool" where
  "bytesEqual [] [] = True"
| "bytesEqual (a # as) (b # bs) = (a = b \<and> bytesEqual as bs)"
| "bytesEqual _ _ = False"

definition b64urlDecode :: "string \<Rightarrow> string option" where
  "b64urlDecode s =
     (let pad = length s mod 4
      in URLEncoding_DecodeString (if pad \<noteq> 0 then s @ take (4 - pad) ''==='' else s))"

definition B64URLEncode :: "string \<Rightarrow> string" where
  "B64URLEncode b = RawURLEncoding_EncodeToString b"

record authenticatorData =
  ad_RpIDHash :: string
  ad_Flags :: nat
  ad_SignCount :: int

definition parseAuthenticatorData :: "string \<Rightarrow> authenticatorData option" where
  "parseAuthenticatorData buf =
     (if length buf < 37 then None
      else Some \<lparr>ad_RpIDHash = take 32 buf, ad_Flags = of_char (buf ! 32),
                 ad_SignCount = uint (BigEndian_Uint32 (take 4 (drop 33 buf)))\<rparr>)"

definition webauthnFlagUserPresent :: nat where "webauthnFlagUserPresent = 1"
definition webauthnFlagUserVerified :: nat where "webauthnFlagUserVerified = 4"

definition string_field :: "(string \<rightharpoonup> json_value) \<Rightarrow> string \<Rightarrow> string option" where
  "string_field m k = (case m k of Some (JString s) \<Rightarrow> Some s | _ \<Rightarrow> None)"

definition newSignCount :: "int \<Rightarrow> int \<Rightarrow> int option" where
  "newSignCount received stored =
     (if received = 0 \<and> stored = 0 then Some 0
      else if received > stored then Some received
      else None)"

definition verify_signature :: "wa_lib \<Rightarrow> int \<Rightarrow> cose_key \<Rightarrow> string \<Rightarrow> string \<Rightarrow> wa_error option" where
  "verify_signature lib alg publicKey signedData sig =
     (if alg = - 7
      then (case publicKey of
              ES256Key x y \<Rightarrow>
                if length sig < 8 \<or> sig ! 0 \<noteq> CHR 0x30 then Some (WebAuthnError ''signature_invalid'')
                else if \<not> ecdsa_VerifyASN1 lib x y (sha256_Sum256 lib signedData) sig
                then Some (WebAuthnError ''signature_invalid'')
                else None
            | _ \<Rightarrow> Some wa_unsupported)
      else if alg = - 257
      then (case publicKey of
              RS256Key n e \<Rightarrow>
                if \<not> rsa_VerifyPKCS1v15 lib n e (sha256_Sum256 lib signedData) sig
                then Some (WebAuthnError ''signature_invalid'')
                else None
            | _ \<Rightarrow> Some wa_unsupported)
      else if alg = - 8
      then (case publicKey of
              EdDSAKey x \<Rightarrow>
                if length sig \<noteq> 64 then Some (WebAuthnError ''signature_invalid'')
                else if \<not> ed25519_Verify lib x signedData sig then Some (WebAuthnError ''signature_invalid'')
                else None
            | _ \<Rightarrow> Some wa_unsupported)
      else Some wa_unsupported)"

definition check_client_data :: "wa_lib \<Rightarrow> WebAuthnVerifyOptions \<Rightarrow> wa_error option" where
  "check_client_data lib opts =
     (case json_Unmarshal lib (wo_ClientDataJSON opts) of
        None \<Rightarrow> Some wa_malformed
      | Some clientData \<Rightarrow>
          if (case string_field clientData ''type'' of Some t \<Rightarrow> t | None \<Rightarrow> []) \<noteq> ''webauthn.get''
          then Some (WebAuthnError ''type_mismatch'')
          else if (case string_field clientData ''origin'' of Some t \<Rightarrow> t | None \<Rightarrow> []) \<noteq> wo_ExpectedOrigin opts
          then Some (WebAuthnError ''origin_mismatch'')
          else case string_field clientData ''challenge'' of
            None \<Rightarrow> Some wa_malformed
          | Some challengeB64 \<Rightarrow>
              (case b64urlDecode challengeB64 of
                 None \<Rightarrow> Some wa_malformed
               | Some challengeBytes \<Rightarrow>
                   if \<not> bytesEqual challengeBytes (wo_ExpectedChallenge opts)
                   then Some (WebAuthnError ''challenge_mismatch'')
                   else None))"

definition WebAuthnVerifyAssertion :: "wa_lib \<Rightarrow> WebAuthnVerifyOptions \<Rightarrow> (wa_error + int) option" where
  "WebAuthnVerifyAssertion lib opts =
     (case check_client_data lib opts of
        Some e \<Rightarrow> Some (Inl e)
      | None \<Rightarrow>
          (case parseAuthenticatorData (wo_AuthenticatorData opts) of
             None \<Rightarrow> Some (Inl wa_malformed)
           | Some auth \<Rightarrow>
               if \<not> bytesEqual (ad_RpIDHash auth) (sha256_Sum256 lib (wo_StoredRpID opts))
               then Some (Inl (WebAuthnError ''rp_id_mismatch''))
               else if wo_RequireUserPresent opts \<and> ad_Flags auth AND webauthnFlagUserPresent = 0
               then Some (Inl (WebAuthnError ''user_not_present''))
               else if wo_RequireUserVerified opts \<and> ad_Flags auth AND webauthnFlagUserVerified = 0
               then Some (Inl (WebAuthnError ''user_not_verified''))
               else case newSignCount (ad_SignCount auth) (wo_StoredSignCount opts) of
                 None \<Rightarrow> Some (Inl (WebAuthnError ''counter_regression''))
               | Some n \<Rightarrow>
                   (case parseCOSEKey (map_Make lib) (wo_CosePublicKey opts) of
                      None \<Rightarrow> None
                    | Some (Inl e) \<Rightarrow> Some (Inl e)
                    | Some (Inr (alg, publicKey)) \<Rightarrow>
                        (case verify_signature lib alg publicKey
                                (wo_AuthenticatorData opts @ sha256_Sum256 lib (wo_ClientDataJSON opts))
                                (wo_Signature opts) of
                           Some e \<Rightarrow> Some (Inl e)
                         | None \<Rightarrow> Some (Inr n)))))"

subsection \<open>What a verified assertion fulfils\<close>

lemma bytesEqual_eq [simp]: "bytesEqual a b \<longleftrightarrow> a = b"
  by (induction a b rule: bytesEqual.induct) auto

lemma parseCOSEKey_alg:
  assumes "parseCOSEKey mk k = Some (Inr (alg, key))"
  shows "(alg = - 7 \<and> (\<exists>x y. key = ES256Key x y)) \<or> (alg = - 257 \<and> (\<exists>n e. key = RS256Key n e)) \<or>
    (alg = - 8 \<and> (\<exists>x. key = EdDSAKey x))"
proof -
  have s: "map_sum id (Pair a) r = Inr (alg, key) \<longleftrightarrow> alg = a \<and> r = Inr key" for a :: int and r :: "wa_error + cose_key"
    by (cases r) auto
  show ?thesis using assms
    by (auto simp: parseCOSEKey_def s parseCOSEES256_def parseCOSERS256_def parseCOSEEdDSA_def
        split: cres.splits option.splits cbor.splits if_splits)
qed

definition signature_valid :: "wa_lib \<Rightarrow> cose_key \<Rightarrow> string \<Rightarrow> string \<Rightarrow> bool" where
  "signature_valid lib key msg sig =
     (case key of
        ES256Key x y \<Rightarrow> 8 \<le> length sig \<and> sig ! 0 = CHR 0x30 \<and> ecdsa_VerifyASN1 lib x y (sha256_Sum256 lib msg) sig
      | RS256Key n e \<Rightarrow> rsa_VerifyPKCS1v15 lib n e (sha256_Sum256 lib msg) sig
      | EdDSAKey x \<Rightarrow> length sig = 64 \<and> ed25519_Verify lib x msg sig)"

lemma verify_signature_None:
  "parseCOSEKey mk k = Some (Inr (alg, key)) \<Longrightarrow> verify_signature lib alg key msg sig = None \<longleftrightarrow> signature_valid lib key msg sig"
  by (drule parseCOSEKey_alg) (auto simp: verify_signature_def signature_valid_def split: if_splits)

lemma verify_signature_Some:
  "verify_signature lib alg key msg sig = Some e \<Longrightarrow> parseCOSEKey mk k = Some (Inr (alg, key)) \<Longrightarrow> \<not> signature_valid lib key msg sig"
  by (simp add: verify_signature_None [symmetric])

definition client_data_valid :: "wa_lib \<Rightarrow> WebAuthnVerifyOptions \<Rightarrow> bool" where
  "client_data_valid lib opts \<longleftrightarrow>
     (case json_Unmarshal lib (wo_ClientDataJSON opts) of
        None \<Rightarrow> False
      | Some m \<Rightarrow> m ''type'' = Some (JString ''webauthn.get'') \<and>
          (m ''origin'' = Some (JString (wo_ExpectedOrigin opts)) \<or>
           wo_ExpectedOrigin opts = [] \<and> string_field m ''origin'' = None) \<and>
          (case m ''challenge'' of
             Some (JString c) \<Rightarrow> b64urlDecode c = Some (wo_ExpectedChallenge opts)
           | _ \<Rightarrow> False))"

definition counter_advances :: "int \<Rightarrow> int \<Rightarrow> bool" where
  "counter_advances stored received \<longleftrightarrow> stored < received \<or> stored = 0 \<and> received = 0"

definition assertion_valid :: "wa_lib \<Rightarrow> WebAuthnVerifyOptions \<Rightarrow> int \<Rightarrow> bool" where
  "assertion_valid lib opts n \<longleftrightarrow>
     client_data_valid lib opts \<and>
     37 \<le> length (wo_AuthenticatorData opts) \<and>
     take 32 (wo_AuthenticatorData opts) = sha256_Sum256 lib (wo_StoredRpID opts) \<and>
     (wo_RequireUserPresent opts \<longrightarrow> bit (of_char (wo_AuthenticatorData opts ! 32) :: nat) 0) \<and>
     (wo_RequireUserVerified opts \<longrightarrow> bit (of_char (wo_AuthenticatorData opts ! 32) :: nat) 2) \<and>
     n = uint (BigEndian_Uint32 (take 4 (drop 33 (wo_AuthenticatorData opts)))) \<and>
     counter_advances (wo_StoredSignCount opts) n \<and>
     (case parseCOSEKey (map_Make lib) (wo_CosePublicKey opts) of
        Some (Inr (_, key)) \<Rightarrow>
          signature_valid lib key (wo_AuthenticatorData opts @ sha256_Sum256 lib (wo_ClientDataJSON opts))
            (wo_Signature opts)
      | _ \<Rightarrow> False)"

lemma check_client_data_None: "check_client_data lib opts = None \<longleftrightarrow> client_data_valid lib opts"
  by (auto simp: check_client_data_def client_data_valid_def string_field_def
      split: option.splits json_value.splits if_splits)

lemma newSignCount_Some:
  "newSignCount received stored = Some n \<longleftrightarrow> n = received \<and> counter_advances stored received"
  by (auto simp: newSignCount_def counter_advances_def)

lemma flag_bits:
  "f AND webauthnFlagUserPresent = 0 \<longleftrightarrow> \<not> bit f 0" "f AND webauthnFlagUserVerified = 0 \<longleftrightarrow> \<not> bit f 2"
  using and_exp_eq_0_iff_not_bit [of f 0] and_exp_eq_0_iff_not_bit [of f 2]
  by (simp_all add: webauthnFlagUserPresent_def webauthnFlagUserVerified_def)

lemma verify_assertion_iff:
  "WebAuthnVerifyAssertion lib opts = Some (Inr n) \<longleftrightarrow> assertion_valid lib opts n"
proof (cases "client_data_valid lib opts")
  case False
  then obtain e where "check_client_data lib opts = Some e"
    using check_client_data_None [of lib opts] by (cases "check_client_data lib opts") auto
  then show ?thesis using False by (simp add: WebAuthnVerifyAssertion_def assertion_valid_def)
next
  case True
  then have c: "check_client_data lib opts = None" by (simp add: check_client_data_None)
  let ?sc = "uint (BigEndian_Uint32 (take 4 (drop 33 (wo_AuthenticatorData opts))))"
  show ?thesis
  proof (cases "newSignCount ?sc (wo_StoredSignCount opts)")
    case None
    then have "\<not> counter_advances (wo_StoredSignCount opts) ?sc" using newSignCount_Some by (metis option.distinct(1))
    with None show ?thesis
      by (auto simp: WebAuthnVerifyAssertion_def assertion_valid_def c parseAuthenticatorData_def)
  next
    case (Some n')
    then have n: "n' = ?sc" "counter_advances (wo_StoredSignCount opts) ?sc" by (simp_all add: newSignCount_Some)
    show ?thesis
      by (cases "parseCOSEKey (map_Make lib) (wo_CosePublicKey opts)")
        (auto simp: WebAuthnVerifyAssertion_def assertion_valid_def c parseAuthenticatorData_def flag_bits True n
          Some [unfolded n] verify_signature_None dest: verify_signature_Some split: sum.splits option.splits)
  qed
qed

text \<open>C18: An assertion is verified exactly when it fulfils the relying party's contract: the client data name
  the type, the origin and the issued challenge; the authenticator data are long enough and hold the digest of
  the stored relying party; the flags asked for are set; the counter has advanced; and the signature over
  authenticator data and client data digest verifies under the stored key.  The result is the counter
  received.\<close>

theorem WebAuthnVerifyAssertion_valid:
  "WebAuthnVerifyAssertion lib opts = Some (Inr n) \<longleftrightarrow> assertion_valid lib opts n"
  by (rule verify_assertion_iff)

lemma assertion_counter:
  "assertion_valid lib opts n \<Longrightarrow> counter_advances (wo_StoredSignCount opts) n \<and> 0 \<le> n"
  by (auto simp: assertion_valid_def)

subsection \<open>A concrete assertion\<close>

text \<open>A library whose digest is the empty text and whose checks accept everything, client data that carry an
  empty challenge, and an authenticator whose counter can be set.\<close>

definition demo_walib :: wa_lib where
  "demo_walib =
     \<lparr>json_Unmarshal = (\<lambda>_. Some [''type'' \<mapsto> JString ''webauthn.get'', ''origin'' \<mapsto> JString ''o'',
        ''challenge'' \<mapsto> JString ''AQ'']),
      sha256_Sum256 = (\<lambda>s. replicate 32 CHR 0x07),
      ecdsa_VerifyASN1 = (\<lambda>x y d s. True), rsa_VerifyPKCS1v15 = (\<lambda>n e d s. True),
      ed25519_Verify = (\<lambda>k m s. True), map_Make = (\<lambda>n. n \<le> 1000)\<rparr>"

definition demo_assertion :: "bool \<Rightarrow> char \<Rightarrow> int \<Rightarrow> char \<Rightarrow> WebAuthnVerifyOptions" where
  "demo_assertion require flags stored counter =
     \<lparr>wo_CosePublicKey = the (CoseKeyES256 (replicate 32 CHR 0x01) (replicate 32 CHR 0x02)),
      wo_StoredSignCount = stored, wo_StoredRpID = ''rp'', wo_ExpectedChallenge = [CHR 0x01],
      wo_ExpectedOrigin = ''o'',
      wo_AuthenticatorData = replicate 32 CHR 0x07 @ [flags, CHR 0x00, CHR 0x00, CHR 0x00, counter],
      wo_ClientDataJSON = [], wo_Signature = replicate 8 CHR 0x30,
      wo_RequireUserVerified = require, wo_RequireUserPresent = require\<rparr>"

lemma demo_client: "check_client_data demo_walib (demo_assertion require flags stored counter) = None"
  by (simp add: check_client_data_def demo_walib_def demo_assertion_def string_field_def) code_simp

lemma demo_key:
  "parseCOSEKey (map_Make demo_walib) (wo_CosePublicKey (demo_assertion require flags stored counter)) =
     Some (Inr (- 7, ES256Key (replicate 32 CHR 0x01) (replicate 32 CHR 0x02)))"
  using key_roundtrip [of "map_Make demo_walib" "replicate 32 CHR 0x01" "replicate 32 CHR 0x02"]
  by (auto simp: demo_assertion_def CoseKeyES256_def demo_walib_def)

lemma uint_byte: "uint (word_of_nat (of_char c) :: 32 word) = of_char c"
proof -
  have "take_bit 32 (of_char c) = (of_char c :: nat)"
    by (intro take_bit_nat_eq_self less_le_trans [OF of_char_byte]) simp
  then show ?thesis by (simp add: unsigned_of_nat of_nat_of_char [where 'a = int])
qed

lemma demo_verified:
  "WebAuthnVerifyAssertion demo_walib (demo_assertion False flags stored counter) =
     (case newSignCount (of_char counter) stored of
        None \<Rightarrow> Some (Inl (WebAuthnError ''counter_regression'')) | Some n \<Rightarrow> Some (Inr n))"
proof -
  have p: "parseAuthenticatorData (wo_AuthenticatorData (demo_assertion False flags stored counter)) =
      Some \<lparr>ad_RpIDHash = replicate 32 CHR 0x07, ad_Flags = of_char flags, ad_SignCount = of_char counter\<rparr>"
    by (simp add: parseAuthenticatorData_def demo_assertion_def BigEndian_Uint32_def nth_append uint_byte)
  show ?thesis
    unfolding WebAuthnVerifyAssertion_def demo_client demo_key p option.case sum.case
    by (simp add: demo_walib_def demo_assertion_def verify_signature_def split: option.splits)
qed

text \<open>Options that require neither user presence nor verification get neither: an assertion whose flags
  are all clear is verified.  The comment of the options' type says that both are then treated as required;
  the field that was to record this is never read.\<close>

theorem require_defaults_not_applied:
  "wo_RequireUserVerified (demo_assertion False CHR 0x00 0 CHR 0x05) = False \<and>
   wo_RequireUserPresent (demo_assertion False CHR 0x00 0 CHR 0x05) = False \<and>
   WebAuthnVerifyAssertion demo_walib (demo_assertion False CHR 0x00 0 CHR 0x05) = Some (Inr 5)"
proof (intro conjI)
  show "WebAuthnVerifyAssertion demo_walib (demo_assertion False CHR 0x00 0 CHR 0x05) = Some (Inr 5)"
    by (simp add: demo_verified newSignCount_def)
qed (simp_all add: demo_assertion_def)

text \<open>A challenge encoded for the wire is decoded back, so a client that echoes it passes the challenge
  test.\<close>

theorem b64urlDecode_B64URLEncode: "b64urlDecode (B64URLEncode b) = Some b"
proof -
  let ?t = "base64_raw urlAlphabet b"
  let ?pad = "take (4 - length ?t mod 4) ''===''"
  have a: "CHR 0x0A \<notin> set ?t" "CHR 0x0D \<notin> set ?t" "CHR ''='' \<notin> set ?t"
    using set_base64_raw [OF alphabets(4), of b] alphabets(8-10) by blast+
  have r: "length ?t mod 4 \<noteq> 1"
    using length_sextets [of "map of_char b"] by (simp add: base64_raw_def)
  have q: "c \<in> set ?t \<Longrightarrow> c \<noteq> CHR ''=''" for c using a(3) by auto
  have tw: "takeWhile (\<lambda>c. c \<noteq> CHR ''='') ?t = ?t" "dropWhile (\<lambda>c. c \<noteq> CHR ''='') ?t = []"
    "takeWhile (\<lambda>c. c \<noteq> CHR ''='') (?t @ w) = ?t @ takeWhile (\<lambda>c. c \<noteq> CHR ''='') w"
    "dropWhile (\<lambda>c. c \<noteq> CHR ''='') (?t @ w) = dropWhile (\<lambda>c. c \<noteq> CHR ''='') w" for w
    by (simp_all add: takeWhile_append2 dropWhile_append2 q)
  have nb: "no_breaks (?t @ ''='') = ?t @ ''=''" "no_breaks (?t @ ''=='') = ?t @ ''==''"
    using no_breaks_id [OF a(1,2)] by (simp_all add: no_breaks_def)
  note d = decode_base64_raw [OF alphabets(3,4), of b]
  have "length ?t mod 4 < 4" by simp
  then consider "length ?t mod 4 = 0" | "length ?t mod 4 = 2" | "length ?t mod 4 = 3"
    using r by linarith
  then show ?thesis
    unfolding b64urlDecode_def B64URLEncode_def RawURLEncoding_EncodeToString_def
  proof cases
    case 1
    then show "(let pad = length ?t mod 4 in URLEncoding_DecodeString (if pad \<noteq> 0 then ?t @ take (4 - pad) ''==='' else ?t)) = Some b"
      using no_breaks_id [OF a(1,2)] a(3) by (simp add: URLEncoding_DecodeString_def Let_def tw d)
  next
    case 2
    then have "(length ?t + 2) mod 4 = 0" by presburger
    with 2 show "(let pad = length ?t mod 4 in URLEncoding_DecodeString (if pad \<noteq> 0 then ?t @ take (4 - pad) ''==='' else ?t)) = Some b"
      by (simp add: URLEncoding_DecodeString_def Let_def nb tw d)
  next
    case 3
    then have "(length ?t + 1) mod 4 = 0" by presburger
    with 3 show "(let pad = length ?t mod 4 in URLEncoding_DecodeString (if pad \<noteq> 0 then ?t @ take (4 - pad) ''==='' else ?t)) = Some b"
      by (simp add: URLEncoding_DecodeString_def Let_def nb tw d)
  qed
qed

end
