(* ===== verification/IdentityTypes.thy ===== *)
theory IdentityTypes
  imports Ids Paging Passwords Totp RecoveryCodes WebAuthn Otpauth
begin

text \<open>
  \<open>packages/identity\<close>: the records of \<open>types.go\<close>, \<open>pat.go\<close>, \<open>mfa.go\<close> and \<open>store.go\<close>, the errors of
  \<open>errors.go\<close>, the bearer classification of \<open>pat.go\<close>, and the state \<open>identity\<close> with the fields of
  \<open>InMemoryIdentityStore\<close>.  The string enumerations of the package stay strings.  \<open>id_env\<close> collects what
  one call of a method takes from outside: the UUID library, the readings of the clock, \<open>crypto/rand\<close> (the
  n-th read, of a number of bytes; one byte at a time for recovery codes), Argon2id, HMAC, the Unicode
  functions, and the WebAuthn library, whose SHA-256 also digests the session tokens.
\<close>

record id_env =
  ev_uuid :: uuid_lib
  ev_clock :: clock
  ev_rand :: "nat \<Rightarrow> int \<Rightarrow> string + string"
  ev_bytes :: byte_source
  ev_idkey :: argon
  ev_hmac :: hmac
  ev_text :: text_lib
  ev_lower :: "string \<Rightarrow> string"
  ev_wa :: wa_lib

type_synonym IdStatus = string
type_synonym CredentialType = string
type_synonym FactorType = string
type_synonym FactorStatus = string
type_synonym PatStatus = string
type_synonym AuthKind = string

definition StatusActive :: IdStatus where "StatusActive = ''active''"
definition StatusSuspended :: IdStatus where "StatusSuspended = ''suspended''"
definition StatusRevoked :: IdStatus where "StatusRevoked = ''revoked''"

definition CredentialTypePassword :: CredentialType where "CredentialTypePassword = ''password''"
definition CredentialTypePasskey :: CredentialType where "CredentialTypePasskey = ''passkey''"
definition CredentialTypeOIDC :: CredentialType where "CredentialTypeOIDC = ''oidc''"

definition FactorTypeTotp :: FactorType where "FactorTypeTotp = ''totp''"
definition FactorTypeWebAuthn :: FactorType where "FactorTypeWebAuthn = ''webauthn''"
definition FactorTypeRecovery :: FactorType where "FactorTypeRecovery = ''recovery''"

definition FactorStatusPending :: FactorStatus where "FactorStatusPending = ''pending''"
definition FactorStatusActive :: FactorStatus where "FactorStatusActive = ''active''"
definition FactorStatusSuspended :: FactorStatus where "FactorStatusSuspended = ''suspended''"
definition FactorStatusRevoked :: FactorStatus where "FactorStatusRevoked = ''revoked''"

definition PatStatusActive :: PatStatus where "PatStatusActive = ''active''"
definition PatStatusExpired :: PatStatus where "PatStatusExpired = ''expired''"
definition PatStatusRevoked :: PatStatus where "PatStatusRevoked = ''revoked''"

lemma id_status_distinct [simp]:
  "StatusActive \<noteq> StatusSuspended" "StatusSuspended \<noteq> StatusActive" "StatusActive \<noteq> StatusRevoked"
  "StatusRevoked \<noteq> StatusActive" "StatusSuspended \<noteq> StatusRevoked" "StatusRevoked \<noteq> StatusSuspended"
  by (simp_all add: StatusActive_def StatusSuspended_def StatusRevoked_def)

lemma cred_type_distinct [simp]:
  "CredentialTypePassword \<noteq> CredentialTypePasskey" "CredentialTypePasskey \<noteq> CredentialTypePassword"
  "CredentialTypePassword \<noteq> CredentialTypeOIDC" "CredentialTypeOIDC \<noteq> CredentialTypePassword"
  "CredentialTypePasskey \<noteq> CredentialTypeOIDC" "CredentialTypeOIDC \<noteq> CredentialTypePasskey"
  by (simp_all add: CredentialTypePassword_def CredentialTypePasskey_def CredentialTypeOIDC_def)

lemma factor_type_distinct [simp]:
  "FactorTypeTotp \<noteq> FactorTypeWebAuthn" "FactorTypeWebAuthn \<noteq> FactorTypeTotp"
  "FactorTypeTotp \<noteq> FactorTypeRecovery" "FactorTypeRecovery \<noteq> FactorTypeTotp"
  "FactorTypeWebAuthn \<noteq> FactorTypeRecovery" "FactorTypeRecovery \<noteq> FactorTypeWebAuthn"
  by (simp_all add: FactorTypeTotp_def FactorTypeWebAuthn_def FactorTypeRecovery_def)

lemma factor_status_distinct [simp]:
  "FactorStatusPending \<noteq> FactorStatusActive" "FactorStatusActive \<noteq> FactorStatusPending"
  "FactorStatusActive \<noteq> FactorStatusRevoked" "FactorStatusRevoked \<noteq> FactorStatusActive"
  "FactorStatusActive \<noteq> FactorStatusSuspended" "FactorStatusSuspended \<noteq> FactorStatusActive"
  "FactorStatusPending \<noteq> FactorStatusRevoked" "FactorStatusRevoked \<noteq> FactorStatusPending"
  "FactorStatusSuspended \<noteq> FactorStatusRevoked" "FactorStatusRevoked \<noteq> FactorStatusSuspended"
  by (simp_all add: FactorStatusPending_def FactorStatusActive_def FactorStatusRevoked_def FactorStatusSuspended_def)

lemma pat_status_distinct [simp]: "PatStatusActive \<noteq> PatStatusRevoked" "PatStatusRevoked \<noteq> PatStatusActive"
  by (simp_all add: PatStatusActive_def PatStatusRevoked_def)

record User =
  usr_ID :: string
  usr_Status :: IdStatus
  usr_CreatedAt :: gotime
  usr_UpdatedAt :: gotime
  usr_DisplayName :: "string option"

definition usr_WithStatus :: "User \<Rightarrow> IdStatus \<Rightarrow> gotime \<Rightarrow> User" where
  "usr_WithStatus u st at = u\<lparr>usr_Status := st, usr_UpdatedAt := at\<rparr>"

record Credential =
  crd_ID :: string
  crd_UsrID :: string
  crd_Type :: CredentialType
  crd_Identifier :: string
  crd_Status :: IdStatus
  crd_Replaces :: "string option"
  crd_CreatedAt :: gotime
  crd_UpdatedAt :: gotime
  crd_PasskeySignCount :: int
  crd_PasskeyRPID :: string
  crd_OIDCIssuer :: string
  crd_OIDCSubject :: string

record Session =
  ses_ID :: string
  ses_UsrID :: string
  ses_CredID :: string
  ses_CreatedAt :: gotime
  ses_ExpiresAt :: gotime
  ses_RevokedAt :: "gotime option"

definition ses_WithRevokedAt :: "Session \<Rightarrow> gotime \<Rightarrow> Session" where
  "ses_WithRevokedAt ss at = ss\<lparr>ses_RevokedAt := Some at\<rparr>"

record SessionWithToken =
  swt_Session :: Session
  swt_Token :: string

record VerifiedCredential =
  vc_UsrID :: string
  vc_CredID :: string
  vc_MfaRequired :: bool

record UpdateUserInput =
  uui_DisplayName :: "string option"
  uui_ClearDisplayName :: bool

record ListUsersOptions =
  luo_Cursor :: "string option"
  luo_Limit :: int
  luo_Query :: "string option"
  luo_Status :: "IdStatus option"

record ListSessionsOptions =
  lso_Cursor :: "string option"
  lso_Limit :: int

record ListPatsOptions =
  lpo_Cursor :: "string option"
  lpo_Limit :: int

record Factor =
  fac_ID :: string
  fac_UsrID :: string
  fac_Type :: FactorType
  fac_Identifier :: string
  fac_Status :: FactorStatus
  fac_Replaces :: "string option"
  fac_CreatedAt :: gotime
  fac_UpdatedAt :: gotime
  fac_RpID :: string
  fac_SignCount :: int
  fac_Remaining :: int

record TotpEnrollmentResult =
  ter_Factor :: Factor
  ter_SecretB32 :: string
  ter_OtpauthURI :: string

record WebAuthnEnrollmentResult =
  wer_Factor :: Factor

record RecoveryEnrollmentResult =
  rer_Factor :: Factor
  rer_Codes :: "string list"

record TotpProof =
  tp_Code :: string

record WebAuthnProof =
  wp_CredentialID :: string
  wp_AuthenticatorData :: string
  wp_ClientDataJSON :: string
  wp_Signature :: string
  wp_ExpectedChallenge :: string
  wp_ExpectedOrigin :: string

record RecoveryProof =
  rp_Code :: string

record MfaProof =
  mp_Totp :: "TotpProof option"
  mp_WebAuthn :: "WebAuthnProof option"
  mp_Recovery :: "RecoveryProof option"

record MfaVerifyResult =
  mvr_MfaID :: string
  mvr_Type :: FactorType
  mvr_MfaVerifiedAt :: gotime
  mvr_NewSignCount :: "int option"

record UserMfaPolicy =
  ump_UsrID :: string
  ump_Required :: bool
  ump_GraceUntil :: "gotime option"
  ump_UpdatedAt :: gotime

definition IsActiveNow :: "UserMfaPolicy \<Rightarrow> gotime \<Rightarrow> bool" where
  "IsActiveNow p now =
     (if \<not> ump_Required p then False
      else case ump_GraceUntil p of None \<Rightarrow> True | Some g \<Rightarrow> \<not> now < g)"

record PersonalAccessToken =
  pat_ID :: string
  pat_UsrID :: string
  pat_Name :: string
  pat_Scope :: "string list"
  pat_Status :: PatStatus
  pat_ExpiresAt :: "gotime option"
  pat_LastUsedAt :: "gotime option"
  pat_RevokedAt :: "gotime option"
  pat_CreatedAt :: gotime
  pat_UpdatedAt :: gotime

record VerifiedPat =
  vp_PatID :: string
  vp_UsrID :: string
  vp_Scope :: "string list"

record CreatePatInput =
  cpi_UsrID :: string
  cpi_Name :: string
  cpi_Scope :: "string list"
  cpi_ExpiresAt :: "gotime option"

record CreatePatResult =
  cpr_Pat :: PersonalAccessToken
  cpr_Token :: string

definition PatMaxLifetimeSeconds :: int where
  "PatMaxLifetimeSeconds = 365 * 24 * 60 * 60"

definition PatMaxSecretLength :: nat where
  "PatMaxSecretLength = 256"

definition PatDummyPHCHash :: string where
  "PatDummyPHCHash = ''$argon2id$v=19$m=19456,t=2,p=1$'' @ ''779z4UHkLWR4w0TEo9gcHg$'' @
     ''Gz0+nGnpokhsKi1cPlx8i74FBN1Nq0OURZ3xso1AHMU''"

definition patWireFormat :: rx where
  "patWireFormat = Cat (Lit ''pat_'') (Cat (Rng hex_lower 32 (Some 32)) (Cat (Lit ''_'')
     (Rng ([(CHR ''A'', CHR ''Z'')] @ az @ digits09 @ single (CHR ''_'') @ single (CHR ''-'')) 1 None)))"

definition IsStructurallyValidPatToken :: "string \<Rightarrow> bool" where
  "IsStructurallyValidPatToken token = rx_match patWireFormat token"

definition idn_AuthKindPat :: AuthKind where "idn_AuthKindPat = ''pat''"
definition idn_AuthKindShare :: AuthKind where "idn_AuthKindShare = ''share''"
definition idn_AuthKindSession :: AuthKind where "idn_AuthKindSession = ''session''"
definition idn_AuthKindSystem :: AuthKind where "idn_AuthKindSystem = ''system''"

definition ClassifyBearer :: "string \<Rightarrow> AuthKind" where
  "ClassifyBearer token =
     (if 4 \<le> length token \<and> take 4 token = ''pat_'' then idn_AuthKindPat
      else if 4 \<le> length token \<and> take 4 token = ''shr_'' then idn_AuthKindShare
      else idn_AuthKindSession)"

subsection \<open>Errors\<close>

datatype idn_error =
    IdnNotFound string
  | IdnDuplicateCredential
  | IdnInvalidCredential
  | IdnInvalidToken
  | IdnSessionExpired
  | IdnCredentialNotActive
  | IdnCredentialTypeMismatch
  | IdnAlreadyTerminal
  | IdnInvalidPatToken
  | IdnPrecondition string
  | IdnPatExpired string
  | IdnPatRevoked string
  | IdnGenerate id_error
  | IdnHash hash_error
  | IdnRandom string
  | IdnTotp totp_error
  | IdnWebAuthn wa_error
  | IdnEmptyProof

text \<open>\<open>ErrorCode\<close> follows \<open>Unwrap\<close>, so it sees the sentinels and a \<open>PreconditionError\<close>; the two errors of
  an expired and a revoked token have their own \<open>Code\<close> methods, which it does not see.\<close>

fun idn_ErrorCode :: "idn_error \<Rightarrow> string" where
  "idn_ErrorCode (IdnNotFound _) = ''not_found''"
| "idn_ErrorCode IdnDuplicateCredential = ''conflict.duplicate_credential''"
| "idn_ErrorCode IdnInvalidCredential = ''invalid_credential''"
| "idn_ErrorCode IdnInvalidToken = ''invalid_token''"
| "idn_ErrorCode IdnSessionExpired = ''session_expired''"
| "idn_ErrorCode IdnCredentialNotActive = ''cred_not_active''"
| "idn_ErrorCode IdnCredentialTypeMismatch = ''cred_type_mismatch''"
| "idn_ErrorCode IdnAlreadyTerminal = ''already_terminal''"
| "idn_ErrorCode IdnInvalidPatToken = ''pat.invalid''"
| "idn_ErrorCode (IdnPrecondition reason) = ''precondition.'' @ reason"
| "idn_ErrorCode _ = []"

fun IsInvalidPatToken :: "idn_error \<Rightarrow> bool" where
  "IsInvalidPatToken IdnInvalidPatToken = True"
| "IsInvalidPatToken _ = False"

fun idn_IsNotFound :: "idn_error \<Rightarrow> bool" where
  "idn_IsNotFound (IdnNotFound _) = True"
| "idn_IsNotFound _ = False"

fun IsDuplicateCredential :: "idn_error \<Rightarrow> bool" where
  "IsDuplicateCredential IdnDuplicateCredential = True"
| "IsDuplicateCredential _ = False"

subsection \<open>The state\<close>

record identity =
  is_patLastUsedCoalesceSeconds :: int
  is_users :: "string \<rightharpoonup> User"
  is_credentials :: "string \<rightharpoonup> Credential"
  is_passwordHashes :: "string \<rightharpoonup> string"
  is_passkeyPublicKeys :: "string \<rightharpoonup> string"
  is_activeCredByIdent :: "string \<rightharpoonup> string"
  is_sessions :: "string \<rightharpoonup> Session"
  is_sessionTokenHash :: "string \<rightharpoonup> string"
  is_sessionByTokenHash :: "string \<rightharpoonup> string"
  is_factors :: "string \<rightharpoonup> Factor"
  is_totpSecrets :: "string \<rightharpoonup> string"
  is_webauthnPublicKeys :: "string \<rightharpoonup> string"
  is_recoveryHashes :: "string \<rightharpoonup> string list"
  is_recoveryConsumed :: "string \<rightharpoonup> bool list"
  is_mfaSingleton :: "string \<rightharpoonup> string"
  is_mfaPolicies :: "string \<rightharpoonup> UserMfaPolicy"
  is_pats :: "string \<rightharpoonup> PersonalAccessToken"
  is_patSecretHashes :: "string \<rightharpoonup> string"
  is_patLastUsedPersist :: "string \<rightharpoonup> gotime"

definition NewInMemoryIdentityStore :: identity where
  "NewInMemoryIdentityStore =
     \<lparr>is_patLastUsedCoalesceSeconds = 60, is_users = Map.empty, is_credentials = Map.empty,
      is_passwordHashes = Map.empty, is_passkeyPublicKeys = Map.empty, is_activeCredByIdent = Map.empty,
      is_sessions = Map.empty, is_sessionTokenHash = Map.empty, is_sessionByTokenHash = Map.empty,
      is_factors = Map.empty, is_totpSecrets = Map.empty, is_webauthnPublicKeys = Map.empty,
      is_recoveryHashes = Map.empty, is_recoveryConsumed = Map.empty, is_mfaSingleton = Map.empty,
      is_mfaPolicies = Map.empty, is_pats = Map.empty, is_patSecretHashes = Map.empty,
      is_patLastUsedPersist = Map.empty\<rparr>"

definition identKey :: "CredentialType \<Rightarrow> string \<Rightarrow> string" where
  "identKey t identifier = t @ ''|'' @ identifier"

definition hashToken :: "id_env \<Rightarrow> string \<Rightarrow> string" where
  "hashToken e token = hex_EncodeToString (sha256_Sum256 (ev_wa e) token)"

text \<open>\<open>n\<close> counts the reads of \<open>crypto/rand\<close> in the call.\<close>

definition newOpaqueToken :: "id_env \<Rightarrow> nat \<Rightarrow> string + string" where
  "newOpaqueToken e n = map_sum id RawURLEncoding_EncodeToString (ev_rand e n 32)"

text \<open>\<open>time.Sub\<close> saturates.\<close>

definition time_Sub :: "gotime \<Rightarrow> gotime \<Rightarrow> int" where
  "time_Sub t u = max (- max_int64 - 1) (min max_int64 (t - u))"

text \<open>The key of the index of active credentials, and the zero values of an absent key.\<close>

definition crd_key :: "Credential \<Rightarrow> string" where
  "crd_key c = identKey (crd_Type c) (crd_Identifier c)"

definition zero_text :: "(string \<rightharpoonup> string) \<Rightarrow> string \<Rightarrow> string" where
  "zero_text m k = (case m k of None \<Rightarrow> [] | Some v \<Rightarrow> v)"

definition idn_zero_time :: gotime where
  "idn_zero_time = - 62135596800 * second_ns"

definition zero_Credential :: Credential where
  "zero_Credential = \<lparr>crd_ID = [], crd_UsrID = [], crd_Type = [], crd_Identifier = [], crd_Status = [],
     crd_Replaces = None, crd_CreatedAt = idn_zero_time, crd_UpdatedAt = idn_zero_time,
     crd_PasskeySignCount = 0, crd_PasskeyRPID = [], crd_OIDCIssuer = [], crd_OIDCSubject = []\<rparr>"

definition zero_Session :: Session where
  "zero_Session = \<lparr>ses_ID = [], ses_UsrID = [], ses_CredID = [], ses_CreatedAt = idn_zero_time,
     ses_ExpiresAt = idn_zero_time, ses_RevokedAt = None\<rparr>"

definition zero_Factor :: Factor where
  "zero_Factor = \<lparr>fac_ID = [], fac_UsrID = [], fac_Type = [], fac_Identifier = [], fac_Status = [],
     fac_Replaces = None, fac_CreatedAt = idn_zero_time, fac_UpdatedAt = idn_zero_time, fac_RpID = [],
     fac_SignCount = 0, fac_Remaining = 0\<rparr>"

end
