(* ===== verification/IdentityUsers.thy ===== *)
theory IdentityUsers
  imports IdentityTypes
begin

text \<open>
  \<open>packages/identity/inmem.go\<close>, users and the cascades of their transitions.  A method takes the
  environment \<open>e\<close> of the call and the state; \<open>ev_clock e n\<close> is the n-th reading of the clock, \<open>ks\<close> and
  \<open>cs\<close> are the orders in which the runtime visits the maps a method ranges over.
\<close>

definition CreateUser :: "id_env \<Rightarrow> string option \<Rightarrow> identity \<Rightarrow> (idn_error + User) \<times> identity" where
  "CreateUser e displayName s =
     (case Generate (ev_uuid e) 0 ''usr'' of
        Inl err \<Rightarrow> (Inl (IdnGenerate err), s)
      | Inr uid \<Rightarrow>
          let now = ev_clock e 0;
              u = \<lparr>usr_ID = uid, usr_Status = StatusActive, usr_CreatedAt = now, usr_UpdatedAt = now,
                   usr_DisplayName = displayName\<rparr>
          in (Inr u, s\<lparr>is_users := (is_users s)(uid \<mapsto> u)\<rparr>))"

definition GetUser :: "string \<Rightarrow> identity \<Rightarrow> idn_error + User" where
  "GetUser usrID s = (case is_users s usrID of None \<Rightarrow> Inl (IdnNotFound usrID) | Some u \<Rightarrow> Inr u)"

definition UpdateUser :: "id_env \<Rightarrow> string \<Rightarrow> UpdateUserInput \<Rightarrow> identity \<Rightarrow> (idn_error + User) \<times> identity" where
  "UpdateUser e usrID i s =
     (case is_users s usrID of
        None \<Rightarrow> (Inl (IdnNotFound usrID), s)
      | Some u \<Rightarrow>
          if usr_Status u = StatusRevoked then (Inl IdnAlreadyTerminal, s)
          else
            let u1 = (if uui_ClearDisplayName i then u\<lparr>usr_DisplayName := None\<rparr>
                      else case uui_DisplayName i of None \<Rightarrow> u | Some n \<Rightarrow> u\<lparr>usr_DisplayName := Some n\<rparr>);
                u2 = u1\<lparr>usr_UpdatedAt := ev_clock e 0\<rparr>
            in (Inr u2, s\<lparr>is_users := (is_users s)(usrID \<mapsto> u2)\<rparr>))"

definition user_before :: "User \<Rightarrow> User \<Rightarrow> bool" where
  "user_before a b \<longleftrightarrow> usr_CreatedAt a < usr_CreatedAt b \<or>
     (usr_CreatedAt a = usr_CreatedAt b \<and> usr_ID a < usr_ID b)"

definition sortUsersStable :: "User list \<Rightarrow> User list" where
  "sortUsersStable us = go_sort user_before us"

definition user_selects ::
  "id_env \<Rightarrow> ListUsersOptions \<Rightarrow> Credential list \<Rightarrow> User \<Rightarrow> bool" where
  "user_selects e opts creds u \<longleftrightarrow>
     \<not> (case luo_Status opts of None \<Rightarrow> False | Some st \<Rightarrow> usr_Status u \<noteq> st) \<and>
     (let queryLower = (case luo_Query opts of None \<Rightarrow> [] | Some q \<Rightarrow> ev_lower e q)
      in queryLower \<noteq> [] \<longrightarrow>
         list_ex (\<lambda>c. \<not> (crd_UsrID c \<noteq> usr_ID u \<or> crd_Status c \<noteq> StatusActive) \<and>
                      Contains (ev_lower e (crd_Identifier c)) queryLower) creds)"

definition ListUsers ::
  "id_env \<Rightarrow> string list \<Rightarrow> string list \<Rightarrow> ListUsersOptions \<Rightarrow> identity \<Rightarrow> User page option" where
  "ListUsers e ks cs opts s =
     (let limit = page_limit (luo_Limit opts);
          matched = filter (user_selects e opts (go_range (is_credentials s) cs)) (go_range (is_users s) ks)
      in paginate usr_ID (luo_Cursor opts) limit (sortUsersStable matched))"

subsection \<open>Cascades\<close>

text \<open>What the cascades, \<open>RefreshSession\<close> and \<open>RevokeSession\<close> write when they end a session.\<close>

definition end_session :: "gotime \<Rightarrow> string \<Rightarrow> Session \<Rightarrow> identity \<Rightarrow> identity" where
  "end_session now sid ss s =
     (let s1 = s\<lparr>is_sessions := (is_sessions s)(sid \<mapsto> ss\<lparr>ses_RevokedAt := Some now\<rparr>)\<rparr>
      in case is_sessionTokenHash s sid of
           None \<Rightarrow> s1
         | Some th \<Rightarrow> s1\<lparr>is_sessionTokenHash := (is_sessionTokenHash s)(sid := None),
                        is_sessionByTokenHash := (is_sessionByTokenHash s)(th := None)\<rparr>)"

fun cascade_sessions :: "(Session \<Rightarrow> bool) \<Rightarrow> gotime \<Rightarrow> string list \<Rightarrow> identity \<Rightarrow> identity" where
  "cascade_sessions hit now [] s = s"
| "cascade_sessions hit now (sid # ks) s =
     (case is_sessions s sid of
        None \<Rightarrow> cascade_sessions hit now ks s
      | Some ss \<Rightarrow>
          if hit ss \<and> ses_RevokedAt ss = None
          then cascade_sessions hit now ks (end_session now sid ss s)
          else cascade_sessions hit now ks s)"

definition cascadeRevokeSessionsForUser :: "gotime \<Rightarrow> string list \<Rightarrow> string \<Rightarrow> identity \<Rightarrow> identity" where
  "cascadeRevokeSessionsForUser now ks usrID s = cascade_sessions (\<lambda>ss. ses_UsrID ss = usrID) now ks s"

definition cascadeRevokeSessionsForCredential :: "gotime \<Rightarrow> string list \<Rightarrow> string \<Rightarrow> identity \<Rightarrow> identity" where
  "cascadeRevokeSessionsForCredential now ks credID s =
     cascade_sessions (\<lambda>ss. ses_CredID ss = credID) now ks s"

fun cascade_credentials :: "clock \<Rightarrow> string \<Rightarrow> nat \<Rightarrow> string list \<Rightarrow> identity \<Rightarrow> identity" where
  "cascade_credentials clk usrID n [] s = s"
| "cascade_credentials clk usrID n (cid # cs) s =
     (case is_credentials s cid of
        None \<Rightarrow> cascade_credentials clk usrID n cs s
      | Some c \<Rightarrow>
          if crd_UsrID c = usrID \<and> crd_Status c = StatusActive
          then cascade_credentials clk usrID (Suc n) cs
                 (s\<lparr>is_credentials := (is_credentials s)(cid \<mapsto> c\<lparr>crd_Status := StatusRevoked, crd_UpdatedAt := clk n\<rparr>),
                    is_activeCredByIdent := (is_activeCredByIdent s)(identKey (crd_Type c) (crd_Identifier c) := None)\<rparr>)
          else cascade_credentials clk usrID n cs s)"

definition transitionUser ::
  "id_env \<Rightarrow> string list \<Rightarrow> string list \<Rightarrow> string \<Rightarrow> IdStatus \<Rightarrow> identity \<Rightarrow> (idn_error + User) \<times> identity"
where
  "transitionUser e ks cs usrID to s =
     (case is_users s usrID of
        None \<Rightarrow> (Inl (IdnNotFound usrID), s)
      | Some u \<Rightarrow>
          if usr_Status u = StatusRevoked then (Inl IdnAlreadyTerminal, s)
          else if usr_Status u = to then (Inr u, s)
          else if to = StatusActive \<and> usr_Status u \<noteq> StatusSuspended
          then (Inl (IdnPrecondition ''invalid_transition''), s)
          else
            let u1 = usr_WithStatus u to (ev_clock e 0);
                s1 = s\<lparr>is_users := (is_users s)(usrID \<mapsto> u1)\<rparr>;
                s2 = (if to = StatusSuspended \<or> to = StatusRevoked
                      then cascadeRevokeSessionsForUser (ev_clock e 1) ks usrID s1 else s1);
                s3 = (if to = StatusRevoked then cascade_credentials (ev_clock e) usrID 2 cs s2 else s2)
            in (Inr u1, s3))"

definition SuspendUser :: "id_env \<Rightarrow> string list \<Rightarrow> string \<Rightarrow> identity \<Rightarrow> (idn_error + User) \<times> identity" where
  "SuspendUser e ks usrID s = transitionUser e ks [] usrID StatusSuspended s"

definition ReinstateUser :: "id_env \<Rightarrow> string \<Rightarrow> identity \<Rightarrow> (idn_error + User) \<times> identity" where
  "ReinstateUser e usrID s = transitionUser e [] [] usrID StatusActive s"

definition RevokeUser ::
  "id_env \<Rightarrow> string list \<Rightarrow> string list \<Rightarrow> string \<Rightarrow> identity \<Rightarrow> (idn_error + User) \<times> identity" where
  "RevokeUser e ks cs usrID s = transitionUser e ks cs usrID StatusRevoked s"

end
