(* ===== verification/IdentityCredentials.thy ===== *)
theory IdentityCredentials
  imports IdentityUsers
begin

text \<open>
  \<open>packages/identity/inmem.go\<close>, credentials: creation, rotation (the old credential is revoked and a new
  one takes its place), suspension, reinstatement, revocation, and the check of a password.  The two halves of
  \<open>VerifyPassword\<close>, before and after the lock is released, only read the store.
\<close>

definition new_credential :: "string \<Rightarrow> string \<Rightarrow> CredentialType \<Rightarrow> string \<Rightarrow> gotime \<Rightarrow> Credential" where
  "new_credential cid usrID typ ident now =
     \<lparr>crd_ID = cid, crd_UsrID = usrID, crd_Type = typ, crd_Identifier = ident, crd_Status = StatusActive,
      crd_Replaces = None, crd_CreatedAt = now, crd_UpdatedAt = now, crd_PasskeySignCount = 0,
      crd_PasskeyRPID = [], crd_OIDCIssuer = [], crd_OIDCSubject = []\<rparr>"

text \<open>The entries of a new credential: the record and the index of active credentials.\<close>

definition put_credential :: "Credential \<Rightarrow> identity \<Rightarrow> identity" where
  "put_credential c s =
     s\<lparr>is_credentials := (is_credentials s)(crd_ID c \<mapsto> c),
       is_activeCredByIdent := (is_activeCredByIdent s)(identKey (crd_Type c) (crd_Identifier c) \<mapsto> crd_ID c)\<rparr>"

definition CreatePasswordCredential ::
  "id_env \<Rightarrow> string \<Rightarrow> string \<Rightarrow> string \<Rightarrow> identity \<Rightarrow> (idn_error + Credential) \<times> identity" where
  "CreatePasswordCredential e usrID ident password s =
     (if is_users s usrID = None then (Inl (IdnNotFound usrID), s)
      else if is_activeCredByIdent s (identKey CredentialTypePassword ident) \<noteq> None
      then (Inl IdnDuplicateCredential, s)
      else case HashPassword (ev_idkey e) (ev_rand e 0 (int argon2idSaltBytes)) password of
        Inl err \<Rightarrow> (Inl (IdnHash err), s)
      | Inr hash \<Rightarrow>
          (case Generate (ev_uuid e) 0 ''cred'' of
             Inl err \<Rightarrow> (Inl (IdnGenerate err), s)
           | Inr cid \<Rightarrow>
               let c = new_credential cid usrID CredentialTypePassword ident (ev_clock e 0)
               in (Inr c, put_credential c (s\<lparr>is_passwordHashes := (is_passwordHashes s)(cid \<mapsto> hash)\<rparr>))))"

definition CreatePasskeyCredential ::
  "id_env \<Rightarrow> string \<Rightarrow> string \<Rightarrow> string \<Rightarrow> int \<Rightarrow> string \<Rightarrow> identity \<Rightarrow> (idn_error + Credential) \<times> identity" where
  "CreatePasskeyCredential e usrID ident publicKey signCount rpID s =
     (if is_users s usrID = None then (Inl (IdnNotFound usrID), s)
      else if is_activeCredByIdent s (identKey CredentialTypePasskey ident) \<noteq> None
      then (Inl IdnDuplicateCredential, s)
      else case Generate (ev_uuid e) 0 ''cred'' of
             Inl err \<Rightarrow> (Inl (IdnGenerate err), s)
           | Inr cid \<Rightarrow>
               let c = (new_credential cid usrID CredentialTypePasskey ident (ev_clock e 0))
                     \<lparr>crd_PasskeySignCount := signCount, crd_PasskeyRPID := rpID\<rparr>
               in (Inr c, put_credential c (s\<lparr>is_passkeyPublicKeys := (is_passkeyPublicKeys s)(cid \<mapsto> publicKey)\<rparr>)))"

definition CreateOIDCCredential ::
  "id_env \<Rightarrow> string \<Rightarrow> string \<Rightarrow> string \<Rightarrow> string \<Rightarrow> identity \<Rightarrow> (idn_error + Credential) \<times> identity" where
  "CreateOIDCCredential e usrID ident issuer sub s =
     (if is_users s usrID = None then (Inl (IdnNotFound usrID), s)
      else if is_activeCredByIdent s (identKey CredentialTypeOIDC ident) \<noteq> None
      then (Inl IdnDuplicateCredential, s)
      else case Generate (ev_uuid e) 0 ''cred'' of
             Inl err \<Rightarrow> (Inl (IdnGenerate err), s)
           | Inr cid \<Rightarrow>
               let c = (new_credential cid usrID CredentialTypeOIDC ident (ev_clock e 0))
                     \<lparr>crd_OIDCIssuer := issuer, crd_OIDCSubject := sub\<rparr>
               in (Inr c, put_credential c s))"

definition GetCredential :: "string \<Rightarrow> identity \<Rightarrow> idn_error + Credential" where
  "GetCredential credID s =
     (case is_credentials s credID of None \<Rightarrow> Inl (IdnNotFound credID) | Some c \<Rightarrow> Inr c)"

definition ListCredentialsForUser :: "string list \<Rightarrow> string \<Rightarrow> identity \<Rightarrow> idn_error + Credential list" where
  "ListCredentialsForUser cs usrID s =
     (if is_users s usrID = None then Inl (IdnNotFound usrID)
      else Inr (filter (\<lambda>c. crd_UsrID c = usrID) (go_range (is_credentials s) cs)))"

definition zero_credential_of :: "identity \<Rightarrow> string \<Rightarrow> Credential" where
  "zero_credential_of s cid = (case is_credentials s cid of None \<Rightarrow> zero_Credential | Some c \<Rightarrow> c)"

definition FindCredentialByIdentifier :: "CredentialType \<Rightarrow> string \<Rightarrow> identity \<Rightarrow> Credential option" where
  "FindCredentialByIdentifier t ident s =
     map_option (zero_credential_of s) (is_activeCredByIdent s (identKey t ident))"

subsection \<open>Rotation\<close>

text \<open>\<open>mutate\<close> is the closure a rotation passes: it builds the new credential and may write its secret into
  the store.\<close>

definition rotate ::
  "id_env \<Rightarrow> string list \<Rightarrow> string \<Rightarrow> (gotime \<Rightarrow> Credential \<Rightarrow> identity \<Rightarrow> (idn_error + Credential) \<times> identity) \<Rightarrow>
   identity \<Rightarrow> (idn_error + Credential) \<times> identity"
where
  "rotate e ks credID mutate s =
     (case is_credentials s credID of
        None \<Rightarrow> (Inl (IdnNotFound credID), s)
      | Some old \<Rightarrow>
          if crd_Status old \<noteq> StatusActive then (Inl IdnCredentialNotActive, s)
          else
            let now = ev_clock e 0
            in case mutate now old s of
                 (Inl err, s1) \<Rightarrow> (Inl err, s1)
               | (Inr newCred0, s1) \<Rightarrow>
                   let newCred = newCred0\<lparr>crd_Replaces := Some credID\<rparr>;
                       s2 = s1\<lparr>is_credentials := (is_credentials s1)
                                 (credID \<mapsto> old\<lparr>crd_Status := StatusRevoked, crd_UpdatedAt := now\<rparr>),
                               is_activeCredByIdent := (is_activeCredByIdent s1)
                                 (identKey (crd_Type old) (crd_Identifier old) := None)\<rparr>;
                       s3 = put_credential newCred s2
                   in (Inr newCred, cascadeRevokeSessionsForCredential (ev_clock e 1) ks credID s3))"

definition mutate_password ::
  "id_env \<Rightarrow> string \<Rightarrow> gotime \<Rightarrow> Credential \<Rightarrow> identity \<Rightarrow> (idn_error + Credential) \<times> identity" where
  "mutate_password e newPassword now old s =
     (if crd_Type old \<noteq> CredentialTypePassword then (Inl IdnCredentialTypeMismatch, s)
      else case HashPassword (ev_idkey e) (ev_rand e 0 (int argon2idSaltBytes)) newPassword of
        Inl err \<Rightarrow> (Inl (IdnHash err), s)
      | Inr hash \<Rightarrow>
          (case Generate (ev_uuid e) 0 ''cred'' of
             Inl err \<Rightarrow> (Inl (IdnGenerate err), s)
           | Inr cid \<Rightarrow>
               (Inr (new_credential cid (crd_UsrID old) CredentialTypePassword (crd_Identifier old) now),
                s\<lparr>is_passwordHashes := (is_passwordHashes s)(cid \<mapsto> hash)\<rparr>)))"

definition mutate_passkey ::
  "id_env \<Rightarrow> string \<Rightarrow> int \<Rightarrow> string \<Rightarrow> gotime \<Rightarrow> Credential \<Rightarrow> identity \<Rightarrow> (idn_error + Credential) \<times> identity" where
  "mutate_passkey e publicKey signCount rpID now old s =
     (if crd_Type old \<noteq> CredentialTypePasskey then (Inl IdnCredentialTypeMismatch, s)
      else case Generate (ev_uuid e) 0 ''cred'' of
             Inl err \<Rightarrow> (Inl (IdnGenerate err), s)
           | Inr cid \<Rightarrow>
               (Inr ((new_credential cid (crd_UsrID old) CredentialTypePasskey (crd_Identifier old) now)
                       \<lparr>crd_PasskeySignCount := signCount, crd_PasskeyRPID := rpID\<rparr>),
                s\<lparr>is_passkeyPublicKeys := (is_passkeyPublicKeys s)(cid \<mapsto> publicKey)\<rparr>))"

definition mutate_oidc ::
  "id_env \<Rightarrow> string \<Rightarrow> string \<Rightarrow> gotime \<Rightarrow> Credential \<Rightarrow> identity \<Rightarrow> (idn_error + Credential) \<times> identity" where
  "mutate_oidc e issuer sub now old s =
     (if crd_Type old \<noteq> CredentialTypeOIDC then (Inl IdnCredentialTypeMismatch, s)
      else case Generate (ev_uuid e) 0 ''cred'' of
             Inl err \<Rightarrow> (Inl (IdnGenerate err), s)
           | Inr cid \<Rightarrow>
               (Inr ((new_credential cid (crd_UsrID old) CredentialTypeOIDC (crd_Identifier old) now)
                       \<lparr>crd_OIDCIssuer := issuer, crd_OIDCSubject := sub\<rparr>), s))"

definition RotatePassword ::
  "id_env \<Rightarrow> string list \<Rightarrow> string \<Rightarrow> string \<Rightarrow> identity \<Rightarrow> (idn_error + Credential) \<times> identity" where
  "RotatePassword e ks credID newPassword s = rotate e ks credID (mutate_password e newPassword) s"

definition RotatePasskey ::
  "id_env \<Rightarrow> string list \<Rightarrow> string \<Rightarrow> string \<Rightarrow> int \<Rightarrow> string \<Rightarrow> identity \<Rightarrow> (idn_error + Credential) \<times> identity" where
  "RotatePasskey e ks credID publicKey signCount rpID s =
     rotate e ks credID (mutate_passkey e publicKey signCount rpID) s"

definition RotateOIDC ::
  "id_env \<Rightarrow> string list \<Rightarrow> string \<Rightarrow> string \<Rightarrow> string \<Rightarrow> identity \<Rightarrow> (idn_error + Credential) \<times> identity" where
  "RotateOIDC e ks credID issuer sub s = rotate e ks credID (mutate_oidc e issuer sub) s"

subsection \<open>Transitions\<close>

definition transitionCredential ::
  "id_env \<Rightarrow> string list \<Rightarrow> string \<Rightarrow> IdStatus \<Rightarrow> identity \<Rightarrow> (idn_error + Credential) \<times> identity" where
  "transitionCredential e ks credID to s =
     (case is_credentials s credID of
        None \<Rightarrow> (Inl (IdnNotFound credID), s)
      | Some c \<Rightarrow>
          if crd_Status c = StatusRevoked then (Inl IdnAlreadyTerminal, s)
          else if crd_Status c = to then (Inr c, s)
          else
            let k = identKey (crd_Type c) (crd_Identifier c);
                c1 = c\<lparr>crd_Status := to, crd_UpdatedAt := ev_clock e 0\<rparr>;
                finish = (\<lambda>idx.
                  let s1 = s\<lparr>is_activeCredByIdent := idx, is_credentials := (is_credentials s)(credID \<mapsto> c1)\<rparr>
                  in (Inr c1, if to = StatusSuspended \<or> to = StatusRevoked
                              then cascadeRevokeSessionsForCredential (ev_clock e 1) ks credID s1 else s1))
            in if to = StatusActive
               then if crd_Status c \<noteq> StatusSuspended then (Inl (IdnPrecondition ''invalid_transition''), s)
                    else if is_activeCredByIdent s k \<noteq> None then (Inl IdnDuplicateCredential, s)
                    else finish ((is_activeCredByIdent s)(k \<mapsto> credID))
               else finish ((is_activeCredByIdent s)(k := None)))"

definition SuspendCredential :: "id_env \<Rightarrow> string list \<Rightarrow> string \<Rightarrow> identity \<Rightarrow> (idn_error + Credential) \<times> identity" where
  "SuspendCredential e ks credID s = transitionCredential e ks credID StatusSuspended s"

definition ReinstateCredential :: "id_env \<Rightarrow> string \<Rightarrow> identity \<Rightarrow> (idn_error + Credential) \<times> identity" where
  "ReinstateCredential e credID s = transitionCredential e [] credID StatusActive s"

definition RevokeCredential :: "id_env \<Rightarrow> string list \<Rightarrow> string \<Rightarrow> identity \<Rightarrow> (idn_error + Credential) \<times> identity" where
  "RevokeCredential e ks credID s = transitionCredential e ks credID StatusRevoked s"

definition VerifyPassword :: "id_env \<Rightarrow> string \<Rightarrow> string \<Rightarrow> identity \<Rightarrow> idn_error + VerifiedCredential" where
  "VerifyPassword e ident password s =
     (case is_activeCredByIdent s (identKey CredentialTypePassword ident) of
        None \<Rightarrow> Inl IdnInvalidCredential
      | Some credID \<Rightarrow>
          let hash = zero_text (is_passwordHashes s) credID;
              cred = zero_credential_of s credID
          in case VerifyPasswordHash (ev_idkey e) hash password of
               Inl err \<Rightarrow> Inl (IdnHash err)
             | Inr ok \<Rightarrow>
                 if \<not> ok then Inl IdnInvalidCredential
                 else Inr \<lparr>vc_UsrID = crd_UsrID cred, vc_CredID = credID,
                           vc_MfaRequired = (case is_mfaPolicies s (crd_UsrID cred) of
                              None \<Rightarrow> False | Some policy \<Rightarrow> IsActiveNow policy (ev_clock e 0))\<rparr>)"

end
