(* ===== verification/IdentitySessions.thy ===== *)
theory IdentitySessions
  imports IdentityCredentials
begin

text \<open>
  \<open>packages/identity/inmem.go\<close>, sessions.  A session is found by the digest of its bearer token, which
  is entered when the session is made and taken out when it ends.
\<close>

text \<open>The entries of a new session: the record and the two maps of token digests.\<close>

definition put_session :: "string \<Rightarrow> Session \<Rightarrow> identity \<Rightarrow> identity" where
  "put_session th ss s =
     s\<lparr>is_sessions := (is_sessions s)(ses_ID ss \<mapsto> ss),
       is_sessionTokenHash := (is_sessionTokenHash s)(ses_ID ss \<mapsto> th),
       is_sessionByTokenHash := (is_sessionByTokenHash s)(th \<mapsto> ses_ID ss)\<rparr>"

definition CreateSession ::
  "id_env \<Rightarrow> string \<Rightarrow> string \<Rightarrow> int \<Rightarrow> identity \<Rightarrow> (idn_error + SessionWithToken) \<times> identity" where
  "CreateSession e usrID credID ttlSeconds s =
     (if is_users s usrID = None then (Inl (IdnNotFound usrID), s)
      else case is_credentials s credID of
        None \<Rightarrow> (Inl (IdnNotFound credID), s)
      | Some c \<Rightarrow>
          if crd_UsrID c \<noteq> usrID then (Inl (IdnPrecondition ''cred_user_mismatch''), s)
          else if crd_Status c \<noteq> StatusActive then (Inl IdnCredentialNotActive, s)
          else case Generate (ev_uuid e) 0 ''ses'' of
            Inl err \<Rightarrow> (Inl (IdnGenerate err), s)
          | Inr sid \<Rightarrow>
              (case newOpaqueToken e 0 of
                 Inl err \<Rightarrow> (Inl (IdnRandom err), s)
               | Inr token \<Rightarrow>
                   let now = ev_clock e 0;
                       ses = \<lparr>ses_ID = sid, ses_UsrID = usrID, ses_CredID = credID, ses_CreatedAt = now,
                              ses_ExpiresAt = now + wrap64 (ttlSeconds * second_ns), ses_RevokedAt = None\<rparr>
                   in (Inr \<lparr>swt_Session = ses, swt_Token = token\<rparr>, put_session (hashToken e token) ses s)))"

definition GetSession :: "string \<Rightarrow> identity \<Rightarrow> idn_error + Session" where
  "GetSession sesID s =
     (case is_sessions s sesID of None \<Rightarrow> Inl (IdnNotFound sesID) | Some ss \<Rightarrow> Inr ss)"

definition session_before :: "Session \<Rightarrow> Session \<Rightarrow> bool" where
  "session_before a b \<longleftrightarrow> ses_CreatedAt a < ses_CreatedAt b \<or>
     (ses_CreatedAt a = ses_CreatedAt b \<and> ses_ID a < ses_ID b)"

definition ListSessionsForUser ::
  "string list \<Rightarrow> string \<Rightarrow> ListSessionsOptions \<Rightarrow> identity \<Rightarrow> (idn_error + Session page) option" where
  "ListSessionsForUser ks usrID opts s =
     (if is_users s usrID = None then Some (Inl (IdnNotFound usrID))
      else let limit = page_limit (lso_Limit opts);
               matched = filter (\<lambda>ss. ses_UsrID ss = usrID) (go_range (is_sessions s) ks)
           in map_option Inr (paginate ses_ID (lso_Cursor opts) limit (go_sort session_before matched)))"

definition VerifySessionToken :: "id_env \<Rightarrow> string \<Rightarrow> identity \<Rightarrow> idn_error + Session" where
  "VerifySessionToken e token s =
     (case is_sessionByTokenHash s (hashToken e token) of
        None \<Rightarrow> Inl IdnInvalidToken
      | Some sid \<Rightarrow>
          let ss = (case is_sessions s sid of None \<Rightarrow> zero_Session | Some x \<Rightarrow> x)
          in if ses_RevokedAt ss \<noteq> None then Inl IdnSessionExpired
             else if \<not> ev_clock e 0 < ses_ExpiresAt ss then Inl IdnSessionExpired
             else Inr ss)"

text \<open>The old session has ended before the generator of identifiers and the random reader can fail.\<close>

definition RefreshSession :: "id_env \<Rightarrow> string \<Rightarrow> identity \<Rightarrow> (idn_error + SessionWithToken) \<times> identity" where
  "RefreshSession e sesID s =
     (case is_sessions s sesID of
        None \<Rightarrow> (Inl (IdnNotFound sesID), s)
      | Some old \<Rightarrow>
          if ses_RevokedAt old \<noteq> None then (Inl IdnSessionExpired, s)
          else if \<not> ev_clock e 0 < ses_ExpiresAt old then (Inl IdnSessionExpired, s)
          else
            let now = ev_clock e 1;
                s1 = end_session now sesID old s;
                ttl = time_Sub (ses_ExpiresAt old) (ses_CreatedAt old)
            in case Generate (ev_uuid e) 0 ''ses'' of
                 Inl err \<Rightarrow> (Inl (IdnGenerate err), s1)
               | Inr newID \<Rightarrow>
                   (case newOpaqueToken e 0 of
                      Inl err \<Rightarrow> (Inl (IdnRandom err), s1)
                    | Inr token \<Rightarrow>
                        let ns = \<lparr>ses_ID = newID, ses_UsrID = ses_UsrID old, ses_CredID = ses_CredID old,
                                  ses_CreatedAt = now, ses_ExpiresAt = now + ttl, ses_RevokedAt = None\<rparr>
                        in (Inr \<lparr>swt_Session = ns, swt_Token = token\<rparr>, put_session (hashToken e token) ns s1)))"

definition RevokeSession :: "id_env \<Rightarrow> string \<Rightarrow> identity \<Rightarrow> (idn_error + Session) \<times> identity" where
  "RevokeSession e sesID s =
     (case is_sessions s sesID of
        None \<Rightarrow> (Inl (IdnNotFound sesID), s)
      | Some ss \<Rightarrow>
          if ses_RevokedAt ss \<noteq> None then (Inr ss, s)
          else (Inr (ss\<lparr>ses_RevokedAt := Some (ev_clock e 0)\<rparr>), end_session (ev_clock e 0) sesID ss s))"

end
