(* ===== verification/IdentityMfa.thy ===== *)
theory IdentityMfa
  imports IdentitySessions
begin

text \<open>
  \<open>packages/identity/inmem.go\<close>, factors, proofs and policies.  An outer \<open>None\<close> is a run-time panic or,
  for the generator of recovery codes, a loop that never ends.  The methods on WebAuthn factors release the
  lock while they verify the assertion, so each is given as the part before (\<open>_begin\<close>), the part after
  (\<open>_commit\<close>) and the undisturbed call that joins them.
\<close>

definition EnrollTotpFactor ::
  "id_env \<Rightarrow> string \<Rightarrow> string \<Rightarrow> TotpComputeOptions \<Rightarrow> identity \<Rightarrow> (idn_error + TotpEnrollmentResult) \<times> identity" where
  "EnrollTotpFactor e usrID label opts s =
     (if is_users s usrID = None then (Inl (IdnNotFound usrID), s)
      else case Generate (ev_uuid e) 0 ''mfa'' of
        Inl err \<Rightarrow> (Inl (IdnGenerate err), s)
      | Inr mfaID \<Rightarrow>
          (case GenerateTotpSecret (ev_rand e 0) 20 of
             Inl err \<Rightarrow> (Inl (IdnRandom err), s)
           | Inr secret \<Rightarrow>
               let now = ev_clock e 0;
                   f = \<lparr>fac_ID = mfaID, fac_UsrID = usrID, fac_Type = FactorTypeTotp, fac_Identifier = label,
                        fac_Status = FactorStatusPending, fac_Replaces = None, fac_CreatedAt = now,
                        fac_UpdatedAt = now, fac_RpID = [], fac_SignCount = 0, fac_Remaining = 0\<rparr>
               in (Inr \<lparr>ter_Factor = f, ter_SecretB32 = TrimRight (CHR ''='') (base64SecretB32 secret),
                        ter_OtpauthURI = TotpOtpauthURI (ev_text e) secret label ''Flametrench'' opts\<rparr>,
                   s\<lparr>is_factors := (is_factors s)(mfaID \<mapsto> f),
                     is_totpSecrets := (is_totpSecrets s)(mfaID \<mapsto> secret)\<rparr>)))"

definition EnrollWebAuthnFactor ::
  "id_env \<Rightarrow> string \<Rightarrow> string \<Rightarrow> string \<Rightarrow> int \<Rightarrow> string \<Rightarrow> identity \<Rightarrow>
   (idn_error + WebAuthnEnrollmentResult) \<times> identity" where
  "EnrollWebAuthnFactor e usrID credentialID publicKey signCount rpID s =
     (if is_users s usrID = None then (Inl (IdnNotFound usrID), s)
      else case Generate (ev_uuid e) 0 ''mfa'' of
        Inl err \<Rightarrow> (Inl (IdnGenerate err), s)
      | Inr mfaID \<Rightarrow>
          let now = ev_clock e 0;
              f = \<lparr>fac_ID = mfaID, fac_UsrID = usrID, fac_Type = FactorTypeWebAuthn,
                   fac_Identifier = credentialID, fac_Status = FactorStatusPending, fac_Replaces = None,
                   fac_CreatedAt = now, fac_UpdatedAt = now, fac_RpID = rpID, fac_SignCount = signCount,
                   fac_Remaining = 0\<rparr>
          in (Inr \<lparr>wer_Factor = f\<rparr>,
              s\<lparr>is_factors := (is_factors s)(mfaID \<mapsto> f),
                is_webauthnPublicKeys := (is_webauthnPublicKeys s)(mfaID \<mapsto> publicKey)\<rparr>))"

fun hash_codes :: "id_env \<Rightarrow> nat \<Rightarrow> string list \<Rightarrow> hash_error + string list" where
  "hash_codes e i [] = Inr []"
| "hash_codes e i (c # cs) =
     (case HashPassword (ev_idkey e) (ev_rand e i (int argon2idSaltBytes)) c of
        Inl err \<Rightarrow> Inl err
      | Inr h \<Rightarrow> (case hash_codes e (Suc i) cs of Inl err \<Rightarrow> Inl err | Inr hs \<Rightarrow> Inr (h # hs)))"

definition EnrollRecoveryFactor ::
  "id_env \<Rightarrow> string \<Rightarrow> identity \<Rightarrow> ((idn_error + RecoveryEnrollmentResult) \<times> identity) option" where
  "EnrollRecoveryFactor e usrID s =
     (if is_users s usrID = None then Some (Inl (IdnNotFound usrID), s)
      else case GenerateRecoveryCodes (ev_bytes e) of
        None \<Rightarrow> None
      | Some (Inl err) \<Rightarrow> Some (Inl (IdnRandom err), s)
      | Some (Inr codes) \<Rightarrow>
          (case hash_codes e 0 codes of
             Inl err \<Rightarrow> Some (Inl (IdnHash err), s)
           | Inr hashes \<Rightarrow>
               (case Generate (ev_uuid e) 0 ''mfa'' of
                  Inl err \<Rightarrow> Some (Inl (IdnGenerate err), s)
                | Inr mfaID \<Rightarrow>
                    let now = ev_clock e 0;
                        f = \<lparr>fac_ID = mfaID, fac_UsrID = usrID, fac_Type = FactorTypeRecovery,
                             fac_Identifier = [], fac_Status = FactorStatusActive, fac_Replaces = None,
                             fac_CreatedAt = now, fac_UpdatedAt = now, fac_RpID = [], fac_SignCount = 0,
                             fac_Remaining = int (length codes)\<rparr>
                    in Some (Inr \<lparr>rer_Factor = f, rer_Codes = codes\<rparr>,
                         s\<lparr>is_factors := (is_factors s)(mfaID \<mapsto> f),
                           is_recoveryHashes := (is_recoveryHashes s)(mfaID \<mapsto> hashes),
                           is_recoveryConsumed := (is_recoveryConsumed s)(mfaID \<mapsto> replicate (length codes) False)\<rparr>))))"

subsection \<open>Confirmation\<close>

definition singleton_key :: "string \<Rightarrow> string \<Rightarrow> string" where
  "singleton_key usrID typ = usrID @ ''|'' @ typ"

definition unix_seconds :: "gotime \<Rightarrow> int" where
  "unix_seconds t = t div second_ns"

definition ConfirmTotpFactor ::
  "id_env \<Rightarrow> string \<Rightarrow> string \<Rightarrow> identity \<Rightarrow> ((idn_error + Factor) \<times> identity) option" where
  "ConfirmTotpFactor e mfaID code s =
     (case is_factors s mfaID of
        None \<Rightarrow> Some (Inl (IdnNotFound mfaID), s)
      | Some f \<Rightarrow>
          if fac_Type f \<noteq> FactorTypeTotp \<or> fac_Status f \<noteq> FactorStatusPending
          then Some (Inl (IdnPrecondition ''invalid_transition''), s)
          else case TotpVerify (ev_hmac e) (zero_text (is_totpSecrets s) mfaID) code
                      (unix_seconds (ev_clock e 0)) 1 totp_zero of
            None \<Rightarrow> None
          | Some (Inl err) \<Rightarrow> Some (Inl (IdnTotp err), s)
          | Some (Inr ok2) \<Rightarrow>
              if \<not> ok2 then Some (Inl IdnInvalidCredential, s)
              else let f1 = f\<lparr>fac_Status := FactorStatusActive, fac_UpdatedAt := ev_clock e 1\<rparr>
                   in Some (Inr f1, s\<lparr>is_factors := (is_factors s)(mfaID \<mapsto> f1),
                        is_mfaSingleton := (is_mfaSingleton s)(singleton_key (fac_UsrID f) ''totp'' \<mapsto> mfaID)\<rparr>))"

definition zero_factor_of :: "identity \<Rightarrow> string \<Rightarrow> Factor" where
  "zero_factor_of s mfaID = (case is_factors s mfaID of None \<Rightarrow> zero_Factor | Some f \<Rightarrow> f)"

definition assertion_options :: "string \<Rightarrow> Factor \<Rightarrow> WebAuthnProof \<Rightarrow> WebAuthnVerifyOptions" where
  "assertion_options publicKey f proof1 =
     \<lparr>wo_CosePublicKey = publicKey, wo_StoredSignCount = fac_SignCount f, wo_StoredRpID = fac_RpID f,
      wo_ExpectedChallenge = wp_ExpectedChallenge proof1, wo_ExpectedOrigin = wp_ExpectedOrigin proof1,
      wo_AuthenticatorData = wp_AuthenticatorData proof1, wo_ClientDataJSON = wp_ClientDataJSON proof1,
      wo_Signature = wp_Signature proof1, wo_RequireUserVerified = True, wo_RequireUserPresent = True\<rparr>"

definition ConfirmWebAuthn_begin :: "string \<Rightarrow> WebAuthnProof \<Rightarrow> identity \<Rightarrow> idn_error + WebAuthnVerifyOptions" where
  "ConfirmWebAuthn_begin mfaID proof1 s =
     (case is_factors s mfaID of
        None \<Rightarrow> Inl (IdnNotFound mfaID)
      | Some f \<Rightarrow>
          if fac_Type f \<noteq> FactorTypeWebAuthn \<or> fac_Status f \<noteq> FactorStatusPending
          then Inl (IdnPrecondition ''invalid_transition'')
          else if fac_Identifier f \<noteq> wp_CredentialID proof1
          then Inl (IdnPrecondition ''cred_id_mismatch'')
          else Inr (assertion_options (zero_text (is_webauthnPublicKeys s) mfaID) f proof1))"

definition ConfirmWebAuthn_commit :: "id_env \<Rightarrow> string \<Rightarrow> int \<Rightarrow> identity \<Rightarrow> Factor \<times> identity" where
  "ConfirmWebAuthn_commit e mfaID newCount s =
     (let f = (zero_factor_of s mfaID)
            \<lparr>fac_Status := FactorStatusActive, fac_SignCount := newCount, fac_UpdatedAt := ev_clock e 0\<rparr>
      in (f, s\<lparr>is_factors := (is_factors s)(mfaID \<mapsto> f)\<rparr>))"

definition ConfirmWebAuthnFactor ::
  "id_env \<Rightarrow> string \<Rightarrow> WebAuthnProof \<Rightarrow> identity \<Rightarrow> ((idn_error + Factor) \<times> identity) option" where
  "ConfirmWebAuthnFactor e mfaID proof1 s =
     (case ConfirmWebAuthn_begin mfaID proof1 s of
        Inl err \<Rightarrow> Some (Inl err, s)
      | Inr opts \<Rightarrow>
          (case WebAuthnVerifyAssertion (ev_wa e) opts of
             None \<Rightarrow> None
           | Some (Inl err) \<Rightarrow> Some (Inl (IdnWebAuthn err), s)
           | Some (Inr n) \<Rightarrow> Some (map_prod Inr id (ConfirmWebAuthn_commit e mfaID n s))))"

subsection \<open>Lookup and transitions\<close>

definition GetFactor :: "string \<Rightarrow> identity \<Rightarrow> idn_error + Factor" where
  "GetFactor mfaID s = (case is_factors s mfaID of None \<Rightarrow> Inl (IdnNotFound mfaID) | Some f \<Rightarrow> Inr f)"

definition ListFactorsForUser :: "string list \<Rightarrow> string \<Rightarrow> identity \<Rightarrow> idn_error + Factor list" where
  "ListFactorsForUser ks usrID s =
     (if is_users s usrID = None then Inl (IdnNotFound usrID)
      else Inr (filter (\<lambda>f. fac_UsrID f = usrID) (go_range (is_factors s) ks)))"

definition transitionFactor :: "id_env \<Rightarrow> string \<Rightarrow> FactorStatus \<Rightarrow> identity \<Rightarrow> (idn_error + Factor) \<times> identity" where
  "transitionFactor e mfaID to s =
     (case is_factors s mfaID of
        None \<Rightarrow> (Inl (IdnNotFound mfaID), s)
      | Some f \<Rightarrow>
          if fac_Status f = FactorStatusRevoked then (Inl IdnAlreadyTerminal, s)
          else
            let f1 = f\<lparr>fac_Status := to, fac_UpdatedAt := ev_clock e 0\<rparr>;
                s1 = s\<lparr>is_factors := (is_factors s)(mfaID \<mapsto> f1)\<rparr>
            in (Inr f1,
                if to \<noteq> FactorStatusActive
                then s1\<lparr>is_mfaSingleton := (is_mfaSingleton s)(singleton_key (fac_UsrID f) (fac_Type f) := None)\<rparr>
                else s1))"

definition SuspendFactor :: "id_env \<Rightarrow> string \<Rightarrow> identity \<Rightarrow> (idn_error + Factor) \<times> identity" where
  "SuspendFactor e mfaID s = transitionFactor e mfaID FactorStatusSuspended s"

definition ReinstateFactor :: "id_env \<Rightarrow> string \<Rightarrow> identity \<Rightarrow> (idn_error + Factor) \<times> identity" where
  "ReinstateFactor e mfaID s = transitionFactor e mfaID FactorStatusActive s"

definition RevokeFactor :: "id_env \<Rightarrow> string \<Rightarrow> identity \<Rightarrow> (idn_error + Factor) \<times> identity" where
  "RevokeFactor e mfaID s = transitionFactor e mfaID FactorStatusRevoked s"

subsection \<open>Proofs\<close>

text \<open>The first factor that matches, in the order of the range; the empty text when none does.\<close>

definition find_factor :: "(Factor \<Rightarrow> bool) \<Rightarrow> string list \<Rightarrow> identity \<Rightarrow> string" where
  "find_factor hit ks s =
     (case find (\<lambda>k. case is_factors s k of None \<Rightarrow> False | Some f \<Rightarrow> hit f) ks of
        None \<Rightarrow> [] | Some k \<Rightarrow> k)"

definition verifyWebAuthn_begin ::
  "string list \<Rightarrow> string \<Rightarrow> WebAuthnProof \<Rightarrow> identity \<Rightarrow> idn_error + string \<times> WebAuthnVerifyOptions" where
  "verifyWebAuthn_begin ks usrID proof1 s =
     (let mfaID = find_factor (\<lambda>f. fac_UsrID f = usrID \<and> fac_Type f = FactorTypeWebAuthn \<and>
            fac_Status f = FactorStatusActive \<and> fac_Identifier f = wp_CredentialID proof1) ks s
      in if mfaID = [] then Inl (IdnNotFound (wp_CredentialID proof1))
         else Inr (mfaID, assertion_options (zero_text (is_webauthnPublicKeys s) mfaID) (zero_factor_of s mfaID) proof1))"

definition verifyWebAuthn_commit :: "id_env \<Rightarrow> string \<Rightarrow> int \<Rightarrow> identity \<Rightarrow> MfaVerifyResult \<times> identity" where
  "verifyWebAuthn_commit e mfaID newCount s =
     (let f = (zero_factor_of s mfaID)\<lparr>fac_SignCount := newCount, fac_UpdatedAt := ev_clock e 0\<rparr>
      in (\<lparr>mvr_MfaID = mfaID, mvr_Type = FactorTypeWebAuthn, mvr_MfaVerifiedAt = ev_clock e 1,
           mvr_NewSignCount = Some newCount\<rparr>,
          s\<lparr>is_factors := (is_factors s)(mfaID \<mapsto> f)\<rparr>))"

definition verifyWebAuthnProof ::
  "id_env \<Rightarrow> string list \<Rightarrow> string \<Rightarrow> WebAuthnProof \<Rightarrow> identity \<Rightarrow> ((idn_error + MfaVerifyResult) \<times> identity) option"
where
  "verifyWebAuthnProof e ks usrID proof1 s =
     (case verifyWebAuthn_begin ks usrID proof1 s of
        Inl err \<Rightarrow> Some (Inl err, s)
      | Inr (mfaID, opts) \<Rightarrow>
          (case WebAuthnVerifyAssertion (ev_wa e) opts of
             None \<Rightarrow> None
           | Some (Inl err) \<Rightarrow> Some (Inl (IdnWebAuthn err), s)
           | Some (Inr n) \<Rightarrow> Some (map_prod Inr id (verifyWebAuthn_commit e mfaID n s))))"

definition verifyTotpProof ::
  "id_env \<Rightarrow> string \<Rightarrow> TotpProof \<Rightarrow> identity \<Rightarrow> (idn_error + MfaVerifyResult) option" where
  "verifyTotpProof e usrID proof1 s =
     (case is_mfaSingleton s (singleton_key usrID ''totp'') of
        None \<Rightarrow> Some (Inl (IdnNotFound usrID))
      | Some mfaID \<Rightarrow>
          if fac_Status (zero_factor_of s mfaID) \<noteq> FactorStatusActive then Some (Inl IdnInvalidCredential)
          else case TotpVerify (ev_hmac e) (zero_text (is_totpSecrets s) mfaID) (tp_Code proof1)
                      (unix_seconds (ev_clock e 0)) 1 totp_zero of
            None \<Rightarrow> None
          | Some (Inl err) \<Rightarrow> Some (Inl (IdnTotp err))
          | Some (Inr ok2) \<Rightarrow>
              if \<not> ok2 then Some (Inl IdnInvalidCredential)
              else Some (Inr \<lparr>mvr_MfaID = mfaID, mvr_Type = FactorTypeTotp,
                     mvr_MfaVerifiedAt = ev_clock e 1, mvr_NewSignCount = None\<rparr>))"

text \<open>The loop over the hashes; the outer \<open>None\<close> is an index out of range, \<open>Inr (Some i)\<close> the code found.\<close>

fun match_code :: "argon \<Rightarrow> string \<Rightarrow> nat \<Rightarrow> string list \<Rightarrow> bool list \<Rightarrow> (hash_error + nat option) option" where
  "match_code idkey candidate i [] consumed = Some (Inr None)"
| "match_code idkey candidate i (h # hs) [] = None"
| "match_code idkey candidate i (h # hs) (c # cs) =
     (if c then match_code idkey candidate (Suc i) hs cs
      else case VerifyPasswordHash idkey h candidate of
             Inl err \<Rightarrow> Some (Inl err)
           | Inr ok \<Rightarrow> if ok then Some (Inr (Some i)) else match_code idkey candidate (Suc i) hs cs)"

definition codes_of :: "identity \<Rightarrow> string \<Rightarrow> string list" where
  "codes_of s mfaID = (case is_recoveryHashes s mfaID of None \<Rightarrow> [] | Some hs \<Rightarrow> hs)"

definition consumed_of :: "identity \<Rightarrow> string \<Rightarrow> bool list" where
  "consumed_of s mfaID = (case is_recoveryConsumed s mfaID of None \<Rightarrow> [] | Some cs \<Rightarrow> cs)"

definition verifyRecoveryProof ::
  "id_env \<Rightarrow> string list \<Rightarrow> string \<Rightarrow> RecoveryProof \<Rightarrow> identity \<Rightarrow> ((idn_error + MfaVerifyResult) \<times> identity) option"
where
  "verifyRecoveryProof e ks usrID proof1 s =
     (let candidate = NormalizeRecoveryInput (ev_text e) (rp_Code proof1)
      in if \<not> IsValidRecoveryCode candidate then Some (Inl IdnInvalidCredential, s)
         else
           let mfaID = find_factor (\<lambda>f. fac_UsrID f = usrID \<and> fac_Type f = FactorTypeRecovery \<and>
                 fac_Status f = FactorStatusActive) ks s
           in if mfaID = [] then Some (Inl (IdnNotFound usrID), s)
              else case match_code (ev_idkey e) candidate 0 (codes_of s mfaID) (consumed_of s mfaID) of
                None \<Rightarrow> None
              | Some (Inl err) \<Rightarrow> Some (Inl (IdnHash err), s)
              | Some (Inr None) \<Rightarrow> Some (Inl IdnInvalidCredential, s)
              | Some (Inr (Some i)) \<Rightarrow>
                  let consumed = (consumed_of s mfaID)[i := True];
                      remaining = length (filter Not consumed);
                      f = (zero_factor_of s mfaID)\<lparr>fac_Remaining := int remaining, fac_UpdatedAt := ev_clock e 0\<rparr>
                  in Some (Inr \<lparr>mvr_MfaID = mfaID, mvr_Type = FactorTypeRecovery,
                                mvr_MfaVerifiedAt = ev_clock e 1, mvr_NewSignCount = None\<rparr>,
                       s\<lparr>is_recoveryConsumed := (is_recoveryConsumed s)(mfaID \<mapsto> consumed),
                         is_factors := (is_factors s)(mfaID \<mapsto> f)\<rparr>))"

definition VerifyMfa ::
  "id_env \<Rightarrow> string list \<Rightarrow> string \<Rightarrow> MfaProof \<Rightarrow> identity \<Rightarrow> ((idn_error + MfaVerifyResult) \<times> identity) option" where
  "VerifyMfa e ks usrID proof1 s =
     (case mp_Totp proof1 of
        Some t \<Rightarrow> map_option (\<lambda>r. (r, s)) (verifyTotpProof e usrID t s)
      | None \<Rightarrow>
          (case mp_Recovery proof1 of
             Some r \<Rightarrow> verifyRecoveryProof e ks usrID r s
           | None \<Rightarrow>
               (case mp_WebAuthn proof1 of
                  Some w \<Rightarrow> verifyWebAuthnProof e ks usrID w s
                | None \<Rightarrow> Some (Inl IdnEmptyProof, s))))"

subsection \<open>Policies\<close>

definition GetUserMfaPolicy :: "id_env \<Rightarrow> string \<Rightarrow> identity \<Rightarrow> idn_error + UserMfaPolicy" where
  "GetUserMfaPolicy e usrID s =
     (if is_users s usrID = None then Inl (IdnNotFound usrID)
      else case is_mfaPolicies s usrID of
        Some p \<Rightarrow> Inr p
      | None \<Rightarrow> Inr \<lparr>ump_UsrID = usrID, ump_Required = False, ump_GraceUntil = None, ump_UpdatedAt = ev_clock e 0\<rparr>)"

definition SetUserMfaPolicy ::
  "id_env \<Rightarrow> string \<Rightarrow> bool \<Rightarrow> gotime option \<Rightarrow> identity \<Rightarrow> (idn_error + UserMfaPolicy) \<times> identity" where
  "SetUserMfaPolicy e usrID required graceUntil s =
     (if is_users s usrID = None then (Inl (IdnNotFound usrID), s)
      else let p = \<lparr>ump_UsrID = usrID, ump_Required = required, ump_GraceUntil = graceUntil,
                     ump_UpdatedAt = ev_clock e 0\<rparr>
           in (Inr p, s\<lparr>is_mfaPolicies := (is_mfaPolicies s)(usrID \<mapsto> p)\<rparr>))"

end
