(* ===== verification/IdentityPats.thy ===== *)
theory IdentityPats
  imports IdentityTypes
begin

text \<open>
  \<open>packages/identity/inmem.go\<close>, personal access tokens.  \<open>VerifyPatToken\<close> releases the lock while it
  verifies the secret: \<open>VerifyPat_begin\<close> is the part that ends with reading the record, \<open>VerifyPat_commit\<close> the
  coalesced update of the last use.  The verifications of the dummy hash change nothing and are left out.
\<close>

definition CreatePat :: "id_env \<Rightarrow> CreatePatInput \<Rightarrow> identity \<Rightarrow> (idn_error + CreatePatResult) \<times> identity" where
  "CreatePat e i s =
     (if is_users s (cpi_UsrID i) = None then (Inl (IdnNotFound (cpi_UsrID i)), s)
      else if length (cpi_Name i) < 1 \<or> length (cpi_Name i) > 120 then (Inl (IdnPrecondition ''invalid_name''), s)
      else if (case cpi_ExpiresAt i of None \<Rightarrow> False
               | Some x \<Rightarrow> x > ev_clock e 0 + wrap64 (PatMaxLifetimeSeconds * second_ns))
      then (Inl (IdnPrecondition ''expires_too_late''), s)
      else case Generate (ev_uuid e) 0 ''pat'' of
        Inl err \<Rightarrow> (Inl (IdnGenerate err), s)
      | Inr patID \<Rightarrow>
          (case ev_rand e 0 32 of
             Inl err \<Rightarrow> (Inl (IdnRandom err), s)
           | Inr secretBytes \<Rightarrow>
               let secret = RawURLEncoding_EncodeToString secretBytes
               in case HashPassword (ev_idkey e) (ev_rand e 1 (int argon2idSaltBytes)) secret of
                    Inl err \<Rightarrow> (Inl (IdnHash err), s)
                  | Inr hash \<Rightarrow>
                      let token = patID @ ''_'' @ secret;
                          now = ev_clock e (if cpi_ExpiresAt i = None then 0 else 1);
                          pat = \<lparr>pat_ID = patID, pat_UsrID = cpi_UsrID i, pat_Name = cpi_Name i,
                                 pat_Scope = cpi_Scope i, pat_Status = PatStatusActive,
                                 pat_ExpiresAt = cpi_ExpiresAt i, pat_LastUsedAt = None, pat_RevokedAt = None,
                                 pat_CreatedAt = now, pat_UpdatedAt = now\<rparr>
                      in (Inr \<lparr>cpr_Pat = pat, cpr_Token = token\<rparr>,
                          s\<lparr>is_pats := (is_pats s)(patID \<mapsto> pat),
                            is_patSecretHashes := (is_patSecretHashes s)(patID \<mapsto> hash)\<rparr>)))"

definition GetPat :: "string \<Rightarrow> identity \<Rightarrow> idn_error + PersonalAccessToken" where
  "GetPat patID s = (case is_pats s patID of None \<Rightarrow> Inl (IdnNotFound patID) | Some p \<Rightarrow> Inr p)"

definition pat_before :: "PersonalAccessToken \<Rightarrow> PersonalAccessToken \<Rightarrow> bool" where
  "pat_before a b \<longleftrightarrow> pat_CreatedAt a < pat_CreatedAt b \<or>
     (pat_CreatedAt a = pat_CreatedAt b \<and> pat_ID a < pat_ID b)"

definition ListPatsForUser ::
  "string list \<Rightarrow> string \<Rightarrow> ListPatsOptions \<Rightarrow> identity \<Rightarrow> (idn_error + PersonalAccessToken page) option" where
  "ListPatsForUser ks usrID opts s =
     (if is_users s usrID = None then Some (Inl (IdnNotFound usrID))
      else let limit = page_limit (lpo_Limit opts);
               matched = filter (\<lambda>p. pat_UsrID p = usrID) (go_range (is_pats s) ks)
           in map_option Inr (paginate pat_ID (lpo_Cursor opts) limit (go_sort pat_before matched)))"

definition VerifyPat_begin ::
  "id_env \<Rightarrow> string \<Rightarrow> identity \<Rightarrow> idn_error + string \<times> string \<times> PersonalAccessToken \<times> string" where
  "VerifyPat_begin e token s =
     (if \<not> IsStructurallyValidPatToken token then Inl IdnInvalidPatToken
      else case split_n 2 (CHR ''_'') token of
        [p0, p1, secret] \<Rightarrow>
          let patID = p0 @ ''_'' @ p1
          in if length secret > PatMaxSecretLength then Inl IdnInvalidPatToken
             else (case is_pats s patID of
                     None \<Rightarrow> Inl IdnInvalidPatToken
                   | Some pat \<Rightarrow>
                       if pat_RevokedAt pat \<noteq> None then Inl (IdnPatRevoked patID)
                       else if (case pat_ExpiresAt pat of None \<Rightarrow> False | Some x \<Rightarrow> \<not> ev_clock e 0 < x)
                       then Inl (IdnPatExpired patID)
                       else Inr (patID, secret, pat, zero_text (is_patSecretHashes s) patID))
      | _ \<Rightarrow> Inl IdnInvalidPatToken)"

definition VerifyPat_commit :: "gotime \<Rightarrow> string \<Rightarrow> identity \<Rightarrow> identity" where
  "VerifyPat_commit now patID s =
     (if (case is_patLastUsedPersist s patID of None \<Rightarrow> True
          | Some prev \<Rightarrow> time_Sub now prev \<ge> wrap64 (is_patLastUsedCoalesceSeconds s * second_ns))
      then (case is_pats s patID of
              None \<Rightarrow> s
            | Some p \<Rightarrow>
                if pat_RevokedAt p = None
                then s\<lparr>is_pats := (is_pats s)(patID \<mapsto> p\<lparr>pat_LastUsedAt := Some now, pat_UpdatedAt := now\<rparr>),
                       is_patLastUsedPersist := (is_patLastUsedPersist s)(patID \<mapsto> now)\<rparr>
                else s)
      else s)"

definition VerifyPatToken :: "id_env \<Rightarrow> string \<Rightarrow> identity \<Rightarrow> (idn_error + VerifiedPat) \<times> identity" where
  "VerifyPatToken e token s =
     (case VerifyPat_begin e token s of
        Inl err \<Rightarrow> (Inl err, s)
      | Inr (patID, secret, pat, hash) \<Rightarrow>
          (case VerifyPasswordHash (ev_idkey e) hash secret of
             Inl err \<Rightarrow> (Inl (IdnHash err), s)
           | Inr ok2 \<Rightarrow>
               if \<not> ok2 then (Inl IdnInvalidPatToken, s)
               else (Inr \<lparr>vp_PatID = patID, vp_UsrID = pat_UsrID pat, vp_Scope = pat_Scope pat\<rparr>,
                     VerifyPat_commit (ev_clock e (if pat_ExpiresAt pat = None then 0 else 1)) patID s)))"

definition RevokePat :: "id_env \<Rightarrow> string \<Rightarrow> identity \<Rightarrow> (idn_error + PersonalAccessToken) \<times> identity" where
  "RevokePat e patID s =
     (case is_pats s patID of
        None \<Rightarrow> (Inl (IdnNotFound patID), s)
      | Some p \<Rightarrow>
          if pat_RevokedAt p \<noteq> None then (Inr p, s)
          else let now = ev_clock e 0;
                   p1 = p\<lparr>pat_RevokedAt := Some now, pat_Status := PatStatusRevoked, pat_UpdatedAt := now\<rparr>
               in (Inr p1, s\<lparr>is_pats := (is_pats s)(patID \<mapsto> p1)\<rparr>))"

end
