(* ===== verification/IdentityCore.thy ===== *)
theory IdentityCore
  imports IdentityMfa IdentityPats
begin

text \<open>
  The invariant of users, credentials and sessions and the steps that keep it.  A step is one section under the
  mutex.  The store falls into three parts that no method mixes: users, credentials and sessions
  (\<open>core_inv\<close>, here), factors, and personal access tokens (\<open>IdentityRuns\<close>); \<open>same_core\<close>,
  \<open>same_factors\<close> and \<open>same_pats\<close> say that a step leaves a part alone.
\<close>

subsection \<open>The three parts of the store\<close>

definition same_core :: "identity \<Rightarrow> identity \<Rightarrow> bool" where
  "same_core s t \<longleftrightarrow> is_users t = is_users s \<and> is_credentials t = is_credentials s \<and>
     is_passwordHashes t = is_passwordHashes s \<and> is_activeCredByIdent t = is_activeCredByIdent s \<and>
     is_sessions t = is_sessions s \<and> is_sessionTokenHash t = is_sessionTokenHash s \<and>
     is_sessionByTokenHash t = is_sessionByTokenHash s"

definition same_factors :: "identity \<Rightarrow> identity \<Rightarrow> bool" where
  "same_factors s t \<longleftrightarrow> is_factors t = is_factors s \<and> is_totpSecrets t = is_totpSecrets s \<and>
     is_webauthnPublicKeys t = is_webauthnPublicKeys s \<and> is_recoveryHashes t = is_recoveryHashes s \<and>
     is_recoveryConsumed t = is_recoveryConsumed s \<and> is_mfaSingleton t = is_mfaSingleton s \<and>
     is_mfaPolicies t = is_mfaPolicies s"

definition same_pats :: "identity \<Rightarrow> identity \<Rightarrow> bool" where
  "same_pats s t \<longleftrightarrow> is_pats t = is_pats s \<and> is_patSecretHashes t = is_patSecretHashes s \<and>
     is_patLastUsedPersist t = is_patLastUsedPersist s \<and>
     is_patLastUsedCoalesceSeconds t = is_patLastUsedCoalesceSeconds s"

definition same_rest :: "identity \<Rightarrow> identity \<Rightarrow> bool" where
  "same_rest s t \<longleftrightarrow> same_factors s t \<and> same_pats s t"

lemmas same_defs = same_core_def same_factors_def same_pats_def same_rest_def

lemma same_refl [simp, intro]: "same_core s s" "same_factors s s" "same_pats s s" "same_rest s s"
  by (simp_all add: same_defs)

lemma same_rest_trans: "same_rest s t \<Longrightarrow> same_rest t u \<Longrightarrow> same_rest s u"
  by (simp add: same_defs)

lemma same_rest_upd [simp]:
  "same_rest s (t\<lparr>is_users := a\<rparr>) = same_rest s t" "same_rest s (t\<lparr>is_credentials := b\<rparr>) = same_rest s t"
  "same_rest s (t\<lparr>is_passwordHashes := c\<rparr>) = same_rest s t" "same_rest s (t\<lparr>is_passkeyPublicKeys := c\<rparr>) = same_rest s t"
  "same_rest s (t\<lparr>is_activeCredByIdent := d\<rparr>) = same_rest s t" "same_rest s (t\<lparr>is_sessions := f\<rparr>) = same_rest s t"
  "same_rest s (t\<lparr>is_sessionTokenHash := g\<rparr>) = same_rest s t" "same_rest s (t\<lparr>is_sessionByTokenHash := h\<rparr>) = same_rest s t"
  by (simp_all add: same_defs)

subsection \<open>Sessions and their tokens\<close>

definition live :: "Session \<Rightarrow> bool" where
  "live ss \<longleftrightarrow> ses_RevokedAt ss = None"

definition sess_inv :: "identity \<Rightarrow> bool" where
  "sess_inv s \<longleftrightarrow>
     keyed_by ses_ID (is_sessions s) \<and>
     (\<forall>sid th. is_sessionTokenHash s sid = Some th \<longleftrightarrow> is_sessionByTokenHash s th = Some sid) \<and>
     (\<forall>sid. is_sessionTokenHash s sid \<noteq> None \<longleftrightarrow> (\<exists>ss. is_sessions s sid = Some ss \<and> live ss))"

lemma sess_invD:
  assumes "sess_inv s"
  shows "keyed_by ses_ID (is_sessions s)"
    and "is_sessionTokenHash s sid = Some th \<longleftrightarrow> is_sessionByTokenHash s th = Some sid"
    and "is_sessionTokenHash s sid \<noteq> None \<longleftrightarrow> (\<exists>ss. is_sessions s sid = Some ss \<and> live ss)"
  using assms unfolding sess_inv_def by blast+

lemma sess_inv_cong:
  "is_sessions t = is_sessions s \<Longrightarrow> is_sessionTokenHash t = is_sessionTokenHash s \<Longrightarrow>
   is_sessionByTokenHash t = is_sessionByTokenHash s \<Longrightarrow> sess_inv t = sess_inv s"
  by (simp add: sess_inv_def)

lemma end_session_frame [simp]:
  "is_users (end_session now sid ss s) = is_users s"
  "is_credentials (end_session now sid ss s) = is_credentials s"
  "is_passwordHashes (end_session now sid ss s) = is_passwordHashes s"
  "is_activeCredByIdent (end_session now sid ss s) = is_activeCredByIdent s"
  "is_sessions (end_session now sid ss s) = (is_sessions s)(sid \<mapsto> ss\<lparr>ses_RevokedAt := Some now\<rparr>)"
  by (simp_all add: end_session_def Let_def split: option.split)

lemma end_session_rest [simp]: "same_rest s0 (end_session now sid ss s) = same_rest s0 s"
  by (simp add: end_session_def Let_def split: option.split)

lemma end_session_tokens:
  "is_sessionTokenHash (end_session now sid ss s) = (is_sessionTokenHash s)(sid := None)"
  "is_sessionByTokenHash (end_session now sid ss s) =
     (case is_sessionTokenHash s sid of None \<Rightarrow> is_sessionByTokenHash s
      | Some th \<Rightarrow> (is_sessionByTokenHash s)(th := None))"
  by (auto simp: end_session_def Let_def split: option.split)

lemma end_session_inv:
  assumes i: "sess_inv s" and ss: "is_sessions s sid = Some ss"
  shows "sess_inv (end_session now sid ss s)"
proof -
  note d = sess_invD [OF i]
  have k: "keyed_by ses_ID (is_sessions (end_session now sid ss s))"
    using keyed_by_upd [OF d(1), of "ss\<lparr>ses_RevokedAt := Some now\<rparr>" sid] keyed_byD [OF d(1) ss] by simp
  have t: "is_sessionTokenHash (end_session now sid ss s) k = Some th \<longleftrightarrow>
      is_sessionByTokenHash (end_session now sid ss s) th = Some k" for k th
  proof (cases "is_sessionTokenHash s sid")
    case None
    then show ?thesis using d(2) [of k th] by (auto simp: end_session_tokens)
  next
    case (Some th')
    then show ?thesis using d(2) [of k th] d(2) [of sid th'] by (auto simp: end_session_tokens)
  qed
  have l: "is_sessionTokenHash (end_session now sid ss s) k \<noteq> None \<longleftrightarrow>
      (\<exists>ss'. is_sessions (end_session now sid ss s) k = Some ss' \<and> live ss')" for k
    using d(3) [of k] by (auto simp: end_session_tokens live_def)
  show ?thesis using k t l unfolding sess_inv_def by blast
qed

lemma put_session_frame [simp]:
  "is_users (put_session th ss s) = is_users s"
  "is_credentials (put_session th ss s) = is_credentials s"
  "is_passwordHashes (put_session th ss s) = is_passwordHashes s"
  "is_activeCredByIdent (put_session th ss s) = is_activeCredByIdent s"
  "is_sessions (put_session th ss s) = (is_sessions s)(ses_ID ss \<mapsto> ss)"
  "is_sessionTokenHash (put_session th ss s) = (is_sessionTokenHash s)(ses_ID ss \<mapsto> th)"
  "is_sessionByTokenHash (put_session th ss s) = (is_sessionByTokenHash s)(th \<mapsto> ses_ID ss)"
  by (simp_all add: put_session_def)

lemma put_session_rest [simp]: "same_rest s0 (put_session th ss s) = same_rest s0 s"
  by (simp add: put_session_def)

lemma put_session_inv:
  assumes i: "sess_inv s" and n: "is_sessions s (ses_ID ss) = None" and l: "live ss"
    and t: "is_sessionByTokenHash s th = None"
  shows "sess_inv (put_session th ss s)"
proof -
  note d = sess_invD [OF i]
  have no: "is_sessionTokenHash s (ses_ID ss) = None" using d(3) [of "ses_ID ss"] n by auto
  have no': "is_sessionTokenHash s k \<noteq> Some th" for k using d(2) [of k th] t by simp
  have no'': "is_sessionByTokenHash s h \<noteq> Some (ses_ID ss)" for h using d(2) [of "ses_ID ss" h] no by simp
  have "is_sessionTokenHash (put_session th ss s) k = Some h \<longleftrightarrow> is_sessionByTokenHash (put_session th ss s) h = Some k" for k h
    using d(2) [of k h] no' [of k] no'' [of h] by auto
  moreover have "is_sessionTokenHash (put_session th ss s) k \<noteq> None \<longleftrightarrow>
      (\<exists>ss'. is_sessions (put_session th ss s) k = Some ss' \<and> live ss')" for k
    using d(3) [of k] l by auto
  moreover have "keyed_by ses_ID (is_sessions (put_session th ss s))"
    using keyed_by_upd [OF d(1), of ss "ses_ID ss"] by simp
  ultimately show ?thesis unfolding sess_inv_def by blast
qed

definition ended :: "(Session \<Rightarrow> bool) \<Rightarrow> gotime \<Rightarrow> Session \<Rightarrow> Session" where
  "ended hit now ss = (if hit ss \<and> live ss then ss\<lparr>ses_RevokedAt := Some now\<rparr> else ss)"

lemma ended_yes: "hit ss \<Longrightarrow> live ss \<Longrightarrow> ended hit now ss = ss\<lparr>ses_RevokedAt := Some now\<rparr>"
  and ended_no: "\<not> (hit ss \<and> live ss) \<Longrightarrow> ended hit now ss = ss"
  by (auto simp: ended_def)

lemma ended_sel [simp]:
  "ses_ID (ended hit now ss) = ses_ID ss" "ses_UsrID (ended hit now ss) = ses_UsrID ss"
  "ses_CredID (ended hit now ss) = ses_CredID ss" "ses_ExpiresAt (ended hit now ss) = ses_ExpiresAt ss"
  "ses_CreatedAt (ended hit now ss) = ses_CreatedAt ss"
  "live (ended hit now ss) \<longleftrightarrow> live ss \<and> \<not> hit ss"
  by (auto simp: ended_def live_def)

lemma cascade_sessions_frame [simp]:
  "is_users (cascade_sessions hit now ks s) = is_users s"
  "is_credentials (cascade_sessions hit now ks s) = is_credentials s"
  "is_passwordHashes (cascade_sessions hit now ks s) = is_passwordHashes s"
  "is_activeCredByIdent (cascade_sessions hit now ks s) = is_activeCredByIdent s"
  by (induction ks arbitrary: s) (simp_all split: option.split)

lemma cascade_sessions_rest [simp]: "same_rest s0 (cascade_sessions hit now ks s) = same_rest s0 s"
  by (induction ks arbitrary: s) (simp_all split: option.split)

lemma cascade_sessions_inv: "sess_inv s \<Longrightarrow> sess_inv (cascade_sessions hit now ks s)"
  by (induction ks arbitrary: s) (auto intro: end_session_inv split: option.split)

lemma cascade_sessions_at:
  "distinct ks \<Longrightarrow> is_sessions (cascade_sessions hit now ks s) k =
     (if k \<in> set ks then map_option (ended hit now) (is_sessions s k) else is_sessions s k)"
proof (induction ks arbitrary: s)
  case (Cons sid ks)
  show ?case
  proof (cases "is_sessions s sid")
    case (Some ss)
    then show ?thesis
      using Cons by (cases "hit ss \<and> live ss") (auto simp: ended_yes ended_no live_def [symmetric])
  qed (use Cons in auto)
qed simp

lemma cascade_sessions_all:
  assumes "visits ks (is_sessions s)"
  shows "is_sessions (cascade_sessions hit now ks s) k = map_option (ended hit now) (is_sessions s k)"
  using cascade_sessions_at [of ks hit now s k] visitsD [OF assms] by (auto simp: domIff)

subsection \<open>Users and credentials\<close>

definition active :: "Credential \<Rightarrow> bool" where
  "active c \<longleftrightarrow> crd_Status c = StatusActive"

definition cred_inv :: "identity \<Rightarrow> bool" where
  "cred_inv s \<longleftrightarrow>
     keyed_by usr_ID (is_users s) \<and> keyed_by crd_ID (is_credentials s) \<and>
     (\<forall>cid c. is_credentials s cid = Some c \<longrightarrow> is_users s (crd_UsrID c) \<noteq> None) \<and>
     (\<forall>k cid. is_activeCredByIdent s k = Some cid \<longrightarrow>
        (\<exists>c. is_credentials s cid = Some c \<and> active c \<and> crd_key c = k))"

lemma cred_invD:
  assumes "cred_inv s"
  shows "keyed_by usr_ID (is_users s)" and "keyed_by crd_ID (is_credentials s)"
    and "is_credentials s cid = Some c \<Longrightarrow> is_users s (crd_UsrID c) \<noteq> None"
    and "is_activeCredByIdent s k = Some cid \<Longrightarrow>
      \<exists>c. is_credentials s cid = Some c \<and> active c \<and> crd_key c = k"
  using assms unfolding cred_inv_def by blast+

text \<open>Every live session belongs to a credential that is active and has the same owner.\<close>

definition live_inv :: "identity \<Rightarrow> bool" where
  "live_inv s \<longleftrightarrow> (\<forall>sid ss. is_sessions s sid = Some ss \<longrightarrow> live ss \<longrightarrow>
     (\<exists>c. is_credentials s (ses_CredID ss) = Some c \<and> active c \<and> crd_UsrID c = ses_UsrID ss))"

lemma live_invD:
  "live_inv s \<Longrightarrow> is_sessions s sid = Some ss \<Longrightarrow> live ss \<Longrightarrow>
   \<exists>c. is_credentials s (ses_CredID ss) = Some c \<and> active c \<and> crd_UsrID c = ses_UsrID ss"
  unfolding live_inv_def by blast

definition core_inv :: "identity \<Rightarrow> bool" where
  "core_inv s \<longleftrightarrow> sess_inv s \<and> cred_inv s \<and> live_inv s"

lemma core_inv_cong: "same_core s t \<Longrightarrow> core_inv t = core_inv s"
  by (simp add: same_core_def core_inv_def sess_inv_def cred_inv_def live_inv_def)

lemma cred_inv_user:
  assumes "cred_inv s" and "usr_ID u = uid"
  shows "cred_inv (s\<lparr>is_users := (is_users s)(uid \<mapsto> u)\<rparr>)"
  using cred_invD [OF assms(1)] keyed_by_upd [OF cred_invD(1) [OF assms(1)] assms(2)]
  by (auto simp: cred_inv_def)

lemma crd_key_upd [simp]:
  "crd_key (c\<lparr>crd_Status := st\<rparr>) = crd_key c" "crd_key (c\<lparr>crd_UpdatedAt := t\<rparr>) = crd_key c"
  "crd_key (c\<lparr>crd_Replaces := r\<rparr>) = crd_key c"
  by (simp_all add: crd_key_def)

lemma credential_index_swap:
  "s\<lparr>is_activeCredByIdent := a, is_credentials := b\<rparr> = s\<lparr>is_credentials := b, is_activeCredByIdent := a\<rparr>"
  by simp

text \<open>One credential is written and the index entry of its key is set or dropped.\<close>

lemma cred_inv_write:
  assumes i: "cred_inv s" and "is_users s (crd_UsrID c) \<noteq> None" and "crd_ID c = cid"
    and old: "\<And>c0. is_credentials s cid = Some c0 \<Longrightarrow> crd_key c0 = crd_key c"
    and idx: "idx = None \<or> idx = Some cid \<and> active c"
  shows "cred_inv (s\<lparr>is_credentials := (is_credentials s)(cid \<mapsto> c),
    is_activeCredByIdent := (is_activeCredByIdent s)(crd_key c := idx)\<rparr>)"
proof -
  note d = cred_invD [OF i]
  have "\<exists>c'. ((is_credentials s)(cid \<mapsto> c)) k' = Some c' \<and> active c' \<and> crd_key c' = k"
    if "((is_activeCredByIdent s)(crd_key c := idx)) k = Some k'" for k k'
  proof (cases "k = crd_key c")
    case True
    then show ?thesis using that idx by auto
  next
    case False
    with that d(4) obtain c' where "is_credentials s k' = Some c'" "active c'" "crd_key c' = k" by auto
    with False old show ?thesis by (cases "k' = cid") auto
  qed
  moreover have "keyed_by crd_ID ((is_credentials s)(cid \<mapsto> c))" using d(2) assms(3) by (rule keyed_by_upd)
  moreover have "is_users s (crd_UsrID c') \<noteq> None" if "((is_credentials s)(cid \<mapsto> c)) k = Some c'" for k c'
    using that d(3) assms(2) by (cases "k = cid") auto
  ultimately show ?thesis using d(1) unfolding cred_inv_def by simp
qed

lemma put_credential_write:
  "put_credential c s = s\<lparr>is_credentials := (is_credentials s)(crd_ID c \<mapsto> c),
     is_activeCredByIdent := (is_activeCredByIdent s)(crd_key c := Some (crd_ID c))\<rparr>"
  by (simp add: put_credential_def crd_key_def)

lemma put_credential_rest [simp]: "same_rest s0 (put_credential c s) = same_rest s0 s"
  by (simp add: put_credential_def)

lemma put_credential_frame [simp]:
  "is_users (put_credential c s) = is_users s" "is_sessions (put_credential c s) = is_sessions s"
  "is_sessionTokenHash (put_credential c s) = is_sessionTokenHash s"
  "is_sessionByTokenHash (put_credential c s) = is_sessionByTokenHash s"
  "is_passwordHashes (put_credential c s) = is_passwordHashes s"
  "is_credentials (put_credential c s) = (is_credentials s)(crd_ID c \<mapsto> c)"
  by (simp_all add: put_credential_def)

lemma cred_inv_other:
  "is_users t = is_users s \<Longrightarrow> is_credentials t = is_credentials s \<Longrightarrow>
   is_activeCredByIdent t = is_activeCredByIdent s \<Longrightarrow> cred_inv t = cred_inv s"
  by (simp add: cred_inv_def)

definition cred_hit :: "string \<Rightarrow> Credential \<Rightarrow> bool" where
  "cred_hit usrID c \<longleftrightarrow> crd_UsrID c = usrID \<and> active c"

lemma cascade_credentials_frame [simp]:
  "is_users (cascade_credentials clk usrID n cs s) = is_users s"
  "is_sessions (cascade_credentials clk usrID n cs s) = is_sessions s"
  "is_sessionTokenHash (cascade_credentials clk usrID n cs s) = is_sessionTokenHash s"
  "is_sessionByTokenHash (cascade_credentials clk usrID n cs s) = is_sessionByTokenHash s"
  "is_passwordHashes (cascade_credentials clk usrID n cs s) = is_passwordHashes s"
  "same_rest s0 (cascade_credentials clk usrID n cs s) = same_rest s0 s"
  by (induction cs arbitrary: n s) (simp_all split: option.split)

lemma cascade_credentials_inv: "cred_inv s \<Longrightarrow> cred_inv (cascade_credentials clk usrID n cs s)"
proof (induction cs arbitrary: n s)
  case (Cons cid cs)
  show ?case
  proof (cases "is_credentials s cid")
    case (Some c)
    let ?c = "c\<lparr>crd_Status := StatusRevoked, crd_UpdatedAt := clk n\<rparr>"
    have "cred_inv (s\<lparr>is_credentials := (is_credentials s)(cid \<mapsto> ?c),
        is_activeCredByIdent := (is_activeCredByIdent s)(crd_key ?c := None)\<rparr>)"
      using Cons.prems Some cred_invD(3) [OF Cons.prems Some] keyed_byD [OF cred_invD(2) [OF Cons.prems] Some]
      by (intro cred_inv_write) (auto simp: crd_key_def)
    with Cons Some show ?thesis by (simp add: crd_key_def)
  qed (use Cons in simp)
qed simp

lemma cascade_credentials_at:
  "distinct cs \<Longrightarrow> \<exists>t. is_credentials (cascade_credentials clk usrID n cs s) k =
     (if k \<in> set cs then map_option (\<lambda>c. if cred_hit usrID c
        then c\<lparr>crd_Status := StatusRevoked, crd_UpdatedAt := t\<rparr> else c) (is_credentials s k)
      else is_credentials s k)"
proof (induction cs arbitrary: n s)
  case (Cons cid cs)
  show ?case
  proof (cases "is_credentials s cid")
    case None
    then show ?thesis using Cons by (auto split: if_splits)
  next
    case (Some c)
    let ?s = "s\<lparr>is_credentials := (is_credentials s)(cid \<mapsto> c\<lparr>crd_Status := StatusRevoked, crd_UpdatedAt := clk n\<rparr>),
        is_activeCredByIdent := (is_activeCredByIdent s)(identKey (crd_Type c) (crd_Identifier c) := None)\<rparr>"
    show ?thesis
    proof (cases "cred_hit usrID c")
      case True
      then have e: "cascade_credentials clk usrID n (cid # cs) s = cascade_credentials clk usrID (Suc n) cs ?s"
        using Some by (simp add: cred_hit_def active_def)
      show ?thesis
      proof (cases "k = cid")
        case True
        with Cons Some \<open>cred_hit usrID c\<close> show ?thesis unfolding e
          using Cons.IH [of "Suc n" ?s] by (intro exI [of _ "clk n"]) auto
      next
        case False
        obtain t where "is_credentials (cascade_credentials clk usrID (Suc n) cs ?s) k =
            (if k \<in> set cs then map_option (\<lambda>c. if cred_hit usrID c
               then c\<lparr>crd_Status := StatusRevoked, crd_UpdatedAt := t\<rparr> else c) (is_credentials ?s k)
             else is_credentials ?s k)"
          using Cons.IH [of "Suc n" ?s] Cons.prems by auto
        with False show ?thesis unfolding e by (intro exI [of _ t]) simp
      qed
    next
      case False
      then have e: "cascade_credentials clk usrID n (cid # cs) s = cascade_credentials clk usrID n cs s"
        using Some by (auto simp: cred_hit_def active_def)
      then show ?thesis unfolding e using Cons.IH [of n s] Cons.prems Some False by (cases "k = cid") auto
    qed
  qed
qed simp

lemma cascade_credentials_all:
  assumes "visits cs (is_credentials s)"
  shows "\<exists>t. is_credentials (cascade_credentials clk usrID n cs s) k =
     map_option (\<lambda>c. if cred_hit usrID c then c\<lparr>crd_Status := StatusRevoked, crd_UpdatedAt := t\<rparr> else c)
       (is_credentials s k)"
  using cascade_credentials_at [of cs clk usrID n s k] visitsD [OF assms] by (auto simp: domIff split: if_splits)

lemma live_inv_mono:
  assumes "live_inv s"
    and "\<And>sid ss'. is_sessions t sid = Some ss' \<Longrightarrow> live ss' \<Longrightarrow>
      \<exists>ss. is_sessions s sid = Some ss \<and> live ss \<and> ses_CredID ss = ses_CredID ss' \<and> ses_UsrID ss = ses_UsrID ss'"
    and "\<And>sid ss' c. is_sessions t sid = Some ss' \<Longrightarrow> live ss' \<Longrightarrow> is_credentials s (ses_CredID ss') = Some c \<Longrightarrow>
      active c \<Longrightarrow> crd_UsrID c = ses_UsrID ss' \<Longrightarrow> is_credentials t (ses_CredID ss') = Some c"
  shows "live_inv t"
  unfolding live_inv_def
proof (intro allI impI)
  fix sid ss' assume ss': "is_sessions t sid = Some ss'" "live ss'"
  with assms(2) obtain ss where "is_sessions s sid = Some ss" "live ss" "ses_CredID ss = ses_CredID ss'"
    "ses_UsrID ss = ses_UsrID ss'" by blast
  with live_invD [OF assms(1)] obtain c where "is_credentials s (ses_CredID ss') = Some c" "active c"
    "crd_UsrID c = ses_UsrID ss'" by metis
  with assms(3) [OF ss'] show "\<exists>c. is_credentials t (ses_CredID ss') = Some c \<and> active c \<and> crd_UsrID c = ses_UsrID ss'"
    by blast
qed

lemma ended_back:
  assumes "is_sessions t sid = map_option (ended hit now) (is_sessions s sid)"
    and "is_sessions t sid = Some ss'" and "live ss'"
  shows "\<exists>ss. is_sessions s sid = Some ss \<and> live ss \<and> ses_CredID ss = ses_CredID ss' \<and> ses_UsrID ss = ses_UsrID ss'"
    and "\<not> hit ss'"
proof -
  obtain ss where "is_sessions s sid = Some ss" "ss' = ended hit now ss" using assms(1,2)
    by (cases "is_sessions s sid") auto
  then show "\<exists>ss. is_sessions s sid = Some ss \<and> live ss \<and> ses_CredID ss = ses_CredID ss' \<and> ses_UsrID ss = ses_UsrID ss'"
    and "\<not> hit ss'"
    using assms(3) by (auto simp: ended_no)
qed

lemma live_inv_ended:
  assumes "live_inv s" and ss: "\<And>k. is_sessions t k = map_option (ended hit now) (is_sessions s k)"
    and "\<And>ss c. \<not> hit ss \<Longrightarrow> is_credentials s (ses_CredID ss) = Some c \<Longrightarrow> active c \<Longrightarrow>
      crd_UsrID c = ses_UsrID ss \<Longrightarrow> is_credentials t (ses_CredID ss) = Some c"
  shows "live_inv t"
proof (rule live_inv_mono [OF assms(1)])
  fix sid ss' assume a: "is_sessions t sid = Some ss'" "live ss'"
  show "\<exists>ss. is_sessions s sid = Some ss \<and> live ss \<and> ses_CredID ss = ses_CredID ss' \<and> ses_UsrID ss = ses_UsrID ss'"
    by (rule ended_back(1) [OF ss a])
  fix c assume "is_credentials s (ses_CredID ss') = Some c" "active c" "crd_UsrID c = ses_UsrID ss'"
  then show "is_credentials t (ses_CredID ss') = Some c" using assms(3) ended_back(2) [OF ss a] by blast
qed

subsection \<open>The methods on users, credentials and sessions\<close>

text \<open>What a run fixes: the digest of tokens and Argon2id; clock, identifiers and random bytes vary.\<close>

definition env_of :: "(string \<Rightarrow> string) \<Rightarrow> argon \<Rightarrow> id_env \<Rightarrow> bool" where
  "env_of sha idkey e \<longleftrightarrow> sha256_Sum256 (ev_wa e) = sha \<and> ev_idkey e = idkey"

lemma core_inv_secrets [simp]:
  "core_inv (s\<lparr>is_passwordHashes := ph\<rparr>) = core_inv s" "core_inv (s\<lparr>is_passkeyPublicKeys := pk\<rparr>) = core_inv s"
  by (simp_all add: core_inv_def sess_inv_def cred_inv_def live_inv_def)

lemma sess_inv_users [simp]: "sess_inv (s\<lparr>is_users := us\<rparr>) = sess_inv s"
  and live_inv_users [simp]: "live_inv (s\<lparr>is_users := us\<rparr>) = live_inv s"
  by (simp_all add: sess_inv_def live_inv_def)

lemma core_user:
  assumes "core_inv s" and "usr_ID u = uid"
  shows "core_inv (s\<lparr>is_users := (is_users s)(uid \<mapsto> u)\<rparr>)"
  using assms cred_inv_user [OF _ assms(2), of s] by (simp add: core_inv_def)

lemma core_user_key: "core_inv s \<Longrightarrow> is_users s uid = Some u \<Longrightarrow> usr_ID u = uid"
  using keyed_byD [OF cred_invD(1)] by (auto simp: core_inv_def)

lemma CreateUser_core: "core_inv s \<Longrightarrow> core_inv (snd (CreateUser e d s)) \<and> same_rest s (snd (CreateUser e d s))"
  by (auto simp: CreateUser_def Let_def intro: core_user split: sum.split)

lemma UpdateUser_core: "core_inv s \<Longrightarrow> core_inv (snd (UpdateUser e uid i s)) \<and> same_rest s (snd (UpdateUser e uid i s))"
  by (auto simp: UpdateUser_def Let_def core_user_key intro!: core_user split: option.split)

lemma transitionUser_core:
  assumes i: "core_inv s" and ks: "to \<noteq> StatusActive \<Longrightarrow> visits ks (is_sessions s)"
    and cs: "to = StatusRevoked \<Longrightarrow> visits cs (is_credentials s)"
    and to: "to \<in> {StatusActive, StatusSuspended, StatusRevoked}"
  shows "core_inv (snd (transitionUser e ks cs uid to s))" "same_rest s (snd (transitionUser e ks cs uid to s))"
proof -
  have "core_inv (snd (transitionUser e ks cs uid to s)) \<and> same_rest s (snd (transitionUser e ks cs uid to s))"
  proof (cases "is_users s uid")
    case None
    then show ?thesis using i by (simp add: transitionUser_def)
  next
    case (Some u)
    let ?s1 = "s\<lparr>is_users := (is_users s)(uid \<mapsto> usr_WithStatus u to (ev_clock e 0))\<rparr>"
    have "usr_ID u = uid" using core_user_key [OF i Some] .
    then have c1: "core_inv ?s1" using i by (intro core_user) (auto simp: usr_WithStatus_def)
    let ?s2 = "cascade_sessions (\<lambda>ss. ses_UsrID ss = uid) (ev_clock e 1) ks ?s1"
    have "snd (transitionUser e ks cs uid to s) = s \<or>
      to = StatusActive \<and> snd (transitionUser e ks cs uid to s) = ?s1 \<or>
      to \<noteq> StatusActive \<and> snd (transitionUser e ks cs uid to s) =
          (if to = StatusRevoked then cascade_credentials (ev_clock e) uid 2 cs ?s2 else ?s2)"
      using to Some by (auto simp: transitionUser_def Let_def cascadeRevokeSessionsForUser_def)
    then consider (1) "snd (transitionUser e ks cs uid to s) = s"
      | (2) "snd (transitionUser e ks cs uid to s) = ?s1"
      | (3) "to \<noteq> StatusActive" "snd (transitionUser e ks cs uid to s) =
          (if to = StatusRevoked then cascade_credentials (ev_clock e) uid 2 cs ?s2 else ?s2)"
      by blast
    then show ?thesis
    proof cases
      case 3
      let ?t = "if to = StatusRevoked then cascade_credentials (ev_clock e) uid 2 cs ?s2 else ?s2"
      have ss: "is_sessions ?t k = map_option (ended (\<lambda>ss. ses_UsrID ss = uid) (ev_clock e 1)) (is_sessions s k)" for k
        using cascade_sessions_all [of ks ?s1] ks 3(1) by auto
      have cc: "is_credentials ?t k = Some c" if "is_credentials s k = Some c" "crd_UsrID c \<noteq> uid" for k c
      proof (cases "to = StatusRevoked")
        case True
        then show ?thesis using that cascade_credentials_all [of cs ?s2 "ev_clock e" uid 2 k] cs
          by (auto simp: cred_hit_def)
      qed (use that in simp)
      have "live_inv ?t"
        by (rule live_inv_ended [OF _ ss]) (use i cc in \<open>simp_all add: core_inv_def\<close>)
      moreover have "sess_inv ?t"
        using c1 sess_inv_cong [of "cascade_credentials (ev_clock e) uid 2 cs ?s2" ?s2] cascade_sessions_inv [of ?s1]
        by (auto simp: core_inv_def)
      moreover have "cred_inv ?s2"
        using c1 cred_inv_other [of ?s2 ?s1] by (simp add: core_inv_def)
      then have "cred_inv ?t" using cascade_credentials_inv [of ?s2] by auto
      ultimately show ?thesis using 3 by (simp add: core_inv_def)
    qed (use i c1 in simp_all)
  qed
  then show "core_inv (snd (transitionUser e ks cs uid to s))" "same_rest s (snd (transitionUser e ks cs uid to s))"
    by simp_all
qed

subsection \<open>Credentials\<close>

lemma core_add_credential:
  assumes i: "core_inv s" and "is_users s (crd_UsrID c) \<noteq> None" and n: "is_credentials s (crd_ID c) = None"
    and "active c"
  shows "core_inv (put_credential c s)"
proof -
  have "cred_inv (put_credential c s)"
    unfolding put_credential_write using assms by (intro cred_inv_write) (auto simp: core_inv_def)
  moreover have "sess_inv (put_credential c s)"
    using i sess_inv_cong [of "put_credential c s" s] by (simp add: core_inv_def)
  moreover have "live_inv (put_credential c s)"
    by (rule live_inv_mono [of s]) (use i n in \<open>auto simp: core_inv_def\<close>)
  ultimately show ?thesis by (simp add: core_inv_def)
qed

lemma new_credential_sel [simp]:
  "crd_ID (new_credential cid usrID typ ident now) = cid" "crd_UsrID (new_credential cid usrID typ ident now) = usrID"
  "crd_Type (new_credential cid usrID typ ident now) = typ"
  "crd_Identifier (new_credential cid usrID typ ident now) = ident"
  "crd_Status (new_credential cid usrID typ ident now) = StatusActive"
  "crd_Replaces (new_credential cid usrID typ ident now) = None"
  by (simp_all add: new_credential_def)

text \<open>What the three methods that create a credential do: nothing, or the new entries.\<close>

definition adds_credential :: "id_env \<Rightarrow> identity \<Rightarrow> identity \<Rightarrow> Credential \<Rightarrow> bool" where
  "adds_credential e s t c \<longleftrightarrow>
     Generate (ev_uuid e) 0 ''cred'' = Inr (crd_ID c) \<and> active c \<and> is_users s (crd_UsrID c) \<noteq> None \<and>
     is_activeCredByIdent s (crd_key c) = None \<and>
     (\<exists>ph pk. t = put_credential c (s\<lparr>is_passwordHashes := ph, is_passkeyPublicKeys := pk\<rparr>))"

lemma secrets_upd:
  "\<exists>ph pk. s\<lparr>is_passwordHashes := x\<rparr> = s\<lparr>is_passwordHashes := ph, is_passkeyPublicKeys := pk\<rparr>"
  "\<exists>ph pk. s\<lparr>is_passkeyPublicKeys := y\<rparr> = s\<lparr>is_passwordHashes := ph, is_passkeyPublicKeys := pk\<rparr>"
  "\<exists>ph pk. s = s\<lparr>is_passwordHashes := ph, is_passkeyPublicKeys := pk\<rparr>"
  by (intro exI [of _ "x"] exI [of _ "is_passkeyPublicKeys s"], simp)
    (intro exI [of _ "is_passwordHashes s"] exI [of _ "y"], simp,
     intro exI [of _ "is_passwordHashes s"] exI [of _ "is_passkeyPublicKeys s"], simp)

lemma put_secrets:
  "\<exists>ph pk. put_credential c (s\<lparr>is_passwordHashes := x\<rparr>) = put_credential c (s\<lparr>is_passwordHashes := ph, is_passkeyPublicKeys := pk\<rparr>)"
  "\<exists>ph pk. put_credential c (s\<lparr>is_passkeyPublicKeys := y\<rparr>) = put_credential c (s\<lparr>is_passwordHashes := ph, is_passkeyPublicKeys := pk\<rparr>)"
  "\<exists>ph pk. put_credential c s = put_credential c (s\<lparr>is_passwordHashes := ph, is_passkeyPublicKeys := pk\<rparr>)"
  using secrets_upd(1) [of x s] secrets_upd(2) [of y s] secrets_upd(3) [of s] by metis+

lemma CreateCredential_cases:
  shows "(\<exists>x. CreatePasswordCredential e uid ident pw s = (Inl x, s)) \<or>
      (\<exists>c t. CreatePasswordCredential e uid ident pw s = (Inr c, t) \<and> adds_credential e s t c)"
    and "(\<exists>x. CreatePasskeyCredential e uid ident pk n rp s = (Inl x, s)) \<or>
      (\<exists>c t. CreatePasskeyCredential e uid ident pk n rp s = (Inr c, t) \<and> adds_credential e s t c)"
    and "(\<exists>x. CreateOIDCCredential e uid ident iss sub s = (Inl x, s)) \<or>
      (\<exists>c t. CreateOIDCCredential e uid ident iss sub s = (Inr c, t) \<and> adds_credential e s t c)"
  by (auto simp: CreatePasswordCredential_def CreatePasskeyCredential_def CreateOIDCCredential_def Let_def
      adds_credential_def active_def crd_key_def split: sum.split intro!: put_secrets)

lemma adds_credential_core:
  assumes "core_inv s" and "adds_credential e s t c" and "fresh_for (ev_uuid e) 0 ''cred'' (is_credentials s)"
  shows "core_inv t \<and> same_rest s t"
  using assms by (auto simp: adds_credential_def fresh_for_def intro: core_add_credential)

lemma CreateCredential_core:
  assumes "core_inv s" and "fresh_for (ev_uuid e) 0 ''cred'' (is_credentials s)"
  shows "core_inv (snd (CreatePasswordCredential e uid ident pw s)) \<and>
      same_rest s (snd (CreatePasswordCredential e uid ident pw s))"
    and "core_inv (snd (CreatePasskeyCredential e uid ident pk n rp s)) \<and>
      same_rest s (snd (CreatePasskeyCredential e uid ident pk n rp s))"
    and "core_inv (snd (CreateOIDCCredential e uid ident iss sub s)) \<and>
      same_rest s (snd (CreateOIDCCredential e uid ident iss sub s))"
  using CreateCredential_cases(1) [of e uid ident pw s] CreateCredential_cases(2) [of e uid ident pk n rp s]
    CreateCredential_cases(3) [of e uid ident iss sub s] adds_credential_core [OF assms(1) _ assms(2)] assms(1)
  by (elim disjE exE conjE; simp)+

text \<open>A rotation: the old credential is revoked, the new one takes its index entry, and the sessions of the
  old one end.\<close>

definition rotated :: "id_env \<Rightarrow> string list \<Rightarrow> identity \<Rightarrow> Credential \<Rightarrow> Credential \<Rightarrow> identity \<Rightarrow> identity" where
  "rotated e ks s old c s1 =
     cascade_sessions (\<lambda>ss. ses_CredID ss = crd_ID old) (ev_clock e 1) ks
       (put_credential c (s1\<lparr>is_credentials := (is_credentials s1)
            (crd_ID old \<mapsto> old\<lparr>crd_Status := StatusRevoked, crd_UpdatedAt := ev_clock e 0\<rparr>),
          is_activeCredByIdent := (is_activeCredByIdent s1)(crd_key old := None)\<rparr>))"

definition rotates :: "id_env \<Rightarrow> string list \<Rightarrow> identity \<Rightarrow> identity \<Rightarrow> Credential \<Rightarrow> Credential \<Rightarrow> bool" where
  "rotates e ks s t old c \<longleftrightarrow>
     Generate (ev_uuid e) 0 ''cred'' = Inr (crd_ID c) \<and> is_credentials s (crd_ID old) = Some old \<and> active old \<and>
     active c \<and> crd_UsrID c = crd_UsrID old \<and> crd_key c = crd_key old \<and> crd_Replaces c = Some (crd_ID old) \<and>
     (\<exists>ph pk. t = rotated e ks s old c (s\<lparr>is_passwordHashes := ph, is_passkeyPublicKeys := pk\<rparr>))"

lemma rotate_cases:
  assumes i: "core_inv s"
    and m: "\<And>now old c s1. mutate now old s = (Inr c, s1) \<Longrightarrow>
      Generate (ev_uuid e) 0 ''cred'' = Inr (crd_ID c) \<and> active c \<and> crd_UsrID c = crd_UsrID old \<and>
      crd_key c = crd_key old \<and> (\<exists>ph pk. s1 = s\<lparr>is_passwordHashes := ph, is_passkeyPublicKeys := pk\<rparr>)"
    and m': "\<And>now old x s1. mutate now old s = (Inl x, s1) \<Longrightarrow> s1 = s"
  shows "(\<exists>x. rotate e ks cid mutate s = (Inl x, s)) \<or>
      (\<exists>old c t. rotate e ks cid mutate s = (Inr c, t) \<and> crd_ID old = cid \<and> rotates e ks s t old c)"
proof (cases "\<exists>old. is_credentials s cid = Some old \<and> active old")
  case False
  then show ?thesis by (auto simp: rotate_def active_def split: option.split)
next
  case True
  then obtain old where o: "is_credentials s cid = Some old" "active old" by blast
  have oid: "crd_ID old = cid" using keyed_byD [OF cred_invD(2) o(1)] i by (simp add: core_inv_def)
  obtain r s1 where r: "mutate (ev_clock e 0) old s = (r, s1)" by (cases "mutate (ev_clock e 0) old s") auto
  show ?thesis
  proof (cases r)
    case (Inl x)
    then show ?thesis using o r m' by (auto simp: rotate_def active_def)
  next
    case (Inr c)
    from m [OF r [unfolded Inr]] obtain ph pk where c: "Generate (ev_uuid e) 0 ''cred'' = Inr (crd_ID c)"
      "active c" "crd_UsrID c = crd_UsrID old" "crd_key c = crd_key old"
      and s1: "s1 = s\<lparr>is_passwordHashes := ph, is_passkeyPublicKeys := pk\<rparr>" by blast
    let ?c = "c\<lparr>crd_Replaces := Some cid\<rparr>"
    have "rotate e ks cid mutate s = (Inr ?c, rotated e ks s old ?c s1)"
      using o r Inr oid by (simp add: rotate_def rotated_def active_def Let_def cascadeRevokeSessionsForCredential_def crd_key_def)
    moreover have "rotates e ks s (rotated e ks s old ?c s1) old ?c"
      unfolding rotates_def using c o oid s1 by (auto simp: active_def crd_key_def)
    ultimately show ?thesis using oid by blast
  qed
qed

lemma mutate_ok:
  shows "mutate_password e pw now old s = (Inr c, s1) \<Longrightarrow> Generate (ev_uuid e) 0 ''cred'' = Inr (crd_ID c) \<and>
      active c \<and> crd_UsrID c = crd_UsrID old \<and> crd_key c = crd_key old \<and>
      (\<exists>ph pk. s1 = s\<lparr>is_passwordHashes := ph, is_passkeyPublicKeys := pk\<rparr>)"
    and "mutate_passkey e pk n rp now old s = (Inr c, s1) \<Longrightarrow> Generate (ev_uuid e) 0 ''cred'' = Inr (crd_ID c) \<and>
      active c \<and> crd_UsrID c = crd_UsrID old \<and> crd_key c = crd_key old \<and>
      (\<exists>ph pk. s1 = s\<lparr>is_passwordHashes := ph, is_passkeyPublicKeys := pk\<rparr>)"
    and "mutate_oidc e iss sub now old s = (Inr c, s1) \<Longrightarrow> Generate (ev_uuid e) 0 ''cred'' = Inr (crd_ID c) \<and>
      active c \<and> crd_UsrID c = crd_UsrID old \<and> crd_key c = crd_key old \<and>
      (\<exists>ph pk. s1 = s\<lparr>is_passwordHashes := ph, is_passkeyPublicKeys := pk\<rparr>)"
    and "mutate_password e pw now old s = (Inl x, s1) \<Longrightarrow> s1 = s"
    and "mutate_passkey e pk n rp now old s = (Inl x, s1) \<Longrightarrow> s1 = s"
    and "mutate_oidc e iss sub now old s = (Inl x, s1) \<Longrightarrow> s1 = s"
  by (auto simp: mutate_password_def mutate_passkey_def mutate_oidc_def active_def crd_key_def
      split: if_splits sum.splits intro!: secrets_upd)

lemma Rotate_cases:
  assumes "core_inv s"
  shows "(\<exists>x. RotatePassword e ks cid pw s = (Inl x, s)) \<or>
      (\<exists>old c t. RotatePassword e ks cid pw s = (Inr c, t) \<and> crd_ID old = cid \<and> rotates e ks s t old c)"
    and "(\<exists>x. RotatePasskey e ks cid pk n rp s = (Inl x, s)) \<or>
      (\<exists>old c t. RotatePasskey e ks cid pk n rp s = (Inr c, t) \<and> crd_ID old = cid \<and> rotates e ks s t old c)"
    and "(\<exists>x. RotateOIDC e ks cid iss sub s = (Inl x, s)) \<or>
      (\<exists>old c t. RotateOIDC e ks cid iss sub s = (Inr c, t) \<and> crd_ID old = cid \<and> rotates e ks s t old c)"
  unfolding RotatePassword_def RotatePasskey_def RotateOIDC_def
  by (rule rotate_cases [OF assms mutate_ok(1) mutate_ok(4)] rotate_cases [OF assms mutate_ok(2) mutate_ok(5)]
      rotate_cases [OF assms mutate_ok(3) mutate_ok(6)]; assumption)+

lemma rotates_core:
  assumes i: "core_inv s" and r: "rotates e ks s t old c" and f: "fresh_for (ev_uuid e) 0 ''cred'' (is_credentials s)"
    and ks: "visits ks (is_sessions s)"
  shows "core_inv t" "same_rest s t"
proof -
  obtain ph pk where c: "is_credentials s (crd_ID old) = Some old" "active old" "active c"
      "crd_UsrID c = crd_UsrID old" "crd_key c = crd_key old" "is_credentials s (crd_ID c) = None"
    and t: "t = rotated e ks s old c (s\<lparr>is_passwordHashes := ph, is_passkeyPublicKeys := pk\<rparr>)"
    using r f by (auto simp: rotates_def fresh_for_def)
  let ?old = "old\<lparr>crd_Status := StatusRevoked, crd_UpdatedAt := ev_clock e 0\<rparr>"
  let ?s1 = "s\<lparr>is_passwordHashes := ph, is_passkeyPublicKeys := pk\<rparr>"
  let ?s2 = "?s1\<lparr>is_credentials := (is_credentials ?s1)(crd_ID old \<mapsto> ?old),
      is_activeCredByIdent := (is_activeCredByIdent ?s1)(crd_key ?old := None)\<rparr>"
  let ?s3 = "put_credential c ?s2"
  have t': "t = cascade_sessions (\<lambda>ss. ses_CredID ss = crd_ID old) (ev_clock e 1) ks ?s3"
    by (simp add: t rotated_def crd_key_def)
  have c1: "core_inv ?s1" using i by simp
  note d = cred_invD [of s]
  have cs: "cred_inv s" using i by (simp add: core_inv_def)
  have c2: "cred_inv ?s2"
    using c d(3) [OF cs c(1)] by (intro cred_inv_write c1 [unfolded core_inv_def, THEN conjunct2, THEN conjunct1]) auto
  have ne: "crd_ID c \<noteq> crd_ID old" using c(1,6) by auto
  have c3: "cred_inv ?s3" unfolding put_credential_write
    by (intro cred_inv_write c2) (use c d(3) [OF cs c(1)] ne in auto)
  have "cred_inv t" using c3 cred_inv_other [of t ?s3] by (simp add: t' put_credential_def)
  moreover have "sess_inv ?s3" using i sess_inv_cong [of ?s3 s] by (simp add: core_inv_def)
  then have "sess_inv t" unfolding t' by (rule cascade_sessions_inv)
  moreover have "live_inv t"
  proof (rule live_inv_ended)
    show "live_inv s" using i by (simp add: core_inv_def)
    show "is_sessions t k = map_option (ended (\<lambda>ss. ses_CredID ss = crd_ID old) (ev_clock e 1)) (is_sessions s k)" for k
      using cascade_sessions_all [of ks ?s3] ks by (simp add: t')
    show "is_credentials t (ses_CredID ss) = Some c'"
      if "ses_CredID ss \<noteq> crd_ID old" "is_credentials s (ses_CredID ss) = Some c'" for ss c'
      using that c(6) by (auto simp: t')
  qed
  ultimately show "core_inv t" by (simp add: core_inv_def)
  show "same_rest s t" by (simp add: t')
qed

lemma Rotate_core:
  assumes "core_inv s" and "fresh_for (ev_uuid e) 0 ''cred'' (is_credentials s)" and "visits ks (is_sessions s)"
  shows "core_inv (snd (RotatePassword e ks cid pw s)) \<and> same_rest s (snd (RotatePassword e ks cid pw s))"
    and "core_inv (snd (RotatePasskey e ks cid pk n rp s)) \<and> same_rest s (snd (RotatePasskey e ks cid pk n rp s))"
    and "core_inv (snd (RotateOIDC e ks cid iss sub s)) \<and> same_rest s (snd (RotateOIDC e ks cid iss sub s))"
  using Rotate_cases(1) [OF assms(1), of e ks cid pw] Rotate_cases(2) [OF assms(1), of e ks cid pk n rp]
    Rotate_cases(3) [OF assms(1), of e ks cid iss sub] rotates_core [OF assms(1) _ assms(2,3)] assms(1)
  by (elim disjE exE conjE; simp)+

text \<open>A transition of a credential.\<close>

lemma transitionCredential_cases:
  assumes i: "core_inv s" and to: "to \<in> {StatusActive, StatusSuspended, StatusRevoked}"
  obtains (same) r where "transitionCredential e ks cid to s = (r, s)"
  | (up) c c1 where "is_credentials s cid = Some c" "\<not> active c" "crd_Status c \<noteq> StatusRevoked" "to = StatusActive"
      "is_activeCredByIdent s (crd_key c) = None" "c1 = c\<lparr>crd_Status := to, crd_UpdatedAt := ev_clock e 0\<rparr>"
      "transitionCredential e ks cid to s = (Inr c1, s\<lparr>is_credentials := (is_credentials s)(cid \<mapsto> c1),
        is_activeCredByIdent := (is_activeCredByIdent s)(crd_key c1 := Some cid)\<rparr>)"
  | (down) c c1 where "is_credentials s cid = Some c" "crd_Status c \<noteq> StatusRevoked" "to \<noteq> StatusActive"
      "c1 = c\<lparr>crd_Status := to, crd_UpdatedAt := ev_clock e 0\<rparr>"
      "transitionCredential e ks cid to s = (Inr c1,
        cascade_sessions (\<lambda>ss. ses_CredID ss = cid) (ev_clock e 1) ks
          (s\<lparr>is_credentials := (is_credentials s)(cid \<mapsto> c1),
             is_activeCredByIdent := (is_activeCredByIdent s)(crd_key c1 := None)\<rparr>))"
proof (cases "is_credentials s cid")
  case None
  then show ?thesis using same by (simp add: transitionCredential_def)
next
  case (Some c)
  show ?thesis
  proof (cases "crd_Status c = StatusRevoked \<or> crd_Status c = to \<or>
      to = StatusActive \<and> (crd_Status c \<noteq> StatusSuspended \<or> is_activeCredByIdent s (crd_key c) \<noteq> None)")
    case True
    have "\<exists>r. transitionCredential e ks cid to s = (r, s)"
      using Some True by (auto simp: transitionCredential_def Let_def crd_key_def)
    then show ?thesis using same by blast
  next
    case False
    show ?thesis
    proof (cases "to = StatusActive")
      case True
      show ?thesis
        by (rule up [OF Some _ _ True _ refl])
          (use Some True False in \<open>auto simp: transitionCredential_def Let_def active_def crd_key_def
             credential_index_swap\<close>)
    next
      case nt: False
      show ?thesis
        by (rule down [OF Some _ nt refl])
          (use Some nt False to in \<open>auto simp: transitionCredential_def Let_def crd_key_def
             cascadeRevokeSessionsForCredential_def credential_index_swap\<close>)
    qed
  qed
qed

lemma transitionCredential_core:
  assumes i: "core_inv s" and to: "to \<in> {StatusActive, StatusSuspended, StatusRevoked}"
    and ks: "to \<noteq> StatusActive \<Longrightarrow> visits ks (is_sessions s)"
  shows "core_inv (snd (transitionCredential e ks cid to s)) \<and> same_rest s (snd (transitionCredential e ks cid to s))"
proof -
  have cs: "cred_inv s" using i by (simp add: core_inv_def)
  note d = cred_invD [OF cs]
  show ?thesis
  proof (cases rule: transitionCredential_cases [OF i to, of e ks cid, case_names same up down])
    case (up c c1)
    let ?t = "s\<lparr>is_credentials := (is_credentials s)(cid \<mapsto> c1),
        is_activeCredByIdent := (is_activeCredByIdent s)(crd_key c1 := Some cid)\<rparr>"
    have "cred_inv ?t"
      using up d(3) [OF up(1)] keyed_byD [OF d(2) up(1)] by (intro cred_inv_write cs) (auto simp: active_def crd_key_def)
    moreover have "live_inv ?t"
      by (rule live_inv_mono [of s]) (use i up(1,2) in \<open>auto simp: core_inv_def\<close>)
    ultimately show ?thesis using i up sess_inv_cong [of ?t s] by (simp add: core_inv_def)
  next
    case (down c c1)
    let ?s1 = "s\<lparr>is_credentials := (is_credentials s)(cid \<mapsto> c1),
        is_activeCredByIdent := (is_activeCredByIdent s)(crd_key c1 := None)\<rparr>"
    let ?t = "cascade_sessions (\<lambda>ss. ses_CredID ss = cid) (ev_clock e 1) ks ?s1"
    have "cred_inv ?s1"
      using down d(3) [OF down(1)] keyed_byD [OF d(2) down(1)] by (intro cred_inv_write cs) (auto simp: crd_key_def)
    then have "cred_inv ?t" using cred_inv_other [of ?t ?s1] by simp
    moreover have "sess_inv ?t"
      using i sess_inv_cong [of ?s1 s] cascade_sessions_inv [of ?s1] by (simp add: core_inv_def)
    moreover have "live_inv ?t"
    proof (rule live_inv_ended)
      show "live_inv s" using i by (simp add: core_inv_def)
      show "is_sessions ?t k = map_option (ended (\<lambda>ss. ses_CredID ss = cid) (ev_clock e 1)) (is_sessions s k)" for k
        using cascade_sessions_all [of ks ?s1] ks down by simp
    qed simp
    ultimately show ?thesis using down by (simp add: core_inv_def)
  qed (use i in simp)
qed

subsection \<open>Sessions\<close>

lemma core_add_session:
  assumes i: "core_inv s" and n: "is_sessions s (ses_ID ss) = None" and l: "live ss"
    and t: "is_sessionByTokenHash s th = None"
    and c: "is_credentials s (ses_CredID ss) = Some c" "active c" "crd_UsrID c = ses_UsrID ss"
  shows "core_inv (put_session th ss s)"
proof -
  have "sess_inv (put_session th ss s)" using i n l t by (intro put_session_inv) (auto simp: core_inv_def)
  moreover have "cred_inv (put_session th ss s)"
    using i cred_inv_other [of "put_session th ss s" s] by (simp add: core_inv_def)
  moreover have "live_inv (put_session th ss s)"
    using i c unfolding core_inv_def live_inv_def by (auto split: if_splits)
  ultimately show ?thesis by (simp add: core_inv_def)
qed

lemma core_end_session:
  assumes i: "core_inv s" and ss: "is_sessions s sid = Some ss"
  shows "core_inv (end_session now sid ss s)"
proof -
  have "sess_inv (end_session now sid ss s)" using i ss by (intro end_session_inv) (auto simp: core_inv_def)
  moreover have "cred_inv (end_session now sid ss s)"
    using i cred_inv_other [of "end_session now sid ss s" s] by (simp add: core_inv_def)
  moreover have "live_inv (end_session now sid ss s)"
    using i unfolding core_inv_def live_inv_def by (auto simp: live_def split: if_splits)
  ultimately show ?thesis by (simp add: core_inv_def)
qed

definition new_token :: "id_env \<Rightarrow> identity \<Rightarrow> bool" where
  "new_token e s \<longleftrightarrow> (\<forall>tok. newOpaqueToken e 0 = Inr tok \<longrightarrow> is_sessionByTokenHash s (hashToken e tok) = None)"

lemma CreateSession_cases:
  obtains (failed) x where "CreateSession e uid cid ttl s = (Inl x, s)"
  | (created) c tok ss where "is_credentials s cid = Some c" "active c" "crd_UsrID c = uid" "is_users s uid \<noteq> None"
      "Generate (ev_uuid e) 0 ''ses'' = Inr (ses_ID ss)" "newOpaqueToken e 0 = Inr tok"
      "ss = \<lparr>ses_ID = ses_ID ss, ses_UsrID = uid, ses_CredID = cid, ses_CreatedAt = ev_clock e 0,
         ses_ExpiresAt = ev_clock e 0 + wrap64 (ttl * second_ns), ses_RevokedAt = None\<rparr>"
      "CreateSession e uid cid ttl s =
        (Inr \<lparr>swt_Session = ss, swt_Token = tok\<rparr>, put_session (hashToken e tok) ss s)"
proof (cases "\<exists>x. CreateSession e uid cid ttl s = (Inl x, s)")
  case True
  then show ?thesis using failed by blast
next
  case False
  then have u: "is_users s uid \<noteq> None" by (cases "is_users s uid") (simp_all add: CreateSession_def)
  from False u obtain c where c: "is_credentials s cid = Some c"
    by (cases "is_credentials s cid") (simp_all add: CreateSession_def)
  from False u c have c2: "crd_UsrID c = uid" by (cases "crd_UsrID c = uid") (simp_all add: CreateSession_def)
  from False u c c2 have c3: "active c" by (cases "active c") (simp_all add: CreateSession_def active_def)
  from False u c c2 c3 obtain sid where g: "Generate (ev_uuid e) 0 ''ses'' = Inr sid"
    by (cases "Generate (ev_uuid e) 0 ''ses''") (simp_all add: CreateSession_def active_def)
  from False u c c2 c3 g obtain tok where t: "newOpaqueToken e 0 = Inr tok"
    by (cases "newOpaqueToken e 0") (simp_all add: CreateSession_def active_def)
  let ?ss = "\<lparr>ses_ID = sid, ses_UsrID = uid, ses_CredID = cid, ses_CreatedAt = ev_clock e 0,
         ses_ExpiresAt = ev_clock e 0 + wrap64 (ttl * second_ns), ses_RevokedAt = None\<rparr>"
  show ?thesis
    by (rule created [of c ?ss tok]) (use u c c2 c3 g t in \<open>auto simp: CreateSession_def active_def Let_def\<close>)
qed

lemma CreateSession_core:
  assumes i: "core_inv s" and f: "fresh_for (ev_uuid e) 0 ''ses'' (is_sessions s)" and t: "new_token e s"
  shows "core_inv (snd (CreateSession e uid cid ttl s)) \<and> same_rest s (snd (CreateSession e uid cid ttl s))"
proof (cases rule: CreateSession_cases [of e uid cid ttl s])
  case (created c tok ss)
  have "ses_UsrID ss = uid" "ses_CredID ss = cid" "ses_RevokedAt ss = None"
    by (subst created(7), simp)+
  then show ?thesis
    using core_add_session [OF i, of ss "hashToken e tok" c] f t created(1-6,8)
    by (simp add: live_def fresh_for_def new_token_def)
qed (use i in simp)

lemma RefreshSession_cases:
  obtains (failed) x where "RefreshSession e sid s = (Inl x, s)"
  | (ended) x old where "is_sessions s sid = Some old" "live old"
      "RefreshSession e sid s = (Inl x, end_session (ev_clock e 1) sid old s)"
  | (refreshed) old tok ss where "is_sessions s sid = Some old" "live old" "ev_clock e 0 < ses_ExpiresAt old"
      "Generate (ev_uuid e) 0 ''ses'' = Inr (ses_ID ss)" "newOpaqueToken e 0 = Inr tok"
      "ss = \<lparr>ses_ID = ses_ID ss, ses_UsrID = ses_UsrID old, ses_CredID = ses_CredID old, ses_CreatedAt = ev_clock e 1,
         ses_ExpiresAt = ev_clock e 1 + time_Sub (ses_ExpiresAt old) (ses_CreatedAt old), ses_RevokedAt = None\<rparr>"
      "RefreshSession e sid s = (Inr \<lparr>swt_Session = ss, swt_Token = tok\<rparr>,
         put_session (hashToken e tok) ss (end_session (ev_clock e 1) sid old s))"
proof (cases "is_sessions s sid")
  case None
  then show ?thesis using failed by (simp add: RefreshSession_def)
next
  case (Some old)
  show ?thesis
  proof (cases "live old \<and> ev_clock e 0 < ses_ExpiresAt old")
    case False
    have "\<exists>x. RefreshSession e sid s = (Inl x, s)" using Some False by (auto simp: RefreshSession_def live_def)
    then show ?thesis using failed by blast
  next
    case True
    show ?thesis
    proof (cases "Generate (ev_uuid e) 0 ''ses''")
      case (Inl x)
      show ?thesis by (rule ended [OF Some]) (use True Some Inl in \<open>auto simp: RefreshSession_def live_def Let_def\<close>)
    next
      case g: (Inr nid)
      show ?thesis
      proof (cases "newOpaqueToken e 0")
        case (Inl x)
        show ?thesis by (rule ended [OF Some]) (use True Some Inl g in \<open>auto simp: RefreshSession_def live_def Let_def\<close>)
      next
        case (Inr tok)
        let ?ss = "\<lparr>ses_ID = nid, ses_UsrID = ses_UsrID old, ses_CredID = ses_CredID old, ses_CreatedAt = ev_clock e 1,
         ses_ExpiresAt = ev_clock e 1 + time_Sub (ses_ExpiresAt old) (ses_CreatedAt old), ses_RevokedAt = None\<rparr>"
        show ?thesis
          by (rule refreshed [OF Some, of ?ss tok]) (use True Some Inr g in \<open>auto simp: RefreshSession_def live_def Let_def\<close>)
      qed
    qed
  qed
qed

lemma RefreshSession_core:
  assumes i: "core_inv s" and f: "fresh_for (ev_uuid e) 0 ''ses'' (is_sessions s)" and t: "new_token e s"
  shows "core_inv (snd (RefreshSession e sid s)) \<and> same_rest s (snd (RefreshSession e sid s))"
proof (cases rule: RefreshSession_cases [of e sid s])
  case (ended x old)
  then show ?thesis using core_end_session [OF i] by simp
next
  case (refreshed old tok ss)
  let ?s1 = "end_session (ev_clock e 1) sid old s"
  have ss: "ses_UsrID ss = ses_UsrID old" "ses_CredID ss = ses_CredID old" "ses_RevokedAt ss = None"
    by (subst refreshed(6), simp)+
  have c1: "core_inv ?s1" by (rule core_end_session [OF i refreshed(1)])
  have none: "is_sessions s (ses_ID ss) = None" using f refreshed(4) by (simp add: fresh_for_def)
  obtain c where "is_credentials s (ses_CredID old) = Some c" "active c" "crd_UsrID c = ses_UsrID old"
    using i live_invD [OF _ refreshed(1,2)] by (auto simp: core_inv_def)
  moreover have "is_sessions ?s1 (ses_ID ss) = None" using none refreshed(1) by auto
  moreover have "is_sessionByTokenHash ?s1 (hashToken e tok) = None"
    using t refreshed(5) by (auto simp: new_token_def end_session_tokens split: option.split)
  ultimately have "core_inv (put_session (hashToken e tok) ss ?s1)"
    using ss by (intro core_add_session [OF c1]) (auto simp: live_def)
  then show ?thesis using refreshed(7) by simp
qed (use i in simp)

lemma RevokeSession_core:
  "core_inv s \<Longrightarrow> core_inv (snd (RevokeSession e sid s)) \<and> same_rest s (snd (RevokeSession e sid s))"
  by (auto simp: RevokeSession_def intro: core_end_session split: option.split)

subsection \<open>Steps on users, credentials and sessions\<close>

inductive core_step :: "(string \<Rightarrow> string) \<Rightarrow> argon \<Rightarrow> identity \<Rightarrow> identity \<Rightarrow> bool" for sha idkey where
  cs_create_user: "env_of sha idkey e \<Longrightarrow> fresh_for (ev_uuid e) 0 ''usr'' (is_users s) \<Longrightarrow>
     core_step sha idkey s (snd (CreateUser e d s))"
| cs_update_user: "env_of sha idkey e \<Longrightarrow> core_step sha idkey s (snd (UpdateUser e uid i s))"
| cs_suspend_user: "env_of sha idkey e \<Longrightarrow> visits ks (is_sessions s) \<Longrightarrow>
     core_step sha idkey s (snd (SuspendUser e ks uid s))"
| cs_reinstate_user: "env_of sha idkey e \<Longrightarrow> core_step sha idkey s (snd (ReinstateUser e uid s))"
| cs_revoke_user: "env_of sha idkey e \<Longrightarrow> visits ks (is_sessions s) \<Longrightarrow> visits cs (is_credentials s) \<Longrightarrow>
     core_step sha idkey s (snd (RevokeUser e ks cs uid s))"
| cs_password: "env_of sha idkey e \<Longrightarrow> fresh_for (ev_uuid e) 0 ''cred'' (is_credentials s) \<Longrightarrow>
     core_step sha idkey s (snd (CreatePasswordCredential e uid ident pw s))"
| cs_passkey: "env_of sha idkey e \<Longrightarrow> fresh_for (ev_uuid e) 0 ''cred'' (is_credentials s) \<Longrightarrow>
     core_step sha idkey s (snd (CreatePasskeyCredential e uid ident pk n rp s))"
| cs_oidc: "env_of sha idkey e \<Longrightarrow> fresh_for (ev_uuid e) 0 ''cred'' (is_credentials s) \<Longrightarrow>
     core_step sha idkey s (snd (CreateOIDCCredential e uid ident iss sub s))"
| cs_rotate_password: "env_of sha idkey e \<Longrightarrow> fresh_for (ev_uuid e) 0 ''cred'' (is_credentials s) \<Longrightarrow>
     visits ks (is_sessions s) \<Longrightarrow> core_step sha idkey s (snd (RotatePassword e ks cid pw s))"
| cs_rotate_passkey: "env_of sha idkey e \<Longrightarrow> fresh_for (ev_uuid e) 0 ''cred'' (is_credentials s) \<Longrightarrow>
     visits ks (is_sessions s) \<Longrightarrow> core_step sha idkey s (snd (RotatePasskey e ks cid pk n rp s))"
| cs_rotate_oidc: "env_of sha idkey e \<Longrightarrow> fresh_for (ev_uuid e) 0 ''cred'' (is_credentials s) \<Longrightarrow>
     visits ks (is_sessions s) \<Longrightarrow> core_step sha idkey s (snd (RotateOIDC e ks cid iss sub s))"
| cs_suspend_credential: "env_of sha idkey e \<Longrightarrow> visits ks (is_sessions s) \<Longrightarrow>
     core_step sha idkey s (snd (SuspendCredential e ks cid s))"
| cs_reinstate_credential: "env_of sha idkey e \<Longrightarrow> core_step sha idkey s (snd (ReinstateCredential e cid s))"
| cs_revoke_credential: "env_of sha idkey e \<Longrightarrow> visits ks (is_sessions s) \<Longrightarrow>
     core_step sha idkey s (snd (RevokeCredential e ks cid s))"
| cs_create_session: "env_of sha idkey e \<Longrightarrow> fresh_for (ev_uuid e) 0 ''ses'' (is_sessions s) \<Longrightarrow> new_token e s \<Longrightarrow>
     core_step sha idkey s (snd (CreateSession e uid cid ttl s))"
| cs_refresh_session: "env_of sha idkey e \<Longrightarrow> fresh_for (ev_uuid e) 0 ''ses'' (is_sessions s) \<Longrightarrow> new_token e s \<Longrightarrow>
     core_step sha idkey s (snd (RefreshSession e sid s))"
| cs_revoke_session: "env_of sha idkey e \<Longrightarrow> core_step sha idkey s (snd (RevokeSession e sid s))"

lemma core_step_core:
  assumes i: "core_inv s" and "core_step sha idkey s t"
  shows "core_inv t \<and> same_rest s t"
  using assms(2)
proof cases
  case (cs_suspend_user e ks uid)
  then show ?thesis using transitionUser_core [OF i, of StatusSuspended ks "[]" e uid] by (simp add: SuspendUser_def)
next
  case (cs_reinstate_user e uid)
  then show ?thesis using transitionUser_core [OF i, of StatusActive "[]" "[]" e uid] by (simp add: ReinstateUser_def)
next
  case (cs_revoke_user e ks cs uid)
  then show ?thesis using transitionUser_core [OF i, of StatusRevoked ks cs e uid] by (simp add: RevokeUser_def)
next
  case (cs_suspend_credential e ks cid)
  then show ?thesis using transitionCredential_core [OF i, of StatusSuspended ks e cid] by (simp add: SuspendCredential_def)
next
  case (cs_reinstate_credential e cid)
  then show ?thesis using transitionCredential_core [OF i, of StatusActive "[]" e cid] by (simp add: ReinstateCredential_def)
next
  case (cs_revoke_credential e ks cid)
  then show ?thesis using transitionCredential_core [OF i, of StatusRevoked ks e cid] by (simp add: RevokeCredential_def)
qed (use CreateUser_core [OF i] UpdateUser_core [OF i] CreateCredential_core [OF i] Rotate_core [OF i]
    CreateSession_core [OF i] RefreshSession_core [OF i] RevokeSession_core [OF i] in simp_all)

subsection \<open>Users, credentials and sessions only move forward\<close>

definition usr_le :: "User \<Rightarrow> User \<Rightarrow> bool" where
  "usr_le u v \<longleftrightarrow> usr_ID v = usr_ID u \<and> usr_CreatedAt v = usr_CreatedAt u \<and>
     (usr_Status u = StatusRevoked \<longrightarrow> v = u)"

definition crd_le :: "Credential \<Rightarrow> Credential \<Rightarrow> bool" where
  "crd_le c d \<longleftrightarrow> (crd_Status c = StatusRevoked \<longrightarrow> d = c) \<and>
     crd_ID d = crd_ID c \<and> crd_UsrID d = crd_UsrID c \<and> crd_Type d = crd_Type c \<and>
     crd_Identifier d = crd_Identifier c \<and> crd_Replaces d = crd_Replaces c \<and> crd_CreatedAt d = crd_CreatedAt c \<and>
     crd_PasskeySignCount d = crd_PasskeySignCount c \<and> crd_PasskeyRPID d = crd_PasskeyRPID c \<and>
     crd_OIDCIssuer d = crd_OIDCIssuer c \<and> crd_OIDCSubject d = crd_OIDCSubject c"

definition ses_le :: "Session \<Rightarrow> Session \<Rightarrow> bool" where
  "ses_le a b \<longleftrightarrow> b = a \<or> live a \<and> (\<exists>t. b = a\<lparr>ses_RevokedAt := Some t\<rparr>)"

definition core_le :: "identity \<Rightarrow> identity \<Rightarrow> bool" where
  "core_le s t \<longleftrightarrow>
     (\<forall>k u. is_users s k = Some u \<longrightarrow> (\<exists>v. is_users t k = Some v \<and> usr_le u v)) \<and>
     (\<forall>k c. is_credentials s k = Some c \<longrightarrow> (\<exists>d. is_credentials t k = Some d \<and> crd_le c d)) \<and>
     (\<forall>k a. is_sessions s k = Some a \<longrightarrow> (\<exists>b. is_sessions t k = Some b \<and> ses_le a b)) \<and>
     (\<forall>k. is_sessions s k \<noteq> None \<longrightarrow>
        is_sessionTokenHash t k = is_sessionTokenHash s k \<or> is_sessionTokenHash t k = None)"

lemma le_refl_core [simp, intro]: "usr_le u u" "crd_le c c" "ses_le a a" "core_le s s"
  by (auto simp: usr_le_def crd_le_def ses_le_def core_le_def)

lemma usr_le_trans: "usr_le u v \<Longrightarrow> usr_le v w \<Longrightarrow> usr_le u w"
  by (auto simp: usr_le_def)

lemma crd_le_trans: "crd_le c d \<Longrightarrow> crd_le d e \<Longrightarrow> crd_le c e"
  by (auto simp: crd_le_def)

lemma ses_le_trans: "ses_le a b \<Longrightarrow> ses_le b c \<Longrightarrow> ses_le a c"
  by (auto simp: ses_le_def live_def)

lemma core_leD:
  assumes "core_le s t"
  shows "is_users s k = Some u \<Longrightarrow> \<exists>v. is_users t k = Some v \<and> usr_le u v"
    and "is_credentials s k = Some c \<Longrightarrow> \<exists>d. is_credentials t k = Some d \<and> crd_le c d"
    and "is_sessions s k = Some a \<Longrightarrow> \<exists>b. is_sessions t k = Some b \<and> ses_le a b"
    and "is_sessions s k \<noteq> None \<Longrightarrow> is_sessionTokenHash t k = is_sessionTokenHash s k \<or> is_sessionTokenHash t k = None"
proof -
  note parts = assms [unfolded core_le_def]
  show "is_users s k = Some u \<Longrightarrow> \<exists>v. is_users t k = Some v \<and> usr_le u v"
    by (rule parts [THEN conjunct1, rule_format])
  show "is_credentials s k = Some c \<Longrightarrow> \<exists>d. is_credentials t k = Some d \<and> crd_le c d"
    by (rule parts [THEN conjunct2, THEN conjunct1, rule_format])
  show "is_sessions s k = Some a \<Longrightarrow> \<exists>b. is_sessions t k = Some b \<and> ses_le a b"
    by (rule parts [THEN conjunct2, THEN conjunct2, THEN conjunct1, rule_format])
  show "is_sessions s k \<noteq> None \<Longrightarrow> is_sessionTokenHash t k = is_sessionTokenHash s k \<or> is_sessionTokenHash t k = None"
    by (rule parts [THEN conjunct2, THEN conjunct2, THEN conjunct2, rule_format])
qed

lemma core_le_trans: "core_le s t \<Longrightarrow> core_le t u \<Longrightarrow> core_le s u"
proof -
  assume a: "core_le s t" "core_le t u"
  note d = core_leD [OF a(1)] and e = core_leD [OF a(2)]
  have "\<exists>v. is_users u k = Some v \<and> usr_le x v" if "is_users s k = Some x" for k x
    using d(1) [OF that] e(1) usr_le_trans by blast
  moreover have "\<exists>v. is_credentials u k = Some v \<and> crd_le x v" if "is_credentials s k = Some x" for k x
    using d(2) [OF that] e(2) crd_le_trans by blast
  moreover have "\<exists>v. is_sessions u k = Some v \<and> ses_le x v" if "is_sessions s k = Some x" for k x
    using d(3) [OF that] e(3) ses_le_trans by blast
  moreover have "is_sessionTokenHash u k = is_sessionTokenHash s k \<or> is_sessionTokenHash u k = None"
    if "is_sessions s k \<noteq> None" for k
    using that d(3) [of k] d(4) [OF that] e(4) [of k] by auto
  ultimately show ?thesis unfolding core_le_def by (intro conjI allI impI) simp_all
qed

lemma core_le_same: "same_core s t \<Longrightarrow> core_le s t"
  by (auto simp: same_core_def core_le_def)

lemma core_le_user:
  "(\<And>u0. is_users s k = Some u0 \<Longrightarrow> usr_le u0 u) \<Longrightarrow> core_le s (s\<lparr>is_users := (is_users s)(k \<mapsto> u)\<rparr>)"
  by (auto simp: core_le_def)

lemma core_le_credential:
  "(\<And>c0. is_credentials s k = Some c0 \<Longrightarrow> crd_le c0 c) \<Longrightarrow>
   core_le s (s\<lparr>is_credentials := (is_credentials s)(k \<mapsto> c), is_activeCredByIdent := idx\<rparr>)"
  by (auto simp: core_le_def)

lemma core_le_end:
  "is_sessions s sid = Some ss \<Longrightarrow> live ss \<Longrightarrow> core_le s (end_session now sid ss s)"
  by (auto simp: core_le_def ses_le_def end_session_tokens)

lemma core_le_put_session:
  "is_sessions s (ses_ID ss) = None \<Longrightarrow> core_le s (put_session th ss s)"
  by (auto simp: core_le_def)

lemma core_le_cascade_sessions: "core_le s (cascade_sessions hit now ks s)"
proof (induction ks arbitrary: s)
  case (Cons sid ks)
  show ?case
  proof (cases "is_sessions s sid")
    case (Some ss)
    then show ?thesis
      using Cons core_le_end [OF Some] core_le_trans [OF core_le_end [OF Some] Cons] by (auto simp: live_def)
  qed (use Cons in simp)
qed simp

lemma core_le_cascade_credentials: "core_le s (cascade_credentials clk uid n cs s)"
proof (induction cs arbitrary: n s)
  case (Cons cid cs)
  show ?case
  proof (cases "\<exists>c. is_credentials s cid = Some c \<and> cred_hit uid c")
    case True
    then obtain c where c: "is_credentials s cid = Some c" "cred_hit uid c" by blast
    let ?s = "s\<lparr>is_credentials := (is_credentials s)(cid \<mapsto> c\<lparr>crd_Status := StatusRevoked, crd_UpdatedAt := clk n\<rparr>),
        is_activeCredByIdent := (is_activeCredByIdent s)(identKey (crd_Type c) (crd_Identifier c) := None)\<rparr>"
    have "core_le s ?s"
      using c by (intro core_le_credential) (auto simp: crd_le_def cred_hit_def active_def)
    with Cons [of ?s "Suc n"] c show ?thesis
      by (auto simp: cred_hit_def active_def intro: core_le_trans)
  next
    case False
    then have "cascade_credentials clk uid n (cid # cs) s = cascade_credentials clk uid n cs s"
      by (auto simp: cred_hit_def active_def split: option.split)
    with Cons show ?thesis by simp
  qed
qed simp

lemma transitionUser_le: "core_le s (snd (transitionUser e ks cs uid to s))"
proof (cases "is_users s uid")
  case (Some u)
  let ?s1 = "s\<lparr>is_users := (is_users s)(uid \<mapsto> usr_WithStatus u to (ev_clock e 0))\<rparr>"
  let ?s2 = "if to = StatusSuspended \<or> to = StatusRevoked
    then cascadeRevokeSessionsForUser (ev_clock e 1) ks uid ?s1 else ?s1"
  let ?s3 = "if to = StatusRevoked then cascade_credentials (ev_clock e) uid 2 cs ?s2 else ?s2"
  have a: "core_le s ?s1" if "usr_Status u \<noteq> StatusRevoked"
    using that Some by (intro core_le_user) (auto simp: usr_le_def usr_WithStatus_def)
  have b: "core_le ?s1 ?s2" by (simp add: cascadeRevokeSessionsForUser_def core_le_cascade_sessions)
  have c: "core_le ?s2 ?s3" using core_le_cascade_credentials [of ?s2] by auto
  have "core_le s ?s3" if "usr_Status u \<noteq> StatusRevoked"
    by (rule core_le_trans [OF core_le_trans [OF a [OF that] b] c])
  moreover have "snd (transitionUser e ks cs uid to s) = s \<or>
      usr_Status u \<noteq> StatusRevoked \<and> snd (transitionUser e ks cs uid to s) = ?s3"
    using Some by (auto simp: transitionUser_def Let_def)
  ultimately show ?thesis by auto
qed (simp add: transitionUser_def)

lemma adds_credential_le:
  "adds_credential e s t c \<Longrightarrow> fresh_for (ev_uuid e) 0 ''cred'' (is_credentials s) \<Longrightarrow> core_le s t"
  by (auto simp: adds_credential_def fresh_for_def core_le_def)

lemma rotates_le:
  assumes "rotates e ks s t old c" and "fresh_for (ev_uuid e) 0 ''cred'' (is_credentials s)"
  shows "core_le s t"
proof -
  obtain ph pk where r: "is_credentials s (crd_ID old) = Some old" "active old" "is_credentials s (crd_ID c) = None"
    "t = rotated e ks s old c (s\<lparr>is_passwordHashes := ph, is_passkeyPublicKeys := pk\<rparr>)"
    using assms by (auto simp: rotates_def fresh_for_def)
  let ?s1 = "s\<lparr>is_passwordHashes := ph, is_passkeyPublicKeys := pk\<rparr>"
  let ?s2 = "?s1\<lparr>is_credentials := (is_credentials ?s1)
      (crd_ID old \<mapsto> old\<lparr>crd_Status := StatusRevoked, crd_UpdatedAt := ev_clock e 0\<rparr>),
      is_activeCredByIdent := (is_activeCredByIdent ?s1)(crd_key old := None)\<rparr>"
  have ne: "crd_ID c \<noteq> crd_ID old" using r(1,3) by auto
  have "core_le s ?s1" by (auto simp: core_le_def)
  moreover have "core_le ?s1 ?s2"
    using r(1,2) by (intro core_le_credential) (auto simp: crd_le_def active_def)
  moreover have "core_le ?s2 (put_credential c ?s2)"
    unfolding put_credential_write using r(3) ne by (intro core_le_credential) auto
  ultimately show ?thesis
    unfolding r(4) rotated_def by (blast intro: core_le_trans core_le_cascade_sessions)
qed

lemma transitionCredential_le:
  assumes "core_inv s" and "to \<in> {StatusActive, StatusSuspended, StatusRevoked}"
  shows "core_le s (snd (transitionCredential e ks cid to s))"
proof (cases rule: transitionCredential_cases [OF assms, of e ks cid, case_names same up down])
  case (up c c1)
  then show ?thesis by (auto simp: crd_le_def intro!: core_le_credential)
next
  case (down c c1)
  let ?s1 = "s\<lparr>is_credentials := (is_credentials s)(cid \<mapsto> c1),
             is_activeCredByIdent := (is_activeCredByIdent s)(crd_key c1 := None)\<rparr>"
  have "core_le s ?s1" using down by (intro core_le_credential) (auto simp: crd_le_def)
  with down show ?thesis by (auto intro: core_le_trans core_le_cascade_sessions)
qed simp

lemma core_step_le:
  assumes i: "core_inv s" and "core_step sha idkey s t"
  shows "core_le s t"
proof -
  have none: "core_le s (snd p)" if "\<exists>x. p = (Inl x, s)" for p :: "(idn_error + 'a) \<times> identity"
    using that by auto
  show ?thesis using assms(2)
  proof cases
    case (cs_create_user e d)
    then show ?thesis by (auto simp: CreateUser_def Let_def fresh_for_def intro!: core_le_user split: sum.split)
  next
    case (cs_update_user e uid i)
    then show ?thesis
      by (auto simp: UpdateUser_def Let_def usr_le_def intro!: core_le_user split: option.split)
  next
    case (cs_password e uid ident pw)
    then show ?thesis using CreateCredential_cases(1) [of e uid ident pw s] adds_credential_le by fastforce
  next
    case (cs_passkey e uid ident pk n rp)
    then show ?thesis using CreateCredential_cases(2) [of e uid ident pk n rp s] adds_credential_le by fastforce
  next
    case (cs_oidc e uid ident iss sub)
    then show ?thesis using CreateCredential_cases(3) [of e uid ident iss sub s] adds_credential_le by fastforce
  next
    case (cs_rotate_password e ks cid pw)
    then show ?thesis using Rotate_cases(1) [OF i, of e ks cid pw] rotates_le by fastforce
  next
    case (cs_rotate_passkey e ks cid pk n rp)
    then show ?thesis using Rotate_cases(2) [OF i, of e ks cid pk n rp] rotates_le by fastforce
  next
    case (cs_rotate_oidc e ks cid iss sub)
    then show ?thesis using Rotate_cases(3) [OF i, of e ks cid iss sub] rotates_le by fastforce
  next
    case (cs_create_session e uid cid ttl)
    show ?thesis
    proof (cases rule: CreateSession_cases [of e uid cid ttl s])
      case (created c tok ss)
      then show ?thesis using cs_create_session by (auto simp: fresh_for_def intro: core_le_put_session)
    qed (use cs_create_session in simp)
  next
    case (cs_refresh_session e sid)
    show ?thesis
    proof (cases rule: RefreshSession_cases [of e sid s])
      case (ended x old)
      then show ?thesis using cs_refresh_session by (auto intro: core_le_end)
    next
      case (refreshed old tok ss)
      have "is_sessions (end_session (ev_clock e 1) sid old s) (ses_ID ss) = None"
        using refreshed(1,4) cs_refresh_session(3) by (auto simp: fresh_for_def)
      then show ?thesis
        using cs_refresh_session refreshed by (auto intro: core_le_trans [OF core_le_end core_le_put_session])
    qed (use cs_refresh_session in simp)
  next
    case (cs_revoke_session e sid)
    then show ?thesis by (auto simp: RevokeSession_def live_def intro: core_le_end split: option.split)
  qed (simp_all add: SuspendUser_def ReinstateUser_def RevokeUser_def transitionUser_le SuspendCredential_def
      ReinstateCredential_def RevokeCredential_def transitionCredential_le [OF i])
qed

end
