(* ===== verification/IdentityRuns.thy ===== *)
theory IdentityRuns
  imports IdentityCore
begin

text \<open>
  The invariants of factors and personal access tokens, and the runs of the whole store.  The methods on
  WebAuthn factors and \<open>VerifyPatToken\<close> release the lock in between, so their second halves are steps of
  their own, at any time after the first half has read the record.
\<close>

subsection \<open>Factors\<close>

definition factor_inv :: "identity \<Rightarrow> bool" where
  "factor_inv s \<longleftrightarrow>
     keyed_by fac_ID (is_factors s) \<and>
     (\<forall>k m. is_mfaSingleton s k = Some m \<longrightarrow>
        (\<exists>f. is_factors s m = Some f \<and> fac_Type f = FactorTypeTotp \<and> fac_Status f = FactorStatusActive \<and>
             k = singleton_key (fac_UsrID f) ''totp'')) \<and>
     (\<forall>m. is_recoveryConsumed s m \<noteq> None \<longrightarrow> is_factors s m \<noteq> None) \<and>
     (\<forall>m f. is_factors s m = Some f \<longrightarrow> fac_Type f = FactorTypeRecovery \<longrightarrow>
        length (codes_of s m) = length (consumed_of s m) \<and>
        fac_Remaining f = int (length (filter Not (consumed_of s m))))"

lemma factor_invD:
  assumes "factor_inv s"
  shows "keyed_by fac_ID (is_factors s)"
    and "is_mfaSingleton s k = Some m \<Longrightarrow> \<exists>f. is_factors s m = Some f \<and> fac_Type f = FactorTypeTotp \<and>
      fac_Status f = FactorStatusActive \<and> k = singleton_key (fac_UsrID f) ''totp''"
    and "is_recoveryConsumed s m \<noteq> None \<Longrightarrow> is_factors s m \<noteq> None"
    and "is_factors s m = Some f \<Longrightarrow> fac_Type f = FactorTypeRecovery \<Longrightarrow>
      length (codes_of s m) = length (consumed_of s m) \<and>
      fac_Remaining f = int (length (filter Not (consumed_of s m)))"
  using assms unfolding factor_inv_def by blast+

lemma factor_inv_cong: "same_factors s t \<Longrightarrow> factor_inv t = factor_inv s"
  by (simp add: same_factors_def factor_inv_def codes_of_def consumed_of_def)

text \<open>What a method may do to factors: the immutable fields of a factor stay, the codes of a recovery factor
  stay, and a consumed code stays consumed.\<close>

definition fac_le :: "Factor \<Rightarrow> Factor \<Rightarrow> bool" where
  "fac_le f g \<longleftrightarrow> fac_ID g = fac_ID f \<and> fac_UsrID g = fac_UsrID f \<and> fac_Type g = fac_Type f \<and>
     fac_Identifier g = fac_Identifier f \<and> fac_CreatedAt g = fac_CreatedAt f \<and> fac_RpID g = fac_RpID f"

definition consumed_le :: "bool list \<Rightarrow> bool list \<Rightarrow> bool" where
  "consumed_le cs ds \<longleftrightarrow> length ds = length cs \<and> (\<forall>i < length cs. cs ! i \<longrightarrow> ds ! i)"

definition factors_le :: "identity \<Rightarrow> identity \<Rightarrow> bool" where
  "factors_le s t \<longleftrightarrow>
     (\<forall>m f. is_factors s m = Some f \<longrightarrow> (\<exists>g. is_factors t m = Some g \<and> fac_le f g) \<and>
        codes_of t m = codes_of s m \<and> consumed_le (consumed_of s m) (consumed_of t m))"

lemma fac_le_refl [simp, intro]: "fac_le f f" by (simp add: fac_le_def)
lemma consumed_le_refl [simp, intro]: "consumed_le cs cs" by (simp add: consumed_le_def)

lemma factors_le_refl [simp, intro]: "factors_le s s" by (simp add: factors_le_def)

lemma factors_le_trans: "factors_le s t \<Longrightarrow> factors_le t u \<Longrightarrow> factors_le s u"
  unfolding factors_le_def fac_le_def consumed_le_def by fastforce

lemma consumed_le_upd: "consumed_le cs (cs[i := True])"
  by (auto simp: consumed_le_def) (metis nth_list_update_eq nth_list_update_neq)

text \<open>A new factor, and a factor that is written again.\<close>

lemma factor_new:
  assumes i: "factor_inv s" and n: "is_factors s m = None" and "fac_ID f = m"
    and t: "is_factors t = (is_factors s)(m \<mapsto> f)" "is_mfaSingleton t = is_mfaSingleton s"
    and r: "\<And>m'. m' \<noteq> m \<Longrightarrow> is_recoveryHashes t m' = is_recoveryHashes s m' \<and> is_recoveryConsumed t m' = is_recoveryConsumed s m'"
    and f: "fac_Type f = FactorTypeRecovery \<Longrightarrow> length (codes_of t m) = length (consumed_of t m) \<and>
        fac_Remaining f = int (length (filter Not (consumed_of t m)))"
  shows "factor_inv t \<and> factors_le s t"
proof -
  note d = factor_invD [OF i]
  have c: "codes_of t m' = codes_of s m'" "consumed_of t m' = consumed_of s m'" if "m' \<noteq> m" for m'
    using r [OF that] by (simp_all add: codes_of_def consumed_of_def)
  have "keyed_by fac_ID (is_factors t)" unfolding t using d(1) assms(3) by (rule keyed_by_upd)
  moreover have "\<exists>g. is_factors t m' = Some g \<and> fac_Type g = FactorTypeTotp \<and> fac_Status g = FactorStatusActive \<and>
      k = singleton_key (fac_UsrID g) ''totp''" if "is_mfaSingleton t k = Some m'" for k m'
    using d(2) [of k m'] that n by (cases "m' = m") (auto simp: t)
  moreover have "is_factors t m' \<noteq> None" if "is_recoveryConsumed t m' \<noteq> None" for m'
    using d(3) [of m'] that r [of m'] by (cases "m' = m") (auto simp: t)
  moreover have "length (codes_of t m') = length (consumed_of t m') \<and>
      fac_Remaining g = int (length (filter Not (consumed_of t m')))"
    if "is_factors t m' = Some g" "fac_Type g = FactorTypeRecovery" for m' g
    using that f d(4) [of m' g] by (cases "m' = m") (auto simp: t c)
  ultimately have "factor_inv t" unfolding factor_inv_def by blast
  moreover have "factors_le s t" unfolding factors_le_def
  proof (intro allI impI)
    fix m' g assume g: "is_factors s m' = Some g"
    then have "m' \<noteq> m" using n by auto
    with g show "(\<exists>h. is_factors t m' = Some h \<and> fac_le g h) \<and> codes_of t m' = codes_of s m' \<and>
        consumed_le (consumed_of s m') (consumed_of t m')" by (simp add: t c)
  qed
  ultimately show ?thesis ..
qed

lemma factor_write:
  assumes i: "factor_inv s" and f: "is_factors s m = Some f" and g: "fac_le f g"
    and t: "is_factors t = (is_factors s)(m \<mapsto> g)" "is_recoveryHashes t = is_recoveryHashes s"
    and c: "is_recoveryConsumed t = is_recoveryConsumed s \<and> fac_Remaining g = fac_Remaining f \<or>
       (\<exists>cs. is_recoveryConsumed t = (is_recoveryConsumed s)(m \<mapsto> cs) \<and> consumed_le (consumed_of s m) cs \<and>
         fac_Remaining g = int (length (filter Not cs)))"
    and sgl: "\<And>k m'. is_mfaSingleton t k = Some m' \<Longrightarrow>
       (m' \<noteq> m \<and> is_mfaSingleton s k = Some m') \<or>
       (m' = m \<and> fac_Type g = FactorTypeTotp \<and> fac_Status g = FactorStatusActive \<and>
        k = singleton_key (fac_UsrID g) ''totp'')"
  shows "factor_inv t \<and> factors_le s t"
proof -
  note d = factor_invD [OF i]
  have co: "codes_of t m' = codes_of s m'" for m' by (simp add: codes_of_def t)
  have le: "consumed_le (consumed_of s m') (consumed_of t m')" for m'
    using c by (auto simp: consumed_of_def)
  have other: "consumed_of t m' = consumed_of s m'" if "m' \<noteq> m" for m'
    using c that by (auto simp: consumed_of_def)
  have "keyed_by fac_ID (is_factors t)"
    unfolding t using d(1) keyed_byD [OF d(1) f] g by (intro keyed_by_upd) (auto simp: fac_le_def)
  moreover have "\<exists>h. is_factors t m' = Some h \<and> fac_Type h = FactorTypeTotp \<and> fac_Status h = FactorStatusActive \<and>
      k = singleton_key (fac_UsrID h) ''totp''" if "is_mfaSingleton t k = Some m'" for k m'
    using sgl [OF that] d(2) [of k m'] by (auto simp: t)
  moreover have "is_factors t m' \<noteq> None" if "is_recoveryConsumed t m' \<noteq> None" for m'
    using d(3) [of m'] that c by (cases "m' = m") (auto simp: t)
  moreover have "length (codes_of t m') = length (consumed_of t m') \<and>
      fac_Remaining h = int (length (filter Not (consumed_of t m')))"
    if h: "is_factors t m' = Some h" "fac_Type h = FactorTypeRecovery" for m' h
  proof (cases "m' = m")
    case True
    then have "h = g" "fac_Type f = FactorTypeRecovery" using h g by (auto simp: t fac_le_def)
    with d(4) [OF f] c le [of m] True show ?thesis by (auto simp: co consumed_of_def consumed_le_def)
  next
    case False
    with d(4) [of m' h] h show ?thesis by (simp add: t co other)
  qed
  ultimately have "factor_inv t" unfolding factor_inv_def by blast
  moreover have "factors_le s t" using f g le by (auto simp: factors_le_def co t)
  ultimately show ?thesis ..
qed

lemma EnrollTotpFactor_state:
  assumes i: "factor_inv s" and f: "fresh_for (ev_uuid e) 0 ''mfa'' (is_factors s)"
  shows "factor_inv (snd (EnrollTotpFactor e uid label opts s)) \<and> factors_le s (snd (EnrollTotpFactor e uid label opts s))"
proof -
  have "factor_inv t \<and> factors_le s t"
    if "Generate (ev_uuid e) 0 ''mfa'' = Inr m" "t = s\<lparr>is_factors := (is_factors s)(m \<mapsto> g), is_totpSecrets := x\<rparr>"
      "fac_ID g = m" "fac_Type g = FactorTypeTotp" for t m g x
    using that f by (intro factor_new [OF i, of m g t]) (auto simp: fresh_for_def)
  then show ?thesis
    using i by (auto simp: EnrollTotpFactor_def Let_def split: sum.split)
qed

lemma EnrollWebAuthnFactor_state:
  assumes i: "factor_inv s" and f: "fresh_for (ev_uuid e) 0 ''mfa'' (is_factors s)"
  shows "factor_inv (snd (EnrollWebAuthnFactor e uid cid pk n rp s)) \<and>
    factors_le s (snd (EnrollWebAuthnFactor e uid cid pk n rp s))"
proof -
  have "factor_inv t \<and> factors_le s t"
    if "Generate (ev_uuid e) 0 ''mfa'' = Inr m" "t = s\<lparr>is_factors := (is_factors s)(m \<mapsto> g), is_webauthnPublicKeys := x\<rparr>"
      "fac_ID g = m" "fac_Type g = FactorTypeWebAuthn" for t m g x
    using that f by (intro factor_new [OF i, of m g t]) (auto simp: fresh_for_def)
  then show ?thesis
    using i by (auto simp: EnrollWebAuthnFactor_def Let_def split: sum.split)
qed

lemma hash_codes_length: "hash_codes e i cs = Inr hs \<Longrightarrow> length hs = length cs"
  by (induction cs arbitrary: i hs) (auto split: sum.splits)

lemma EnrollRecoveryFactor_cases:
  assumes "EnrollRecoveryFactor e uid s = Some (r, t)"
  obtains (failed) x where "r = Inl x" "t = s"
  | (enrolled) codes hashes f where "is_users s uid \<noteq> None" "GenerateRecoveryCodes (ev_bytes e) = Some (Inr codes)"
      "hash_codes e 0 codes = Inr hashes"
      "Generate (ev_uuid e) 0 ''mfa'' = Inr (fac_ID f)" "fac_UsrID f = uid" "fac_Type f = FactorTypeRecovery"
      "fac_Status f = FactorStatusActive" "fac_Remaining f = int (length codes)"
      "r = Inr \<lparr>rer_Factor = f, rer_Codes = codes\<rparr>"
      "t = s\<lparr>is_factors := (is_factors s)(fac_ID f \<mapsto> f),
             is_recoveryHashes := (is_recoveryHashes s)(fac_ID f \<mapsto> hashes),
             is_recoveryConsumed := (is_recoveryConsumed s)(fac_ID f \<mapsto> replicate (length codes) False)\<rparr>"
proof (cases "is_users s uid")
  case None
  then show ?thesis using assms failed by (auto simp: EnrollRecoveryFactor_def)
next
  case u: (Some u)
  obtain g where g: "GenerateRecoveryCodes (ev_bytes e) = Some g"
    using assms u by (cases "GenerateRecoveryCodes (ev_bytes e)") (auto simp: EnrollRecoveryFactor_def)
  show ?thesis
  proof (cases g)
    case (Inl x)
    then show ?thesis using assms u g failed by (auto simp: EnrollRecoveryFactor_def)
  next
    case codes: (Inr codes)
    show ?thesis
    proof (cases "hash_codes e 0 codes")
      case (Inl x)
      then show ?thesis using assms u g codes failed by (auto simp: EnrollRecoveryFactor_def)
    next
      case h: (Inr hashes)
      show ?thesis
      proof (cases "Generate (ev_uuid e) 0 ''mfa''")
        case (Inl x)
        then show ?thesis using assms u g codes h failed by (auto simp: EnrollRecoveryFactor_def)
      next
        case (Inr m)
        let ?f = "\<lparr>fac_ID = m, fac_UsrID = uid, fac_Type = FactorTypeRecovery,
                             fac_Identifier = [], fac_Status = FactorStatusActive, fac_Replaces = None,
                             fac_CreatedAt = ev_clock e 0, fac_UpdatedAt = ev_clock e 0, fac_RpID = [], fac_SignCount = 0,
                             fac_Remaining = int (length codes)\<rparr>"
        show ?thesis
          by (rule enrolled [of codes hashes ?f]) (use assms u g codes h Inr in \<open>auto simp: EnrollRecoveryFactor_def Let_def\<close>)
      qed
    qed
  qed
qed

lemma EnrollRecoveryFactor_state:
  assumes i: "factor_inv s" and f: "fresh_for (ev_uuid e) 0 ''mfa'' (is_factors s)"
    and r: "EnrollRecoveryFactor e uid s = Some (r, t)"
  shows "factor_inv t \<and> factors_le s t"
  using r
proof (cases rule: EnrollRecoveryFactor_cases)
  case (enrolled codes hashes g)
  have l: "length hashes = length codes" by (rule hash_codes_length [OF enrolled(3)])
  show ?thesis
    by (rule factor_new [OF i, of "fac_ID g" g])
      (use enrolled l f in \<open>auto simp: fresh_for_def codes_of_def consumed_of_def\<close>)
qed (use i in simp)

lemma ConfirmTotpFactor_state:
  assumes i: "factor_inv s" and r: "ConfirmTotpFactor e m code s = Some (r, t)"
  shows "factor_inv t \<and> factors_le s t"
proof (cases "\<exists>f. is_factors s m = Some f \<and> fac_Type f = FactorTypeTotp \<and> r = Inr (f\<lparr>fac_Status := FactorStatusActive, fac_UpdatedAt := ev_clock e 1\<rparr>)")
  case True
  then obtain f where f: "is_factors s m = Some f" "fac_Type f = FactorTypeTotp"
    "r = Inr (f\<lparr>fac_Status := FactorStatusActive, fac_UpdatedAt := ev_clock e 1\<rparr>)" by blast
  let ?g = "f\<lparr>fac_Status := FactorStatusActive, fac_UpdatedAt := ev_clock e 1\<rparr>"
  have t: "t = s\<lparr>is_factors := (is_factors s)(m \<mapsto> ?g),
      is_mfaSingleton := (is_mfaSingleton s)(singleton_key (fac_UsrID f) ''totp'' \<mapsto> m)\<rparr>"
    using r f by (auto simp: ConfirmTotpFactor_def Let_def split: if_splits option.splits sum.splits)
  have s: "k = singleton_key (fac_UsrID f) ''totp''" if "is_mfaSingleton s k = Some m" for k
    using factor_invD(2) [OF i that] f by auto
  show ?thesis unfolding t
    by (rule factor_write [OF i f(1), of ?g]) (use f s in \<open>auto simp: fac_le_def split: if_splits\<close>)
next
  case False
  then have "t = s"
    using r by (auto simp: ConfirmTotpFactor_def Let_def split: if_splits option.splits sum.splits)
  then show ?thesis using i by simp
qed

lemma webauthn_commit_state:
  assumes i: "factor_inv s" and f: "is_factors s m = Some f" "fac_Type f = FactorTypeWebAuthn"
  shows "factor_inv (snd (ConfirmWebAuthn_commit e m n s)) \<and> factors_le s (snd (ConfirmWebAuthn_commit e m n s))"
    and "factor_inv (snd (verifyWebAuthn_commit e m n s)) \<and> factors_le s (snd (verifyWebAuthn_commit e m n s))"
proof -
  have s: "m' \<noteq> m" if "is_mfaSingleton s k = Some m'" for k m'
    using factor_invD(2) [OF i that] f by auto
  show "factor_inv (snd (ConfirmWebAuthn_commit e m n s)) \<and> factors_le s (snd (ConfirmWebAuthn_commit e m n s))"
    unfolding ConfirmWebAuthn_commit_def Let_def snd_conv
    by (rule factor_write [OF i f(1)]) (use f s in \<open>auto simp: fac_le_def zero_factor_of_def\<close>)
  show "factor_inv (snd (verifyWebAuthn_commit e m n s)) \<and> factors_le s (snd (verifyWebAuthn_commit e m n s))"
    unfolding verifyWebAuthn_commit_def Let_def snd_conv
    by (rule factor_write [OF i f(1)]) (use f s in \<open>auto simp: fac_le_def zero_factor_of_def\<close>)
qed

lemma transitionFactor_state:
  assumes i: "factor_inv s"
  shows "factor_inv (snd (transitionFactor e m to s)) \<and> factors_le s (snd (transitionFactor e m to s))"
proof (cases "\<exists>f. is_factors s m = Some f \<and> fac_Status f \<noteq> FactorStatusRevoked")
  case False
  then show ?thesis using i by (auto simp: transitionFactor_def split: option.split)
next
  case True
  then obtain f where f: "is_factors s m = Some f" "fac_Status f \<noteq> FactorStatusRevoked" by blast
  have s: "fac_Type f = FactorTypeTotp \<and> k = singleton_key (fac_UsrID f) ''totp''" if "is_mfaSingleton s k = Some m" for k
    using factor_invD(2) [OF i that] f by auto
  have ty: "FactorTypeTotp = ''totp''" by (simp add: FactorTypeTotp_def)
  show ?thesis
  proof (cases "to = FactorStatusActive")
    case True
    have e: "snd (transitionFactor e m to s) = s\<lparr>is_factors := (is_factors s)(m \<mapsto> f\<lparr>fac_Status := to, fac_UpdatedAt := ev_clock e 0\<rparr>)\<rparr>"
      using f True by (simp add: transitionFactor_def Let_def)
    show ?thesis unfolding e
      by (rule factor_write [OF i f(1)]) (use f s True in \<open>auto simp: fac_le_def\<close>)
  next
    case False
    have e: "snd (transitionFactor e m to s) = s\<lparr>is_factors := (is_factors s)(m \<mapsto> f\<lparr>fac_Status := to, fac_UpdatedAt := ev_clock e 0\<rparr>),
        is_mfaSingleton := (is_mfaSingleton s)(singleton_key (fac_UsrID f) (fac_Type f) := None)\<rparr>"
      using f False by (simp add: transitionFactor_def Let_def)
    show ?thesis unfolding e
      by (rule factor_write [OF i f(1)]) (use f s ty in \<open>auto simp: fac_le_def split: if_splits\<close>)
  qed
qed

lemma find_factor_Some:
  "find_factor hit ks s = m \<Longrightarrow> m \<noteq> [] \<Longrightarrow> \<exists>f. is_factors s m = Some f \<and> hit f"
  by (auto simp: find_factor_def find_Some_iff split: option.splits)

lemma match_code_Some:
  "match_code idkey cand i hs cs = Some (Inr (Some j)) \<Longrightarrow>
   i \<le> j \<and> j < i + length hs \<and> j < i + length cs \<and> \<not> cs ! (j - i) \<and> VerifyPasswordHash idkey (hs ! (j - i)) cand = Inr True"
proof (induction idkey cand i hs cs rule: match_code.induct)
  case (3 idkey cand i h hs c cs)
  let ?rest = "match_code idkey cand (Suc i) hs cs = Some (Inr (Some j))"
  have step: ?case if "?rest" "Suc i \<le> j \<and> j < Suc i + length hs \<and> j < Suc i + length cs \<and> \<not> cs ! (j - Suc i) \<and>
        VerifyPasswordHash idkey (hs ! (j - Suc i)) cand = Inr True"
  proof -
    from that(2) obtain k where "j = Suc i + k" using le_Suc_ex by blast
    with that(2) show ?thesis by simp
  qed
  show ?case
  proof (cases c)
    case True
    then have r: ?rest using 3(3) by simp
    show ?thesis by (rule step [OF r 3(1) [OF True r]])
  next
    case False
    show ?thesis
    proof (cases "VerifyPasswordHash idkey h cand = Inr True")
      case True
      then show ?thesis using 3(3) False by simp
    next
      case no: False
      then have v: "VerifyPasswordHash idkey h cand = Inr False" and r: ?rest
        using 3(3) False by (cases "VerifyPasswordHash idkey h cand"; auto split: if_splits)+
      show ?thesis by (rule step [OF r 3(2) [OF False v _ r]]) simp
    qed
  qed
qed simp_all

lemma verifyRecoveryProof_cases:
  assumes "verifyRecoveryProof e ks uid p s = Some (r, t)"
  obtains (failed) x where "r = Inl x" "t = s"
  | (used) m f i cs where "is_factors s m = Some f" "fac_UsrID f = uid" "fac_Type f = FactorTypeRecovery"
      "fac_Status f = FactorStatusActive"
      "IsValidRecoveryCode (NormalizeRecoveryInput (ev_text e) (rp_Code p))"
      "i < length (codes_of s m)" "i < length (consumed_of s m)" "\<not> consumed_of s m ! i"
      "VerifyPasswordHash (ev_idkey e) (codes_of s m ! i) (NormalizeRecoveryInput (ev_text e) (rp_Code p)) = Inr True"
      "cs = (consumed_of s m)[i := True]"
      "r = Inr \<lparr>mvr_MfaID = m, mvr_Type = FactorTypeRecovery, mvr_MfaVerifiedAt = ev_clock e 1, mvr_NewSignCount = None\<rparr>"
      "t = s\<lparr>is_recoveryConsumed := (is_recoveryConsumed s)(m \<mapsto> cs),
             is_factors := (is_factors s)(m \<mapsto> f\<lparr>fac_Remaining := int (length (filter Not cs)), fac_UpdatedAt := ev_clock e 0\<rparr>)\<rparr>"
proof -
  let ?cand = "NormalizeRecoveryInput (ev_text e) (rp_Code p)"
  let ?hit = "\<lambda>f. fac_UsrID f = uid \<and> fac_Type f = FactorTypeRecovery \<and> fac_Status f = FactorStatusActive"
  define m where "m = find_factor ?hit ks s"
  show ?thesis
  proof (cases "IsValidRecoveryCode ?cand \<and> m \<noteq> []")
    case False
    then show ?thesis using assms failed by (auto simp: verifyRecoveryProof_def Let_def m_def split: if_splits)
  next
    case True
    then obtain f where f: "is_factors s m = Some f" "?hit f" using find_factor_Some m_def by blast
    obtain q where q: "match_code (ev_idkey e) ?cand 0 (codes_of s m) (consumed_of s m) = Some q"
      using assms True unfolding verifyRecoveryProof_def Let_def m_def [symmetric]
      by (cases "match_code (ev_idkey e) ?cand 0 (codes_of s m) (consumed_of s m)") auto
    show ?thesis
    proof (cases "\<exists>i. q = Inr (Some i)")
      case False
      then show ?thesis using assms True q failed unfolding verifyRecoveryProof_def Let_def m_def [symmetric]
        by (auto split: sum.splits option.splits)
    next
      case hit: True
      then obtain i where i: "q = Inr (Some i)" by blast
      from match_code_Some [OF q [unfolded i]] have j: "i < length (codes_of s m)" "i < length (consumed_of s m)"
        "\<not> consumed_of s m ! i" "VerifyPasswordHash (ev_idkey e) (codes_of s m ! i) ?cand = Inr True" by simp_all
      show ?thesis
        by (rule used [of m f i, OF f(1) _ _ _ _ j refl])
          (use assms True q i f in \<open>auto simp: verifyRecoveryProof_def Let_def m_def [symmetric] zero_factor_of_def\<close>)
    qed
  qed
qed

lemma verifyRecoveryProof_state:
  assumes i: "factor_inv s" and r: "verifyRecoveryProof e ks uid p s = Some (r, t)"
  shows "factor_inv t \<and> factors_le s t"
  using r
proof (cases rule: verifyRecoveryProof_cases)
  case (used m f j cs)
  have s: "m' \<noteq> m" if "is_mfaSingleton s k = Some m'" for k m'
    using factor_invD(2) [OF i that] used(1,3) by auto
  show ?thesis
    by (rule factor_write [OF i used(1)]) (use used s in \<open>auto simp: fac_le_def consumed_le_upd\<close>)
qed (use i in simp)

inductive factor_step :: "(string \<Rightarrow> string) \<Rightarrow> argon \<Rightarrow> identity \<Rightarrow> identity \<Rightarrow> bool" for sha idkey where
  fs_enroll_totp: "env_of sha idkey e \<Longrightarrow> fresh_for (ev_uuid e) 0 ''mfa'' (is_factors s) \<Longrightarrow>
     factor_step sha idkey s (snd (EnrollTotpFactor e uid label opts s))"
| fs_enroll_webauthn: "env_of sha idkey e \<Longrightarrow> fresh_for (ev_uuid e) 0 ''mfa'' (is_factors s) \<Longrightarrow>
     factor_step sha idkey s (snd (EnrollWebAuthnFactor e uid cid pk n rp s))"
| fs_enroll_recovery: "env_of sha idkey e \<Longrightarrow> fresh_for (ev_uuid e) 0 ''mfa'' (is_factors s) \<Longrightarrow>
     EnrollRecoveryFactor e uid s = Some (r, t) \<Longrightarrow> factor_step sha idkey s t"
| fs_confirm_totp: "env_of sha idkey e \<Longrightarrow> ConfirmTotpFactor e m code s = Some (r, t) \<Longrightarrow> factor_step sha idkey s t"
| fs_confirm_webauthn: "env_of sha idkey e \<Longrightarrow> is_factors s m = Some f \<Longrightarrow> fac_Type f = FactorTypeWebAuthn \<Longrightarrow>
     factor_step sha idkey s (snd (ConfirmWebAuthn_commit e m n s))"
| fs_transition: "env_of sha idkey e \<Longrightarrow> factor_step sha idkey s (snd (transitionFactor e m to s))"
| fs_webauthn: "env_of sha idkey e \<Longrightarrow> is_factors s m = Some f \<Longrightarrow> fac_Type f = FactorTypeWebAuthn \<Longrightarrow>
     factor_step sha idkey s (snd (verifyWebAuthn_commit e m n s))"
| fs_recovery: "env_of sha idkey e \<Longrightarrow> visits ks (is_factors s) \<Longrightarrow>
     verifyRecoveryProof e ks uid p s = Some (r, t) \<Longrightarrow> factor_step sha idkey s t"
| fs_policy: "env_of sha idkey e \<Longrightarrow> factor_step sha idkey s (snd (SetUserMfaPolicy e uid req grace s))"

lemma factor_step_inv:
  assumes i: "factor_inv s" and "factor_step sha idkey s t"
  shows "factor_inv t \<and> factors_le s t"
  using assms(2)
proof cases
  case (fs_enroll_totp e uid label opts)
  then show ?thesis using EnrollTotpFactor_state [OF i] by simp
next
  case (fs_enroll_webauthn e uid cid pk n rp)
  then show ?thesis using EnrollWebAuthnFactor_state [OF i] by simp
next
  case (fs_enroll_recovery e uid r)
  show ?thesis by (rule EnrollRecoveryFactor_state [OF i fs_enroll_recovery(2,3)])
next
  case (fs_confirm_totp e m code r)
  show ?thesis by (rule ConfirmTotpFactor_state [OF i fs_confirm_totp(2)])
next
  case (fs_confirm_webauthn e m f n)
  then show ?thesis using webauthn_commit_state(1) [OF i] by simp
next
  case (fs_transition e m to)
  then show ?thesis using transitionFactor_state [OF i] by simp
next
  case (fs_webauthn e m f n)
  then show ?thesis using webauthn_commit_state(2) [OF i] by simp
next
  case (fs_recovery e ks uid p r)
  show ?thesis by (rule verifyRecoveryProof_state [OF i fs_recovery(3)])
next
  case (fs_policy e uid req grace)
  have "factor_inv (s\<lparr>is_mfaPolicies := p\<rparr>) = factor_inv s" "factors_le s (s\<lparr>is_mfaPolicies := p\<rparr>)" for p
    by (simp_all add: factor_inv_def factors_le_def codes_of_def consumed_of_def)
  with i fs_policy show ?thesis by (simp add: SetUserMfaPolicy_def Let_def)
qed

lemma factor_step_frame: "factor_step sha idkey s t \<Longrightarrow> same_core s t \<and> same_pats s t"
proof (induction rule: factor_step.induct)
  case (fs_enroll_recovery e s uid r t)
  from fs_enroll_recovery(3) show ?case
    by (cases rule: EnrollRecoveryFactor_cases) (auto simp: same_defs)
next
  case (fs_recovery e ks s uid p r t)
  from fs_recovery(3) show ?case
    by (cases rule: verifyRecoveryProof_cases) (auto simp: same_defs)
qed (auto simp: same_defs EnrollTotpFactor_def EnrollWebAuthnFactor_def ConfirmTotpFactor_def
    ConfirmWebAuthn_commit_def verifyWebAuthn_commit_def transitionFactor_def SetUserMfaPolicy_def Let_def
    split: sum.splits option.splits if_splits)

text \<open>The undisturbed calls are made of these steps.\<close>

lemma commit_state: "map_prod Inr id p = (r, t) \<Longrightarrow> t = snd p"
  by (cases p) simp

lemma VerifyMfa_step:
  assumes "VerifyMfa e ks uid p s = Some (r, t)" and "env_of sha idkey e" and "visits ks (is_factors s)"
  shows "t = s \<or> factor_step sha idkey s t"
proof -
  have w: "t = s \<or> factor_step sha idkey s t" if "verifyWebAuthnProof e ks uid w s = Some (r, t)" for w
  proof -
    have f: "\<exists>f. is_factors s m = Some f \<and> fac_Type f = FactorTypeWebAuthn"
      if "verifyWebAuthn_begin ks uid w s = Inr (m, opts)" for m opts
      using that find_factor_Some by (fastforce simp: verifyWebAuthn_begin_def Let_def split: if_splits)
    show ?thesis
    proof (cases "verifyWebAuthn_begin ks uid w s")
      case (Inr q)
      obtain m opts where q: "q = (m, opts)" by (cases q)
      from f [OF Inr [unfolded q]] obtain f where f: "is_factors s m = Some f" "fac_Type f = FactorTypeWebAuthn" by blast
      show ?thesis
        using that Inr q
        by (auto simp: verifyWebAuthnProof_def fs_webauthn [OF assms(2) f] dest!: commit_state split: option.splits sum.splits)
    qed (use that in \<open>simp add: verifyWebAuthnProof_def\<close>)
  qed
  show ?thesis
    using assms(1) w fs_recovery [OF assms(2,3)] by (auto simp: VerifyMfa_def split: option.splits)
qed

lemma ConfirmWebAuthnFactor_step:
  assumes "ConfirmWebAuthnFactor e m p s = Some (r, t)" and "env_of sha idkey e"
  shows "t = s \<or> factor_step sha idkey s t"
proof (cases "ConfirmWebAuthn_begin m p s")
  case (Inr opts)
  then obtain f where f: "is_factors s m = Some f" "fac_Type f = FactorTypeWebAuthn"
    by (auto simp: ConfirmWebAuthn_begin_def split: option.splits if_splits)
  show ?thesis
    using assms(1) Inr
    by (auto simp: ConfirmWebAuthnFactor_def fs_confirm_webauthn [OF assms(2) f] dest!: commit_state split: option.splits sum.splits)
qed (use assms(1) in \<open>simp add: ConfirmWebAuthnFactor_def\<close>)

subsection \<open>Personal access tokens\<close>

definition pat_inv :: "identity \<Rightarrow> bool" where
  "pat_inv s \<longleftrightarrow>
     keyed_by pat_ID (is_pats s) \<and>
     (\<forall>k. is_patSecretHashes s k \<noteq> None \<longleftrightarrow> is_pats s k \<noteq> None) \<and>
     (\<forall>k p. is_pats s k = Some p \<longrightarrow> (pat_RevokedAt p \<noteq> None \<longleftrightarrow> pat_Status p = PatStatusRevoked))"

lemma pat_invD:
  assumes "pat_inv s"
  shows "keyed_by pat_ID (is_pats s)"
    and "is_patSecretHashes s k \<noteq> None \<longleftrightarrow> is_pats s k \<noteq> None"
    and "is_pats s k = Some p \<Longrightarrow> pat_RevokedAt p \<noteq> None \<longleftrightarrow> pat_Status p = PatStatusRevoked"
  using assms unfolding pat_inv_def by blast+

lemma pat_inv_cong: "same_pats s t \<Longrightarrow> pat_inv t = pat_inv s"
  by (simp add: same_pats_def pat_inv_def)

definition pat_le :: "PersonalAccessToken \<Rightarrow> PersonalAccessToken \<Rightarrow> bool" where
  "pat_le p q \<longleftrightarrow> pat_ID q = pat_ID p \<and> pat_UsrID q = pat_UsrID p \<and> pat_Name q = pat_Name p \<and>
     pat_Scope q = pat_Scope p \<and> pat_ExpiresAt q = pat_ExpiresAt p \<and> pat_CreatedAt q = pat_CreatedAt p \<and>
     (pat_RevokedAt p \<noteq> None \<longrightarrow> q = p)"

definition pats_le :: "identity \<Rightarrow> identity \<Rightarrow> bool" where
  "pats_le s t \<longleftrightarrow>
     (\<forall>k p. is_pats s k = Some p \<longrightarrow> (\<exists>q. is_pats t k = Some q \<and> pat_le p q) \<and>
        is_patSecretHashes t k = is_patSecretHashes s k)"

lemma pats_le_refl [simp, intro]: "pats_le s s" by (simp add: pats_le_def pat_le_def)

lemma pat_le_trans: "pat_le p q \<Longrightarrow> pat_le q r \<Longrightarrow> pat_le p r"
  by (auto simp: pat_le_def)

lemma pats_le_trans: "pats_le s t \<Longrightarrow> pats_le t u \<Longrightarrow> pats_le s u"
  unfolding pats_le_def by (fastforce intro: pat_le_trans)

inductive pat_step :: "(string \<Rightarrow> string) \<Rightarrow> argon \<Rightarrow> identity \<Rightarrow> identity \<Rightarrow> bool" for sha idkey where
  ps_create: "env_of sha idkey e \<Longrightarrow> fresh_for (ev_uuid e) 0 ''pat'' (is_pats s) \<Longrightarrow>
     pat_step sha idkey s (snd (CreatePat e i s))"
| ps_verify: "pat_step sha idkey s (VerifyPat_commit now k s)"
| ps_revoke: "env_of sha idkey e \<Longrightarrow> pat_step sha idkey s (snd (RevokePat e k s))"

lemma CreatePat_cases:
  obtains (failed) x where "CreatePat e i s = (Inl x, s)"
  | (created) p b hash where "is_users s (cpi_UsrID i) \<noteq> None" "Generate (ev_uuid e) 0 ''pat'' = Inr (pat_ID p)"
      "ev_rand e 0 32 = Inr b" "HashPassword (ev_idkey e) (ev_rand e 1 16) (RawURLEncoding_EncodeToString b) = Inr hash"
      "1 \<le> length (cpi_Name i)" "length (cpi_Name i) \<le> 120"
      "p = \<lparr>pat_ID = pat_ID p, pat_UsrID = cpi_UsrID i, pat_Name = cpi_Name i, pat_Scope = cpi_Scope i,
            pat_Status = PatStatusActive, pat_ExpiresAt = cpi_ExpiresAt i, pat_LastUsedAt = None, pat_RevokedAt = None,
            pat_CreatedAt = ev_clock e (if cpi_ExpiresAt i = None then 0 else 1),
            pat_UpdatedAt = ev_clock e (if cpi_ExpiresAt i = None then 0 else 1)\<rparr>"
      "CreatePat e i s = (Inr \<lparr>cpr_Pat = p, cpr_Token = pat_ID p @ ''_'' @ RawURLEncoding_EncodeToString b\<rparr>,
         s\<lparr>is_pats := (is_pats s)(pat_ID p \<mapsto> p),
           is_patSecretHashes := (is_patSecretHashes s)(pat_ID p \<mapsto> hash)\<rparr>)"
proof (cases "\<exists>x. CreatePat e i s = (Inl x, s)")
  case True
  then show ?thesis using failed by blast
next
  case False
  then have u: "is_users s (cpi_UsrID i) \<noteq> None" by (cases "is_users s (cpi_UsrID i)") (simp_all add: CreatePat_def)
  from False u have n: "\<not> (length (cpi_Name i) < 1 \<or> length (cpi_Name i) > 120)"
    by (cases "length (cpi_Name i) < 1 \<or> length (cpi_Name i) > 120") (simp_all add: CreatePat_def)
  let ?late = "case cpi_ExpiresAt i of None \<Rightarrow> False
               | Some x \<Rightarrow> x > ev_clock e 0 + wrap64 (PatMaxLifetimeSeconds * second_ns)"
  from False u n have l: "\<not> ?late" by (cases ?late) (simp_all add: CreatePat_def)
  note d = CreatePat_def if_not_P [OF n] if_not_P [OF l]
  from False u obtain m where g: "Generate (ev_uuid e) 0 ''pat'' = Inr m"
    unfolding d by (cases "Generate (ev_uuid e) 0 ''pat''") simp_all
  from False u g obtain b where b: "ev_rand e 0 32 = Inr b"
    unfolding d by (cases "ev_rand e 0 32") simp_all
  from False u g b obtain hash where h: "HashPassword (ev_idkey e) (ev_rand e 1 16) (RawURLEncoding_EncodeToString b) = Inr hash"
    unfolding d by (cases "HashPassword (ev_idkey e) (ev_rand e 1 16) (RawURLEncoding_EncodeToString b)")
      (simp_all add: Let_def argon2idSaltBytes_def)
  let ?now = "ev_clock e (if cpi_ExpiresAt i = None then 0 else 1)"
  let ?p = "\<lparr>pat_ID = m, pat_UsrID = cpi_UsrID i, pat_Name = cpi_Name i, pat_Scope = cpi_Scope i,
            pat_Status = PatStatusActive, pat_ExpiresAt = cpi_ExpiresAt i, pat_LastUsedAt = None, pat_RevokedAt = None,
            pat_CreatedAt = ?now, pat_UpdatedAt = ?now\<rparr>"
  show ?thesis
  proof (rule created [of ?p b hash])
    show "CreatePat e i s = (Inr \<lparr>cpr_Pat = ?p, cpr_Token = pat_ID ?p @ ''_'' @ RawURLEncoding_EncodeToString b\<rparr>,
         s\<lparr>is_pats := (is_pats s)(pat_ID ?p \<mapsto> ?p),
           is_patSecretHashes := (is_patSecretHashes s)(pat_ID ?p \<mapsto> hash)\<rparr>)"
      using u g b h unfolding d by (simp add: Let_def argon2idSaltBytes_def)
  qed (use u g b h n in \<open>auto simp: Suc_le_eq\<close>)
qed

lemma VerifyPat_commit_cases:
  "VerifyPat_commit now k s = s \<or> (\<exists>p l. is_pats s k = Some p \<and> pat_RevokedAt p = None \<and>
     VerifyPat_commit now k s = s\<lparr>is_pats := (is_pats s)(k \<mapsto> p\<lparr>pat_LastUsedAt := Some now, pat_UpdatedAt := now\<rparr>),
       is_patLastUsedPersist := l\<rparr>)"
proof (cases "\<exists>p. is_pats s k = Some p \<and> pat_RevokedAt p = None")
  case False
  have "VerifyPat_commit now k s = s"
  proof (cases "is_pats s k")
    case (Some p)
    with False obtain y where "pat_RevokedAt p = Some y" by (cases "pat_RevokedAt p") auto
    with Some show ?thesis by (simp add: VerifyPat_commit_def)
  qed (simp add: VerifyPat_commit_def)
  then show ?thesis ..
next
  case True
  then obtain p where p: "is_pats s k = Some p" "pat_RevokedAt p = None" by blast
  let ?due = "case is_patLastUsedPersist s k of None \<Rightarrow> True
      | Some prev \<Rightarrow> time_Sub now prev \<ge> wrap64 (is_patLastUsedCoalesceSeconds s * second_ns)"
  let ?t = "s\<lparr>is_pats := (is_pats s)(k \<mapsto> p\<lparr>pat_LastUsedAt := Some now, pat_UpdatedAt := now\<rparr>),
        is_patLastUsedPersist := (is_patLastUsedPersist s)(k \<mapsto> now)\<rparr>"
  have e: "VerifyPat_commit now k s = (if ?due then ?t else s)"
    unfolding VerifyPat_commit_def p(1) option.case if_P [OF p(2)] ..
  show ?thesis
  proof (cases ?due)
    case True
    then have "VerifyPat_commit now k s = ?t" unfolding e by (rule if_P)
    with p show ?thesis by blast
  next
    case False
    then have "VerifyPat_commit now k s = s" unfolding e by (rule if_not_P)
    then show ?thesis ..
  qed
qed

lemma pat_write:
  assumes i: "pat_inv s" and p: "is_pats s k = Some p" "pat_RevokedAt p = None" and q: "pat_le p q"
    "pat_RevokedAt q \<noteq> None \<longleftrightarrow> pat_Status q = PatStatusRevoked"
    and t: "is_pats t = (is_pats s)(k \<mapsto> q)" "is_patSecretHashes t = is_patSecretHashes s"
  shows "pat_inv t \<and> pats_le s t"
proof -
  note d = pat_invD [OF i]
  have "keyed_by pat_ID (is_pats t)"
    unfolding t using d(1) keyed_byD [OF d(1) p(1)] q(1) by (intro keyed_by_upd) (auto simp: pat_le_def)
  moreover have "is_patSecretHashes t k' \<noteq> None \<longleftrightarrow> is_pats t k' \<noteq> None" for k'
    using d(2) [of k'] p(1) by (auto simp: t)
  moreover have "pat_RevokedAt r \<noteq> None \<longleftrightarrow> pat_Status r = PatStatusRevoked" if "is_pats t k' = Some r" for k' r
    using d(3) [of k' r] that q(2) by (cases "k' = k") (auto simp: t)
  ultimately have "pat_inv t" unfolding pat_inv_def by blast
  moreover have "pats_le s t" using p q(1) by (auto simp: pats_le_def t pat_le_def)
  ultimately show ?thesis ..
qed

lemma pat_step_inv:
  assumes i: "pat_inv s" and "pat_step sha idkey s t"
  shows "pat_inv t \<and> pats_le s t"
  using assms(2)
proof cases
  case (ps_create e ci)
  show ?thesis
  proof (cases rule: CreatePat_cases [of e ci s])
    case (created p b hash)
    note d = pat_invD [OF i]
    have new: "is_pats s (pat_ID p) = None" using ps_create(3) created(2) by (simp add: fresh_for_def)
    have st: "pat_RevokedAt p = None" "pat_Status p = PatStatusActive" by (subst created(7), simp)+
    have t: "t = s\<lparr>is_pats := (is_pats s)(pat_ID p \<mapsto> p), is_patSecretHashes := (is_patSecretHashes s)(pat_ID p \<mapsto> hash)\<rparr>"
      using ps_create(1) created(8) by simp
    have "keyed_by pat_ID (is_pats t)" using keyed_by_upd [OF d(1), of p "pat_ID p"] by (simp add: t)
    moreover have "is_patSecretHashes t k' \<noteq> None \<longleftrightarrow> is_pats t k' \<noteq> None" for k'
      using d(2) [of k'] by (auto simp: t)
    moreover have "pat_RevokedAt r \<noteq> None \<longleftrightarrow> pat_Status r = PatStatusRevoked" if "is_pats t k' = Some r" for k' r
      using d(3) [of k' r] that st by (cases "k' = pat_ID p") (auto simp: t)
    ultimately have "pat_inv t" unfolding pat_inv_def by blast
    moreover have "pats_le s t" using new by (auto simp: pats_le_def t pat_le_def)
    ultimately show ?thesis ..
  qed (use i ps_create in simp)
next
  case (ps_verify now k)
  from VerifyPat_commit_cases [of now k s] show ?thesis
  proof (elim disjE exE conjE)
    fix p l assume a: "is_pats s k = Some p" "pat_RevokedAt p = None"
      "VerifyPat_commit now k s = s\<lparr>is_pats := (is_pats s)(k \<mapsto> p\<lparr>pat_LastUsedAt := Some now, pat_UpdatedAt := now\<rparr>),
       is_patLastUsedPersist := l\<rparr>"
    show ?thesis
      by (rule pat_write [OF i a(1,2), of "p\<lparr>pat_LastUsedAt := Some now, pat_UpdatedAt := now\<rparr>"])
        (use a ps_verify pat_invD(3) [OF i a(1)] in \<open>auto simp: pat_le_def\<close>)
  qed (use i ps_verify in simp)
next
  case (ps_revoke e k)
  show ?thesis
  proof (cases "\<exists>p. is_pats s k = Some p \<and> pat_RevokedAt p = None")
    case True
    then obtain p where p: "is_pats s k = Some p" "pat_RevokedAt p = None" by blast
    show ?thesis
      by (rule pat_write [OF i p, of "p\<lparr>pat_RevokedAt := Some (ev_clock e 0), pat_Status := PatStatusRevoked,
            pat_UpdatedAt := ev_clock e 0\<rparr>"])
        (use p ps_revoke in \<open>auto simp: pat_le_def RevokePat_def Let_def\<close>)
  next
    case False
    then show ?thesis using i ps_revoke by (auto simp: RevokePat_def split: option.split)
  qed
qed

lemma pat_step_frame: "pat_step sha idkey s t \<Longrightarrow> same_core s t \<and> same_factors s t"
  by (induction rule: pat_step.induct)
    (auto simp: same_defs CreatePat_def VerifyPat_commit_def RevokePat_def Let_def
      split: sum.splits option.splits if_splits)

lemma VerifyPatToken_step:
  "snd (VerifyPatToken e token s) = s \<or> pat_step sha idkey s (snd (VerifyPatToken e token s))"
  by (auto simp: VerifyPatToken_def intro: ps_verify split: sum.split prod.split)

subsection \<open>Runs of the store\<close>

inductive identity_step :: "(string \<Rightarrow> string) \<Rightarrow> argon \<Rightarrow> identity \<Rightarrow> identity \<Rightarrow> bool" for sha idkey where
  is_core: "core_step sha idkey s t \<Longrightarrow> identity_step sha idkey s t"
| is_factor: "factor_step sha idkey s t \<Longrightarrow> identity_step sha idkey s t"
| is_pat: "pat_step sha idkey s t \<Longrightarrow> identity_step sha idkey s t"

definition idn_inv :: "identity \<Rightarrow> bool" where
  "idn_inv s \<longleftrightarrow> core_inv s \<and> factor_inv s \<and> pat_inv s"

definition idn_le :: "identity \<Rightarrow> identity \<Rightarrow> bool" where
  "idn_le s t \<longleftrightarrow> core_le s t \<and> factors_le s t \<and> pats_le s t"

lemma idn_le_trans: "idn_le s t \<Longrightarrow> idn_le t u \<Longrightarrow> idn_le s u"
  unfolding idn_le_def using core_le_trans factors_le_trans pats_le_trans by blast

lemma same_le: "same_factors s t \<Longrightarrow> factors_le s t" "same_pats s t \<Longrightarrow> pats_le s t"
  by (auto simp: same_factors_def same_pats_def factors_le_def pats_le_def codes_of_def consumed_of_def pat_le_def)

lemma idn_inv_new: "idn_inv NewInMemoryIdentityStore"
  by (simp add: idn_inv_def core_inv_def sess_inv_def cred_inv_def live_inv_def factor_inv_def pat_inv_def
      NewInMemoryIdentityStore_def)

lemma identity_step_inv:
  assumes "idn_inv s" and "identity_step sha idkey s t"
  shows "idn_inv t \<and> idn_le s t"
  using assms(2)
proof cases
  case is_core
  with assms(1) core_step_core core_step_le have "core_inv t" "same_rest s t" "core_le s t"
    unfolding idn_inv_def by blast+
  then show ?thesis using assms(1) factor_inv_cong pat_inv_cong same_le
    unfolding idn_inv_def idn_le_def same_rest_def by blast
next
  case is_factor
  with assms(1) factor_step_inv have "factor_inv t" "factors_le s t" unfolding idn_inv_def by blast+
  moreover from is_factor have "same_core s t" "same_pats s t" using factor_step_frame by blast+
  ultimately show ?thesis using assms(1) core_inv_cong pat_inv_cong same_le core_le_same
    unfolding idn_inv_def idn_le_def by blast
next
  case is_pat
  with assms(1) pat_step_inv have "pat_inv t" "pats_le s t" unfolding idn_inv_def by blast+
  moreover from is_pat have "same_core s t" "same_factors s t" using pat_step_frame by blast+
  ultimately show ?thesis using assms(1) core_inv_cong factor_inv_cong same_le core_le_same
    unfolding idn_inv_def idn_le_def by blast
qed

interpretation idn: stable_system "\<lambda>s. s = NewInMemoryIdentityStore" "identity_step sha idkey" idn_inv idn_le
  for sha idkey
  by unfold_locales (use identity_step_inv idn_inv_new idn_le_trans in blast)+

definition id_reachable :: "(string \<Rightarrow> string) \<Rightarrow> argon \<Rightarrow> identity \<Rightarrow> bool" where
  "id_reachable sha idkey s \<longleftrightarrow> (identity_step sha idkey)\<^sup>*\<^sup>* NewInMemoryIdentityStore s"

lemma reachable_inv: "id_reachable sha idkey s \<Longrightarrow> idn_inv s"
  unfolding id_reachable_def by (rule idn.inv_reachable [OF refl])

lemma run_le: "idn_inv s \<Longrightarrow> (identity_step sha idkey)\<^sup>*\<^sup>* s t \<Longrightarrow> idn_le s t"
  using idn.stable_run [of sha idkey s t s] by (simp add: idn_le_def)

lemma run_inv: "idn_inv s \<Longrightarrow> (identity_step sha idkey)\<^sup>*\<^sup>* s t \<Longrightarrow> idn_inv t"
  by (rule idn.inv_run)

lemma id_reachable_run: "id_reachable sha idkey s \<Longrightarrow> (identity_step sha idkey)\<^sup>*\<^sup>* s t \<Longrightarrow> id_reachable sha idkey t"
  unfolding id_reachable_def by (rule rtranclp_trans)

end
