(* ===== verification/IdentityDemo.thy ===== *)
theory IdentityDemo
  imports IdentityRuns
begin

text \<open>
  Concrete runs of the identity store, for the instances of its properties: the generators, the clock and the
  digests are constants, a user with an OIDC credential opens a session.
\<close>

definition demo_sha :: "string \<Rightarrow> string" where "demo_sha s = s"

definition demo_env :: "char \<Rightarrow> gotime \<Rightarrow> id_env" where
  "demo_env x now =
     \<lparr>ev_uuid = demo_seq x, ev_clock = (\<lambda>n. now), ev_rand = (\<lambda>n k. Inr (replicate (nat k) x)),
      ev_bytes = (\<lambda>n. Inr CHR 0x00), ev_idkey = demo_idkey, ev_hmac = demo_hmac, ev_text = demo_text,
      ev_lower = id, ev_wa = demo_walib\<lparr>sha256_Sum256 := demo_sha\<rparr>\<rparr>"

lemma demo_env_of: "env_of demo_sha demo_idkey (demo_env x now)"
  by (simp add: env_of_def demo_env_def)

lemma new_token_code [code]:
  "new_token e s \<longleftrightarrow> (case newOpaqueToken e 0 of Inl _ \<Rightarrow> True
     | Inr tok \<Rightarrow> is_sessionByTokenHash s (hashToken e tok) = None)"
  by (auto simp: new_token_def split: sum.split)

definition demo_uid :: string where "demo_uid = ''usr_0190f2a81b3c7abc8123456789abcda0''"
definition demo_cred :: string where "demo_cred = ''cred_0190f2a81b3c7abc8123456789abcdb0''"
definition demo_ses :: string where "demo_ses = ''ses_0190f2a81b3c7abc8123456789abcdc0''"

definition demo_id1 :: identity where
  "demo_id1 = snd (CreateUser (demo_env CHR ''a'' 1) (Some ''Ann'') NewInMemoryIdentityStore)"

definition demo_id2 :: identity where
  "demo_id2 = snd (CreateOIDCCredential (demo_env CHR ''b'' 2) demo_uid ''ann'' ''iss'' ''sub'' demo_id1)"

definition demo_id3 :: identity where
  "demo_id3 = snd (CreateSession (demo_env CHR ''c'' 3) demo_uid demo_cred 60 demo_id2)"

abbreviation demo_step :: "identity \<Rightarrow> identity \<Rightarrow> bool" where
  "demo_step \<equiv> identity_step demo_sha demo_idkey"

lemma demo_id1_reach: "id_reachable demo_sha demo_idkey demo_id1"
proof -
  have "fresh_for (ev_uuid (demo_env CHR ''a'' 1)) 0 ''usr'' (is_users NewInMemoryIdentityStore)" by code_simp
  then have "demo_step NewInMemoryIdentityStore demo_id1"
    unfolding demo_id1_def by (intro is_core cs_create_user demo_env_of)
  then show ?thesis unfolding id_reachable_def by (rule r_into_rtranclp)
qed

lemma demo_reach:
  assumes "id_reachable demo_sha demo_idkey s" and "core_step demo_sha demo_idkey s t"
  shows "id_reachable demo_sha demo_idkey t"
  using id_reachable_run [OF assms(1)] is_core [OF assms(2)] by blast

lemma demo_id2_reach: "id_reachable demo_sha demo_idkey demo_id2"
proof -
  have "fresh_for (ev_uuid (demo_env CHR ''b'' 2)) 0 ''cred'' (is_credentials demo_id1)" by code_simp
  then show ?thesis
    unfolding demo_id2_def by (intro demo_reach [OF demo_id1_reach] cs_oidc demo_env_of)
qed

lemma demo_session_fresh:
  "fresh_for (ev_uuid (demo_env CHR ''c'' 3)) 0 ''ses'' (is_sessions demo_id2)"
  "new_token (demo_env CHR ''c'' 3) demo_id2"
  by code_simp+

lemma demo_id3_reach: "id_reachable demo_sha demo_idkey demo_id3"
  unfolding demo_id3_def
  by (intro demo_reach [OF demo_id2_reach] cs_create_session demo_env_of demo_session_fresh)

definition demo_token :: string where "demo_token = RawURLEncoding_EncodeToString (replicate 32 CHR ''c'')"

definition demo_session :: Session where
  "demo_session = \<lparr>ses_ID = demo_ses, ses_UsrID = demo_uid, ses_CredID = demo_cred, ses_CreatedAt = 3,
     ses_ExpiresAt = 60000000003, ses_RevokedAt = None\<rparr>"

lemma demo_session_made:
  "CreateSession (demo_env CHR ''c'' 3) demo_uid demo_cred 60 demo_id2
     = (Inr \<lparr>swt_Session = demo_session, swt_Token = demo_token\<rparr>, demo_id3)"
  by (subst surjective_pairing, unfold demo_id3_def, simp only: prod.inject simp_thms, code_simp)

lemma demo_session_verified: "VerifySessionToken (demo_env CHR ''d'' 4) demo_token demo_id3 = Inr demo_session"
  by code_simp

text \<open>The keys of the maps, in a run that enters only the demo records.\<close>

lemma demo_visits_ids:
  "visits [demo_ses] (is_sessions demo_id3)" "visits [demo_cred] (is_credentials demo_id3)"
proof -
  have u: "is_sessions demo_id2 = Map.empty" "is_credentials demo_id1 = Map.empty"
    by (simp_all add: demo_id2_def demo_id1_def CreateOIDCCredential_def CreateUser_def Let_def put_credential_def
        NewInMemoryIdentityStore_def split: sum.split)
  have "is_sessions demo_id3 = [demo_ses \<mapsto> demo_session]"
  proof -
    have m: "demo_id3 = put_session (hashToken (demo_env CHR ''c'' 3) demo_token) demo_session demo_id2"
      using demo_session_made by (cases rule: CreateSession_cases [of "demo_env CHR ''c'' 3" demo_uid demo_cred 60 demo_id2]) auto
    show ?thesis unfolding m using u by (simp add: put_session_def demo_session_def)
  qed
  then show "visits [demo_ses] (is_sessions demo_id3)" by (simp add: visits_def)
  have "Generate (demo_seq CHR ''b'') 0 ''cred'' = Inr demo_cred" by code_simp
  moreover have "is_users demo_id1 demo_uid \<noteq> None" "is_activeCredByIdent demo_id1 (identKey CredentialTypeOIDC ''ann'') = None"
    by code_simp+
  ultimately have "dom (is_credentials demo_id2) = {demo_cred}"
    by (simp add: demo_id2_def CreateOIDCCredential_def demo_env_def put_credential_def Let_def u new_credential_def)
  moreover have "is_credentials demo_id3 = is_credentials demo_id2"
    by (simp add: demo_id3_def CreateSession_def put_session_def Let_def split: option.split sum.split)
  ultimately show "visits [demo_cred] (is_credentials demo_id3)" by (simp add: visits_def)
qed

subsection \<open>A recovery factor and a token\<close>

lemma demo_recovery_codes:
  "recovery_codes (\<lambda>n. Inr CHR 0x00) k n = Some (Inr (replicate k ''AAAA-AAAA-AAAA'', n + 12 * k))"
proof -
  have c: "recovery_char (\<lambda>n. Inr CHR 0x00) n = Some (Inr (CHR ''A'', Suc n))" for n
    by (subst recovery_char.simps) (simp add: accepted_def recovery_threshold_value recovery_pick_def recoveryAlphabet_def)
  have cs: "recovery_chars (\<lambda>n. Inr CHR 0x00) k n = Some (Inr (replicate k CHR ''A'', n + k))" for k n
    by (induction k arbitrary: n) (simp_all add: c)
  show ?thesis
    by (induction k arbitrary: n)
      (simp_all add: GenerateRecoveryCode_def cs RecoveryCodeLength_def numeral_eq_Suc)
qed

lemma demo_hash:
  "length pw \<le> MaxPasswordBytes \<Longrightarrow> HashPassword demo_idkey (Inr salt) pw = Inr (encodePHC salt
     (demo_idkey pw salt (prm_TimeCost Argon2idFloor) (prm_MemoryKiB Argon2idFloor) (prm_Parallelism Argon2idFloor)
       argon2idKeyLen))"
  by (simp add: HashPassword_def checkPasswordLength_def)

definition demo_mfa :: string where "demo_mfa = ''mfa_0190f2a81b3c7abc8123456789abcde0''"

definition demo_factor :: Factor where
  "demo_factor = \<lparr>fac_ID = demo_mfa, fac_UsrID = demo_uid, fac_Type = FactorTypeRecovery, fac_Identifier = [],
     fac_Status = FactorStatusActive, fac_Replaces = None, fac_CreatedAt = 5, fac_UpdatedAt = 5, fac_RpID = [],
     fac_SignCount = 0, fac_Remaining = 10\<rparr>"

lemma demo_hash_codes:
  "list_all (\<lambda>c. length c \<le> MaxPasswordBytes) cs \<Longrightarrow> \<exists>hs. hash_codes (demo_env x now) i cs = Inr hs"
proof (induction cs arbitrary: i)
  case (Cons c cs)
  obtain hs where "hash_codes (demo_env x now) (Suc i) cs = Inr hs" using Cons by auto
  moreover obtain h where "HashPassword demo_idkey (Inr (replicate 16 x)) c = Inr h"
    using Cons(2) by (simp add: demo_hash)
  ultimately show ?case by (simp add: demo_env_def argon2idSaltBytes_def)
qed simp

lemma demo_enrolled:
  obtains hashes where "hash_codes (demo_env CHR ''e'' 5) 0 (replicate 10 ''AAAA-AAAA-AAAA'') = Inr hashes"
    "EnrollRecoveryFactor (demo_env CHR ''e'' 5) demo_uid demo_id1 =
     Some (Inr \<lparr>rer_Factor = demo_factor, rer_Codes = replicate 10 ''AAAA-AAAA-AAAA''\<rparr>,
       demo_id1\<lparr>is_factors := [demo_mfa \<mapsto> demo_factor], is_recoveryHashes := [demo_mfa \<mapsto> hashes],
         is_recoveryConsumed := [demo_mfa \<mapsto> replicate 10 False]\<rparr>)"
proof -
  obtain hashes where h: "hash_codes (demo_env CHR ''e'' 5) 0 (replicate 10 ''AAAA-AAAA-AAAA'') = Inr hashes"
    using demo_hash_codes [of "replicate 10 ''AAAA-AAAA-AAAA''" "CHR ''e''" 5 0] by (auto simp: MaxPasswordBytes_def list_all_iff)
  have g: "Generate (ev_uuid (demo_env CHR ''e'' 5)) 0 ''mfa'' = Inr demo_mfa" by code_simp
  have u: "is_users demo_id1 demo_uid \<noteq> None" by code_simp
  have codes: "GenerateRecoveryCodes (ev_bytes (demo_env CHR ''e'' 5)) = Some (Inr (replicate 10 ''AAAA-AAAA-AAAA''))"
    by (simp add: GenerateRecoveryCodes_def demo_env_def demo_recovery_codes RecoveryCodeCount_def)
  have t: "ev_clock (demo_env CHR ''e'' 5) 0 = 5" by (simp add: demo_env_def)
  have m: "is_factors demo_id1 = Map.empty" "is_recoveryHashes demo_id1 = Map.empty" "is_recoveryConsumed demo_id1 = Map.empty"
    by (simp_all add: demo_id1_def CreateUser_def Let_def NewInMemoryIdentityStore_def split: sum.split)
  show ?thesis
    using u by (intro that [OF h]) (simp add: EnrollRecoveryFactor_def codes h g t m demo_factor_def Let_def)
qed

lemma demo_recovery_used:
  assumes "hash_codes (demo_env CHR ''e'' 5) 0 (replicate 10 ''AAAA-AAAA-AAAA'') = Inr hashes"
  shows "\<exists>t. verifyRecoveryProof (demo_env CHR ''f'' 6) [demo_mfa] demo_uid \<lparr>rp_Code = ''aaaa-aaaa-aaaa''\<rparr>
     (demo_id1\<lparr>is_factors := [demo_mfa \<mapsto> demo_factor], is_recoveryHashes := [demo_mfa \<mapsto> hashes],
       is_recoveryConsumed := [demo_mfa \<mapsto> replicate 10 False]\<rparr>) =
     Some (Inr \<lparr>mvr_MfaID = demo_mfa, mvr_Type = FactorTypeRecovery, mvr_MfaVerifiedAt = 6, mvr_NewSignCount = None\<rparr>, t)"
    (is "\<exists>t. verifyRecoveryProof _ _ _ _ ?s = _")
proof -
  obtain h hs where hs: "hashes = h # hs" "HashPassword demo_idkey (Inr (replicate 16 CHR ''e'')) ''AAAA-AAAA-AAAA'' = Inr h"
    using assms by (auto simp: demo_env_def argon2idSaltBytes_def numeral_eq_Suc split: sum.splits)
  have v: "VerifyPasswordHash demo_idkey h ''AAAA-AAAA-AAAA'' = Inr True"
  proof -
    have l: "length ''AAAA-AAAA-AAAA'' \<le> MaxPasswordBytes" by (simp add: MaxPasswordBytes_def)
    show ?thesis
      using hs(2) VerifyPasswordHash_encoded [OF demo_idkey_length l] by (auto simp: demo_hash [OF l])
  qed
  have n: "NormalizeRecoveryInput (ev_text (demo_env CHR ''f'' 6)) ''aaaa-aaaa-aaaa'' = ''AAAA-AAAA-AAAA''" by code_simp
  have ok: "IsValidRecoveryCode ''AAAA-AAAA-AAAA''" by code_simp
  have f: "find_factor (\<lambda>f. fac_UsrID f = demo_uid \<and> fac_Type f = FactorTypeRecovery \<and> fac_Status f = FactorStatusActive)
      [demo_mfa] ?s = demo_mfa"
    by (simp add: find_factor_def demo_factor_def)
  have ne: "demo_mfa \<noteq> []" by (simp add: demo_mfa_def)
  have k: "ev_idkey (demo_env CHR ''f'' 6) = demo_idkey" "ev_clock (demo_env CHR ''f'' 6) 1 = 6" by (simp_all add: demo_env_def)
  have mc: "match_code demo_idkey ''AAAA-AAAA-AAAA'' 0 (codes_of ?s demo_mfa) (consumed_of ?s demo_mfa) = Some (Inr (Some 0))"
    by (simp add: codes_of_def consumed_of_def hs(1) v numeral_eq_Suc)
  show ?thesis
    by (simp add: verifyRecoveryProof_def n ok f ne k mc Let_def del: One_nat_def)
qed

end
