(* ===== verification/IdentityClaims.thy ===== *)
theory IdentityClaims
  imports IdentityDemo
begin

text \<open>
  Properties of the identity store over its runs: the life of a session and of a personal access token, the
  cascade of a revocation, what is final, single use of recovery codes, and the places where the code lets a
  revoked principal back in.
\<close>

subsection \<open>Sessions\<close>

lemma VerifySessionToken_Inr:
  assumes i: "sess_inv s" and v: "VerifySessionToken e tok s = Inr ss"
  shows "is_sessions s (ses_ID ss) = Some ss" "live ss" "ev_clock e 0 < ses_ExpiresAt ss"
    "is_sessionTokenHash s (ses_ID ss) = Some (hashToken e tok)"
proof -
  obtain sid where b: "is_sessionByTokenHash s (hashToken e tok) = Some sid"
    using v by (cases "is_sessionByTokenHash s (hashToken e tok)") (simp_all add: VerifySessionToken_def)
  then have th: "is_sessionTokenHash s sid = Some (hashToken e tok)" using sess_invD(2) [OF i] by blast
  then obtain x where x: "is_sessions s sid = Some x" "live x" using sess_invD(3) [OF i, of sid] by auto
  with b v have "x = ss" "ev_clock e 0 < ses_ExpiresAt ss"
    by (auto simp: VerifySessionToken_def live_def split: if_splits)
  moreover have "ses_ID x = sid" using keyed_byD [OF sess_invD(1) [OF i] x(1)] .
  ultimately show "is_sessions s (ses_ID ss) = Some ss" "live ss" "ev_clock e 0 < ses_ExpiresAt ss"
    "is_sessionTokenHash s (ses_ID ss) = Some (hashToken e tok)" using x th by auto
qed

lemma VerifySessionToken_live:
  assumes "is_sessionByTokenHash s (hashToken e tok) = Some sid" and "is_sessions s sid = Some ss" and "live ss"
  shows "VerifySessionToken e tok s =
    (if ev_clock e 0 < ses_ExpiresAt ss then Inr ss else Inl IdnSessionExpired)"
  using assms by (simp add: VerifySessionToken_def live_def)

text \<open>C3: The life of a session.  After \<open>CreateSession\<close> has returned a session and its token, in every later
  state the session is still recorded; while nothing has ended it the token verifies as exactly this session
  until it expires and is answered with \<open>ErrSessionExpired\<close> from then on; once it has ended (revoked, refreshed,
  its user suspended or revoked, its credential suspended, rotated or revoked) no token at all verifies as it.\<close>

theorem session_life:
  assumes "id_reachable sha idkey s" and "env_of sha idkey e" and "env_of sha idkey e2"
    and "fresh_for (ev_uuid e) 0 ''ses'' (is_sessions s)" and "new_token e s"
    and "CreateSession e usrID credID ttl s = (Inr r, s1)"
    and "(identity_step sha idkey)\<^sup>*\<^sup>* s1 t"
  shows "\<exists>ss. is_sessions t (ses_ID (swt_Session r)) = Some ss \<and> ses_UsrID ss = usrID \<and> ses_CredID ss = credID \<and>
    (if live ss
     then ss = swt_Session r \<and> VerifySessionToken e2 (swt_Token r) t =
       (if ev_clock e2 0 < ev_clock e 0 + wrap64 (ttl * second_ns) then Inr ss else Inl IdnSessionExpired)
     else \<forall>tok x. VerifySessionToken e2 tok t = Inr x \<longrightarrow> ses_ID x \<noteq> ses_ID ss)"
proof -
  obtain c tok ss where c: "Generate (ev_uuid e) 0 ''ses'' = Inr (ses_ID ss)"
      "ss = \<lparr>ses_ID = ses_ID ss, ses_UsrID = usrID, ses_CredID = credID, ses_CreatedAt = ev_clock e 0,
         ses_ExpiresAt = ev_clock e 0 + wrap64 (ttl * second_ns), ses_RevokedAt = None\<rparr>"
      "r = \<lparr>swt_Session = ss, swt_Token = tok\<rparr>" "s1 = put_session (hashToken e tok) ss s"
    using assms(6) by (cases rule: CreateSession_cases [of e usrID credID ttl s]) auto
  have sel: "ses_UsrID ss = usrID" "ses_CredID ss = credID" "ses_ExpiresAt ss = ev_clock e 0 + wrap64 (ttl * second_ns)"
    by (subst c(2), simp)+
  have "core_step sha idkey s s1"
    using cs_create_session [OF assms(2,4,5), of usrID credID ttl] assms(6) by simp
  then have "id_reachable sha idkey s1"
    using id_reachable_run [OF assms(1)] is_core by blast
  then have i1: "idn_inv s1" and it: "idn_inv t" using reachable_inv id_reachable_run assms(7) by blast+
  note le = run_le [OF i1 assms(7), unfolded idn_le_def, THEN conjunct1]
  have si: "sess_inv t" using it by (simp add: idn_inv_def core_inv_def)
  obtain ss' where ss': "is_sessions t (ses_ID ss) = Some ss'" "ses_le ss ss'"
    using core_leD(3) [OF le, of "ses_ID ss" ss] c(4) by auto
  have id: "ses_UsrID ss' = usrID" "ses_CredID ss' = credID" "ses_ID ss' = ses_ID ss"
    using ss'(2) sel by (auto simp: ses_le_def)
  show ?thesis
  proof (intro exI [of _ ss'] conjI)
    show "if live ss'
     then ss' = swt_Session r \<and> VerifySessionToken e2 (swt_Token r) t =
       (if ev_clock e2 0 < ev_clock e 0 + wrap64 (ttl * second_ns) then Inr ss' else Inl IdnSessionExpired)
     else \<forall>tok x. VerifySessionToken e2 tok t = Inr x \<longrightarrow> ses_ID x \<noteq> ses_ID ss'"
    proof (cases "live ss'")
      case True
      then have eq: "ss' = ss" using ss'(2) by (auto simp: ses_le_def live_def)
      have "is_sessionTokenHash t (ses_ID ss) \<noteq> None" using sess_invD(3) [OF si] ss'(1) True by blast
      then have "is_sessionTokenHash t (ses_ID ss) = Some (hashToken e tok)"
        using core_leD(4) [OF le, of "ses_ID ss"] c(4) by auto
      then have "is_sessionByTokenHash t (hashToken e2 tok) = Some (ses_ID ss)"
        using sess_invD(2) [OF si] assms(2,3) by (simp add: hashToken_def env_of_def)
      from VerifySessionToken_live [OF this ss'(1) True] show ?thesis using True eq c(3) sel by simp
    next
      case False
      then show ?thesis using VerifySessionToken_Inr [OF si] ss'(1) id(3) by fastforce
    qed
  qed (use ss'(1) id c(3) in simp_all)
qed

theorem session_life_witness:
  "VerifySessionToken (demo_env CHR ''d'' 4) demo_token demo_id3 = Inr demo_session \<and>
   VerifySessionToken (demo_env CHR ''d'' 60000000003) demo_token demo_id3 = Inl IdnSessionExpired"
proof -
  have l: "is_sessions demo_id3 demo_ses = Some demo_session" by code_simp
  have live: "live demo_session" by (simp add: live_def demo_session_def)
  have x: "ses_ID demo_session = demo_ses" by (simp add: demo_session_def)
  have w: "wrap64 (60 * second_ns) = 60000000000" by code_simp
  have c: "ev_clock (demo_env x now) 0 = now" for x now by (simp add: demo_env_def)
  show ?thesis
    using session_life [OF demo_id2_reach demo_env_of demo_env_of demo_session_fresh demo_session_made
        rtranclp.rtrancl_refl, of "CHR ''d''"] l live x by (simp add: w c)
qed

text \<open>C28: Whoever presents a session token that verifies holds a session that has not ended nor expired, whose
  credential is active at this moment and belongs to the session's user, and that user exists.\<close>

theorem verified_session:
  assumes "id_reachable sha idkey s" and "VerifySessionToken e tok s = Inr ss"
  shows "ses_RevokedAt ss = None \<and> ev_clock e 0 < ses_ExpiresAt ss \<and>
    (\<exists>c. is_credentials s (ses_CredID ss) = Some c \<and> crd_Status c = StatusActive \<and> crd_UsrID c = ses_UsrID ss) \<and>
    is_users s (ses_UsrID ss) \<noteq> None"
proof -
  have i: "sess_inv s" "cred_inv s" "live_inv s"
    using reachable_inv [OF assms(1)] by (auto simp: idn_inv_def core_inv_def)
  note v = VerifySessionToken_Inr [OF i(1) assms(2)]
  from live_invD [OF i(3) v(1,2)] obtain c where
    c: "is_credentials s (ses_CredID ss) = Some c" "active c" "crd_UsrID c = ses_UsrID ss" by blast
  with cred_invD(3) [OF i(2) c(1)] v(2,3) show ?thesis by (auto simp: active_def live_def)
qed

theorem verified_session_witness:
  "\<exists>c. is_credentials demo_id3 (ses_CredID demo_session) = Some c \<and> crd_Status c = StatusActive \<and>
     crd_UsrID c = ses_UsrID demo_session"
  using verified_session [OF demo_id3_reach demo_session_verified] by blast

subsection \<open>Revoking a user\<close>

text \<open>C4: Revoking a user ends exactly the sessions of the user and revokes exactly the user's active
  credentials; sessions and credentials of others, and the user's suspended credentials, are untouched, and no
  token verifies as a session of the user.\<close>

theorem RevokeUser_cascade:
  assumes "id_reachable sha idkey s" and "visits ks (is_sessions s)" and "visits cs (is_credentials s)"
    and "RevokeUser e ks cs usrID s = (Inr u, t)"
  shows "usr_Status u = StatusRevoked \<and> is_users t = (is_users s)(usrID \<mapsto> u) \<and>
    (\<forall>k. is_sessions t k = map_option (\<lambda>ss. if ses_UsrID ss = usrID \<and> ses_RevokedAt ss = None
        then ss\<lparr>ses_RevokedAt := Some (ev_clock e 1)\<rparr> else ss) (is_sessions s k)) \<and>
    (\<forall>k. \<exists>at. is_credentials t k = map_option (\<lambda>c. if crd_UsrID c = usrID \<and> crd_Status c = StatusActive
        then c\<lparr>crd_Status := StatusRevoked, crd_UpdatedAt := at\<rparr> else c) (is_credentials s k)) \<and>
    (\<forall>e2 tok ss. VerifySessionToken e2 tok t = Inr ss \<longrightarrow> ses_UsrID ss \<noteq> usrID)"
proof -
  have i: "idn_inv s" by (rule reachable_inv [OF assms(1)])
  obtain u0 where u0: "is_users s usrID = Some u0" "usr_Status u0 \<noteq> StatusRevoked"
    using assms(4) by (auto simp: RevokeUser_def transitionUser_def split: option.splits if_splits)
  let ?s1 = "s\<lparr>is_users := (is_users s)(usrID \<mapsto> u)\<rparr>"
  let ?s2 = "cascade_sessions (\<lambda>ss. ses_UsrID ss = usrID) (ev_clock e 1) ks ?s1"
  have u: "u = usr_WithStatus u0 StatusRevoked (ev_clock e 0)"
    and t: "t = cascade_credentials (ev_clock e) usrID 2 cs ?s2"
    using assms(4) u0 by (auto simp: RevokeUser_def transitionUser_def Let_def cascadeRevokeSessionsForUser_def)
  have ss: "is_sessions t k = map_option (ended (\<lambda>ss. ses_UsrID ss = usrID) (ev_clock e 1)) (is_sessions s k)" for k
    using cascade_sessions_all [of ks ?s1] assms(2) by (simp add: t)
  have cc: "\<exists>at. is_credentials t k = map_option (\<lambda>c. if crd_UsrID c = usrID \<and> crd_Status c = StatusActive
        then c\<lparr>crd_Status := StatusRevoked, crd_UpdatedAt := at\<rparr> else c) (is_credentials s k)" for k
    using cascade_credentials_all [of cs ?s2 "ev_clock e" usrID 2 k] assms(3) unfolding t [symmetric]
    by (simp add: cred_hit_def active_def)
  have "sess_inv t"
    using transitionUser_core(1) [of s StatusRevoked ks cs e usrID] i assms(2-4)
    by (simp add: RevokeUser_def idn_inv_def core_inv_def)
  then have "ses_UsrID x \<noteq> usrID" if "VerifySessionToken e2 tok t = Inr x" for e2 tok x
    using VerifySessionToken_Inr [OF _ that] ended_back(2) [OF ss] by blast
  moreover have "is_users t = (is_users s)(usrID \<mapsto> u)" by (simp add: t)
  ultimately show ?thesis using ss cc u by (simp add: usr_WithStatus_def ended_def [abs_def] live_def del: One_nat_def)
qed

theorem RevokeUser_cascade_witness:
  "\<exists>u t. RevokeUser (demo_env CHR ''d'' 5) [demo_ses] [demo_cred] demo_uid demo_id3 = (Inr u, t) \<and>
     usr_Status u = StatusRevoked \<and>
     (\<forall>e2 tok ss. VerifySessionToken e2 tok t = Inr ss \<longrightarrow> ses_UsrID ss \<noteq> demo_uid)"
proof -
  let ?r = "RevokeUser (demo_env CHR ''d'' 5) [demo_ses] [demo_cred] demo_uid demo_id3"
  have "case fst ?r of Inl x \<Rightarrow> False | Inr u \<Rightarrow> True" by code_simp
  then obtain u where u: "?r = (Inr u, snd ?r)" by (cases ?r) (auto split: sum.splits)
  from RevokeUser_cascade [OF demo_id3_reach demo_visits_ids this] show ?thesis using u by blast
qed

subsection \<open>What is final\<close>

text \<open>C24: Revocation is final and history is not rewritten.  Over any run no user, credential, session or token
  record disappears; a revoked user or credential, an ended session and a revoked personal access token stay
  exactly as they are; owner, type, identifier, creation and expiry of the others never change.\<close>

theorem identity_history:
  assumes "id_reachable sha idkey s" and "(identity_step sha idkey)\<^sup>*\<^sup>* s t"
  shows "(\<forall>k u. is_users s k = Some u \<longrightarrow> (\<exists>v. is_users t k = Some v \<and> usr_CreatedAt v = usr_CreatedAt u \<and>
      (usr_Status u = StatusRevoked \<longrightarrow> v = u))) \<and>
    (\<forall>k c. is_credentials s k = Some c \<longrightarrow> (\<exists>d. is_credentials t k = Some d \<and> crd_UsrID d = crd_UsrID c \<and>
      crd_Type d = crd_Type c \<and> crd_Identifier d = crd_Identifier c \<and> (crd_Status c = StatusRevoked \<longrightarrow> d = c))) \<and>
    (\<forall>k a. is_sessions s k = Some a \<longrightarrow> (\<exists>b. is_sessions t k = Some b \<and> ses_UsrID b = ses_UsrID a \<and>
      ses_CredID b = ses_CredID a \<and> ses_ExpiresAt b = ses_ExpiresAt a \<and> (ses_RevokedAt a \<noteq> None \<longrightarrow> b = a))) \<and>
    (\<forall>k p. is_pats s k = Some p \<longrightarrow> (\<exists>q. is_pats t k = Some q \<and> pat_UsrID q = pat_UsrID p \<and>
      pat_Scope q = pat_Scope p \<and> pat_ExpiresAt q = pat_ExpiresAt p \<and> (pat_RevokedAt p \<noteq> None \<longrightarrow> q = p)))"
proof -
  have l: "core_le s t" "pats_le s t"
    using run_le [OF reachable_inv [OF assms(1)] assms(2)] by (auto simp: idn_le_def)
  show ?thesis
  proof (intro conjI allI impI)
    fix k u assume "is_users s k = Some u"
    with core_leD(1) [OF l(1)] show "\<exists>v. is_users t k = Some v \<and> usr_CreatedAt v = usr_CreatedAt u \<and>
        (usr_Status u = StatusRevoked \<longrightarrow> v = u)" by (fastforce simp: usr_le_def)
  next
    fix k c assume "is_credentials s k = Some c"
    with core_leD(2) [OF l(1)] show "\<exists>d. is_credentials t k = Some d \<and> crd_UsrID d = crd_UsrID c \<and>
      crd_Type d = crd_Type c \<and> crd_Identifier d = crd_Identifier c \<and> (crd_Status c = StatusRevoked \<longrightarrow> d = c)"
      by (fastforce simp: crd_le_def)
  next
    fix k a assume "is_sessions s k = Some a"
    with core_leD(3) [OF l(1)] obtain b where "is_sessions t k = Some b" "ses_le a b" by blast
    then show "\<exists>b. is_sessions t k = Some b \<and> ses_UsrID b = ses_UsrID a \<and>
      ses_CredID b = ses_CredID a \<and> ses_ExpiresAt b = ses_ExpiresAt a \<and> (ses_RevokedAt a \<noteq> None \<longrightarrow> b = a)"
      by (auto simp: ses_le_def live_def)
  next
    fix k p assume "is_pats s k = Some p"
    with l(2) show "\<exists>q. is_pats t k = Some q \<and> pat_UsrID q = pat_UsrID p \<and>
      pat_Scope q = pat_Scope p \<and> pat_ExpiresAt q = pat_ExpiresAt p \<and> (pat_RevokedAt p \<noteq> None \<longrightarrow> q = p)"
      by (fastforce simp: pats_le_def pat_le_def)
  qed
qed

theorem identity_history_witness:
  "\<exists>u. is_users demo_id2 demo_uid = Some u \<and> (\<exists>v. is_users demo_id3 demo_uid = Some v \<and> usr_CreatedAt v = usr_CreatedAt u)"
proof -
  have r: "demo_step\<^sup>*\<^sup>* demo_id2 demo_id3"
    unfolding demo_id3_def
    by (intro r_into_rtranclp is_core cs_create_session demo_env_of demo_session_fresh)
  have "is_users demo_id2 demo_uid \<noteq> None" by code_simp
  then obtain u where "is_users demo_id2 demo_uid = Some u" by blast
  with identity_history [OF demo_id2_reach r] show ?thesis by blast
qed

subsection \<open>Recovery codes\<close>

text \<open>C19: A recovery code is used once.  When a recovery proof is accepted, one slot of an active recovery factor
  of the user had not been consumed, its hash verifies the code, exactly that slot becomes consumed and the count
  of remaining codes of the factor falls by one.  In every later state the codes are the same and the slot is still
  consumed, and every recovery proof accepted then under the factor matches another of its codes, one that was still
  unused before the first was accepted.\<close>

theorem recovery_code_once:
  assumes "id_reachable sha idkey s" and "env_of sha idkey e" and "visits ks (is_factors s)"
    and "verifyRecoveryProof e ks usrID p s = Some (Inr r, t)"
    and "(identity_step sha idkey)\<^sup>*\<^sup>* t u"
  shows "\<exists>i f g. is_factors s (mvr_MfaID r) = Some f \<and> fac_UsrID f = usrID \<and> fac_Status f = FactorStatusActive \<and>
    i < length (consumed_of s (mvr_MfaID r)) \<and> \<not> consumed_of s (mvr_MfaID r) ! i \<and>
    VerifyPasswordHash idkey (codes_of s (mvr_MfaID r) ! i) (NormalizeRecoveryInput (ev_text e) (rp_Code p)) = Inr True \<and>
    consumed_of t (mvr_MfaID r) = (consumed_of s (mvr_MfaID r))[i := True] \<and>
    is_factors t (mvr_MfaID r) = Some g \<and> fac_Remaining g = fac_Remaining f - 1 \<and>
    consumed_of u (mvr_MfaID r) ! i \<and> codes_of u (mvr_MfaID r) = codes_of s (mvr_MfaID r) \<and>
    (\<forall>e2 ks2 usr2 p2 r2 u2. env_of sha idkey e2 \<longrightarrow> mvr_MfaID r2 = mvr_MfaID r \<longrightarrow>
       verifyRecoveryProof e2 ks2 usr2 p2 u = Some (Inr r2, u2) \<longrightarrow>
       (\<exists>j < length (codes_of s (mvr_MfaID r)). j \<noteq> i \<and> \<not> consumed_of s (mvr_MfaID r) ! j \<and>
          VerifyPasswordHash idkey (codes_of s (mvr_MfaID r) ! j) (NormalizeRecoveryInput (ev_text e2) (rp_Code p2)) = Inr True))"
  using assms(4)
proof (cases rule: verifyRecoveryProof_cases)
  case (used m f i cs)
  let ?g = "f\<lparr>fac_Remaining := int (length (filter Not cs)), fac_UpdatedAt := ev_clock e 0\<rparr>"
  have m: "mvr_MfaID r = m" using used(11) by simp
  have fi: "factor_inv s" using reachable_inv [OF assms(1)] by (simp add: idn_inv_def)
  have "identity_step sha idkey s t" using fs_recovery [OF assms(2-4)] by (rule is_factor)
  then have "idn_inv t" using identity_step_inv reachable_inv [OF assms(1)] by blast
  from run_le [OF this assms(5)] have le: "factors_le t u" by (simp add: idn_le_def)
  have ct: "consumed_of t m = cs" and ft: "is_factors t m = Some ?g" and ht: "codes_of t m = codes_of s m"
    by (simp_all add: used(12) consumed_of_def codes_of_def)
  have c: "consumed_le cs (consumed_of u m)" and h: "codes_of u m = codes_of s m"
    using le ft ct ht unfolding factors_le_def by metis+
  have u: "consumed_of u m ! i" using c used(7,10) by (auto simp: consumed_le_def)
  have rem: "fac_Remaining ?g = fac_Remaining f - 1"
  proof -
    have "length (filter Not xs) = Suc (length (filter Not (xs[j := True])))" if "j < length xs" "\<not> xs ! j" for xs j
      using that by (induction xs arbitrary: j) (auto split: nat.split simp: less_Suc_eq_0_disj)
    from this [OF used(7,8)] show ?thesis using factor_invD(4) [OF fi used(1,3)] used(10) by simp
  qed
  have again: "\<exists>j < length (codes_of s m). j \<noteq> i \<and> \<not> consumed_of s m ! j \<and>
      VerifyPasswordHash idkey (codes_of s m ! j) (NormalizeRecoveryInput (ev_text e2) (rp_Code p2)) = Inr True"
    if "env_of sha idkey e2" "mvr_MfaID r2 = m" "verifyRecoveryProof e2 ks2 usr2 p2 u = Some (Inr r2, u2)"
    for e2 ks2 usr2 p2 r2 u2
    using that(3)
  proof (cases rule: verifyRecoveryProof_cases)
    case other: (used m' f' j cs')
    then have "m' = m" using that(2) by simp
    moreover have "length (consumed_of s m) = length (consumed_of u m)" using c used(10) by (simp add: consumed_le_def)
    moreover have "\<not> consumed_of s m ! j \<and> j \<noteq> i" if "m' = m"
    proof -
      have j: "j < length cs" "\<not> consumed_of u m ! j" using other(7,8) that c by (simp_all add: consumed_le_def)
      then have "\<not> cs ! j" using c by (auto simp: consumed_le_def)
      then show ?thesis using j u used(10) by (cases "j = i") simp_all
    qed
    ultimately show ?thesis using other(6,9) h that(1) by (auto simp: env_of_def)
  qed simp
  show ?thesis
    unfolding m using used ct ft assms(2) u rem h again
    by (intro exI [of _ i] exI [of _ f] exI [of _ ?g]) (auto simp: env_of_def)
qed simp

theorem recovery_code_once_witness:
  "\<exists>hashes t. verifyRecoveryProof (demo_env CHR ''f'' 6) [demo_mfa] demo_uid \<lparr>rp_Code = ''aaaa-aaaa-aaaa''\<rparr>
     (demo_id1\<lparr>is_factors := [demo_mfa \<mapsto> demo_factor], is_recoveryHashes := [demo_mfa \<mapsto> hashes],
       is_recoveryConsumed := [demo_mfa \<mapsto> replicate 10 False]\<rparr>) =
     Some (Inr \<lparr>mvr_MfaID = demo_mfa, mvr_Type = FactorTypeRecovery, mvr_MfaVerifiedAt = 6, mvr_NewSignCount = None\<rparr>, t) \<and>
     (\<exists>g. is_factors t demo_mfa = Some g \<and> fac_Remaining g = 9) \<and>
     (\<exists>i. \<not> (\<exists>e2 ks2 p2 r2 u2. env_of demo_sha demo_idkey e2 \<and> mvr_MfaID r2 = demo_mfa \<and>
        verifyRecoveryProof e2 ks2 demo_uid p2 t = Some (Inr r2, u2) \<and> \<not> (\<exists>j < length hashes. j \<noteq> i)))"
proof -
  obtain hashes where h: "hash_codes (demo_env CHR ''e'' 5) 0 (replicate 10 ''AAAA-AAAA-AAAA'') = Inr hashes"
    and en: "EnrollRecoveryFactor (demo_env CHR ''e'' 5) demo_uid demo_id1 =
     Some (Inr \<lparr>rer_Factor = demo_factor, rer_Codes = replicate 10 ''AAAA-AAAA-AAAA''\<rparr>,
       demo_id1\<lparr>is_factors := [demo_mfa \<mapsto> demo_factor], is_recoveryHashes := [demo_mfa \<mapsto> hashes],
         is_recoveryConsumed := [demo_mfa \<mapsto> replicate 10 False]\<rparr>)"
    by (rule demo_enrolled)
  let ?s = "demo_id1\<lparr>is_factors := [demo_mfa \<mapsto> demo_factor], is_recoveryHashes := [demo_mfa \<mapsto> hashes],
     is_recoveryConsumed := [demo_mfa \<mapsto> replicate 10 False]\<rparr>"
  have "fresh_for (ev_uuid (demo_env CHR ''e'' 5)) 0 ''mfa'' (is_factors demo_id1)" by code_simp
  from fs_enroll_recovery [OF demo_env_of this en] have "demo_step demo_id1 ?s" by (rule is_factor)
  then have r: "id_reachable demo_sha demo_idkey ?s" using id_reachable_run [OF demo_id1_reach] by blast
  have k: "visits [demo_mfa] (is_factors ?s)" by (simp add: visits_def)
  obtain t where t: "verifyRecoveryProof (demo_env CHR ''f'' 6) [demo_mfa] demo_uid \<lparr>rp_Code = ''aaaa-aaaa-aaaa''\<rparr> ?s =
     Some (Inr \<lparr>mvr_MfaID = demo_mfa, mvr_Type = FactorTypeRecovery, mvr_MfaVerifiedAt = 6, mvr_NewSignCount = None\<rparr>, t)"
    using demo_recovery_used [OF h] by blast
  have f: "is_factors ?s demo_mfa = Some demo_factor" "fac_Remaining demo_factor = 10"
    by (simp_all add: demo_factor_def)
  have c: "codes_of ?s demo_mfa = hashes" by (simp add: codes_of_def)
  obtain i f g where g: "is_factors ?s demo_mfa = Some f" "is_factors t demo_mfa = Some g"
      "fac_Remaining g = fac_Remaining f - 1"
    and i: "\<forall>e2 ks2 usr2 p2 r2 u2. env_of demo_sha demo_idkey e2 \<longrightarrow> mvr_MfaID r2 = demo_mfa \<longrightarrow>
       verifyRecoveryProof e2 ks2 usr2 p2 t = Some (Inr r2, u2) \<longrightarrow> (\<exists>j < length hashes. j \<noteq> i \<and> \<not> consumed_of ?s demo_mfa ! j \<and>
          VerifyPasswordHash demo_idkey (hashes ! j) (NormalizeRecoveryInput (ev_text e2) (rp_Code p2)) = Inr True)"
    using recovery_code_once [OF r demo_env_of k t rtranclp.rtrancl_refl, unfolded MfaVerifyResult.select_convs c]
    by (elim exE conjE) (rule that)
  have "\<not> (\<exists>e2 ks2 p2 r2 u2. env_of demo_sha demo_idkey e2 \<and> mvr_MfaID r2 = demo_mfa \<and>
        verifyRecoveryProof e2 ks2 demo_uid p2 t = Some (Inr r2, u2) \<and> \<not> (\<exists>j < length hashes. j \<noteq> i))" using i by blast
  moreover have "fac_Remaining g = 9" using g f by simp
  ultimately show ?thesis using t g(2) by blast
qed

subsection \<open>TOTP options\<close>

text \<open>The number of digits chosen at enrolment is ignored afterwards: a code whose length is not six never
  confirms a factor and is never accepted as a proof, so a user enrolled with eight digits, whose authenticator
  shows eight, can do neither.\<close>

theorem totp_code_length:
  assumes "length code \<noteq> 6"
  shows "(\<forall>f t. ConfirmTotpFactor e m code s \<noteq> Some (Inr f, t)) \<and>
    (\<forall>r. verifyTotpProof e usrID \<lparr>tp_Code = code\<rparr> s \<noteq> Some (Inr r))"
proof -
  have "totp_digits totp_zero = 6" by (simp add: totp_digits_def totp_zero_def DefaultTotpDigits_def)
  then have v: "TotpVerify h sec code now 1 totp_zero = Some (Inr False)" for h sec now
    using assms by (simp add: TotpVerify_def)
  show ?thesis
    by (auto simp: ConfirmTotpFactor_def verifyTotpProof_def v split: option.split)
qed

theorem totp_code_length_witness:
  "\<forall>f t. ConfirmTotpFactor (demo_env CHR ''d'' 5) ''mfa_1'' ''12345678'' demo_id3 \<noteq> Some (Inr f, t)"
  using totp_code_length [of "''12345678''" "demo_env CHR ''d'' 5" "''mfa_1''" demo_id3 demo_uid] by simp

subsection \<open>Personal access tokens\<close>

lemma Generate_text:
  assumes "uuid_ok lib" and "Generate lib n typ = Inr w"
  obtains h where "w = typ @ ''_'' @ h" "length h = 32" "list_all (in_class hex_lower) h"
proof -
  obtain u where u: "uuid_NewV7 lib n = Inr u" "Encode (uuid_Parse lib) typ u = Inr w"
    using assms(2) by (auto simp: Generate_def split: option.splits sum.splits)
  obtain a b c d e where e: "group_lengths a b c d e" "list_all is_hex (a @ b @ c @ d @ e)"
    "w = typ @ ''_'' @ map ascii_lower (a @ b @ c @ d @ e)"
    using Encode_Inr [OF _ u(2)] assms(1) unfolding uuid_ok_def by metis
  show ?thesis
    by (rule that [OF e(3)]) (use e(1,2) is_hex_ascii_lower in \<open>auto simp: group_lengths_def list_all_iff\<close>)
qed

lemma url_class:
  "c \<in> set urlAlphabet \<Longrightarrow>
   in_class ([(CHR ''A'', CHR ''Z'')] @ az @ digits09 @ single (CHR ''_'') @ single (CHR ''-'')) c"
proof -
  have "list_all (in_class ([(CHR ''A'', CHR ''Z'')] @ az @ digits09 @ single (CHR ''_'') @ single (CHR ''-''))) urlAlphabet"
    by code_simp
  then show "c \<in> set urlAlphabet \<Longrightarrow> ?thesis" by (simp add: list_all_iff)
qed

lemma secret_text:
  assumes "length b = 32"
  shows "set (RawURLEncoding_EncodeToString b) \<subseteq> set urlAlphabet" "length (RawURLEncoding_EncodeToString b) = 43"
proof -
  show "set (RawURLEncoding_EncodeToString b) \<subseteq> set urlAlphabet"
    using set_base64_raw [OF alphabets(4)] by (simp add: RawURLEncoding_EncodeToString_def)
  have l: "length (sextets xs) = (length xs * 4 + 2) div 3" for xs
    by (induction xs rule: sextets.induct) auto
  show "length (RawURLEncoding_EncodeToString b) = 43"
    using assms by (simp add: RawURLEncoding_EncodeToString_def base64_raw_def l)
qed

text \<open>The shape of a token and how it is taken apart again.\<close>

lemma token_parts:
  assumes "length h = 32" and "list_all (in_class hex_lower) h" and s: "set secret \<subseteq> set urlAlphabet" "secret \<noteq> []"
  shows "IsStructurallyValidPatToken (''pat_'' @ h @ ''_'' @ secret)"
    and "split_n 2 (CHR ''_'') (''pat_'' @ h @ ''_'' @ secret) = [''pat'', h, secret]"
proof -
  have c: "list_all (in_class ([(CHR ''A'', CHR ''Z'')] @ az @ digits09 @ single (CHR ''_'') @ single (CHR ''-''))) secret"
    using s(1) url_class unfolding list_all_iff by blast
  have "h @ ''_'' @ secret \<in> rx_lang (Cat (Rng hex_lower 32 (Some 32)) (Cat (Lit ''_'')
     (Rng ([(CHR ''A'', CHR ''Z'')] @ az @ digits09 @ single (CHR ''_'') @ single (CHR ''-'')) 1 None)))"
    using assms c unfolding rx_lang.simps
    by (intro CollectI exI [of _ h] exI [of _ "''_'' @ secret"] exI [of _ "''_''"] exI [of _ secret] conjI)
      (auto simp: Suc_le_eq)
  then show "IsStructurallyValidPatToken (''pat_'' @ h @ ''_'' @ secret)"
    unfolding IsStructurallyValidPatToken_def patWireFormat_def rx_match_lang rx_lang.simps(2,3) by blast
  have "CHR ''_'' \<notin> set h" using list_all_class_not [OF assms(2)] by (simp add: class_defs)
  then have "cut (CHR ''_'') (h @ CHR ''_'' # secret) = Some (h, secret)" by (rule cut_cons)
  moreover have "cut (CHR ''_'') (''pat'' @ CHR ''_'' # h @ CHR ''_'' # secret) = Some (''pat'', h @ CHR ''_'' # secret)"
    by (rule cut_cons) simp
  ultimately show "split_n 2 (CHR ''_'') (''pat_'' @ h @ ''_'' @ secret) = [''pat'', h, secret]"
    by (simp add: numeral_2_eq_2)
qed

text \<open>C20: The life of a personal access token.  The token \<open>CreatePat\<close> returns is answered in every later state
  according to the record: \<open>PatRevokedError\<close> once it has been revoked, otherwise \<open>PatExpiredError\<close> from its
  expiry on, and before that the owner and the scope it was created with.\<close>

theorem pat_life:
  assumes "id_reachable sha idkey s" and "env_of sha idkey e" and "env_of sha idkey e2"
    and "uuid_ok (ev_uuid e)" and "idkey_length idkey" and "\<And>b. ev_rand e 0 32 = Inr b \<Longrightarrow> length b = 32"
    and "fresh_for (ev_uuid e) 0 ''pat'' (is_pats s)"
    and "CreatePat e i s = (Inr r, s1)" and "(identity_step sha idkey)\<^sup>*\<^sup>* s1 t"
  shows "\<exists>p. is_pats t (pat_ID (cpr_Pat r)) = Some p \<and>
    fst (VerifyPatToken e2 (cpr_Token r) t) =
      (if pat_RevokedAt p \<noteq> None then Inl (IdnPatRevoked (pat_ID (cpr_Pat r)))
       else if (case cpi_ExpiresAt i of None \<Rightarrow> False | Some x \<Rightarrow> x \<le> ev_clock e2 0)
       then Inl (IdnPatExpired (pat_ID (cpr_Pat r)))
       else Inr \<lparr>vp_PatID = pat_ID (cpr_Pat r), vp_UsrID = cpi_UsrID i, vp_Scope = cpi_Scope i\<rparr>)"
proof -
  obtain p b hash where c: "Generate (ev_uuid e) 0 ''pat'' = Inr (pat_ID p)" "ev_rand e 0 32 = Inr b"
      "HashPassword (ev_idkey e) (ev_rand e 1 16) (RawURLEncoding_EncodeToString b) = Inr hash"
    and p: "p = \<lparr>pat_ID = pat_ID p, pat_UsrID = cpi_UsrID i, pat_Name = cpi_Name i, pat_Scope = cpi_Scope i,
            pat_Status = PatStatusActive, pat_ExpiresAt = cpi_ExpiresAt i, pat_LastUsedAt = None, pat_RevokedAt = None,
            pat_CreatedAt = ev_clock e (if cpi_ExpiresAt i = None then 0 else 1),
            pat_UpdatedAt = ev_clock e (if cpi_ExpiresAt i = None then 0 else 1)\<rparr>"
    and r: "r = \<lparr>cpr_Pat = p, cpr_Token = pat_ID p @ ''_'' @ RawURLEncoding_EncodeToString b\<rparr>"
      "s1 = s\<lparr>is_pats := (is_pats s)(pat_ID p \<mapsto> p), is_patSecretHashes := (is_patSecretHashes s)(pat_ID p \<mapsto> hash)\<rparr>"
    using assms(8) by (cases rule: CreatePat_cases [of e i s]) auto
  have sel: "pat_UsrID p = cpi_UsrID i" "pat_Scope p = cpi_Scope i" "pat_ExpiresAt p = cpi_ExpiresAt i"
    by (subst p, simp)+
  let ?secret = "RawURLEncoding_EncodeToString b"
  note sec = secret_text [OF assms(6) [OF c(2)]]
  obtain h where h: "pat_ID p = ''pat_'' @ h" "length h = 32" "list_all (in_class hex_lower) h"
    using Generate_text [OF assms(4) c(1)] by auto
  have ne: "?secret \<noteq> []" using sec(2) by auto
  note tp = token_parts [OF h(2,3) sec(1) ne]
  have "pat_step sha idkey s s1" using ps_create [OF assms(2,7), of i] assms(8) by simp
  then have "idn_inv s1" using identity_step_inv reachable_inv [OF assms(1)] is_pat by blast
  from run_le [OF this assms(9)] have le: "pats_le s1 t" by (simp add: idn_le_def)
  have "is_pats s1 (pat_ID p) = Some p" by (simp add: r)
  with le have "(\<exists>q. is_pats t (pat_ID p) = Some q \<and> pat_le p q) \<and>
      is_patSecretHashes t (pat_ID p) = is_patSecretHashes s1 (pat_ID p)"
    unfolding pats_le_def by blast
  then obtain q where q: "is_pats t (pat_ID p) = Some q" "pat_le p q" "is_patSecretHashes t (pat_ID p) = Some hash"
    by (auto simp: r)
  have qs: "pat_UsrID q = cpi_UsrID i" "pat_Scope q = cpi_Scope i" "pat_ExpiresAt q = cpi_ExpiresAt i"
    using q(2) sel by (simp_all add: pat_le_def)
  have v: "VerifyPasswordHash (ev_idkey e2) hash ?secret = Inr True"
  proof -
    obtain salt where salt: "hash = encodePHC salt (idkey ?secret salt (prm_TimeCost Argon2idFloor)
        (prm_MemoryKiB Argon2idFloor) (prm_Parallelism Argon2idFloor) argon2idKeyLen)" "length ?secret \<le> MaxPasswordBytes"
      using HashPassword_Inr [OF c(3)] assms(2) by (auto simp: env_of_def)
    show ?thesis using VerifyPasswordHash_encoded [OF assms(5) salt(2)] assms(3) salt(1) by (simp add: env_of_def)
  qed
  have tok: "cpr_Token r = ''pat_'' @ h @ ''_'' @ ?secret" using h(1) by (simp add: r)
  have idt: "''pat'' @ ''_'' @ h = pat_ID p" using h(1) by simp
  have bg: "VerifyPat_begin e2 (cpr_Token r) t =
      (if pat_RevokedAt q \<noteq> None then Inl (IdnPatRevoked (pat_ID p))
       else if (case cpi_ExpiresAt i of None \<Rightarrow> False | Some x \<Rightarrow> \<not> ev_clock e2 0 < x) then Inl (IdnPatExpired (pat_ID p))
       else Inr (pat_ID p, ?secret, q, hash))"
    unfolding VerifyPat_begin_def tok tp(2) list.case Let_def idt
    using tp(1) q(1,3) qs(3) sec(2) by (simp add: PatMaxSecretLength_def zero_text_def)
  have "fst (VerifyPatToken e2 (cpr_Token r) t) =
      (if pat_RevokedAt q \<noteq> None then Inl (IdnPatRevoked (pat_ID p))
       else if (case cpi_ExpiresAt i of None \<Rightarrow> False | Some x \<Rightarrow> x \<le> ev_clock e2 0) then Inl (IdnPatExpired (pat_ID p))
       else Inr \<lparr>vp_PatID = pat_ID p, vp_UsrID = cpi_UsrID i, vp_Scope = cpi_Scope i\<rparr>)"
    unfolding VerifyPatToken_def bg using v qs by (simp add: not_less split: option.split)
  then show ?thesis using q(1) by (simp add: r)
qed

theorem pat_life_witness:
  "\<exists>r s. CreatePat (demo_env CHR ''d'' 5) \<lparr>cpi_UsrID = demo_uid, cpi_Name = ''ci'', cpi_Scope = [''read''], cpi_ExpiresAt = None\<rparr>
       demo_id1 = (Inr r, s) \<and>
     fst (VerifyPatToken (demo_env CHR ''e'' 9) (cpr_Token r) s) =
       Inr \<lparr>vp_PatID = pat_ID (cpr_Pat r), vp_UsrID = demo_uid, vp_Scope = [''read'']\<rparr>"
proof -
  let ?e = "demo_env CHR ''d'' 5" let ?i = "\<lparr>cpi_UsrID = demo_uid, cpi_Name = ''ci'', cpi_Scope = [''read''], cpi_ExpiresAt = None\<rparr>"
  have rand: "\<And>b. ev_rand ?e 0 32 = Inr b \<Longrightarrow> length b = 32" by (auto simp: demo_env_def)
  have ok: "uuid_ok (ev_uuid ?e)" using demo_seq_ok [of "CHR ''d''"] by (simp add: demo_env_def class_defs)
  have fr: "fresh_for (ev_uuid ?e) 0 ''pat'' (is_pats demo_id1)" by code_simp
  obtain h where "HashPassword demo_idkey (Inr (replicate 16 CHR ''d'')) (RawURLEncoding_EncodeToString (replicate 32 CHR ''d'')) = Inr h"
    using demo_hash [of "RawURLEncoding_EncodeToString (replicate 32 CHR ''d'')"] secret_text(2) [of "replicate 32 CHR ''d''"]
    by (auto simp: MaxPasswordBytes_def)
  moreover obtain m where "Generate (demo_seq CHR ''d'') 0 ''pat'' = Inr m"
  proof -
    have "Generate (demo_seq CHR ''d'') 0 ''pat'' = Inr ''pat_0190f2a81b3c7abc8123456789abcdd0''" by code_simp
    then show ?thesis using that by blast
  qed
  moreover have "is_users demo_id1 demo_uid \<noteq> None" by code_simp
  ultimately obtain r s where c: "CreatePat ?e ?i demo_id1 = (Inr r, s)"
    by (auto simp: CreatePat_def demo_env_def argon2idSaltBytes_def Let_def)
  have "is_pats s (pat_ID (cpr_Pat r)) = Some (cpr_Pat r) \<and> pat_RevokedAt (cpr_Pat r) = None"
  proof (cases rule: CreatePat_cases [of ?e ?i demo_id1])
    case (created p b hash)
    have "pat_RevokedAt p = None" by (subst created(7)) simp
    moreover have "cpr_Pat r = p" "is_pats s (pat_ID p) = Some p" using c created(8) by auto
    ultimately show ?thesis by simp
  qed (use c in simp)
  moreover note pat_life [OF demo_id1_reach demo_env_of demo_env_of ok demo_idkey_length rand fr c rtranclp.rtrancl_refl,
      of "CHR ''e''" 9]
  ultimately have "fst (VerifyPatToken (demo_env CHR ''e'' 9) (cpr_Token r) s) =
      Inr \<lparr>vp_PatID = pat_ID (cpr_Pat r), vp_UsrID = demo_uid, vp_Scope = [''read'']\<rparr>" by simp
  with c show ?thesis by blast
qed

text \<open>The dummy hash, which is verified when there is no record to verify against, has the parameters of a real
  one, so that the two answers take the same time.\<close>

lemma dummy_hash_floor: "\<exists>salt key. decodePHC PatDummyPHCHash = Inr (Argon2idFloor, salt, key) \<and> length key = 32"
proof -
  let ?salt = "[CHR 0xEF, CHR 0xBF, CHR 0x73, CHR 0xE1, CHR 0x41, CHR 0xE4, CHR 0x2D, CHR 0x64, CHR 0x78, CHR 0xC3, CHR
     0x44, CHR 0xC4, CHR 0xA3, CHR 0xD8, CHR 0x1C, CHR 0x1E]"
  let ?key = "[CHR 0x1B, CHR 0x3D, CHR 0x3E, CHR 0x9C, CHR 0x69, CHR 0xE9, CHR 0xA2, CHR 0x48, CHR 0x6C, CHR 0x2A, CHR
     0x2D, CHR 0x5C, CHR 0x3E, CHR 0x5C, CHR 0x7C, CHR 0x8B, CHR 0xBE, CHR 0x05, CHR 0x04, CHR 0xDD, CHR 0x4D,
     CHR 0xAB, CHR 0x43, CHR 0x94, CHR 0x45, CHR 0x9D, CHR 0xF1, CHR 0xB2, CHR 0x8D, CHR 0x40, CHR 0x1C, CHR
     0xC5]"
  have "RawStdEncoding_EncodeToString ?salt = ''779z4UHkLWR4w0TEo9gcHg''"
    "RawStdEncoding_EncodeToString ?key = ''Gz0+nGnpokhsKi1cPlx8i74FBN1Nq0OURZ3xso1AHMU''"
    by code_simp+
  then have "PatDummyPHCHash = encodePHC ?salt ?key" by (simp add: PatDummyPHCHash_def encodePHC_text)
  then show ?thesis using decodePHC_encodePHC_aux [of ?salt ?key] by (intro exI [of _ ?salt] exI [of _ ?key]) simp
qed

subsection \<open>Where a principal comes back\<close>

text \<open>Revoking a user revokes the active credentials only, and neither \<open>ReinstateCredential\<close> nor
  \<open>CreateSession\<close> looks at the user.  A credential suspended before the revocation can be reinstated after it,
  and then opens a session for the revoked user.\<close>

definition demo_back :: identity where
  "demo_back =
     (let s3 = snd (SuspendCredential (demo_env CHR ''d'' 4) [] demo_cred demo_id2);
          s4 = snd (RevokeUser (demo_env CHR ''d'' 5) [] [demo_cred] demo_uid s3);
          s5 = snd (ReinstateCredential (demo_env CHR ''d'' 6) demo_cred s4)
      in snd (CreateSession (demo_env CHR ''c'' 7) demo_uid demo_cred 60 s5))"

lemma revoked_user_regains_session:
  "map_option usr_Status (is_users demo_back demo_uid) = Some StatusRevoked \<and>
   map_sum id ses_UsrID (VerifySessionToken (demo_env CHR ''e'' 8) demo_token demo_back) = Inr demo_uid"
  by code_simp

text \<open>Any transition of a credential away from \<open>active\<close> deletes the index entry of its identifier, also when the
  entry belongs to another credential: after a credential has been suspended and a second one was created for the
  same identifier, revoking the first makes the second unfindable and a third active one possible.\<close>

definition demo_cred2 :: string where "demo_cred2 = ''cred_0190f2a81b3c7abc8123456789abcdd0''"
definition demo_cred3 :: string where "demo_cred3 = ''cred_0190f2a81b3c7abc8123456789abcde0''"

definition demo_unindexed :: identity where
  "demo_unindexed =
     (let s3 = snd (SuspendCredential (demo_env CHR ''d'' 4) [] demo_cred demo_id2);
          s4 = snd (CreateOIDCCredential (demo_env CHR ''d'' 5) demo_uid ''ann'' ''iss'' ''sub'' s3)
      in snd (RevokeCredential (demo_env CHR ''d'' 6) [] demo_cred s4))"

definition demo_twice :: identity where
  "demo_twice = snd (CreateOIDCCredential (demo_env CHR ''e'' 7) demo_uid ''ann'' ''iss'' ''sub'' demo_unindexed)"

lemma active_credential_unindexed:
  "map_option crd_Status (is_credentials demo_unindexed demo_cred2) = Some StatusActive \<and>
   FindCredentialByIdentifier CredentialTypeOIDC ''ann'' demo_unindexed = None \<and>
   map_option (\<lambda>c. (crd_Status c, crd_key c)) (is_credentials demo_twice demo_cred2) =
   map_option (\<lambda>c. (crd_Status c, crd_key c)) (is_credentials demo_twice demo_cred3)"
  by code_simp

text \<open>\<open>ConfirmWebAuthnFactor\<close> verifies the assertion with the lock released and does not look at the status again:
  a factor revoked in between is active afterwards.\<close>

lemma revoked_factor_confirmed:
  "RevokeFactor e m s = (Inr f, t) \<Longrightarrow>
   fac_Status f = FactorStatusRevoked \<and>
   is_factors (snd (ConfirmWebAuthn_commit e2 m n t)) m =
     Some (f\<lparr>fac_Status := FactorStatusActive, fac_SignCount := n, fac_UpdatedAt := ev_clock e2 0\<rparr>)"
  by (auto simp: RevokeFactor_def transitionFactor_def ConfirmWebAuthn_commit_def zero_factor_of_def Let_def
      split: option.splits if_splits)

text \<open>A factor is activated without a proof: \<open>ReinstateFactor\<close> does not ask whether it was suspended.\<close>

lemma pending_factor_reinstated:
  assumes "is_factors s m = Some f" and "fac_Status f = FactorStatusPending"
  shows "ReinstateFactor e m s =
    (Inr (f\<lparr>fac_Status := FactorStatusActive, fac_UpdatedAt := ev_clock e 0\<rparr>),
     s\<lparr>is_factors := (is_factors s)(m \<mapsto> f\<lparr>fac_Status := FactorStatusActive, fac_UpdatedAt := ev_clock e 0\<rparr>)\<rparr>)"
  using assms by (simp add: ReinstateFactor_def transitionFactor_def Let_def)

text \<open>The lock is released between reading the stored counter and writing the new one: when two calls with the same
  assertion have both read it, both return success.\<close>

lemma overlapping_replay:
  assumes "verifyWebAuthn_begin ks usrID p s = Inr (m, opts)" and "WebAuthnVerifyAssertion (ev_wa e) opts = Some (Inr n)"
  shows "\<exists>t. verifyWebAuthnProof e ks usrID p s = Some (Inr \<lparr>mvr_MfaID = m, mvr_Type = FactorTypeWebAuthn,
      mvr_MfaVerifiedAt = ev_clock e 1, mvr_NewSignCount = Some n\<rparr>, t) \<and>
    fst (verifyWebAuthn_commit e2 m n t) = \<lparr>mvr_MfaID = m, mvr_Type = FactorTypeWebAuthn,
      mvr_MfaVerifiedAt = ev_clock e2 1, mvr_NewSignCount = Some n\<rparr>"
  using assms by (simp add: verifyWebAuthnProof_def verifyWebAuthn_commit_def Let_def)

end
