(* ===== verification/PgSql.thy ===== *)
theory PgSql
  imports Ids GoText Paging
begin

text \<open>
  What the PostgreSQL stores share: the helpers that each \<open>postgres.go\<close> repeats, a monad for code that talks to
  a database, and SQL statements on tables.

  A computation of type \<open>('d, 'e, 'a) db\<close> takes the environment, the number of the next event (a reading of
  a clock, a generated identifier, a statement) and the database.  Its outer \<open>None\<close> is a panic (\<open>uuid.Must\<close>), \<open>Inl\<close>
  an error.  Every statement may fail for reasons outside the program (\<open>pe_fault\<close>), and the rows of a query may
  break off while they are read (\<open>pe_cut\<close>, \<open>pe_list_cut\<close>); \<open>pe_make\<close> says which slices \<open>make\<close> can allocate.  A table is the list of its rows; the order of the list
  means nothing, a statement without \<open>ORDER BY\<close> gets an order from the environment.
\<close>

type_synonym uuid = string

datatype pg_error = PgUnique | PgForeignKey | PgCheck | PgOther string

datatype 'e pg_fail =
    PgErr 'e
  | PgWire string
  | PgNoRows
  | PgDb pg_error
  | PgRandom string
  | PgJson string

record pg_env =
  pe_uuid :: uuid_lib
  pe_badUUID :: "string \<Rightarrow> uuid"
  pe_clock :: clock
  pe_now :: clock
  pe_fault :: "nat \<Rightarrow> string option"
  pe_cut :: "nat \<Rightarrow> (nat \<times> string) option"
  pe_make :: "int \<Rightarrow> bool"
  pe_rand :: "nat \<Rightarrow> int \<Rightarrow> string + string"
  pe_sha256 :: "string \<Rightarrow> string"
  pe_scan :: "nat \<Rightarrow> uuid list"
  pe_lookup_fault :: "string \<Rightarrow> string \<Rightarrow> string \<Rightarrow> string \<Rightarrow> string \<Rightarrow> string option"
  pe_list_fault :: "string \<Rightarrow> string \<Rightarrow> string \<Rightarrow> string option"
  pe_list_cut :: "string \<Rightarrow> string \<Rightarrow> string \<Rightarrow> nat option"
  pe_order :: "string \<Rightarrow> string \<Rightarrow> string \<Rightarrow> uuid list"
  pe_ilike :: "string \<Rightarrow> string \<Rightarrow> bool"
  pe_quote :: "string \<Rightarrow> string"
  pe_jsonb :: "string \<Rightarrow> string option"
  pe_unmarshal_pre :: "string \<Rightarrow> string + (string \<times> string \<times> string) list"

text \<open>\<open>wireToUUID\<close> does not look at the prefix; a UUID is its canonical text.  The error carries the malformed text.\<close>

definition wireToUUID :: "uuid_lib \<Rightarrow> string \<Rightarrow> string + uuid" where
  "wireToUUID lib wid =
     (case cut (CHR ''_'') wid of
        None \<Rightarrow> Inl wid
      | Some (_, h) \<Rightarrow>
          if length h \<noteq> 32 then Inl wid
          else if uuid_Parse lib (reconstructCanonical h) then Inr (map ascii_lower (reconstructCanonical h))
          else Inl wid)"

text \<open>What a call that drops the error is left with: the zero UUID, or what \<open>uuid.Parse\<close> returns beside its error.\<close>

definition uuid_Nil :: uuid where
  "uuid_Nil = ''00000000-0000-0000-0000-000000000000''"

definition wire_value :: "uuid_lib \<Rightarrow> (string \<Rightarrow> uuid) \<Rightarrow> string \<Rightarrow> uuid" where
  "wire_value lib bad wid =
     (case wireToUUID lib wid of
        Inr u \<Rightarrow> u
      | Inl _ \<Rightarrow> (case cut (CHR ''_'') wid of
          None \<Rightarrow> uuid_Nil
        | Some (_, h) \<Rightarrow> if length h \<noteq> 32 then uuid_Nil else bad (reconstructCanonical h)))"

definition uuidToWire :: "string \<Rightarrow> uuid \<Rightarrow> string" where
  "uuidToWire prefix u = prefix @ ''_'' @ filter (\<lambda>c. c \<noteq> CHR ''-'') u"

fun isUniqueViolation :: "'e pg_fail \<Rightarrow> bool" where
  "isUniqueViolation (PgDb PgUnique) = True"
| "isUniqueViolation _ = False"

text \<open>\<open>timestamptz\<close> counts microseconds; the driver drops the rest.\<close>

definition pg_time :: "gotime \<Rightarrow> gotime" where
  "pg_time t = t div 1000 * 1000"

subsection \<open>The monad\<close>

type_synonym ('d, 'e, 'a) db = "pg_env \<Rightarrow> nat \<Rightarrow> 'd \<Rightarrow> (('e pg_fail + 'a) \<times> nat \<times> 'd) option"

definition db_ok :: "'a \<Rightarrow> ('d, 'e, 'a) db" where
  "db_ok x = (\<lambda>e n d. Some (Inr x, n, d))"

definition db_fail :: "'e pg_fail \<Rightarrow> ('d, 'e, 'a) db" where
  "db_fail err = (\<lambda>e n d. Some (Inl err, n, d))"

definition db_bind :: "('d, 'e, 'a) db \<Rightarrow> ('a \<Rightarrow> ('d, 'e, 'b) db) \<Rightarrow> ('d, 'e, 'b) db" where
  "db_bind m f = (\<lambda>e n d. case m e n d of
      None \<Rightarrow> None
    | Some (Inl err, n', d') \<Rightarrow> Some (Inl err, n', d')
    | Some (Inr x, n', d') \<Rightarrow> f x e n' d')"

definition db_sum :: "'e pg_fail + 'a \<Rightarrow> ('d, 'e, 'a) db" where
  "db_sum r = (case r of Inl err \<Rightarrow> db_fail err | Inr x \<Rightarrow> db_ok x)"

definition db_map_error :: "('e pg_fail \<Rightarrow> 'e pg_fail) \<Rightarrow> ('d, 'e, 'a) db \<Rightarrow> ('d, 'e, 'a) db" where
  "db_map_error h m = (\<lambda>e n d. case m e n d of
      None \<Rightarrow> None
    | Some (Inl err, n', d') \<Rightarrow> Some (Inl (h err), n', d')
    | Some (Inr x, n', d') \<Rightarrow> Some (Inr x, n', d'))"

definition db_wire :: "string \<Rightarrow> ('d, 'e, uuid) db" where
  "db_wire wid = (\<lambda>e. db_sum (map_sum PgWire id (wireToUUID (pe_uuid e) wid)) e)"

definition db_asks :: "(pg_env \<Rightarrow> 'a) \<Rightarrow> ('d, 'e, 'a) db" where
  "db_asks f = (\<lambda>e n d. Some (Inr (f e), n, d))"

definition db_wire_value :: "string \<Rightarrow> ('d, 'e, uuid) db" where
  "db_wire_value wid = db_asks (\<lambda>e. wire_value (pe_uuid e) (pe_badUUID e) wid)"

text \<open>\<open>uuid.Must(uuid.NewV7())\<close>.\<close>

definition db_newV7 :: "('d, 'e, uuid) db" where
  "db_newV7 = (\<lambda>e n d. case uuid_NewV7 (pe_uuid e) n of Inl _ \<Rightarrow> None | Inr u \<Rightarrow> Some (Inr u, Suc n, d))"

definition db_clock :: "('d, 'e, gotime) db" where
  "db_clock = (\<lambda>e n d. Some (Inr (pe_clock e n), Suc n, d))"

definition db_random :: "int \<Rightarrow> ('d, 'e, string) db" where
  "db_random k = (\<lambda>e n d. case pe_rand e n k of
      Inl msg \<Rightarrow> Some (Inl (PgRandom msg), Suc n, d) | Inr b \<Rightarrow> Some (Inr b, Suc n, d))"

text \<open>A statement sees the start of its transaction as \<open>now()\<close>.\<close>

definition db_stmt :: "(gotime \<Rightarrow> 'd \<Rightarrow> pg_error + 'a \<times> 'd) \<Rightarrow> ('d, 'e, 'a) db" where
  "db_stmt f = (\<lambda>e n d. case pe_fault e n of
      Some msg \<Rightarrow> Some (Inl (PgDb (PgOther msg)), Suc n, d)
    | None \<Rightarrow> (case f (pg_time (pe_now e n)) d of
        Inl err \<Rightarrow> Some (Inl (PgDb err), Suc n, d)
      | Inr (x, d') \<Rightarrow> Some (Inr x, Suc n, d')))"

definition db_query :: "('d \<Rightarrow> 'a) \<Rightarrow> ('d, 'e, 'a) db" where
  "db_query f = db_stmt (\<lambda>now d. Inr (f d, d))"

text \<open>The rows in the order in which the statement happens to scan them.  \<open>db_scan\<close> is \<open>QueryRow\<close>, or a loop whose
  errors the code reports: in whichever way the statement fails, the result is an error.\<close>

definition scan :: "('r \<Rightarrow> uuid) \<Rightarrow> uuid list \<Rightarrow> 'r list \<Rightarrow> 'r list" where
  "scan rid ks t = concat (map (\<lambda>k. filter (\<lambda>r. rid r = k) t) ks)"

definition db_scan :: "('r \<Rightarrow> uuid) \<Rightarrow> ('d \<Rightarrow> 'r list) \<Rightarrow> ('d, 'e, 'r list) db" where
  "db_scan rid f = (\<lambda>e n d. db_query (\<lambda>d. scan rid (pe_scan e n) (f d)) e n d)"

text \<open>
  The loop \<open>for rows.Next()\<close>.  An error of the query while it runs ends the loop like the last row does and is kept
  for \<open>rows.Err()\<close>: \<open>pe_cut\<close> gives the number of rows before it and its text.  \<open>checked\<close> says whether the code looks at
  \<open>rows.Err()\<close>; where it does not, what has been read so far is the result.
\<close>

definition db_rows :: "bool \<Rightarrow> ('d \<Rightarrow> 'r list) \<Rightarrow> ('d, 'e, 'r list) db" where
  "db_rows checked f = (\<lambda>e n d. case pe_fault e n of
      Some msg \<Rightarrow> Some (Inl (PgDb (PgOther msg)), Suc n, d)
    | None \<Rightarrow> (case pe_cut e n of
        None \<Rightarrow> Some (Inr (f d), Suc n, d)
      | Some (k, msg) \<Rightarrow>
          if checked then Some (Inl (PgDb (PgOther msg)), Suc n, d) else Some (Inr (take k (f d)), Suc n, d)))"

text \<open>\<open>ORDER BY\<close> a key that may be shared: rows with the same key come in the order of the scan.\<close>

definition db_scan_rows :: "bool \<Rightarrow> ('r \<Rightarrow> uuid) \<Rightarrow> ('r \<Rightarrow> 'k::linorder) \<Rightarrow> ('d \<Rightarrow> 'r list) \<Rightarrow> ('d, 'e, 'r list) db" where
  "db_scan_rows checked rid key f = (\<lambda>e n d. db_rows checked (\<lambda>d. sort_key key (scan rid (pe_scan e n) (f d))) e n d)"

text \<open>A transaction: on an error nothing of it remains.  A commit that fails has not happened.\<close>

definition inTx :: "('d, 'e, 'a) db \<Rightarrow> ('d, 'e, 'a) db" where
  "inTx m = (\<lambda>e n d. case pe_fault e n of
      Some msg \<Rightarrow> Some (Inl (PgDb (PgOther msg)), Suc n, d)
    | None \<Rightarrow> (case m (e\<lparr>pe_now := (\<lambda>_. pe_now e n)\<rparr>) (Suc n) d of
        None \<Rightarrow> None
      | Some (Inl err, n', d') \<Rightarrow> Some (Inl err, n', d)
      | Some (Inr x, n', d') \<Rightarrow> (case pe_fault e n' of
          Some msg \<Rightarrow> Some (Inl (PgDb (PgOther msg)), Suc n', d)
        | None \<Rightarrow> Some (Inr x, Suc n', d'))))"

text \<open>A call of a method: the result and the database it leaves.\<close>

definition db_run :: "('d, 'e, 'a) db \<Rightarrow> pg_env \<Rightarrow> 'd \<Rightarrow> (('e pg_fail + 'a) \<times> 'd) option" where
  "db_run m e d = map_option (\<lambda>(r, n, d'). (r, d')) (m e 0 d)"

text \<open>\<open>Scan\<close> of the row of a \<open>RETURNING\<close> clause.\<close>

definition returning :: "('d, 'e, 'r list) db \<Rightarrow> ('d, 'e, 'r) db" where
  "returning m = db_bind m (\<lambda>rows. case rows of [] \<Rightarrow> db_fail PgNoRows | r # _ \<Rightarrow> db_ok r)"

subsection \<open>Statements on a table\<close>

definition opt_all :: "('a \<Rightarrow> bool) \<Rightarrow> 'a option \<Rightarrow> bool" where
  "opt_all P x = (case x of None \<Rightarrow> True | Some y \<Rightarrow> P y)"

text \<open>\<open>uniq\<close> is the conjunction of the primary key and the unique indexes, \<open>chk\<close> of the \<open>CHECK\<close> constraints,
  \<open>fk\<close> of the foreign keys.  PostgreSQL looks at them in the order check, unique, foreign key.\<close>

definition sql_insert ::
  "('r list \<Rightarrow> bool) \<Rightarrow> ('r \<Rightarrow> bool) \<Rightarrow> ('r \<Rightarrow> bool) \<Rightarrow> 'r \<Rightarrow> 'r list \<Rightarrow> pg_error + 'r list" where
  "sql_insert uniq chk fk r t =
     (if \<not> chk r then Inl PgCheck
      else if \<not> uniq (t @ [r]) then Inl PgUnique
      else if \<not> fk r then Inl PgForeignKey
      else Inr (t @ [r]))"

definition sql_update ::
  "('r list \<Rightarrow> bool) \<Rightarrow> ('r \<Rightarrow> bool) \<Rightarrow> ('r \<Rightarrow> bool) \<Rightarrow> ('r \<Rightarrow> bool) \<Rightarrow> ('r \<Rightarrow> 'r) \<Rightarrow> 'r list \<Rightarrow>
   pg_error + 'r list" where
  "sql_update uniq chk fk P f t =
     (let hit = map f (filter P t); t' = map (\<lambda>r. if P r then f r else r) t
      in if \<not> list_all chk hit then Inl PgCheck
         else if \<not> uniq t' then Inl PgUnique
         else if \<not> list_all fk hit then Inl PgForeignKey
         else Inr t')"

definition sql_delete :: "('r \<Rightarrow> bool) \<Rightarrow> 'r list \<Rightarrow> 'r list" where
  "sql_delete P t = filter (\<lambda>r. \<not> P r) t"

text \<open>Listings: \<open>ORDER BY\<close> a key with \<open>LIMIT\<close>, the condition on the row of the cursor (no row, no result), and
  the cut of a result that was asked for with one row more than the limit.  Between the query and the loop the code
  makes a slice for \<open>limit\<close> elements, which panics where \<open>pe_make\<close> says so, and always for the largest \<open>int\<close>, where
  \<open>limit + 1\<close> wraps around.\<close>

definition db_limited :: "bool \<Rightarrow> ('r \<Rightarrow> 'k::linorder) \<Rightarrow> int \<Rightarrow> ('d \<Rightarrow> 'r list) \<Rightarrow> ('d, 'e, 'r list) db" where
  "db_limited checked key limit f = (\<lambda>e n d.
     if pe_fault e n = None \<and> (\<not> pe_make e limit \<or> wrap64 (limit + 1) < 0) then None
     else db_rows checked (\<lambda>d. take (nat (wrap64 (limit + 1))) (sort_key key (f d))) e n d)"

definition sql_after :: "('r \<Rightarrow> uuid) \<Rightarrow> ('r \<Rightarrow> gotime) \<Rightarrow> uuid option \<Rightarrow> 'r list \<Rightarrow> 'r \<Rightarrow> bool" where
  "sql_after rid at cur t r \<longleftrightarrow>
     (case cur of None \<Rightarrow> True
      | Some u \<Rightarrow> (case find (\<lambda>x. rid x = u) t of None \<Rightarrow> False | Some c \<Rightarrow> (at c, rid c) < (at r, rid r)))"

definition db_select_page ::
  "('r \<Rightarrow> uuid) \<Rightarrow> ('r \<Rightarrow> gotime) \<Rightarrow> ('r \<Rightarrow> bool) \<Rightarrow> uuid option \<Rightarrow> int \<Rightarrow> ('d \<Rightarrow> 'r list) \<Rightarrow> ('d, 'e, 'r list) db" where
  "db_select_page rid at P cur limit tab = db_limited False (\<lambda>r. (at r, rid r)) limit
     (\<lambda>d. filter (\<lambda>r. P r \<and> sql_after rid at cur (tab d) r) (tab d))"

definition page_of :: "('a \<Rightarrow> string) \<Rightarrow> int \<Rightarrow> 'a list \<Rightarrow> 'a page" where
  "page_of ident limit out =
     (if int (length out) > limit
      then \<lparr>Data = take (nat limit) out, NextCursor = Some (ident (out ! nat (limit - 1)))\<rparr>
      else \<lparr>Data = out, NextCursor = None\<rparr>)"

text \<open>The cursor of a listing: absent or empty means the beginning.\<close>

definition db_cursor :: "string option \<Rightarrow> ('d, 'e, uuid option) db" where
  "db_cursor cursor =
     (case cursor of None \<Rightarrow> db_ok None
      | Some c \<Rightarrow> if c = [] then db_ok None else db_bind (db_wire c) (\<lambda>u. db_ok (Some u)))"

definition db_wire_opt :: "string option \<Rightarrow> ('d, 'e, uuid option) db" where
  "db_wire_opt w = (case w of None \<Rightarrow> db_ok None | Some x \<Rightarrow> db_bind (db_wire x) (\<lambda>u. db_ok (Some u)))"

lemma opt_all_simps [simp]: "opt_all P None" "opt_all P (Some x) = P x"
  by (simp_all add: opt_all_def)

subsection \<open>Wire identifiers\<close>

text \<open>The text of a UUID column.\<close>

definition canonical :: "uuid \<Rightarrow> bool" where
  "canonical u \<longleftrightarrow> (\<exists>a b c d e. u = uuid_text a b c d e \<and> group_lengths a b c d e \<and>
     list_all (in_class hex_lower) (a @ b @ c @ d @ e))"

lemma canonical_Nil [simp]: "canonical uuid_Nil"
proof -
  have "uuid_Nil = uuid_text ''00000000'' ''0000'' ''0000'' ''0000'' ''000000000000''"
    by (simp add: uuid_Nil_def uuid_text_def)
  moreover have "list_all (in_class hex_lower) ''00000000000000000000000000000000''"
    by (simp add: class_defs)
  ultimately show ?thesis unfolding canonical_def
    by (intro exI [of _ "''00000000''"] exI [of _ "''0000''"] exI [of _ "''000000000000''"]) (simp add: group_lengths_def)
qed

lemma canonical_payload:
  assumes "canonical u"
  obtains a b c d e where "u = uuid_text a b c d e" "group_lengths a b c d e"
    "filter (\<lambda>c. c \<noteq> CHR ''-'') u = a @ b @ c @ d @ e" "list_all (in_class hex_lower) (a @ b @ c @ d @ e)"
  using assms that filter_uuid_text [OF list_all_is_hex] unfolding canonical_def by metis

lemma canonical_reconstruct:
  "canonical u \<Longrightarrow> reconstructCanonical (filter (\<lambda>c. c \<noteq> CHR ''-'') u) = u"
  by (elim canonical_payload) (simp only: reconstruct_groups)

lemma canonical_parse: "uuid_ok lib \<Longrightarrow> canonical u \<Longrightarrow> uuid_Parse lib u"
  using list_all_is_hex unfolding uuid_ok_def uuid_Parse_spec_def canonical_def by blast

lemma canonical_lower: "canonical u \<Longrightarrow> map ascii_lower u = u"
  by (elim canonical_payload) (simp add: uuid_text_def map_lower_hex)

lemma canonical_length: "canonical u \<Longrightarrow> length (filter (\<lambda>c. c \<noteq> CHR ''-'') u) = 32"
  by (elim canonical_payload) (simp add: group_lengths_def)

text \<open>A UUID survives the way out and in again, whatever the prefix.\<close>

lemma wireToUUID_uuidToWire:
  assumes "uuid_ok lib" and "canonical u" and "CHR ''_'' \<notin> set p"
  shows "wireToUUID lib (uuidToWire p u) = Inr u"
  using assms canonical_parse [OF assms(1,2)]
  by (simp add: wireToUUID_def uuidToWire_def cut_cons canonical_reconstruct canonical_lower canonical_length)

lemma uuidToWire_inj:
  assumes "canonical u" and "canonical v"
  shows "uuidToWire p u = uuidToWire p v \<longleftrightarrow> u = v"
proof
  assume "uuidToWire p u = uuidToWire p v"
  then have "filter (\<lambda>c. c \<noteq> CHR ''-'') u = filter (\<lambda>c. c \<noteq> CHR ''-'') v" by (simp add: uuidToWire_def)
  then show "u = v" using canonical_reconstruct [OF assms(1)] canonical_reconstruct [OF assms(2)] by metis
qed simp

lemma wireToUUID_canonical:
  assumes "uuid_ok lib" and "wireToUUID lib wid = Inr u"
  shows "canonical u"
proof -
  obtain h where h: "length h = 32" "uuid_Parse lib (reconstructCanonical h)" "u = map ascii_lower (reconstructCanonical h)"
    using assms(2) by (auto simp: wireToUUID_def split: option.splits if_splits)
  obtain a b c d e where g: "h = a @ b @ c @ d @ e" "group_lengths a b c d e"
    using hex_groups_exist [OF h(1)] .
  have t: "reconstructCanonical h = uuid_text a b c d e" unfolding g(1) by (rule reconstruct_groups [OF g(2)])
  have "list_all is_hex (a @ b @ c @ d @ e)"
    using h(2) assms(1) g(2) unfolding t uuid_ok_def uuid_Parse_spec_def by blast
  then have "list_all (in_class hex_lower) (map ascii_lower (a @ b @ c @ d @ e))" by (rule list_all_lower)
  moreover have "group_lengths (map ascii_lower a) (map ascii_lower b) (map ascii_lower c) (map ascii_lower d)
      (map ascii_lower e)" using g(2) by (simp add: group_lengths_def)
  ultimately show ?thesis
    unfolding canonical_def h(3) t map_lower_uuid_text map_append by blast
qed

lemma NewV7_canonical: "uuid_ok lib \<Longrightarrow> uuid_NewV7 lib n = Inr u \<Longrightarrow> canonical u"
  unfolding uuid_ok_def uuid_NewV7_spec_def canonical_def by blast

lemma wire_value_uuidToWire:
  "uuid_ok lib \<Longrightarrow> canonical u \<Longrightarrow> CHR ''_'' \<notin> set p \<Longrightarrow> wire_value lib bad (uuidToWire p u) = u"
  by (simp add: wire_value_def wireToUUID_uuidToWire)

text \<open>The prefix plays no part.\<close>

lemma wireToUUID_prefix:
  "CHR ''_'' \<notin> set p \<Longrightarrow> CHR ''_'' \<notin> set q \<Longrightarrow>
   map_sum (\<lambda>_. ()) id (wireToUUID lib (p @ ''_'' @ h)) = map_sum (\<lambda>_. ()) id (wireToUUID lib (q @ ''_'' @ h))"
  by (simp add: wireToUUID_def cut_cons)

end
