(* ===== verification/PgSchema.thy ===== *)
theory PgSchema
  imports PgSql TenancyTypes AuthzTypes
begin

text \<open>
  \<open>tests/postgres-schema.sql\<close>: the rows of the tables the stores use, with the primary keys and unique indexes
  (\<open>_uniq\<close>), the \<open>CHECK\<close> constraints (\<open>_chk\<close>) and the foreign keys (\<open>_fk\<close>) of each table, and the database.
  \<open>NOT NULL\<close> is the absence of an \<open>option\<close>.  Columns that no store reads or writes are left out; an integer
  that does not fit its column fails the \<open>CHECK\<close> of the column.
\<close>

record usr_row =
  ur_id :: uuid
  ur_status :: string
  ur_display_name :: "string option"
  ur_created_at :: gotime
  ur_updated_at :: gotime

record org_row =
  og_id :: uuid
  og_status :: Status
  og_created_at :: gotime
  og_updated_at :: gotime
  og_name :: "string option"
  og_slug :: "string option"

record mem_row =
  mr_id :: uuid
  mr_usr_id :: uuid
  mr_org_id :: uuid
  mr_role :: Role
  mr_status :: Status
  mr_replaces :: "uuid option"
  mr_invited_by :: "uuid option"
  mr_removed_by :: "uuid option"
  mr_created_at :: gotime
  mr_updated_at :: gotime

record inv_row =
  ir_id :: uuid
  ir_org_id :: uuid
  ir_identifier :: string
  ir_role :: Role
  ir_status :: InvitationStatus
  ir_pre_tuples :: string
  ir_invited_by :: uuid
  ir_invited_user_id :: "uuid option"
  ir_created_at :: gotime
  ir_expires_at :: gotime
  ir_terminal_at :: "gotime option"
  ir_terminal_by :: "uuid option"

record tup_row =
  tr_id :: uuid
  tr_subject_type :: string
  tr_subject_id :: uuid
  tr_relation :: string
  tr_object_type :: string
  tr_object_id :: uuid
  tr_created_at :: gotime
  tr_created_by :: "uuid option"

record shr_row =
  sr_id :: uuid
  sr_token_hash :: string
  sr_object_type :: string
  sr_object_id :: uuid
  sr_relation :: string
  sr_created_by :: uuid
  sr_expires_at :: gotime
  sr_single_use :: bool
  sr_consumed_at :: "gotime option"
  sr_revoked_at :: "gotime option"
  sr_created_at :: gotime

record cred_row =
  cr_id :: uuid
  cr_usr_id :: uuid
  cr_type :: string
  cr_identifier :: string
  cr_status :: string
  cr_replaces :: "uuid option"
  cr_password_hash :: "string option"
  cr_passkey_public_key :: "string option"
  cr_passkey_sign_count :: "int option"
  cr_passkey_rp_id :: "string option"
  cr_oidc_issuer :: "string option"
  cr_oidc_subject :: "string option"
  cr_created_at :: gotime
  cr_updated_at :: gotime

record ses_row =
  sn_id :: uuid
  sn_usr_id :: uuid
  sn_cred_id :: uuid
  sn_created_at :: gotime
  sn_expires_at :: gotime
  sn_revoked_at :: "gotime option"
  sn_token_hash :: "string option"

record mfa_row =
  mf_id :: uuid
  mf_usr_id :: uuid
  mf_type :: string
  mf_status :: string
  mf_identifier :: "string option"
  mf_totp_secret :: "string option"
  mf_totp_algorithm :: "string option"
  mf_totp_digits :: "int option"
  mf_totp_period :: "int option"
  mf_webauthn_public_key :: "string option"
  mf_webauthn_sign_count :: "int option"
  mf_webauthn_rp_id :: "string option"
  mf_recovery_hashes :: "string list option"
  mf_recovery_consumed :: "bool list option"
  mf_pending_expires_at :: "gotime option"
  mf_created_at :: gotime
  mf_updated_at :: gotime

record policy_row =
  po_usr_id :: uuid
  po_required :: bool
  po_grace_until :: "gotime option"
  po_updated_at :: gotime

record pat_row =
  pa_id :: uuid
  pa_usr_id :: uuid
  pa_name :: string
  pa_scope :: "string list"
  pa_secret_hash :: string
  pa_expires_at :: "gotime option"
  pa_last_used_at :: "gotime option"
  pa_revoked_at :: "gotime option"
  pa_created_at :: gotime
  pa_updated_at :: gotime

record pg_db =
  db_usr :: "usr_row list"
  db_org :: "org_row list"
  db_mem :: "mem_row list"
  db_inv :: "inv_row list"
  db_tup :: "tup_row list"
  db_shr :: "shr_row list"
  db_cred :: "cred_row list"
  db_ses :: "ses_row list"
  db_mfa :: "mfa_row list"
  db_policy :: "policy_row list"
  db_pat :: "pat_row list"

definition empty_db :: pg_db where
  "empty_db = \<lparr>db_usr = [], db_org = [], db_mem = [], db_inv = [], db_tup = [], db_shr = [], db_cred = [],
     db_ses = [], db_mfa = [], db_policy = [], db_pat = []\<rparr>"

definition some_values :: "('r \<Rightarrow> 'v option) \<Rightarrow> 'r list \<Rightarrow> 'v list" where
  "some_values f t = concat (map (\<lambda>r. case f r of None \<Rightarrow> [] | Some v \<Rightarrow> [v]) t)"

definition usr_exists :: "pg_db \<Rightarrow> uuid \<Rightarrow> bool" where
  "usr_exists d u \<longleftrightarrow> list_ex (\<lambda>r. ur_id r = u) (db_usr d)"

definition org_exists :: "pg_db \<Rightarrow> uuid \<Rightarrow> bool" where
  "org_exists d u \<longleftrightarrow> list_ex (\<lambda>r. og_id r = u) (db_org d)"

text \<open>\<open>usr\<close>\<close>

definition status_names :: "string list" where
  "status_names = [''active'', ''suspended'', ''revoked'']"

definition usr_chk :: "usr_row \<Rightarrow> bool" where
  "usr_chk r \<longleftrightarrow> ur_status r \<in> set status_names"

definition usr_uniq :: "usr_row list \<Rightarrow> bool" where
  "usr_uniq t \<longleftrightarrow> distinct (map ur_id t)"

text \<open>\<open>org\<close>\<close>

definition org_chk :: "org_row \<Rightarrow> bool" where
  "org_chk r \<longleftrightarrow> og_status r \<noteq> StZero \<and> opt_all (rx_match slugRe) (og_slug r)"

definition org_uniq :: "org_row list \<Rightarrow> bool" where
  "org_uniq t \<longleftrightarrow> distinct (map og_id t) \<and> distinct (some_values og_slug t)"

text \<open>\<open>mem\<close>: at most one active membership per user and organization\<close>

definition role_names :: "Role list" where
  "role_names = [RoleOwner, RoleAdmin, RoleMember, RoleGuest, RoleViewer, RoleEditor]"

definition mem_chk :: "mem_row \<Rightarrow> bool" where
  "mem_chk r \<longleftrightarrow> mr_role r \<in> set role_names \<and> mr_status r \<noteq> StZero"

definition mem_active :: "mem_row \<Rightarrow> bool" where
  "mem_active r \<longleftrightarrow> mr_status r = StActive"

definition mem_uniq :: "mem_row list \<Rightarrow> bool" where
  "mem_uniq t \<longleftrightarrow> distinct (map mr_id t) \<and>
     distinct (map (\<lambda>r. (mr_usr_id r, mr_org_id r)) (filter mem_active t))"

definition mem_fk :: "pg_db \<Rightarrow> mem_row \<Rightarrow> bool" where
  "mem_fk d r \<longleftrightarrow> usr_exists d (mr_usr_id r) \<and> org_exists d (mr_org_id r) \<and>
     opt_all (\<lambda>u. u = mr_id r \<or> list_ex (\<lambda>q. mr_id q = u) (db_mem d)) (mr_replaces r) \<and>
     opt_all (usr_exists d) (mr_invited_by r) \<and> opt_all (usr_exists d) (mr_removed_by r)"

text \<open>\<open>inv\<close>\<close>

definition inv_chk :: "inv_row \<Rightarrow> bool" where
  "inv_chk r \<longleftrightarrow> ir_role r \<in> set role_names \<and> (ir_status r = InvPending) = (ir_terminal_at r = None) \<and>
     ir_expires_at r > ir_created_at r"

definition inv_uniq :: "inv_row list \<Rightarrow> bool" where
  "inv_uniq t \<longleftrightarrow> distinct (map ir_id t)"

definition inv_fk :: "pg_db \<Rightarrow> inv_row \<Rightarrow> bool" where
  "inv_fk d r \<longleftrightarrow> org_exists d (ir_org_id r) \<and> usr_exists d (ir_invited_by r) \<and>
     opt_all (usr_exists d) (ir_invited_user_id r) \<and> opt_all (usr_exists d) (ir_terminal_by r)"

text \<open>\<open>tup\<close>: the five parts of a tuple are unique\<close>

definition tup_parts :: "tup_row \<Rightarrow> string \<times> uuid \<times> string \<times> string \<times> uuid" where
  "tup_parts r = (tr_subject_type r, tr_subject_id r, tr_relation r, tr_object_type r, tr_object_id r)"

definition tup_chk :: "tup_row \<Rightarrow> bool" where
  "tup_chk r \<longleftrightarrow> rx_match TypePrefixPattern (tr_subject_type r) \<and> rx_match RelationNamePattern (tr_relation r) \<and>
     rx_match TypePrefixPattern (tr_object_type r)"

definition tup_uniq :: "tup_row list \<Rightarrow> bool" where
  "tup_uniq t \<longleftrightarrow> distinct (map tr_id t) \<and> distinct (map tup_parts t)"

definition tup_fk :: "pg_db \<Rightarrow> tup_row \<Rightarrow> bool" where
  "tup_fk d r \<longleftrightarrow> opt_all (usr_exists d) (tr_created_by r)"

text \<open>\<open>shr\<close>: an unrevoked, unconsumed share has its token hash to itself\<close>

definition day_ns :: int where "day_ns = 86400 * second_ns"

definition shr_chk :: "shr_row \<Rightarrow> bool" where
  "shr_chk r \<longleftrightarrow> rx_match TypePrefixPattern (sr_object_type r) \<and> rx_match RelationNamePattern (sr_relation r) \<and>
     length (sr_token_hash r) = 32 \<and> sr_expires_at r > sr_created_at r \<and>
     (sr_consumed_at r \<noteq> None \<longrightarrow> sr_single_use r) \<and> opt_all (\<lambda>t. t \<ge> sr_created_at r) (sr_consumed_at r) \<and>
     opt_all (\<lambda>t. t \<ge> sr_created_at r) (sr_revoked_at r) \<and> sr_expires_at r \<le> sr_created_at r + 365 * day_ns"

definition shr_open :: "shr_row \<Rightarrow> bool" where
  "shr_open r \<longleftrightarrow> sr_revoked_at r = None \<and> sr_consumed_at r = None"

definition shr_uniq :: "shr_row list \<Rightarrow> bool" where
  "shr_uniq t \<longleftrightarrow> distinct (map sr_id t) \<and> distinct (map sr_token_hash (filter shr_open t))"

definition shr_fk :: "pg_db \<Rightarrow> shr_row \<Rightarrow> bool" where
  "shr_fk d r \<longleftrightarrow> usr_exists d (sr_created_by r)"

text \<open>\<open>cred\<close>: the columns that belong to the type, and one active credential per type and identifier\<close>

definition cred_chk :: "cred_row \<Rightarrow> bool" where
  "cred_chk r \<longleftrightarrow> cr_status r \<in> set status_names \<and>
     (cr_type r = ''password'' \<and> cr_password_hash r \<noteq> None \<and> cr_passkey_public_key r = None \<and>
        cr_oidc_issuer r = None \<or>
      cr_type r = ''passkey'' \<and> cr_passkey_public_key r \<noteq> None \<and> cr_passkey_sign_count r \<noteq> None \<and>
        cr_password_hash r = None \<and> cr_oidc_issuer r = None \<or>
      cr_type r = ''oidc'' \<and> cr_oidc_issuer r \<noteq> None \<and> cr_oidc_subject r \<noteq> None \<and>
        cr_password_hash r = None \<and> cr_passkey_public_key r = None)"

definition cred_active :: "cred_row \<Rightarrow> bool" where
  "cred_active r \<longleftrightarrow> cr_status r = ''active''"

definition cred_uniq :: "cred_row list \<Rightarrow> bool" where
  "cred_uniq t \<longleftrightarrow> distinct (map cr_id t) \<and>
     distinct (map (\<lambda>r. (cr_type r, cr_identifier r)) (filter cred_active t))"

definition cred_fk :: "pg_db \<Rightarrow> cred_row \<Rightarrow> bool" where
  "cred_fk d r \<longleftrightarrow> usr_exists d (cr_usr_id r) \<and>
     opt_all (\<lambda>u. u = cr_id r \<or> list_ex (\<lambda>q. cr_id q = u) (db_cred d)) (cr_replaces r)"

text \<open>\<open>ses\<close>\<close>

definition ses_chk :: "ses_row \<Rightarrow> bool" where
  "ses_chk r \<longleftrightarrow> sn_expires_at r > sn_created_at r \<and> opt_all (\<lambda>t. t \<ge> sn_created_at r) (sn_revoked_at r) \<and>
     opt_all (\<lambda>h. length h = 32) (sn_token_hash r)"

definition ses_open :: "ses_row \<Rightarrow> bool" where
  "ses_open r \<longleftrightarrow> sn_revoked_at r = None"

definition ses_uniq :: "ses_row list \<Rightarrow> bool" where
  "ses_uniq t \<longleftrightarrow> distinct (map sn_id t) \<and> distinct (some_values sn_token_hash (filter ses_open t))"

definition ses_fk :: "pg_db \<Rightarrow> ses_row \<Rightarrow> bool" where
  "ses_fk d r \<longleftrightarrow> usr_exists d (sn_usr_id r) \<and> list_ex (\<lambda>c. cr_id c = sn_cred_id r) (db_cred d)"

text \<open>\<open>mfa\<close>; \<open>array_length\<close> of an empty array is null, and a \<open>CHECK\<close> passes on null\<close>

definition same_array_length :: "'a list \<Rightarrow> 'b list \<Rightarrow> bool" where
  "same_array_length xs ys \<longleftrightarrow> xs = [] \<or> ys = [] \<or> length xs = length ys"

definition mfa_columns :: "mfa_row \<Rightarrow> bool" where
  "mfa_columns r \<longleftrightarrow>
     mf_type r = ''totp'' \<and> mf_totp_secret r \<noteq> None \<and> mf_totp_algorithm r \<noteq> None \<and> mf_totp_digits r \<noteq> None \<and>
       mf_totp_period r \<noteq> None \<and> mf_identifier r \<noteq> None \<and> mf_webauthn_public_key r = None \<and>
       mf_recovery_hashes r = None \<or>
     mf_type r = ''webauthn'' \<and> mf_webauthn_public_key r \<noteq> None \<and> mf_webauthn_sign_count r \<noteq> None \<and>
       mf_webauthn_rp_id r \<noteq> None \<and> mf_identifier r \<noteq> None \<and> mf_totp_secret r = None \<and>
       mf_recovery_hashes r = None \<or>
     mf_type r = ''recovery'' \<and>
       (case (mf_recovery_hashes r, mf_recovery_consumed r) of
          (Some hs, Some cs) \<Rightarrow> same_array_length hs cs | _ \<Rightarrow> False) \<and>
       mf_identifier r = None \<and> mf_totp_secret r = None \<and> mf_webauthn_public_key r = None"

definition mfa_chk :: "mfa_row \<Rightarrow> bool" where
  "mfa_chk r \<longleftrightarrow> mf_status r \<in> set (''pending'' # status_names) \<and>
     opt_all (\<lambda>a. a \<in> {''sha1'', ''sha256'', ''sha512''}) (mf_totp_algorithm r) \<and>
     opt_all (\<lambda>n. 6 \<le> n \<and> n \<le> 10) (mf_totp_digits r) \<and> opt_all (\<lambda>n. 15 \<le> n \<and> n \<le> 120) (mf_totp_period r) \<and>
     mfa_columns r \<and> (mf_type r = ''recovery'' \<longrightarrow> mf_status r \<noteq> ''pending'') \<and>
     (mf_status r = ''pending'') = (mf_pending_expires_at r \<noteq> None)"

definition mfa_active :: "mfa_row \<Rightarrow> bool" where
  "mfa_active r \<longleftrightarrow> mf_status r = ''active''"

definition mfa_uniq :: "mfa_row list \<Rightarrow> bool" where
  "mfa_uniq t \<longleftrightarrow> distinct (map mf_id t) \<and>
     distinct (map (\<lambda>r. (mf_usr_id r, mf_type r)) (filter (\<lambda>r. mfa_active r \<and> mf_type r \<in> {''totp'', ''recovery''}) t)) \<and>
     distinct (some_values mf_identifier (filter (\<lambda>r. mf_type r = ''webauthn'' \<and> mfa_active r) t))"

definition mfa_fk :: "pg_db \<Rightarrow> mfa_row \<Rightarrow> bool" where
  "mfa_fk d r \<longleftrightarrow> usr_exists d (mf_usr_id r)"

text \<open>\<open>usr_mfa_policy\<close> and \<open>pat\<close>\<close>

definition policy_uniq :: "policy_row list \<Rightarrow> bool" where
  "policy_uniq t \<longleftrightarrow> distinct (map po_usr_id t)"

definition policy_fk :: "pg_db \<Rightarrow> policy_row \<Rightarrow> bool" where
  "policy_fk d r \<longleftrightarrow> usr_exists d (po_usr_id r)"

text \<open>\<open>length\<close> of a text counts its characters: the bytes of UTF-8 that do not continue one.\<close>

definition char_length :: "string \<Rightarrow> nat" where
  "char_length s = length (filter (\<lambda>c. of_char c div 64 \<noteq> (2::nat)) s)"

definition pat_chk :: "pat_row \<Rightarrow> bool" where
  "pat_chk r \<longleftrightarrow> opt_all (\<lambda>t. t > pa_created_at r) (pa_expires_at r) \<and>
     opt_all (\<lambda>t. t \<ge> pa_created_at r) (pa_last_used_at r) \<and> opt_all (\<lambda>t. t \<ge> pa_created_at r) (pa_revoked_at r) \<and>
     1 \<le> char_length (pa_name r) \<and> char_length (pa_name r) \<le> 120"

definition pat_uniq :: "pat_row list \<Rightarrow> bool" where
  "pat_uniq t \<longleftrightarrow> distinct (map pa_id t)"

definition pat_fk :: "pg_db \<Rightarrow> pat_row \<Rightarrow> bool" where
  "pat_fk d r \<longleftrightarrow> usr_exists d (pa_usr_id r)"

subsection \<open>Statements on the tables\<close>

definition insert_usr :: "usr_row \<Rightarrow> pg_db \<Rightarrow> pg_error + usr_row \<times> pg_db" where
  "insert_usr r d = map_sum id (\<lambda>t. (r, d\<lparr>db_usr := t\<rparr>)) (sql_insert usr_uniq usr_chk (\<lambda>_. True) r (db_usr d))"

definition insert_cred :: "cred_row \<Rightarrow> pg_db \<Rightarrow> pg_error + cred_row \<times> pg_db" where
  "insert_cred r d = map_sum id (\<lambda>t. (r, d\<lparr>db_cred := t\<rparr>)) (sql_insert cred_uniq cred_chk (cred_fk d) r (db_cred d))"

definition insert_ses :: "ses_row \<Rightarrow> pg_db \<Rightarrow> pg_error + ses_row \<times> pg_db" where
  "insert_ses r d = map_sum id (\<lambda>t. (r, d\<lparr>db_ses := t\<rparr>)) (sql_insert ses_uniq ses_chk (ses_fk d) r (db_ses d))"

definition insert_mfa :: "mfa_row \<Rightarrow> pg_db \<Rightarrow> pg_error + mfa_row \<times> pg_db" where
  "insert_mfa r d = map_sum id (\<lambda>t. (r, d\<lparr>db_mfa := t\<rparr>)) (sql_insert mfa_uniq mfa_chk (mfa_fk d) r (db_mfa d))"

definition insert_pat :: "pat_row \<Rightarrow> pg_db \<Rightarrow> pg_error + pat_row \<times> pg_db" where
  "insert_pat r d = map_sum id (\<lambda>t. (r, d\<lparr>db_pat := t\<rparr>)) (sql_insert pat_uniq pat_chk (pat_fk d) r (db_pat d))"

definition insert_org :: "org_row \<Rightarrow> pg_db \<Rightarrow> pg_error + org_row \<times> pg_db" where
  "insert_org r d = map_sum id (\<lambda>t. (r, d\<lparr>db_org := t\<rparr>)) (sql_insert org_uniq org_chk (\<lambda>_. True) r (db_org d))"

definition insert_mem :: "mem_row \<Rightarrow> pg_db \<Rightarrow> pg_error + mem_row \<times> pg_db" where
  "insert_mem r d = map_sum id (\<lambda>t. (r, d\<lparr>db_mem := t\<rparr>)) (sql_insert mem_uniq mem_chk (mem_fk d) r (db_mem d))"

definition insert_inv :: "inv_row \<Rightarrow> pg_db \<Rightarrow> pg_error + inv_row \<times> pg_db" where
  "insert_inv r d = map_sum id (\<lambda>t. (r, d\<lparr>db_inv := t\<rparr>)) (sql_insert inv_uniq inv_chk (inv_fk d) r (db_inv d))"

definition insert_tup :: "tup_row \<Rightarrow> pg_db \<Rightarrow> pg_error + tup_row \<times> pg_db" where
  "insert_tup r d = map_sum id (\<lambda>t. (r, d\<lparr>db_tup := t\<rparr>)) (sql_insert tup_uniq tup_chk (tup_fk d) r (db_tup d))"

definition insert_shr :: "shr_row \<Rightarrow> pg_db \<Rightarrow> pg_error + shr_row \<times> pg_db" where
  "insert_shr r d = map_sum id (\<lambda>t. (r, d\<lparr>db_shr := t\<rparr>)) (sql_insert shr_uniq shr_chk (shr_fk d) r (db_shr d))"

text \<open>An \<open>UPDATE\<close> gives the rows it has changed.\<close>

definition update_usr :: "(usr_row \<Rightarrow> bool) \<Rightarrow> (usr_row \<Rightarrow> usr_row) \<Rightarrow> pg_db \<Rightarrow> pg_error + usr_row list \<times> pg_db" where
  "update_usr P f d = map_sum id (\<lambda>t. (map f (filter P (db_usr d)), d\<lparr>db_usr := t\<rparr>))
     (sql_update usr_uniq usr_chk (\<lambda>_. True) P f (db_usr d))"

definition update_cred :: "(cred_row \<Rightarrow> bool) \<Rightarrow> (cred_row \<Rightarrow> cred_row) \<Rightarrow> pg_db \<Rightarrow> pg_error + cred_row list \<times> pg_db" where
  "update_cred P f d = map_sum id (\<lambda>t. (map f (filter P (db_cred d)), d\<lparr>db_cred := t\<rparr>))
     (sql_update cred_uniq cred_chk (cred_fk d) P f (db_cred d))"

definition update_ses :: "(ses_row \<Rightarrow> bool) \<Rightarrow> (ses_row \<Rightarrow> ses_row) \<Rightarrow> pg_db \<Rightarrow> pg_error + ses_row list \<times> pg_db" where
  "update_ses P f d = map_sum id (\<lambda>t. (map f (filter P (db_ses d)), d\<lparr>db_ses := t\<rparr>))
     (sql_update ses_uniq ses_chk (ses_fk d) P f (db_ses d))"

definition update_mfa :: "(mfa_row \<Rightarrow> bool) \<Rightarrow> (mfa_row \<Rightarrow> mfa_row) \<Rightarrow> pg_db \<Rightarrow> pg_error + mfa_row list \<times> pg_db" where
  "update_mfa P f d = map_sum id (\<lambda>t. (map f (filter P (db_mfa d)), d\<lparr>db_mfa := t\<rparr>))
     (sql_update mfa_uniq mfa_chk (mfa_fk d) P f (db_mfa d))"

definition update_pat :: "(pat_row \<Rightarrow> bool) \<Rightarrow> (pat_row \<Rightarrow> pat_row) \<Rightarrow> pg_db \<Rightarrow> pg_error + pat_row list \<times> pg_db" where
  "update_pat P f d = map_sum id (\<lambda>t. (map f (filter P (db_pat d)), d\<lparr>db_pat := t\<rparr>))
     (sql_update pat_uniq pat_chk (pat_fk d) P f (db_pat d))"

definition update_org :: "(org_row \<Rightarrow> bool) \<Rightarrow> (org_row \<Rightarrow> org_row) \<Rightarrow> pg_db \<Rightarrow> pg_error + org_row list \<times> pg_db" where
  "update_org P f d = map_sum id (\<lambda>t. (map f (filter P (db_org d)), d\<lparr>db_org := t\<rparr>))
     (sql_update org_uniq org_chk (\<lambda>_. True) P f (db_org d))"

definition update_mem :: "(mem_row \<Rightarrow> bool) \<Rightarrow> (mem_row \<Rightarrow> mem_row) \<Rightarrow> pg_db \<Rightarrow> pg_error + mem_row list \<times> pg_db" where
  "update_mem P f d = map_sum id (\<lambda>t. (map f (filter P (db_mem d)), d\<lparr>db_mem := t\<rparr>))
     (sql_update mem_uniq mem_chk (mem_fk d) P f (db_mem d))"

definition update_inv :: "(inv_row \<Rightarrow> bool) \<Rightarrow> (inv_row \<Rightarrow> inv_row) \<Rightarrow> pg_db \<Rightarrow> pg_error + inv_row list \<times> pg_db" where
  "update_inv P f d = map_sum id (\<lambda>t. (map f (filter P (db_inv d)), d\<lparr>db_inv := t\<rparr>))
     (sql_update inv_uniq inv_chk (inv_fk d) P f (db_inv d))"

definition update_shr :: "(shr_row \<Rightarrow> bool) \<Rightarrow> (shr_row \<Rightarrow> shr_row) \<Rightarrow> pg_db \<Rightarrow> pg_error + shr_row list \<times> pg_db" where
  "update_shr P f d = map_sum id (\<lambda>t. (map f (filter P (db_shr d)), d\<lparr>db_shr := t\<rparr>))
     (sql_update shr_uniq shr_chk (shr_fk d) P f (db_shr d))"

text \<open>\<open>INSERT ... ON CONFLICT DO UPDATE\<close>.\<close>

definition upsert_policy :: "policy_row \<Rightarrow> pg_db \<Rightarrow> pg_error + policy_row \<times> pg_db" where
  "upsert_policy r d =
     (if list_ex (\<lambda>q. po_usr_id q = po_usr_id r) (db_policy d)
      then Inr (r, d\<lparr>db_policy := map (\<lambda>q. if po_usr_id q = po_usr_id r then r else q) (db_policy d)\<rparr>)
      else map_sum id (\<lambda>t. (r, d\<lparr>db_policy := t\<rparr>))
             (sql_insert policy_uniq (\<lambda>_. True) (policy_fk d) r (db_policy d)))"

definition delete_tup :: "(tup_row \<Rightarrow> bool) \<Rightarrow> pg_db \<Rightarrow> nat \<times> pg_db" where
  "delete_tup P d = (length (filter P (db_tup d)), d\<lparr>db_tup := sql_delete P (db_tup d)\<rparr>)"

text \<open>Lookups: the row of a primary key, and a single row of any query.\<close>

definition first_row :: "('r \<Rightarrow> bool) \<Rightarrow> ('d \<Rightarrow> 'r list) \<Rightarrow> ('d, 'e, 'r) db" where
  "first_row P tab = db_bind (db_query (\<lambda>d. find P (tab d)))
     (\<lambda>r. case r of None \<Rightarrow> db_fail PgNoRows | Some x \<Rightarrow> db_ok x)"

definition not_found :: "'e \<Rightarrow> 'e pg_fail \<Rightarrow> 'e pg_fail" where
  "not_found sentinel err = (if err = PgNoRows then PgErr sentinel else err)"

text \<open>The constraints of the whole database.\<close>

definition db_valid :: "pg_db \<Rightarrow> bool" where
  "db_valid d \<longleftrightarrow>
     usr_uniq (db_usr d) \<and> list_all usr_chk (db_usr d) \<and>
     org_uniq (db_org d) \<and> list_all org_chk (db_org d) \<and>
     mem_uniq (db_mem d) \<and> list_all mem_chk (db_mem d) \<and> list_all (mem_fk d) (db_mem d) \<and>
     inv_uniq (db_inv d) \<and> list_all inv_chk (db_inv d) \<and> list_all (inv_fk d) (db_inv d) \<and>
     tup_uniq (db_tup d) \<and> list_all tup_chk (db_tup d) \<and> list_all (tup_fk d) (db_tup d) \<and>
     shr_uniq (db_shr d) \<and> list_all shr_chk (db_shr d) \<and> list_all (shr_fk d) (db_shr d) \<and>
     cred_uniq (db_cred d) \<and> list_all cred_chk (db_cred d) \<and> list_all (cred_fk d) (db_cred d) \<and>
     ses_uniq (db_ses d) \<and> list_all ses_chk (db_ses d) \<and> list_all (ses_fk d) (db_ses d) \<and>
     mfa_uniq (db_mfa d) \<and> list_all mfa_chk (db_mfa d) \<and> list_all (mfa_fk d) (db_mfa d) \<and>
     policy_uniq (db_policy d) \<and> list_all (policy_fk d) (db_policy d) \<and>
     pat_uniq (db_pat d) \<and> list_all pat_chk (db_pat d) \<and> list_all (pat_fk d) (db_pat d)"

end
