(* ===== verification/PgLogic.thy ===== *)
theory PgLogic
  imports PgSql
begin

text \<open>
  Reasoning about code on a database.  \<open>keeps I Q m\<close>: from a database that satisfies \<open>I\<close>, and in an environment
  whose UUID library behaves, \<open>m\<close> leaves one that does, and what it returns without an error satisfies \<open>Q\<close>.  The
  rules of the collection \<open>db_rules\<close> compute backwards; a method's proof applies them and then speaks about its
  statements only.  \<open>db_runs\<close> takes a successful run apart.
\<close>

named_theorems db_rules

definition env_ok :: "pg_env \<Rightarrow> bool" where
  "env_ok e \<longleftrightarrow> uuid_ok (pe_uuid e) \<and> (\<forall>s. canonical (pe_badUUID e s))"

definition keeps :: "('d \<Rightarrow> bool) \<Rightarrow> ('a \<Rightarrow> bool) \<Rightarrow> ('d, 'e, 'a) db \<Rightarrow> bool" where
  "keeps I Q m \<longleftrightarrow> (\<forall>e n d r n' d'. env_ok e \<longrightarrow> I d \<longrightarrow> m e n d = Some (r, n', d') \<longrightarrow>
     I d' \<and> (\<forall>x. r = Inr x \<longrightarrow> Q x))"

lemma keepsI:
  assumes "\<And>e n d r n' d'. env_ok e \<Longrightarrow> I d \<Longrightarrow> m e n d = Some (r, n', d') \<Longrightarrow> I d' \<and> (\<forall>x. r = Inr x \<longrightarrow> Q x)"
  shows "keeps I Q m"
  using assms by (auto simp: keeps_def)

lemma keepsD:
  assumes "keeps I Q m" and "env_ok e" and "I d" and "m e n d = Some (r, n', d')"
  shows "I d'" and "r = Inr x \<Longrightarrow> Q x"
  using assms unfolding keeps_def by blast+

lemma keeps_ok [db_rules]: "Q x \<Longrightarrow> keeps I Q (db_ok x)"
  by (auto simp: keeps_def db_ok_def)

lemma keeps_fail [db_rules]: "keeps I Q (db_fail err)"
  by (auto simp: keeps_def db_fail_def)

lemma keeps_bind [db_rules]:
  assumes "keeps I (\<lambda>x. keeps I Q (f x)) m"
  shows "keeps I Q (db_bind m f)"
proof (rule keepsI)
  fix e n d r n' d'
  assume *: "env_ok e" "I d" "db_bind m f e n d = Some (r, n', d')"
  obtain r1 n1 d1 where 1: "m e n d = Some (r1, n1, d1)"
    using *(3) by (auto simp: db_bind_def split: option.splits)
  show "I d' \<and> (\<forall>x. r = Inr x \<longrightarrow> Q x)"
  proof (cases r1)
    case (Inl err)
    then show ?thesis using 1 *(3) keepsD(1) [OF assms *(1,2) 1] by (auto simp: db_bind_def)
  next
    case (Inr x)
    then have "f x e n1 d1 = Some (r, n', d')" using 1 *(3) by (simp add: db_bind_def)
    with keepsD(1) [OF assms *(1,2) 1] keepsD(2) [OF assms *(1,2) 1 Inr] *(1) show ?thesis
      by (auto dest: keepsD)
  qed
qed

lemma keeps_map_error [db_rules]: "keeps I Q m \<Longrightarrow> keeps I Q (db_map_error h m)"
  unfolding keeps_def by (auto simp: db_map_error_def split: option.splits sum.splits)

lemma keeps_env: "(\<And>e0. env_ok e0 \<Longrightarrow> keeps I Q (m e0)) \<Longrightarrow> keeps I Q (\<lambda>e. m e e)"
  unfolding keeps_def by blast

lemma keeps_asks [db_rules]: "(\<And>e. env_ok e \<Longrightarrow> Q (f e)) \<Longrightarrow> keeps I Q (db_asks f)"
  by (auto simp: keeps_def db_asks_def)

lemma keeps_weaken: "keeps I P m \<Longrightarrow> (\<And>x. P x \<Longrightarrow> Q x) \<Longrightarrow> keeps I Q m"
  unfolding keeps_def by blast

lemma keeps_sum [db_rules]: "(\<And>x. r = Inr x \<Longrightarrow> Q x) \<Longrightarrow> keeps I Q (db_sum r)"
  by (cases r) (auto simp: db_sum_def intro: keeps_ok keeps_fail)

lemma keeps_wire [db_rules]: "(\<And>u. canonical u \<Longrightarrow> Q u) \<Longrightarrow> keeps I Q (db_wire wid)"
  unfolding db_wire_def
  by (rule keeps_env, rule keeps_sum) (auto simp: env_ok_def map_sum_def split: sum.splits dest: wireToUUID_canonical)

lemma keeps_newV7 [db_rules]: "(\<And>u. canonical u \<Longrightarrow> Q u) \<Longrightarrow> keeps I Q db_newV7"
  by (rule keepsI) (auto simp: db_newV7_def env_ok_def split: sum.splits dest: NewV7_canonical)

lemma canonical_reconstruct_wire_value:
  "env_ok e \<Longrightarrow> canonical (wire_value (pe_uuid e) (pe_badUUID e) wid)"
  by (auto simp: wire_value_def env_ok_def split: sum.splits option.splits dest: wireToUUID_canonical)

lemma keeps_wire_value [db_rules]: "(\<And>u. canonical u \<Longrightarrow> Q u) \<Longrightarrow> keeps I Q (db_wire_value wid)"
  unfolding db_wire_value_def
  by (rule keeps_asks) (simp add: canonical_reconstruct_wire_value)

lemma keeps_clock [db_rules]: "(\<And>t. Q t) \<Longrightarrow> keeps I Q db_clock"
  by (rule keepsI) (auto simp: db_clock_def)

lemma keeps_random [db_rules]: "(\<And>b. Q b) \<Longrightarrow> keeps I Q (db_random k)"
  by (rule keepsI) (auto simp: db_random_def split: sum.splits)

lemma keeps_stmt:
  assumes "\<And>now d x d'. I d \<Longrightarrow> f now d = Inr (x, d') \<Longrightarrow> I d' \<and> Q x"
  shows "keeps I Q (db_stmt f)"
proof (rule keepsI)
  fix e n d r n' d'
  assume *: "env_ok e" "I d" "db_stmt f e n d = Some (r, n', d')"
  show "I d' \<and> (\<forall>x. r = Inr x \<longrightarrow> Q x)"
    using *(2,3) assms [OF *(2), of "pg_time (pe_now e n)"]
    by (auto simp: db_stmt_def split: option.splits sum.splits)
qed

lemma keeps_refused [db_rules]: "keeps I Q (db_stmt (\<lambda>now d. Inl err))"
  by (rule keeps_stmt) simp

lemma keeps_select [db_rules]:
  "(\<And>rows. Q rows) \<Longrightarrow> keeps I Q (db_stmt (\<lambda>now d. case f d of Inl err \<Rightarrow> Inl err | Inr rows \<Rightarrow> Inr (rows, d)))"
  by (rule keeps_stmt) (auto split: sum.splits)

lemma keeps_query [db_rules]: "(\<And>d. I d \<Longrightarrow> Q (f d)) \<Longrightarrow> keeps I Q (db_query f)"
  unfolding db_query_def by (rule keeps_stmt) auto

lemma set_scan: "set (scan rid ks t) \<subseteq> set t"
  by (auto simp: scan_def)

lemma keeps_scan [db_rules]:
  "(\<And>d rows. I d \<Longrightarrow> set rows \<subseteq> set (f d) \<Longrightarrow> Q rows) \<Longrightarrow> keeps I Q (db_scan rid f)"
  by (rule keepsI)
    (auto simp: db_scan_def db_query_def db_stmt_def split: option.splits dest!: spec intro: set_scan [THEN subsetD])

lemma keeps_inTx [db_rules]:
  assumes "keeps I Q m"
  shows "keeps I Q (inTx m)"
proof (rule keepsI)
  fix e n d r n' d'
  assume *: "env_ok e" "I d" "inTx m e n d = Some (r, n', d')"
  have e: "env_ok (e\<lparr>pe_now := \<lambda>_. pe_now e n\<rparr>)" using *(1) by (simp add: env_ok_def)
  show "I d' \<and> (\<forall>x. r = Inr x \<longrightarrow> Q x)"
    using *(2,3) keepsD [OF assms e *(2)]
    by (auto simp: inTx_def split: option.splits sum.splits)
qed

lemma keeps_if [db_rules]: "(b \<Longrightarrow> keeps I Q m) \<Longrightarrow> (\<not> b \<Longrightarrow> keeps I Q m') \<Longrightarrow> keeps I Q (if b then m else m')"
  by simp

lemma keeps_case_option [db_rules]:
  "(x = None \<Longrightarrow> keeps I Q m) \<Longrightarrow> (\<And>y. x = Some y \<Longrightarrow> keeps I Q (f y)) \<Longrightarrow> keeps I Q (case x of None \<Rightarrow> m | Some y \<Rightarrow> f y)"
  by (cases x) auto

lemma keeps_case_sum [db_rules]:
  "(\<And>y. x = Inl y \<Longrightarrow> keeps I Q (g y)) \<Longrightarrow> (\<And>y. x = Inr y \<Longrightarrow> keeps I Q (f y)) \<Longrightarrow>
   keeps I Q (case x of Inl y \<Rightarrow> g y | Inr y \<Rightarrow> f y)"
  by (cases x) auto

lemma keeps_case_list [db_rules]:
  "(x = [] \<Longrightarrow> keeps I Q m) \<Longrightarrow> (\<And>y ys. x = y # ys \<Longrightarrow> keeps I Q (f y ys)) \<Longrightarrow>
   keeps I Q (case x of [] \<Rightarrow> m | y # ys \<Rightarrow> f y ys)"
  by (cases x) auto

lemma keeps_case_prod [db_rules]: "(\<And>a b. x = (a, b) \<Longrightarrow> keeps I Q (f a b)) \<Longrightarrow> keeps I Q (case x of (a, b) \<Rightarrow> f a b)"
  by (cases x) auto

lemma keeps_Let [db_rules]: "(\<And>y. y = x \<Longrightarrow> keeps I Q (f y)) \<Longrightarrow> keeps I Q (let y = x in f y)"
  by simp

lemma keeps_returning [db_rules]:
  "keeps I (\<lambda>rows. \<forall>r \<in> set rows. Q r) m \<Longrightarrow> keeps I Q (returning m)"
  unfolding returning_def
  by (intro db_rules, erule keeps_weaken) (auto intro: db_rules split: list.splits)

lemma keeps_cursor [db_rules]:
  "(\<And>c. Q c) \<Longrightarrow> keeps I Q (db_cursor cursor)"
  unfolding db_cursor_def by (intro db_rules) auto

lemma keeps_wire_opt [db_rules]:
  "(\<And>c. opt_all canonical c \<Longrightarrow> Q c) \<Longrightarrow> keeps I Q (db_wire_opt w)"
  unfolding db_wire_opt_def by (intro db_rules) auto

lemma keeps_rows [db_rules]: "(\<And>rows. Q rows) \<Longrightarrow> keeps I Q (db_rows checked f)"
  by (rule keepsI) (auto simp: db_rows_def split: option.splits if_splits)

lemma keeps_limited [db_rules]: "(\<And>rows. Q rows) \<Longrightarrow> keeps I Q (db_limited checked key limit f)"
  by (rule keepsI) (auto simp: db_limited_def db_rows_def split: option.splits if_splits)

lemma keeps_scan_rows [db_rules]: "(\<And>rows. Q rows) \<Longrightarrow> keeps I Q (db_scan_rows checked rid key f)"
  by (rule keepsI) (auto simp: db_scan_rows_def db_rows_def split: option.splits if_splits)

lemma keeps_select_page [db_rules]: "(\<And>rows. Q rows) \<Longrightarrow> keeps I Q (db_select_page rid at P cur limit tab)"
  unfolding db_select_page_def by (rule keeps_limited)

subsection \<open>Runs\<close>

named_theorems db_runs

lemma db_ok_run [db_runs]: "db_ok x e n d = Some (r, n', d') \<longleftrightarrow> r = Inr x \<and> n' = n \<and> d' = d"
  by (auto simp: db_ok_def)

lemma db_fail_run [db_runs]: "db_fail err e n d = Some (r, n', d') \<longleftrightarrow> r = Inl err \<and> n' = n \<and> d' = d"
  by (auto simp: db_fail_def)

lemma db_bind_run [db_runs]:
  "db_bind m f e n d = Some (Inr y, n'', d'') \<longleftrightarrow>
   (\<exists>x n' d'. m e n d = Some (Inr x, n', d') \<and> f x e n' d' = Some (Inr y, n'', d''))"
  by (auto simp: db_bind_def split: option.splits sum.splits)

lemma db_map_error_run [db_runs]: "db_map_error h m e n d = Some (Inr x, n', d') \<longleftrightarrow> m e n d = Some (Inr x, n', d')"
  by (auto simp: db_map_error_def split: option.splits sum.splits)

lemma db_sum_run [db_runs]: "db_sum v e n d = Some (Inr x, n', d') \<longleftrightarrow> v = Inr x \<and> n' = n \<and> d' = d"
  by (cases v) (auto simp: db_sum_def db_ok_def db_fail_def)

lemma db_wire_run [db_runs]:
  "db_wire wid e n d = Some (Inr u, n', d') \<longleftrightarrow> wireToUUID (pe_uuid e) wid = Inr u \<and> n' = n \<and> d' = d"
  by (auto simp: db_wire_def db_sum_run map_sum_def split: sum.splits)

lemma db_asks_run [db_runs]: "db_asks f e n d = Some (r, n', d') \<longleftrightarrow> r = Inr (f e) \<and> n' = n \<and> d' = d"
  by (auto simp: db_asks_def)

lemma db_wire_value_run [db_runs]:
  "db_wire_value wid e n d = Some (r, n', d') \<longleftrightarrow>
   r = Inr (wire_value (pe_uuid e) (pe_badUUID e) wid) \<and> n' = n \<and> d' = d"
  by (auto simp: db_wire_value_def db_asks_def)

lemma db_newV7_run [db_runs]:
  "db_newV7 e n d = Some (r, n', d') \<longleftrightarrow> (\<exists>u. r = Inr u \<and> uuid_NewV7 (pe_uuid e) n = Inr u \<and> n' = Suc n \<and> d' = d)"
  by (auto simp: db_newV7_def split: sum.splits)

lemma db_clock_run [db_runs]: "db_clock e n d = Some (r, n', d') \<longleftrightarrow> r = Inr (pe_clock e n) \<and> n' = Suc n \<and> d' = d"
  by (auto simp: db_clock_def)

lemma db_random_run [db_runs]:
  "db_random k e n d = Some (Inr b, n', d') \<longleftrightarrow> pe_rand e n k = Inr b \<and> n' = Suc n \<and> d' = d"
  by (auto simp: db_random_def split: sum.splits)

lemma db_stmt_run [db_runs]:
  "db_stmt f e n d = Some (Inr x, n', d') \<longleftrightarrow>
   pe_fault e n = None \<and> f (pg_time (pe_now e n)) d = Inr (x, d') \<and> n' = Suc n"
  by (auto simp: db_stmt_def split: option.splits sum.splits)

lemma db_query_run [db_runs]:
  "db_query f e n d = Some (Inr x, n', d') \<longleftrightarrow> pe_fault e n = None \<and> x = f d \<and> n' = Suc n \<and> d' = d"
  by (auto simp: db_query_def db_stmt_run)

lemma db_scan_run [db_runs]:
  "db_scan rid f e n d = Some (Inr x, n', d') \<longleftrightarrow>
   pe_fault e n = None \<and> x = scan rid (pe_scan e n) (f d) \<and> n' = Suc n \<and> d' = d"
  by (auto simp: db_scan_def db_query_run)

lemma inTx_run [db_runs]:
  "inTx m e n d = Some (Inr x, n'', d') \<longleftrightarrow> pe_fault e n = None \<and>
   (\<exists>n'. m (e\<lparr>pe_now := \<lambda>_. pe_now e n\<rparr>) (Suc n) d = Some (Inr x, n', d') \<and> pe_fault e n' = None \<and> n'' = Suc n')"
  by (auto simp: inTx_def split: option.splits sum.splits)

lemma inTx_error: "inTx m e n d = Some (Inl err, n', d') \<Longrightarrow> d' = d"
  by (auto simp: inTx_def split: option.splits sum.splits)

lemma returning_run [db_runs]:
  "returning m e n d = Some (Inr r, n', d') \<longleftrightarrow> (\<exists>rows. m e n d = Some (Inr (r # rows), n', d'))"
proof
  assume "returning m e n d = Some (Inr r, n', d')"
  then show "\<exists>rows. m e n d = Some (Inr (r # rows), n', d')"
    by (auto simp: returning_def db_bind_run) (auto simp: db_ok_run db_fail_run split: list.splits)
qed (auto simp: returning_def db_bind_run db_ok_run)

end
