(* ===== verification/PgTables.thy ===== *)
theory PgTables
  imports PgSchema PgLogic
begin

text \<open>
  The invariant of the database: the constraints of the schema, and canonical text in every identifier column.  The
  locale \<open>pg_table\<close> is what a table owes to the statements on it; it is interpreted on each table of the schema, and
  its lemmas give the \<open>db_rules\<close> of \<open>INSERT\<close> and \<open>UPDATE\<close>.
\<close>

definition usr_typed :: "usr_row \<Rightarrow> bool" where
  "usr_typed r \<longleftrightarrow> canonical (ur_id r)"

definition org_typed :: "org_row \<Rightarrow> bool" where
  "org_typed r \<longleftrightarrow> canonical (og_id r)"

definition mem_typed :: "mem_row \<Rightarrow> bool" where
  "mem_typed r \<longleftrightarrow> canonical (mr_id r) \<and> canonical (mr_usr_id r) \<and> canonical (mr_org_id r) \<and>
     opt_all canonical (mr_replaces r) \<and> opt_all canonical (mr_invited_by r) \<and> opt_all canonical (mr_removed_by r)"

definition inv_typed :: "inv_row \<Rightarrow> bool" where
  "inv_typed r \<longleftrightarrow> canonical (ir_id r) \<and> canonical (ir_org_id r) \<and> canonical (ir_invited_by r) \<and>
     opt_all canonical (ir_invited_user_id r) \<and> opt_all canonical (ir_terminal_by r)"

definition tup_typed :: "tup_row \<Rightarrow> bool" where
  "tup_typed r \<longleftrightarrow> canonical (tr_id r) \<and> canonical (tr_subject_id r) \<and> canonical (tr_object_id r) \<and>
     opt_all canonical (tr_created_by r)"

definition shr_typed :: "shr_row \<Rightarrow> bool" where
  "shr_typed r \<longleftrightarrow> canonical (sr_id r) \<and> canonical (sr_object_id r) \<and> canonical (sr_created_by r)"

definition cred_typed :: "cred_row \<Rightarrow> bool" where
  "cred_typed r \<longleftrightarrow> canonical (cr_id r) \<and> canonical (cr_usr_id r) \<and> opt_all canonical (cr_replaces r)"

definition ses_typed :: "ses_row \<Rightarrow> bool" where
  "ses_typed r \<longleftrightarrow> canonical (sn_id r) \<and> canonical (sn_usr_id r) \<and> canonical (sn_cred_id r)"

definition mfa_typed :: "mfa_row \<Rightarrow> bool" where
  "mfa_typed r \<longleftrightarrow> canonical (mf_id r) \<and> canonical (mf_usr_id r)"

definition policy_typed :: "policy_row \<Rightarrow> bool" where
  "policy_typed r \<longleftrightarrow> canonical (po_usr_id r)"

definition pat_typed :: "pat_row \<Rightarrow> bool" where
  "pat_typed r \<longleftrightarrow> canonical (pa_id r) \<and> canonical (pa_usr_id r)"

definition db_typed :: "pg_db \<Rightarrow> bool" where
  "db_typed d \<longleftrightarrow>
     list_all usr_typed (db_usr d) \<and>
     list_all org_typed (db_org d) \<and>
     list_all mem_typed (db_mem d) \<and>
     list_all inv_typed (db_inv d) \<and>
     list_all tup_typed (db_tup d) \<and>
     list_all shr_typed (db_shr d) \<and>
     list_all cred_typed (db_cred d) \<and>
     list_all ses_typed (db_ses d) \<and>
     list_all mfa_typed (db_mfa d) \<and>
     list_all policy_typed (db_policy d) \<and>
     list_all pat_typed (db_pat d)"

definition db_good :: "pg_db \<Rightarrow> bool" where
  "db_good d \<longleftrightarrow> db_valid d \<and> db_typed d"

lemma db_valid_empty: "db_valid empty_db"
  by (simp add: db_valid_def empty_db_def usr_uniq_def org_uniq_def mem_uniq_def inv_uniq_def tup_uniq_def shr_uniq_def
      cred_uniq_def ses_uniq_def mfa_uniq_def policy_uniq_def pat_uniq_def some_values_def)

lemma db_good_empty: "db_good empty_db"
  by (simp add: db_good_def db_valid_empty) (simp add: db_typed_def empty_db_def)

text \<open>A table with its constraints.\<close>

definition table_ok :: "('r list \<Rightarrow> bool) \<Rightarrow> ('r \<Rightarrow> bool) \<Rightarrow> ('r \<Rightarrow> bool) \<Rightarrow> ('r \<Rightarrow> bool) \<Rightarrow> 'r list \<Rightarrow> bool" where
  "table_ok uniq chk fk typed t \<longleftrightarrow> uniq t \<and> list_all chk t \<and> list_all fk t \<and> list_all typed t"

lemma table_ok_mono: "table_ok uniq chk fk typed t \<Longrightarrow> (\<And>r. fk r \<Longrightarrow> fk' r) \<Longrightarrow> table_ok uniq chk fk' typed t"
  by (auto simp: table_ok_def list_all_iff)

lemma sql_insert_Inr:
  "sql_insert uniq chk fk r t = Inr t' \<longleftrightarrow> t' = t @ [r] \<and> chk r \<and> fk r \<and> uniq (t @ [r])"
  by (auto simp: sql_insert_def)

lemma sql_update_Inr:
  "sql_update uniq chk fk P f t = Inr t' \<longleftrightarrow> t' = map (\<lambda>r. if P r then f r else r) t \<and>
     list_all chk (map f (filter P t)) \<and> list_all fk (map f (filter P t)) \<and> uniq t'"
  by (auto simp: sql_update_def Let_def)

lemma table_ok_insert:
  "sql_insert uniq chk fk r t = Inr t' \<Longrightarrow> table_ok uniq chk fk typed t \<Longrightarrow> typed r \<Longrightarrow> table_ok uniq chk fk typed t'"
  by (auto simp: sql_insert_Inr table_ok_def)

lemma table_ok_update:
  "sql_update uniq chk fk P f t = Inr t' \<Longrightarrow> table_ok uniq chk fk typed t \<Longrightarrow> (\<And>r. typed r \<Longrightarrow> typed (f r)) \<Longrightarrow>
   table_ok uniq chk fk typed t'"
  by (auto simp: sql_update_Inr table_ok_def list_all_iff)

lemma db_good_tables:
  "db_good d \<longleftrightarrow>
     table_ok usr_uniq usr_chk (\<lambda>_. True) usr_typed (db_usr d) \<and>
     table_ok org_uniq org_chk (\<lambda>_. True) org_typed (db_org d) \<and>
     table_ok mem_uniq mem_chk (mem_fk d) mem_typed (db_mem d) \<and>
     table_ok inv_uniq inv_chk (inv_fk d) inv_typed (db_inv d) \<and>
     table_ok tup_uniq tup_chk (tup_fk d) tup_typed (db_tup d) \<and>
     table_ok shr_uniq shr_chk (shr_fk d) shr_typed (db_shr d) \<and>
     table_ok cred_uniq cred_chk (cred_fk d) cred_typed (db_cred d) \<and>
     table_ok ses_uniq ses_chk (ses_fk d) ses_typed (db_ses d) \<and>
     table_ok mfa_uniq mfa_chk (mfa_fk d) mfa_typed (db_mfa d) \<and>
     table_ok policy_uniq (\<lambda>_. True) (policy_fk d) policy_typed (db_policy d) \<and>
     table_ok pat_uniq pat_chk (pat_fk d) pat_typed (db_pat d)"
  by (auto simp: db_good_def db_valid_def db_typed_def table_ok_def list_all_iff)

subsection \<open>References\<close>

text \<open>Foreign keys look at the identifiers of four tables; no statement of the stores takes one away.\<close>

definition refs_le :: "pg_db \<Rightarrow> pg_db \<Rightarrow> bool" where
  "refs_le d d' \<longleftrightarrow> ur_id ` set (db_usr d) \<subseteq> ur_id ` set (db_usr d') \<and> og_id ` set (db_org d) \<subseteq> og_id ` set (db_org d') \<and>
     mr_id ` set (db_mem d) \<subseteq> mr_id ` set (db_mem d') \<and> cr_id ` set (db_cred d) \<subseteq> cr_id ` set (db_cred d')"

lemma list_ex_id: "list_ex (\<lambda>r. rid r = u) t \<longleftrightarrow> u \<in> rid ` set t"
  by (auto simp: list_ex_iff)

lemma opt_all_mono: "opt_all P x \<Longrightarrow> (\<And>y. P y \<Longrightarrow> P' y) \<Longrightarrow> opt_all P' x"
  by (auto simp: opt_all_def split: option.splits)

lemma usr_exists_mono: "refs_le d d' \<Longrightarrow> usr_exists d u \<Longrightarrow> usr_exists d' u"
  by (auto simp: refs_le_def usr_exists_def list_ex_id)

lemma org_exists_mono: "refs_le d d' \<Longrightarrow> org_exists d u \<Longrightarrow> org_exists d' u"
  by (auto simp: refs_le_def org_exists_def list_ex_id)

lemma fk_mono:
  assumes "refs_le d d'"
  shows "mem_fk d r1 \<Longrightarrow> mem_fk d' r1" "inv_fk d r2 \<Longrightarrow> inv_fk d' r2" "tup_fk d r3 \<Longrightarrow> tup_fk d' r3"
    "shr_fk d r4 \<Longrightarrow> shr_fk d' r4" "cred_fk d r5 \<Longrightarrow> cred_fk d' r5" "ses_fk d r6 \<Longrightarrow> ses_fk d' r6"
    "mfa_fk d r7 \<Longrightarrow> mfa_fk d' r7" "policy_fk d r8 \<Longrightarrow> policy_fk d' r8" "pat_fk d r9 \<Longrightarrow> pat_fk d' r9"
  using usr_exists_mono [OF assms] org_exists_mono [OF assms] assms
  by (auto simp: mem_fk_def inv_fk_def tup_fk_def shr_fk_def cred_fk_def ses_fk_def mfa_fk_def policy_fk_def pat_fk_def
      list_ex_id refs_le_def elim!: opt_all_mono)

subsection \<open>The contract of a table\<close>

locale pg_table =
  fixes tab :: "pg_db \<Rightarrow> 'r list" and set_tab :: "'r list \<Rightarrow> pg_db \<Rightarrow> pg_db" and rid :: "'r \<Rightarrow> uuid"
    and uniq :: "'r list \<Rightarrow> bool" and chk :: "'r \<Rightarrow> bool" and fk :: "pg_db \<Rightarrow> 'r \<Rightarrow> bool" and typed :: "'r \<Rightarrow> bool"
  assumes table_inv: "db_good d \<Longrightarrow> table_ok uniq chk (fk d) typed (tab d)"
    and replace_inv: "db_good d \<Longrightarrow> table_ok uniq chk (fk d) typed t \<Longrightarrow> rid ` set (tab d) \<subseteq> rid ` set t \<Longrightarrow>
      db_good (set_tab t d)"
begin

lemma insert_inv:
  assumes "map_sum id (\<lambda>t. (r, set_tab t d)) (sql_insert uniq chk (fk d) r (tab d)) = Inr (x, d')"
    and "db_good d" and "typed r"
  shows "db_good d' \<and> x = r"
proof -
  obtain t where t: "sql_insert uniq chk (fk d) r (tab d) = Inr t" "x = r" "d' = set_tab t d"
    using assms(1) by (auto simp: map_sum_def split: sum.splits)
  have "table_ok uniq chk (fk d) typed t" using table_ok_insert [OF t(1) table_inv [OF assms(2)] assms(3)] .
  moreover have "rid ` set (tab d) \<subseteq> rid ` set t" using t(1) by (auto simp: sql_insert_Inr)
  ultimately show ?thesis using replace_inv [OF assms(2)] t(2,3) by simp
qed

lemma update_inv:
  assumes "map_sum id (\<lambda>t. (map f (filter P (tab d)), set_tab t d)) (sql_update uniq chk (fk d) P f (tab d)) = Inr (x, d')"
    and "db_good d" and "\<And>r. typed r \<Longrightarrow> typed (f r)" and "\<And>r. rid (f r) = rid r"
  shows "db_good d' \<and> (\<forall>r \<in> set x. typed r)"
proof -
  obtain t where t: "sql_update uniq chk (fk d) P f (tab d) = Inr t" "x = map f (filter P (tab d))" "d' = set_tab t d"
    using assms(1) by (auto simp: map_sum_def split: sum.splits)
  note tab = table_inv [OF assms(2)]
  have "table_ok uniq chk (fk d) typed t" using table_ok_update [OF t(1) tab] assms(3) .
  moreover have "map rid t = map rid (tab d)" using t(1) assms(4) by (auto simp: sql_update_Inr)
  then have "rid ` set (tab d) \<subseteq> rid ` set t" unfolding set_map [symmetric] by simp
  ultimately have "db_good d'" using replace_inv [OF assms(2)] t(3) by simp
  moreover have "\<forall>r \<in> set x. typed r" using tab assms(3) t(2) by (auto simp: table_ok_def list_all_iff)
  ultimately show ?thesis ..
qed

end

interpretation usr_table: pg_table db_usr "\<lambda>t d. d\<lparr>db_usr := t\<rparr>" ur_id usr_uniq "usr_chk" "(\<lambda>_ _. True)" usr_typed
  by unfold_locales (auto simp: db_good_tables refs_le_def elim!: table_ok_mono intro: fk_mono [rotated])

interpretation org_table: pg_table db_org "\<lambda>t d. d\<lparr>db_org := t\<rparr>" og_id org_uniq "org_chk" "(\<lambda>_ _. True)" org_typed
  by unfold_locales (auto simp: db_good_tables refs_le_def elim!: table_ok_mono intro: fk_mono [rotated])

interpretation mem_table: pg_table db_mem "\<lambda>t d. d\<lparr>db_mem := t\<rparr>" mr_id mem_uniq "mem_chk" "mem_fk" mem_typed
  by unfold_locales (auto simp: db_good_tables refs_le_def elim!: table_ok_mono intro: fk_mono [rotated])

interpretation inv_table: pg_table db_inv "\<lambda>t d. d\<lparr>db_inv := t\<rparr>" ir_id inv_uniq "inv_chk" "inv_fk" inv_typed
  by unfold_locales (auto simp: db_good_tables refs_le_def elim!: table_ok_mono intro: fk_mono [rotated])

interpretation tup_table: pg_table db_tup "\<lambda>t d. d\<lparr>db_tup := t\<rparr>" tr_id tup_uniq "tup_chk" "tup_fk" tup_typed
  by unfold_locales (auto simp: db_good_tables refs_le_def elim!: table_ok_mono intro: fk_mono [rotated])

interpretation shr_table: pg_table db_shr "\<lambda>t d. d\<lparr>db_shr := t\<rparr>" sr_id shr_uniq "shr_chk" "shr_fk" shr_typed
  by unfold_locales (auto simp: db_good_tables refs_le_def elim!: table_ok_mono intro: fk_mono [rotated])

interpretation cred_table: pg_table db_cred "\<lambda>t d. d\<lparr>db_cred := t\<rparr>" cr_id cred_uniq "cred_chk" "cred_fk" cred_typed
  by unfold_locales (auto simp: db_good_tables refs_le_def elim!: table_ok_mono intro: fk_mono [rotated])

interpretation ses_table: pg_table db_ses "\<lambda>t d. d\<lparr>db_ses := t\<rparr>" sn_id ses_uniq "ses_chk" "ses_fk" ses_typed
  by unfold_locales (auto simp: db_good_tables refs_le_def elim!: table_ok_mono intro: fk_mono [rotated])

interpretation mfa_table: pg_table db_mfa "\<lambda>t d. d\<lparr>db_mfa := t\<rparr>" mf_id mfa_uniq "mfa_chk" "mfa_fk" mfa_typed
  by unfold_locales (auto simp: db_good_tables refs_le_def elim!: table_ok_mono intro: fk_mono [rotated])

interpretation policy_table: pg_table db_policy "\<lambda>t d. d\<lparr>db_policy := t\<rparr>" po_usr_id policy_uniq "(\<lambda>_. True)" "policy_fk" policy_typed
  by unfold_locales (auto simp: db_good_tables refs_le_def elim!: table_ok_mono intro: fk_mono [rotated])

interpretation pat_table: pg_table db_pat "\<lambda>t d. d\<lparr>db_pat := t\<rparr>" pa_id pat_uniq "pat_chk" "pat_fk" pat_typed
  by unfold_locales (auto simp: db_good_tables refs_le_def elim!: table_ok_mono intro: fk_mono [rotated])

subsection \<open>Statements\<close>

lemma keeps_first_row [db_rules]:
  "(\<And>d r. I d \<Longrightarrow> r \<in> set (tab d) \<Longrightarrow> P r \<Longrightarrow> Q r) \<Longrightarrow> keeps I Q (first_row P tab)"
  unfolding first_row_def by (intro db_rules) (auto simp: find_Some_iff in_set_conv_nth)

lemma keeps_insert_usr [db_rules]:
  assumes "\<And>now. usr_typed (row now)" and "\<And>now. usr_typed (row now) \<Longrightarrow> Q (row now)"
  shows "keeps db_good Q (db_stmt (\<lambda>now. insert_usr (row now)))"
  by (rule keeps_stmt) (use assms in \<open>auto simp: insert_usr_def dest: usr_table.insert_inv\<close>)

lemma keeps_insert_org [db_rules]:
  assumes "\<And>now. org_typed (row now)" and "\<And>now. org_typed (row now) \<Longrightarrow> Q (row now)"
  shows "keeps db_good Q (db_stmt (\<lambda>now. insert_org (row now)))"
  by (rule keeps_stmt) (use assms in \<open>auto simp: insert_org_def dest: org_table.insert_inv\<close>)

lemma keeps_insert_mem [db_rules]:
  assumes "\<And>now. mem_typed (row now)" and "\<And>now. mem_typed (row now) \<Longrightarrow> Q (row now)"
  shows "keeps db_good Q (db_stmt (\<lambda>now. insert_mem (row now)))"
  by (rule keeps_stmt) (use assms in \<open>auto simp: insert_mem_def dest: mem_table.insert_inv\<close>)

lemma keeps_insert_inv [db_rules]:
  assumes "\<And>now. inv_typed (row now)" and "\<And>now. inv_typed (row now) \<Longrightarrow> Q (row now)"
  shows "keeps db_good Q (db_stmt (\<lambda>now. insert_inv (row now)))"
  by (rule keeps_stmt) (use assms in \<open>auto simp: insert_inv_def dest: inv_table.insert_inv\<close>)

lemma keeps_insert_tup [db_rules]:
  assumes "\<And>now. tup_typed (row now)" and "\<And>now. tup_typed (row now) \<Longrightarrow> Q (row now)"
  shows "keeps db_good Q (db_stmt (\<lambda>now. insert_tup (row now)))"
  by (rule keeps_stmt) (use assms in \<open>auto simp: insert_tup_def dest: tup_table.insert_inv\<close>)

lemma keeps_insert_shr [db_rules]:
  assumes "\<And>now. shr_typed (row now)" and "\<And>now. shr_typed (row now) \<Longrightarrow> Q (row now)"
  shows "keeps db_good Q (db_stmt (\<lambda>now. insert_shr (row now)))"
  by (rule keeps_stmt) (use assms in \<open>auto simp: insert_shr_def dest: shr_table.insert_inv\<close>)

lemma keeps_insert_cred [db_rules]:
  assumes "\<And>now. cred_typed (row now)" and "\<And>now. cred_typed (row now) \<Longrightarrow> Q (row now)"
  shows "keeps db_good Q (db_stmt (\<lambda>now. insert_cred (row now)))"
  by (rule keeps_stmt) (use assms in \<open>auto simp: insert_cred_def dest: cred_table.insert_inv\<close>)

lemma keeps_insert_ses [db_rules]:
  assumes "\<And>now. ses_typed (row now)" and "\<And>now. ses_typed (row now) \<Longrightarrow> Q (row now)"
  shows "keeps db_good Q (db_stmt (\<lambda>now. insert_ses (row now)))"
  by (rule keeps_stmt) (use assms in \<open>auto simp: insert_ses_def dest: ses_table.insert_inv\<close>)

lemma keeps_insert_mfa [db_rules]:
  assumes "\<And>now. mfa_typed (row now)" and "\<And>now. mfa_typed (row now) \<Longrightarrow> Q (row now)"
  shows "keeps db_good Q (db_stmt (\<lambda>now. insert_mfa (row now)))"
  by (rule keeps_stmt) (use assms in \<open>auto simp: insert_mfa_def dest: mfa_table.insert_inv\<close>)

lemma keeps_insert_pat [db_rules]:
  assumes "\<And>now. pat_typed (row now)" and "\<And>now. pat_typed (row now) \<Longrightarrow> Q (row now)"
  shows "keeps db_good Q (db_stmt (\<lambda>now. insert_pat (row now)))"
  by (rule keeps_stmt) (use assms in \<open>auto simp: insert_pat_def dest: pat_table.insert_inv\<close>)

lemma keeps_update_usr [db_rules]:
  assumes "\<And>now r. usr_typed r \<Longrightarrow> usr_typed (f now r)" and "\<And>now r. ur_id (f now r) = ur_id r"
    and "\<And>rows. \<forall>r \<in> set rows. usr_typed r \<Longrightarrow> Q rows"
  shows "keeps db_good Q (db_stmt (\<lambda>now. update_usr (P now) (f now)))"
  by (rule keeps_stmt) (use assms in \<open>auto simp: update_usr_def dest!: usr_table.update_inv\<close>)

lemma keeps_update_org [db_rules]:
  assumes "\<And>now r. org_typed r \<Longrightarrow> org_typed (f now r)" and "\<And>now r. og_id (f now r) = og_id r"
    and "\<And>rows. \<forall>r \<in> set rows. org_typed r \<Longrightarrow> Q rows"
  shows "keeps db_good Q (db_stmt (\<lambda>now. update_org (P now) (f now)))"
  by (rule keeps_stmt) (use assms in \<open>auto simp: update_org_def dest!: org_table.update_inv\<close>)

lemma keeps_update_mem [db_rules]:
  assumes "\<And>now r. mem_typed r \<Longrightarrow> mem_typed (f now r)" and "\<And>now r. mr_id (f now r) = mr_id r"
    and "\<And>rows. \<forall>r \<in> set rows. mem_typed r \<Longrightarrow> Q rows"
  shows "keeps db_good Q (db_stmt (\<lambda>now. update_mem (P now) (f now)))"
  by (rule keeps_stmt) (use assms in \<open>auto simp: update_mem_def dest!: mem_table.update_inv\<close>)

lemma keeps_update_inv [db_rules]:
  assumes "\<And>now r. inv_typed r \<Longrightarrow> inv_typed (f now r)" and "\<And>now r. ir_id (f now r) = ir_id r"
    and "\<And>rows. \<forall>r \<in> set rows. inv_typed r \<Longrightarrow> Q rows"
  shows "keeps db_good Q (db_stmt (\<lambda>now. update_inv (P now) (f now)))"
  by (rule keeps_stmt) (use assms in \<open>auto simp: update_inv_def dest!: inv_table.update_inv\<close>)

lemma keeps_update_shr [db_rules]:
  assumes "\<And>now r. shr_typed r \<Longrightarrow> shr_typed (f now r)" and "\<And>now r. sr_id (f now r) = sr_id r"
    and "\<And>rows. \<forall>r \<in> set rows. shr_typed r \<Longrightarrow> Q rows"
  shows "keeps db_good Q (db_stmt (\<lambda>now. update_shr (P now) (f now)))"
  by (rule keeps_stmt) (use assms in \<open>auto simp: update_shr_def dest!: shr_table.update_inv\<close>)

lemma keeps_update_cred [db_rules]:
  assumes "\<And>now r. cred_typed r \<Longrightarrow> cred_typed (f now r)" and "\<And>now r. cr_id (f now r) = cr_id r"
    and "\<And>rows. \<forall>r \<in> set rows. cred_typed r \<Longrightarrow> Q rows"
  shows "keeps db_good Q (db_stmt (\<lambda>now. update_cred (P now) (f now)))"
  by (rule keeps_stmt) (use assms in \<open>auto simp: update_cred_def dest!: cred_table.update_inv\<close>)

lemma keeps_update_ses [db_rules]:
  assumes "\<And>now r. ses_typed r \<Longrightarrow> ses_typed (f now r)" and "\<And>now r. sn_id (f now r) = sn_id r"
    and "\<And>rows. \<forall>r \<in> set rows. ses_typed r \<Longrightarrow> Q rows"
  shows "keeps db_good Q (db_stmt (\<lambda>now. update_ses (P now) (f now)))"
  by (rule keeps_stmt) (use assms in \<open>auto simp: update_ses_def dest!: ses_table.update_inv\<close>)

lemma keeps_update_mfa [db_rules]:
  assumes "\<And>now r. mfa_typed r \<Longrightarrow> mfa_typed (f now r)" and "\<And>now r. mf_id (f now r) = mf_id r"
    and "\<And>rows. \<forall>r \<in> set rows. mfa_typed r \<Longrightarrow> Q rows"
  shows "keeps db_good Q (db_stmt (\<lambda>now. update_mfa (P now) (f now)))"
  by (rule keeps_stmt) (use assms in \<open>auto simp: update_mfa_def dest!: mfa_table.update_inv\<close>)

lemma keeps_update_pat [db_rules]:
  assumes "\<And>now r. pat_typed r \<Longrightarrow> pat_typed (f now r)" and "\<And>now r. pa_id (f now r) = pa_id r"
    and "\<And>rows. \<forall>r \<in> set rows. pat_typed r \<Longrightarrow> Q rows"
  shows "keeps db_good Q (db_stmt (\<lambda>now. update_pat (P now) (f now)))"
  by (rule keeps_stmt) (use assms in \<open>auto simp: update_pat_def dest!: pat_table.update_inv\<close>)

lemma first_row_run [db_runs]:
  "first_row P tab e n d = Some (Inr r, n', d') \<longleftrightarrow> pe_fault e n = None \<and> find P (tab d) = Some r \<and> n' = Suc n \<and> d' = d"
  by (auto simp: first_row_def db_bind_run db_query_run db_ok_run db_fail_run split: option.splits)

end
