(* ===== verification/AuthzPg.thy ===== *)
theory AuthzPg
  imports PgSchema AuthzTuples AuthzShares
begin

text \<open>
  \<open>packages/authz/postgres.go\<close>: the tuple store and the share store on PostgreSQL.  Rules and limits are the
  fields of the record \<open>pg_tuple_store\<close>.  The callbacks that \<open>Check\<close> gives to \<open>Evaluate\<close> may fail; \<open>eval_rec_io\<close> is
  \<open>Evaluate\<close> with the first error its callbacks meet, which is what \<open>Check\<close> keeps in \<open>firstErr\<close>.
\<close>

type_synonym 'a authz_db = "(pg_db, authz_error, 'a) db"

record pg_tuple_store =
  pts_rules :: "Rules option"
  pts_maxDepth :: int
  pts_maxFanOut :: int

definition NewPostgresTupleStore :: pg_tuple_store where
  "NewPostgresTupleStore = \<lparr>pts_rules = None, pts_maxDepth = 0, pts_maxFanOut = 0\<rparr>"

definition NewPostgresTupleStoreWithRules :: "Rules option \<Rightarrow> EvaluateOptions \<Rightarrow> pg_tuple_store" where
  "NewPostgresTupleStoreWithRules rules opts =
     NewPostgresTupleStore\<lparr>pts_rules := rules, pts_maxDepth := MaxDepth opts, pts_maxFanOut := MaxFanOut opts\<rparr>"

subsection \<open>Tuples\<close>

definition duplicate_tuple :: "authz_error pg_fail \<Rightarrow> authz_error pg_fail" where
  "duplicate_tuple err = (if isUniqueViolation err then PgErr (ErrDuplicateTuple []) else err)"

definition pg_CreateTuple :: "CreateTupleInput \<Rightarrow> Tuple authz_db" where
  "pg_CreateTuple i =
     (if \<not> rx_match RelationNamePattern (cti_Relation i) then db_fail (PgErr (ErrInvalidFormat (cti_Relation i)))
      else if \<not> rx_match TypePrefixPattern (cti_SubjectType i) then db_fail (PgErr (ErrInvalidFormat (cti_SubjectType i)))
      else if \<not> rx_match TypePrefixPattern (cti_ObjectType i) then db_fail (PgErr (ErrInvalidFormat (cti_ObjectType i)))
      else
        db_bind (db_wire (cti_SubjectID i)) (\<lambda>subjU.
        db_bind (db_wire (cti_ObjectID i)) (\<lambda>objU.
        db_bind (db_wire_opt (cti_CreatedBy i)) (\<lambda>createdByU.
        db_bind db_newV7 (\<lambda>newID.
        db_bind (db_map_error duplicate_tuple (db_stmt (\<lambda>now. insert_tup
            \<lparr>tr_id = newID, tr_subject_type = cti_SubjectType i, tr_subject_id = subjU, tr_relation = cti_Relation i,
             tr_object_type = cti_ObjectType i, tr_object_id = objU, tr_created_at = now, tr_created_by = createdByU\<rparr>)))
          (\<lambda>row. db_ok \<lparr>tup_ID = uuidToWire ''tup'' (tr_id row), tup_SubjectType = cti_SubjectType i,
             tup_SubjectID = cti_SubjectID i, tup_Relation = cti_Relation i, tup_ObjectType = cti_ObjectType i,
             tup_ObjectID = cti_ObjectID i, tup_CreatedAt = tr_created_at row, tup_CreatedBy = cti_CreatedBy i\<rparr>))))))"

definition pg_DeleteTuple :: "string \<Rightarrow> unit authz_db" where
  "pg_DeleteTuple tupleID =
     db_bind (db_wire tupleID) (\<lambda>u.
     db_bind (db_stmt (\<lambda>now d. Inr (delete_tup (\<lambda>r. tr_id r = u) d))) (\<lambda>n.
     if n = 0 then db_fail (PgErr (ErrTupleNotFound tupleID)) else db_ok ()))"

definition pg_CascadeRevokeSubject :: "string \<Rightarrow> string \<Rightarrow> nat authz_db" where
  "pg_CascadeRevokeSubject subjectType subjectID =
     db_bind (db_wire subjectID) (\<lambda>subjU.
     db_stmt (\<lambda>now d. Inr (delete_tup (\<lambda>r. tr_subject_type r = subjectType \<and> tr_subject_id r = subjU) d)))"

text \<open>The two callbacks on a database, with the errors they give to \<open>firstErr\<close>.\<close>

definition pg_direct :: "pg_env \<Rightarrow> pg_db \<Rightarrow> DirectLookup" where
  "pg_direct e d st sid rel ot oid =
     (case (wireToUUID (pe_uuid e) sid, wireToUUID (pe_uuid e) oid) of
        (Inr subjU, Inr objU) \<Rightarrow> map_option (\<lambda>r. uuidToWire ''tup'' (tr_id r))
          (find (\<lambda>r. tup_parts r = (st, subjU, rel, ot, objU)) (db_tup d))
      | _ \<Rightarrow> None)"

definition directLookup :: "pg_env \<Rightarrow> pg_db \<Rightarrow> string \<Rightarrow> string \<Rightarrow> string \<Rightarrow> string \<Rightarrow> string \<Rightarrow>
    string option \<times> authz_error pg_fail option" where
  "directLookup e d st sid rel ot oid =
     (case (wireToUUID (pe_uuid e) sid, wireToUUID (pe_uuid e) oid) of
        (Inr subjU, Inr objU) \<Rightarrow>
          (case pe_lookup_fault e st sid rel ot oid of
             Some msg \<Rightarrow> (None, Some (PgDb (PgOther msg)))
           | None \<Rightarrow> (pg_direct e d st sid rel ot oid, None))
      | _ \<Rightarrow> (None, None))"

definition pg_subjects :: "pg_env \<Rightarrow> pg_db \<Rightarrow> string \<Rightarrow> uuid \<Rightarrow> string \<Rightarrow> uuid list \<Rightarrow> SubjectRef list" where
  "pg_subjects e d ot objU rel ks =
     map (\<lambda>r. \<lparr>ref_SubjectType = tr_subject_type r, ref_SubjectID = uuidToWire (tr_subject_type r) (tr_subject_id r),
               ref_TupleID = uuidToWire ''tup'' (tr_id r)\<rparr>)
       (scan tr_id ks (filter (\<lambda>r. tr_object_type r = ot \<and> tr_object_id r = objU \<and> tr_relation r = rel) (db_tup d)))"

text \<open>\<open>listByObject\<close> does not look at \<open>rows.Err()\<close>: a query that breaks off after some rows gives a shorter list and no
  error.\<close>

definition listByObject :: "pg_env \<Rightarrow> pg_db \<Rightarrow> string \<Rightarrow> string \<Rightarrow> string \<Rightarrow>
    SubjectRef list \<times> authz_error pg_fail option" where
  "listByObject e d ot oid rel =
     (case wireToUUID (pe_uuid e) oid of
        Inl w \<Rightarrow> ([], Some (PgWire w))
      | Inr objU \<Rightarrow>
          (case pe_list_fault e ot oid rel of
             Some msg \<Rightarrow> ([], Some (PgDb (PgOther msg)))
           | None \<Rightarrow>
               let subs = pg_subjects e d ot objU rel (pe_order e ot oid rel)
               in (case pe_list_cut e ot oid rel of None \<Rightarrow> subs | Some k \<Rightarrow> take k subs, None)))"

subsection \<open>Evaluation with callbacks that may fail\<close>

type_synonym 'w eval_io = "eval_result \<times> 'w option"

definition noting :: "'w option \<Rightarrow> 'w eval_io \<Rightarrow> 'w eval_io" where
  "noting w r = (fst r, if w = None then snd r else w)"

record 'w eval_env_io =
  eio_rules :: "Rules option"
  eio_subjectType :: string
  eio_subjectID :: string
  eio_directLookup :: "string \<Rightarrow> string \<Rightarrow> string \<Rightarrow> string \<Rightarrow> string \<Rightarrow> string option \<times> 'w option"
  eio_listByObject :: "string \<Rightarrow> string \<Rightarrow> string \<Rightarrow> SubjectRef list \<times> 'w option"
  eio_maxFanOut :: int

fun expand_subs_io :: "(SubjectRef \<Rightarrow> 'w eval_io) \<Rightarrow> SubjectRef list \<Rightarrow> 'w eval_io" where
  "expand_subs_io f [] = (Inr denied, None)"
| "expand_subs_io f (sub # related) =
     (case f sub of
        (Inl err, w) \<Rightarrow> (Inl err, w)
      | (Inr r, w) \<Rightarrow> if Allowed r then (Inr r, w) else noting w (expand_subs_io f related))"

fun expand_nodes_io ::
  "'w eval_env_io \<Rightarrow> (string \<Rightarrow> string \<Rightarrow> string \<Rightarrow> 'w eval_io) \<Rightarrow> string \<Rightarrow> string \<Rightarrow> Rule \<Rightarrow> 'w eval_io"
where
  "expand_nodes_io E call objectType objectID [] = (Inr denied, None)"
| "expand_nodes_io E call objectType objectID (This # nodes) =
     expand_nodes_io E call objectType objectID nodes"
| "expand_nodes_io E call objectType objectID (ComputedUserset rel # nodes) =
     (case call rel objectType objectID of
        (Inl err, w) \<Rightarrow> (Inl err, w)
      | (Inr r, w) \<Rightarrow> if Allowed r then (Inr r, w) else noting w (expand_nodes_io E call objectType objectID nodes))"
| "expand_nodes_io E call objectType objectID (TupleToUserset tuplesetRel computedRel # nodes) =
     (let (related, w0) = eio_listByObject E objectType objectID tuplesetRel
      in if int (length related) > eio_maxFanOut E then (Inl ErrEvaluationLimit, w0)
         else noting w0
           (case expand_subs_io (\<lambda>sub. call computedRel (ref_SubjectType sub) (ref_SubjectID sub)) related of
              (Inl err, w) \<Rightarrow> (Inl err, w)
            | (Inr r, w) \<Rightarrow>
                if Allowed r then (Inr r, w) else noting w (expand_nodes_io E call objectType objectID nodes)))"
| "expand_nodes_io E call objectType objectID (OtherNode # nodes) = (Inl ErrUnknownRuleNode, None)"

definition rule_of_io :: "'w eval_env_io \<Rightarrow> string \<Rightarrow> string \<Rightarrow> Rule option" where
  "rule_of_io E objectType relation =
     (case eio_rules E of None \<Rightarrow> None
      | Some rules \<Rightarrow> (case rules objectType of None \<Rightarrow> None | Some byObj \<Rightarrow> byObj relation))"

definition eval_frame_io ::
  "'w eval_env_io \<Rightarrow> (evalFrame list \<Rightarrow> string \<Rightarrow> string \<Rightarrow> string \<Rightarrow> 'w eval_io) option \<Rightarrow>
   evalFrame list \<Rightarrow> string \<Rightarrow> string \<Rightarrow> string \<Rightarrow> 'w eval_io"
where
  "eval_frame_io E deeper stack relation objectType objectID =
     (let (hit, w) = eio_directLookup E (eio_subjectType E) (eio_subjectID E) relation objectType objectID
      in noting w
        (case hit of
           Some tid \<Rightarrow> (Inr \<lparr>Allowed = True, MatchedTupleID = tid\<rparr>, None)
         | None \<Rightarrow>
             (case rule_of_io E objectType relation of
                None \<Rightarrow> (Inr denied, None)
              | Some rule \<Rightarrow>
                  let frame = \<lparr>frame_Relation = relation, frame_ObjectType = objectType, frame_ObjectID = objectID\<rparr>
                  in if list_ex (\<lambda>f. f = frame) stack then (Inr denied, None)
                     else case deeper of
                       None \<Rightarrow> (Inl ErrEvaluationLimit, None)
                     | Some call \<Rightarrow> expand_nodes_io E (call (stack @ [frame])) objectType objectID rule)))"

primrec eval_rec_io ::
  "'w eval_env_io \<Rightarrow> nat \<Rightarrow> evalFrame list \<Rightarrow> string \<Rightarrow> string \<Rightarrow> string \<Rightarrow> 'w eval_io" where
  "eval_rec_io E 0 = eval_frame_io E None"
| "eval_rec_io E (Suc remaining) = eval_frame_io E (Some (eval_rec_io E remaining))"

definition Evaluate_io ::
  "pg_env \<Rightarrow> pg_db \<Rightarrow> Rules \<Rightarrow> CheckInput \<Rightarrow> EvaluateOptions \<Rightarrow> authz_error pg_fail eval_io" where
  "Evaluate_io e d rules i opts =
     eval_rec_io \<lparr>eio_rules = Some rules, eio_subjectType = ci_SubjectType i, eio_subjectID = ci_SubjectID i,
        eio_directLookup = directLookup e d, eio_listByObject = listByObject e d, eio_maxFanOut = maxFanOut opts\<rparr>
       (nat (maxDepth opts)) [] (ci_Relation i) (ci_ObjectType i) (ci_ObjectID i)"

subsection \<open>Check\<close>

definition check_allowed :: "string \<Rightarrow> CheckResult" where
  "check_allowed tid = \<lparr>chk_Allowed = True, chk_MatchedTupleID = Some tid\<rparr>"

definition check_denied :: CheckResult where
  "check_denied = \<lparr>chk_Allowed = False, chk_MatchedTupleID = None\<rparr>"

definition pg_Check :: "pg_tuple_store \<Rightarrow> CheckInput \<Rightarrow> pg_env \<Rightarrow> pg_db \<Rightarrow> authz_error pg_fail + CheckResult" where
  "pg_Check s i e d =
     (case pts_rules s of
        None \<Rightarrow>
          (case directLookup e d (ci_SubjectType i) (ci_SubjectID i) (ci_Relation i) (ci_ObjectType i) (ci_ObjectID i) of
             (_, Some err) \<Rightarrow> Inl err
           | (Some tid, None) \<Rightarrow> Inr (check_allowed tid)
           | (None, None) \<Rightarrow> Inr check_denied)
      | Some rules \<Rightarrow>
          (case Evaluate_io e d rules i \<lparr>MaxDepth = pts_maxDepth s, MaxFanOut = pts_maxFanOut s\<rparr> of
             (_, Some firstErr) \<Rightarrow> Inl firstErr
           | (Inl err, None) \<Rightarrow> Inl (PgErr err)
           | (Inr res, None) \<Rightarrow> Inr (if Allowed res then check_allowed (MatchedTupleID res) else check_denied)))"

fun pg_check_relations ::
  "(string \<Rightarrow> authz_error pg_fail + CheckResult) \<Rightarrow> string list \<Rightarrow> authz_error pg_fail + CheckResult" where
  "pg_check_relations check [] = Inr check_denied"
| "pg_check_relations check (rel # rels) =
     (case check rel of Inl err \<Rightarrow> Inl err
      | Inr r \<Rightarrow> if chk_Allowed r then Inr r else pg_check_relations check rels)"

text \<open>Without rules one statement with \<open>relation = ANY\<close> and \<open>LIMIT 1\<close>: which row it finds is up to the scan.\<close>

definition check_any_rows :: "CheckAnyInput \<Rightarrow> CheckResult authz_db" where
  "check_any_rows i =
     db_bind (db_wire (ca_SubjectID i)) (\<lambda>subjU.
     db_bind (db_wire (ca_ObjectID i)) (\<lambda>objU.
     case find (\<lambda>rel. \<not> rx_match RelationNamePattern rel) (ca_Relations i) of
       Some rel \<Rightarrow> db_fail (PgErr (ErrInvalidFormat rel))
     | None \<Rightarrow>
         db_bind (db_scan tr_id (\<lambda>d. filter (\<lambda>r. tr_subject_type r = ca_SubjectType i \<and> tr_subject_id r = subjU \<and>
             tr_relation r \<in> set (ca_Relations i) \<and> tr_object_type r = ca_ObjectType i \<and> tr_object_id r = objU) (db_tup d)))
         (\<lambda>rows. case rows of [] \<Rightarrow> db_ok check_denied | r # _ \<Rightarrow> db_ok (check_allowed (uuidToWire ''tup'' (tr_id r))))))"

definition pg_CheckAny :: "pg_tuple_store \<Rightarrow> CheckAnyInput \<Rightarrow> pg_env \<Rightarrow> nat \<Rightarrow> pg_db \<Rightarrow>
    ((authz_error pg_fail + CheckResult) \<times> nat \<times> pg_db) option" where
  "pg_CheckAny s i e n d =
     (if length (ca_Relations i) = 0 then db_fail (PgErr ErrEmptyRelationSet) e n d
      else if pts_rules s = None then check_any_rows i e n d
      else db_sum (pg_check_relations (\<lambda>rel. pg_Check s \<lparr>ci_SubjectType = ca_SubjectType i, ci_SubjectID = ca_SubjectID i,
             ci_Relation = rel, ci_ObjectType = ca_ObjectType i, ci_ObjectID = ca_ObjectID i\<rparr> e d) (ca_Relations i)) e n d)"

subsection \<open>Reading tuples\<close>

definition tuple_of_row :: "tup_row \<Rightarrow> Tuple" where
  "tuple_of_row r = \<lparr>tup_ID = uuidToWire ''tup'' (tr_id r), tup_SubjectType = tr_subject_type r,
     tup_SubjectID = uuidToWire (tr_subject_type r) (tr_subject_id r), tup_Relation = tr_relation r,
     tup_ObjectType = tr_object_type r, tup_ObjectID = uuidToWire (tr_object_type r) (tr_object_id r),
     tup_CreatedAt = tr_created_at r, tup_CreatedBy = map_option (uuidToWire ''usr'') (tr_created_by r)\<rparr>"

definition pg_GetTuple :: "string \<Rightarrow> Tuple authz_db" where
  "pg_GetTuple tupleID =
     db_bind (db_wire tupleID) (\<lambda>u.
     db_bind (db_map_error (not_found (ErrTupleNotFound tupleID)) (first_row (\<lambda>r. tr_id r = u) db_tup))
       (\<lambda>r. db_ok (tuple_of_row r)))"

definition listTuples :: "(tup_row \<Rightarrow> bool) \<Rightarrow> string option \<Rightarrow> int \<Rightarrow> Tuple page authz_db" where
  "listTuples P cursor limit0 =
     (let limit = page_limit limit0
      in db_bind (db_cursor cursor) (\<lambda>cur.
         db_bind (db_select_page tr_id tr_created_at P cur limit db_tup) (\<lambda>rows.
         db_ok (page_of tup_ID limit (map tuple_of_row rows)))))"

definition pg_ListTuplesBySubject :: "string \<Rightarrow> string \<Rightarrow> ListTuplesOptions \<Rightarrow> Tuple page authz_db" where
  "pg_ListTuplesBySubject subjectType subjectID opts =
     db_bind (db_wire subjectID) (\<lambda>subjU.
     listTuples (\<lambda>r. tr_subject_type r = subjectType \<and> tr_subject_id r = subjU) (lt_Cursor opts) (lt_Limit opts))"

definition pg_ListTuplesByObject :: "string \<Rightarrow> string \<Rightarrow> ListByObjectOptions \<Rightarrow> Tuple page authz_db" where
  "pg_ListTuplesByObject objectType objectID opts =
     db_bind (db_wire objectID) (\<lambda>objU.
     listTuples (\<lambda>r. tr_object_type r = objectType \<and> tr_object_id r = objU \<and>
         (case lo_Relation opts of None \<Rightarrow> True | Some rel \<Rightarrow> tr_relation r = rel)) (lo_Cursor opts) (lo_Limit opts))"

subsection \<open>Shares\<close>

definition share_of_row :: "shr_row \<Rightarrow> Share" where
  "share_of_row r = \<lparr>shr_ID = uuidToWire ''shr'' (sr_id r), shr_ObjectType = sr_object_type r,
     shr_ObjectID = uuidToWire (sr_object_type r) (sr_object_id r), shr_Relation = sr_relation r,
     shr_CreatedBy = uuidToWire ''usr'' (sr_created_by r), shr_ExpiresAt = sr_expires_at r,
     shr_SingleUse = sr_single_use r, shr_ConsumedAt = sr_consumed_at r, shr_RevokedAt = sr_revoked_at r,
     shr_CreatedAt = sr_created_at r\<rparr>"

definition pg_CreateShare :: "CreateShareInput \<Rightarrow> CreateShareResult authz_db" where
  "pg_CreateShare i =
     (if \<not> rx_match RelationNamePattern (csi_Relation i) then db_fail (PgErr (ErrInvalidFormat (csi_Relation i)))
      else if csi_ExpiresInSeconds i \<le> 0 \<or> csi_ExpiresInSeconds i > ShareMaxTTLSeconds
      then db_fail (PgErr (ErrInvalidFormat ''ttl''))
      else
        db_bind (db_wire (csi_CreatedBy i)) (\<lambda>createdByU.
        db_bind (db_wire (csi_ObjectID i)) (\<lambda>objU.
        db_bind (db_random 32) (\<lambda>tokenBytes.
        db_bind db_newV7 (\<lambda>newID.
        let token = RawURLEncoding_EncodeToString tokenBytes
        in db_bind db_clock (\<lambda>t.
           let expiresAt = t + wrap64 (csi_ExpiresInSeconds i * second_ns)
           in db_bind (db_asks (\<lambda>e. pe_sha256 e token)) (\<lambda>tokenHash.
              db_bind (db_stmt (\<lambda>now. insert_shr
                 \<lparr>sr_id = newID, sr_token_hash = tokenHash, sr_object_type = csi_ObjectType i, sr_object_id = objU,
                  sr_relation = csi_Relation i, sr_created_by = createdByU, sr_expires_at = pg_time expiresAt,
                  sr_single_use = csi_SingleUse i, sr_consumed_at = None, sr_revoked_at = None, sr_created_at = now\<rparr>))
               (\<lambda>row. db_ok \<lparr>csr_Share = \<lparr>shr_ID = uuidToWire ''shr'' (sr_id row), shr_ObjectType = csi_ObjectType i,
                    shr_ObjectID = csi_ObjectID i, shr_Relation = csi_Relation i, shr_CreatedBy = csi_CreatedBy i,
                    shr_ExpiresAt = sr_expires_at row, shr_SingleUse = sr_single_use row,
                    shr_ConsumedAt = sr_consumed_at row, shr_RevokedAt = sr_revoked_at row,
                    shr_CreatedAt = sr_created_at row\<rparr>, csr_Token = token\<rparr>))))))))"

definition loadShare :: "uuid \<Rightarrow> Share authz_db" where
  "loadShare u =
     db_bind (db_map_error (not_found (ErrShareNotFound (uuidToWire ''shr'' u))) (first_row (\<lambda>r. sr_id r = u) db_shr))
       (\<lambda>r. db_ok (share_of_row r))"

definition pg_GetShare :: "string \<Rightarrow> Share authz_db" where
  "pg_GetShare shareID = db_bind (db_wire shareID) loadShare"

text \<open>\<open>FOR UPDATE\<close> makes the transactions on one share follow each other; the row it finds is up to the scan when
  several closed shares have the digest.\<close>

definition verify_share_tx :: "string \<Rightarrow> VerifiedShare authz_db" where
  "verify_share_tx hashBytes =
     db_bind (db_scan sr_id (\<lambda>d. filter (\<lambda>r. sr_token_hash r = hashBytes) (db_shr d))) (\<lambda>rows.
     case rows of
       [] \<Rightarrow> db_fail (PgErr ErrInvalidShareToken)
     | r # _ \<Rightarrow>
         if hashBytes \<noteq> sr_token_hash r then db_fail (PgErr ErrInvalidShareToken)
         else if sr_revoked_at r \<noteq> None then db_fail (PgErr ErrShareRevoked)
         else if sr_single_use r \<and> sr_consumed_at r \<noteq> None then db_fail (PgErr ErrShareConsumed)
         else
           db_bind db_clock (\<lambda>now.
           if \<not> now < sr_expires_at r then db_fail (PgErr ErrShareExpired)
           else
             db_bind (if sr_single_use r
                      then db_bind db_clock (\<lambda>t. db_bind (db_stmt (\<lambda>_. update_shr (\<lambda>q. sr_id q = sr_id r)
                               (\<lambda>q. q\<lparr>sr_consumed_at := Some (pg_time t)\<rparr>))) (\<lambda>_. db_ok ()))
                      else db_ok ())
               (\<lambda>_. db_ok \<lparr>vs_ShareID = uuidToWire ''shr'' (sr_id r), vs_ObjectType = sr_object_type r,
                  vs_ObjectID = uuidToWire (sr_object_type r) (sr_object_id r), vs_Relation = sr_relation r\<rparr>)))"

definition pg_VerifyShareToken :: "string \<Rightarrow> VerifiedShare authz_db" where
  "pg_VerifyShareToken token = db_bind (db_asks (\<lambda>e. pe_sha256 e token)) (\<lambda>hash. inTx (verify_share_tx hash))"

definition pg_RevokeShare :: "string \<Rightarrow> Share authz_db" where
  "pg_RevokeShare shareID =
     db_bind (db_wire shareID) (\<lambda>u.
     db_bind db_clock (\<lambda>t.
     db_bind (db_stmt (\<lambda>_. update_shr (\<lambda>r. sr_id r = u)
         (\<lambda>r. r\<lparr>sr_revoked_at := Some (case sr_revoked_at r of None \<Rightarrow> pg_time t | Some old \<Rightarrow> old)\<rparr>))) (\<lambda>_.
     loadShare u)))"

definition pg_ListSharesForObject :: "string \<Rightarrow> string \<Rightarrow> ListSharesOptions \<Rightarrow> Share page authz_db" where
  "pg_ListSharesForObject objectType objectID opts =
     db_bind (db_wire objectID) (\<lambda>objU.
     let limit = page_limit (ls_Limit opts)
     in db_bind (db_cursor (ls_Cursor opts)) (\<lambda>cur.
        db_bind (db_select_page sr_id sr_created_at (\<lambda>r. sr_object_type r = objectType \<and> sr_object_id r = objU)
            cur limit db_shr) (\<lambda>rows.
        db_ok (page_of shr_ID limit (map share_of_row rows)))))"

end
