(* ===== verification/TenancyPg.thy ===== *)
theory TenancyPg
  imports PgSchema TenancyMembers TenancyInvitations
begin

text \<open>
  \<open>packages/tenancy/postgres.go\<close>: organizations, memberships and invitations on PostgreSQL.  Every method that
  writes more than one row is a transaction; \<open>FOR UPDATE\<close> makes transactions that read the same row follow each
  other, and the model runs them one after the other.  The identifiers that the code turns into text and back are
  turned back with \<open>db_wire_value\<close>, which like the code drops the error.
\<close>

type_synonym 'a ten_db = "(pg_db, ten_error, 'a) db"

subsection \<open>Rows\<close>

definition scanOrg :: "org_row \<Rightarrow> Organization" where
  "scanOrg r = \<lparr>org_ID = uuidToWire ''org'' (og_id r), org_Status = og_status r, org_CreatedAt = og_created_at r,
     org_UpdatedAt = og_updated_at r, org_Name = og_name r, org_Slug = og_slug r\<rparr>"

definition scanMembership :: "mem_row \<Rightarrow> Membership" where
  "scanMembership r = \<lparr>mem_ID = uuidToWire ''mem'' (mr_id r), mem_UsrID = uuidToWire ''usr'' (mr_usr_id r),
     mem_OrgID = uuidToWire ''org'' (mr_org_id r), mem_Role = mr_role r, mem_Status = mr_status r,
     mem_Replaces = map_option (uuidToWire ''mem'') (mr_replaces r),
     mem_InvitedBy = map_option (uuidToWire ''usr'') (mr_invited_by r),
     mem_RemovedBy = map_option (uuidToWire ''usr'') (mr_removed_by r),
     mem_CreatedAt = mr_created_at r, mem_UpdatedAt = mr_updated_at r\<rparr>"

text \<open>\<open>%q\<close> is \<open>pe_quote\<close>; a JSONB column keeps the text \<open>pe_jsonb\<close> of a document and refuses anything else.\<close>

definition pre_json :: "(string \<Rightarrow> string) \<Rightarrow> PreTuple \<Rightarrow> string" where
  "pre_json quote p = ''{'' @ [CHR 0x22] @ ''relation'' @ [CHR 0x22] @ '':'' @ quote (pt_Relation p) @ '','' @
     [CHR 0x22] @ ''object_type'' @ [CHR 0x22] @ '':'' @ quote (pt_ObjectType p) @ '','' @
     [CHR 0x22] @ ''object_id'' @ [CHR 0x22] @ '':'' @ quote (pt_ObjectID p) @ ''}''"

fun join_commas :: "string list \<Rightarrow> string" where
  "join_commas [] = []"
| "join_commas [x] = x"
| "join_commas (x # y # xs) = x @ '','' @ join_commas (y # xs)"

definition marshalPreTuples :: "(string \<Rightarrow> string) \<Rightarrow> PreTuple list \<Rightarrow> string" where
  "marshalPreTuples quote pre =
     (if length pre = 0 then ''[]'' else ''['' @ join_commas (map (pre_json quote) pre) @ '']'')"

definition unmarshalPreTuples ::
  "(string \<Rightarrow> string + (string \<times> string \<times> string) list) \<Rightarrow> string \<Rightarrow> ten_error pg_fail + PreTuple list" where
  "unmarshalPreTuples unmarshal b =
     (if length b = 0 \<or> b = ''[]'' \<or> b = ''null'' then Inr []
      else case unmarshal b of
        Inl msg \<Rightarrow> Inl (PgJson msg)
      | Inr parsed \<Rightarrow>
          Inr (map (\<lambda>(rel, ot, oid). \<lparr>pt_Relation = rel, pt_ObjectType = ot, pt_ObjectID = oid\<rparr>) parsed))"

definition scanInvitation :: "pg_env \<Rightarrow> inv_row \<Rightarrow> ten_error pg_fail + Invitation" where
  "scanInvitation e r =
     (case unmarshalPreTuples (pe_unmarshal_pre e) (ir_pre_tuples r) of
        Inl err \<Rightarrow> Inl err
      | Inr pre \<Rightarrow> Inr \<lparr>inv_ID = uuidToWire ''inv'' (ir_id r), inv_OrgID = uuidToWire ''org'' (ir_org_id r),
          inv_Identifier = ir_identifier r, inv_Role = ir_role r, inv_Status = ir_status r, inv_PreTuples = pre,
          inv_InvitedBy = uuidToWire ''usr'' (ir_invited_by r),
          inv_InvitedUserID = map_option (uuidToWire ''usr'') (ir_invited_user_id r),
          inv_CreatedAt = ir_created_at r, inv_ExpiresAt = ir_expires_at r, inv_TerminalAt = ir_terminal_at r,
          inv_TerminalBy = map_option (uuidToWire ''usr'') (ir_terminal_by r)\<rparr>)"

definition scan_inv :: "inv_row \<Rightarrow> Invitation ten_db" where
  "scan_inv r = db_bind (db_asks (\<lambda>e. scanInvitation e r)) db_sum"

definition ten_tuple_of_row :: "tup_row \<Rightarrow> TenTuple" where
  "ten_tuple_of_row r = \<lparr>tt_SubjectType = tr_subject_type r,
     tt_SubjectID = uuidToWire (tr_subject_type r) (tr_subject_id r), tt_Relation = tr_relation r,
     tt_ObjectType = tr_object_type r, tt_ObjectID = uuidToWire (tr_object_type r) (tr_object_id r)\<rparr>"

subsection \<open>Statements that several methods share\<close>

definition new_mem :: "uuid \<Rightarrow> uuid \<Rightarrow> uuid \<Rightarrow> Role \<Rightarrow> uuid option \<Rightarrow> uuid option \<Rightarrow> gotime \<Rightarrow> mem_row" where
  "new_mem newID usrU orgU role replaced invBy now =
     \<lparr>mr_id = newID, mr_usr_id = usrU, mr_org_id = orgU, mr_role = role, mr_status = StActive,
      mr_replaces = replaced, mr_invited_by = invBy, mr_removed_by = None,
      mr_created_at = now, mr_updated_at = now\<rparr>"

definition insert_member :: "uuid \<Rightarrow> uuid \<Rightarrow> Role \<Rightarrow> uuid option \<Rightarrow> uuid option \<Rightarrow> mem_row ten_db" where
  "insert_member usrU orgU role replaced invBy =
     db_bind db_newV7 (\<lambda>newID. db_stmt (\<lambda>now. insert_mem (new_mem newID usrU orgU role replaced invBy now)))"

definition insert_user_tuple :: "uuid \<Rightarrow> string \<Rightarrow> string \<Rightarrow> uuid \<Rightarrow> tup_row ten_db" where
  "insert_user_tuple usrU rel ot objU =
     db_bind db_newV7 (\<lambda>newID. db_stmt (\<lambda>now. insert_tup
       \<lparr>tr_id = newID, tr_subject_type = ''usr'', tr_subject_id = usrU, tr_relation = rel, tr_object_type = ot,
        tr_object_id = objU, tr_created_at = now, tr_created_by = Some usrU\<rparr>))"

definition delete_role_tuple :: "uuid \<Rightarrow> Role \<Rightarrow> uuid \<Rightarrow> nat ten_db" where
  "delete_role_tuple usrU role orgU = db_stmt (\<lambda>now d. Inr (delete_tup (\<lambda>r. tr_subject_type r = ''usr'' \<and>
     tr_subject_id r = usrU \<and> tr_relation r = role \<and> tr_object_type r = ''org'' \<and> tr_object_id r = orgU) d))"

definition revoke_mem_row :: "uuid \<Rightarrow> mem_row list ten_db" where
  "revoke_mem_row u = db_stmt (\<lambda>now. update_mem (\<lambda>r. mr_id r = u) (\<lambda>r. r\<lparr>mr_status := StRevoked, mr_updated_at := now\<rparr>))"

definition select_mem :: "uuid \<Rightarrow> mem_row ten_db" where
  "select_mem u = first_row (\<lambda>r. mr_id r = u) db_mem"

text \<open>The index \<open>mem_unique_active\<close> leaves at most one such row.\<close>

definition select_active :: "uuid \<Rightarrow> uuid \<Rightarrow> mem_row ten_db" where
  "select_active orgU usrU = first_row (\<lambda>r. mr_org_id r = orgU \<and> mr_usr_id r = usrU \<and> mr_status r = StActive) db_mem"

definition active_owner :: "uuid \<Rightarrow> mem_row \<Rightarrow> bool" where
  "active_owner orgU r \<longleftrightarrow> mr_org_id r = orgU \<and> mr_role r = RoleOwner \<and> mr_status r = StActive"

definition countActiveOwners :: "uuid \<Rightarrow> nat ten_db" where
  "countActiveOwners orgU = db_query (\<lambda>d. length (filter (active_owner orgU) (db_mem d)))"

definition changeRoleLocked :: "uuid \<Rightarrow> uuid \<Rightarrow> uuid \<Rightarrow> Role \<Rightarrow> Role \<Rightarrow> unit ten_db" where
  "changeRoleLocked oldMem usrU orgU oldRole newRole =
     db_bind (revoke_mem_row oldMem) (\<lambda>_.
     db_bind (delete_role_tuple usrU oldRole orgU) (\<lambda>_.
     db_bind (insert_member usrU orgU newRole (Some oldMem) None) (\<lambda>_.
     db_bind (insert_user_tuple usrU newRole ''org'' orgU) (\<lambda>_. db_ok ()))))"

subsection \<open>Organizations\<close>

definition slug_conflict :: "string option \<Rightarrow> ten_error pg_fail \<Rightarrow> ten_error pg_fail" where
  "slug_conflict slug err =
     (if isUniqueViolation err then PgErr (TenOrgSlugConflict (case slug of None \<Rightarrow> [] | Some x \<Rightarrow> x)) else err)"

definition check_slug :: "string option \<Rightarrow> unit ten_db" where
  "check_slug slug =
     (case slug of None \<Rightarrow> db_ok ()
      | Some x \<Rightarrow> (case validateSlug x of Some err \<Rightarrow> db_fail (PgErr err) | None \<Rightarrow> db_ok ()))"

definition pg_CreateOrg :: "string \<Rightarrow> CreateOrgOptions \<Rightarrow> CreateOrgResult ten_db" where
  "pg_CreateOrg creator opts =
     db_bind (check_slug (coo_Slug opts)) (\<lambda>_.
     db_bind (db_wire creator) (\<lambda>creatorU.
     inTx (
       db_bind db_newV7 (\<lambda>newOrgID.
       db_bind (db_map_error (slug_conflict (coo_Slug opts)) (db_stmt (\<lambda>now. insert_org
           \<lparr>og_id = newOrgID, og_status = StActive, og_created_at = now, og_updated_at = now,
            og_name = coo_Name opts, og_slug = coo_Slug opts\<rparr>))) (\<lambda>r.
       db_bind (insert_member creatorU newOrgID RoleOwner None None) (\<lambda>m.
       db_bind (insert_user_tuple creatorU RoleOwner ''org'' newOrgID) (\<lambda>_.
       db_ok \<lparr>cor_Org = scanOrg r,
          cor_OwnerMembership = \<lparr>mem_ID = uuidToWire ''mem'' (mr_id m), mem_UsrID = creator,
            mem_OrgID = org_ID (scanOrg r), mem_Role = RoleOwner, mem_Status = StActive, mem_Replaces = None,
            mem_InvitedBy = None, mem_RemovedBy = None, mem_CreatedAt = mr_created_at m,
            mem_UpdatedAt = mr_updated_at m\<rparr>\<rparr>)))))))"

definition select_org :: "string \<Rightarrow> uuid \<Rightarrow> org_row ten_db" where
  "select_org orgID u = db_map_error (not_found (TenNotFound orgID)) (first_row (\<lambda>r. og_id r = u) db_org)"

definition pg_GetOrg :: "string \<Rightarrow> Organization ten_db" where
  "pg_GetOrg orgID = db_bind (db_wire orgID) (\<lambda>u. db_bind (select_org orgID u) (\<lambda>r. db_ok (scanOrg r)))"

definition pg_UpdateOrg :: "string \<Rightarrow> UpdateOrgInput \<Rightarrow> Organization ten_db" where
  "pg_UpdateOrg orgID i =
     db_bind (db_wire orgID) (\<lambda>u.
     inTx (
       db_bind (select_org orgID u) (\<lambda>org.
       if og_status org = StRevoked then db_fail (PgErr TenAlreadyTerminal)
       else
         let nextName = (if uoi_ClearName i then None
                         else case uoi_Name i of None \<Rightarrow> og_name org | Some n \<Rightarrow> Some n)
         in db_bind (if uoi_ClearSlug i then db_ok None
                     else case uoi_Slug i of None \<Rightarrow> db_ok (og_slug org)
                       | Some x \<Rightarrow> db_bind (check_slug (Some x)) (\<lambda>_. db_ok (Some x))) (\<lambda>nextSlug.
            db_bind (db_map_error (slug_conflict nextSlug) (returning (db_stmt (\<lambda>now. update_org (\<lambda>r. og_id r = u)
                (\<lambda>r. r\<lparr>og_name := nextName, og_slug := nextSlug, og_updated_at := now\<rparr>))))) (\<lambda>r.
            db_ok (scanOrg r))))))"

definition transOrg :: "string \<Rightarrow> Status \<Rightarrow> Organization ten_db" where
  "transOrg orgID to =
     db_bind (db_wire orgID) (\<lambda>u.
     inTx (
       db_bind (select_org orgID u) (\<lambda>org.
       if og_status org = StRevoked then db_fail (PgErr TenAlreadyTerminal)
       else if to = StActive \<and> og_status org \<noteq> StSuspended
       then db_fail (PgErr (TenPrecondition ''invalid_transition''))
       else
         db_bind (returning (db_stmt (\<lambda>now. update_org (\<lambda>r. og_id r = u) (\<lambda>r. r\<lparr>og_status := to, og_updated_at := now\<rparr>))))
           (\<lambda>r.
         if to = StRevoked
         then
           db_bind (db_stmt (\<lambda>now. update_mem (\<lambda>m. mr_org_id m = u \<and> mr_status m = StActive)
               (\<lambda>m. m\<lparr>mr_status := StRevoked, mr_updated_at := now\<rparr>))) (\<lambda>_.
           db_bind (db_stmt (\<lambda>now d. Inr (delete_tup (\<lambda>t. tr_object_type t = ''org'' \<and> tr_object_id t = u \<and>
               tr_relation t \<in> {''owner'', ''admin'', ''member'', ''guest'', ''viewer'', ''editor''}) d))) (\<lambda>_.
           db_ok (scanOrg r)))
         else db_ok (scanOrg r)))))"

definition pg_SuspendOrg :: "string \<Rightarrow> Organization ten_db" where
  "pg_SuspendOrg orgID = transOrg orgID StSuspended"

definition pg_ReinstateOrg :: "string \<Rightarrow> Organization ten_db" where
  "pg_ReinstateOrg orgID = transOrg orgID StActive"

definition pg_RevokeOrg :: "string \<Rightarrow> Organization ten_db" where
  "pg_RevokeOrg orgID = transOrg orgID StRevoked"

text \<open>\<open>ILIKE\<close> with the pattern \<open>%query%\<close> is \<open>pe_ilike query\<close>; it is not true of a null.\<close>

definition org_selected :: "(string \<Rightarrow> string \<Rightarrow> bool) \<Rightarrow> ListOrgsOptions \<Rightarrow> uuid option \<Rightarrow> org_row \<Rightarrow> bool" where
  "org_selected ilike opts cur r \<longleftrightarrow>
     (case loo_Status opts of None \<Rightarrow> True | Some st \<Rightarrow> og_status r = st) \<and>
     (case loo_Query opts of None \<Rightarrow> True
      | Some q \<Rightarrow> q = [] \<or>
          (case og_name r of None \<Rightarrow> False | Some n \<Rightarrow> ilike q n) \<or> (case og_slug r of None \<Rightarrow> False | Some x \<Rightarrow> ilike q x)) \<and>
     (case cur of None \<Rightarrow> True | Some u \<Rightarrow> u < og_id r)"

definition pg_ListOrgs :: "ListOrgsOptions \<Rightarrow> Organization page ten_db" where
  "pg_ListOrgs opts =
     (let limit = page_limit (loo_Limit opts)
      in db_bind (db_cursor (loo_Cursor opts)) (\<lambda>cur.
         db_bind (db_asks pe_ilike) (\<lambda>ilike.
         db_bind (db_limited False og_id limit (\<lambda>d. filter (org_selected ilike opts cur) (db_org d))) (\<lambda>rows.
         db_ok (page_of org_ID limit (map scanOrg rows))))))"

subsection \<open>Memberships\<close>

definition duplicate_member :: "ten_error pg_fail \<Rightarrow> ten_error pg_fail" where
  "duplicate_member err = (if isUniqueViolation err then PgErr TenDuplicateMembership else err)"

definition pg_AddMember :: "string \<Rightarrow> string \<Rightarrow> Role \<Rightarrow> string option \<Rightarrow> Membership ten_db" where
  "pg_AddMember orgID usrID role invitedBy =
     db_bind (db_wire orgID) (\<lambda>orgU.
     db_bind (db_wire usrID) (\<lambda>usrU.
     db_bind (db_wire_opt invitedBy) (\<lambda>invU.
     inTx (
       db_bind (db_map_error duplicate_member (insert_member usrU orgU role None invU)) (\<lambda>m.
       db_bind (insert_user_tuple usrU role ''org'' orgU) (\<lambda>_. db_ok (scanMembership m)))))))"

definition pg_GetMembership :: "string \<Rightarrow> Membership ten_db" where
  "pg_GetMembership memID =
     db_bind (db_wire memID) (\<lambda>u.
     db_bind (db_map_error (not_found (TenNotFound memID)) (select_mem u)) (\<lambda>r. db_ok (scanMembership r)))"

definition pg_ListMembers :: "string \<Rightarrow> ListMembersOptions \<Rightarrow> Membership page ten_db" where
  "pg_ListMembers orgID opts =
     db_bind (db_wire orgID) (\<lambda>u.
     let limit = page_limit (lmo_Limit opts)
     in db_bind (db_cursor (lmo_Cursor opts)) (\<lambda>cur.
        db_bind (db_select_page mr_id mr_created_at (\<lambda>r. mr_org_id r = u \<and>
            (case lmo_Status opts of None \<Rightarrow> True | Some st \<Rightarrow> mr_status r = st)) cur limit db_mem) (\<lambda>rows.
        db_ok (page_of mem_ID limit (map scanMembership rows)))))"

definition lock_member :: "string \<Rightarrow> uuid \<Rightarrow> Membership ten_db" where
  "lock_member memID u =
     db_bind (db_map_error (not_found (TenNotFound memID)) (select_mem u)) (\<lambda>r. db_ok (scanMembership r))"

text \<open>The guard of the last owner.\<close>

definition not_sole_owner :: "bool \<Rightarrow> uuid \<Rightarrow> unit ten_db" where
  "not_sole_owner applies orgU =
     (if applies
      then db_bind (countActiveOwners orgU) (\<lambda>n. if n = 1 then db_fail (PgErr TenSoleOwner) else db_ok ())
      else db_ok ())"

definition db_wire_value_opt :: "string option \<Rightarrow> uuid option ten_db" where
  "db_wire_value_opt w = (case w of None \<Rightarrow> db_ok None | Some x \<Rightarrow> db_bind (db_wire_value x) (\<lambda>u. db_ok (Some u)))"

definition pg_ChangeRole :: "string \<Rightarrow> Role \<Rightarrow> Membership ten_db" where
  "pg_ChangeRole memID newRole =
     db_bind (db_wire memID) (\<lambda>u.
     inTx (
       db_bind (lock_member memID u) (\<lambda>old.
       if mem_Status old \<noteq> StActive then db_fail (PgErr (TenPrecondition ''mem_not_active''))
       else if mem_Role old = newRole then db_ok old
       else
         db_bind (db_wire_value (mem_OrgID old)) (\<lambda>orgU.
         db_bind (db_wire_value (mem_UsrID old)) (\<lambda>usrU.
         db_bind (not_sole_owner (mem_Role old = RoleOwner \<and> newRole \<noteq> RoleOwner) orgU) (\<lambda>_.
         db_bind (revoke_mem_row u) (\<lambda>_.
         db_bind (delete_role_tuple usrU (mem_Role old) orgU) (\<lambda>_.
         db_bind (db_wire_value_opt (mem_InvitedBy old)) (\<lambda>invBy.
         db_bind (insert_member usrU orgU newRole (Some u) invBy) (\<lambda>nm.
         db_bind (insert_user_tuple usrU newRole ''org'' orgU) (\<lambda>_.
         db_ok (scanMembership nm))))))))))))"

definition transMem :: "string \<Rightarrow> Status \<Rightarrow> uuid option \<Rightarrow> Membership ten_db" where
  "transMem memID to removedBy =
     db_bind (db_wire memID) (\<lambda>u.
     inTx (
       db_bind (lock_member memID u) (\<lambda>m.
       if mem_Status m = StRevoked then db_fail (PgErr TenAlreadyTerminal)
       else
         db_bind (db_wire_value (mem_OrgID m)) (\<lambda>orgU.
         db_bind (db_wire_value (mem_UsrID m)) (\<lambda>usrU.
         db_bind (not_sole_owner (to \<noteq> StActive \<and> mem_Status m = StActive \<and> mem_Role m = RoleOwner) orgU) (\<lambda>_.
         db_bind (if to = StActive
                  then if mem_Status m \<noteq> StSuspended then db_fail (PgErr (TenPrecondition ''invalid_transition''))
                       else db_bind (db_map_error duplicate_member (insert_user_tuple usrU (mem_Role m) ''org'' orgU))
                              (\<lambda>_. db_ok ())
                  else db_bind (delete_role_tuple usrU (mem_Role m) orgU) (\<lambda>_. db_ok ())) (\<lambda>_.
         db_bind (returning (db_stmt (\<lambda>now. update_mem (\<lambda>r. mr_id r = u)
             (\<lambda>r. r\<lparr>mr_status := to, mr_removed_by := (case removedBy of None \<Rightarrow> mr_removed_by r | Some b \<Rightarrow> Some b),
                    mr_updated_at := now\<rparr>)))) (\<lambda>r.
         db_ok (scanMembership r)))))))))"

definition pg_SuspendMembership :: "string \<Rightarrow> Membership ten_db" where
  "pg_SuspendMembership memID = transMem memID StSuspended None"

definition pg_ReinstateMembership :: "string \<Rightarrow> Membership ten_db" where
  "pg_ReinstateMembership memID = transMem memID StActive None"

text \<open>The end of \<open>SelfLeave\<close> and \<open>AdminRemove\<close>: the tuple goes, then the row.\<close>

definition remove_member :: "uuid \<Rightarrow> Membership \<Rightarrow> uuid \<Rightarrow> uuid \<Rightarrow> uuid \<Rightarrow> Membership ten_db" where
  "remove_member u m usrU orgU by1 =
     db_bind (delete_role_tuple usrU (mem_Role m) orgU) (\<lambda>_.
     db_bind (returning (db_stmt (\<lambda>now. update_mem (\<lambda>r. mr_id r = u)
         (\<lambda>r. r\<lparr>mr_status := StRevoked, mr_removed_by := Some by1, mr_updated_at := now\<rparr>)))) (\<lambda>r.
     db_ok (scanMembership r)))"

text \<open>The promotion of the member that a leaving last owner names.\<close>

definition promote_target :: "string option \<Rightarrow> uuid \<Rightarrow> unit ten_db" where
  "promote_target transferTo orgU =
     (case transferTo of
        None \<Rightarrow> db_fail (PgErr TenSoleOwner)
      | Some target \<Rightarrow>
          db_bind (db_wire target) (\<lambda>ttU.
          db_bind (db_map_error (not_found (TenNotFound [])) (select_active orgU ttU)) (\<lambda>tt.
          if mr_role tt = RoleOwner then db_fail (PgErr (TenPrecondition ''already_owner''))
          else changeRoleLocked (mr_id tt) ttU orgU (mr_role tt) RoleOwner)))"

definition pg_SelfLeave :: "string \<Rightarrow> string option \<Rightarrow> Membership ten_db" where
  "pg_SelfLeave memID transferTo =
     db_bind (db_wire memID) (\<lambda>u.
     inTx (
       db_bind (lock_member memID u) (\<lambda>m.
       if mem_Status m \<noteq> StActive then db_fail (PgErr (TenPrecondition ''mem_not_active''))
       else
         db_bind (db_wire_value (mem_OrgID m)) (\<lambda>orgU.
         db_bind (db_wire_value (mem_UsrID m)) (\<lambda>usrU.
         db_bind (if mem_Role m = RoleOwner
                  then db_bind (countActiveOwners orgU) (\<lambda>n. if n = 1 then promote_target transferTo orgU else db_ok ())
                  else db_ok ()) (\<lambda>_.
         remove_member u m usrU orgU usrU))))))"

definition pg_AdminRemove :: "string \<Rightarrow> string \<Rightarrow> Membership ten_db" where
  "pg_AdminRemove memID adminUsrID =
     db_bind (db_wire memID) (\<lambda>u.
     db_bind (db_wire adminUsrID) (\<lambda>adminU.
     inTx (
       db_bind (lock_member memID u) (\<lambda>target.
       if mem_Status target \<noteq> StActive then db_fail (PgErr (TenPrecondition ''mem_not_active''))
       else
         db_bind (db_wire_value (mem_OrgID target)) (\<lambda>orgU.
         db_bind (db_wire_value (mem_UsrID target)) (\<lambda>usrU.
         db_bind (db_map_error (not_found TenForbidden) (select_active orgU adminU)) (\<lambda>admin.
         if AdminRank (mr_role admin) < 3 then db_fail (PgErr TenForbidden)
         else if AdminRank (mr_role admin) < AdminRank (mem_Role target) then db_fail (PgErr TenRoleHierarchy)
         else
           db_bind (not_sole_owner (mem_Role target = RoleOwner) orgU) (\<lambda>_.
           remove_member u target usrU orgU adminU))))))))"

definition pg_TransferOwnership :: "string \<Rightarrow> string \<Rightarrow> string \<Rightarrow> TransferOwnershipResult ten_db" where
  "pg_TransferOwnership orgID fromMemID toMemID =
     db_bind (db_wire orgID) (\<lambda>orgU.
     db_bind (db_wire fromMemID) (\<lambda>fromU.
     db_bind (db_wire toMemID) (\<lambda>toU.
     inTx (
       db_bind (select_mem fromU) (\<lambda>fm.
       db_bind (select_mem toU) (\<lambda>tm.
       if mr_org_id fm \<noteq> orgU \<or> mr_role fm \<noteq> RoleOwner \<or> mr_status fm \<noteq> StActive
       then db_fail (PgErr (TenPrecondition ''not_active_owner''))
       else if mr_org_id tm \<noteq> orgU \<or> mr_status tm \<noteq> StActive
       then db_fail (PgErr (TenPrecondition ''not_active_member''))
       else if fromU = toU then db_fail (PgErr (TenPrecondition ''self_transfer''))
       else
         db_bind (changeRoleLocked toU (mr_usr_id tm) orgU (mr_role tm) RoleOwner) (\<lambda>_.
         db_bind (changeRoleLocked fromU (mr_usr_id fm) orgU RoleOwner RoleMember) (\<lambda>_.
         db_bind (select_active orgU (mr_usr_id tm)) (\<lambda>toMem.
         db_bind (select_active orgU (mr_usr_id fm)) (\<lambda>fromMem.
         db_ok \<lparr>tor_FromMembership = scanMembership fromMem, tor_ToMembership = scanMembership toMem\<rparr>))))))))))"

subsection \<open>Invitations\<close>

definition pg_CreateInvitation ::
  "string \<Rightarrow> string \<Rightarrow> Role \<Rightarrow> string \<Rightarrow> gotime \<Rightarrow> PreTuple list \<Rightarrow> Invitation ten_db" where
  "pg_CreateInvitation orgID identifier role invitedBy expiresAt preTuples =
     db_bind (db_wire orgID) (\<lambda>orgU.
     db_bind (db_wire invitedBy) (\<lambda>byU.
     db_bind (db_asks (\<lambda>e. pe_jsonb e (marshalPreTuples (pe_quote e) preTuples))) (\<lambda>jsonb.
     db_bind db_newV7 (\<lambda>newID.
     db_bind (case jsonb of
           None \<Rightarrow> db_stmt (\<lambda>now d. Inl (PgOther ''jsonb''))
         | Some preJSON \<Rightarrow> db_stmt (\<lambda>now. insert_inv
             \<lparr>ir_id = newID, ir_org_id = orgU, ir_identifier = identifier, ir_role = role, ir_status = InvPending,
              ir_pre_tuples = preJSON, ir_invited_by = byU, ir_invited_user_id = None, ir_created_at = now,
              ir_expires_at = pg_time expiresAt, ir_terminal_at = None, ir_terminal_by = None\<rparr>)) scan_inv))))"

definition inv_pending :: "inv_row \<Rightarrow> bool" where
  "inv_pending r \<longleftrightarrow> ir_status r = InvPending"

definition expire_row :: "gotime \<Rightarrow> inv_row \<Rightarrow> inv_row" where
  "expire_row now r = r\<lparr>ir_status := InvExpired, ir_terminal_at := Some (pg_time now)\<rparr>"

definition select_inv :: "string \<Rightarrow> uuid \<Rightarrow> Invitation ten_db" where
  "select_inv invID u =
     db_bind (db_map_error (not_found (TenNotFound invID)) (first_row (\<lambda>r. ir_id r = u) db_inv)) scan_inv"

definition pg_GetInvitation :: "string \<Rightarrow> Invitation ten_db" where
  "pg_GetInvitation invID =
     db_bind (db_wire invID) (\<lambda>u.
     db_bind (select_inv invID u) (\<lambda>iv. 
     if inv_Status iv = InvPending
     then
       db_bind db_clock (\<lambda>t.
       if \<not> t < inv_ExpiresAt iv
       then
         db_bind db_clock (\<lambda>now.
         db_bind (db_stmt (\<lambda>_. update_inv (\<lambda>r. ir_id r = u \<and> inv_pending r) (expire_row now))) (\<lambda>_.
         db_ok (iv\<lparr>inv_Status := InvExpired, inv_TerminalAt := Some now\<rparr>)))
       else db_ok iv)
     else db_ok iv))"

fun scan_invs :: "inv_row list \<Rightarrow> Invitation list ten_db" where
  "scan_invs [] = db_ok []"
| "scan_invs (r # rows) = db_bind (scan_inv r) (\<lambda>x. db_bind (scan_invs rows) (\<lambda>xs. db_ok (x # xs)))"

definition pg_ListInvitations :: "string \<Rightarrow> ListInvitationsOptions \<Rightarrow> Invitation page ten_db" where
  "pg_ListInvitations orgID opts =
     db_bind (db_wire orgID) (\<lambda>u.
     let limit = page_limit (lio_Limit opts)
     in db_bind (db_cursor (lio_Cursor opts)) (\<lambda>cur.
        db_bind (db_select_page ir_id ir_created_at (\<lambda>r. ir_org_id r = u \<and>
            (case lio_Status opts of None \<Rightarrow> True | Some st \<Rightarrow> ir_status r = st)) cur limit db_inv) (\<lambda>rows.
        db_bind (scan_invs rows) (\<lambda>out. db_ok (page_of inv_ID limit out)))))"

text \<open>The tuples that an invitation brings along.\<close>

fun insert_pre_tuples :: "uuid \<Rightarrow> PreTuple list \<Rightarrow> TenTuple list ten_db" where
  "insert_pre_tuples acceptingU [] = db_ok []"
| "insert_pre_tuples acceptingU (pt # pts) =
     db_bind (db_wire (pt_ObjectID pt)) (\<lambda>objU.
     db_bind (insert_user_tuple acceptingU (pt_Relation pt) (pt_ObjectType pt) objU) (\<lambda>_.
     db_bind (insert_pre_tuples acceptingU pts) (\<lambda>ts.
     db_ok (pre_tuple (uuidToWire ''usr'' acceptingU) pt # ts))))"

text \<open>Who accepts: with \<open>AsUsrID\<close> the identifier must match, without it a new identifier is generated.\<close>

definition accepting_user :: "AcceptInvitationOptions \<Rightarrow> Invitation \<Rightarrow> uuid ten_db" where
  "accepting_user opts iv =
     (case aio_AsUsrID opts of
        None \<Rightarrow> db_newV7
      | Some asUsr \<Rightarrow>
          (case aio_AcceptingIdentifier opts of
             None \<Rightarrow> db_fail (PgErr TenIdentifierBindingRequired)
           | Some ident \<Rightarrow>
               if ident \<noteq> inv_Identifier iv then db_fail (PgErr TenIdentifierMismatch)
               else db_wire_value asUsr))"

definition no_active_membership :: "uuid \<Rightarrow> uuid \<Rightarrow> unit ten_db" where
  "no_active_membership orgU usrU =
     db_bind (db_query (\<lambda>d. find (\<lambda>r. mr_org_id r = orgU \<and> mr_usr_id r = usrU \<and> mr_status r = StActive) (db_mem d)))
       (\<lambda>existing. if existing = None then db_ok () else db_fail (PgErr TenDuplicateMembership))"

text \<open>What accepting does once the invitation is found to be pending and in time.\<close>

definition accept_invitation ::
  "uuid \<Rightarrow> Invitation \<Rightarrow> AcceptInvitationOptions \<Rightarrow> gotime \<Rightarrow> AcceptInvitationResult ten_db" where
  "accept_invitation u iv opts now =
     db_bind (accepting_user opts iv) (\<lambda>acceptingU.
     db_bind (db_wire_value (inv_OrgID iv)) (\<lambda>orgU.
     db_bind (no_active_membership orgU acceptingU) (\<lambda>_.
     db_bind (db_wire_value (inv_InvitedBy iv)) (\<lambda>invByU.
     db_bind (insert_member acceptingU orgU (inv_Role iv) None (Some invByU)) (\<lambda>mem.
     db_bind (insert_user_tuple acceptingU (inv_Role iv) ''org'' orgU) (\<lambda>_.
     db_bind (insert_pre_tuples acceptingU (inv_PreTuples iv)) (\<lambda>materialized.
     db_bind (returning (db_stmt (\<lambda>_. update_inv (\<lambda>r. ir_id r = u) (\<lambda>r. r\<lparr>ir_status := InvAccepted,
         ir_terminal_at := Some (pg_time now), ir_invited_user_id := Some acceptingU\<rparr>)))) (\<lambda>r.
     db_bind (scan_inv r) (\<lambda>invFinal.
     db_ok \<lparr>air_Invitation = invFinal, air_Membership = scanMembership mem,
        air_MaterializedTuples =
          role_tuple (uuidToWire ''usr'' acceptingU) (inv_Role iv) (inv_OrgID iv) # materialized\<rparr>)))))))))"

definition pg_AcceptInvitation :: "string \<Rightarrow> AcceptInvitationOptions \<Rightarrow> AcceptInvitationResult ten_db" where
  "pg_AcceptInvitation invID opts =
     db_bind (db_wire invID) (\<lambda>u.
     inTx (
       db_bind (select_inv invID u) (\<lambda>iv. 
       if inv_Status iv \<noteq> InvPending then db_fail (PgErr TenInvitationNotPending)
       else
         db_bind db_clock (\<lambda>now.
         if \<not> now < inv_ExpiresAt iv
         then db_bind (db_stmt (\<lambda>_. update_inv (\<lambda>r. ir_id r = u) (expire_row now)))
                (\<lambda>_. db_fail (PgErr TenInvitationExpired))
         else
           accept_invitation u iv opts now))))"

definition close_invitation :: "uuid \<Rightarrow> (inv_row \<Rightarrow> inv_row) \<Rightarrow> Invitation ten_db" where
  "close_invitation u f =
     db_map_error (not_found TenInvitationNotPending)
       (db_bind (returning (db_stmt (\<lambda>_. update_inv (\<lambda>r. ir_id r = u \<and> inv_pending r) f))) scan_inv)"

definition pg_DeclineInvitation :: "string \<Rightarrow> string option \<Rightarrow> Invitation ten_db" where
  "pg_DeclineInvitation invID asUsrID =
     db_bind (db_wire invID) (\<lambda>u.
     db_bind (db_wire_opt asUsrID) (\<lambda>asU.
     db_bind db_clock (\<lambda>now.
     close_invitation u (\<lambda>r. r\<lparr>ir_status := InvDeclined, ir_terminal_at := Some (pg_time now), ir_terminal_by := asU,
       ir_invited_user_id := (case ir_invited_user_id r of None \<Rightarrow> asU | Some x \<Rightarrow> Some x)\<rparr>))))"

definition pg_RevokeInvitation :: "string \<Rightarrow> string \<Rightarrow> Invitation ten_db" where
  "pg_RevokeInvitation invID adminUsrID =
     db_bind (db_wire invID) (\<lambda>u.
     db_bind (db_wire adminUsrID) (\<lambda>adminU.
     db_bind db_clock (\<lambda>now.
     close_invitation u (\<lambda>r. r\<lparr>ir_status := InvRevoked, ir_terminal_at := Some (pg_time now),
       ir_terminal_by := Some adminU\<rparr>))))"

subsection \<open>Tuple accessors\<close>

definition pg_ListTuplesForSubject :: "string \<Rightarrow> string \<Rightarrow> TenTuple list ten_db" where
  "pg_ListTuplesForSubject subjectType subjectID =
     db_bind (db_wire subjectID) (\<lambda>subjU.
     db_bind (db_scan tr_id (\<lambda>d. filter (\<lambda>r. tr_subject_type r = subjectType \<and> tr_subject_id r = subjU) (db_tup d)))
       (\<lambda>rows. db_ok (map ten_tuple_of_row rows)))"

definition pg_ListTuplesForObject :: "string \<Rightarrow> string \<Rightarrow> string option \<Rightarrow> TenTuple list ten_db" where
  "pg_ListTuplesForObject objectType objectID relation =
     db_bind (db_wire objectID) (\<lambda>objU.
     db_bind (db_scan tr_id (\<lambda>d. filter (\<lambda>r. tr_object_type r = objectType \<and> tr_object_id r = objU \<and>
         (case relation of None \<Rightarrow> True | Some rel \<Rightarrow> tr_relation r = rel)) (db_tup d)))
       (\<lambda>rows. db_ok (map ten_tuple_of_row rows)))"

end
