(* ===== verification/IdentityPg.thy ===== *)
theory IdentityPg
  imports PgSchema IdentityMfa IdentityPats
begin

text \<open>
  \<open>packages/identity/postgres.go\<close>: users, credentials and sessions on PostgreSQL.  \<open>L\<close> gives the libraries a
  method uses (Argon2id, HMAC, Unicode, WebAuthn, the bytes of recovery codes) as in the in-memory store; clock,
  identifiers, random bytes and SHA-256 come from the environment of the database.  The verifications of the dummy
  hash change nothing and are left out.  The triggers \<open>*_touch\<close> set \<open>updated_at\<close> of every updated row to \<open>now()\<close>.
\<close>

type_synonym 'a id_db = "(pg_db, idn_error, 'a) db"

definition db_must_wire :: "string \<Rightarrow> uuid id_db" where
  "db_must_wire wid = (\<lambda>e n d. case wireToUUID (pe_uuid e) wid of Inl _ \<Rightarrow> None | Inr u \<Rightarrow> Some (Inr u, n, d))"

definition newPgToken :: "string id_db" where
  "newPgToken = db_bind (db_random 32) (\<lambda>b. db_ok (RawURLEncoding_EncodeToString b))"

definition hashTokenBytes :: "string \<Rightarrow> string id_db" where
  "hashTokenBytes token = db_asks (\<lambda>e. pe_sha256 e token)"

definition db_hash :: "id_env \<Rightarrow> string \<Rightarrow> string id_db" where
  "db_hash L password = (\<lambda>e n d.
     case HashPassword (ev_idkey L) (pe_rand e n (int argon2idSaltBytes)) password of
       Inl err \<Rightarrow> Some (Inl (PgErr (IdnHash err)), Suc n, d) | Inr h \<Rightarrow> Some (Inr h, Suc n, d))"

text \<open>\<open>Scan\<close> of a column into a variable that cannot hold null.\<close>

definition scan_value :: "'a option \<Rightarrow> 'a id_db" where
  "scan_value x = (case x of None \<Rightarrow> db_fail (PgDb (PgOther ''null'')) | Some v \<Rightarrow> db_ok v)"

subsection \<open>Users\<close>

definition user_of_row :: "usr_row \<Rightarrow> User" where
  "user_of_row r = \<lparr>usr_ID = uuidToWire ''usr'' (ur_id r), usr_Status = ur_status r, usr_CreatedAt = ur_created_at r,
     usr_UpdatedAt = ur_updated_at r, usr_DisplayName = ur_display_name r\<rparr>"

definition pg_CreateUser :: "string option \<Rightarrow> User id_db" where
  "pg_CreateUser displayName =
     db_bind db_newV7 (\<lambda>newID.
     db_bind (db_stmt (\<lambda>now. insert_usr \<lparr>ur_id = newID, ur_status = StatusActive, ur_display_name = displayName,
         ur_created_at = now, ur_updated_at = now\<rparr>)) (\<lambda>r. db_ok (user_of_row r)))"

definition select_usr :: "string \<Rightarrow> uuid \<Rightarrow> usr_row id_db" where
  "select_usr usrID u = db_map_error (not_found (IdnNotFound usrID)) (first_row (\<lambda>r. ur_id r = u) db_usr)"

definition pg_GetUser :: "string \<Rightarrow> User id_db" where
  "pg_GetUser usrID = db_bind (db_wire usrID) (\<lambda>u. db_bind (select_usr usrID u) (\<lambda>r. db_ok (user_of_row r)))"

definition update_user_row :: "uuid \<Rightarrow> (gotime \<Rightarrow> usr_row \<Rightarrow> usr_row) \<Rightarrow> usr_row id_db" where
  "update_user_row u f = returning (db_stmt (\<lambda>now. update_usr (\<lambda>r. ur_id r = u) (\<lambda>r. (f now r)\<lparr>ur_updated_at := now\<rparr>)))"

definition pg_UpdateUser :: "string \<Rightarrow> UpdateUserInput \<Rightarrow> User id_db" where
  "pg_UpdateUser usrID i =
     db_bind (db_wire usrID) (\<lambda>u.
     inTx (
       db_bind (select_usr usrID u) (\<lambda>r.
       if ur_status r = StatusRevoked then db_fail (PgErr IdnAlreadyTerminal)
       else
         let next = (if uui_ClearDisplayName i then None
                     else case uui_DisplayName i of None \<Rightarrow> ur_display_name r | Some n \<Rightarrow> Some n)
         in db_bind (update_user_row u (\<lambda>now q. q\<lparr>ur_display_name := next\<rparr>)) (\<lambda>q. db_ok (user_of_row q)))))"

definition user_listed :: "(string \<Rightarrow> string \<Rightarrow> bool) \<Rightarrow> ListUsersOptions \<Rightarrow> pg_db \<Rightarrow> usr_row \<Rightarrow> bool" where
  "user_listed ilike opts d r \<longleftrightarrow>
     (case luo_Status opts of None \<Rightarrow> True | Some st \<Rightarrow> ur_status r = st) \<and>
     (case luo_Query opts of None \<Rightarrow> True
      | Some q \<Rightarrow> q = [] \<or>
          list_ex (\<lambda>c. cr_usr_id c = ur_id r \<and> cr_status c = ''active'' \<and> ilike q (cr_identifier c)) (db_cred d))"

definition pg_ListUsers :: "ListUsersOptions \<Rightarrow> User page id_db" where
  "pg_ListUsers opts =
     (let limit = page_limit (luo_Limit opts)
      in db_bind (db_cursor (luo_Cursor opts)) (\<lambda>cur.
         db_bind (db_asks pe_ilike) (\<lambda>ilike.
         db_bind (db_limited True (\<lambda>r. (ur_created_at r, ur_id r)) limit
             (\<lambda>d. filter (\<lambda>r. user_listed ilike opts d r \<and> sql_after ur_id ur_created_at cur (db_usr d) r) (db_usr d))) (\<lambda>rows.
         db_ok (page_of usr_ID limit (map user_of_row rows))))))"

definition revoke_sessions :: "(ses_row \<Rightarrow> bool) \<Rightarrow> gotime \<Rightarrow> ses_row list id_db" where
  "revoke_sessions hit now = db_stmt (\<lambda>_. update_ses (\<lambda>s. hit s \<and> sn_revoked_at s = None)
     (\<lambda>s. s\<lparr>sn_revoked_at := Some (pg_time now)\<rparr>))"

definition transUser :: "string \<Rightarrow> IdStatus \<Rightarrow> User id_db" where
  "transUser usrID to =
     db_bind (db_wire usrID) (\<lambda>u.
     inTx (
       db_bind (select_usr usrID u) (\<lambda>r.
       if ur_status r = StatusRevoked then db_fail (PgErr IdnAlreadyTerminal)
       else if ur_status r = to then db_ok (user_of_row r)
       else if to = StatusActive \<and> ur_status r \<noteq> StatusSuspended
       then db_fail (PgErr (IdnPrecondition ''invalid_transition''))
       else
         db_bind (update_user_row u (\<lambda>now q. q\<lparr>ur_status := to\<rparr>)) (\<lambda>q.
         db_bind db_clock (\<lambda>now.
         db_bind (if to = StatusSuspended \<or> to = StatusRevoked
                  then db_bind (revoke_sessions (\<lambda>s. sn_usr_id s = u) now) (\<lambda>_. db_ok ()) else db_ok ()) (\<lambda>_.
         db_bind (if to = StatusRevoked
                  then db_bind (db_stmt (\<lambda>now. update_cred (\<lambda>c. cr_usr_id c = u \<and> cr_status c = ''active'')
                         (\<lambda>c. c\<lparr>cr_status := ''revoked'', cr_updated_at := now\<rparr>))) (\<lambda>_. db_ok ())
                  else db_ok ()) (\<lambda>_.
         db_ok (user_of_row q))))))))"

definition pg_SuspendUser :: "string \<Rightarrow> User id_db" where
  "pg_SuspendUser usrID = transUser usrID StatusSuspended"

definition pg_ReinstateUser :: "string \<Rightarrow> User id_db" where
  "pg_ReinstateUser usrID = transUser usrID StatusActive"

definition pg_RevokeUser :: "string \<Rightarrow> User id_db" where
  "pg_RevokeUser usrID = transUser usrID StatusRevoked"

subsection \<open>Credentials\<close>

definition scanCredentialRow :: "cred_row \<Rightarrow> Credential" where
  "scanCredentialRow r = \<lparr>crd_ID = uuidToWire ''cred'' (cr_id r), crd_UsrID = uuidToWire ''usr'' (cr_usr_id r),
     crd_Type = cr_type r, crd_Identifier = cr_identifier r, crd_Status = cr_status r,
     crd_Replaces = map_option (uuidToWire ''cred'') (cr_replaces r), crd_CreatedAt = cr_created_at r,
     crd_UpdatedAt = cr_updated_at r,
     crd_PasskeySignCount = (case cr_passkey_sign_count r of None \<Rightarrow> 0 | Some n \<Rightarrow> n),
     crd_PasskeyRPID = (case cr_passkey_rp_id r of None \<Rightarrow> [] | Some x \<Rightarrow> x),
     crd_OIDCIssuer = (case cr_oidc_issuer r of None \<Rightarrow> [] | Some x \<Rightarrow> x),
     crd_OIDCSubject = (case cr_oidc_subject r of None \<Rightarrow> [] | Some x \<Rightarrow> x)\<rparr>"

text \<open>The columns every type has, with the others null.\<close>

definition new_cred :: "uuid \<Rightarrow> uuid \<Rightarrow> CredentialType \<Rightarrow> string \<Rightarrow> uuid option \<Rightarrow> gotime \<Rightarrow> cred_row" where
  "new_cred newID usrU typ ident replaced now =
     \<lparr>cr_id = newID, cr_usr_id = usrU, cr_type = typ, cr_identifier = ident, cr_status = ''active'',
      cr_replaces = replaced, cr_password_hash = None, cr_passkey_public_key = None, cr_passkey_sign_count = None,
      cr_passkey_rp_id = None, cr_oidc_issuer = None, cr_oidc_subject = None, cr_created_at = now, cr_updated_at = now\<rparr>"

definition password_row :: "string \<Rightarrow> cred_row \<Rightarrow> cred_row" where
  "password_row hash r = r\<lparr>cr_password_hash := Some hash\<rparr>"

definition passkey_row :: "string \<Rightarrow> int \<Rightarrow> string \<Rightarrow> cred_row \<Rightarrow> cred_row" where
  "passkey_row publicKey signCount rpID r = r\<lparr>cr_passkey_public_key := Some publicKey,
     cr_passkey_sign_count := Some signCount, cr_passkey_rp_id := Some rpID\<rparr>"

definition oidc_row :: "string \<Rightarrow> string \<Rightarrow> cred_row \<Rightarrow> cred_row" where
  "oidc_row issuer sub r = r\<lparr>cr_oidc_issuer := Some issuer, cr_oidc_subject := Some sub\<rparr>"

definition duplicate_credential :: "idn_error pg_fail \<Rightarrow> idn_error pg_fail" where
  "duplicate_credential err = (if isUniqueViolation err then PgErr IdnDuplicateCredential else err)"

definition reload_cred :: "uuid \<Rightarrow> Credential id_db" where
  "reload_cred u = db_bind (first_row (\<lambda>r. cr_id r = u) db_cred) (\<lambda>r. db_ok (scanCredentialRow r))"

text \<open>The transaction of the three \<open>Create...Credential\<close> methods: the user must exist.\<close>

definition create_credential ::
  "string \<Rightarrow> uuid \<Rightarrow> uuid \<Rightarrow> CredentialType \<Rightarrow> string \<Rightarrow> (cred_row \<Rightarrow> cred_row) \<Rightarrow> Credential id_db" where
  "create_credential usrID usrU newID typ ident columns =
     inTx (
       db_bind (select_usr usrID usrU) (\<lambda>_.
       db_bind (db_map_error duplicate_credential
           (db_stmt (\<lambda>now. insert_cred (columns (new_cred newID usrU typ ident None now))))) (\<lambda>_.
       reload_cred newID)))"

definition pg_CreatePasswordCredential :: "id_env \<Rightarrow> string \<Rightarrow> string \<Rightarrow> string \<Rightarrow> Credential id_db" where
  "pg_CreatePasswordCredential L usrID ident password =
     db_bind (db_wire usrID) (\<lambda>usrU.
     db_bind (db_hash L password) (\<lambda>hash.
     db_bind db_newV7 (\<lambda>newID.
     create_credential usrID usrU newID CredentialTypePassword ident (password_row hash))))"

definition pg_CreatePasskeyCredential :: "string \<Rightarrow> string \<Rightarrow> string \<Rightarrow> int \<Rightarrow> string \<Rightarrow> Credential id_db" where
  "pg_CreatePasskeyCredential usrID ident publicKey signCount rpID =
     db_bind (db_wire usrID) (\<lambda>usrU.
     db_bind db_newV7 (\<lambda>newID.
     create_credential usrID usrU newID CredentialTypePasskey ident (passkey_row publicKey signCount rpID)))"

definition pg_CreateOIDCCredential :: "string \<Rightarrow> string \<Rightarrow> string \<Rightarrow> string \<Rightarrow> Credential id_db" where
  "pg_CreateOIDCCredential usrID ident issuer sub =
     db_bind (db_wire usrID) (\<lambda>usrU.
     db_bind db_newV7 (\<lambda>newID.
     create_credential usrID usrU newID CredentialTypeOIDC ident (oidc_row issuer sub)))"

definition pg_GetCredential :: "string \<Rightarrow> Credential id_db" where
  "pg_GetCredential credID =
     db_bind (db_wire credID) (\<lambda>u. db_map_error (not_found (IdnNotFound credID)) (reload_cred u))"

text \<open>\<open>ORDER BY created_at\<close>: rows of one instant come in the order of the scan.\<close>

definition pg_ListCredentialsForUser :: "string \<Rightarrow> Credential list id_db" where
  "pg_ListCredentialsForUser usrID =
     db_bind (db_wire usrID) (\<lambda>u.
     db_bind (db_scan_rows True cr_id cr_created_at (\<lambda>d. filter (\<lambda>r. cr_usr_id r = u) (db_cred d))) (\<lambda>rows.
     db_ok (map scanCredentialRow rows)))"

text \<open>The index \<open>cred_unique_active_identifier\<close> leaves at most one such row.\<close>

definition active_cred :: "CredentialType \<Rightarrow> string \<Rightarrow> cred_row \<Rightarrow> bool" where
  "active_cred t ident r \<longleftrightarrow> cr_type r = t \<and> cr_identifier r = ident \<and> cr_status r = ''active''"

definition pg_FindCredentialByIdentifier :: "CredentialType \<Rightarrow> string \<Rightarrow> Credential option id_db" where
  "pg_FindCredentialByIdentifier t ident =
     db_bind (db_query (\<lambda>d. find (active_cred t ident) (db_cred d))) (\<lambda>r. db_ok (map_option scanCredentialRow r))"

definition rotateInTx :: "string \<Rightarrow> CredentialType \<Rightarrow> (uuid \<Rightarrow> Credential \<Rightarrow> uuid id_db) \<Rightarrow> Credential id_db" where
  "rotateInTx credID expected mutate =
     db_bind (db_wire credID) (\<lambda>credU.
     inTx (
       db_bind (db_map_error (not_found (IdnNotFound credID)) (reload_cred credU)) (\<lambda>old.
       if crd_Status old \<noteq> StatusActive then db_fail (PgErr IdnCredentialNotActive)
       else if crd_Type old \<noteq> expected then db_fail (PgErr IdnCredentialTypeMismatch)
       else
         db_bind (db_stmt (\<lambda>now. update_cred (\<lambda>c. cr_id c = credU) (\<lambda>c. c\<lparr>cr_status := ''revoked'', cr_updated_at := now\<rparr>))) (\<lambda>_.
         db_bind (mutate credU old) (\<lambda>newID.
         db_bind db_clock (\<lambda>now.
         db_bind (revoke_sessions (\<lambda>s. sn_cred_id s = credU) now) (\<lambda>_.
         reload_cred newID)))))))"

definition insert_successor ::
  "CredentialType \<Rightarrow> (cred_row \<Rightarrow> cred_row) \<Rightarrow> uuid \<Rightarrow> Credential \<Rightarrow> uuid id_db" where
  "insert_successor typ columns oldU old =
     db_bind db_newV7 (\<lambda>newID.
     db_bind (db_must_wire (crd_UsrID old)) (\<lambda>usrU.
     db_bind (db_stmt (\<lambda>now. insert_cred (columns (new_cred newID usrU typ (crd_Identifier old) (Some oldU) now)))) (\<lambda>_.
     db_ok newID)))"

definition pg_RotatePassword :: "id_env \<Rightarrow> string \<Rightarrow> string \<Rightarrow> Credential id_db" where
  "pg_RotatePassword L credID newPassword =
     db_bind (db_hash L newPassword) (\<lambda>hash.
     rotateInTx credID CredentialTypePassword (insert_successor CredentialTypePassword (password_row hash)))"

definition pg_RotatePasskey :: "string \<Rightarrow> string \<Rightarrow> int \<Rightarrow> string \<Rightarrow> Credential id_db" where
  "pg_RotatePasskey credID publicKey signCount rpID =
     rotateInTx credID CredentialTypePasskey
       (insert_successor CredentialTypePasskey (passkey_row publicKey signCount rpID))"

definition pg_RotateOIDC :: "string \<Rightarrow> string \<Rightarrow> string \<Rightarrow> Credential id_db" where
  "pg_RotateOIDC credID issuer sub =
     rotateInTx credID CredentialTypeOIDC (insert_successor CredentialTypeOIDC (oidc_row issuer sub))"

definition transCred :: "string \<Rightarrow> IdStatus \<Rightarrow> Credential id_db" where
  "transCred credID to =
     db_bind (db_wire credID) (\<lambda>u.
     inTx (
       db_bind (db_map_error (not_found (IdnNotFound credID)) (reload_cred u)) (\<lambda>c.
       if crd_Status c = StatusRevoked then db_fail (PgErr IdnAlreadyTerminal)
       else if crd_Status c = to then db_ok c
       else if to = StatusActive \<and> crd_Status c \<noteq> StatusSuspended
       then db_fail (PgErr (IdnPrecondition ''invalid_transition''))
       else
         db_bind (db_map_error (\<lambda>err. if to = StatusActive then duplicate_credential err else err)
             (db_stmt (\<lambda>now. update_cred (\<lambda>r. cr_id r = u) (\<lambda>r. r\<lparr>cr_status := to, cr_updated_at := now\<rparr>)))) (\<lambda>_.
         db_bind (if to = StatusSuspended \<or> to = StatusRevoked
                  then db_bind db_clock (\<lambda>now.
                       db_bind (revoke_sessions (\<lambda>s. sn_cred_id s = u) now) (\<lambda>_. db_ok ()))
                  else db_ok ()) (\<lambda>_.
         reload_cred u)))))"

definition pg_SuspendCredential :: "string \<Rightarrow> Credential id_db" where
  "pg_SuspendCredential credID = transCred credID StatusSuspended"

definition pg_ReinstateCredential :: "string \<Rightarrow> Credential id_db" where
  "pg_ReinstateCredential credID = transCred credID StatusActive"

definition pg_RevokeCredential :: "string \<Rightarrow> Credential id_db" where
  "pg_RevokeCredential credID = transCred credID StatusRevoked"

text \<open>The row of the credential with the policy of its user, one statement with a left join.\<close>

definition pg_VerifyPassword :: "id_env \<Rightarrow> string \<Rightarrow> string \<Rightarrow> VerifiedCredential id_db" where
  "pg_VerifyPassword L ident password =
     db_bind (db_query (\<lambda>d. map_option (\<lambda>c. (c, find (\<lambda>p. po_usr_id p = cr_usr_id c) (db_policy d)))
         (find (active_cred ''password'' ident) (db_cred d)))) (\<lambda>hit.
     case hit of
       None \<Rightarrow> db_fail (PgErr IdnInvalidCredential)
     | Some (c, pol) \<Rightarrow>
         db_bind (scan_value (cr_password_hash c)) (\<lambda>hash.
         case VerifyPasswordHash (ev_idkey L) hash password of
           Inl err \<Rightarrow> db_fail (PgErr (IdnHash err))
         | Inr ok \<Rightarrow>
             if \<not> ok then db_fail (PgErr IdnInvalidCredential)
             else
               db_bind (case pol of None \<Rightarrow> db_ok False
                  | Some p \<Rightarrow> db_bind db_clock (\<lambda>now. db_ok (IsActiveNow \<lparr>ump_UsrID = [], ump_Required = po_required p,
                      ump_GraceUntil = po_grace_until p, ump_UpdatedAt = idn_zero_time\<rparr> now))) (\<lambda>mfaReq.
               db_ok \<lparr>vc_UsrID = uuidToWire ''usr'' (cr_usr_id c), vc_CredID = uuidToWire ''cred'' (cr_id c),
                  vc_MfaRequired = mfaReq\<rparr>)))"

subsection \<open>Sessions\<close>

definition session_of_row :: "ses_row \<Rightarrow> Session" where
  "session_of_row r = \<lparr>ses_ID = uuidToWire ''ses'' (sn_id r), ses_UsrID = uuidToWire ''usr'' (sn_usr_id r),
     ses_CredID = uuidToWire ''cred'' (sn_cred_id r), ses_CreatedAt = sn_created_at r,
     ses_ExpiresAt = sn_expires_at r, ses_RevokedAt = sn_revoked_at r\<rparr>"

definition insert_session :: "uuid \<Rightarrow> uuid \<Rightarrow> string \<Rightarrow> gotime \<Rightarrow> uuid \<Rightarrow> ses_row id_db" where
  "insert_session usrU credU th expiresAt newID =
     db_stmt (\<lambda>now. insert_ses \<lparr>sn_id = newID, sn_usr_id = usrU, sn_cred_id = credU, sn_created_at = now,
       sn_expires_at = pg_time expiresAt, sn_revoked_at = None, sn_token_hash = Some th\<rparr>)"

definition pg_CreateSession :: "string \<Rightarrow> string \<Rightarrow> int \<Rightarrow> SessionWithToken id_db" where
  "pg_CreateSession usrID credID ttlSeconds =
     db_bind (db_wire usrID) (\<lambda>usrU.
     db_bind (db_wire credID) (\<lambda>credU.
     db_bind newPgToken (\<lambda>token.
     db_bind (hashTokenBytes token) (\<lambda>th.
     inTx (
       db_bind (db_map_error (not_found (IdnNotFound credID)) (first_row (\<lambda>r. cr_id r = credU) db_cred)) (\<lambda>c.
       if cr_usr_id c \<noteq> usrU then db_fail (PgErr (IdnPrecondition ''cred_user_mismatch''))
       else if cr_status c \<noteq> StatusActive then db_fail (PgErr IdnCredentialNotActive)
       else
         db_bind db_newV7 (\<lambda>newID.
         db_bind db_clock (\<lambda>t.
         db_bind (insert_session usrU credU th (t + wrap64 (ttlSeconds * second_ns)) newID) (\<lambda>r.
         db_ok \<lparr>swt_Session = \<lparr>ses_ID = uuidToWire ''ses'' (sn_id r), ses_UsrID = usrID, ses_CredID = credID,
             ses_CreatedAt = sn_created_at r, ses_ExpiresAt = sn_expires_at r, ses_RevokedAt = sn_revoked_at r\<rparr>,
           swt_Token = token\<rparr>)))))))))"

definition pg_GetSession :: "string \<Rightarrow> Session id_db" where
  "pg_GetSession sesID =
     db_bind (db_wire sesID) (\<lambda>u.
     db_bind (db_map_error (not_found (IdnNotFound sesID)) (first_row (\<lambda>r. sn_id r = u) db_ses)) (\<lambda>r.
     db_ok (session_of_row r)))"

definition pg_ListSessionsForUser :: "string \<Rightarrow> ListSessionsOptions \<Rightarrow> Session page id_db" where
  "pg_ListSessionsForUser usrID opts =
     db_bind (db_wire usrID) (\<lambda>u.
     let limit = page_limit (lso_Limit opts)
     in db_bind (db_cursor (lso_Cursor opts)) (\<lambda>cur.
        db_bind (db_select_page sn_id sn_created_at (\<lambda>r. sn_usr_id r = u) cur limit db_ses) (\<lambda>rows.
        db_ok (page_of ses_ID limit (map session_of_row rows)))))"

text \<open>The clock is not read for a revoked session.  The row is up to the scan when several ended sessions
  have the digest.\<close>

definition pg_VerifySessionToken :: "string \<Rightarrow> Session id_db" where
  "pg_VerifySessionToken token =
     db_bind (hashTokenBytes token) (\<lambda>th.
     db_bind (db_scan sn_id (\<lambda>d. filter (\<lambda>r. sn_token_hash r = Some th) (db_ses d))) (\<lambda>rows.
     case rows of
       [] \<Rightarrow> db_fail (PgErr IdnInvalidToken)
     | r # _ \<Rightarrow>
         if sn_revoked_at r \<noteq> None then db_fail (PgErr IdnSessionExpired)
         else db_bind db_clock (\<lambda>now.
           if \<not> now < sn_expires_at r then db_fail (PgErr IdnSessionExpired) else db_ok (session_of_row r))))"

definition pg_RefreshSession :: "string \<Rightarrow> SessionWithToken id_db" where
  "pg_RefreshSession sesID =
     db_bind (db_wire sesID) (\<lambda>oldU.
     db_bind newPgToken (\<lambda>newToken.
     db_bind (hashTokenBytes newToken) (\<lambda>newHash.
     inTx (
       db_bind (db_map_error (not_found (IdnNotFound sesID)) (first_row (\<lambda>r. sn_id r = oldU) db_ses)) (\<lambda>old.
       db_bind db_clock (\<lambda>now.
       if sn_revoked_at old \<noteq> None \<or> \<not> now < sn_expires_at old then db_fail (PgErr IdnSessionExpired)
       else
         db_bind (db_stmt (\<lambda>_. update_ses (\<lambda>r. sn_id r = oldU) (\<lambda>r. r\<lparr>sn_revoked_at := Some (pg_time now)\<rparr>))) (\<lambda>_.
         db_bind db_newV7 (\<lambda>newID.
         db_bind (insert_session (sn_usr_id old) (sn_cred_id old) newHash
             (now + time_Sub (sn_expires_at old) (sn_created_at old)) newID) (\<lambda>r.
         db_ok \<lparr>swt_Session = \<lparr>ses_ID = uuidToWire ''ses'' (sn_id r), ses_UsrID = uuidToWire ''usr'' (sn_usr_id old),
             ses_CredID = uuidToWire ''cred'' (sn_cred_id old), ses_CreatedAt = sn_created_at r,
             ses_ExpiresAt = sn_expires_at r, ses_RevokedAt = None\<rparr>, swt_Token = newToken\<rparr>)))))))))"

definition pg_RevokeSession :: "string \<Rightarrow> Session id_db" where
  "pg_RevokeSession sesID =
     db_bind (db_wire sesID) (\<lambda>u.
     db_bind db_clock (\<lambda>t.
     db_bind (db_map_error (not_found (IdnNotFound sesID)) (returning (db_stmt (\<lambda>_. update_ses (\<lambda>r. sn_id r = u)
         (\<lambda>r. r\<lparr>sn_revoked_at := Some (case sn_revoked_at r of None \<Rightarrow> pg_time t | Some old \<Rightarrow> old)\<rparr>))))) (\<lambda>r.
     db_ok (session_of_row r))))"

end
