(* ===== verification/IdentityPgMfa.thy ===== *)
theory IdentityPgMfa
  imports IdentityPg
begin

text \<open>
  \<open>packages/identity/postgres.go\<close>: factors, proofs, policies and personal access tokens on PostgreSQL.
\<close>

definition PendingFactorTTL :: int where
  "PendingFactorTTL = 24 * 3600 * second_ns"

definition patLastUsedCoalesceSeconds :: int where
  "patLastUsedCoalesceSeconds = 60"

text \<open>A library call that may panic (\<open>None\<close>) or fail.\<close>

definition db_lib :: "('x \<Rightarrow> idn_error) \<Rightarrow> ('x + 'a) option \<Rightarrow> 'a id_db" where
  "db_lib wrap r = (\<lambda>e n d. case r of None \<Rightarrow> None
     | Some (Inl err) \<Rightarrow> Some (Inl (PgErr (wrap err)), n, d) | Some (Inr x) \<Rightarrow> Some (Inr x, n, d))"

definition new_mfa :: "uuid \<Rightarrow> uuid \<Rightarrow> FactorType \<Rightarrow> FactorStatus \<Rightarrow> string option \<Rightarrow> gotime option \<Rightarrow> gotime \<Rightarrow> mfa_row" where
  "new_mfa newID usrU typ status ident pending now =
     \<lparr>mf_id = newID, mf_usr_id = usrU, mf_type = typ, mf_status = status, mf_identifier = ident,
      mf_totp_secret = None, mf_totp_algorithm = None, mf_totp_digits = None, mf_totp_period = None,
      mf_webauthn_public_key = None, mf_webauthn_sign_count = None, mf_webauthn_rp_id = None,
      mf_recovery_hashes = None, mf_recovery_consumed = None, mf_pending_expires_at = map_option pg_time pending,
      mf_created_at = now, mf_updated_at = now\<rparr>"

text \<open>What every method puts into the factor it returns.\<close>

definition enrolled :: "mfa_row \<Rightarrow> string \<Rightarrow> FactorType \<Rightarrow> string \<Rightarrow> FactorStatus \<Rightarrow> Factor" where
  "enrolled r usrID typ ident status =
     \<lparr>fac_ID = uuidToWire ''mfa'' (mf_id r), fac_UsrID = usrID, fac_Type = typ, fac_Identifier = ident,
      fac_Status = status, fac_Replaces = None, fac_CreatedAt = mf_created_at r, fac_UpdatedAt = mf_updated_at r,
      fac_RpID = [], fac_SignCount = 0, fac_Remaining = 0\<rparr>"

definition db_totp_secret :: "string id_db" where
  "db_totp_secret = (\<lambda>e n d. case GenerateTotpSecret (pe_rand e n) 20 of
     Inl msg \<Rightarrow> Some (Inl (PgRandom msg), Suc n, d) | Inr b \<Rightarrow> Some (Inr b, Suc n, d))"

definition pg_EnrollTotpFactor :: "id_env \<Rightarrow> string \<Rightarrow> string \<Rightarrow> TotpComputeOptions \<Rightarrow> TotpEnrollmentResult id_db" where
  "pg_EnrollTotpFactor L usrID label opts =
     db_bind (db_wire usrID) (\<lambda>usrU.
     db_bind db_totp_secret (\<lambda>secret.
     let algorithm = (if tco_Algorithm opts = [] then DefaultTotpAlgorithm else tco_Algorithm opts);
         digits = (if tco_Digits opts = 0 then DefaultTotpDigits else tco_Digits opts);
         period = (if tco_Period opts = 0 then DefaultTotpPeriod else tco_Period opts)
     in db_bind db_clock (\<lambda>t.
        db_bind db_newV7 (\<lambda>newID.
        db_bind (db_stmt (\<lambda>now. insert_mfa
          ((new_mfa newID usrU FactorTypeTotp FactorStatusPending (Some label) (Some (t + PendingFactorTTL)) now)
             \<lparr>mf_totp_secret := Some secret, mf_totp_algorithm := Some algorithm, mf_totp_digits := Some digits,
              mf_totp_period := Some period\<rparr>))) (\<lambda>r.
        db_ok \<lparr>ter_Factor = enrolled r usrID FactorTypeTotp label FactorStatusPending,
           ter_SecretB32 = base32StdEncodeNoPad secret,
           ter_OtpauthURI = TotpOtpauthURI (ev_text L) secret label ''Flametrench'' opts\<rparr>)))))"

definition pg_EnrollWebAuthnFactor ::
  "string \<Rightarrow> string \<Rightarrow> string \<Rightarrow> int \<Rightarrow> string \<Rightarrow> WebAuthnEnrollmentResult id_db" where
  "pg_EnrollWebAuthnFactor usrID credentialID publicKey signCount rpID =
     db_bind (db_wire usrID) (\<lambda>usrU.
     db_bind db_clock (\<lambda>t.
     db_bind db_newV7 (\<lambda>newID.
     db_bind (db_stmt (\<lambda>now. insert_mfa
       ((new_mfa newID usrU FactorTypeWebAuthn FactorStatusPending (Some credentialID) (Some (t + PendingFactorTTL)) now)
          \<lparr>mf_webauthn_public_key := Some publicKey, mf_webauthn_sign_count := Some signCount,
           mf_webauthn_rp_id := Some rpID\<rparr>))) (\<lambda>r.
     db_ok \<lparr>wer_Factor = (enrolled r usrID FactorTypeWebAuthn credentialID FactorStatusPending)
        \<lparr>fac_RpID := rpID, fac_SignCount := signCount\<rparr>\<rparr>))))"

fun db_hashes :: "id_env \<Rightarrow> string list \<Rightarrow> string list id_db" where
  "db_hashes L [] = db_ok []"
| "db_hashes L (c # cs) = db_bind (db_hash L c) (\<lambda>h. db_bind (db_hashes L cs) (\<lambda>hs. db_ok (h # hs)))"

definition pg_EnrollRecoveryFactor :: "id_env \<Rightarrow> string \<Rightarrow> RecoveryEnrollmentResult id_db" where
  "pg_EnrollRecoveryFactor L usrID =
     db_bind (db_wire usrID) (\<lambda>usrU.
     db_bind (db_lib IdnRandom (GenerateRecoveryCodes (ev_bytes L))) (\<lambda>codes.
     db_bind (db_hashes L codes) (\<lambda>hashes.
     db_bind db_newV7 (\<lambda>newID.
     db_bind (db_stmt (\<lambda>now. insert_mfa
       ((new_mfa newID usrU FactorTypeRecovery FactorStatusActive None None now)
          \<lparr>mf_recovery_hashes := Some hashes, mf_recovery_consumed := Some (replicate (length codes) False)\<rparr>))) (\<lambda>r.
     db_ok \<lparr>rer_Factor = (enrolled r usrID FactorTypeRecovery [] FactorStatusActive)
          \<lparr>fac_Remaining := int (length codes)\<rparr>, rer_Codes = codes\<rparr>)))))"

subsection \<open>Confirmation\<close>

definition select_mfa :: "string \<Rightarrow> uuid \<Rightarrow> mfa_row id_db" where
  "select_mfa mfaID u = db_map_error (not_found (IdnNotFound mfaID)) (first_row (\<lambda>r. mf_id r = u) db_mfa)"

definition update_mfa_row :: "uuid \<Rightarrow> (mfa_row \<Rightarrow> mfa_row) \<Rightarrow> mfa_row id_db" where
  "update_mfa_row u f = returning (db_stmt (\<lambda>now. update_mfa (\<lambda>r. mf_id r = u) (\<lambda>r. (f r)\<lparr>mf_updated_at := now\<rparr>)))"

definition pg_ConfirmTotpFactor :: "id_env \<Rightarrow> string \<Rightarrow> string \<Rightarrow> Factor id_db" where
  "pg_ConfirmTotpFactor L mfaID code =
     db_bind (db_wire mfaID) (\<lambda>u.
     inTx (
       db_bind (select_mfa mfaID u) (\<lambda>r.
       if mf_type r \<noteq> ''totp'' \<or> mf_status r \<noteq> FactorStatusPending
       then db_fail (PgErr (IdnPrecondition ''invalid_transition''))
       else
         db_bind db_clock (\<lambda>t.
         db_bind (db_lib IdnTotp (TotpVerify (ev_hmac L) (case mf_totp_secret r of None \<Rightarrow> [] | Some x \<Rightarrow> x) code
             (unix_seconds t) 1 totp_zero)) (\<lambda>ok.
         if \<not> ok then db_fail (PgErr IdnInvalidCredential)
         else
           db_bind (update_mfa_row u (\<lambda>q. q\<lparr>mf_status := FactorStatusActive, mf_pending_expires_at := None\<rparr>)) (\<lambda>q.
           db_ok (enrolled q (uuidToWire ''usr'' (mf_usr_id r)) FactorTypeTotp
             (case mf_identifier r of None \<Rightarrow> [] | Some x \<Rightarrow> x) FactorStatusActive)))))))"

definition assertion_of_row :: "string option \<Rightarrow> int \<Rightarrow> string \<Rightarrow> WebAuthnProof \<Rightarrow> WebAuthnVerifyOptions" where
  "assertion_of_row publicKey signCount rpID proof1 =
     \<lparr>wo_CosePublicKey = (case publicKey of None \<Rightarrow> [] | Some x \<Rightarrow> x), wo_StoredSignCount = signCount,
      wo_StoredRpID = rpID, wo_ExpectedChallenge = wp_ExpectedChallenge proof1,
      wo_ExpectedOrigin = wp_ExpectedOrigin proof1, wo_AuthenticatorData = wp_AuthenticatorData proof1,
      wo_ClientDataJSON = wp_ClientDataJSON proof1, wo_Signature = wp_Signature proof1,
      wo_RequireUserVerified = True, wo_RequireUserPresent = True\<rparr>"

definition pg_ConfirmWebAuthnFactor :: "id_env \<Rightarrow> string \<Rightarrow> WebAuthnProof \<Rightarrow> Factor id_db" where
  "pg_ConfirmWebAuthnFactor L mfaID proof1 =
     db_bind (db_wire mfaID) (\<lambda>u.
     inTx (
       db_bind (select_mfa mfaID u) (\<lambda>r.
       db_bind (scan_value (mf_identifier r)) (\<lambda>credID.
       db_bind (scan_value (mf_webauthn_sign_count r)) (\<lambda>signCount.
       db_bind (scan_value (mf_webauthn_rp_id r)) (\<lambda>rpID.
       if mf_type r \<noteq> ''webauthn'' \<or> mf_status r \<noteq> FactorStatusPending
       then db_fail (PgErr (IdnPrecondition ''invalid_transition''))
       else if credID \<noteq> wp_CredentialID proof1 then db_fail (PgErr (IdnPrecondition ''cred_id_mismatch''))
       else
         db_bind (db_lib IdnWebAuthn (WebAuthnVerifyAssertion (ev_wa L)
             (assertion_of_row (mf_webauthn_public_key r) signCount rpID proof1))) (\<lambda>newCount.
         db_bind (update_mfa_row u (\<lambda>q. q\<lparr>mf_status := FactorStatusActive, mf_webauthn_sign_count := Some newCount,
             mf_pending_expires_at := None\<rparr>)) (\<lambda>q.
         db_ok ((enrolled q (uuidToWire ''usr'' (mf_usr_id r)) FactorTypeWebAuthn credID FactorStatusActive)
           \<lparr>fac_RpID := rpID, fac_SignCount := newCount\<rparr>)))))))))"

subsection \<open>Lookup and transitions\<close>

definition factor_of_row :: "mfa_row \<Rightarrow> Factor" where
  "factor_of_row r = \<lparr>fac_ID = uuidToWire ''mfa'' (mf_id r), fac_UsrID = uuidToWire ''usr'' (mf_usr_id r),
     fac_Type = mf_type r, fac_Identifier = (case mf_identifier r of None \<Rightarrow> [] | Some x \<Rightarrow> x),
     fac_Status = mf_status r, fac_Replaces = None, fac_CreatedAt = mf_created_at r, fac_UpdatedAt = mf_updated_at r,
     fac_RpID = (case mf_webauthn_rp_id r of None \<Rightarrow> [] | Some x \<Rightarrow> x),
     fac_SignCount = (case mf_webauthn_sign_count r of None \<Rightarrow> 0 | Some n \<Rightarrow> n),
     fac_Remaining = (if mf_type r = FactorTypeRecovery
       then int (length (filter Not (case mf_recovery_consumed r of None \<Rightarrow> [] | Some cs \<Rightarrow> cs))) else 0)\<rparr>"

definition loadFactor :: "uuid \<Rightarrow> Factor id_db" where
  "loadFactor u = db_bind (select_mfa (uuidToWire ''mfa'' u) u) (\<lambda>r. db_ok (factor_of_row r))"

definition pg_GetFactor :: "string \<Rightarrow> Factor id_db" where
  "pg_GetFactor mfaID = db_bind (db_wire mfaID) loadFactor"

fun load_factors :: "uuid list \<Rightarrow> Factor list id_db" where
  "load_factors [] = db_ok []"
| "load_factors (u # us) = db_bind (loadFactor u) (\<lambda>f. db_bind (load_factors us) (\<lambda>fs. db_ok (f # fs)))"

definition pg_ListFactorsForUser :: "string \<Rightarrow> Factor list id_db" where
  "pg_ListFactorsForUser usrID =
     db_bind (db_wire usrID) (\<lambda>u.
     db_bind (db_scan_rows False mf_id mf_created_at (\<lambda>d. filter (\<lambda>r. mf_usr_id r = u) (db_mfa d))) (\<lambda>rows.
     load_factors (map mf_id rows)))"

definition transFactor :: "string \<Rightarrow> FactorStatus \<Rightarrow> Factor id_db" where
  "transFactor mfaID to =
     db_bind (db_wire mfaID) (\<lambda>u.
     inTx (
       db_bind (select_mfa mfaID u) (\<lambda>r.
       if mf_status r = FactorStatusRevoked then db_fail (PgErr IdnAlreadyTerminal)
       else db_bind (update_mfa_row u (\<lambda>q. q\<lparr>mf_status := to\<rparr>)) (\<lambda>q. db_ok (factor_of_row q)))))"

definition pg_SuspendFactor :: "string \<Rightarrow> Factor id_db" where
  "pg_SuspendFactor mfaID = transFactor mfaID FactorStatusSuspended"

definition pg_ReinstateFactor :: "string \<Rightarrow> Factor id_db" where
  "pg_ReinstateFactor mfaID = transFactor mfaID FactorStatusActive"

definition pg_RevokeFactor :: "string \<Rightarrow> Factor id_db" where
  "pg_RevokeFactor mfaID = transFactor mfaID FactorStatusRevoked"

subsection \<open>Proofs\<close>

definition active_factor :: "uuid \<Rightarrow> FactorType \<Rightarrow> mfa_row \<Rightarrow> bool" where
  "active_factor usrU typ r \<longleftrightarrow> mf_usr_id r = usrU \<and> mf_type r = typ \<and> mf_status r = ''active''"

definition vfyTotp :: "id_env \<Rightarrow> uuid \<Rightarrow> TotpProof \<Rightarrow> MfaVerifyResult id_db" where
  "vfyTotp L usrU p =
     db_bind (db_map_error (not_found (IdnNotFound [])) (first_row (active_factor usrU ''totp'') db_mfa)) (\<lambda>r.
     db_bind db_clock (\<lambda>t.
     db_bind (db_lib IdnTotp (TotpVerify (ev_hmac L) (case mf_totp_secret r of None \<Rightarrow> [] | Some x \<Rightarrow> x) (tp_Code p)
         (unix_seconds t) 1 totp_zero)) (\<lambda>ok.
     if \<not> ok then db_fail (PgErr IdnInvalidCredential)
     else db_bind db_clock (\<lambda>now. db_ok \<lparr>mvr_MfaID = uuidToWire ''mfa'' (mf_id r), mvr_Type = FactorTypeTotp,
        mvr_MfaVerifiedAt = now, mvr_NewSignCount = None\<rparr>))))"

definition vfyRecovery :: "id_env \<Rightarrow> uuid \<Rightarrow> RecoveryProof \<Rightarrow> MfaVerifyResult id_db" where
  "vfyRecovery L usrU p =
     (let candidate = NormalizeRecoveryInput (ev_text L) (rp_Code p)
      in if \<not> IsValidRecoveryCode candidate then db_fail (PgErr IdnInvalidCredential)
         else inTx (
           db_bind (db_map_error (not_found (IdnNotFound [])) (first_row (active_factor usrU ''recovery'') db_mfa)) (\<lambda>r.
           let hashes = (case mf_recovery_hashes r of None \<Rightarrow> [] | Some hs \<Rightarrow> hs);
               consumed = (case mf_recovery_consumed r of None \<Rightarrow> [] | Some cs \<Rightarrow> cs)
           in db_bind (db_lib IdnHash (match_code (ev_idkey L) candidate 0 hashes consumed)) (\<lambda>hit.
              case hit of
                None \<Rightarrow> db_fail (PgErr IdnInvalidCredential)
              | Some i \<Rightarrow>
                  db_bind (update_mfa_row (mf_id r) (\<lambda>q. q\<lparr>mf_recovery_consumed := Some (consumed[i := True])\<rparr>)) (\<lambda>_.
                  db_bind db_clock (\<lambda>now. db_ok \<lparr>mvr_MfaID = uuidToWire ''mfa'' (mf_id r), mvr_Type = FactorTypeRecovery,
                     mvr_MfaVerifiedAt = now, mvr_NewSignCount = None\<rparr>))))))"

definition vfyWebAuthn :: "id_env \<Rightarrow> uuid \<Rightarrow> WebAuthnProof \<Rightarrow> MfaVerifyResult id_db" where
  "vfyWebAuthn L usrU p =
     inTx (
       db_bind (db_map_error (not_found (IdnNotFound [])) (first_row (\<lambda>r. active_factor usrU ''webauthn'' r \<and>
           mf_identifier r = Some (wp_CredentialID p)) db_mfa)) (\<lambda>r.
       db_bind (scan_value (mf_webauthn_sign_count r)) (\<lambda>signCount.
       db_bind (scan_value (mf_webauthn_rp_id r)) (\<lambda>rpID.
       db_bind (db_lib IdnWebAuthn (WebAuthnVerifyAssertion (ev_wa L)
           (assertion_of_row (mf_webauthn_public_key r) signCount rpID p))) (\<lambda>newCount.
       db_bind (update_mfa_row (mf_id r) (\<lambda>q. q\<lparr>mf_webauthn_sign_count := Some newCount\<rparr>)) (\<lambda>_.
       db_bind db_clock (\<lambda>now. db_ok \<lparr>mvr_MfaID = uuidToWire ''mfa'' (mf_id r), mvr_Type = FactorTypeWebAuthn,
          mvr_MfaVerifiedAt = now, mvr_NewSignCount = Some newCount\<rparr>)))))))"

definition pg_VerifyMfa :: "id_env \<Rightarrow> string \<Rightarrow> MfaProof \<Rightarrow> MfaVerifyResult id_db" where
  "pg_VerifyMfa L usrID proof1 =
     db_bind (db_wire usrID) (\<lambda>usrU.
     case mp_Totp proof1 of
       Some t \<Rightarrow> vfyTotp L usrU t
     | None \<Rightarrow>
         (case mp_Recovery proof1 of
            Some r \<Rightarrow> vfyRecovery L usrU r
          | None \<Rightarrow>
              (case mp_WebAuthn proof1 of Some w \<Rightarrow> vfyWebAuthn L usrU w | None \<Rightarrow> db_fail (PgErr IdnEmptyProof))))"

subsection \<open>Policies\<close>

definition pg_GetUserMfaPolicy :: "string \<Rightarrow> UserMfaPolicy id_db" where
  "pg_GetUserMfaPolicy usrID =
     db_bind (db_wire usrID) (\<lambda>u.
     db_bind (db_query (\<lambda>d. find (\<lambda>p. po_usr_id p = u) (db_policy d))) (\<lambda>hit.
     case hit of
       None \<Rightarrow> db_bind db_clock (\<lambda>now. db_ok \<lparr>ump_UsrID = usrID, ump_Required = False, ump_GraceUntil = None,
                 ump_UpdatedAt = now\<rparr>)
     | Some p \<Rightarrow> db_ok \<lparr>ump_UsrID = usrID, ump_Required = po_required p, ump_GraceUntil = po_grace_until p,
                 ump_UpdatedAt = po_updated_at p\<rparr>))"

definition pg_SetUserMfaPolicy :: "string \<Rightarrow> bool \<Rightarrow> gotime option \<Rightarrow> UserMfaPolicy id_db" where
  "pg_SetUserMfaPolicy usrID required graceUntil =
     db_bind (db_wire usrID) (\<lambda>u.
     db_bind (db_stmt (\<lambda>now. upsert_policy \<lparr>po_usr_id = u, po_required = required,
         po_grace_until = map_option pg_time graceUntil, po_updated_at = now\<rparr>)) (\<lambda>p.
     db_ok \<lparr>ump_UsrID = usrID, ump_Required = po_required p, ump_GraceUntil = po_grace_until p,
        ump_UpdatedAt = po_updated_at p\<rparr>))"

subsection \<open>Personal access tokens\<close>

definition pat_of_row :: "string \<Rightarrow> string \<Rightarrow> PatStatus \<Rightarrow> pat_row \<Rightarrow> PersonalAccessToken" where
  "pat_of_row patID usrID status r = \<lparr>pat_ID = patID, pat_UsrID = usrID, pat_Name = pa_name r, pat_Scope = pa_scope r,
     pat_Status = status, pat_ExpiresAt = pa_expires_at r, pat_LastUsedAt = pa_last_used_at r,
     pat_RevokedAt = pa_revoked_at r, pat_CreatedAt = pa_created_at r, pat_UpdatedAt = pa_updated_at r\<rparr>"

definition pg_CreatePat :: "id_env \<Rightarrow> CreatePatInput \<Rightarrow> CreatePatResult id_db" where
  "pg_CreatePat L i =
     db_bind (db_wire (cpi_UsrID i)) (\<lambda>usrU.
     if length (cpi_Name i) < 1 \<or> length (cpi_Name i) > 120 then db_fail (PgErr (IdnPrecondition ''invalid_name''))
     else
       db_bind db_clock (\<lambda>now.
       if (case cpi_ExpiresAt i of None \<Rightarrow> False | Some x \<Rightarrow> x > now + wrap64 (PatMaxLifetimeSeconds * second_ns))
       then db_fail (PgErr (IdnPrecondition ''expires_too_late''))
       else
         db_bind db_newV7 (\<lambda>newID.
         let patWire = uuidToWire ''pat'' newID
         in db_bind (db_random 32) (\<lambda>secretBytes.
            let secret = RawURLEncoding_EncodeToString secretBytes
            in db_bind (db_hash L secret) (\<lambda>hash.
               db_bind (db_stmt (\<lambda>now. insert_pat \<lparr>pa_id = newID, pa_usr_id = usrU, pa_name = cpi_Name i,
                   pa_scope = cpi_Scope i, pa_secret_hash = hash, pa_expires_at = map_option pg_time (cpi_ExpiresAt i),
                   pa_last_used_at = None, pa_revoked_at = None, pa_created_at = now, pa_updated_at = now\<rparr>)) (\<lambda>r.
               db_ok \<lparr>cpr_Pat = pat_of_row patWire (cpi_UsrID i) PatStatusActive r,
                  cpr_Token = patWire @ ''_'' @ secret\<rparr>))))))"

definition derivePatStatus :: "gotime option \<Rightarrow> gotime option \<Rightarrow> gotime \<Rightarrow> PatStatus" where
  "derivePatStatus revokedAt expiresAt now =
     (if revokedAt \<noteq> None then PatStatusRevoked
      else if (case expiresAt of None \<Rightarrow> False | Some x \<Rightarrow> \<not> now < x) then PatStatusExpired
      else PatStatusActive)"

definition pat_at :: "gotime \<Rightarrow> pat_row \<Rightarrow> PersonalAccessToken" where
  "pat_at now r = pat_of_row (uuidToWire ''pat'' (pa_id r)) (uuidToWire ''usr'' (pa_usr_id r))
     (derivePatStatus (pa_revoked_at r) (pa_expires_at r) now) r"

definition pg_GetPat :: "string \<Rightarrow> PersonalAccessToken id_db" where
  "pg_GetPat patID =
     db_bind (db_wire patID) (\<lambda>u.
     db_bind (db_map_error (not_found (IdnNotFound patID)) (first_row (\<lambda>r. pa_id r = u) db_pat)) (\<lambda>r.
     db_bind db_clock (\<lambda>now. db_ok (pat_at now r))))"

definition pg_ListPatsForUser :: "string \<Rightarrow> ListPatsOptions \<Rightarrow> PersonalAccessToken page id_db" where
  "pg_ListPatsForUser usrID opts =
     db_bind (db_wire usrID) (\<lambda>u.
     let limit = page_limit (lpo_Limit opts)
     in db_bind (db_cursor (lpo_Cursor opts)) (\<lambda>cur.
        db_bind (db_select_page pa_id pa_created_at (\<lambda>r. pa_usr_id r = u) cur limit db_pat) (\<lambda>rows.
        db_bind db_clock (\<lambda>now. db_ok (page_of pat_ID limit (map (pat_at now) rows))))))"

text \<open>The update of the last use, whose error is dropped.\<close>

definition ignore_error :: "'a id_db \<Rightarrow> unit id_db" where
  "ignore_error m = (\<lambda>e n d. case m e n d of None \<Rightarrow> None | Some (_, n', d') \<Rightarrow> Some (Inr (), n', d'))"

definition touch_pat :: "uuid \<Rightarrow> gotime \<Rightarrow> unit id_db" where
  "touch_pat patU now =
     (let threshold = now - wrap64 (patLastUsedCoalesceSeconds * second_ns)
      in ignore_error (db_stmt (\<lambda>stamp. update_pat (\<lambda>r. pa_id r = patU \<and> pa_revoked_at r = None \<and>
           (case pa_last_used_at r of None \<Rightarrow> True | Some t \<Rightarrow> t < pg_time threshold))
         (\<lambda>r. r\<lparr>pa_last_used_at := Some (pg_time now), pa_updated_at := stamp\<rparr>))))"

definition pg_VerifyPatToken :: "id_env \<Rightarrow> string \<Rightarrow> VerifiedPat id_db" where
  "pg_VerifyPatToken L token =
     (if \<not> IsStructurallyValidPatToken token then db_fail (PgErr IdnInvalidPatToken)
      else case split_n 2 (CHR ''_'') token of
        [p0, p1, secret] \<Rightarrow>
          let patWire = p0 @ ''_'' @ p1
          in if length secret > PatMaxSecretLength then db_fail (PgErr IdnInvalidPatToken)
             else
               db_bind (db_map_error (\<lambda>_. PgErr IdnInvalidPatToken) (db_wire patWire)) (\<lambda>patU.
               db_bind (db_map_error (not_found IdnInvalidPatToken) (first_row (\<lambda>r. pa_id r = patU) db_pat)) (\<lambda>r.
               if pa_revoked_at r \<noteq> None then db_fail (PgErr (IdnPatRevoked patWire))
               else
                 db_bind db_clock (\<lambda>now.
                 if (case pa_expires_at r of None \<Rightarrow> False | Some x \<Rightarrow> \<not> now < x)
                 then db_fail (PgErr (IdnPatExpired patWire))
                 else
                   (case VerifyPasswordHash (ev_idkey L) (pa_secret_hash r) secret of
                      Inl err \<Rightarrow> db_fail (PgErr (IdnHash err))
                    | Inr ok \<Rightarrow>
                        if \<not> ok then db_fail (PgErr IdnInvalidPatToken)
                        else
                          db_bind (touch_pat patU now) (\<lambda>_.
                          db_ok \<lparr>vp_PatID = patWire, vp_UsrID = uuidToWire ''usr'' (pa_usr_id r),
                             vp_Scope = pa_scope r\<rparr>)))))
      | _ \<Rightarrow> db_fail (PgErr IdnInvalidPatToken))"

definition pg_RevokePat :: "string \<Rightarrow> PersonalAccessToken id_db" where
  "pg_RevokePat patID =
     db_bind (db_wire patID) (\<lambda>u.
     db_bind db_clock (\<lambda>t.
     db_bind (db_map_error (not_found (IdnNotFound patID)) (returning (db_stmt (\<lambda>now. update_pat (\<lambda>r. pa_id r = u)
         (\<lambda>r. r\<lparr>pa_revoked_at := Some (case pa_revoked_at r of None \<Rightarrow> pg_time t | Some old \<Rightarrow> old),
                pa_updated_at := now\<rparr>))))) (\<lambda>r.
     db_bind (first_row (\<lambda>q. pa_id q = u) db_pat) (\<lambda>q.
     db_ok (pat_of_row patID (uuidToWire ''usr'' (pa_usr_id q)) PatStatusRevoked r)))))"

end
