(* ===== verification/PgMethods.thy ===== *)
theory PgMethods
  imports PgTables AuthzPg TenancyPg IdentityPgMfa
begin

text \<open>
  Every method of the three PostgreSQL stores keeps the database good.
\<close>

lemma good_typed:
  "r0 \<in> set (db_usr d) \<Longrightarrow> db_good d \<Longrightarrow> usr_typed r0"
  "r1 \<in> set (db_org d) \<Longrightarrow> db_good d \<Longrightarrow> org_typed r1"
  "r2 \<in> set (db_mem d) \<Longrightarrow> db_good d \<Longrightarrow> mem_typed r2"
  "r3 \<in> set (db_inv d) \<Longrightarrow> db_good d \<Longrightarrow> inv_typed r3"
  "r4 \<in> set (db_tup d) \<Longrightarrow> db_good d \<Longrightarrow> tup_typed r4"
  "r5 \<in> set (db_shr d) \<Longrightarrow> db_good d \<Longrightarrow> shr_typed r5"
  "r6 \<in> set (db_cred d) \<Longrightarrow> db_good d \<Longrightarrow> cred_typed r6"
  "r7 \<in> set (db_ses d) \<Longrightarrow> db_good d \<Longrightarrow> ses_typed r7"
  "r8 \<in> set (db_mfa d) \<Longrightarrow> db_good d \<Longrightarrow> mfa_typed r8"
  "r9 \<in> set (db_policy d) \<Longrightarrow> db_good d \<Longrightarrow> policy_typed r9"
  "r10 \<in> set (db_pat d) \<Longrightarrow> db_good d \<Longrightarrow> pat_typed r10"
  by (auto simp: db_good_def db_typed_def list_all_iff)

lemmas typed_defs = usr_typed_def org_typed_def mem_typed_def inv_typed_def tup_typed_def shr_typed_def cred_typed_def ses_typed_def mfa_typed_def policy_typed_def pat_typed_def

lemma keeps_delete_tup [db_rules]:
  assumes "\<And>n. Q n"
  shows "keeps db_good Q (db_stmt (\<lambda>now d. Inr (delete_tup (P now) d)))"
proof (rule keeps_stmt)
  fix now d x d'
  assume "db_good d" "Inr (delete_tup (P now) d) = (Inr (x, d') :: pg_error + nat \<times> pg_db)"
  moreover have "table_ok tup_uniq tup_chk (tup_fk d) tup_typed (sql_delete (P now) (db_tup d))"
    using tup_table.table_inv [OF \<open>db_good d\<close>]
    by (auto simp: table_ok_def sql_delete_def list_all_iff tup_uniq_def distinct_map intro: inj_on_subset)
  moreover have "refs_le d d'" using calculation(2) by (auto simp: delete_tup_def refs_le_def)
  ultimately show "db_good d' \<and> Q x"
    using assms by (auto simp: delete_tup_def db_good_tables elim!: table_ok_mono intro: fk_mono)
qed

lemma keeps_upsert_policy [db_rules]:
  assumes "\<And>now. policy_typed (row now)" and "\<And>now. Q (row now)"
  shows "keeps db_good Q (db_stmt (\<lambda>now. upsert_policy (row now)))"
proof (rule keeps_stmt)
  fix now d x d'
  assume *: "db_good d" "upsert_policy (row now) d = Inr (x, d')"
  show "db_good d' \<and> Q x"
  proof (cases "list_ex (\<lambda>q. po_usr_id q = po_usr_id (row now)) (db_policy d)")
    case False
    then show ?thesis using * assms by (auto simp: upsert_policy_def dest: policy_table.insert_inv)
  next
    case True
    let ?t = "map (\<lambda>q. if po_usr_id q = po_usr_id (row now) then row now else q) (db_policy d)"
    have "map po_usr_id ?t = map po_usr_id (db_policy d)" by simp
    moreover have "table_ok policy_uniq (\<lambda>_. True) (policy_fk d) policy_typed (db_policy d)"
      using policy_table.table_inv [OF *(1)] .
    ultimately have "table_ok policy_uniq (\<lambda>_. True) (policy_fk d) policy_typed ?t"
      using True assms(1) by (auto simp: table_ok_def policy_uniq_def list_all_iff list_ex_iff policy_fk_def simp del: map_map)
    moreover have "po_usr_id ` set (db_policy d) \<subseteq> po_usr_id ` set ?t"
      unfolding set_map [symmetric] \<open>map po_usr_id ?t = _\<close> ..
    ultimately show ?thesis using policy_table.replace_inv [OF *(1)] True *(2) assms(2) by (auto simp: upsert_policy_def)
  qed
qed

subsection \<open>Authorization\<close>

lemma pg_CreateTuple_keeps: "keeps db_good (\<lambda>_. True) (pg_CreateTuple i)"
  unfolding pg_CreateTuple_def loadShare_def verify_share_tx_def listTuples_def by (intro db_rules ballI) (auto simp: typed_defs dest!: good_typed)

lemma pg_DeleteTuple_keeps: "keeps db_good (\<lambda>_. True) (pg_DeleteTuple tupleID)"
  unfolding pg_DeleteTuple_def loadShare_def verify_share_tx_def listTuples_def by (intro db_rules ballI) (auto simp: typed_defs dest!: good_typed)

lemma pg_CascadeRevokeSubject_keeps: "keeps db_good (\<lambda>_. True) (pg_CascadeRevokeSubject subjectType subjectID)"
  unfolding pg_CascadeRevokeSubject_def loadShare_def verify_share_tx_def listTuples_def by (intro db_rules ballI) (auto simp: typed_defs dest!: good_typed)

lemma pg_GetTuple_keeps: "keeps db_good (\<lambda>_. True) (pg_GetTuple tupleID)"
  unfolding pg_GetTuple_def loadShare_def verify_share_tx_def listTuples_def by (intro db_rules ballI) (auto simp: typed_defs dest!: good_typed)

lemma pg_ListTuplesBySubject_keeps: "keeps db_good (\<lambda>_. True) (pg_ListTuplesBySubject subjectType subjectID opts)"
  unfolding pg_ListTuplesBySubject_def loadShare_def verify_share_tx_def listTuples_def by (intro db_rules ballI) (auto simp: typed_defs dest!: good_typed)

lemma pg_ListTuplesByObject_keeps: "keeps db_good (\<lambda>_. True) (pg_ListTuplesByObject objectType objectID opts)"
  unfolding pg_ListTuplesByObject_def loadShare_def verify_share_tx_def listTuples_def by (intro db_rules ballI) (auto simp: typed_defs dest!: good_typed)

lemma pg_CreateShare_keeps: "keeps db_good (\<lambda>_. True) (pg_CreateShare i)"
  unfolding pg_CreateShare_def loadShare_def verify_share_tx_def listTuples_def by (intro db_rules ballI) (auto simp: typed_defs dest!: good_typed)

lemma pg_GetShare_keeps: "keeps db_good (\<lambda>_. True) (pg_GetShare shareID)"
  unfolding pg_GetShare_def loadShare_def verify_share_tx_def listTuples_def by (intro db_rules ballI) (auto simp: typed_defs dest!: good_typed)

lemma pg_VerifyShareToken_keeps: "keeps db_good (\<lambda>_. True) (pg_VerifyShareToken token)"
  unfolding pg_VerifyShareToken_def loadShare_def verify_share_tx_def listTuples_def by (intro db_rules ballI) (auto simp: typed_defs dest!: good_typed)

lemma pg_RevokeShare_keeps: "keeps db_good (\<lambda>_. True) (pg_RevokeShare shareID)"
  unfolding pg_RevokeShare_def loadShare_def verify_share_tx_def listTuples_def by (intro db_rules ballI) (auto simp: typed_defs dest!: good_typed)

lemma pg_ListSharesForObject_keeps: "keeps db_good (\<lambda>_. True) (pg_ListSharesForObject objectType objectID opts)"
  unfolding pg_ListSharesForObject_def loadShare_def verify_share_tx_def listTuples_def by (intro db_rules ballI) (auto simp: typed_defs dest!: good_typed)

subsection \<open>Tenancy\<close>

lemma keeps_scan_inv [db_rules]: "(\<And>x. Q x) \<Longrightarrow> keeps I Q (scan_inv r)"
  unfolding scan_inv_def by (intro db_rules) auto

lemma keeps_scan_invs [db_rules]: "(\<And>x. Q x) \<Longrightarrow> keeps I Q (scan_invs rows)"
proof (induction rows arbitrary: Q)
  case (Cons r rows)
  then show ?case unfolding scan_invs.simps by (intro db_rules Cons.IH)
qed (auto intro: db_rules)

lemma keeps_insert_member [db_rules]:
  assumes "canonical usrU" "canonical orgU" "opt_all canonical replaced" "opt_all canonical invBy"
    and "\<And>r. mem_typed r \<Longrightarrow> Q r"
  shows "keeps db_good Q (insert_member usrU orgU role replaced invBy)"
  unfolding insert_member_def new_mem_def by (intro db_rules) (use assms in \<open>auto simp: mem_typed_def\<close>)

lemma keeps_insert_user_tuple [db_rules]:
  assumes "canonical usrU" "canonical objU" and "\<And>r. Q r"
  shows "keeps db_good Q (insert_user_tuple usrU rel ot objU)"
  unfolding insert_user_tuple_def by (intro db_rules) (use assms in \<open>auto simp: tup_typed_def\<close>)

lemma keeps_delete_role_tuple [db_rules]: "(\<And>n. Q n) \<Longrightarrow> keeps db_good Q (delete_role_tuple usrU role orgU)"
  unfolding delete_role_tuple_def by (intro db_rules)

lemma keeps_revoke_mem_row [db_rules]: "(\<And>rows. Q rows) \<Longrightarrow> keeps db_good Q (revoke_mem_row u)"
  unfolding revoke_mem_row_def by (intro db_rules) (auto simp: mem_typed_def)

lemma keeps_select_mem [db_rules]: "(\<And>r. mem_typed r \<Longrightarrow> mr_id r = u \<Longrightarrow> Q r) \<Longrightarrow> keeps db_good Q (select_mem u)"
  unfolding select_mem_def by (intro db_rules) (auto dest: good_typed)

lemma keeps_select_active [db_rules]: "(\<And>r. mem_typed r \<Longrightarrow> Q r) \<Longrightarrow> keeps db_good Q (select_active orgU usrU)"
  unfolding select_active_def by (intro db_rules) (auto dest: good_typed)

lemma keeps_countActiveOwners [db_rules]: "(\<And>n. Q n) \<Longrightarrow> keeps I Q (countActiveOwners orgU)"
  unfolding countActiveOwners_def by (intro db_rules)

lemma keeps_changeRoleLocked [db_rules]:
  assumes "canonical oldMem" "canonical usrU" "canonical orgU" and "Q ()"
  shows "keeps db_good Q (changeRoleLocked oldMem usrU orgU oldRole newRole)"
  unfolding changeRoleLocked_def by (intro db_rules) (use assms in auto)

lemma keeps_insert_pre_tuples [db_rules]:
  "canonical acceptingU \<Longrightarrow> (\<And>ts. Q ts) \<Longrightarrow> keeps db_good Q (insert_pre_tuples acceptingU pts)"
proof (induction pts arbitrary: Q)
  case (Cons pt pts)
  then show ?case unfolding insert_pre_tuples.simps by (intro db_rules Cons.IH)
qed (auto intro: db_rules)

lemma keeps_db_wire_value_opt [db_rules]:
  "(\<And>c. opt_all canonical c \<Longrightarrow> Q c) \<Longrightarrow> keeps I Q (db_wire_value_opt w)"
  unfolding db_wire_value_opt_def by (intro db_rules) auto

lemmas tenancy_steps = accept_invitation_def check_slug_def select_org_def transOrg_def lock_member_def not_sole_owner_def transMem_def
  remove_member_def promote_target_def select_inv_def accepting_user_def no_active_membership_def
  close_invitation_def pg_SuspendOrg_def pg_ReinstateOrg_def pg_RevokeOrg_def pg_SuspendMembership_def
  pg_ReinstateMembership_def expire_row_def

lemma pg_CreateOrg_keeps: "keeps db_good (\<lambda>_. True) (pg_CreateOrg creator opts)"
  unfolding pg_CreateOrg_def tenancy_steps by (intro db_rules ballI) (auto simp: typed_defs dest!: good_typed)

lemma pg_GetOrg_keeps: "keeps db_good (\<lambda>_. True) (pg_GetOrg orgID)"
  unfolding pg_GetOrg_def tenancy_steps by (intro db_rules ballI) (auto simp: typed_defs dest!: good_typed)

lemma pg_UpdateOrg_keeps: "keeps db_good (\<lambda>_. True) (pg_UpdateOrg orgID i)"
  unfolding pg_UpdateOrg_def tenancy_steps by (intro db_rules ballI) (auto simp: typed_defs dest!: good_typed)

lemma pg_SuspendOrg_keeps: "keeps db_good (\<lambda>_. True) (pg_SuspendOrg orgID)"
  unfolding pg_SuspendOrg_def tenancy_steps by (intro db_rules ballI) (auto simp: typed_defs dest!: good_typed)

lemma pg_ReinstateOrg_keeps: "keeps db_good (\<lambda>_. True) (pg_ReinstateOrg orgID)"
  unfolding pg_ReinstateOrg_def tenancy_steps by (intro db_rules ballI) (auto simp: typed_defs dest!: good_typed)

lemma pg_RevokeOrg_keeps: "keeps db_good (\<lambda>_. True) (pg_RevokeOrg orgID)"
  unfolding pg_RevokeOrg_def tenancy_steps by (intro db_rules ballI) (auto simp: typed_defs dest!: good_typed)

lemma pg_ListOrgs_keeps: "keeps db_good (\<lambda>_. True) (pg_ListOrgs opts)"
  unfolding pg_ListOrgs_def by (intro db_rules ballI) (auto simp: typed_defs)

lemma pg_AddMember_keeps: "keeps db_good (\<lambda>_. True) (pg_AddMember orgID usrID role invitedBy)"
  unfolding pg_AddMember_def tenancy_steps by (intro db_rules ballI) (auto simp: typed_defs dest!: good_typed)

lemma pg_GetMembership_keeps: "keeps db_good (\<lambda>_. True) (pg_GetMembership memID)"
  unfolding pg_GetMembership_def tenancy_steps by (intro db_rules ballI) (auto simp: typed_defs dest!: good_typed)

lemma pg_ListMembers_keeps: "keeps db_good (\<lambda>_. True) (pg_ListMembers orgID opts)"
  unfolding pg_ListMembers_def tenancy_steps by (intro db_rules ballI) (auto simp: typed_defs dest!: good_typed)

lemma pg_ChangeRole_keeps: "keeps db_good (\<lambda>_. True) (pg_ChangeRole memID newRole)"
  unfolding pg_ChangeRole_def tenancy_steps by (intro db_rules ballI) (auto simp: typed_defs dest!: good_typed)

lemma pg_SuspendMembership_keeps: "keeps db_good (\<lambda>_. True) (pg_SuspendMembership memID)"
  unfolding pg_SuspendMembership_def tenancy_steps by (intro db_rules ballI) (auto simp: typed_defs dest!: good_typed)

lemma pg_ReinstateMembership_keeps: "keeps db_good (\<lambda>_. True) (pg_ReinstateMembership memID)"
  unfolding pg_ReinstateMembership_def tenancy_steps by (intro db_rules ballI) (auto simp: typed_defs dest!: good_typed)

lemma pg_SelfLeave_keeps: "keeps db_good (\<lambda>_. True) (pg_SelfLeave memID transferTo)"
  unfolding pg_SelfLeave_def tenancy_steps by (intro db_rules ballI) (auto simp: typed_defs dest!: good_typed)

lemma pg_AdminRemove_keeps: "keeps db_good (\<lambda>_. True) (pg_AdminRemove memID adminUsrID)"
  unfolding pg_AdminRemove_def tenancy_steps by (intro db_rules ballI) (auto simp: typed_defs dest!: good_typed)

lemma pg_TransferOwnership_keeps: "keeps db_good (\<lambda>_. True) (pg_TransferOwnership orgID fromMemID toMemID)"
  unfolding pg_TransferOwnership_def tenancy_steps by (intro db_rules ballI) (auto simp: typed_defs dest!: good_typed)

lemma pg_CreateInvitation_keeps: "keeps db_good (\<lambda>_. True) (pg_CreateInvitation orgID identifier role invitedBy expiresAt preTuples)"
  unfolding pg_CreateInvitation_def by (intro db_rules ballI) (auto simp: typed_defs)

lemma pg_GetInvitation_keeps: "keeps db_good (\<lambda>_. True) (pg_GetInvitation invID)"
  unfolding pg_GetInvitation_def tenancy_steps by (intro db_rules ballI) (auto simp: typed_defs dest!: good_typed)

lemma pg_ListInvitations_keeps: "keeps db_good (\<lambda>_. True) (pg_ListInvitations orgID opts)"
  unfolding pg_ListInvitations_def tenancy_steps by (intro db_rules ballI) (auto simp: typed_defs dest!: good_typed)

lemma pg_AcceptInvitation_keeps: "keeps db_good (\<lambda>_. True) (pg_AcceptInvitation invID opts)"
  unfolding pg_AcceptInvitation_def tenancy_steps by (intro db_rules ballI) (auto simp: typed_defs dest!: good_typed)

lemma pg_DeclineInvitation_keeps: "keeps db_good (\<lambda>_. True) (pg_DeclineInvitation invID asUsrID)"
  unfolding pg_DeclineInvitation_def tenancy_steps
  by (intro db_rules ballI) (auto simp: typed_defs dest!: good_typed split: option.splits)

lemma pg_RevokeInvitation_keeps: "keeps db_good (\<lambda>_. True) (pg_RevokeInvitation invID adminUsrID)"
  unfolding pg_RevokeInvitation_def tenancy_steps by (intro db_rules ballI) (auto simp: typed_defs dest!: good_typed)

lemma pg_ListTuplesForSubject_keeps: "keeps db_good (\<lambda>_. True) (pg_ListTuplesForSubject subjectType subjectID)"
  unfolding pg_ListTuplesForSubject_def tenancy_steps by (intro db_rules ballI) (auto simp: typed_defs dest!: good_typed)

lemma pg_ListTuplesForObject_keeps: "keeps db_good (\<lambda>_. True) (pg_ListTuplesForObject objectType objectID relation)"
  unfolding pg_ListTuplesForObject_def tenancy_steps by (intro db_rules ballI) (auto simp: typed_defs dest!: good_typed)

subsection \<open>Identity\<close>

lemma keeps_must_wire [db_rules]: "(\<And>u. canonical u \<Longrightarrow> Q u) \<Longrightarrow> keeps I Q (db_must_wire wid)"
  by (rule keepsI) (auto simp: db_must_wire_def env_ok_def split: sum.splits dest: wireToUUID_canonical)

lemma keeps_hash [db_rules]: "(\<And>h. Q h) \<Longrightarrow> keeps I Q (db_hash L password)"
  by (rule keepsI) (auto simp: db_hash_def split: sum.splits)

lemma keeps_scan_value [db_rules]: "(\<And>v. x = Some v \<Longrightarrow> Q v) \<Longrightarrow> keeps I Q (scan_value x)"
  unfolding scan_value_def by (intro db_rules) auto

lemma keeps_lib [db_rules]: "(\<And>x. r = Some (Inr x) \<Longrightarrow> Q x) \<Longrightarrow> keeps I Q (db_lib wrap r)"
  by (rule keepsI) (auto simp: db_lib_def split: option.splits sum.splits)

lemma keeps_totp_secret [db_rules]: "(\<And>b. Q b) \<Longrightarrow> keeps I Q db_totp_secret"
  by (rule keepsI) (auto simp: db_totp_secret_def split: sum.splits)

lemma keeps_hashes [db_rules]: "(\<And>hs. Q hs) \<Longrightarrow> keeps I Q (db_hashes L cs)"
proof (induction cs arbitrary: Q)
  case (Cons c cs)
  then show ?case unfolding db_hashes.simps by (intro db_rules Cons.IH)
qed (auto intro: db_rules)

lemma keeps_load_factors [db_rules]: "(\<And>fs. Q fs) \<Longrightarrow> keeps I Q (load_factors us)"
proof (induction us arbitrary: Q)
  case (Cons u us)
  then show ?case unfolding load_factors.simps loadFactor_def select_mfa_def by (intro db_rules Cons.IH)
qed (auto intro: db_rules)

lemma keeps_ignore_error [db_rules]: "keeps I (\<lambda>_. True) m \<Longrightarrow> Q () \<Longrightarrow> keeps I Q (ignore_error m)"
  by (rule keepsI) (auto simp: ignore_error_def keeps_def split: option.splits)

lemmas identity_steps = newPgToken_def hashTokenBytes_def select_usr_def update_user_row_def revoke_sessions_def
  transUser_def create_credential_def reload_cred_def rotateInTx_def insert_successor_def transCred_def
  insert_session_def new_cred_def password_row_def passkey_row_def oidc_row_def
  pg_SuspendUser_def pg_ReinstateUser_def pg_RevokeUser_def pg_SuspendCredential_def
  pg_ReinstateCredential_def pg_RevokeCredential_def

lemmas mfa_steps = new_mfa_def select_mfa_def update_mfa_row_def loadFactor_def transFactor_def vfyTotp_def vfyRecovery_def
  vfyWebAuthn_def touch_pat_def pg_SuspendFactor_def pg_ReinstateFactor_def pg_RevokeFactor_def

lemma pg_CreateUser_keeps: "keeps db_good (\<lambda>_. True) (pg_CreateUser displayName)"
  unfolding pg_CreateUser_def identity_steps by (intro db_rules ballI) (auto simp: typed_defs dest!: good_typed)

lemma pg_GetUser_keeps: "keeps db_good (\<lambda>_. True) (pg_GetUser usrID)"
  unfolding pg_GetUser_def identity_steps by (intro db_rules ballI) (auto simp: typed_defs dest!: good_typed)

lemma pg_UpdateUser_keeps: "keeps db_good (\<lambda>_. True) (pg_UpdateUser usrID i)"
  unfolding pg_UpdateUser_def identity_steps by (intro db_rules ballI) (auto simp: typed_defs dest!: good_typed)

lemma pg_ListUsers_keeps: "keeps db_good (\<lambda>_. True) (pg_ListUsers opts)"
  unfolding pg_ListUsers_def by (intro db_rules ballI) (auto simp: typed_defs)

lemma pg_SuspendUser_keeps: "keeps db_good (\<lambda>_. True) (pg_SuspendUser usrID)"
  unfolding pg_SuspendUser_def identity_steps by (intro db_rules ballI) (auto simp: typed_defs dest!: good_typed)

lemma pg_ReinstateUser_keeps: "keeps db_good (\<lambda>_. True) (pg_ReinstateUser usrID)"
  unfolding pg_ReinstateUser_def identity_steps by (intro db_rules ballI) (auto simp: typed_defs dest!: good_typed)

lemma pg_RevokeUser_keeps: "keeps db_good (\<lambda>_. True) (pg_RevokeUser usrID)"
  unfolding pg_RevokeUser_def identity_steps by (intro db_rules ballI) (auto simp: typed_defs dest!: good_typed)

lemma pg_CreatePasswordCredential_keeps: "keeps db_good (\<lambda>_. True) (pg_CreatePasswordCredential L usrID ident password)"
  unfolding pg_CreatePasswordCredential_def identity_steps by (intro db_rules ballI) (auto simp: typed_defs dest!: good_typed)

lemma pg_CreatePasskeyCredential_keeps: "keeps db_good (\<lambda>_. True) (pg_CreatePasskeyCredential usrID ident publicKey signCount rpID)"
  unfolding pg_CreatePasskeyCredential_def identity_steps by (intro db_rules ballI) (auto simp: typed_defs dest!: good_typed)

lemma pg_CreateOIDCCredential_keeps: "keeps db_good (\<lambda>_. True) (pg_CreateOIDCCredential usrID ident issuer sub)"
  unfolding pg_CreateOIDCCredential_def identity_steps by (intro db_rules ballI) (auto simp: typed_defs dest!: good_typed)

lemma pg_GetCredential_keeps: "keeps db_good (\<lambda>_. True) (pg_GetCredential credID)"
  unfolding pg_GetCredential_def identity_steps by (intro db_rules ballI) (auto simp: typed_defs dest!: good_typed)

lemma pg_ListCredentialsForUser_keeps: "keeps db_good (\<lambda>_. True) (pg_ListCredentialsForUser usrID)"
  unfolding pg_ListCredentialsForUser_def identity_steps by (intro db_rules ballI) (auto simp: typed_defs dest!: good_typed)

lemma pg_FindCredentialByIdentifier_keeps: "keeps db_good (\<lambda>_. True) (pg_FindCredentialByIdentifier t ident)"
  unfolding pg_FindCredentialByIdentifier_def identity_steps by (intro db_rules ballI) (auto simp: typed_defs dest!: good_typed)

lemma pg_RotatePassword_keeps: "keeps db_good (\<lambda>_. True) (pg_RotatePassword L credID newPassword)"
  unfolding pg_RotatePassword_def identity_steps by (intro db_rules ballI) (auto simp: typed_defs dest!: good_typed)

lemma pg_RotatePasskey_keeps: "keeps db_good (\<lambda>_. True) (pg_RotatePasskey credID publicKey signCount rpID)"
  unfolding pg_RotatePasskey_def identity_steps by (intro db_rules ballI) (auto simp: typed_defs dest!: good_typed)

lemma pg_RotateOIDC_keeps: "keeps db_good (\<lambda>_. True) (pg_RotateOIDC credID issuer sub)"
  unfolding pg_RotateOIDC_def identity_steps by (intro db_rules ballI) (auto simp: typed_defs dest!: good_typed)

lemma pg_SuspendCredential_keeps: "keeps db_good (\<lambda>_. True) (pg_SuspendCredential credID)"
  unfolding pg_SuspendCredential_def identity_steps by (intro db_rules ballI) (auto simp: typed_defs dest!: good_typed)

lemma pg_ReinstateCredential_keeps: "keeps db_good (\<lambda>_. True) (pg_ReinstateCredential credID)"
  unfolding pg_ReinstateCredential_def identity_steps by (intro db_rules ballI) (auto simp: typed_defs dest!: good_typed)

lemma pg_RevokeCredential_keeps: "keeps db_good (\<lambda>_. True) (pg_RevokeCredential credID)"
  unfolding pg_RevokeCredential_def identity_steps by (intro db_rules ballI) (auto simp: typed_defs dest!: good_typed)

lemma pg_VerifyPassword_keeps: "keeps db_good (\<lambda>_. True) (pg_VerifyPassword L ident password)"
  unfolding pg_VerifyPassword_def identity_steps by (intro db_rules ballI) (auto simp: typed_defs dest!: good_typed)

lemma pg_CreateSession_keeps: "keeps db_good (\<lambda>_. True) (pg_CreateSession usrID credID ttlSeconds)"
  unfolding pg_CreateSession_def identity_steps by (intro db_rules ballI) (auto simp: typed_defs dest!: good_typed)

lemma pg_GetSession_keeps: "keeps db_good (\<lambda>_. True) (pg_GetSession sesID)"
  unfolding pg_GetSession_def identity_steps by (intro db_rules ballI) (auto simp: typed_defs dest!: good_typed)

lemma pg_ListSessionsForUser_keeps: "keeps db_good (\<lambda>_. True) (pg_ListSessionsForUser usrID opts)"
  unfolding pg_ListSessionsForUser_def identity_steps by (intro db_rules ballI) (auto simp: typed_defs dest!: good_typed)

lemma pg_VerifySessionToken_keeps: "keeps db_good (\<lambda>_. True) (pg_VerifySessionToken token)"
  unfolding pg_VerifySessionToken_def identity_steps by (intro db_rules ballI) (auto simp: typed_defs dest!: good_typed)

lemma pg_RefreshSession_keeps: "keeps db_good (\<lambda>_. True) (pg_RefreshSession sesID)"
  unfolding pg_RefreshSession_def identity_steps by (intro db_rules ballI) (auto simp: typed_defs dest!: good_typed)

lemma pg_RevokeSession_keeps: "keeps db_good (\<lambda>_. True) (pg_RevokeSession sesID)"
  unfolding pg_RevokeSession_def identity_steps by (intro db_rules ballI) (auto simp: typed_defs dest!: good_typed)

lemma pg_EnrollTotpFactor_keeps: "keeps db_good (\<lambda>_. True) (pg_EnrollTotpFactor L usrID label opts)"
  unfolding pg_EnrollTotpFactor_def mfa_steps by (intro db_rules ballI) (auto simp: typed_defs dest!: good_typed)

lemma pg_EnrollWebAuthnFactor_keeps: "keeps db_good (\<lambda>_. True) (pg_EnrollWebAuthnFactor usrID credentialID publicKey signCount rpID)"
  unfolding pg_EnrollWebAuthnFactor_def mfa_steps by (intro db_rules ballI) (auto simp: typed_defs dest!: good_typed)

lemma pg_EnrollRecoveryFactor_keeps: "keeps db_good (\<lambda>_. True) (pg_EnrollRecoveryFactor L usrID)"
  unfolding pg_EnrollRecoveryFactor_def mfa_steps by (intro db_rules ballI) (auto simp: typed_defs dest!: good_typed)

lemma pg_ConfirmTotpFactor_keeps: "keeps db_good (\<lambda>_. True) (pg_ConfirmTotpFactor L mfaID code)"
  unfolding pg_ConfirmTotpFactor_def mfa_steps by (intro db_rules ballI) (auto simp: typed_defs dest!: good_typed)

lemma pg_ConfirmWebAuthnFactor_keeps: "keeps db_good (\<lambda>_. True) (pg_ConfirmWebAuthnFactor L mfaID proof1)"
  unfolding pg_ConfirmWebAuthnFactor_def mfa_steps by (intro db_rules ballI) (auto simp: typed_defs dest!: good_typed)

lemma pg_GetFactor_keeps: "keeps db_good (\<lambda>_. True) (pg_GetFactor mfaID)"
  unfolding pg_GetFactor_def mfa_steps by (intro db_rules ballI) (auto simp: typed_defs dest!: good_typed)

lemma pg_ListFactorsForUser_keeps: "keeps db_good (\<lambda>_. True) (pg_ListFactorsForUser usrID)"
  unfolding pg_ListFactorsForUser_def mfa_steps by (intro db_rules ballI) (auto simp: typed_defs dest!: good_typed)

lemma pg_SuspendFactor_keeps: "keeps db_good (\<lambda>_. True) (pg_SuspendFactor mfaID)"
  unfolding pg_SuspendFactor_def mfa_steps by (intro db_rules ballI) (auto simp: typed_defs dest!: good_typed)

lemma pg_ReinstateFactor_keeps: "keeps db_good (\<lambda>_. True) (pg_ReinstateFactor mfaID)"
  unfolding pg_ReinstateFactor_def mfa_steps by (intro db_rules ballI) (auto simp: typed_defs dest!: good_typed)

lemma pg_RevokeFactor_keeps: "keeps db_good (\<lambda>_. True) (pg_RevokeFactor mfaID)"
  unfolding pg_RevokeFactor_def mfa_steps by (intro db_rules ballI) (auto simp: typed_defs dest!: good_typed)

lemma pg_VerifyMfa_keeps: "keeps db_good (\<lambda>_. True) (pg_VerifyMfa L usrID proof1)"
  unfolding pg_VerifyMfa_def mfa_steps by (intro db_rules ballI) (auto simp: typed_defs dest!: good_typed)

lemma pg_GetUserMfaPolicy_keeps: "keeps db_good (\<lambda>_. True) (pg_GetUserMfaPolicy usrID)"
  unfolding pg_GetUserMfaPolicy_def mfa_steps by (intro db_rules ballI) (auto simp: typed_defs dest!: good_typed)

lemma pg_SetUserMfaPolicy_keeps: "keeps db_good (\<lambda>_. True) (pg_SetUserMfaPolicy usrID required graceUntil)"
  unfolding pg_SetUserMfaPolicy_def mfa_steps by (intro db_rules ballI) (auto simp: typed_defs dest!: good_typed)

lemma pg_CreatePat_keeps: "keeps db_good (\<lambda>_. True) (pg_CreatePat L i)"
  unfolding pg_CreatePat_def mfa_steps by (intro db_rules ballI) (auto simp: typed_defs dest!: good_typed)

lemma pg_GetPat_keeps: "keeps db_good (\<lambda>_. True) (pg_GetPat patID)"
  unfolding pg_GetPat_def mfa_steps by (intro db_rules ballI) (auto simp: typed_defs dest!: good_typed)

lemma pg_ListPatsForUser_keeps: "keeps db_good (\<lambda>_. True) (pg_ListPatsForUser usrID opts)"
  unfolding pg_ListPatsForUser_def mfa_steps by (intro db_rules ballI) (auto simp: typed_defs dest!: good_typed)

lemma pg_VerifyPatToken_keeps: "keeps db_good (\<lambda>_. True) (pg_VerifyPatToken L token)"
  unfolding pg_VerifyPatToken_def mfa_steps by (intro db_rules ballI) (auto simp: typed_defs dest!: good_typed)

lemma pg_RevokePat_keeps: "keeps db_good (\<lambda>_. True) (pg_RevokePat patID)"
  unfolding pg_RevokePat_def mfa_steps by (intro db_rules ballI) (auto simp: typed_defs dest!: good_typed)

end
