(* ===== verification/PgRuns.thy ===== *)
theory PgRuns
  imports PgMethods
begin

text \<open>
  The three PostgreSQL stores on one database.  \<open>pg_method\<close> lists their methods by what a call does to the database,
  \<open>pg_step\<close> is one call, and \<open>pg_reach\<close> the databases that calls lead to from an empty one.  Calls follow each other;
  what the isolation of PostgreSQL lets two of them see of each other is not in this relation.
\<close>

definition db_effect :: "('d, 'e, 'a) db \<Rightarrow> pg_env \<Rightarrow> 'd \<Rightarrow> 'd option" where
  "db_effect m e d = map_option (\<lambda>(r, n, d'). d') (m e 0 d)"

inductive pg_method :: "(pg_env \<Rightarrow> pg_db \<Rightarrow> pg_db option) \<Rightarrow> bool" where
  CreateTuple_call: "pg_method (db_effect (pg_CreateTuple i))"
| DeleteTuple_call: "pg_method (db_effect (pg_DeleteTuple tupleID))"
| CascadeRevokeSubject_call: "pg_method (db_effect (pg_CascadeRevokeSubject subjectType subjectID))"
| CheckAny_call: "pg_method (db_effect (pg_CheckAny s i))"
| GetTuple_call: "pg_method (db_effect (pg_GetTuple tupleID))"
| ListTuplesBySubject_call: "pg_method (db_effect (pg_ListTuplesBySubject subjectType subjectID opts))"
| ListTuplesByObject_call: "pg_method (db_effect (pg_ListTuplesByObject objectType objectID opts))"
| CreateShare_call: "pg_method (db_effect (pg_CreateShare i))"
| GetShare_call: "pg_method (db_effect (pg_GetShare shareID))"
| VerifyShareToken_call: "pg_method (db_effect (pg_VerifyShareToken token))"
| RevokeShare_call: "pg_method (db_effect (pg_RevokeShare shareID))"
| ListSharesForObject_call: "pg_method (db_effect (pg_ListSharesForObject objectType objectID opts))"
| CreateOrg_call: "pg_method (db_effect (pg_CreateOrg creator opts))"
| GetOrg_call: "pg_method (db_effect (pg_GetOrg orgID))"
| UpdateOrg_call: "pg_method (db_effect (pg_UpdateOrg orgID i))"
| SuspendOrg_call: "pg_method (db_effect (pg_SuspendOrg orgID))"
| ReinstateOrg_call: "pg_method (db_effect (pg_ReinstateOrg orgID))"
| RevokeOrg_call: "pg_method (db_effect (pg_RevokeOrg orgID))"
| ListOrgs_call: "pg_method (db_effect (pg_ListOrgs opts))"
| AddMember_call: "pg_method (db_effect (pg_AddMember orgID usrID role invitedBy))"
| GetMembership_call: "pg_method (db_effect (pg_GetMembership memID))"
| ListMembers_call: "pg_method (db_effect (pg_ListMembers orgID opts))"
| ChangeRole_call: "pg_method (db_effect (pg_ChangeRole memID newRole))"
| SuspendMembership_call: "pg_method (db_effect (pg_SuspendMembership memID))"
| ReinstateMembership_call: "pg_method (db_effect (pg_ReinstateMembership memID))"
| SelfLeave_call: "pg_method (db_effect (pg_SelfLeave memID transferTo))"
| AdminRemove_call: "pg_method (db_effect (pg_AdminRemove memID adminUsrID))"
| TransferOwnership_call: "pg_method (db_effect (pg_TransferOwnership orgID fromMemID toMemID))"
| CreateInvitation_call: "pg_method (db_effect (pg_CreateInvitation orgID identifier role invitedBy expiresAt preTuples))"
| GetInvitation_call: "pg_method (db_effect (pg_GetInvitation invID))"
| ListInvitations_call: "pg_method (db_effect (pg_ListInvitations orgID opts))"
| AcceptInvitation_call: "pg_method (db_effect (pg_AcceptInvitation invID opts))"
| DeclineInvitation_call: "pg_method (db_effect (pg_DeclineInvitation invID asUsrID))"
| RevokeInvitation_call: "pg_method (db_effect (pg_RevokeInvitation invID adminUsrID))"
| ListTuplesForSubject_call: "pg_method (db_effect (pg_ListTuplesForSubject subjectType subjectID))"
| ListTuplesForObject_call: "pg_method (db_effect (pg_ListTuplesForObject objectType objectID relation))"
| CreateUser_call: "pg_method (db_effect (pg_CreateUser displayName))"
| GetUser_call: "pg_method (db_effect (pg_GetUser usrID))"
| UpdateUser_call: "pg_method (db_effect (pg_UpdateUser usrID i))"
| ListUsers_call: "pg_method (db_effect (pg_ListUsers opts))"
| SuspendUser_call: "pg_method (db_effect (pg_SuspendUser usrID))"
| ReinstateUser_call: "pg_method (db_effect (pg_ReinstateUser usrID))"
| RevokeUser_call: "pg_method (db_effect (pg_RevokeUser usrID))"
| CreatePasswordCredential_call: "pg_method (db_effect (pg_CreatePasswordCredential L usrID ident password))"
| CreatePasskeyCredential_call: "pg_method (db_effect (pg_CreatePasskeyCredential usrID ident publicKey signCount rpID))"
| CreateOIDCCredential_call: "pg_method (db_effect (pg_CreateOIDCCredential usrID ident issuer sub))"
| GetCredential_call: "pg_method (db_effect (pg_GetCredential credID))"
| ListCredentialsForUser_call: "pg_method (db_effect (pg_ListCredentialsForUser usrID))"
| FindCredentialByIdentifier_call: "pg_method (db_effect (pg_FindCredentialByIdentifier t ident))"
| RotatePassword_call: "pg_method (db_effect (pg_RotatePassword L credID newPassword))"
| RotatePasskey_call: "pg_method (db_effect (pg_RotatePasskey credID publicKey signCount rpID))"
| RotateOIDC_call: "pg_method (db_effect (pg_RotateOIDC credID issuer sub))"
| SuspendCredential_call: "pg_method (db_effect (pg_SuspendCredential credID))"
| ReinstateCredential_call: "pg_method (db_effect (pg_ReinstateCredential credID))"
| RevokeCredential_call: "pg_method (db_effect (pg_RevokeCredential credID))"
| VerifyPassword_call: "pg_method (db_effect (pg_VerifyPassword L ident password))"
| CreateSession_call: "pg_method (db_effect (pg_CreateSession usrID credID ttlSeconds))"
| GetSession_call: "pg_method (db_effect (pg_GetSession sesID))"
| ListSessionsForUser_call: "pg_method (db_effect (pg_ListSessionsForUser usrID opts))"
| VerifySessionToken_call: "pg_method (db_effect (pg_VerifySessionToken token))"
| RefreshSession_call: "pg_method (db_effect (pg_RefreshSession sesID))"
| RevokeSession_call: "pg_method (db_effect (pg_RevokeSession sesID))"
| EnrollTotpFactor_call: "pg_method (db_effect (pg_EnrollTotpFactor L usrID label opts))"
| EnrollWebAuthnFactor_call: "pg_method (db_effect (pg_EnrollWebAuthnFactor usrID credentialID publicKey signCount rpID))"
| EnrollRecoveryFactor_call: "pg_method (db_effect (pg_EnrollRecoveryFactor L usrID))"
| ConfirmTotpFactor_call: "pg_method (db_effect (pg_ConfirmTotpFactor L mfaID code))"
| ConfirmWebAuthnFactor_call: "pg_method (db_effect (pg_ConfirmWebAuthnFactor L mfaID proof1))"
| GetFactor_call: "pg_method (db_effect (pg_GetFactor mfaID))"
| ListFactorsForUser_call: "pg_method (db_effect (pg_ListFactorsForUser usrID))"
| SuspendFactor_call: "pg_method (db_effect (pg_SuspendFactor mfaID))"
| ReinstateFactor_call: "pg_method (db_effect (pg_ReinstateFactor mfaID))"
| RevokeFactor_call: "pg_method (db_effect (pg_RevokeFactor mfaID))"
| VerifyMfa_call: "pg_method (db_effect (pg_VerifyMfa L usrID proof1))"
| GetUserMfaPolicy_call: "pg_method (db_effect (pg_GetUserMfaPolicy usrID))"
| SetUserMfaPolicy_call: "pg_method (db_effect (pg_SetUserMfaPolicy usrID required graceUntil))"
| CreatePat_call: "pg_method (db_effect (pg_CreatePat L i))"
| GetPat_call: "pg_method (db_effect (pg_GetPat patID))"
| ListPatsForUser_call: "pg_method (db_effect (pg_ListPatsForUser usrID opts))"
| VerifyPatToken_call: "pg_method (db_effect (pg_VerifyPatToken L token))"
| RevokePat_call: "pg_method (db_effect (pg_RevokePat patID))"

definition pg_step :: "pg_db \<Rightarrow> pg_db \<Rightarrow> bool" where
  "pg_step d d' \<longleftrightarrow> (\<exists>M e. pg_method M \<and> env_ok e \<and> M e d = Some d')"

definition pg_steps :: "pg_db \<Rightarrow> pg_db \<Rightarrow> bool" where
  "pg_steps = pg_step\<^sup>*\<^sup>*"

definition pg_reach :: "pg_db \<Rightarrow> bool" where
  "pg_reach d \<longleftrightarrow> pg_steps empty_db d"

definition effect_keeps :: "('d \<Rightarrow> bool) \<Rightarrow> (pg_env \<Rightarrow> 'd \<Rightarrow> 'd option) \<Rightarrow> bool" where
  "effect_keeps I M \<longleftrightarrow> (\<forall>e d d'. env_ok e \<longrightarrow> I d \<longrightarrow> M e d = Some d' \<longrightarrow> I d')"

lemma effect_keepsI: "keeps I Q m \<Longrightarrow> effect_keeps I (db_effect m)"
  unfolding keeps_def effect_keeps_def db_effect_def by auto

lemma keeps_check_any [db_rules]: "(\<And>x. Q x) \<Longrightarrow> keeps I Q (check_any_rows i)"
  unfolding check_any_rows_def by (intro db_rules) auto

lemma pg_CheckAny_keeps: "keeps I (\<lambda>_. True) (pg_CheckAny s i)"
proof (rule keepsI)
  fix e n d r n' d'
  assume *: "env_ok e" "I d" "pg_CheckAny s i e n d = Some (r, n', d')"
  have "keeps I (\<lambda>_. True) (check_any_rows i)" by (intro db_rules) simp
  with * show "I d' \<and> (\<forall>x. r = Inr x \<longrightarrow> True)"
    by (auto simp: pg_CheckAny_def db_fail_def db_sum_def db_ok_def split: if_splits sum.splits dest: keepsD)
qed

lemmas method_keeps =
  pg_CreateTuple_keeps pg_DeleteTuple_keeps pg_CascadeRevokeSubject_keeps pg_CheckAny_keeps pg_GetTuple_keeps
  pg_ListTuplesBySubject_keeps pg_ListTuplesByObject_keeps pg_CreateShare_keeps pg_GetShare_keeps
  pg_VerifyShareToken_keeps pg_RevokeShare_keeps pg_ListSharesForObject_keeps pg_CreateOrg_keeps
  pg_GetOrg_keeps pg_UpdateOrg_keeps pg_SuspendOrg_keeps pg_ReinstateOrg_keeps pg_RevokeOrg_keeps
  pg_ListOrgs_keeps pg_AddMember_keeps pg_GetMembership_keeps pg_ListMembers_keeps pg_ChangeRole_keeps
  pg_SuspendMembership_keeps pg_ReinstateMembership_keeps pg_SelfLeave_keeps pg_AdminRemove_keeps
  pg_TransferOwnership_keeps pg_CreateInvitation_keeps pg_GetInvitation_keeps pg_ListInvitations_keeps
  pg_AcceptInvitation_keeps pg_DeclineInvitation_keeps pg_RevokeInvitation_keeps pg_ListTuplesForSubject_keeps
  pg_ListTuplesForObject_keeps pg_CreateUser_keeps pg_GetUser_keeps pg_UpdateUser_keeps pg_ListUsers_keeps
  pg_SuspendUser_keeps pg_ReinstateUser_keeps pg_RevokeUser_keeps pg_CreatePasswordCredential_keeps
  pg_CreatePasskeyCredential_keeps pg_CreateOIDCCredential_keeps pg_GetCredential_keeps
  pg_ListCredentialsForUser_keeps pg_FindCredentialByIdentifier_keeps pg_RotatePassword_keeps
  pg_RotatePasskey_keeps pg_RotateOIDC_keeps pg_SuspendCredential_keeps pg_ReinstateCredential_keeps
  pg_RevokeCredential_keeps pg_VerifyPassword_keeps pg_CreateSession_keeps pg_GetSession_keeps
  pg_ListSessionsForUser_keeps pg_VerifySessionToken_keeps pg_RefreshSession_keeps pg_RevokeSession_keeps
  pg_EnrollTotpFactor_keeps pg_EnrollWebAuthnFactor_keeps pg_EnrollRecoveryFactor_keeps
  pg_ConfirmTotpFactor_keeps pg_ConfirmWebAuthnFactor_keeps pg_GetFactor_keeps pg_ListFactorsForUser_keeps
  pg_SuspendFactor_keeps pg_ReinstateFactor_keeps pg_RevokeFactor_keeps pg_VerifyMfa_keeps
  pg_GetUserMfaPolicy_keeps pg_SetUserMfaPolicy_keeps pg_CreatePat_keeps pg_GetPat_keeps
  pg_ListPatsForUser_keeps pg_VerifyPatToken_keeps pg_RevokePat_keeps

lemmas effect_good = method_keeps [THEN effect_keepsI]

lemma pg_method_good: "pg_method M \<Longrightarrow> effect_keeps db_good M"
  by (induction rule: pg_method.induct) (rule effect_good)+

lemma pg_step_good: "pg_step d d' \<Longrightarrow> db_good d \<Longrightarrow> db_good d'"
  unfolding pg_step_def using pg_method_good unfolding effect_keeps_def by blast

lemma pg_reach_good: "pg_reach d \<Longrightarrow> db_good d"
  unfolding pg_reach_def pg_steps_def by (induction rule: rtranclp_induct) (auto intro: db_good_empty pg_step_good)

text \<open>A call on its own, and what follows it.\<close>

lemma db_run_step: "pg_method (db_effect m) \<Longrightarrow> env_ok e \<Longrightarrow> db_run m e d = Some (r, d') \<Longrightarrow> pg_step d d'"
  by (auto simp: pg_step_def db_effect_def db_run_def intro!: exI [of _ "db_effect m"] exI [of _ e])

lemma pg_reach_step: "pg_reach d \<Longrightarrow> pg_step d d' \<Longrightarrow> pg_reach d'"
  unfolding pg_reach_def pg_steps_def by (rule rtranclp.rtrancl_into_rtrancl)

lemma pg_reach_steps: "pg_reach d \<Longrightarrow> pg_steps d d' \<Longrightarrow> pg_reach d'"
  unfolding pg_reach_def pg_steps_def by (rule rtranclp_trans)

lemma pg_steps_refl [simp]: "pg_steps d d"
  by (simp add: pg_steps_def)

end
