(* ===== verification/AuthzPgCheck.thy ===== *)
theory AuthzPgCheck
  imports PgRuns
begin

text \<open>
  What \<open>Check\<close> of the PostgreSQL tuple store decides.  \<open>eval_rec_io_quiet\<close> shows that an evaluation that meets no
  error is the evaluation of \<open>rewrite_rules.go\<close> on callbacks without errors.  The table \<open>tup\<close> is a \<open>tuple_source\<close>
  (\<open>pg_source\<close>): what is allowed is granted.  It is a \<open>tuple_backend\<close> (\<open>pg_tuples\<close>) only while no listing of
  subjects breaks off, because \<open>listByObject\<close> takes the rows it got so far for all of them.
\<close>

subsection \<open>Evaluation without an error\<close>

definition quiet_env :: "DirectLookup \<Rightarrow> ListByObject \<Rightarrow> 'w eval_env_io \<Rightarrow> eval_env" where
  "quiet_env dl lbo E = \<lparr>env_rules = eio_rules E, env_subjectType = eio_subjectType E, env_subjectID = eio_subjectID E,
     env_directLookup = dl, env_listByObject = lbo, env_maxFanOut = eio_maxFanOut E\<rparr>"

definition agrees :: "DirectLookup \<Rightarrow> ListByObject \<Rightarrow> 'w eval_env_io \<Rightarrow> bool" where
  "agrees dl lbo E \<longleftrightarrow>
     (\<forall>st sid rel ot oid. snd (eio_directLookup E st sid rel ot oid) = None \<longrightarrow>
        fst (eio_directLookup E st sid rel ot oid) = dl st sid rel ot oid) \<and>
     (\<forall>ot oid rel. snd (eio_listByObject E ot oid rel) = None \<longrightarrow> fst (eio_listByObject E ot oid rel) = lbo ot oid rel)"

lemma noting_None [simp]: "snd (noting w r) = None \<longleftrightarrow> w = None \<and> snd r = None"
  by (auto simp: noting_def)

lemma fst_noting [simp]: "fst (noting w r) = fst r"
  by (simp add: noting_def)

lemma expand_subs_io_quiet:
  assumes "\<And>sub. snd (f sub) = None \<Longrightarrow> fst (f sub) = g sub"
  shows "snd (expand_subs_io f subs) = None \<Longrightarrow> fst (expand_subs_io f subs) = expand_subs g subs"
proof (induction subs)
  case (Cons sub subs)
  obtain r w where r: "f sub = (r, w)" by (cases "f sub")
  have g: "w = None \<Longrightarrow> g sub = r" using assms [of sub] r by simp
  show ?case using Cons r g by (cases r) (auto split: if_splits)
qed simp

lemma expand_nodes_io_quiet:
  assumes "agrees dl lbo E" and "\<And>rel ot oid. snd (call rel ot oid) = None \<Longrightarrow> fst (call rel ot oid) = pcall rel ot oid"
  shows "snd (expand_nodes_io E call ot oid nodes) = None \<Longrightarrow>
    fst (expand_nodes_io E call ot oid nodes) = expand_nodes (quiet_env dl lbo E) pcall ot oid nodes"
proof (induction nodes)
  case (Cons node nodes)
  show ?case
  proof (cases node)
    case (ComputedUserset rel)
    obtain r w where r: "call rel ot oid = (r, w)" by (cases "call rel ot oid")
    have g: "w = None \<Longrightarrow> pcall rel ot oid = r" using assms(2) [of rel ot oid] r by simp
    show ?thesis using Cons r g ComputedUserset by (cases r) (auto split: if_splits)
  next
    case (TupleToUserset ts cu)
    obtain related w0 where rel: "eio_listByObject E ot oid ts = (related, w0)" by (cases "eio_listByObject E ot oid ts")
    let ?f = "\<lambda>sub. call cu (ref_SubjectType sub) (ref_SubjectID sub)"
    obtain r w where r: "expand_subs_io ?f related = (r, w)" by (cases "expand_subs_io ?f related")
    have lbo: "w0 = None \<Longrightarrow> lbo ot oid ts = related" using assms(1) rel unfolding agrees_def by (metis fst_conv snd_conv)
    have subs: "w = None \<Longrightarrow> expand_subs (\<lambda>sub. pcall cu (ref_SubjectType sub) (ref_SubjectID sub)) related = r"
      using expand_subs_io_quiet [of ?f "\<lambda>sub. pcall cu (ref_SubjectType sub) (ref_SubjectID sub)" related] assms(2) r by simp
    show ?thesis
    proof (cases "int (length related) > eio_maxFanOut E")
      case True
      then show ?thesis using Cons.prems TupleToUserset rel lbo by (simp add: quiet_env_def)
    next
      case False
      then show ?thesis using Cons TupleToUserset rel lbo subs r
        by (cases r) (auto simp: quiet_env_def Let_def split: if_splits)
    qed
  qed (use Cons in simp_all)
qed simp

lemma eval_frame_io_quiet:
  assumes "agrees dl lbo E"
    and "\<And>c stack rel ot oid. deeper = Some c \<Longrightarrow> snd (c stack rel ot oid) = None \<Longrightarrow>
      fst (c stack rel ot oid) = p stack rel ot oid"
    and "snd (eval_frame_io E deeper stack rel ot oid) = None"
  shows "fst (eval_frame_io E deeper stack rel ot oid)
    = eval_frame (quiet_env dl lbo E) (map_option (\<lambda>_. p) deeper) stack rel ot oid"
proof -
  obtain hit w where h: "eio_directLookup E (eio_subjectType E) (eio_subjectID E) rel ot oid = (hit, w)"
    by (cases "eio_directLookup E (eio_subjectType E) (eio_subjectID E) rel ot oid")
  have w: "w = None" using assms(3) h by (auto simp: eval_frame_io_def)
  then have dl: "dl (eio_subjectType E) (eio_subjectID E) rel ot oid = hit"
    using assms(1) h unfolding agrees_def by (metis fst_conv snd_conv)
  have ro: "rule_of (quiet_env dl lbo E) ot rel = rule_of_io E ot rel"
    by (simp add: rule_of_def rule_of_io_def quiet_env_def)
  have q: "env_directLookup (quiet_env dl lbo E) (env_subjectType (quiet_env dl lbo E))
      (env_subjectID (quiet_env dl lbo E)) rel ot oid = hit"
    using dl by (simp add: quiet_env_def)
  show ?thesis
  proof (cases hit)
    case (Some tid)
    then show ?thesis using h q by (simp add: eval_frame_io_def eval_frame_def)
  next
    case None
    show ?thesis
    proof (cases "rule_of_io E ot rel")
      case None
      then show ?thesis using h q ro \<open>hit = None\<close> by (simp add: eval_frame_io_def eval_frame_def)
    next
      case (Some rule)
      let ?frame = "\<lparr>frame_Relation = rel, frame_ObjectType = ot, frame_ObjectID = oid\<rparr>"
      have "snd (expand_nodes_io E (c (stack @ [?frame])) ot oid rule) = None \<Longrightarrow>
          fst (expand_nodes_io E (c (stack @ [?frame])) ot oid rule)
          = expand_nodes (quiet_env dl lbo E) (p (stack @ [?frame])) ot oid rule" if "deeper = Some c" for c
        by (rule expand_nodes_io_quiet [OF assms(1)]) (use assms(2) [OF that] in auto)
      then show ?thesis using h q ro \<open>hit = None\<close> Some assms(3) w
        by (cases deeper) (auto simp: eval_frame_io_def eval_frame_def Let_def)
    qed
  qed
qed

lemma eval_rec_io_quiet:
  assumes "agrees dl lbo E"
  shows "snd (eval_rec_io E n stack rel ot oid) = None \<Longrightarrow>
    fst (eval_rec_io E n stack rel ot oid) = eval_rec (quiet_env dl lbo E) n stack rel ot oid"
proof (induction n arbitrary: stack rel ot oid)
  case 0
  then show ?case using eval_frame_io_quiet [OF assms, of None] by simp
next
  case (Suc n)
  have "fst (eval_frame_io E (Some (eval_rec_io E n)) stack rel ot oid) = eval_frame (quiet_env dl lbo E)
      (map_option (\<lambda>_. eval_rec (quiet_env dl lbo E) n) (Some (eval_rec_io E n))) stack rel ot oid"
    by (rule eval_frame_io_quiet [OF assms]) (use Suc in auto)
  then show ?case by simp
qed

subsection \<open>The table of tuples as a backend\<close>

text \<open>An identifier in the form the store gives out: the canonical UUID behind the prefix.\<close>

definition wire_form :: "string \<Rightarrow> string \<Rightarrow> bool" where
  "wire_form prefix wid \<longleftrightarrow> CHR ''_'' \<notin> set prefix \<and> (\<exists>u. canonical u \<and> wid = uuidToWire prefix u)"

definition row_key :: "tup_row \<Rightarrow> tuple_key" where
  "row_key r = (tr_subject_type r, uuidToWire (tr_subject_type r) (tr_subject_id r), tr_relation r,
     tr_object_type r, uuidToWire (tr_object_type r) (tr_object_id r))"

definition tuple_keys :: "pg_db \<Rightarrow> tuple_key set" where
  "tuple_keys d = row_key ` set (db_tup d)"

text \<open>A statement without \<open>ORDER BY\<close> still returns every row it selects.\<close>

definition scans_all :: "pg_env \<Rightarrow> pg_db \<Rightarrow> bool" where
  "scans_all e d \<longleftrightarrow> (\<forall>ot oid rel. distinct (pe_order e ot oid rel) \<and> tr_id ` set (db_tup d) \<subseteq> set (pe_order e ot oid rel))"

definition pg_listing :: "pg_env \<Rightarrow> pg_db \<Rightarrow> ListByObject" where
  "pg_listing e d ot oid rel =
     (case wireToUUID (pe_uuid e) oid of Inl _ \<Rightarrow> []
      | Inr objU \<Rightarrow>
          let subs = pg_subjects e d ot objU rel (pe_order e ot oid rel)
          in case pe_list_cut e ot oid rel of None \<Rightarrow> subs | Some k \<Rightarrow> take k subs)"

text \<open>No listing of subjects breaks off.\<close>

definition uncut :: "pg_env \<Rightarrow> bool" where
  "uncut e \<longleftrightarrow> pe_list_cut e = (\<lambda>_ _ _. None)"

definition backend_good :: "pg_env \<times> pg_db \<Rightarrow> bool" where
  "backend_good ed \<longleftrightarrow> env_ok (fst ed) \<and> db_good (snd ed) \<and> scans_all (fst ed) (snd ed)"

lemma type_no_underscore: "rx_match TypePrefixPattern s \<Longrightarrow> CHR ''_'' \<notin> set s"
  using list_all_class_not [of az s "CHR ''_''"] by (auto simp: TypePrefixPattern_def class_defs)

lemma good_tup:
  assumes "db_good d" and "r \<in> set (db_tup d)"
  shows "canonical (tr_id r)" "canonical (tr_subject_id r)" "canonical (tr_object_id r)"
    "CHR ''_'' \<notin> set (tr_subject_type r)" "CHR ''_'' \<notin> set (tr_object_type r)"
  using assms type_no_underscore
  by (auto simp: db_good_def db_valid_def db_typed_def list_all_iff tup_typed_def tup_chk_def)

lemma wire_form_parse: "env_ok e \<Longrightarrow> canonical u \<Longrightarrow> CHR ''_'' \<notin> set p \<Longrightarrow> wireToUUID (pe_uuid e) (uuidToWire p u) = Inr u"
  by (simp add: env_ok_def wireToUUID_uuidToWire)

lemma find_hit: "(\<exists>x. find P xs = Some x) \<longleftrightarrow> (\<exists>x \<in> set xs. P x)"
  by (induction xs) auto

lemma pg_direct_key:
  assumes "env_ok e" and "db_good d" and "wire_form st sid" and "wire_form ot oid"
  shows "(\<exists>tid. pg_direct e d st sid rel ot oid = Some tid) \<longleftrightarrow> (st, sid, rel, ot, oid) \<in> tuple_keys d"
proof -
  obtain u v where u: "canonical u" "sid = uuidToWire st u" "CHR ''_'' \<notin> set st"
    and v: "canonical v" "oid = uuidToWire ot v" "CHR ''_'' \<notin> set ot"
    using assms(3,4) by (auto simp: wire_form_def)
  have "(\<exists>tid. pg_direct e d st sid rel ot oid = Some tid) \<longleftrightarrow>
      (\<exists>r \<in> set (db_tup d). tup_parts r = (st, u, rel, ot, v))"
    using wire_form_parse [OF assms(1) u(1,3)] wire_form_parse [OF assms(1) v(1,3)] u(2) v(2)
    by (simp add: pg_direct_def find_hit)
  also have "\<dots> \<longleftrightarrow> (st, sid, rel, ot, oid) \<in> tuple_keys d"
    using good_tup [OF assms(2)] u v
    by (auto simp: tuple_keys_def row_key_def tup_parts_def image_iff uuidToWire_inj)
  finally show ?thesis .
qed

lemma set_scan_all: "rid ` set t \<subseteq> set ks \<Longrightarrow> set (scan rid ks (filter P t)) = {r \<in> set t. P r}"
  by (auto simp: scan_def)

lemma pg_subjects_key:
  assumes "backend_good (e, d)" and "canonical v" and "CHR ''_'' \<notin> set ot" and "oid = uuidToWire ot v"
  shows "(\<exists>sub \<in> set (pg_subjects e d ot v rel (pe_order e ot oid rel)). ref_SubjectType sub = st \<and> ref_SubjectID sub = sid) \<longleftrightarrow>
    (st, sid, rel, ot, oid) \<in> tuple_keys d"
proof -
  have e: "db_good d" "tr_id ` set (db_tup d) \<subseteq> set (pe_order e ot oid rel)"
    using assms(1) by (auto simp: backend_good_def scans_all_def)
  have rows: "set (scan tr_id (pe_order e ot (uuidToWire ot v) rel) (filter P (db_tup d))) = {r \<in> set (db_tup d). P r}" for P
    using set_scan_all [of tr_id "db_tup d" "pe_order e ot (uuidToWire ot v) rel"] e(2) assms(4) by simp
  have eq: "r \<in> set (db_tup d) \<Longrightarrow> uuidToWire ot (tr_object_id r) = uuidToWire ot v \<longleftrightarrow> tr_object_id r = v" for r
    using good_tup [OF e(1)] assms(2) by (simp add: uuidToWire_inj)
  have "(st, sid, rel, ot, oid) \<in> tuple_keys d \<longleftrightarrow> (\<exists>r \<in> set (db_tup d). tr_object_type r = ot \<and> tr_object_id r = v \<and>
      tr_relation r = rel \<and> tr_subject_type r = st \<and> uuidToWire (tr_subject_type r) (tr_subject_id r) = sid)"
    unfolding assms(4) tuple_keys_def row_key_def image_iff using eq by (metis prod.inject)
  then show ?thesis by (auto simp: pg_subjects_def rows assms(4))
qed

lemma pg_listing_subjects:
  assumes "env_ok e" and "canonical v" and "CHR ''_'' \<notin> set ot" and "oid = uuidToWire ot v"
  shows "set (pg_listing e d ot oid rel) \<subseteq> set (pg_subjects e d ot v rel (pe_order e ot oid rel))"
    and "uncut e \<Longrightarrow> pg_listing e d ot oid rel = pg_subjects e d ot v rel (pe_order e ot oid rel)"
  using wire_form_parse [OF assms(1-3)] assms(4)
  by (auto simp: pg_listing_def uncut_def Let_def dest: in_set_takeD split: option.splits)

lemma pg_listing_sound:
  assumes "backend_good (e, d)" and "wire_form ot oid" and "sub \<in> set (pg_listing e d ot oid rel)"
  shows "(ref_SubjectType sub, ref_SubjectID sub, rel, ot, oid) \<in> tuple_keys d"
proof -
  obtain v where v: "canonical v" "CHR ''_'' \<notin> set ot" "oid = uuidToWire ot v" using assms(2) by (auto simp: wire_form_def)
  have "env_ok e" using assms(1) by (simp add: backend_good_def)
  from pg_listing_subjects(1) [OF this v] pg_subjects_key [OF assms(1) v] assms(3) show ?thesis by blast
qed

lemma pg_listing_complete:
  assumes "backend_good (e, d)" and "uncut e" and "wire_form ot oid" and "(st, sid, rel, ot, oid) \<in> tuple_keys d"
  shows "\<exists>sub \<in> set (pg_listing e d ot oid rel). ref_SubjectType sub = st \<and> ref_SubjectID sub = sid"
proof -
  obtain v where v: "canonical v" "CHR ''_'' \<notin> set ot" "oid = uuidToWire ot v" using assms(3) by (auto simp: wire_form_def)
  have "env_ok e" using assms(1) by (simp add: backend_good_def)
  from pg_listing_subjects(2) [OF this v assms(2)] pg_subjects_key [OF assms(1) v] assms(4) show ?thesis by simp
qed

lemma tuple_keys_wire: "db_good d \<Longrightarrow> (st, sid, rel, ot, oid) \<in> tuple_keys d \<Longrightarrow> wire_form st sid \<and> wire_form ot oid"
  using good_tup by (fastforce simp: tuple_keys_def row_key_def wire_form_def)

interpretation pg_source: tuple_source backend_good "\<lambda>ed. tuple_keys (snd ed)" wire_form
  "\<lambda>ed. pg_direct (fst ed) (snd ed)" "\<lambda>ed. pg_listing (fst ed) (snd ed)"
  by unfold_locales
    (use pg_direct_key pg_listing_sound tuple_keys_wire in \<open>auto simp: backend_good_def\<close>)

interpretation pg_tuples: tuple_backend "\<lambda>ed. backend_good ed \<and> uncut (fst ed)" "\<lambda>ed. tuple_keys (snd ed)" wire_form
  "\<lambda>ed. pg_direct (fst ed) (snd ed)" "\<lambda>ed. pg_listing (fst ed) (snd ed)"
  by unfold_locales
    (use pg_source.lookup_tuple pg_source.listing_sound pg_source.tuples_wf pg_listing_complete in auto)

lemma holds_no_rules: "holds None T st sid rel ot oid \<longleftrightarrow> (st, sid, rel, ot, oid) \<in> T"
  by (auto elim: holds.cases intro: holds_direct)

lemma directLookup_quiet: "snd (directLookup e d st sid rel ot oid) = None \<Longrightarrow>
    fst (directLookup e d st sid rel ot oid) = pg_direct e d st sid rel ot oid"
  by (auto simp: directLookup_def pg_direct_def split: sum.splits option.splits)

lemma listByObject_quiet: "snd (listByObject e d ot oid rel) = None \<Longrightarrow>
    fst (listByObject e d ot oid rel) = pg_listing e d ot oid rel"
  by (auto simp: listByObject_def pg_listing_def Let_def split: sum.splits option.splits)

lemma pg_Check_direct:
  assumes "backend_good (e, d)" and "wire_form (ci_SubjectType i) (ci_SubjectID i)"
    and "wire_form (ci_ObjectType i) (ci_ObjectID i)" and "pg_Check s i e d = Inr r" and "pts_rules s = None"
  shows "chk_Allowed r \<longleftrightarrow> holds None (tuple_keys d) (ci_SubjectType i) (ci_SubjectID i)
    (ci_Relation i) (ci_ObjectType i) (ci_ObjectID i)"
proof -
  obtain hit w where h: "directLookup e d (ci_SubjectType i) (ci_SubjectID i) (ci_Relation i) (ci_ObjectType i)
      (ci_ObjectID i) = (hit, w)" by fastforce
  then have "w = None" using assms(4,5) by (auto simp: pg_Check_def split: option.splits)
  then have "hit = pg_direct e d (ci_SubjectType i) (ci_SubjectID i) (ci_Relation i) (ci_ObjectType i) (ci_ObjectID i)"
    using directLookup_quiet [of e d "ci_SubjectType i" "ci_SubjectID i" "ci_Relation i" "ci_ObjectType i" "ci_ObjectID i"] h
    by simp
  moreover have "chk_Allowed r \<longleftrightarrow> (\<exists>tid. hit = Some tid)"
    using assms(4,5) h \<open>w = None\<close> by (auto simp: pg_Check_def check_allowed_def check_denied_def split: option.splits)
  ultimately show ?thesis
    using pg_direct_key [OF _ _ assms(2,3)] assms(1) by (simp add: backend_good_def holds_no_rules)
qed

lemma pg_Check_evaluates:
  assumes "pg_Check s i e d = Inr r" and "pts_rules s = Some rules"
  obtains res where "Evaluate (Some rules) (ci_SubjectType i) (ci_SubjectID i) (ci_Relation i) (ci_ObjectType i)
      (ci_ObjectID i) (pg_direct e d) (pg_listing e d) \<lparr>MaxDepth = pts_maxDepth s, MaxFanOut = pts_maxFanOut s\<rparr> = Inr res"
    "chk_Allowed r = Allowed res"
proof -
  let ?opts = "\<lparr>MaxDepth = pts_maxDepth s, MaxFanOut = pts_maxFanOut s\<rparr>"
  obtain v w where v: "Evaluate_io e d rules i ?opts = (v, w)" by (cases "Evaluate_io e d rules i ?opts")
  have w: "w = None" using assms v by (cases v; cases w) (auto simp: pg_Check_def)
  let ?E = "\<lparr>eio_rules = Some rules, eio_subjectType = ci_SubjectType i, eio_subjectID = ci_SubjectID i,
        eio_directLookup = directLookup e d, eio_listByObject = listByObject e d, eio_maxFanOut = maxFanOut ?opts\<rparr>"
  have "agrees (pg_direct e d) (pg_listing e d) ?E"
    by (simp add: agrees_def directLookup_quiet listByObject_quiet)
  from eval_rec_io_quiet [OF this, of "nat (maxDepth ?opts)" "[]" "ci_Relation i" "ci_ObjectType i" "ci_ObjectID i"] v w
  have "v = Evaluate (Some rules) (ci_SubjectType i) (ci_SubjectID i) (ci_Relation i) (ci_ObjectType i)
      (ci_ObjectID i) (pg_direct e d) (pg_listing e d) ?opts"
    by (simp add: Evaluate_io_def Evaluate_def captured_def quiet_env_def)
  moreover obtain res where "v = Inr res" "chk_Allowed r = Allowed res"
    using assms v w by (auto simp: pg_Check_def check_allowed_def check_denied_def split: sum.splits if_splits)
  ultimately show thesis by (intro that [of res]) simp_all
qed

text \<open>What is allowed is granted; what is granted is allowed unless a listing broke off.\<close>

lemma pg_Check_holds:
  assumes "backend_good (e, d)" and "wire_form (ci_SubjectType i) (ci_SubjectID i)"
    and "wire_form (ci_ObjectType i) (ci_ObjectID i)" and "pg_Check s i e d = Inr r"
  shows "chk_Allowed r \<Longrightarrow> holds (pts_rules s) (tuple_keys d) (ci_SubjectType i) (ci_SubjectID i)
      (ci_Relation i) (ci_ObjectType i) (ci_ObjectID i)"
    and "pts_rules s = None \<or> uncut e \<Longrightarrow> chk_Allowed r \<longleftrightarrow> holds (pts_rules s) (tuple_keys d) (ci_SubjectType i)
      (ci_SubjectID i) (ci_Relation i) (ci_ObjectType i) (ci_ObjectID i)"
proof -
  have "(chk_Allowed r \<longrightarrow> holds (pts_rules s) (tuple_keys d) (ci_SubjectType i) (ci_SubjectID i)
      (ci_Relation i) (ci_ObjectType i) (ci_ObjectID i)) \<and>
    (pts_rules s = None \<or> uncut e \<longrightarrow> (chk_Allowed r \<longleftrightarrow> holds (pts_rules s) (tuple_keys d) (ci_SubjectType i)
      (ci_SubjectID i) (ci_Relation i) (ci_ObjectType i) (ci_ObjectID i)))"
  proof (cases "pts_rules s")
    case None
    then show ?thesis using pg_Check_direct [OF assms] by simp
  next
    case (Some rules)
    obtain res where "Evaluate (Some rules) (ci_SubjectType i) (ci_SubjectID i) (ci_Relation i) (ci_ObjectType i)
        (ci_ObjectID i) (pg_direct e d) (pg_listing e d) \<lparr>MaxDepth = pts_maxDepth s, MaxFanOut = pts_maxFanOut s\<rparr> = Inr res"
      "chk_Allowed r = Allowed res" by (rule pg_Check_evaluates [OF assms(4) Some])
    then show ?thesis
      using pg_source.Evaluate_allows_holds [OF assms(1-3), of "Some rules" "ci_Relation i" _ res]
        pg_tuples.Evaluate_holds [of "(e, d)", OF _ assms(2,3), of "Some rules" "ci_Relation i" _ res] assms(1) Some by simp
  qed
  then show "chk_Allowed r \<Longrightarrow> holds (pts_rules s) (tuple_keys d) (ci_SubjectType i) (ci_SubjectID i)
      (ci_Relation i) (ci_ObjectType i) (ci_ObjectID i)"
    and "pts_rules s = None \<or> uncut e \<Longrightarrow> chk_Allowed r \<longleftrightarrow> holds (pts_rules s) (tuple_keys d) (ci_SubjectType i)
      (ci_SubjectID i) (ci_Relation i) (ci_ObjectType i) (ci_ObjectID i)" by blast+
qed

end
