(* ===== verification/PgDemo.thy ===== *)
theory PgDemo
  imports PgRuns
begin

text \<open>
  A concrete environment and concrete databases for the witnesses of the PostgreSQL stores: a run that creates a
  user, an organization and a share.
\<close>

definition pg_demo_uuid :: "char \<Rightarrow> nat \<Rightarrow> uuid" where
  "pg_demo_uuid x n = ''0190f2a8-1b3c-7abc-8123-456789abcd'' @ [x, ''0123456789abcdef'' ! min n 15]"

definition pg_demo_lib :: "char \<Rightarrow> uuid_lib" where
  "pg_demo_lib x = \<lparr>uuid_Parse = demo_Parse, uuid_NewV7 = (\<lambda>n. Inr (pg_demo_uuid x n))\<rparr>"

definition pg_demo_sha :: "string \<Rightarrow> string" where
  "pg_demo_sha s = take 32 (s @ replicate 32 CHR ''0'')"

definition pg_demo_ids :: "uuid list" where
  "pg_demo_ids = concat (map (\<lambda>x. map (pg_demo_uuid x) [0..<16]) ''abc'')"

definition pg_demo :: "char \<Rightarrow> gotime \<Rightarrow> pg_env" where
  "pg_demo x now = \<lparr>pe_uuid = pg_demo_lib x, pe_badUUID = (\<lambda>_. uuid_Nil), pe_clock = (\<lambda>_. now), pe_now = (\<lambda>_. now),
     pe_fault = (\<lambda>_. None), pe_cut = (\<lambda>_. None), pe_make = (\<lambda>_. True), pe_rand = (\<lambda>n k. Inr (replicate (nat k) x)), pe_sha256 = pg_demo_sha,
     pe_scan = (\<lambda>_. pg_demo_ids), pe_lookup_fault = (\<lambda>_ _ _ _ _. None), pe_list_fault = (\<lambda>_ _ _. None), pe_list_cut = (\<lambda>_ _ _. None),
     pe_order = (\<lambda>_ _ _. pg_demo_ids), pe_ilike = (\<lambda>_ _. True), pe_quote = id, pe_jsonb = Some,
     pe_unmarshal_pre = (\<lambda>_. Inr [])\<rparr>"

lemma pg_demo_digit: "in_class hex_lower (''0123456789abcdef'' ! min n 15)"
proof -
  have "\<forall>i \<in> set [0..<16]. in_class hex_lower (''0123456789abcdef'' ! i)" by code_simp
  then show ?thesis by (auto simp: min_def)
qed

lemma pg_demo_lib_ok:
  assumes "in_class hex_lower x"
  shows "uuid_ok (pg_demo_lib x)"
proof -
  have "\<exists>a b c d e. pg_demo_uuid x n = uuid_text a b c d e \<and> group_lengths a b c d e \<and>
      list_all (in_class hex_lower) (a @ b @ c @ d @ e) \<and> hd c = CHR ''7''" for n
    by (intro exI [of _ "''0190f2a8''"] exI [of _ "''1b3c''"] exI [of _ "''7abc''"] exI [of _ "''8123''"]
        exI [of _ "''456789abcd'' @ [x, ''0123456789abcdef'' ! min n 15]"])
      (use assms pg_demo_digit [of n] in \<open>auto simp: uuid_text_def group_lengths_def class_defs pg_demo_uuid_def\<close>)
  then show ?thesis by (auto simp: uuid_ok_def uuid_NewV7_spec_def pg_demo_lib_def demo_Parse_spec)
qed

definition pg_demo_usr :: string where "pg_demo_usr = ''usr_0190f2a81b3c7abc8123456789abcda0''"
definition pg_demo_org :: string where "pg_demo_org = ''org_0190f2a81b3c7abc8123456789abcdb1''"

definition pg_demo_after :: "(pg_db, 'e, 'a) db \<Rightarrow> pg_env \<Rightarrow> pg_db \<Rightarrow> pg_db" where
  "pg_demo_after m e d = (case db_effect m e d of None \<Rightarrow> d | Some d' \<Rightarrow> d')"

definition pg_demo1 :: pg_db where
  "pg_demo1 = pg_demo_after (pg_CreateUser (Some ''Ann'')) (pg_demo CHR ''a'' 1000) empty_db"

definition pg_demo2 :: pg_db where
  "pg_demo2 = pg_demo_after (pg_CreateOrg pg_demo_usr \<lparr>coo_Name = None, coo_Slug = None\<rparr>) (pg_demo CHR ''b'' 2000) pg_demo1"

definition pg_demo_share :: CreateShareInput where
  "pg_demo_share = \<lparr>csi_ObjectType = ''org'', csi_ObjectID = pg_demo_org, csi_Relation = ''viewer'',
     csi_CreatedBy = pg_demo_usr, csi_ExpiresInSeconds = 60, csi_SingleUse = True\<rparr>"

definition pg_demo3 :: pg_db where
  "pg_demo3 = pg_demo_after (pg_CreateShare pg_demo_share) (pg_demo CHR ''c'' 3000) pg_demo2"

lemma pg_demo_ok: "in_class hex_lower x \<Longrightarrow> env_ok (pg_demo x now)"
  by (simp add: env_ok_def pg_demo_def pg_demo_lib_ok del: canonical_Nil) (rule canonical_Nil)

lemma pg_demo_after_step:
  "pg_method (db_effect m) \<Longrightarrow> in_class hex_lower x \<Longrightarrow> pg_reach d \<Longrightarrow> pg_reach (pg_demo_after m (pg_demo x now) d)"
  unfolding pg_reach_def pg_steps_def pg_demo_after_def
  by (cases "db_effect m (pg_demo x now) d") (auto simp: pg_step_def intro!: exI pg_demo_ok elim!: rtranclp.rtrancl_into_rtrancl)

lemma pg_demo_after_steps:
  "pg_method (db_effect m) \<Longrightarrow> in_class hex_lower x \<Longrightarrow> pg_steps d (pg_demo_after m (pg_demo x now) d)"
  unfolding pg_steps_def pg_demo_after_def
  by (cases "db_effect m (pg_demo x now) d") (auto simp: pg_step_def intro!: exI pg_demo_ok r_into_rtranclp)

lemma pg_demo_after_run: "db_run m (pg_demo x now) d = Some (r, d') \<Longrightarrow> pg_demo_after m (pg_demo x now) d = d'"
  by (auto simp: pg_demo_after_def db_effect_def db_run_def)

lemma run_result:
  assumes "map_option (map_sum id f \<circ> fst) x = Some (Inr y)"
  obtains v d where "x = Some (Inr v, d)" "f v = y"
proof -
  obtain r d where x: "x = Some (r, d)" "map_sum id f r = Inr y" using assms by auto
  then show thesis using that by (cases r) auto
qed

lemma pg_demo_reach1: "pg_reach pg_demo1"
  unfolding pg_demo1_def
  by (rule pg_demo_after_step [OF CreateUser_call]) (simp_all add: class_defs pg_reach_def pg_steps_def)

lemma pg_demo_reach2: "pg_reach pg_demo2"
  unfolding pg_demo2_def
  by (rule pg_demo_after_step [OF CreateOrg_call _ pg_demo_reach1]) (simp add: class_defs)

lemma pg_demo_reach3: "pg_reach pg_demo3"
  unfolding pg_demo3_def
  by (rule pg_demo_after_step [OF CreateShare_call _ pg_demo_reach2]) (simp add: class_defs)



lemma pg_demo3_size: "length (db_shr pg_demo3) = 1"
  by code_simp

end
