(* ===== verification/AuthzPgRefine.thy ===== *)
theory AuthzPgRefine
  imports AuthzPgCheck PgDemo
begin

text \<open>
  The interface \<open>TupleStore\<close> of \<open>packages/authz/store.go\<close> as a contract on the set of stored tuples, kept by the
  store in memory and by the one on PostgreSQL, and what follows for a client that exchanges one for the other.
\<close>

definition input_key :: "CreateTupleInput \<Rightarrow> tuple_key" where
  "input_key i = (cti_SubjectType i, cti_SubjectID i, cti_Relation i, cti_ObjectType i, cti_ObjectID i)"

definition input_names_ok :: "CreateTupleInput \<Rightarrow> bool" where
  "input_names_ok i \<longleftrightarrow> rx_match RelationNamePattern (cti_Relation i) \<and> rx_match TypePrefixPattern (cti_SubjectType i) \<and>
     rx_match TypePrefixPattern (cti_ObjectType i)"

definition subject_keys :: "string \<Rightarrow> string \<Rightarrow> tuple_key set" where
  "subject_keys st sid = {k. \<exists>rel ot oid. k = (st, sid, rel, ot, oid)}"

text \<open>The contract: \<open>CreateTuple\<close> succeeds exactly for a well-named tuple that is not there, and adds it;
  \<open>DeleteTuple\<close> succeeds exactly for the identifier of a tuple, and takes away that tuple alone;
  \<open>CascadeRevokeSubject\<close> takes away the tuples of a subject and counts them.  A store chooses its identifiers:
  \<open>named\<close> is the set of tuples that an identifier stands for, empty or a single one.\<close>

locale tuple_contract =
  fixes good :: "'s \<Rightarrow> bool" and keys :: "'s \<Rightarrow> tuple_key set"
    and create :: "CreateTupleInput \<Rightarrow> 's \<Rightarrow> bool \<Rightarrow> 's \<Rightarrow> bool"
    and cascade :: "string \<Rightarrow> string \<Rightarrow> 's \<Rightarrow> nat \<Rightarrow> 's \<Rightarrow> bool"
    and named :: "string \<Rightarrow> 's \<Rightarrow> tuple_key set" and delete :: "string \<Rightarrow> 's \<Rightarrow> bool \<Rightarrow> 's \<Rightarrow> bool"
  assumes create_law: "good s \<Longrightarrow> create i s ok s' \<Longrightarrow> good s' \<and> ok = (input_names_ok i \<and> input_key i \<notin> keys s) \<and>
      keys s' = (if ok then insert (input_key i) (keys s) else keys s)"
    and cascade_law: "good s \<Longrightarrow> cascade st sid s n s' \<Longrightarrow> good s' \<and> keys s' = keys s - subject_keys st sid \<and>
      n = card (keys s \<inter> subject_keys st sid)"
    and named_law: "good s \<Longrightarrow> k \<in> keys s \<Longrightarrow> \<exists>w. named w s = {k}"
    and delete_law: "good s \<Longrightarrow> delete w s ok s' \<Longrightarrow> good s' \<and> ok = (named w s \<noteq> {}) \<and> keys s' = keys s - named w s"
begin

lemma delete_then_create:
  "good s \<Longrightarrow> delete w s ok s' \<Longrightarrow> named w s = {input_key i} \<Longrightarrow> input_names_ok i \<Longrightarrow> create i s' ok' s'' \<Longrightarrow> ok \<and> ok'"
  using create_law [of s' i ok' s''] delete_law [of s w ok s'] by auto

lemma cascade_then_create:
  "good s \<Longrightarrow> cascade st sid s n s' \<Longrightarrow> input_key i \<in> subject_keys st sid \<Longrightarrow> input_names_ok i \<Longrightarrow> create i s' ok s'' \<Longrightarrow> ok"
  using create_law [of s' i ok s''] cascade_law [of s st sid n s'] by auto

end

subsection \<open>The store in memory\<close>

definition inmem_good :: "tuple_store \<Rightarrow> bool" where
  "inmem_good s \<longleftrightarrow> tuple_inv s \<and> ids_bar_free s"

definition inmem_create :: "CreateTupleInput \<Rightarrow> tuple_store \<Rightarrow> bool \<Rightarrow> tuple_store \<Rightarrow> bool" where
  "inmem_create i s ok s' \<longleftrightarrow> (\<exists>lib clk r. fresh_for lib 0 ''tup'' (ts_tuples s) \<and> CHR ''|'' \<notin> set (cti_SubjectID i) \<and>
     CHR ''|'' \<notin> set (cti_ObjectID i) \<and> CreateTuple lib clk i s = (r, s') \<and> (\<forall>err. r \<noteq> Inl (ErrGenerate err)) \<and>
     ok = (\<not> isl r))"

definition inmem_cascade :: "string \<Rightarrow> string \<Rightarrow> tuple_store \<Rightarrow> nat \<Rightarrow> tuple_store \<Rightarrow> bool" where
  "inmem_cascade st sid s n s' \<longleftrightarrow> (\<exists>ks. visits ks (ts_tuples s) \<and> CascadeRevokeSubject ks st sid s = (n, s'))"

lemma tuple_set_insert:
  "ts_tuples s (tup_ID t) = None \<Longrightarrow>
   tuple_set (s\<lparr>ts_tuples := (ts_tuples s)(tup_ID t \<mapsto> t), ts_naturalKeyToID := m\<rparr>) = insert (key_of t) (tuple_set s)"
  by (auto simp: tuple_set_def) (metis option.distinct(1))

lemma inmem_create_law:
  assumes "inmem_good s" and "inmem_create i s ok s'"
  shows "inmem_good s' \<and> ok = (input_names_ok i \<and> input_key i \<notin> tuple_set s) \<and>
    tuple_set s' = (if ok then insert (input_key i) (tuple_set s) else tuple_set s) \<and> ts_rules s' = ts_rules s"
proof -
  obtain lib clk r where c: "fresh_for lib 0 ''tup'' (ts_tuples s)" "CHR ''|'' \<notin> set (cti_SubjectID i)"
    "CHR ''|'' \<notin> set (cti_ObjectID i)" "CreateTuple lib clk i s = (r, s')" "\<forall>err. r \<noteq> Inl (ErrGenerate err)" "ok = (\<not> isl r)"
    using assms(2) by (auto simp: inmem_create_def)
  have inv: "tuple_inv s" "ids_bar_free s" "tuple_inv s'"
    using assms(1) c(4) tuple_inv_create [OF _ c(1), of clk i] by (auto simp: inmem_good_def)
  have dup: "input_key i \<in> tuple_set s \<longleftrightarrow>
      ts_naturalKeyToID s (tupleNaturalKey (cti_SubjectType i) (cti_SubjectID i) (cti_Relation i) (cti_ObjectType i) (cti_ObjectID i)) \<noteq> None"
    using index_exact [OF inv(1,2)] by (auto simp: tuple_set_def input_key_def)
  show ?thesis
  proof (cases rule: CreateTuple_cases [of lib clk i s])
    case (unchanged e)
    then have r: "r = Inl e" "s' = s" using c(4) by simp_all
    have "\<not> input_names_ok i \<or> input_key i \<in> tuple_set s"
      using c(4,5) dup by (auto simp: CreateTuple_def input_names_ok_def r Let_def split: option.splits sum.splits if_splits)
    then show ?thesis using r c(6) inv by (auto simp: inmem_good_def)
  next
    case (created t)
    have k: "key_of t = input_key i" "tup_SubjectID t = cti_SubjectID i" "tup_ObjectID t = cti_ObjectID i"
      using created(5) by (metis key_of_def input_key_def Tuple.simps)+
    have new: "ts_tuples s (tup_ID t) = None" using created(2) c(1) by (auto simp: fresh_for_def)
    have nk: "natural_key t = tupleNaturalKey (cti_SubjectType i) (cti_SubjectID i) (cti_Relation i) (cti_ObjectType i) (cti_ObjectID i)"
      using k(1) by (simp add: key_of_def input_key_def natural_key_def)
    have "input_names_ok i" using created(3) k(1) by (simp add: tuple_names_ok_def key_of_def input_key_def input_names_ok_def)
    moreover have "input_key i \<notin> tuple_set s" using dup created(4) nk by simp
    moreover have "r = Inr t" "s' = s\<lparr>ts_tuples := (ts_tuples s)(tup_ID t \<mapsto> t),
        ts_naturalKeyToID := (ts_naturalKeyToID s)(natural_key t \<mapsto> tup_ID t)\<rparr>" using created(1) c(4) by simp_all
    moreover have "ids_bar_free s'"
      using calculation(4) inv(2) c(2,3) k(2,3) by (auto simp: ids_bar_free_def)
    ultimately show ?thesis using tuple_set_insert [OF new] k(1) c(6) inv(3) by (simp add: inmem_good_def)
  qed
qed

lemma key_of_inj:
  assumes "inmem_good s" and "ts_tuples s tid = Some t" and "ts_tuples s tid' = Some t'" and "key_of t = key_of t'"
  shows "tid = tid'"
proof -
  obtain st sid rel ot oid where k: "key_of t = (st, sid, rel, ot, oid)" by (cases "key_of t")
  then have "ts_naturalKeyToID s (tupleNaturalKey st sid rel ot oid) = Some tid"
    "ts_naturalKeyToID s (tupleNaturalKey st sid rel ot oid) = Some tid'"
    using index_exact [of s] assms by (auto simp: inmem_good_def)
  then show ?thesis by simp
qed

lemma inmem_cascade_law:
  assumes "inmem_good s" and "inmem_cascade st sid s n s'"
  shows "inmem_good s' \<and> tuple_set s' = tuple_set s - subject_keys st sid \<and> n = card (tuple_set s \<inter> subject_keys st sid) \<and>
    ts_rules s' = ts_rules s"
proof -
  obtain ks where ks: "visits ks (ts_tuples s)" "CascadeRevokeSubject ks st sid s = (n, s')"
    using assms(2) by (auto simp: inmem_cascade_def)
  have inv: "tuple_inv s" "ids_bar_free s" using assms(1) by (auto simp: inmem_good_def)
  have n: "n = card (owned st sid s)" and s': "s' = remove_ids (owned st sid s) s"
    using cascade_remove [OF inv(1) ks(1), of st sid] ks(2) by simp_all
  have own: "tid \<in> owned st sid s \<longleftrightarrow> (\<exists>t. ts_tuples s tid = Some t \<and> key_of t \<in> subject_keys st sid)" for tid
    by (auto simp: owned_def subject_keys_def key_of_def)
  have "tuple_set s' = tuple_set s - subject_keys st sid"
    unfolding tuple_set_def s' remove_ids_sel own by auto (metis option.inject)+
  moreover have "bij_betw (\<lambda>tid. key_of (the (ts_tuples s tid))) (owned st sid s) (tuple_set s \<inter> subject_keys st sid)"
    unfolding bij_betw_def
  proof
    show "inj_on (\<lambda>tid. key_of (the (ts_tuples s tid))) (owned st sid s)"
      using key_of_inj [OF assms(1)] by (auto simp: inj_on_def own)
    show "(\<lambda>tid. key_of (the (ts_tuples s tid))) ` owned st sid s = tuple_set s \<inter> subject_keys st sid"
      by (force simp: own tuple_set_def image_iff)
  qed
  then have "card (owned st sid s) = card (tuple_set s \<inter> subject_keys st sid)" by (rule bij_betw_same_card)
  moreover have "inmem_good s'"
    using tuple_inv_remove_ids [OF inv(1)] inv(2) unfolding s' inmem_good_def by (auto simp: ids_bar_free_def split: if_splits)
  ultimately show ?thesis using n s' by simp
qed

definition inmem_named :: "string \<Rightarrow> tuple_store \<Rightarrow> tuple_key set" where
  "inmem_named w s = key_of ` set_option (ts_tuples s w)"

definition inmem_delete :: "string \<Rightarrow> tuple_store \<Rightarrow> bool \<Rightarrow> tuple_store \<Rightarrow> bool" where
  "inmem_delete w s ok s' \<longleftrightarrow> (\<exists>r. DeleteTuple w s = (r, s') \<and> ok = (\<not> isl r))"

lemma inmem_named_law: "k \<in> tuple_set s \<Longrightarrow> \<exists>w. inmem_named w s = {k}"
  unfolding tuple_set_def inmem_named_def by (elim CollectE exE conjE) (metis image_empty image_insert option.simps(15))

lemma inmem_delete_law:
  assumes "inmem_good s" and "inmem_delete w s ok s'"
  shows "inmem_good s' \<and> ok = (inmem_named w s \<noteq> {}) \<and> tuple_set s' = tuple_set s - inmem_named w s \<and> ts_rules s' = ts_rules s"
proof -
  obtain r where r: "DeleteTuple w s = (r, s')" "ok = (\<not> isl r)" using assms(2) by (auto simp: inmem_delete_def)
  have inv: "tuple_inv s" "ids_bar_free s" using assms(1) by (auto simp: inmem_good_def)
  show ?thesis
  proof (cases "ts_tuples s w")
    case None
    then have "s' = s" "\<not> ok" using r by (auto simp: DeleteTuple_def)
    then show ?thesis using None assms(1) by (simp add: inmem_named_def)
  next
    case (Some t)
    have s': "s' = remove_ids {w} s" and ok: "ok" using r Some DeleteTuple_remove [OF inv(1), of w] by auto
    have other: "tid \<noteq> w \<longleftrightarrow> key_of q \<noteq> key_of t" if "ts_tuples s tid = Some q" for tid q
      using key_of_inj [OF assms(1) that Some] that Some by auto
    have "k \<in> tuple_set s' \<longleftrightarrow> k \<in> tuple_set s - {key_of t}" for k
      unfolding tuple_set_def s' remove_ids_sel using other by auto
    then have "tuple_set s' = tuple_set s - {key_of t}" by blast
    moreover have "inmem_good s'"
      using tuple_inv_remove_ids [OF inv(1)] inv(2) unfolding s' inmem_good_def by (auto simp: ids_bar_free_def split: if_splits)
    ultimately show ?thesis using ok Some s' by (simp add: inmem_named_def)
  qed
qed

interpretation inmem_contract: tuple_contract inmem_good tuple_set inmem_create inmem_cascade inmem_named inmem_delete
  by (unfold_locales; (drule (1) inmem_create_law inmem_cascade_law inmem_delete_law | erule inmem_named_law); (elim conjE, intro conjI)?; assumption)

subsection \<open>The store on PostgreSQL\<close>

text \<open>An answer is a result or an error of the package; what the driver reports passes the contract by.\<close>

definition answered :: "authz_error pg_fail + 'a \<Rightarrow> bool" where
  "answered r \<longleftrightarrow> (\<forall>err. r = Inl err \<longrightarrow> (\<exists>x. err = PgErr x))"

definition new_tuple_id :: "pg_env \<Rightarrow> pg_db \<Rightarrow> bool" where
  "new_tuple_id e d \<longleftrightarrow> (\<forall>u. uuid_NewV7 (pe_uuid e) 0 = Inr u \<longrightarrow> u \<notin> tr_id ` set (db_tup d))"

definition table_create :: "CreateTupleInput \<Rightarrow> pg_db \<Rightarrow> bool \<Rightarrow> pg_db \<Rightarrow> bool" where
  "table_create i d ok d' \<longleftrightarrow> (\<exists>e r. env_ok e \<and> new_tuple_id e d \<and> wire_form (cti_SubjectType i) (cti_SubjectID i) \<and>
     wire_form (cti_ObjectType i) (cti_ObjectID i) \<and> db_run (pg_CreateTuple i) e d = Some (r, d') \<and> answered r \<and>
     ok = (\<not> isl r))"

definition table_cascade :: "string \<Rightarrow> string \<Rightarrow> pg_db \<Rightarrow> nat \<Rightarrow> pg_db \<Rightarrow> bool" where
  "table_cascade st sid d n d' \<longleftrightarrow> (\<exists>e. env_ok e \<and> wire_form st sid \<and>
     db_run (pg_CascadeRevokeSubject st sid) e d = Some (Inr n, d'))"

definition table_named :: "string \<Rightarrow> pg_db \<Rightarrow> tuple_key set" where
  "table_named w d = row_key ` {r \<in> set (db_tup d). uuidToWire ''tup'' (tr_id r) = w}"

definition table_delete :: "string \<Rightarrow> pg_db \<Rightarrow> bool \<Rightarrow> pg_db \<Rightarrow> bool" where
  "table_delete w d ok d' \<longleftrightarrow> (\<exists>e r. env_ok e \<and> wire_form ''tup'' w \<and> db_run (pg_DeleteTuple w) e d = Some (r, d') \<and>
     answered r \<and> ok = (\<not> isl r))"

lemma tuple_keys_insert: "insert_tup r d = Inr (row, d') \<Longrightarrow> tuple_keys d' = insert (row_key r) (tuple_keys d) \<and> tup_parts r \<notin> tup_parts ` set (db_tup d)"
  by (auto simp: insert_tup_def sql_insert_Inr map_sum_def tuple_keys_def tup_uniq_def split: sum.splits)

lemma insert_tup_refused:
  "insert_tup r d = Inl PgUnique \<Longrightarrow> tup_uniq (db_tup d) \<Longrightarrow> tr_id r \<notin> tr_id ` set (db_tup d) \<Longrightarrow> tup_parts r \<in> tup_parts ` set (db_tup d)"
  by (auto simp: insert_tup_def sql_insert_def map_sum_def tup_uniq_def split: sum.splits if_splits)

lemma parts_key:
  assumes "db_good d" and "canonical u" and "canonical v"
  shows "(st, u, rel, ot, v) \<in> tup_parts ` set (db_tup d) \<longleftrightarrow> (st, uuidToWire st u, rel, ot, uuidToWire ot v) \<in> tuple_keys d"
  using good_tup [OF assms(1)] assms(2,3) by (auto simp: tuple_keys_def row_key_def tup_parts_def image_iff uuidToWire_inj)

lemma wire_ok_run: "wireToUUID (pe_uuid e) wid = Inr u \<Longrightarrow> db_wire wid e n d = Some (Inr u, n, d)"
  by (simp add: db_wire_run)

lemma wire_opt_run: "\<exists>r. db_wire_opt w e n d = Some (r, n, d) \<and> (isl r \<longrightarrow> (\<exists>x. r = Inl (PgWire x)))"
  by (cases w; cases "wireToUUID (pe_uuid e) (the w)")
    (auto simp: db_wire_opt_def db_ok_def db_bind_def db_wire_def db_sum_def db_fail_def)

lemma create_statement:
  assumes "pg_CreateTuple i e 0 d = Some (r, n', d')" and "input_names_ok i"
    and "wireToUUID (pe_uuid e) (cti_SubjectID i) = Inr u" and "wireToUUID (pe_uuid e) (cti_ObjectID i) = Inr v" and "answered r"
  shows "\<exists>row0. tup_parts row0 = (cti_SubjectType i, u, cti_Relation i, cti_ObjectType i, v) \<and>
    uuid_NewV7 (pe_uuid e) 0 = Inr (tr_id row0) \<and>
    (insert_tup row0 d = Inl PgUnique \<and> isl r \<and> d' = d \<or> (\<exists>row. insert_tup row0 d = Inr (row, d') \<and> \<not> isl r))"
proof -
  note parse = assms(3,4)
  obtain w :: "authz_error pg_fail + uuid option" where w: "db_wire_opt (cti_CreatedBy i) e 0 d = Some (w, 0, d)" "isl w \<Longrightarrow> \<exists>x. w = Inl (PgWire x)"
    using wire_opt_run [of "cti_CreatedBy i" e 0 d] by auto
  have "\<not> isl w"
    using assms(1,2,5) w(2)
    by (cases w) (auto simp: pg_CreateTuple_def input_names_ok_def db_bind_def wire_ok_run [OF parse(1)]
      wire_ok_run [OF parse(2)] w(1) answered_def)
  then obtain by1 where by1: "(db_wire_opt :: _ \<Rightarrow> (pg_db, authz_error, _) db) (cti_CreatedBy i) e 0 d = Some (Inr by1, 0, d)" 
    using w(1) by (cases w) auto
  obtain newID where id: "uuid_NewV7 (pe_uuid e) 0 = Inr newID"
    using assms(1,2) by (cases "uuid_NewV7 (pe_uuid e) 0") (auto simp: pg_CreateTuple_def input_names_ok_def db_bind_def
      wire_ok_run [OF parse(1)] wire_ok_run [OF parse(2)] by1 db_newV7_def)
  let ?row = "\<lparr>tr_id = newID, tr_subject_type = cti_SubjectType i, tr_subject_id = u, tr_relation = cti_Relation i,
       tr_object_type = cti_ObjectType i, tr_object_id = v, tr_created_at = pg_time (pe_now e 1), tr_created_by = by1\<rparr>"
  have "insert_tup ?row d = Inl PgUnique \<and> isl r \<and> d' = d \<or> (\<exists>row. insert_tup ?row d = Inr (row, d') \<and> \<not> isl r)"
    using assms(1,2,5)
    by (auto simp: pg_CreateTuple_def input_names_ok_def db_bind_def wire_ok_run [OF parse(1)] wire_ok_run [OF parse(2)] by1
        db_newV7_def id db_map_error_def db_stmt_def db_ok_def duplicate_tuple_def answered_def
        split: option.splits sum.splits if_splits elim!: isUniqueViolation.elims)
  then show ?thesis using id by (intro exI [of _ ?row]) (simp add: tup_parts_def)
qed

lemma table_create_law:
  assumes "db_good d" and "table_create i d ok d'"
  shows "db_good d' \<and> ok = (input_names_ok i \<and> input_key i \<notin> tuple_keys d) \<and>
    tuple_keys d' = (if ok then insert (input_key i) (tuple_keys d) else tuple_keys d)"
proof -
  obtain e r n' where c: "env_ok e" "new_tuple_id e d" "wire_form (cti_SubjectType i) (cti_SubjectID i)"
    "wire_form (cti_ObjectType i) (cti_ObjectID i)" "pg_CreateTuple i e 0 d = Some (r, n', d')" "answered r" "ok = (\<not> isl r)"
    using assms(2) by (auto simp: table_create_def db_run_def)
  have good: "db_good d'" using keepsD(1) [OF pg_CreateTuple_keeps c(1) assms(1) c(5)] .
  show ?thesis
  proof (cases "input_names_ok i")
    case False
    then have "isl r \<and> d' = d" using c(5) by (auto simp: pg_CreateTuple_def input_names_ok_def db_fail_def split: if_splits)
    then show ?thesis using False c(7) good by simp
  next
    case True
    obtain u v where u: "canonical u" "cti_SubjectID i = uuidToWire (cti_SubjectType i) u" "CHR ''_'' \<notin> set (cti_SubjectType i)"
      and v: "canonical v" "cti_ObjectID i = uuidToWire (cti_ObjectType i) v" "CHR ''_'' \<notin> set (cti_ObjectType i)"
      using c(3,4) by (auto simp: wire_form_def)
    obtain row0 where row0: "tup_parts row0 = (cti_SubjectType i, u, cti_Relation i, cti_ObjectType i, v)"
      "tr_id row0 \<notin> tr_id ` set (db_tup d)"
      and out: "insert_tup row0 d = Inl PgUnique \<and> isl r \<and> d' = d \<or> (\<exists>row. insert_tup row0 d = Inr (row, d') \<and> \<not> isl r)"
      using create_statement [OF c(5) True wire_form_parse [OF c(1) u(1,3), folded u(2)] wire_form_parse [OF c(1) v(1,3), folded v(2)] c(6)]
        c(2) by (metis new_tuple_id_def)
    have key: "tup_parts row0 \<in> tup_parts ` set (db_tup d) \<longleftrightarrow> input_key i \<in> tuple_keys d" "row_key row0 = input_key i"
      using parts_key [OF assms(1) u(1) v(1)] row0(1) u(2) v(2) by (auto simp: input_key_def row_key_def tup_parts_def)
    have "tup_uniq (db_tup d)" using assms(1) by (simp add: db_good_tables table_ok_def)
    then show ?thesis using out key row0(2) c(7) good True
      by (auto dest: tuple_keys_insert insert_tup_refused)
  qed
qed

lemma good_rows:
  assumes "db_good d"
  shows "inj_on tr_id (set (db_tup d))" and "inj_on row_key (set (db_tup d))"
  using assms good_tup [OF assms]
  by (auto simp: db_good_tables table_ok_def tup_uniq_def inj_on_def row_key_def tup_parts_def uuidToWire_inj distinct_map)

lemma table_cascade_law:
  assumes "db_good d" and "table_cascade st sid d n d'"
  shows "db_good d' \<and> tuple_keys d' = tuple_keys d - subject_keys st sid \<and> n = card (tuple_keys d \<inter> subject_keys st sid)"
proof -
  obtain e n' where c: "env_ok e" "wire_form st sid" "pg_CascadeRevokeSubject st sid e 0 d = Some (Inr n, n', d')"
    using assms(2) by (auto simp: table_cascade_def db_run_def)
  obtain u where u: "canonical u" "sid = uuidToWire st u" "CHR ''_'' \<notin> set st" using c(2) by (auto simp: wire_form_def)
  have good: "db_good d'" using keepsD(1) [OF pg_CascadeRevokeSubject_keeps c(1) assms(1) c(3)] .
  let ?P = "\<lambda>r. tr_subject_type r = st \<and> tr_subject_id r = u"
  have d': "db_tup d' = filter (\<lambda>r. \<not> ?P r) (db_tup d)" "n = length (filter ?P (db_tup d))"
    using c(3) wire_form_parse [OF c(1) u(1,3)] u(2)
    by (auto simp: pg_CascadeRevokeSubject_def db_runs delete_tup_def sql_delete_def)
  have own: "r \<in> set (db_tup d) \<Longrightarrow> ?P r \<longleftrightarrow> row_key r \<in> subject_keys st sid" for r
    using good_tup [OF assms(1)] u(1,2) by (auto simp: subject_keys_def row_key_def uuidToWire_inj)
  have inj: "inj_on row_key (set (db_tup d))" and dist: "distinct (db_tup d)"
    using good_rows(2) [OF assms(1)] assms(1) by (auto simp: db_good_tables table_ok_def tup_uniq_def distinct_map)
  have "tuple_keys d \<inter> subject_keys st sid = row_key ` set (filter ?P (db_tup d))"
    using own unfolding tuple_keys_def set_filter by blast
  then have "card (tuple_keys d \<inter> subject_keys st sid) = n"
    unfolding d'(2) using inj dist by (simp add: card_image inj_on_subset distinct_card [symmetric] del: set_filter)
  moreover have "tuple_keys d' = tuple_keys d - subject_keys st sid"
    using own unfolding tuple_keys_def d'(1) set_filter by blast
  ultimately show ?thesis using good by simp
qed

lemma table_named_law:
  assumes "db_good d" and "k \<in> tuple_keys d"
  shows "\<exists>w. table_named w d = {k}"
proof -
  obtain r where r: "r \<in> set (db_tup d)" "k = row_key r" using assms(2) by (auto simp: tuple_keys_def)
  have "q \<in> set (db_tup d) \<Longrightarrow> uuidToWire ''tup'' (tr_id q) = uuidToWire ''tup'' (tr_id r) \<longleftrightarrow> q = r" for q
    using good_tup(1) [OF assms(1)] good_rows(1) [OF assms(1)] r(1) by (auto simp: uuidToWire_inj inj_on_def)
  then have "{q \<in> set (db_tup d). uuidToWire ''tup'' (tr_id q) = uuidToWire ''tup'' (tr_id r)} = {r}" using r(1) by blast
  then show ?thesis using r(2) by (intro exI [of _ "uuidToWire ''tup'' (tr_id r)"]) (simp add: table_named_def)
qed

lemma table_delete_law:
  assumes "db_good d" and "table_delete w d ok d'"
  shows "db_good d' \<and> ok = (table_named w d \<noteq> {}) \<and> tuple_keys d' = tuple_keys d - table_named w d"
proof -
  obtain e r n' where c: "env_ok e" "wire_form ''tup'' w" "pg_DeleteTuple w e 0 d = Some (r, n', d')" "answered r" "ok = (\<not> isl r)"
    using assms(2) by (auto simp: table_delete_def db_run_def)
  obtain u where u: "canonical u" "w = uuidToWire ''tup'' u" using c(2) by (auto simp: wire_form_def)
  have good: "db_good d'" using keepsD(1) [OF pg_DeleteTuple_keeps c(1) assms(1) c(3)] .
  let ?P = "\<lambda>r. tr_id r = u"
  have parse: "wireToUUID (pe_uuid e) w = Inr u" using wire_form_parse [OF c(1) u(1), of "''tup''"] u(2) by simp
  have d': "db_tup d' = filter (\<lambda>r. \<not> ?P r) (db_tup d)" "ok = (filter ?P (db_tup d) \<noteq> [])"
    using c(3-5)
    by (auto simp: pg_DeleteTuple_def db_bind_def wire_ok_run [OF parse] db_stmt_def delete_tup_def sql_delete_def db_fail_def
        db_ok_def answered_def split: option.splits if_splits)
  have own: "table_named w d = row_key ` {r \<in> set (db_tup d). ?P r}"
    using good_tup(1) [OF assms(1)] u by (auto simp: table_named_def uuidToWire_inj)
  have "tuple_keys d' = tuple_keys d - table_named w d"
    using good_rows(2) [OF assms(1)] by (auto simp: tuple_keys_def d'(1) own inj_on_def)
  moreover have "ok = (table_named w d \<noteq> {})" unfolding own d'(2) by (auto simp: filter_empty_conv)
  ultimately show ?thesis using good by simp
qed

interpretation table_contract: tuple_contract db_good tuple_keys table_create table_cascade table_named table_delete
  by (unfold_locales; (rule table_create_law table_cascade_law table_named_law table_delete_law; assumption))

subsection \<open>The same calls on both stores\<close>

text \<open>The client passes to each store the identifier that store gave to the tuple (or one that it gave to none).\<close>

inductive both_step :: "tuple_store \<times> pg_db \<Rightarrow> tuple_store \<times> pg_db \<Rightarrow> bool" where
  both_create: "inmem_create i s ok s' \<Longrightarrow> table_create i d ok' d' \<Longrightarrow> both_step (s, d) (s', d')"
| both_delete: "inmem_named w s = table_named w' d \<Longrightarrow> inmem_delete w s ok s' \<Longrightarrow> table_delete w' d ok' d' \<Longrightarrow>
    both_step (s, d) (s', d')"
| both_cascade: "inmem_cascade st sid s n s' \<Longrightarrow> table_cascade st sid d n' d' \<Longrightarrow> both_step (s, d) (s', d')"

definition same_tuples :: "Rules option \<Rightarrow> tuple_store \<times> pg_db \<Rightarrow> bool" where
  "same_tuples rules sd \<longleftrightarrow> inmem_good (fst sd) \<and> db_good (snd sd) \<and> tuple_set (fst sd) = tuple_keys (snd sd) \<and>
     ts_rules (fst sd) = rules"

lemma both_step_same: "both_step x y \<Longrightarrow> same_tuples rules x \<Longrightarrow> same_tuples rules y"
proof (induction rule: both_step.induct)
  case (both_create i s ok s' d ok' d')
  then show ?case using inmem_create_law [of s i ok s'] table_create_law [of d i ok' d'] by (auto simp: same_tuples_def)
next
  case (both_delete w s w' d ok s' ok' d')
  then show ?case using inmem_delete_law [of s w ok s'] table_delete_law [of d w' ok' d'] by (auto simp: same_tuples_def)
next
  case (both_cascade st sid s n s' d n' d')
  then show ?case using inmem_cascade_law [of s st sid n s'] table_cascade_law [of d st sid n' d'] by (auto simp: same_tuples_def)
qed

lemma both_steps_same: "both_step\<^sup>*\<^sup>* x y \<Longrightarrow> same_tuples rules x \<Longrightarrow> same_tuples rules y"
  by (induction rule: rtranclp_induct) (auto intro: both_step_same)

lemma inmem_good_new: "inmem_good (NewInMemoryTupleStoreWithRules rules opts)"
  by (simp add: inmem_good_def) (simp add: ids_bar_free_def NewInMemoryTupleStoreWithRules_def NewInMemoryTupleStore_def)

lemma both_start: "db_good d0 \<Longrightarrow> db_tup d0 = [] \<Longrightarrow> same_tuples rules (NewInMemoryTupleStoreWithRules rules opts, d0)"
  using inmem_good_new [of rules opts]
  by (simp add: same_tuples_def tuple_set_def tuple_keys_def NewInMemoryTupleStoreWithRules_def NewInMemoryTupleStore_def)

text \<open>C8: the two tuple stores are interchangeable.  After the same creations, deletions and revocations both hold the
  same tuples, every tuple has an identifier of its own on each, the next \<open>CreateTuple\<close> and the next \<open>DeleteTuple\<close>
  succeed on both or on none, the next \<open>CascadeRevokeSubject\<close> counts the same, and under the same rules what \<open>Check\<close> of
  the PostgreSQL store allows \<open>Check\<close> in memory allows too, and they answer the same unless a listing of subjects broke
  off, whenever both answer.\<close>

theorem tuple_stores_agree:
  assumes "pg_reach d0" and "db_tup d0 = []"
    and "both_step\<^sup>*\<^sup>* (NewInMemoryTupleStoreWithRules rules opts, d0) (s, d)"
  shows "tuple_set s = tuple_keys d \<and>
    (\<forall>i ok ok' s' d'. inmem_create i s ok s' \<and> table_create i d ok' d' \<longrightarrow> ok = ok') \<and>
    (\<forall>k \<in> tuple_keys d. \<exists>w w'. inmem_named w s = {k} \<and> table_named w' d = {k}) \<and>
    (\<forall>w w' ok ok' s' d'. inmem_named w s = table_named w' d \<and> inmem_delete w s ok s' \<and> table_delete w' d ok' d' \<longrightarrow> ok = ok') \<and>
    (\<forall>st sid n n' s' d'. inmem_cascade st sid s n s' \<and> table_cascade st sid d n' d' \<longrightarrow> n = n') \<and>
    (\<forall>order e c ps r r'. (\<forall>ot oid rel. visits (order ot oid rel) (ts_tuples s)) \<and> env_ok e \<and> scans_all e d \<and>
       wire_form (ci_SubjectType c) (ci_SubjectID c) \<and> wire_form (ci_ObjectType c) (ci_ObjectID c) \<and>
       pts_rules ps = rules \<and> Check order c s = Inr r \<and> pg_Check ps c e d = Inr r' \<longrightarrow>
       (chk_Allowed r' \<longrightarrow> chk_Allowed r) \<and> (rules = None \<or> uncut e \<longrightarrow> chk_Allowed r = chk_Allowed r'))"
proof (intro conjI allI ballI impI; (elim conjE)?)
  have same: "inmem_good s" "db_good d" "tuple_set s = tuple_keys d" "ts_rules s = rules"
    using both_steps_same [OF assms(3) both_start [OF pg_reach_good [OF assms(1)] assms(2)]] by (auto simp: same_tuples_def)
  show "tuple_set s = tuple_keys d" by (fact same(3))
  show "ok = ok'" if "inmem_create i s ok s'" "table_create i d ok' d'" for i ok ok' s' d'
    using inmem_contract.create_law [OF same(1) that(1)] table_contract.create_law [OF same(2) that(2)] same(3) by simp
  show "\<exists>w w'. inmem_named w s = {k} \<and> table_named w' d = {k}" if "k \<in> tuple_keys d" for k
    using inmem_contract.named_law [OF same(1), of k] table_contract.named_law [OF same(2) that] that same(3) by auto
  show "ok = ok'" if "inmem_named w s = table_named w' d" "inmem_delete w s ok s'" "table_delete w' d ok' d'" for w w' ok ok' s' d'
    using inmem_contract.delete_law [OF same(1) that(2)] table_contract.delete_law [OF same(2) that(3)] that(1) by simp
  show "n = n'" if "inmem_cascade st sid s n s'" "table_cascade st sid d n' d'" for st sid n n' s' d'
    using inmem_contract.cascade_law [OF same(1) that(1)] table_contract.cascade_law [OF same(2) that(2)] same(3) by simp
  fix order e c ps r r'
  assume order: "\<forall>ot oid rel. visits (order ot oid rel) (ts_tuples s)" and e: "env_ok e" "scans_all e d"
    and forms: "wire_form (ci_SubjectType c) (ci_SubjectID c)" "wire_form (ci_ObjectType c) (ci_ObjectID c)"
    and ps: "pts_rules ps = rules" and run: "Check order c s = Inr r" "pg_Check ps c e d = Inr r'"
  have inv: "tuple_inv s" "ids_bar_free s" using same(1) by (simp_all add: inmem_good_def)
  have good: "backend_good (e, d)" using e same(2) by (simp add: backend_good_def)
  note mem = Check_decides [OF inv order [rule_format] run(1)]
  show "chk_Allowed r" if "chk_Allowed r'"
    using mem pg_Check_holds(1) [OF good forms run(2) that] same(3,4) ps by simp
  show "chk_Allowed r = chk_Allowed r'" if "rules = None \<or> uncut e"
    using mem pg_Check_holds(2) [OF good forms run(2)] same(3,4) ps that by simp
qed

definition pg_demo_rules :: Rules where
  "pg_demo_rules = [''org'' \<mapsto> [''viewer'' \<mapsto> [ComputedUserset ''owner'']]]"

definition pg_demo_store :: pg_tuple_store where
  "pg_demo_store = NewPostgresTupleStoreWithRules (Some pg_demo_rules) \<lparr>MaxDepth = 0, MaxFanOut = 0\<rparr>"

definition pg_demo_check :: CheckInput where
  "pg_demo_check = \<lparr>ci_SubjectType = ''usr'', ci_SubjectID = pg_demo_usr, ci_Relation = ''viewer'',
     ci_ObjectType = ''org'', ci_ObjectID = pg_demo_org\<rparr>"

lemma pg_demo_scans:
  assumes "list_all (\<lambda>r. tr_id r \<in> set pg_demo_ids) (db_tup d)"
  shows "scans_all (pg_demo x now) d"
proof -
  have "distinct pg_demo_ids" by code_simp
  then show ?thesis using assms by (auto simp: scans_all_def pg_demo_def list_all_iff)
qed

lemma pg_demo_forms:
  "wire_form ''usr'' pg_demo_usr" "wire_form ''org'' pg_demo_org"
proof -
  have "canonical (pg_demo_uuid x n)" if "in_class hex_lower x" for x n
    using NewV7_canonical [OF pg_demo_lib_ok [OF that], of n "pg_demo_uuid x n"] by (simp add: pg_demo_lib_def)
  then have "canonical (pg_demo_uuid CHR ''a'' 0)" "canonical (pg_demo_uuid CHR ''b'' 1)" by (simp_all add: class_defs)
  moreover have "pg_demo_usr = uuidToWire ''usr'' (pg_demo_uuid CHR ''a'' 0)"
    "pg_demo_org = uuidToWire ''org'' (pg_demo_uuid CHR ''b'' 1)" by code_simp+
  ultimately show "wire_form ''usr'' pg_demo_usr" "wire_form ''org'' pg_demo_org"
    unfolding wire_form_def by auto
qed

definition pg_demo_tuple :: CreateTupleInput where
  "pg_demo_tuple = \<lparr>cti_SubjectType = ''usr'', cti_SubjectID = pg_demo_usr, cti_Relation = ''owner'', cti_ObjectType = ''org'',
     cti_ObjectID = pg_demo_org, cti_CreatedBy = Some pg_demo_usr\<rparr>"

definition pg_demo_both :: "tuple_store \<times> pg_db" where
  "pg_demo_both = (snd (CreateTuple (demo_seq CHR ''c'') (\<lambda>_. 3000) pg_demo_tuple
       (NewInMemoryTupleStoreWithRules (Some pg_demo_rules) \<lparr>MaxDepth = 0, MaxFanOut = 0\<rparr>)),
     pg_demo_after (pg_CreateTuple pg_demo_tuple) (pg_demo CHR ''c'' 3000) pg_demo1)"

abbreviation pg_demo_empty :: tuple_store where
  "pg_demo_empty \<equiv> NewInMemoryTupleStoreWithRules (Some pg_demo_rules) \<lparr>MaxDepth = 0, MaxFanOut = 0\<rparr>"

lemma pg_demo_both_runs:
  "map_sum id tup_ID (fst (CreateTuple (demo_seq CHR ''c'') (\<lambda>_. 3000) pg_demo_tuple pg_demo_empty))
     = Inr ''tup_0190f2a81b3c7abc8123456789abcdc0''"
  "map_option (map_sum id tup_ID \<circ> fst) (db_run (pg_CreateTuple pg_demo_tuple) (pg_demo CHR ''c'' 3000) pg_demo1)
     = Some (Inr ''tup_0190f2a81b3c7abc8123456789abcdc0'')"
  "db_tup pg_demo1 = []"
  "CHR ''|'' \<notin> set (cti_SubjectID pg_demo_tuple)" "CHR ''|'' \<notin> set (cti_ObjectID pg_demo_tuple)"
  "fresh_for (demo_seq CHR ''c'') 0 ''tup'' (ts_tuples pg_demo_empty)"
  "list_all (\<lambda>r. tr_id r \<in> set pg_demo_ids) (db_tup (snd pg_demo_both))"
  "map_sum id chk_Allowed (Check (\<lambda>_ _ _. [''tup_0190f2a81b3c7abc8123456789abcdc0'']) pg_demo_check (fst pg_demo_both)) = Inr True"
  "map_sum id chk_Allowed (pg_Check pg_demo_store pg_demo_check (pg_demo CHR ''c'' 5000) (snd pg_demo_both)) = Inr True"
  "input_key pg_demo_tuple \<in> tuple_keys (snd pg_demo_both)"
  by code_simp+

lemma pg_demo_both_step: "both_step (pg_demo_empty, pg_demo1) pg_demo_both"
  unfolding pg_demo_both_def
proof (rule both_create)
  show "inmem_create pg_demo_tuple pg_demo_empty True (snd (CreateTuple (demo_seq CHR ''c'') (\<lambda>_. 3000) pg_demo_tuple pg_demo_empty))"
    unfolding inmem_create_def
    by (intro exI conjI, rule pg_demo_both_runs, rule pg_demo_both_runs, rule pg_demo_both_runs, rule surjective_pairing)
      (use pg_demo_both_runs(1) in \<open>auto simp: isl_def map_sum_def split: sum.splits\<close>)
  obtain t d' where r: "db_run (pg_CreateTuple pg_demo_tuple) (pg_demo CHR ''c'' 3000) pg_demo1 = Some (Inr t, d')"
    by (rule run_result [OF pg_demo_both_runs(2)])
  have "env_ok (pg_demo CHR ''c'' 3000)" by (rule pg_demo_ok) (simp add: class_defs)
  then show "table_create pg_demo_tuple pg_demo1 True (pg_demo_after (pg_CreateTuple pg_demo_tuple) (pg_demo CHR ''c'' 3000) pg_demo1)"
    unfolding table_create_def pg_demo_after_run [OF r]
    by (intro exI conjI, assumption) (use r pg_demo_forms pg_demo_both_runs(3) in
      \<open>auto simp: new_tuple_id_def pg_demo_tuple_def answered_def\<close>)
qed

lemma pg_demo_both_visits: "visits [''tup_0190f2a81b3c7abc8123456789abcdc0''] (ts_tuples (fst pg_demo_both))"
proof (cases rule: CreateTuple_cases [of "demo_seq CHR ''c''" "\<lambda>_. 3000" pg_demo_tuple pg_demo_empty])
  case (created t)
  then have "tup_ID t = ''tup_0190f2a81b3c7abc8123456789abcdc0''" using pg_demo_both_runs(1) by simp
  then show ?thesis using created(1)
    by (simp add: pg_demo_both_def visits_def NewInMemoryTupleStoreWithRules_def NewInMemoryTupleStore_def)
qed (use pg_demo_both_runs(1) in simp)

theorem tuple_stores_agree_witness:
  "tuple_set (fst pg_demo_both) = tuple_keys (snd pg_demo_both) \<and>
   (\<exists>r r'. Check (\<lambda>_ _ _. [''tup_0190f2a81b3c7abc8123456789abcdc0'']) pg_demo_check (fst pg_demo_both) = Inr r \<and>
      pg_Check pg_demo_store pg_demo_check (pg_demo CHR ''c'' 5000) (snd pg_demo_both) = Inr r' \<and> chk_Allowed r = chk_Allowed r') \<and>
   (\<exists>w w'. inmem_named w (fst pg_demo_both) = {input_key pg_demo_tuple} \<and> table_named w' (snd pg_demo_both) = {input_key pg_demo_tuple})"
proof -
  have "both_step\<^sup>*\<^sup>* (pg_demo_empty, pg_demo1) (fst pg_demo_both, snd pg_demo_both)" using pg_demo_both_step by auto
  note agree = tuple_stores_agree [OF pg_demo_reach1 pg_demo_both_runs(3) this]
  obtain r where r: "Check (\<lambda>_ _ _. [''tup_0190f2a81b3c7abc8123456789abcdc0'']) pg_demo_check (fst pg_demo_both) = Inr r"
    using pg_demo_both_runs(8) by (auto simp: map_sum_def split: sum.splits)
  obtain r' where r': "pg_Check pg_demo_store pg_demo_check (pg_demo CHR ''c'' 5000) (snd pg_demo_both) = Inr r'"
    using pg_demo_both_runs(9) by (auto simp: map_sum_def split: sum.splits)
  have "env_ok (pg_demo CHR ''c'' 5000)" "scans_all (pg_demo CHR ''c'' 5000) (snd pg_demo_both)"
    by (rule pg_demo_ok, simp add: class_defs) (rule pg_demo_scans [OF pg_demo_both_runs(7)])
  moreover have "wire_form (ci_SubjectType pg_demo_check) (ci_SubjectID pg_demo_check)"
    "wire_form (ci_ObjectType pg_demo_check) (ci_ObjectID pg_demo_check)" by (simp_all add: pg_demo_check_def pg_demo_forms)
  moreover have "pts_rules pg_demo_store = Some pg_demo_rules"
    by (simp add: pg_demo_store_def NewPostgresTupleStoreWithRules_def)
  ultimately have "Some pg_demo_rules = None \<or> uncut (pg_demo CHR ''c'' 5000) \<longrightarrow> chk_Allowed r = chk_Allowed r'"
    using agree [THEN conjunct2, THEN conjunct2, THEN conjunct2, THEN conjunct2, THEN conjunct2, rule_format,
        of "\<lambda>_ _ _. [''tup_0190f2a81b3c7abc8123456789abcdc0'']" "pg_demo CHR ''c'' 5000" pg_demo_check pg_demo_store r r']
      r r' pg_demo_both_visits by simp
  then have "chk_Allowed r = chk_Allowed r'" by (simp add: uncut_def pg_demo_def)
  moreover obtain w w' where "inmem_named w (fst pg_demo_both) = {input_key pg_demo_tuple}"
      "table_named w' (snd pg_demo_both) = {input_key pg_demo_tuple}"
    using agree [THEN conjunct2, THEN conjunct2, THEN conjunct1] pg_demo_both_runs(10) by blast
  ultimately show ?thesis using agree [THEN conjunct1] r r' by blast
qed

end
