(* ===== verification/PgEndings.thy ===== *)
theory PgEndings
  imports PgRuns
begin

text \<open>
  What ends in the three stores stays ended.  \<open>ended d0 d\<close>: every session, share and token of \<open>d0\<close> is still a row of
  \<open>d\<close> with the same identity, owner and deadline, and a revocation or consumption it has had is not taken back.
\<close>

definition ses_later :: "ses_row \<Rightarrow> ses_row \<Rightarrow> bool" where
  "ses_later s s' \<longleftrightarrow> sn_id s' = sn_id s \<and> sn_usr_id s' = sn_usr_id s \<and> sn_cred_id s' = sn_cred_id s \<and>
     sn_token_hash s' = sn_token_hash s \<and> sn_expires_at s' = sn_expires_at s \<and>
     (sn_revoked_at s \<noteq> None \<longrightarrow> sn_revoked_at s' \<noteq> None)"

definition shr_later :: "shr_row \<Rightarrow> shr_row \<Rightarrow> bool" where
  "shr_later s s' \<longleftrightarrow> sr_id s' = sr_id s \<and> sr_token_hash s' = sr_token_hash s \<and> sr_single_use s' = sr_single_use s \<and>
     sr_expires_at s' = sr_expires_at s \<and> (sr_consumed_at s \<noteq> None \<longrightarrow> sr_consumed_at s' \<noteq> None) \<and>
     (sr_revoked_at s \<noteq> None \<longrightarrow> sr_revoked_at s' \<noteq> None)"

definition pat_later :: "pat_row \<Rightarrow> pat_row \<Rightarrow> bool" where
  "pat_later p p' \<longleftrightarrow> pa_id p' = pa_id p \<and> pa_usr_id p' = pa_usr_id p \<and> pa_secret_hash p' = pa_secret_hash p \<and>
     pa_expires_at p' = pa_expires_at p \<and> pa_scope p' = pa_scope p \<and>
     (pa_revoked_at p \<noteq> None \<longrightarrow> pa_revoked_at p' \<noteq> None)"

definition rows_later :: "('r \<Rightarrow> 'r \<Rightarrow> bool) \<Rightarrow> 'r list \<Rightarrow> 'r list \<Rightarrow> bool" where
  "rows_later later t t' \<longleftrightarrow> (\<forall>r \<in> set t. \<exists>r' \<in> set t'. later r r')"

definition ended :: "pg_db \<Rightarrow> pg_db \<Rightarrow> bool" where
  "ended d0 d \<longleftrightarrow> rows_later ses_later (db_ses d0) (db_ses d) \<and> rows_later shr_later (db_shr d0) (db_shr d) \<and>
     rows_later pat_later (db_pat d0) (db_pat d)"

lemmas later_defs = ses_later_def shr_later_def pat_later_def

text \<open>The contract of such an order on the rows of a table.\<close>

locale row_order =
  fixes later :: "'r \<Rightarrow> 'r \<Rightarrow> bool"
  assumes later_refl [simp]: "later r r"
    and later_trans: "later r r' \<Longrightarrow> later r' r'' \<Longrightarrow> later r r''"
begin

lemma rows_refl [simp]: "rows_later later t t"
  by (auto simp: rows_later_def intro: later_refl)

lemma rows_trans: "rows_later later t t' \<Longrightarrow> rows_later later t' t'' \<Longrightarrow> rows_later later t t''"
  unfolding rows_later_def using later_trans by blast

lemma rows_insert: "sql_insert uniq chk fk r t = Inr t' \<Longrightarrow> rows_later later t0 t \<Longrightarrow> rows_later later t0 t'"
  by (auto simp: sql_insert_Inr rows_later_def)

lemma rows_update:
  assumes "sql_update uniq chk fk P f t = Inr t'" and "rows_later later t0 t" and "\<And>r. later r (f r)"
  shows "rows_later later t0 t'"
proof (rule rows_trans [OF assms(2)])
  have t': "t' = map (\<lambda>r. if P r then f r else r) t" using assms(1) by (simp add: sql_update_Inr)
  show "rows_later later t t'"
    unfolding rows_later_def
  proof
    fix r assume "r \<in> set t"
    then have "(if P r then f r else r) \<in> set t'" unfolding t' set_map by (rule imageI)
    moreover have "later r (if P r then f r else r)" by (simp add: assms(3))
    ultimately show "\<exists>r' \<in> set t'. later r r'" by (rule bexI [rotated])
  qed
qed

end

interpretation ses_rows: row_order ses_later
  by unfold_locales (auto simp: ses_later_def)

interpretation shr_rows: row_order shr_later
  by unfold_locales (auto simp: shr_later_def)

interpretation pat_rows: row_order pat_later
  by unfold_locales (auto simp: pat_later_def)

lemma ended_refl [simp]: "ended d d"
  by (simp add: ended_def)

lemma ended_trans: "ended d0 d1 \<Longrightarrow> ended d1 d2 \<Longrightarrow> ended d0 d2"
  unfolding ended_def using ses_rows.rows_trans shr_rows.rows_trans pat_rows.rows_trans by blast

subsection \<open>Statements\<close>

lemma keeps_ended_insert [db_rules]:
  "(\<And>r. Q0 r) \<Longrightarrow> keeps (ended d0) Q0 (db_stmt (\<lambda>now. insert_usr (row0 now)))"
  "(\<And>r. Q1 r) \<Longrightarrow> keeps (ended d0) Q1 (db_stmt (\<lambda>now. insert_org (row1 now)))"
  "(\<And>r. Q2 r) \<Longrightarrow> keeps (ended d0) Q2 (db_stmt (\<lambda>now. insert_mem (row2 now)))"
  "(\<And>r. Q3 r) \<Longrightarrow> keeps (ended d0) Q3 (db_stmt (\<lambda>now. insert_inv (row3 now)))"
  "(\<And>r. Q4 r) \<Longrightarrow> keeps (ended d0) Q4 (db_stmt (\<lambda>now. insert_tup (row4 now)))"
  "(\<And>r. Q5 r) \<Longrightarrow> keeps (ended d0) Q5 (db_stmt (\<lambda>now. insert_cred (row5 now)))"
  "(\<And>r. Q6 r) \<Longrightarrow> keeps (ended d0) Q6 (db_stmt (\<lambda>now. insert_mfa (row6 now)))"
  "(\<And>r. Q7 r) \<Longrightarrow> keeps (ended d0) Q7 (db_stmt (\<lambda>now. insert_ses (row7 now)))"
  "(\<And>r. Q8 r) \<Longrightarrow> keeps (ended d0) Q8 (db_stmt (\<lambda>now. insert_shr (row8 now)))"
  "(\<And>r. Q9 r) \<Longrightarrow> keeps (ended d0) Q9 (db_stmt (\<lambda>now. insert_pat (row9 now)))"
  by (rule keeps_stmt; auto simp: insert_usr_def insert_org_def insert_mem_def insert_inv_def insert_tup_def
      insert_cred_def insert_mfa_def insert_ses_def insert_shr_def insert_pat_def ended_def map_sum_def split: sum.splits
      intro: ses_rows.rows_insert shr_rows.rows_insert pat_rows.rows_insert)+

lemma keeps_ended_update [db_rules]:
  "(\<And>rows. Q0 rows) \<Longrightarrow> keeps (ended d0) Q0 (db_stmt (\<lambda>now. update_usr (P0 now) (f0 now)))"
  "(\<And>rows. Q1 rows) \<Longrightarrow> keeps (ended d0) Q1 (db_stmt (\<lambda>now. update_org (P1 now) (f1 now)))"
  "(\<And>rows. Q2 rows) \<Longrightarrow> keeps (ended d0) Q2 (db_stmt (\<lambda>now. update_mem (P2 now) (f2 now)))"
  "(\<And>rows. Q3 rows) \<Longrightarrow> keeps (ended d0) Q3 (db_stmt (\<lambda>now. update_inv (P3 now) (f3 now)))"
  "(\<And>rows. Q4 rows) \<Longrightarrow> keeps (ended d0) Q4 (db_stmt (\<lambda>now. update_cred (P4 now) (f4 now)))"
  "(\<And>rows. Q5 rows) \<Longrightarrow> keeps (ended d0) Q5 (db_stmt (\<lambda>now. update_mfa (P5 now) (f5 now)))"
  by (rule keeps_stmt; auto simp: update_usr_def update_org_def update_mem_def update_inv_def
      update_cred_def update_mfa_def ended_def map_sum_def split: sum.splits)+

lemma keeps_ended_update_ses [db_rules]:
  "(\<And>now r. ses_later r (f now r)) \<Longrightarrow> (\<And>rows. Q rows) \<Longrightarrow> keeps (ended d0) Q (db_stmt (\<lambda>now. update_ses (P now) (f now)))"
  by (rule keeps_stmt) (auto simp: update_ses_def ended_def map_sum_def split: sum.splits intro: ses_rows.rows_update)

lemma keeps_ended_update_shr [db_rules]:
  "(\<And>now r. shr_later r (f now r)) \<Longrightarrow> (\<And>rows. Q rows) \<Longrightarrow> keeps (ended d0) Q (db_stmt (\<lambda>now. update_shr (P now) (f now)))"
  by (rule keeps_stmt) (auto simp: update_shr_def ended_def map_sum_def split: sum.splits intro: shr_rows.rows_update)

lemma keeps_ended_update_pat [db_rules]:
  "(\<And>now r. pat_later r (f now r)) \<Longrightarrow> (\<And>rows. Q rows) \<Longrightarrow> keeps (ended d0) Q (db_stmt (\<lambda>now. update_pat (P now) (f now)))"
  by (rule keeps_stmt) (auto simp: update_pat_def ended_def map_sum_def split: sum.splits intro: pat_rows.rows_update)

lemma keeps_ended_other [db_rules]:
  "(\<And>n. Q1 n) \<Longrightarrow> keeps (ended d0) Q1 (db_stmt (\<lambda>now d. Inr (delete_tup (P now) d)))"
  "(\<And>r. Q2 r) \<Longrightarrow> keeps (ended d0) Q2 (db_stmt (\<lambda>now. upsert_policy (row now)))"
  by (rule keeps_stmt; auto simp: delete_tup_def upsert_policy_def ended_def map_sum_def split: sum.splits if_splits)+

lemma keeps_ended_pre_tuples [db_rules]: "(\<And>ts. Q ts) \<Longrightarrow> keeps (ended d0) Q (insert_pre_tuples acceptingU pts)"
proof (induction pts arbitrary: Q)
  case (Cons pt pts)
  then show ?case unfolding insert_pre_tuples.simps insert_user_tuple_def by (intro db_rules Cons.IH)
qed (auto intro: db_rules)

lemmas tenancy_statements = insert_member_def insert_user_tuple_def delete_role_tuple_def revoke_mem_row_def
  select_mem_def select_active_def changeRoleLocked_def

subsection \<open>Methods\<close>

lemma pg_CreateTuple_ended: "keeps (ended d0) (\<lambda>_. True) (pg_CreateTuple i)"
  unfolding pg_CreateTuple_def loadShare_def verify_share_tx_def listTuples_def
  by (intro db_rules ballI; auto simp: later_defs split: option.splits)

lemma pg_DeleteTuple_ended: "keeps (ended d0) (\<lambda>_. True) (pg_DeleteTuple tupleID)"
  unfolding pg_DeleteTuple_def loadShare_def verify_share_tx_def listTuples_def
  by (intro db_rules ballI; auto simp: later_defs split: option.splits)

lemma pg_CascadeRevokeSubject_ended: "keeps (ended d0) (\<lambda>_. True) (pg_CascadeRevokeSubject subjectType subjectID)"
  unfolding pg_CascadeRevokeSubject_def loadShare_def verify_share_tx_def listTuples_def
  by (intro db_rules ballI; auto simp: later_defs split: option.splits)

lemma pg_GetTuple_ended: "keeps (ended d0) (\<lambda>_. True) (pg_GetTuple tupleID)"
  unfolding pg_GetTuple_def loadShare_def verify_share_tx_def listTuples_def
  by (intro db_rules ballI; auto simp: later_defs split: option.splits)

lemma pg_ListTuplesBySubject_ended: "keeps (ended d0) (\<lambda>_. True) (pg_ListTuplesBySubject subjectType subjectID opts)"
  unfolding pg_ListTuplesBySubject_def loadShare_def verify_share_tx_def listTuples_def
  by (intro db_rules ballI; auto simp: later_defs split: option.splits)

lemma pg_ListTuplesByObject_ended: "keeps (ended d0) (\<lambda>_. True) (pg_ListTuplesByObject objectType objectID opts)"
  unfolding pg_ListTuplesByObject_def loadShare_def verify_share_tx_def listTuples_def
  by (intro db_rules ballI; auto simp: later_defs split: option.splits)

lemma pg_CreateShare_ended: "keeps (ended d0) (\<lambda>_. True) (pg_CreateShare i)"
  unfolding pg_CreateShare_def loadShare_def verify_share_tx_def listTuples_def
  by (intro db_rules ballI; auto simp: later_defs split: option.splits)

lemma pg_GetShare_ended: "keeps (ended d0) (\<lambda>_. True) (pg_GetShare shareID)"
  unfolding pg_GetShare_def loadShare_def verify_share_tx_def listTuples_def
  by (intro db_rules ballI; auto simp: later_defs split: option.splits)

lemma pg_VerifyShareToken_ended: "keeps (ended d0) (\<lambda>_. True) (pg_VerifyShareToken token)"
  unfolding pg_VerifyShareToken_def loadShare_def verify_share_tx_def listTuples_def
  by (intro db_rules ballI; auto simp: later_defs split: option.splits)

lemma pg_RevokeShare_ended: "keeps (ended d0) (\<lambda>_. True) (pg_RevokeShare shareID)"
  unfolding pg_RevokeShare_def loadShare_def verify_share_tx_def listTuples_def
  by (intro db_rules ballI; auto simp: later_defs split: option.splits)

lemma pg_ListSharesForObject_ended: "keeps (ended d0) (\<lambda>_. True) (pg_ListSharesForObject objectType objectID opts)"
  unfolding pg_ListSharesForObject_def loadShare_def verify_share_tx_def listTuples_def
  by (intro db_rules ballI; auto simp: later_defs split: option.splits)

lemma pg_CreateOrg_ended: "keeps (ended d0) (\<lambda>_. True) (pg_CreateOrg creator opts)"
  unfolding pg_CreateOrg_def tenancy_steps tenancy_statements
  by (intro db_rules ballI; auto simp: later_defs split: option.splits)

lemma pg_GetOrg_ended: "keeps (ended d0) (\<lambda>_. True) (pg_GetOrg orgID)"
  unfolding pg_GetOrg_def tenancy_steps tenancy_statements
  by (intro db_rules ballI; auto simp: later_defs split: option.splits)

lemma pg_UpdateOrg_ended: "keeps (ended d0) (\<lambda>_. True) (pg_UpdateOrg orgID i)"
  unfolding pg_UpdateOrg_def tenancy_steps tenancy_statements
  by (intro db_rules ballI; auto simp: later_defs split: option.splits)

lemma pg_SuspendOrg_ended: "keeps (ended d0) (\<lambda>_. True) (pg_SuspendOrg orgID)"
  unfolding pg_SuspendOrg_def tenancy_steps tenancy_statements
  by (intro db_rules ballI; auto simp: later_defs split: option.splits)

lemma pg_ReinstateOrg_ended: "keeps (ended d0) (\<lambda>_. True) (pg_ReinstateOrg orgID)"
  unfolding pg_ReinstateOrg_def tenancy_steps tenancy_statements
  by (intro db_rules ballI; auto simp: later_defs split: option.splits)

lemma pg_RevokeOrg_ended: "keeps (ended d0) (\<lambda>_. True) (pg_RevokeOrg orgID)"
  unfolding pg_RevokeOrg_def tenancy_steps tenancy_statements
  by (intro db_rules ballI; auto simp: later_defs split: option.splits)

lemma pg_ListOrgs_ended: "keeps (ended d0) (\<lambda>_. True) (pg_ListOrgs opts)"
  unfolding pg_ListOrgs_def tenancy_steps tenancy_statements
  by (intro db_rules ballI; auto simp: later_defs split: option.splits)

lemma pg_AddMember_ended: "keeps (ended d0) (\<lambda>_. True) (pg_AddMember orgID usrID role invitedBy)"
  unfolding pg_AddMember_def tenancy_steps tenancy_statements
  by (intro db_rules ballI; auto simp: later_defs split: option.splits)

lemma pg_GetMembership_ended: "keeps (ended d0) (\<lambda>_. True) (pg_GetMembership memID)"
  unfolding pg_GetMembership_def tenancy_steps tenancy_statements
  by (intro db_rules ballI; auto simp: later_defs split: option.splits)

lemma pg_ListMembers_ended: "keeps (ended d0) (\<lambda>_. True) (pg_ListMembers orgID opts)"
  unfolding pg_ListMembers_def tenancy_steps tenancy_statements
  by (intro db_rules ballI; auto simp: later_defs split: option.splits)

lemma pg_ChangeRole_ended: "keeps (ended d0) (\<lambda>_. True) (pg_ChangeRole memID newRole)"
  unfolding pg_ChangeRole_def tenancy_steps tenancy_statements
  by (intro db_rules ballI; auto simp: later_defs split: option.splits)

lemma pg_SuspendMembership_ended: "keeps (ended d0) (\<lambda>_. True) (pg_SuspendMembership memID)"
  unfolding pg_SuspendMembership_def tenancy_steps tenancy_statements
  by (intro db_rules ballI; auto simp: later_defs split: option.splits)

lemma pg_ReinstateMembership_ended: "keeps (ended d0) (\<lambda>_. True) (pg_ReinstateMembership memID)"
  unfolding pg_ReinstateMembership_def tenancy_steps tenancy_statements
  by (intro db_rules ballI; auto simp: later_defs split: option.splits)

lemma pg_SelfLeave_ended: "keeps (ended d0) (\<lambda>_. True) (pg_SelfLeave memID transferTo)"
  unfolding pg_SelfLeave_def tenancy_steps tenancy_statements
  by (intro db_rules ballI; auto simp: later_defs split: option.splits)

lemma pg_AdminRemove_ended: "keeps (ended d0) (\<lambda>_. True) (pg_AdminRemove memID adminUsrID)"
  unfolding pg_AdminRemove_def tenancy_steps tenancy_statements
  by (intro db_rules ballI; auto simp: later_defs split: option.splits)

lemma pg_TransferOwnership_ended: "keeps (ended d0) (\<lambda>_. True) (pg_TransferOwnership orgID fromMemID toMemID)"
  unfolding pg_TransferOwnership_def tenancy_steps tenancy_statements
  by (intro db_rules ballI; auto simp: later_defs split: option.splits)

lemma pg_CreateInvitation_ended: "keeps (ended d0) (\<lambda>_. True) (pg_CreateInvitation orgID identifier role invitedBy expiresAt preTuples)"
  unfolding pg_CreateInvitation_def tenancy_steps tenancy_statements
  by (intro db_rules ballI; auto simp: later_defs split: option.splits)

lemma pg_GetInvitation_ended: "keeps (ended d0) (\<lambda>_. True) (pg_GetInvitation invID)"
  unfolding pg_GetInvitation_def tenancy_steps tenancy_statements
  by (intro db_rules ballI; auto simp: later_defs split: option.splits)

lemma pg_ListInvitations_ended: "keeps (ended d0) (\<lambda>_. True) (pg_ListInvitations orgID opts)"
  unfolding pg_ListInvitations_def tenancy_steps tenancy_statements
  by (intro db_rules ballI; auto simp: later_defs split: option.splits)

lemma pg_AcceptInvitation_ended: "keeps (ended d0) (\<lambda>_. True) (pg_AcceptInvitation invID opts)"
  unfolding pg_AcceptInvitation_def tenancy_steps tenancy_statements
  by (intro db_rules ballI; auto simp: later_defs split: option.splits)

lemma pg_DeclineInvitation_ended: "keeps (ended d0) (\<lambda>_. True) (pg_DeclineInvitation invID asUsrID)"
  unfolding pg_DeclineInvitation_def tenancy_steps tenancy_statements
  by (intro db_rules ballI; auto simp: later_defs split: option.splits)

lemma pg_RevokeInvitation_ended: "keeps (ended d0) (\<lambda>_. True) (pg_RevokeInvitation invID adminUsrID)"
  unfolding pg_RevokeInvitation_def tenancy_steps tenancy_statements
  by (intro db_rules ballI; auto simp: later_defs split: option.splits)

lemma pg_ListTuplesForSubject_ended: "keeps (ended d0) (\<lambda>_. True) (pg_ListTuplesForSubject subjectType subjectID)"
  unfolding pg_ListTuplesForSubject_def tenancy_steps tenancy_statements
  by (intro db_rules ballI; auto simp: later_defs split: option.splits)

lemma pg_ListTuplesForObject_ended: "keeps (ended d0) (\<lambda>_. True) (pg_ListTuplesForObject objectType objectID relation)"
  unfolding pg_ListTuplesForObject_def tenancy_steps tenancy_statements
  by (intro db_rules ballI; auto simp: later_defs split: option.splits)

lemma pg_CreateUser_ended: "keeps (ended d0) (\<lambda>_. True) (pg_CreateUser displayName)"
  unfolding pg_CreateUser_def identity_steps
  by (intro db_rules ballI; auto simp: later_defs split: option.splits)

lemma pg_GetUser_ended: "keeps (ended d0) (\<lambda>_. True) (pg_GetUser usrID)"
  unfolding pg_GetUser_def identity_steps
  by (intro db_rules ballI; auto simp: later_defs split: option.splits)

lemma pg_UpdateUser_ended: "keeps (ended d0) (\<lambda>_. True) (pg_UpdateUser usrID i)"
  unfolding pg_UpdateUser_def identity_steps
  by (intro db_rules ballI; auto simp: later_defs split: option.splits)

lemma pg_ListUsers_ended: "keeps (ended d0) (\<lambda>_. True) (pg_ListUsers opts)"
  unfolding pg_ListUsers_def identity_steps
  by (intro db_rules ballI; auto simp: later_defs split: option.splits)

lemma pg_SuspendUser_ended: "keeps (ended d0) (\<lambda>_. True) (pg_SuspendUser usrID)"
  unfolding pg_SuspendUser_def identity_steps
  by (intro db_rules ballI; auto simp: later_defs split: option.splits)

lemma pg_ReinstateUser_ended: "keeps (ended d0) (\<lambda>_. True) (pg_ReinstateUser usrID)"
  unfolding pg_ReinstateUser_def identity_steps
  by (intro db_rules ballI; auto simp: later_defs split: option.splits)

lemma pg_RevokeUser_ended: "keeps (ended d0) (\<lambda>_. True) (pg_RevokeUser usrID)"
  unfolding pg_RevokeUser_def identity_steps
  by (intro db_rules ballI; auto simp: later_defs split: option.splits)

lemma pg_CreatePasswordCredential_ended: "keeps (ended d0) (\<lambda>_. True) (pg_CreatePasswordCredential L usrID ident password)"
  unfolding pg_CreatePasswordCredential_def identity_steps
  by (intro db_rules ballI; auto simp: later_defs split: option.splits)

lemma pg_CreatePasskeyCredential_ended: "keeps (ended d0) (\<lambda>_. True) (pg_CreatePasskeyCredential usrID ident publicKey signCount rpID)"
  unfolding pg_CreatePasskeyCredential_def identity_steps
  by (intro db_rules ballI; auto simp: later_defs split: option.splits)

lemma pg_CreateOIDCCredential_ended: "keeps (ended d0) (\<lambda>_. True) (pg_CreateOIDCCredential usrID ident issuer sub)"
  unfolding pg_CreateOIDCCredential_def identity_steps
  by (intro db_rules ballI; auto simp: later_defs split: option.splits)

lemma pg_GetCredential_ended: "keeps (ended d0) (\<lambda>_. True) (pg_GetCredential credID)"
  unfolding pg_GetCredential_def identity_steps
  by (intro db_rules ballI; auto simp: later_defs split: option.splits)

lemma pg_ListCredentialsForUser_ended: "keeps (ended d0) (\<lambda>_. True) (pg_ListCredentialsForUser usrID)"
  unfolding pg_ListCredentialsForUser_def identity_steps
  by (intro db_rules ballI; auto simp: later_defs split: option.splits)

lemma pg_FindCredentialByIdentifier_ended: "keeps (ended d0) (\<lambda>_. True) (pg_FindCredentialByIdentifier t ident)"
  unfolding pg_FindCredentialByIdentifier_def identity_steps
  by (intro db_rules ballI; auto simp: later_defs split: option.splits)

lemma pg_RotatePassword_ended: "keeps (ended d0) (\<lambda>_. True) (pg_RotatePassword L credID newPassword)"
  unfolding pg_RotatePassword_def identity_steps
  by (intro db_rules ballI; auto simp: later_defs split: option.splits)

lemma pg_RotatePasskey_ended: "keeps (ended d0) (\<lambda>_. True) (pg_RotatePasskey credID publicKey signCount rpID)"
  unfolding pg_RotatePasskey_def identity_steps
  by (intro db_rules ballI; auto simp: later_defs split: option.splits)

lemma pg_RotateOIDC_ended: "keeps (ended d0) (\<lambda>_. True) (pg_RotateOIDC credID issuer sub)"
  unfolding pg_RotateOIDC_def identity_steps
  by (intro db_rules ballI; auto simp: later_defs split: option.splits)

lemma pg_SuspendCredential_ended: "keeps (ended d0) (\<lambda>_. True) (pg_SuspendCredential credID)"
  unfolding pg_SuspendCredential_def identity_steps
  by (intro db_rules ballI; auto simp: later_defs split: option.splits)

lemma pg_ReinstateCredential_ended: "keeps (ended d0) (\<lambda>_. True) (pg_ReinstateCredential credID)"
  unfolding pg_ReinstateCredential_def identity_steps
  by (intro db_rules ballI; auto simp: later_defs split: option.splits)

lemma pg_RevokeCredential_ended: "keeps (ended d0) (\<lambda>_. True) (pg_RevokeCredential credID)"
  unfolding pg_RevokeCredential_def identity_steps
  by (intro db_rules ballI; auto simp: later_defs split: option.splits)

lemma pg_VerifyPassword_ended: "keeps (ended d0) (\<lambda>_. True) (pg_VerifyPassword L ident password)"
  unfolding pg_VerifyPassword_def identity_steps
  by (intro db_rules ballI; auto simp: later_defs split: option.splits)

lemma pg_CreateSession_ended: "keeps (ended d0) (\<lambda>_. True) (pg_CreateSession usrID credID ttlSeconds)"
  unfolding pg_CreateSession_def identity_steps
  by (intro db_rules ballI; auto simp: later_defs split: option.splits)

lemma pg_GetSession_ended: "keeps (ended d0) (\<lambda>_. True) (pg_GetSession sesID)"
  unfolding pg_GetSession_def identity_steps
  by (intro db_rules ballI; auto simp: later_defs split: option.splits)

lemma pg_ListSessionsForUser_ended: "keeps (ended d0) (\<lambda>_. True) (pg_ListSessionsForUser usrID opts)"
  unfolding pg_ListSessionsForUser_def identity_steps
  by (intro db_rules ballI; auto simp: later_defs split: option.splits)

lemma pg_VerifySessionToken_ended: "keeps (ended d0) (\<lambda>_. True) (pg_VerifySessionToken token)"
  unfolding pg_VerifySessionToken_def identity_steps
  by (intro db_rules ballI; auto simp: later_defs split: option.splits)

lemma pg_RefreshSession_ended: "keeps (ended d0) (\<lambda>_. True) (pg_RefreshSession sesID)"
  unfolding pg_RefreshSession_def identity_steps
  by (intro db_rules ballI; auto simp: later_defs split: option.splits)

lemma pg_RevokeSession_ended: "keeps (ended d0) (\<lambda>_. True) (pg_RevokeSession sesID)"
  unfolding pg_RevokeSession_def identity_steps
  by (intro db_rules ballI; auto simp: later_defs split: option.splits)

lemma pg_EnrollTotpFactor_ended: "keeps (ended d0) (\<lambda>_. True) (pg_EnrollTotpFactor L usrID label opts)"
  unfolding pg_EnrollTotpFactor_def mfa_steps
  by (intro db_rules ballI; auto simp: later_defs split: option.splits)

lemma pg_EnrollWebAuthnFactor_ended: "keeps (ended d0) (\<lambda>_. True) (pg_EnrollWebAuthnFactor usrID credentialID publicKey signCount rpID)"
  unfolding pg_EnrollWebAuthnFactor_def mfa_steps
  by (intro db_rules ballI; auto simp: later_defs split: option.splits)

lemma pg_EnrollRecoveryFactor_ended: "keeps (ended d0) (\<lambda>_. True) (pg_EnrollRecoveryFactor L usrID)"
  unfolding pg_EnrollRecoveryFactor_def mfa_steps
  by (intro db_rules ballI; auto simp: later_defs split: option.splits)

lemma pg_ConfirmTotpFactor_ended: "keeps (ended d0) (\<lambda>_. True) (pg_ConfirmTotpFactor L mfaID code)"
  unfolding pg_ConfirmTotpFactor_def mfa_steps
  by (intro db_rules ballI; auto simp: later_defs split: option.splits)

lemma pg_ConfirmWebAuthnFactor_ended: "keeps (ended d0) (\<lambda>_. True) (pg_ConfirmWebAuthnFactor L mfaID proof1)"
  unfolding pg_ConfirmWebAuthnFactor_def mfa_steps
  by (intro db_rules ballI; auto simp: later_defs split: option.splits)

lemma pg_GetFactor_ended: "keeps (ended d0) (\<lambda>_. True) (pg_GetFactor mfaID)"
  unfolding pg_GetFactor_def mfa_steps
  by (intro db_rules ballI; auto simp: later_defs split: option.splits)

lemma pg_ListFactorsForUser_ended: "keeps (ended d0) (\<lambda>_. True) (pg_ListFactorsForUser usrID)"
  unfolding pg_ListFactorsForUser_def mfa_steps
  by (intro db_rules ballI; auto simp: later_defs split: option.splits)

lemma pg_SuspendFactor_ended: "keeps (ended d0) (\<lambda>_. True) (pg_SuspendFactor mfaID)"
  unfolding pg_SuspendFactor_def mfa_steps
  by (intro db_rules ballI; auto simp: later_defs split: option.splits)

lemma pg_ReinstateFactor_ended: "keeps (ended d0) (\<lambda>_. True) (pg_ReinstateFactor mfaID)"
  unfolding pg_ReinstateFactor_def mfa_steps
  by (intro db_rules ballI; auto simp: later_defs split: option.splits)

lemma pg_RevokeFactor_ended: "keeps (ended d0) (\<lambda>_. True) (pg_RevokeFactor mfaID)"
  unfolding pg_RevokeFactor_def mfa_steps
  by (intro db_rules ballI; auto simp: later_defs split: option.splits)

lemma pg_VerifyMfa_ended: "keeps (ended d0) (\<lambda>_. True) (pg_VerifyMfa L usrID proof1)"
  unfolding pg_VerifyMfa_def mfa_steps
  by (intro db_rules ballI; auto simp: later_defs split: option.splits)

lemma pg_GetUserMfaPolicy_ended: "keeps (ended d0) (\<lambda>_. True) (pg_GetUserMfaPolicy usrID)"
  unfolding pg_GetUserMfaPolicy_def mfa_steps
  by (intro db_rules ballI; auto simp: later_defs split: option.splits)

lemma pg_SetUserMfaPolicy_ended: "keeps (ended d0) (\<lambda>_. True) (pg_SetUserMfaPolicy usrID required graceUntil)"
  unfolding pg_SetUserMfaPolicy_def mfa_steps
  by (intro db_rules ballI; auto simp: later_defs split: option.splits)

lemma pg_CreatePat_ended: "keeps (ended d0) (\<lambda>_. True) (pg_CreatePat L i)"
  unfolding pg_CreatePat_def mfa_steps
  by (intro db_rules ballI; auto simp: later_defs split: option.splits)

lemma pg_GetPat_ended: "keeps (ended d0) (\<lambda>_. True) (pg_GetPat patID)"
  unfolding pg_GetPat_def mfa_steps
  by (intro db_rules ballI; auto simp: later_defs split: option.splits)

lemma pg_ListPatsForUser_ended: "keeps (ended d0) (\<lambda>_. True) (pg_ListPatsForUser usrID opts)"
  unfolding pg_ListPatsForUser_def mfa_steps
  by (intro db_rules ballI; auto simp: later_defs split: option.splits)

lemma pg_VerifyPatToken_ended: "keeps (ended d0) (\<lambda>_. True) (pg_VerifyPatToken L token)"
  unfolding pg_VerifyPatToken_def mfa_steps
  by (intro db_rules ballI; auto simp: later_defs split: option.splits)

lemma pg_RevokePat_ended: "keeps (ended d0) (\<lambda>_. True) (pg_RevokePat patID)"
  unfolding pg_RevokePat_def mfa_steps
  by (intro db_rules ballI; auto simp: later_defs split: option.splits)

lemma CheckAny_ended: "keeps (ended d0) (\<lambda>_. True) (pg_CheckAny s i)"
  by (rule pg_CheckAny_keeps)

lemmas method_ended = CheckAny_ended
  pg_CreateTuple_ended pg_DeleteTuple_ended pg_CascadeRevokeSubject_ended pg_GetTuple_ended
  pg_ListTuplesBySubject_ended pg_ListTuplesByObject_ended pg_CreateShare_ended pg_GetShare_ended
  pg_VerifyShareToken_ended pg_RevokeShare_ended pg_ListSharesForObject_ended pg_CreateOrg_ended
  pg_GetOrg_ended pg_UpdateOrg_ended pg_SuspendOrg_ended pg_ReinstateOrg_ended pg_RevokeOrg_ended
  pg_ListOrgs_ended pg_AddMember_ended pg_GetMembership_ended pg_ListMembers_ended pg_ChangeRole_ended
  pg_SuspendMembership_ended pg_ReinstateMembership_ended pg_SelfLeave_ended pg_AdminRemove_ended
  pg_TransferOwnership_ended pg_CreateInvitation_ended pg_GetInvitation_ended pg_ListInvitations_ended
  pg_AcceptInvitation_ended pg_DeclineInvitation_ended pg_RevokeInvitation_ended pg_ListTuplesForSubject_ended
  pg_ListTuplesForObject_ended pg_CreateUser_ended pg_GetUser_ended pg_UpdateUser_ended pg_ListUsers_ended
  pg_SuspendUser_ended pg_ReinstateUser_ended pg_RevokeUser_ended pg_CreatePasswordCredential_ended
  pg_CreatePasskeyCredential_ended pg_CreateOIDCCredential_ended pg_GetCredential_ended
  pg_ListCredentialsForUser_ended pg_FindCredentialByIdentifier_ended pg_RotatePassword_ended
  pg_RotatePasskey_ended pg_RotateOIDC_ended pg_SuspendCredential_ended pg_ReinstateCredential_ended
  pg_RevokeCredential_ended pg_VerifyPassword_ended pg_CreateSession_ended pg_GetSession_ended
  pg_ListSessionsForUser_ended pg_VerifySessionToken_ended pg_RefreshSession_ended pg_RevokeSession_ended
  pg_EnrollTotpFactor_ended pg_EnrollWebAuthnFactor_ended pg_EnrollRecoveryFactor_ended
  pg_ConfirmTotpFactor_ended pg_ConfirmWebAuthnFactor_ended pg_GetFactor_ended pg_ListFactorsForUser_ended
  pg_SuspendFactor_ended pg_ReinstateFactor_ended pg_RevokeFactor_ended pg_VerifyMfa_ended
  pg_GetUserMfaPolicy_ended pg_SetUserMfaPolicy_ended pg_CreatePat_ended pg_GetPat_ended
  pg_ListPatsForUser_ended pg_VerifyPatToken_ended pg_RevokePat_ended

lemmas effect_ended = method_ended [THEN effect_keepsI]

lemma pg_method_ended: "pg_method M \<Longrightarrow> effect_keeps (ended d0) M"
  by (induction rule: pg_method.induct) (rule effect_ended)+

lemma pg_step_ended: "pg_step d d' \<Longrightarrow> ended d d'"
  unfolding pg_step_def using pg_method_ended ended_refl unfolding effect_keeps_def by blast

lemma pg_steps_ended: "pg_steps d d' \<Longrightarrow> ended d d'"
  unfolding pg_steps_def by (induction rule: rtranclp_induct) (auto intro: ended_trans pg_step_ended)

lemma pg_steps_good: "pg_steps d d' \<Longrightarrow> db_good d \<Longrightarrow> db_good d'"
  unfolding pg_steps_def by (induction rule: rtranclp_induct) (auto intro: pg_step_good)

end
