(* ===== verification/AuthzPgClaims.thy ===== *)
theory AuthzPgClaims
  imports AuthzPgRefine PgEndings
begin

text \<open>
  The properties of the PostgreSQL tuple and share store.
\<close>

subsection \<open>Check\<close>

text \<open>C11: what \<open>Check\<close> of the PostgreSQL store allows is always granted by the rows of the table \<open>tup\<close> under the
  rewrite rules, whatever the order in which the database scans them and however its listings fail.  When it answers
  without an error and no listing of subjects broke off (or there are no rules), it allows exactly what is granted.\<close>

theorem pg_Check_meaning:
  assumes "pg_reach d" and "env_ok e" and "scans_all e d"
    and "wire_form (ci_SubjectType i) (ci_SubjectID i)" and "wire_form (ci_ObjectType i) (ci_ObjectID i)"
    and "pg_Check s i e d = Inr r"
  shows "(chk_Allowed r \<longrightarrow> holds (pts_rules s) (tuple_keys d) (ci_SubjectType i) (ci_SubjectID i)
      (ci_Relation i) (ci_ObjectType i) (ci_ObjectID i)) \<and>
    (pts_rules s = None \<or> uncut e \<longrightarrow> (chk_Allowed r \<longleftrightarrow> holds (pts_rules s) (tuple_keys d) (ci_SubjectType i)
      (ci_SubjectID i) (ci_Relation i) (ci_ObjectType i) (ci_ObjectID i)))"
proof -
  have "backend_good (e, d)" using assms(1-3) by (simp add: backend_good_def pg_reach_good)
  from pg_Check_holds [OF this assms(4-6)] show ?thesis by blast
qed

lemma pg_demo2_scanned: "list_all (\<lambda>r. tr_id r \<in> set pg_demo_ids) (db_tup pg_demo2)"
  by code_simp

lemma pg_demo_check_allowed:
  "map_sum id chk_Allowed (pg_Check pg_demo_store pg_demo_check (pg_demo CHR ''c'' 5000) pg_demo2) = Inr True"
  by code_simp

theorem pg_Check_meaning_witness:
  "holds (pts_rules pg_demo_store) (tuple_keys pg_demo2) (ci_SubjectType pg_demo_check) (ci_SubjectID pg_demo_check)
     (ci_Relation pg_demo_check) (ci_ObjectType pg_demo_check) (ci_ObjectID pg_demo_check)"
proof -
  obtain r where r: "pg_Check pg_demo_store pg_demo_check (pg_demo CHR ''c'' 5000) pg_demo2 = Inr r" "chk_Allowed r"
    using pg_demo_check_allowed by (auto simp: map_sum_def split: sum.splits)
  have "wire_form (ci_SubjectType pg_demo_check) (ci_SubjectID pg_demo_check)"
    "wire_form (ci_ObjectType pg_demo_check) (ci_ObjectID pg_demo_check)"
    by (simp_all add: pg_demo_check_def pg_demo_forms)
  then show ?thesis
    using pg_Check_meaning [OF pg_demo_reach2 pg_demo_ok pg_demo_scans [OF pg_demo2_scanned] _ _ r(1)] r(2)
    by (simp add: class_defs)
qed

text \<open>A listing that broke off before its first row: the rows grant the relation through the owner of the parent
  organization, and \<open>Check\<close> denies it without an error.\<close>

definition pg_cut_rules :: Rules where
  "pg_cut_rules = [''org'' \<mapsto> [''viewer'' \<mapsto> [TupleToUserset ''parent'' ''owner'']]]"

definition pg_cut_row :: "char \<Rightarrow> nat \<Rightarrow> string \<Rightarrow> uuid \<Rightarrow> string \<Rightarrow> string \<Rightarrow> uuid \<Rightarrow> tup_row" where
  "pg_cut_row x n st subj rel ot obj = \<lparr>tr_id = pg_demo_uuid x n, tr_subject_type = st, tr_subject_id = subj, tr_relation = rel,
     tr_object_type = ot, tr_object_id = obj, tr_created_at = 0, tr_created_by = None\<rparr>"

definition pg_cut_db :: pg_db where
  "pg_cut_db = empty_db\<lparr>db_tup := [
     pg_cut_row CHR ''a'' 1 ''usr'' (pg_demo_uuid CHR ''a'' 0) ''owner'' ''org'' (pg_demo_uuid CHR ''b'' 1),
     pg_cut_row CHR ''a'' 2 ''org'' (pg_demo_uuid CHR ''b'' 1) ''parent'' ''org'' (pg_demo_uuid CHR ''b'' 2)]\<rparr>"

definition pg_cut_check :: CheckInput where
  "pg_cut_check = \<lparr>ci_SubjectType = ''usr'', ci_SubjectID = pg_demo_usr, ci_Relation = ''viewer'', ci_ObjectType = ''org'',
     ci_ObjectID = ''org_0190f2a81b3c7abc8123456789abcdb2''\<rparr>"

lemma pg_Check_cut:
  "map_sum id chk_Allowed (pg_Check (NewPostgresTupleStoreWithRules (Some pg_cut_rules) \<lparr>MaxDepth = 0, MaxFanOut = 0\<rparr>) pg_cut_check
     (pg_demo CHR ''c'' 5000) pg_cut_db) = Inr True"
  "map_sum id chk_Allowed (pg_Check (NewPostgresTupleStoreWithRules (Some pg_cut_rules) \<lparr>MaxDepth = 0, MaxFanOut = 0\<rparr>) pg_cut_check
     ((pg_demo CHR ''c'' 5000)\<lparr>pe_list_cut := (\<lambda>_ _ _. Some 0)\<rparr>) pg_cut_db) = Inr False"
  by code_simp+

subsection \<open>Shares\<close>

lemma share_update_run:
  assumes "update_shr (\<lambda>q. sr_id q = u) (\<lambda>q. q\<lparr>sr_consumed_at := Some t\<rparr>) d = Inr (rows, d')" and "r \<in> set (db_shr d)"
    and "sr_id r = u"
  shows "\<exists>q \<in> set (db_shr d'). sr_id q = sr_id r \<and> sr_single_use q = sr_single_use r \<and> sr_consumed_at q \<noteq> None"
  using assms
  by (auto simp: update_shr_def sql_update_Inr map_sum_def split: sum.splits intro!: bexI [of _ "r\<lparr>sr_consumed_at := Some t\<rparr>"]
      image_eqI [of _ _ r])

lemma verify_share_run:
  assumes "db_run (pg_VerifyShareToken token) e d = Some (Inr v, d')"
  obtains r where "r \<in> set (db_shr d)" "vs_ShareID v = uuidToWire ''shr'' (sr_id r)"
    "sr_token_hash r = pe_sha256 e token" "sr_revoked_at r = None" "sr_single_use r \<Longrightarrow> sr_consumed_at r = None"
    "sr_single_use r \<Longrightarrow> \<exists>q \<in> set (db_shr d'). sr_id q = sr_id r \<and> sr_single_use q \<and> sr_consumed_at q \<noteq> None"
proof -
  define h where "h = pe_sha256 e token"
  obtain e1 n n' where run: "verify_share_tx h e1 n d = Some (Inr v, n', d')"
    using assms by (auto simp: db_run_def pg_VerifyShareToken_def db_runs h_def)
  let ?rows = "scan sr_id (pe_scan e1 n) (filter (\<lambda>r. sr_token_hash r = h) (db_shr d))"
  obtain r rs where Cons: "?rows = r # rs"
    using run by (cases ?rows) (auto simp: verify_share_tx_def db_runs)
  have "r \<in> set ?rows" unfolding Cons by simp
  then have r: "r \<in> set (db_shr d)" "sr_token_hash r = h"
    using set_scan [of sr_id "pe_scan e1 n" "filter (\<lambda>r. sr_token_hash r = h) (db_shr d)"] by auto
  have ok: "vs_ShareID v = uuidToWire ''shr'' (sr_id r)" "sr_revoked_at r = None" "sr_single_use r \<Longrightarrow> sr_consumed_at r = None"
    using run Cons r(2) by (auto simp: verify_share_tx_def db_runs split: if_splits)
  have "\<exists>q \<in> set (db_shr d'). sr_id q = sr_id r \<and> sr_single_use q = sr_single_use r \<and> sr_consumed_at q \<noteq> None" if "sr_single_use r"
    using run Cons r(2) that share_update_run [OF _ r(1) refl]
    by (auto simp: verify_share_tx_def db_runs split: if_splits)
  then show thesis using that [OF r(1) ok(1)] r(2) ok(2,3) by (auto simp: h_def)
qed

lemma share_unique:
  assumes "db_good d" and "r \<in> set (db_shr d)" and "q \<in> set (db_shr d)" and "uuidToWire ''shr'' (sr_id r) = uuidToWire ''shr'' (sr_id q)"
  shows "r = q"
proof -
  have "distinct (map sr_id (db_shr d))" "canonical (sr_id r)" "canonical (sr_id q)"
    using assms(1-3) by (auto simp: db_good_tables table_ok_def shr_uniq_def shr_typed_def list_all_iff)
  with assms show ?thesis by (simp add: uuidToWire_inj distinct_map inj_on_def)
qed

text \<open>C5: a single-use share is redeemed at most once: whatever calls follow a successful verification, no token is
  verified as that share again.\<close>

theorem pg_single_use_once:
  assumes "pg_reach d" and "env_ok e" and "db_run (pg_VerifyShareToken token) e d = Some (Inr v, d1)"
    and "row \<in> set (db_shr d)" and "uuidToWire ''shr'' (sr_id row) = vs_ShareID v" and "sr_single_use row"
    and "pg_steps d1 d2" and "db_run (pg_VerifyShareToken token2) e2 d2 = Some (Inr v2, d3)"
  shows "vs_ShareID v2 \<noteq> vs_ShareID v"
proof
  assume eq: "vs_ShareID v2 = vs_ShareID v"
  have "pg_reach d1" by (rule pg_reach_step [OF assms(1) db_run_step [OF VerifyShareToken_call assms(2,3)]])
  with assms(1,7) have good: "db_good d" "db_good d2" by (auto intro: pg_reach_good pg_reach_steps)
  obtain r where r: "r \<in> set (db_shr d)" "vs_ShareID v = uuidToWire ''shr'' (sr_id r)"
    "sr_single_use r \<Longrightarrow> \<exists>q \<in> set (db_shr d1). sr_id q = sr_id r \<and> sr_single_use q \<and> sr_consumed_at q \<noteq> None"
    using verify_share_run [OF assms(3)] by metis
  then have "row = r" using assms(4,5) by (intro share_unique [OF good(1)]) simp_all
  with r(3) assms(6) obtain q where "q \<in> set (db_shr d1)" "sr_id q = sr_id r" "sr_single_use q" "sr_consumed_at q \<noteq> None" by auto
  with pg_steps_ended [OF assms(7)] obtain q2 where q2: "q2 \<in> set (db_shr d2)" "sr_id q2 = sr_id r" "sr_single_use q2"
    "sr_consumed_at q2 \<noteq> None" by (force simp: ended_def rows_later_def shr_later_def)
  obtain r2 where r2: "r2 \<in> set (db_shr d2)" "vs_ShareID v2 = uuidToWire ''shr'' (sr_id r2)"
    "sr_single_use r2 \<Longrightarrow> sr_consumed_at r2 = None"
    using verify_share_run [OF assms(8)] by metis
  then have "q2 = r2" using eq r(2) q2 by (intro share_unique [OF good(2)]) simp_all
  with q2 r2(3) show False by simp
qed


definition pg_demo_share_token :: string where
  "pg_demo_share_token = RawURLEncoding_EncodeToString (replicate 32 CHR ''c'')"

definition pg_demo_share_token2 :: string where
  "pg_demo_share_token2 = RawURLEncoding_EncodeToString (replicate 32 CHR ''b'')"

definition pg_demo4 :: pg_db where
  "pg_demo4 = pg_demo_after (pg_VerifyShareToken pg_demo_share_token) (pg_demo CHR ''c'' 4000) pg_demo3"

definition pg_demo5 :: pg_db where
  "pg_demo5 = pg_demo_after (pg_CreateShare pg_demo_share) (pg_demo CHR ''b'' 5000) pg_demo4"

abbreviation pg_demo_redeem where
  "pg_demo_redeem token now d \<equiv> db_run (pg_VerifyShareToken token) (pg_demo CHR ''c'' now) d"

lemma pg_demo_redeemed:
  "map_option (map_sum id vs_ShareID \<circ> fst) (pg_demo_redeem pg_demo_share_token 4000 pg_demo3)
     = Some (Inr ''shr_0190f2a81b3c7abc8123456789abcdc1'')"
  "map (\<lambda>r. (sr_single_use r, uuidToWire ''shr'' (sr_id r))) (db_shr pg_demo3)
     = [(True, ''shr_0190f2a81b3c7abc8123456789abcdc1'')]"
  "map_option (map_sum id vs_ShareID \<circ> fst) (pg_demo_redeem pg_demo_share_token2 6000 pg_demo5)
     = Some (Inr ''shr_0190f2a81b3c7abc8123456789abcdb1'')"
  "map_option fst (pg_demo_redeem pg_demo_share_token 6000 pg_demo5) = Some (Inl (PgErr ErrShareConsumed))"
  by code_simp+

theorem pg_single_use_once_witness:
  "''shr_0190f2a81b3c7abc8123456789abcdb1'' \<noteq> ''shr_0190f2a81b3c7abc8123456789abcdc1'' \<and>
   map_option fst (pg_demo_redeem pg_demo_share_token 6000 pg_demo5) = Some (Inl (PgErr ErrShareConsumed))"
proof -
  obtain v d1 where 1: "pg_demo_redeem pg_demo_share_token 4000 pg_demo3 = Some (Inr v, d1)"
    and v: "vs_ShareID v = ''shr_0190f2a81b3c7abc8123456789abcdc1''"
    by (rule run_result [OF pg_demo_redeemed(1)])
  obtain v2 d3 where 2: "pg_demo_redeem pg_demo_share_token2 6000 pg_demo5 = Some (Inr v2, d3)"
    and v2: "vs_ShareID v2 = ''shr_0190f2a81b3c7abc8123456789abcdb1''"
    by (rule run_result [OF pg_demo_redeemed(3)])
  have d1: "d1 = pg_demo4" unfolding pg_demo4_def by (rule pg_demo_after_run [OF 1, symmetric])
  obtain row where row: "row \<in> set (db_shr pg_demo3)" "uuidToWire ''shr'' (sr_id row) = vs_ShareID v" "sr_single_use row"
    using pg_demo_redeemed(2) v by (cases "db_shr pg_demo3") auto
  have "pg_steps d1 pg_demo5"
    unfolding d1 pg_demo5_def by (rule pg_demo_after_steps [OF CreateShare_call]) (simp add: class_defs)
  from pg_single_use_once [OF pg_demo_reach3 pg_demo_ok 1 row this 2] v v2 pg_demo_redeemed(4)
  show ?thesis by (simp add: class_defs)
qed

end
