(* ===== verification/IdentityPgClaims.thy ===== *)
theory IdentityPgClaims
  imports PgEndings PgDemo IdentityDemo
begin

text \<open>
  The properties of the PostgreSQL identity store.
\<close>

subsection \<open>Revoking a user\<close>

lemma update_run:
  "update_usr P f d = Inr (rows, d') \<Longrightarrow> db_ses d' = db_ses d \<and> db_cred d' = db_cred d \<and> rows = map f (filter P (db_usr d))"
  "update_ses P1 f1 d = Inr (rows1, d') \<Longrightarrow> db_cred d' = db_cred d \<and> db_ses d' = map (\<lambda>r. if P1 r then f1 r else r) (db_ses d)"
  "update_cred P2 f2 d = Inr (rows2, d') \<Longrightarrow> db_ses d' = db_ses d \<and> db_cred d' = map (\<lambda>r. if P2 r then f2 r else r) (db_cred d)"
  by (auto simp: update_usr_def update_ses_def update_cred_def map_sum_def sql_update_Inr split: sum.splits)

lemma map_if_all:
  "(\<And>r. P r \<Longrightarrow> Q (f r)) \<Longrightarrow> (\<And>r. \<not> P r \<Longrightarrow> Q r) \<Longrightarrow> \<forall>r \<in> set (map (\<lambda>r. if P r then f r else r) t). Q r"
  by auto

lemma RevokeUser_run:
  assumes "db_run (pg_RevokeUser usrID) e d = Some (Inr usr, d1)"
  obtains u where "usr_ID usr = uuidToWire ''usr'' u" "canonical u \<or> \<not> env_ok e" "usr_Status usr = StatusRevoked"
    "\<forall>s \<in> set (db_ses d1). sn_usr_id s = u \<longrightarrow> sn_revoked_at s \<noteq> None"
    "\<forall>c \<in> set (db_cred d1). cr_usr_id c = u \<longrightarrow> cr_status c \<noteq> StatusActive"
proof -
  obtain n' where run: "pg_RevokeUser usrID e 0 d = Some (Inr usr, n', d1)" using assms by (auto simp: db_run_def)
  then obtain u where u: "wireToUUID (pe_uuid e) usrID = Inr u" by (auto simp: pg_RevokeUser_def transUser_def db_runs)
  have ne: "StatusRevoked \<noteq> StatusActive" "StatusRevoked \<noteq> StatusSuspended" by (simp_all add: StatusRevoked_def StatusActive_def StatusSuspended_def)
  let ?rev = "\<lambda>t s. s\<lparr>sn_revoked_at := Some t\<rparr>"
  obtain t1 t2 d' q rows da xb db xc where
    1: "update_usr (\<lambda>r. ur_id r = u) (\<lambda>r. r\<lparr>ur_status := StatusRevoked, ur_updated_at := t1\<rparr>) d' = Inr (q # rows, da)"
    and 2: "update_ses (\<lambda>s. sn_usr_id s = u \<and> sn_revoked_at s = None) (?rev t2) da = Inr (xb, db)"
    and 3: "update_cred (\<lambda>c. cr_usr_id c = u \<and> cr_status c = ''active'')
        (\<lambda>c. c\<lparr>cr_status := ''revoked'', cr_updated_at := t1\<rparr>) db = Inr (xc, d1)"
    and usr: "usr = user_of_row q"
    using run u
    by (clarsimp simp: pg_RevokeUser_def transUser_def db_runs update_user_row_def revoke_sessions_def ne split: if_splits)
  have "q # rows = map (\<lambda>r. r\<lparr>ur_status := StatusRevoked, ur_updated_at := t1\<rparr>) (filter (\<lambda>r. ur_id r = u) (db_usr d'))"
    using update_run(1) [OF 1] by simp
  then have "q \<in> set (map (\<lambda>r. r\<lparr>ur_status := StatusRevoked, ur_updated_at := t1\<rparr>) (filter (\<lambda>r. ur_id r = u) (db_usr d')))"
    by (metis list.set_intros(1))
  then have q: "ur_id q = u" "ur_status q = StatusRevoked" unfolding set_map set_filter by auto
  have "\<forall>s \<in> set (db_ses db). sn_usr_id s = u \<longrightarrow> sn_revoked_at s \<noteq> None"
    unfolding update_run(2) [OF 2, THEN conjunct2] by (rule map_if_all) auto
  then have "\<forall>s \<in> set (db_ses d1). sn_usr_id s = u \<longrightarrow> sn_revoked_at s \<noteq> None" using update_run(3) [OF 3] by simp
  moreover have "\<forall>c \<in> set (db_cred d1). cr_usr_id c = u \<longrightarrow> cr_status c \<noteq> StatusActive"
    unfolding update_run(3) [OF 3, THEN conjunct2] by (rule map_if_all) (auto simp: StatusActive_def)
  ultimately show thesis
    using that [of u] u q usr wireToUUID_canonical [of "pe_uuid e"] by (auto simp: env_ok_def user_of_row_def)
qed

lemma VerifySession_run:
  assumes "db_run (pg_VerifySessionToken token) e d = Some (Inr s, d')"
  obtains r n where "r \<in> set (db_ses d)" "s = session_of_row r" "sn_token_hash r = Some (pe_sha256 e token)"
    "sn_revoked_at r = None" "pe_clock e n < sn_expires_at r"
proof -
  define h where "h = pe_sha256 e token"
  obtain n' where run: "pg_VerifySessionToken token e 0 d = Some (Inr s, n', d')" using assms by (auto simp: db_run_def)
  let ?rows = "scan sn_id (pe_scan e 0) (filter (\<lambda>r. sn_token_hash r = Some h) (db_ses d))"
  obtain r rs where Cons: "?rows = r # rs"
    using run by (cases ?rows) (auto simp: pg_VerifySessionToken_def hashTokenBytes_def db_runs h_def)
  have "r \<in> set ?rows" unfolding Cons by simp
  then have r: "r \<in> set (db_ses d)" "sn_token_hash r = Some h"
    using set_scan [of sn_id "pe_scan e 0" "filter (\<lambda>r. sn_token_hash r = Some h) (db_ses d)"] by auto
  have "s = session_of_row r \<and> sn_revoked_at r = None \<and> (\<exists>n. pe_clock e n < sn_expires_at r)"
    using run Cons by (auto simp: pg_VerifySessionToken_def hashTokenBytes_def db_runs h_def split: if_splits)
  then show thesis using that r by (auto simp: h_def)
qed

lemma session_unique:
  assumes "db_good d" and "r \<in> set (db_ses d)" and "q \<in> set (db_ses d)" and "uuidToWire ''ses'' (sn_id r) = uuidToWire ''ses'' (sn_id q)"
  shows "r = q"
proof -
  have "distinct (map sn_id (db_ses d))" "canonical (sn_id r)" "canonical (sn_id q)"
    using assms(1-3) by (auto simp: db_good_tables table_ok_def ses_uniq_def ses_typed_def list_all_iff)
  with assms show ?thesis by (simp add: uuidToWire_inj distinct_map inj_on_def)
qed

lemma ended_session:
  assumes "PgEndings.ended d d'" and "r \<in> set (db_ses d)"
  obtains r' where "r' \<in> set (db_ses d')" "ses_later r r'"
  using assms by (auto simp: PgEndings.ended_def rows_later_def)

text \<open>C6: revoking a user leaves no active credential of it and ends its sessions for good: whatever calls follow, no
  token is verified as a session the user had.\<close>

theorem pg_RevokeUser_final:
  assumes "pg_reach d" and "env_ok e" and "db_run (pg_RevokeUser usrID) e d = Some (Inr usr, d1)"
    and "row \<in> set (db_ses d)" and "uuidToWire ''usr'' (sn_usr_id row) = usr_ID usr" and "pg_steps d1 d2"
  shows "(\<forall>c \<in> set (db_cred d1). uuidToWire ''usr'' (cr_usr_id c) = usr_ID usr \<longrightarrow> cr_status c \<noteq> StatusActive) \<and>
    (\<forall>token e2 s d3. db_run (pg_VerifySessionToken token) e2 d2 = Some (Inr s, d3) \<longrightarrow>
       ses_ID s \<noteq> uuidToWire ''ses'' (sn_id row))"
proof -
  obtain u where u: "usr_ID usr = uuidToWire ''usr'' u" "canonical u"
    "\<forall>s \<in> set (db_ses d1). sn_usr_id s = u \<longrightarrow> sn_revoked_at s \<noteq> None"
    "\<forall>c \<in> set (db_cred d1). cr_usr_id c = u \<longrightarrow> cr_status c \<noteq> StatusActive"
    using RevokeUser_run [OF assms(3)] assms(2) by metis
  have step: "pg_step d d1" by (rule db_run_step [OF RevokeUser_call assms(2,3)])
  then have good: "db_good d" "db_good d1" "db_good d2"
    using assms(1,6) pg_reach_step by (auto intro: pg_reach_good pg_reach_steps)
  have typed: "canonical (sn_usr_id row)" "\<forall>c \<in> set (db_cred d1). canonical (cr_usr_id c)"
    using good(1,2) assms(4) by (auto simp: db_good_tables table_ok_def ses_typed_def cred_typed_def list_all_iff)
  then have row: "sn_usr_id row = u" using assms(5) u(1,2) by (simp add: uuidToWire_inj)
  obtain r1 where r1: "r1 \<in> set (db_ses d1)" "ses_later row r1" by (rule ended_session [OF pg_step_ended [OF step] assms(4)])
  then have "sn_revoked_at r1 \<noteq> None" using u(3) row by (simp add: ses_later_def)
  moreover obtain r2 where r2: "r2 \<in> set (db_ses d2)" "ses_later r1 r2" by (rule ended_session [OF pg_steps_ended [OF assms(6)] r1(1)])
  ultimately have end2: "sn_revoked_at r2 \<noteq> None" "sn_id r2 = sn_id row" using r1(2) by (simp_all add: ses_later_def)
  have "ses_ID s \<noteq> uuidToWire ''ses'' (sn_id row)" if run: "db_run (pg_VerifySessionToken token) e2 d2 = Some (Inr s, d3)" for token e2 s d3
  proof
    assume eq: "ses_ID s = uuidToWire ''ses'' (sn_id row)"
    obtain r where r: "r \<in> set (db_ses d2)" "s = session_of_row r" "sn_revoked_at r = None"
      using VerifySession_run [OF run] by metis
    then have "r = r2" using eq end2(2) by (intro session_unique [OF good(3) _ r2(1)]) (simp_all add: session_of_row_def)
    then show False using r(3) end2(1) by simp
  qed
  then show ?thesis using u(1,2,4) typed(2) by (simp add: uuidToWire_inj)
qed

definition pg_demo_cred :: string where "pg_demo_cred = ''cred_0190f2a81b3c7abc8123456789abcdb0''"
definition pg_demo_token :: string where "pg_demo_token = RawURLEncoding_EncodeToString (replicate 32 CHR ''c'')"

definition pg_demo_s1 :: pg_db where
  "pg_demo_s1 = pg_demo_after (pg_CreateOIDCCredential pg_demo_usr ''ann'' ''iss'' ''sub'') (pg_demo CHR ''b'' 2000) pg_demo1"

definition pg_demo_s2 :: pg_db where
  "pg_demo_s2 = pg_demo_after (pg_CreateSession pg_demo_usr pg_demo_cred 60) (pg_demo CHR ''c'' 3000) pg_demo_s1"

lemma pg_demo_s1_reach: "pg_reach pg_demo_s1"
  unfolding pg_demo_s1_def
  by (rule pg_demo_after_step [OF CreateOIDCCredential_call _ pg_demo_reach1]) (simp add: class_defs)

lemma pg_demo_s2_reach: "pg_reach pg_demo_s2"
  unfolding pg_demo_s2_def
  by (rule pg_demo_after_step [OF CreateSession_call _ pg_demo_s1_reach]) (simp add: class_defs)

definition pg_demo_s3 :: pg_db where
  "pg_demo_s3 = pg_demo_after (pg_RevokeUser pg_demo_usr) (pg_demo CHR ''a'' 4000) pg_demo_s2"

lemma pg_demo_s3_runs:
  "map (\<lambda>r. (uuidToWire ''ses'' (sn_id r), uuidToWire ''usr'' (sn_usr_id r))) (db_ses pg_demo_s2) =
     [(''ses_0190f2a81b3c7abc8123456789abcdc3'', pg_demo_usr)]"
  "map_option (map_sum id usr_ID \<circ> fst) (db_run (pg_RevokeUser pg_demo_usr) (pg_demo CHR ''a'' 4000) pg_demo_s2) = Some (Inr pg_demo_usr)"
  "map_option (map_sum id ses_ID \<circ> fst) (db_run (pg_VerifySessionToken pg_demo_token) (pg_demo CHR ''c'' 4000) pg_demo_s2)
     = Some (Inr ''ses_0190f2a81b3c7abc8123456789abcdc3'')"
  "map_option fst (db_run (pg_VerifySessionToken pg_demo_token) (pg_demo CHR ''c'' 4500) pg_demo_s3) = Some (Inl (PgErr IdnSessionExpired))"
  by code_simp+

theorem pg_RevokeUser_final_witness:
  "map_option fst (db_run (pg_VerifySessionToken pg_demo_token) (pg_demo CHR ''c'' 4500) pg_demo_s3) = Some (Inl (PgErr IdnSessionExpired)) \<and>
   \<not> (\<exists>token e s d. db_run (pg_VerifySessionToken token) e pg_demo_s3 = Some (Inr s, d) \<and>
      ses_ID s = ''ses_0190f2a81b3c7abc8123456789abcdc3'')"
proof -
  obtain usr d1 where 1: "db_run (pg_RevokeUser pg_demo_usr) (pg_demo CHR ''a'' 4000) pg_demo_s2 = Some (Inr usr, d1)"
    and usr: "usr_ID usr = pg_demo_usr" by (rule run_result [OF pg_demo_s3_runs(2)])
  have d1: "d1 = pg_demo_s3" unfolding pg_demo_s3_def by (rule pg_demo_after_run [OF 1, symmetric])
  obtain row where row: "row \<in> set (db_ses pg_demo_s2)" "uuidToWire ''usr'' (sn_usr_id row) = usr_ID usr"
    "uuidToWire ''ses'' (sn_id row) = ''ses_0190f2a81b3c7abc8123456789abcdc3''"
    using pg_demo_s3_runs(1) usr by (cases "db_ses pg_demo_s2") auto
  have "env_ok (pg_demo CHR ''a'' 4000)" by (rule pg_demo_ok) (simp add: class_defs)
  from pg_RevokeUser_final [OF pg_demo_s2_reach this 1 row(1,2) pg_steps_refl] show ?thesis
    using pg_demo_s3_runs(4) unfolding d1 row(3) by blast
qed

subsection \<open>Personal access tokens\<close>

lemma RevokePat_run:
  assumes "db_run (pg_RevokePat patID) e d = Some (Inr pat, d1)"
  obtains u where "wireToUUID (pe_uuid e) patID = Inr u" "\<exists>r \<in> set (db_pat d1). pa_id r = u \<and> pa_revoked_at r \<noteq> None"
proof -
  obtain n' where run: "pg_RevokePat patID e 0 d = Some (Inr pat, n', d1)" using assms by (auto simp: db_run_def)
  then obtain u where u: "wireToUUID (pe_uuid e) patID = Inr u" by (auto simp: pg_RevokePat_def db_runs)
  let ?f = "\<lambda>t now r. r\<lparr>pa_revoked_at := Some (case pa_revoked_at r of None \<Rightarrow> t | Some old \<Rightarrow> old), pa_updated_at := now\<rparr>"
  obtain t now r rows where 1: "update_pat (\<lambda>r. pa_id r = u) (?f t now) d = Inr (r # rows, d1)"
    using run u by (auto simp: pg_RevokePat_def db_runs)
  have d1: "db_pat d1 = map (\<lambda>r. if pa_id r = u then ?f t now r else r) (db_pat d)"
    and hit: "r # rows = map (?f t now) (filter (\<lambda>r. pa_id r = u) (db_pat d))"
    using 1 by (auto simp: update_pat_def map_sum_def sql_update_Inr split: sum.splits)
  have "filter (\<lambda>r. pa_id r = u) (db_pat d) \<noteq> []"
  proof
    assume "filter (\<lambda>r. pa_id r = u) (db_pat d) = []"
    then show False using hit by simp
  qed
  then obtain q where q: "q \<in> set (db_pat d)" "pa_id q = u" by (auto simp: filter_empty_conv)
  have "?f t now q \<in> set (db_pat d1)" unfolding d1 set_map by (rule image_eqI [OF _ q(1)]) (simp add: q(2))
  then have "\<exists>r \<in> set (db_pat d1). pa_id r = u \<and> pa_revoked_at r \<noteq> None" by (rule bexI [rotated]) (simp add: q(2))
  with u show thesis by (rule that)
qed

lemma case_three:
  "(case xs of [a, b, c] \<Rightarrow> f a b c | _ \<Rightarrow> db_fail err) e n d = Some (Inr v, n', d') \<Longrightarrow>
   \<exists>a b c. xs = [a, b, c] \<and> f a b c e n d = Some (Inr v, n', d')"
  by (auto simp: db_fail_run split: list.splits)

lemma VerifyPat_run:
  assumes "db_run (pg_VerifyPatToken L token) e d = Some (Inr v, d')"
  obtains u r where "wireToUUID (pe_uuid e) (vp_PatID v) = Inr u" "r \<in> set (db_pat d)" "pa_id r = u" "pa_revoked_at r = None"
proof -
  obtain n' where run: "pg_VerifyPatToken L token e 0 d = Some (Inr v, n', d')" using assms by (auto simp: db_run_def)
  have valid: "IsStructurallyValidPatToken token"
    using run by (auto simp: pg_VerifyPatToken_def db_runs split: if_splits)
  obtain p0 p1 secret where p: "split_n 2 (CHR ''_'') token = [p0, p1, secret]"
    using run valid unfolding pg_VerifyPatToken_def by (auto dest!: case_three)
  have "vp_PatID v = p0 @ ''_'' @ p1 \<and> (\<exists>u. wireToUUID (pe_uuid e) (p0 @ ''_'' @ p1) = Inr u \<and>
      (\<exists>r \<in> set (db_pat d). pa_id r = u \<and> pa_revoked_at r = None))"
    using run by (auto simp: pg_VerifyPatToken_def p valid db_runs Let_def find_Some_iff split: if_splits sum.splits)
  then show thesis using that by auto
qed

text \<open>C13: a revoked token is dead: whatever calls follow \<open>RevokePat\<close>, no bearer token is verified under the identifier
  that was revoked, however the identifier is written.\<close>

theorem pg_RevokePat_final:
  assumes "pg_reach d" and "env_ok e" and "db_run (pg_RevokePat patID) e d = Some (Inr pat, d1)" and "pg_steps d1 d2"
  shows "\<forall>L token e2 v d3. db_run (pg_VerifyPatToken L token) e2 d2 = Some (Inr v, d3) \<longrightarrow>
    wireToUUID (pe_uuid e2) (vp_PatID v) \<noteq> wireToUUID (pe_uuid e) patID"
proof (intro allI impI notI)
  fix L token e2 v d3
  assume run: "db_run (pg_VerifyPatToken L token) e2 d2 = Some (Inr v, d3)"
    and eq: "wireToUUID (pe_uuid e2) (vp_PatID v) = wireToUUID (pe_uuid e) patID"
  obtain r1 where r1: "wireToUUID (pe_uuid e) patID = Inr (pa_id r1)" "r1 \<in> set (db_pat d1)" "pa_revoked_at r1 \<noteq> None"
    using RevokePat_run [OF assms(3)] by metis
  obtain r2 where r2: "r2 \<in> set (db_pat d2)" "pat_later r1 r2"
    using pg_steps_ended [OF assms(4)] r1(2) by (auto simp: PgEndings.ended_def rows_later_def)
  obtain r where r: "wireToUUID (pe_uuid e2) (vp_PatID v) = Inr (pa_id r)" "r \<in> set (db_pat d2)" "pa_revoked_at r = None"
    using VerifyPat_run [OF run] by metis
  have "pg_reach d2" using assms(1,4) pg_reach_step [OF _ db_run_step [OF RevokePat_call assms(2,3)]] by (auto intro: pg_reach_steps)
  then have "distinct (map pa_id (db_pat d2))"
    using pg_reach_good by (auto simp: db_good_tables table_ok_def pat_uniq_def)
  moreover have "pa_id r = pa_id r2" using eq r(1) r1(1) r2(2) by (simp add: pat_later_def)
  ultimately have "r = r2" using r(2) r2(1) by (simp add: distinct_map inj_on_def)
  then show False using r(3) r1(3) r2(2) by (simp add: pat_later_def)
qed

text \<open>A run that creates a token; the hash is not evaluated.\<close>

definition pg_demo_pat_in :: CreatePatInput where
  "pg_demo_pat_in = \<lparr>cpi_UsrID = pg_demo_usr, cpi_Name = ''ci'', cpi_Scope = [''read''], cpi_ExpiresAt = None\<rparr>"

definition pg_demo_pat :: pg_db where
  "pg_demo_pat = pg_demo_after (pg_CreatePat (demo_env CHR ''b'' 2000) pg_demo_pat_in) (pg_demo CHR ''b'' 2000) pg_demo1"

lemma pg_demo_usr_row: "usr_exists pg_demo1 (pg_demo_uuid CHR ''a'' 0)"
  "wireToUUID (pg_demo_lib CHR ''b'') pg_demo_usr = Inr (pg_demo_uuid CHR ''a'' 0)" "db_pat pg_demo1 = []"
  "char_length ''ci'' = 2" "length (RawURLEncoding_EncodeToString (replicate 32 CHR ''b'')) = 43"
  by code_simp+

lemma pg_demo_pat_run:
  obtains r row where "db_run (pg_CreatePat (demo_env CHR ''b'' 2000) pg_demo_pat_in) (pg_demo CHR ''b'' 2000) pg_demo1
      = Some (Inr r, pg_demo1\<lparr>db_pat := [row]\<rparr>)" "pa_id row = pg_demo_uuid CHR ''b'' 1" "pa_revoked_at row = None"
    "pa_created_at row = 2000"
proof -
  obtain h where h: "HashPassword demo_idkey (Inr (replicate 16 CHR ''b'')) (RawURLEncoding_EncodeToString (replicate 32 CHR ''b'')) = Inr h"
    using demo_hash [of "RawURLEncoding_EncodeToString (replicate 32 CHR ''b'')"] pg_demo_usr_row(5)
    by (auto simp: MaxPasswordBytes_def)
  note lib = pg_demo_usr_row(2) [unfolded pg_demo_lib_def]
  show thesis
    by (rule that, simp add: db_run_def pg_CreatePat_def db_bind_def db_wire_def pg_demo_def lib pg_demo_usr_row pg_demo_pat_in_def
        db_sum_def db_ok_def db_clock_def db_newV7_def pg_demo_lib_def db_random_def db_hash_def h argon2idSaltBytes_def demo_env_def
        Let_def db_stmt_def insert_pat_def sql_insert_def pat_chk_def pat_uniq_def pat_fk_def pg_time_def) simp_all
qed

lemma pg_demo_pat_reach: "pg_reach pg_demo_pat"
  unfolding pg_demo_pat_def
  by (rule pg_demo_after_step [OF CreatePat_call _ pg_demo_reach1]) (simp add: class_defs)

lemma pg_demo_pat_revoked:
  "\<exists>pat d1. db_run (pg_RevokePat ''pat_0190f2a81b3c7abc8123456789abcdb1'') (pg_demo CHR ''b'' 4000) pg_demo_pat = Some (Inr pat, d1)"
proof -
  obtain r row where c: "db_run (pg_CreatePat (demo_env CHR ''b'' 2000) pg_demo_pat_in) (pg_demo CHR ''b'' 2000) pg_demo1
      = Some (Inr r, pg_demo1\<lparr>db_pat := [row]\<rparr>)" and row: "pa_id row = pg_demo_uuid CHR ''b'' 1" "pa_revoked_at row = None"
    "pa_created_at row = 2000" by (rule pg_demo_pat_run)
  have d: "pg_demo_pat = pg_demo1\<lparr>db_pat := [row]\<rparr>" unfolding pg_demo_pat_def by (rule pg_demo_after_run [OF c])
  have "pat_chk row" "pat_fk pg_demo_pat row"
    using pg_reach_good [OF pg_demo_pat_reach] by (auto simp: db_good_tables table_ok_def d)
  moreover have "wireToUUID (pg_demo_lib CHR ''b'') ''pat_0190f2a81b3c7abc8123456789abcdb1'' = Inr (pg_demo_uuid CHR ''b'' 1)"
    by code_simp
  ultimately show ?thesis
    by (simp add: db_run_def pg_RevokePat_def db_bind_def db_wire_def pg_demo_def db_sum_def db_ok_def db_clock_def db_map_error_def
        returning_def db_stmt_def update_pat_def sql_update_def d row pat_chk_def pat_uniq_def pat_fk_def first_row_def db_query_def
        pg_time_def Let_def usr_exists_def)
qed

theorem pg_RevokePat_final_witness:
  "\<exists>d1. pg_reach d1 \<and> \<not> (\<exists>L token e v d. db_run (pg_VerifyPatToken L token) e d1 = Some (Inr v, d) \<and>
     wireToUUID (pe_uuid e) (vp_PatID v) = Inr (pg_demo_uuid CHR ''b'' 1))"
proof -
  obtain pat d1 where 1: "db_run (pg_RevokePat ''pat_0190f2a81b3c7abc8123456789abcdb1'') (pg_demo CHR ''b'' 4000) pg_demo_pat = Some (Inr pat, d1)"
    using pg_demo_pat_revoked by auto
  have e: "env_ok (pg_demo CHR ''b'' 4000)" by (rule pg_demo_ok) (simp add: class_defs)
  have "wireToUUID (pe_uuid (pg_demo CHR ''b'' 4000)) ''pat_0190f2a81b3c7abc8123456789abcdb1'' = Inr (pg_demo_uuid CHR ''b'' 1)"
    by code_simp
  moreover have "pg_reach d1" by (rule pg_reach_step [OF pg_demo_pat_reach db_run_step [OF RevokePat_call e 1]])
  ultimately show ?thesis using pg_RevokePat_final [OF pg_demo_pat_reach e 1 pg_steps_refl] by metis
qed

end
