(* ===== verification/PgOwners.thy ===== *)
theory PgOwners
  imports PgEndings
begin

text \<open>
  Organizations and memberships on PostgreSQL.  \<open>orgs_owned d\<close>: an organization of \<open>d\<close> that is not revoked has an active
  owner.  Most methods leave the two tables alone (\<open>same_members\<close>); the others are taken apart into their statements.
\<close>

subsection \<open>Methods that leave organizations and memberships alone\<close>

definition same_members :: "org_row list \<Rightarrow> mem_row list \<Rightarrow> pg_db \<Rightarrow> bool" where
  "same_members O1 M d \<longleftrightarrow> db_org d = O1 \<and> db_mem d = M"

lemma keeps_members_insert [db_rules]:
  "(\<And>r. Q0 r) \<Longrightarrow> keeps (same_members O1 M) Q0 (db_stmt (\<lambda>now. insert_usr (row0 now)))"
  "(\<And>r. Q3 r) \<Longrightarrow> keeps (same_members O1 M) Q3 (db_stmt (\<lambda>now. insert_inv (row3 now)))"
  "(\<And>r. Q4 r) \<Longrightarrow> keeps (same_members O1 M) Q4 (db_stmt (\<lambda>now. insert_tup (row4 now)))"
  "(\<And>r. Q5 r) \<Longrightarrow> keeps (same_members O1 M) Q5 (db_stmt (\<lambda>now. insert_cred (row5 now)))"
  "(\<And>r. Q6 r) \<Longrightarrow> keeps (same_members O1 M) Q6 (db_stmt (\<lambda>now. insert_mfa (row6 now)))"
  "(\<And>r. Q7 r) \<Longrightarrow> keeps (same_members O1 M) Q7 (db_stmt (\<lambda>now. insert_ses (row7 now)))"
  "(\<And>r. Q8 r) \<Longrightarrow> keeps (same_members O1 M) Q8 (db_stmt (\<lambda>now. insert_shr (row8 now)))"
  "(\<And>r. Q9 r) \<Longrightarrow> keeps (same_members O1 M) Q9 (db_stmt (\<lambda>now. insert_pat (row9 now)))"
  by (rule keeps_stmt; auto simp: insert_usr_def insert_inv_def insert_tup_def insert_cred_def insert_mfa_def
      insert_ses_def insert_shr_def insert_pat_def same_members_def map_sum_def split: sum.splits)+

lemma keeps_members_update [db_rules]:
  "(\<And>rows. Q0 rows) \<Longrightarrow> keeps (same_members O1 M) Q0 (db_stmt (\<lambda>now. update_usr (P0 now) (f0 now)))"
  "(\<And>rows. Q3 rows) \<Longrightarrow> keeps (same_members O1 M) Q3 (db_stmt (\<lambda>now. update_inv (P3 now) (f3 now)))"
  "(\<And>rows. Q4 rows) \<Longrightarrow> keeps (same_members O1 M) Q4 (db_stmt (\<lambda>now. update_cred (P4 now) (f4 now)))"
  "(\<And>rows. Q5 rows) \<Longrightarrow> keeps (same_members O1 M) Q5 (db_stmt (\<lambda>now. update_mfa (P5 now) (f5 now)))"
  "(\<And>rows. Q6 rows) \<Longrightarrow> keeps (same_members O1 M) Q6 (db_stmt (\<lambda>now. update_ses (P6 now) (f6 now)))"
  "(\<And>rows. Q7 rows) \<Longrightarrow> keeps (same_members O1 M) Q7 (db_stmt (\<lambda>now. update_shr (P7 now) (f7 now)))"
  "(\<And>rows. Q8 rows) \<Longrightarrow> keeps (same_members O1 M) Q8 (db_stmt (\<lambda>now. update_pat (P8 now) (f8 now)))"
  by (rule keeps_stmt; auto simp: update_usr_def update_inv_def update_cred_def update_mfa_def update_ses_def
      update_shr_def update_pat_def same_members_def map_sum_def split: sum.splits)+

lemma keeps_members_other [db_rules]:
  "(\<And>n. Q1 n) \<Longrightarrow> keeps (same_members O1 M) Q1 (db_stmt (\<lambda>now d. Inr (delete_tup (P now) d)))"
  "(\<And>r. Q2 r) \<Longrightarrow> keeps (same_members O1 M) Q2 (db_stmt (\<lambda>now. upsert_policy (row now)))"
  by (rule keeps_stmt; auto simp: delete_tup_def upsert_policy_def same_members_def map_sum_def split: sum.splits if_splits)+

lemma keeps_members_pre_tuples [db_rules]:
  "(\<And>ts. Q ts) \<Longrightarrow> keeps (same_members O1 M) Q (insert_pre_tuples acceptingU pts)"
proof (induction pts arbitrary: Q)
  case (Cons pt pts)
  then show ?case unfolding insert_pre_tuples.simps insert_user_tuple_def by (intro db_rules Cons.IH)
qed (auto intro: db_rules)

lemma frame_methods1:
  "keeps (same_members O1 M) (\<lambda>_. True) (pg_DeleteTuple tupleID1)"
  "keeps (same_members O1 M) (\<lambda>_. True) (pg_CascadeRevokeSubject subjectType2 subjectID2)"
  "keeps (same_members O1 M) (\<lambda>_. True) (pg_GetTuple tupleID3)"
  "keeps (same_members O1 M) (\<lambda>_. True) (pg_ListTuplesBySubject subjectType4 subjectID4 opts4)"
  "keeps (same_members O1 M) (\<lambda>_. True) (pg_ListTuplesByObject objectType5 objectID5 opts5)"
  "keeps (same_members O1 M) (\<lambda>_. True) (pg_CreateShare i6)"
  "keeps (same_members O1 M) (\<lambda>_. True) (pg_GetShare shareID7)"
  "keeps (same_members O1 M) (\<lambda>_. True) (pg_VerifyShareToken token8)"
  "keeps (same_members O1 M) (\<lambda>_. True) (pg_RevokeShare shareID9)"
  "keeps (same_members O1 M) (\<lambda>_. True) (pg_ListSharesForObject objectType10 objectID10 opts10)"
  "keeps (same_members O1 M) (\<lambda>_. True) (pg_CreateTuple i11)"
  unfolding pg_DeleteTuple_def pg_CascadeRevokeSubject_def pg_GetTuple_def pg_ListTuplesBySubject_def
    pg_ListTuplesByObject_def pg_CreateShare_def pg_GetShare_def pg_VerifyShareToken_def pg_RevokeShare_def
    pg_ListSharesForObject_def pg_CreateTuple_def
    loadShare_def verify_share_tx_def listTuples_def
  by (intro db_rules ballI; simp)+

lemma frame_methods2:
  "keeps (same_members O1 M) (\<lambda>_. True) (pg_GetOrg orgID12)"
  "keeps (same_members O1 M) (\<lambda>_. True) (pg_ListOrgs opts13)"
  "keeps (same_members O1 M) (\<lambda>_. True) (pg_GetMembership memID14)"
  "keeps (same_members O1 M) (\<lambda>_. True) (pg_ListMembers orgID15 opts15)"
  "keeps (same_members O1 M) (\<lambda>_. True) (pg_CreateInvitation orgID16 identifier16 role16 invitedBy16 expiresAt16 preTuples16)"
  "keeps (same_members O1 M) (\<lambda>_. True) (pg_GetInvitation invID17)"
  "keeps (same_members O1 M) (\<lambda>_. True) (pg_ListInvitations orgID18 opts18)"
  "keeps (same_members O1 M) (\<lambda>_. True) (pg_DeclineInvitation invID19 asUsrID19)"
  "keeps (same_members O1 M) (\<lambda>_. True) (pg_RevokeInvitation invID20 adminUsrID20)"
  "keeps (same_members O1 M) (\<lambda>_. True) (pg_ListTuplesForSubject subjectType21 subjectID21)"
  "keeps (same_members O1 M) (\<lambda>_. True) (pg_ListTuplesForObject objectType22 objectID22 relation22)"
  unfolding pg_GetOrg_def pg_ListOrgs_def pg_GetMembership_def pg_ListMembers_def pg_CreateInvitation_def
    pg_GetInvitation_def pg_ListInvitations_def pg_DeclineInvitation_def pg_RevokeInvitation_def
    pg_ListTuplesForSubject_def pg_ListTuplesForObject_def
    tenancy_steps tenancy_statements
  by (intro db_rules ballI; simp)+

lemma frame_methods3:
  "keeps (same_members O1 M) (\<lambda>_. True) (pg_CreateUser displayName23)"
  "keeps (same_members O1 M) (\<lambda>_. True) (pg_GetUser usrID24)"
  "keeps (same_members O1 M) (\<lambda>_. True) (pg_UpdateUser usrID25 i25)"
  "keeps (same_members O1 M) (\<lambda>_. True) (pg_ListUsers opts26)"
  "keeps (same_members O1 M) (\<lambda>_. True) (pg_SuspendUser usrID27)"
  "keeps (same_members O1 M) (\<lambda>_. True) (pg_ReinstateUser usrID28)"
  "keeps (same_members O1 M) (\<lambda>_. True) (pg_RevokeUser usrID29)"
  "keeps (same_members O1 M) (\<lambda>_. True) (pg_CreatePasswordCredential L30 usrID30 ident30 password30)"
  "keeps (same_members O1 M) (\<lambda>_. True) (pg_CreatePasskeyCredential usrID31 ident31 publicKey31 signCount31 rpID31)"
  "keeps (same_members O1 M) (\<lambda>_. True) (pg_CreateOIDCCredential usrID32 ident32 issuer32 sub32)"
  "keeps (same_members O1 M) (\<lambda>_. True) (pg_GetCredential credID33)"
  "keeps (same_members O1 M) (\<lambda>_. True) (pg_ListCredentialsForUser usrID34)"
  "keeps (same_members O1 M) (\<lambda>_. True) (pg_FindCredentialByIdentifier t35 ident35)"
  "keeps (same_members O1 M) (\<lambda>_. True) (pg_RotatePassword L36 credID36 newPassword36)"
  "keeps (same_members O1 M) (\<lambda>_. True) (pg_RotatePasskey credID37 publicKey37 signCount37 rpID37)"
  "keeps (same_members O1 M) (\<lambda>_. True) (pg_RotateOIDC credID38 issuer38 sub38)"
  "keeps (same_members O1 M) (\<lambda>_. True) (pg_SuspendCredential credID39)"
  "keeps (same_members O1 M) (\<lambda>_. True) (pg_ReinstateCredential credID40)"
  "keeps (same_members O1 M) (\<lambda>_. True) (pg_RevokeCredential credID41)"
  "keeps (same_members O1 M) (\<lambda>_. True) (pg_VerifyPassword L42 ident42 password42)"
  "keeps (same_members O1 M) (\<lambda>_. True) (pg_CreateSession usrID43 credID43 ttlSeconds43)"
  "keeps (same_members O1 M) (\<lambda>_. True) (pg_GetSession sesID44)"
  "keeps (same_members O1 M) (\<lambda>_. True) (pg_ListSessionsForUser usrID45 opts45)"
  "keeps (same_members O1 M) (\<lambda>_. True) (pg_VerifySessionToken token46)"
  "keeps (same_members O1 M) (\<lambda>_. True) (pg_RefreshSession sesID47)"
  "keeps (same_members O1 M) (\<lambda>_. True) (pg_RevokeSession sesID48)"
  unfolding pg_CreateUser_def pg_GetUser_def pg_UpdateUser_def pg_ListUsers_def pg_SuspendUser_def
    pg_ReinstateUser_def pg_RevokeUser_def pg_CreatePasswordCredential_def pg_CreatePasskeyCredential_def
    pg_CreateOIDCCredential_def pg_GetCredential_def pg_ListCredentialsForUser_def
    pg_FindCredentialByIdentifier_def pg_RotatePassword_def pg_RotatePasskey_def pg_RotateOIDC_def
    pg_SuspendCredential_def pg_ReinstateCredential_def pg_RevokeCredential_def pg_VerifyPassword_def
    pg_CreateSession_def pg_GetSession_def pg_ListSessionsForUser_def pg_VerifySessionToken_def
    pg_RefreshSession_def pg_RevokeSession_def
    identity_steps
  by (intro db_rules ballI; simp)+

lemma frame_methods4:
  "keeps (same_members O1 M) (\<lambda>_. True) (pg_EnrollTotpFactor L49 usrID49 label49 opts49)"
  "keeps (same_members O1 M) (\<lambda>_. True) (pg_EnrollWebAuthnFactor usrID50 credentialID50 publicKey50 signCount50 rpID50)"
  "keeps (same_members O1 M) (\<lambda>_. True) (pg_EnrollRecoveryFactor L51 usrID51)"
  "keeps (same_members O1 M) (\<lambda>_. True) (pg_ConfirmTotpFactor L52 mfaID52 code52)"
  "keeps (same_members O1 M) (\<lambda>_. True) (pg_ConfirmWebAuthnFactor L53 mfaID53 proof1_53)"
  "keeps (same_members O1 M) (\<lambda>_. True) (pg_GetFactor mfaID54)"
  "keeps (same_members O1 M) (\<lambda>_. True) (pg_ListFactorsForUser usrID55)"
  "keeps (same_members O1 M) (\<lambda>_. True) (pg_SuspendFactor mfaID56)"
  "keeps (same_members O1 M) (\<lambda>_. True) (pg_ReinstateFactor mfaID57)"
  "keeps (same_members O1 M) (\<lambda>_. True) (pg_RevokeFactor mfaID58)"
  "keeps (same_members O1 M) (\<lambda>_. True) (pg_VerifyMfa L59 usrID59 proof1_59)"
  "keeps (same_members O1 M) (\<lambda>_. True) (pg_GetUserMfaPolicy usrID60)"
  "keeps (same_members O1 M) (\<lambda>_. True) (pg_SetUserMfaPolicy usrID61 required61 graceUntil61)"
  "keeps (same_members O1 M) (\<lambda>_. True) (pg_CreatePat L62 i62)"
  "keeps (same_members O1 M) (\<lambda>_. True) (pg_GetPat patID63)"
  "keeps (same_members O1 M) (\<lambda>_. True) (pg_ListPatsForUser usrID64 opts64)"
  "keeps (same_members O1 M) (\<lambda>_. True) (pg_VerifyPatToken L65 token65)"
  "keeps (same_members O1 M) (\<lambda>_. True) (pg_RevokePat patID66)"
  unfolding pg_EnrollTotpFactor_def pg_EnrollWebAuthnFactor_def pg_EnrollRecoveryFactor_def
    pg_ConfirmTotpFactor_def pg_ConfirmWebAuthnFactor_def pg_GetFactor_def pg_ListFactorsForUser_def
    pg_SuspendFactor_def pg_ReinstateFactor_def pg_RevokeFactor_def pg_VerifyMfa_def pg_GetUserMfaPolicy_def
    pg_SetUserMfaPolicy_def pg_CreatePat_def pg_GetPat_def pg_ListPatsForUser_def pg_VerifyPatToken_def
    pg_RevokePat_def
    mfa_steps
  by (intro db_rules ballI; simp)+

subsection \<open>What the statements do to the two tables\<close>

lemma member_statements:
  "update_mem P f d = Inr (rows, d1) \<Longrightarrow> db_org d1 = db_org d \<and> db_mem d1 = map (\<lambda>r. if P r then f r else r) (db_mem d)"
  "insert_mem row d = Inr (m, d1) \<Longrightarrow> db_org d1 = db_org d \<and> db_mem d1 = db_mem d @ [row] \<and> m = row"
  "update_org P' g d = Inr (orgs, d1) \<Longrightarrow> db_mem d1 = db_mem d \<and> db_org d1 = map (\<lambda>r. if P' r then g r else r) (db_org d)"
  "insert_org o1 d = Inr (r, d1) \<Longrightarrow> db_mem d1 = db_mem d \<and> db_org d1 = db_org d @ [o1]"
  "insert_tup t d = Inr (t', d1) \<Longrightarrow> db_org d1 = db_org d \<and> db_mem d1 = db_mem d"
  "delete_tup T d = (k, d1) \<Longrightarrow> db_org d1 = db_org d \<and> db_mem d1 = db_mem d"
  "update_inv I h d = Inr (invs, d1) \<Longrightarrow> db_org d1 = db_org d \<and> db_mem d1 = db_mem d"
  by (auto simp: update_mem_def insert_mem_def update_org_def insert_org_def insert_tup_def delete_tup_def
      update_inv_def sql_update_Inr sql_insert_Inr map_sum_def split: sum.splits)

lemma scanned_ids:
  assumes "env_ok e" and "mem_typed r"
  shows "wire_value (pe_uuid e) (pe_badUUID e) (mem_OrgID (scanMembership r)) = mr_org_id r"
    and "wire_value (pe_uuid e) (pe_badUUID e) (mem_UsrID (scanMembership r)) = mr_usr_id r"
  using assms by (auto simp: scanMembership_def env_ok_def mem_typed_def intro: wire_value_uuidToWire)

subsection \<open>Owners\<close>

definition has_owner :: "uuid \<Rightarrow> mem_row list \<Rightarrow> bool" where
  "has_owner orgU M \<longleftrightarrow> list_ex (active_owner orgU) M"

definition owner_besides :: "uuid \<Rightarrow> uuid \<Rightarrow> mem_row list \<Rightarrow> bool" where
  "owner_besides u orgU M \<longleftrightarrow> list_ex (\<lambda>r. active_owner orgU r \<and> mr_id r \<noteq> u) M"

definition orgs_owned :: "pg_db \<Rightarrow> bool" where
  "orgs_owned d \<longleftrightarrow> list_all (\<lambda>r. og_status r \<noteq> StRevoked \<longrightarrow> has_owner (og_id r) (db_mem d)) (db_org d)"

lemma has_owner_append: "has_owner orgU (M @ [x]) \<longleftrightarrow> has_owner orgU M \<or> active_owner orgU x"
  by (auto simp: has_owner_def)

lemma owner_besides_append: "owner_besides u orgU M \<Longrightarrow> owner_besides u orgU (M @ [x])"
  by (auto simp: owner_besides_def)

lemma owner_besides_update:
  "owner_besides u orgU M \<Longrightarrow> has_owner orgU (map (\<lambda>r. if mr_id r = u then f r else r) M)"
  by (force simp: owner_besides_def has_owner_def list_ex_iff)

lemma row_of_id:
  assumes "distinct (map mr_id M)" and "r \<in> set M" and "q \<in> set M" and "mr_id q = mr_id r"
  shows "q = r"
  using assms by (auto simp: distinct_map inj_on_def)

text \<open>A row that is no active owner can change without harm, and so can one owner of several.\<close>

lemma owner_besides_other:
  assumes "distinct (map mr_id M)" and "r \<in> set M" and "has_owner orgU M" and "\<not> active_owner orgU r"
  shows "owner_besides (mr_id r) orgU M"
  using assms row_of_id [OF assms(1,2)] by (auto simp: has_owner_def owner_besides_def list_ex_iff)

lemma owner_besides_several:
  assumes "distinct (map mr_id M)" and "r \<in> set M" and "has_owner orgU M"
    and "length (filter (active_owner orgU) M) \<noteq> 1"
  shows "owner_besides (mr_id r) orgU M"
proof (cases "active_owner orgU r")
  case True
  have "\<exists>q \<in> set M. active_owner orgU q \<and> q \<noteq> r"
  proof (rule ccontr)
    assume only: "\<not> ?thesis"
    have "set (filter (active_owner orgU) M) \<subseteq> {r}" unfolding set_filter using only by blast
    moreover have "r \<in> set (filter (active_owner orgU) M)" using True assms(2) by simp
    ultimately have one: "set (filter (active_owner orgU) M) = {r}" by blast
    have "distinct M" using assms(1) by (simp only: distinct_map)
    then have "length (filter (active_owner orgU) M) = card {r}"
      unfolding one [symmetric] by (simp only: distinct_card distinct_filter)
    then show False using assms(4) by simp
  qed
  then obtain q where q: "q \<in> set M" "active_owner orgU q" "q \<noteq> r" by blast
  then have "mr_id q \<noteq> mr_id r" using row_of_id [OF assms(1,2)] by blast
  then show ?thesis using q by (auto simp: owner_besides_def list_ex_iff)
next
  case False
  then show ?thesis by (rule owner_besides_other [OF assms(1-3)])
qed

lemma ownedI:
  assumes "orgs_owned d" and "db_org d' = db_org d"
    and "\<And>orgU. has_owner orgU (db_mem d) \<Longrightarrow> has_owner orgU (db_mem d')"
  shows "orgs_owned d'"
  using assms by (auto simp: orgs_owned_def list_all_iff)

lemma owned_same: "orgs_owned d \<Longrightarrow> same_members (db_org d) (db_mem d) d' \<Longrightarrow> orgs_owned d'"
  by (auto simp: orgs_owned_def same_members_def)

text \<open>The invariant that calls keep: what is true before a successful call is true after it, and a call that fails
  leaves the two tables alone.\<close>

definition keeps_owned :: "(pg_db, 'e, 'a) db \<Rightarrow> bool" where
  "keeps_owned m \<longleftrightarrow> (\<forall>e n d r n' d'. env_ok e \<longrightarrow> db_good d \<longrightarrow> orgs_owned d \<longrightarrow> m e n d = Some (r, n', d') \<longrightarrow> orgs_owned d')"

lemma keeps_owned_frame:
  assumes "\<And>O1 M. keeps (same_members O1 M) (\<lambda>_. True) m"
  shows "keeps_owned m"
  unfolding keeps_owned_def
proof (intro allI impI)
  fix e n d r n' d'
  assume "env_ok e" "orgs_owned d" "m e n d = Some (r, n', d')"
  then show "orgs_owned d'" using keepsD(1) [OF assms, of e "db_org d" "db_mem d" d n] owned_same by (simp add: same_members_def)
qed

text \<open>What is read before the transaction.\<close>

lemma keeps_owned_wire:
  assumes "\<And>u. canonical u \<Longrightarrow> keeps_owned (f u)"
  shows "keeps_owned (db_bind (db_wire w) f)"
  unfolding keeps_owned_def
proof (intro allI impI)
  fix e n d r n' d'
  assume *: "env_ok e" "db_good d" "orgs_owned d" "db_bind (db_wire w) f e n d = Some (r, n', d')"
  show "orgs_owned d'"
  proof (cases "wireToUUID (pe_uuid e) w")
    case (Inl err)
    then show ?thesis using * by (simp add: db_bind_def db_wire_def db_sum_def db_fail_def)
  next
    case (Inr u)
    then have "canonical u" using *(1) wireToUUID_canonical by (auto simp: env_ok_def)
    then show ?thesis using assms [of u] * Inr
      by (auto simp: keeps_owned_def db_bind_def db_wire_def db_sum_def db_ok_def)
  qed
qed

lemma keeps_owned_wire_opt: "(\<And>u. keeps_owned (f u)) \<Longrightarrow> keeps_owned (db_bind (db_wire_opt w) f)"
  unfolding keeps_owned_def
  by (cases w) (auto simp: db_wire_opt_def db_bind_def db_wire_def db_sum_def db_ok_def db_fail_def map_sum_def
      split: sum.splits)

lemma keeps_owned_tx:
  assumes "\<And>e n d x n' d'. env_ok e \<Longrightarrow> db_good d \<Longrightarrow> orgs_owned d \<Longrightarrow> m e n d = Some (Inr x, n', d') \<Longrightarrow> orgs_owned d'"
  shows "keeps_owned (inTx m)"
  unfolding keeps_owned_def
proof (intro allI impI)
  fix e n d r n' d'
  assume *: "env_ok e" "db_good d" "orgs_owned d" "inTx m e n d = Some (r, n', d')"
  show "orgs_owned d'"
  proof (cases r)
    case (Inl err)
    then have "d' = d" using *(4) inTx_error by simp
    then show ?thesis using *(3) by simp
  next
    case (Inr x)
    moreover have "env_ok (e\<lparr>pe_now := t\<rparr>)" for t using *(1) by (simp add: env_ok_def)
    ultimately show ?thesis using * assms [of "e\<lparr>pe_now := \<lambda>_. pe_now e n\<rparr>" d "Suc n"] by (auto simp: inTx_run)
  qed
qed

subsection \<open>The methods on organizations and memberships\<close>

lemmas row_steps = insert_member_def insert_user_tuple_def delete_role_tuple_def revoke_mem_row_def select_mem_def
  select_active_def changeRoleLocked_def

lemma good_members:
  assumes "db_good d"
  shows "distinct (map mr_id (db_mem d))" and "r \<in> set (db_mem d) \<Longrightarrow> mem_typed r"
    and "distinct (map og_id (db_org d))"
  using assms by (auto simp: db_good_tables table_ok_def mem_uniq_def org_uniq_def list_all_iff)

lemma keeps_owned_check_slug: "keeps_owned (f ()) \<Longrightarrow> keeps_owned (db_bind (check_slug slug) f)"
  unfolding keeps_owned_def
  by (auto simp: check_slug_def db_bind_def db_ok_def db_fail_def split: option.splits)

lemma CreateOrg_owned: "keeps_owned (pg_CreateOrg creator opts)"
  unfolding pg_CreateOrg_def
proof (intro keeps_owned_check_slug keeps_owned_wire keeps_owned_tx, goal_cases)
  case (1 u e n d x n' d')
  then show ?case
    unfolding row_steps
    by (clarsimp simp: db_runs dest!: member_statements)
      (auto simp: orgs_owned_def list_all_iff has_owner_append active_owner_def new_mem_def)
qed

lemma AddMember_owned: "keeps_owned (pg_AddMember orgID usrID role invitedBy)"
  unfolding pg_AddMember_def
proof (intro keeps_owned_wire keeps_owned_wire_opt keeps_owned_tx, goal_cases)
  case (1 u v w e n d x n' d')
  then show ?case
    unfolding row_steps
    by (clarsimp simp: db_runs dest!: member_statements) (auto intro: ownedI simp: has_owner_append)
qed

lemma owned_org_update:
  assumes "orgs_owned d" and "db_org d' = map (\<lambda>r. if og_id r = u then g r else r) (db_org d)"
    and "\<And>r. r \<in> set (db_org d) \<Longrightarrow> og_id r = u \<Longrightarrow> og_id (g r) = u \<and> (og_status r = StRevoked \<longrightarrow> og_status (g r) = StRevoked)"
    and "\<And>r. r \<in> set (db_org d') \<Longrightarrow> og_status r \<noteq> StRevoked \<Longrightarrow> has_owner (og_id r) (db_mem d) \<Longrightarrow>
      has_owner (og_id r) (db_mem d')"
  shows "orgs_owned d'"
  unfolding orgs_owned_def list_all_iff
proof (intro ballI impI)
  fix r' assume r': "r' \<in> set (db_org d')" "og_status r' \<noteq> StRevoked"
  then obtain r where r: "r \<in> set (db_org d)" "r' = (if og_id r = u then g r else r)" using assms(2) by auto
  have "og_id r = og_id r' \<and> og_status r \<noteq> StRevoked" using r r'(2) assms(3) [OF r(1)] by (auto split: if_splits)
  then have "has_owner (og_id r') (db_mem d)" using r(1) assms(1) by (auto simp: orgs_owned_def list_all_iff)
  then show "has_owner (og_id r') (db_mem d')" by (rule assms(4) [OF r'])
qed

lemma check_slug_run [db_runs]: "check_slug slug e n d = Some (Inr x, n', d') \<longleftrightarrow>
   (case slug of None \<Rightarrow> True | Some y \<Rightarrow> validateSlug y = None) \<and> n' = n \<and> d' = d"
  by (auto simp: check_slug_def db_ok_def db_fail_def split: option.splits)

lemma UpdateOrg_owned: "keeps_owned (pg_UpdateOrg orgID i)"
  unfolding pg_UpdateOrg_def Let_def
proof (intro keeps_owned_wire keeps_owned_tx, goal_cases)
  case (1 u e n d x n' d')
  have "\<exists>name slug t orgs. update_org (\<lambda>r. og_id r = u)
      (\<lambda>r. r\<lparr>og_name := name, og_slug := slug, og_updated_at := t\<rparr>) d = Inr (orgs, d')"
    using 1(5) by (clarsimp simp: select_org_def db_runs) (auto simp: db_runs split: if_splits option.splits)
  then obtain name slug t orgs where "update_org (\<lambda>r. og_id r = u)
      (\<lambda>r. r\<lparr>og_name := name, og_slug := slug, og_updated_at := t\<rparr>) d = Inr (orgs, d')" by blast
  note eff = member_statements(3) [OF this]
  show ?case by (rule owned_org_update [OF 1(4) eff [THEN conjunct2]]) (simp_all add: eff)
qed

lemma found_row:
  "find (\<lambda>r. f r = u) t = Some q \<Longrightarrow> distinct (map f t) \<Longrightarrow> r \<in> set t \<Longrightarrow> f r = u \<Longrightarrow> r = q"
  by (auto simp: find_Some_iff distinct_map inj_on_def)

lemma has_owner_elsewhere:
  assumes "has_owner orgU M" and "orgU \<noteq> u"
  shows "has_owner orgU (map (\<lambda>m. if mr_org_id m = u \<and> mr_status m = StActive then f m else m) M)"
proof -
  obtain q where q: "q \<in> set M" "active_owner orgU q" using assms(1) by (auto simp: has_owner_def list_ex_iff)
  have "q \<in> set (map (\<lambda>m. if mr_org_id m = u \<and> mr_status m = StActive then f m else m) M)"
    unfolding set_map by (rule image_eqI [OF _ q(1)]) (use q(2) assms(2) in \<open>simp add: active_owner_def\<close>)
  then show ?thesis unfolding has_owner_def list_ex_iff using q(2) by blast
qed

lemma transOrg_owned: "keeps_owned (transOrg orgID to)"
  unfolding transOrg_def
proof (intro keeps_owned_wire keeps_owned_tx, goal_cases)
  case (1 u e n d x n' d')
  have run: "\<exists>q t t2 orgs d1. find (\<lambda>r. og_id r = u) (db_org d) = Some q \<and> og_status q \<noteq> StRevoked \<and>
      update_org (\<lambda>r. og_id r = u) (\<lambda>r. r\<lparr>og_status := to, og_updated_at := t\<rparr>) d = Inr (orgs, d1) \<and>
      (to \<noteq> StRevoked \<and> d' = d1 \<or> to = StRevoked \<and> (\<exists>mems d2 T k.
        update_mem (\<lambda>m. mr_org_id m = u \<and> mr_status m = StActive) (\<lambda>m. m\<lparr>mr_status := StRevoked, mr_updated_at := t2\<rparr>) d1
          = Inr (mems, d2) \<and> delete_tup T d2 = (k, d')))"
  proof (cases "to = StRevoked")
    case True
    with 1(5) show ?thesis by (clarsimp simp: select_org_def db_runs split: if_splits) blast+
  next
    case False
    with 1(5) show ?thesis by (clarsimp simp: select_org_def db_runs split: if_splits) blast+
  qed
  then obtain q t t2 orgs d1 where q: "find (\<lambda>r. og_id r = u) (db_org d) = Some q" "og_status q \<noteq> StRevoked"
    and upd: "update_org (\<lambda>r. og_id r = u) (\<lambda>r. r\<lparr>og_status := to, og_updated_at := t\<rparr>) d = Inr (orgs, d1)"
    and calls: "to \<noteq> StRevoked \<and> d' = d1 \<or> to = StRevoked \<and> (\<exists>mems d2 T k.
      update_mem (\<lambda>m. mr_org_id m = u \<and> mr_status m = StActive) (\<lambda>m. m\<lparr>mr_status := StRevoked, mr_updated_at := t2\<rparr>) d1
        = Inr (mems, d2) \<and> delete_tup T d2 = (k, d'))"
    by blast
  have rest: "to \<noteq> StRevoked \<and> d' = d1 \<or> to = StRevoked \<and> db_org d' = db_org d1 \<and>
      db_mem d' = map (\<lambda>m. if mr_org_id m = u \<and> mr_status m = StActive then m\<lparr>mr_status := StRevoked, mr_updated_at := t2\<rparr> else m)
        (db_mem d1)"
    using calls by (auto dest!: member_statements)
  note eff = member_statements(3) [OF upd]
  have live: "og_status r \<noteq> StRevoked" if "r \<in> set (db_org d)" "og_id r = u" for r
    using found_row [OF q(1) good_members(3) [OF 1(3)] that] q(2) by simp
  show ?case
  proof (rule owned_org_update [OF 1(4)])
    show "db_org d' = map (\<lambda>r. if og_id r = u then r\<lparr>og_status := to, og_updated_at := t\<rparr> else r) (db_org d)"
      using rest eff by auto
  next
    fix r assume r: "r \<in> set (db_org d')" "og_status r \<noteq> StRevoked" "has_owner (og_id r) (db_mem d)"
    show "has_owner (og_id r) (db_mem d')"
      using rest
    proof
      assume 2: "to = StRevoked \<and> db_org d' = db_org d1 \<and> db_mem d' = map (\<lambda>m. if mr_org_id m = u \<and> mr_status m = StActive
          then m\<lparr>mr_status := StRevoked, mr_updated_at := t2\<rparr> else m) (db_mem d1)"
      have "r \<in> (\<lambda>r. if og_id r = u then r\<lparr>og_status := to, og_updated_at := t\<rparr> else r) ` set (db_org d)"
        using r(1) unfolding 2 [THEN conjunct2, THEN conjunct1] eff [THEN conjunct2] set_map .
      then obtain r0 where "r = (if og_id r0 = u then r0\<lparr>og_status := to, og_updated_at := t\<rparr> else r0)" by (rule imageE)
      then have "og_id r \<noteq> u" using r(2) 2 by (cases "og_id r0 = u") simp_all
      then show ?thesis unfolding 2 [THEN conjunct2, THEN conjunct2] eff [THEN conjunct1] by (rule has_owner_elsewhere [OF r(3)])
    qed (use r(3) eff in simp)
  qed (simp add: live)
qed

lemma scanned_row [simp]: "mem_Status (scanMembership r) = mr_status r" "mem_Role (scanMembership r) = mr_role r"
  by (simp_all add: scanMembership_def)

lemma lock_member_run [db_runs]: "lock_member memID u e n d = Some (Inr m, n', d') \<longleftrightarrow> pe_fault e n = None \<and>
   (\<exists>r. find (\<lambda>r. mr_id r = u) (db_mem d) = Some r \<and> m = scanMembership r) \<and> n' = Suc n \<and> d' = d"
  by (auto simp: lock_member_def select_mem_def db_runs)

lemma not_sole_owner_run [db_runs]: "not_sole_owner b orgU e n d = Some (Inr x, n', d') \<longleftrightarrow> d' = d \<and>
   (b \<longrightarrow> pe_fault e n = None \<and> length (filter (active_owner orgU) (db_mem d)) \<noteq> 1) \<and> n' = n + of_bool b"
  by (auto simp: not_sole_owner_def countActiveOwners_def db_runs split: if_splits)

lemma wire_value_opt_run [db_runs]: "db_wire_value_opt w e n d = Some (r, n', d') \<longleftrightarrow>
   r = Inr (map_option (wire_value (pe_uuid e) (pe_badUUID e)) w) \<and> n' = n \<and> d' = d"
  by (cases w) (auto simp: db_wire_value_opt_def db_ok_def db_bind_def db_wire_value_def db_asks_def)

lemma found_member:
  assumes "db_good d" and "find (\<lambda>r. mr_id r = u) (db_mem d) = Some r"
  shows "r \<in> set (db_mem d)" and "mr_id r = u" and "mem_typed r"
  using assms good_members(2) [OF assms(1)] by (auto simp: find_Some_iff)

lemma owner_besides_row:
  assumes "db_good d" and "find (\<lambda>r. mr_id r = u) (db_mem d) = Some r" and "has_owner orgU (db_mem d)"
    and "mr_role r = RoleOwner \<and> mr_status r = StActive \<longrightarrow> length (filter (active_owner (mr_org_id r)) (db_mem d)) \<noteq> 1"
  shows "owner_besides u orgU (db_mem d)"
proof (cases "active_owner orgU r")
  case True
  then show ?thesis using found_member [OF assms(1,2)] assms(3,4) owner_besides_several [OF good_members(1) [OF assms(1)]]
    by (auto simp: active_owner_def)
next
  case False
  then show ?thesis using found_member [OF assms(1,2)] assms(3) owner_besides_other [OF good_members(1) [OF assms(1)]] by auto
qed

lemma owned_row_changed:
  assumes "db_good d" and "orgs_owned d" and "find (\<lambda>r. mr_id r = u) (db_mem d) = Some r"
    and "mr_role r = RoleOwner \<and> mr_status r = StActive \<longrightarrow> length (filter (active_owner (mr_org_id r)) (db_mem d)) \<noteq> 1"
    and "db_org d' = db_org d" and "db_mem d' = map (\<lambda>m. if mr_id m = u then f m else m) (db_mem d) @ ms"
  shows "orgs_owned d'"
proof (rule ownedI [OF assms(2,5)])
  fix orgU assume "has_owner orgU (db_mem d)"
  then have "has_owner orgU (map (\<lambda>m. if mr_id m = u then f m else m) (db_mem d))"
    by (intro owner_besides_update owner_besides_row [OF assms(1,3)] assms(4))
  then show "has_owner orgU (db_mem d')" unfolding assms(6) by (simp add: has_owner_def)
qed

lemma ChangeRole_owned: "keeps_owned (pg_ChangeRole memID newRole)"
  unfolding pg_ChangeRole_def
proof (intro keeps_owned_wire keeps_owned_tx, goal_cases)
  case (1 u e n d x n' d')
  obtain r where r: "find (\<lambda>r. mr_id r = u) (db_mem d) = Some r" using 1(5) by (auto simp: db_runs)
  note ids = scanned_ids [OF 1(2) found_member(3) [OF 1(3) r]]
  show ?case
  proof (cases "mr_role r = newRole")
    case True
    then show ?thesis using 1(4,5) by (auto simp: db_runs r split: if_splits)
  next
    case False
    have "\<exists>t nm. db_org d' = db_org d \<and> db_mem d' = map (\<lambda>m. if mr_id m = u then m\<lparr>mr_status := StRevoked, mr_updated_at := t\<rparr> else m)
        (db_mem d) @ [nm] \<and> (mr_role r = RoleOwner \<longrightarrow> length (filter (active_owner (mr_org_id r)) (db_mem d)) \<noteq> 1)"
      using 1(5) False unfolding row_steps by (clarsimp simp: db_runs r ids split: if_splits) (auto dest!: member_statements)
    then obtain t nm where eff: "db_org d' = db_org d" "db_mem d' = map (\<lambda>m. if mr_id m = u then m\<lparr>mr_status := StRevoked, mr_updated_at := t\<rparr> else m)
        (db_mem d) @ [nm]" "mr_role r = RoleOwner \<longrightarrow> length (filter (active_owner (mr_org_id r)) (db_mem d)) \<noteq> 1"
      by (elim exE conjE)
    show ?thesis by (rule owned_row_changed [OF 1(3,4) r _ eff(1,2)]) (use eff(3) in simp)
  qed
qed

lemma transMem_owned: "keeps_owned (transMem memID to removedBy)"
  unfolding transMem_def
proof (intro keeps_owned_wire keeps_owned_tx, goal_cases)
  case (1 u e n d x n' d')
  obtain r where r: "find (\<lambda>r. mr_id r = u) (db_mem d) = Some r" using 1(5) by (auto simp: db_runs)
  note ids = scanned_ids [OF 1(2) found_member(3) [OF 1(3) r]]
  have "\<exists>t. db_org d' = db_org d \<and> db_mem d' = map (\<lambda>m. if mr_id m = u then m\<lparr>mr_status := to,
        mr_removed_by := (case removedBy of None \<Rightarrow> mr_removed_by m | Some b \<Rightarrow> Some b), mr_updated_at := t\<rparr> else m) (db_mem d)
      \<and> (mr_role r = RoleOwner \<and> mr_status r = StActive \<longrightarrow> length (filter (active_owner (mr_org_id r)) (db_mem d)) \<noteq> 1)"
    using 1(5) unfolding row_steps by (clarsimp simp: db_runs r ids split: if_splits) (auto simp: db_runs dest!: member_statements)
  then obtain t where eff: "db_org d' = db_org d" "db_mem d' = map (\<lambda>m. if mr_id m = u then m\<lparr>mr_status := to,
        mr_removed_by := (case removedBy of None \<Rightarrow> mr_removed_by m | Some b \<Rightarrow> Some b), mr_updated_at := t\<rparr> else m) (db_mem d) @ []"
      "mr_role r = RoleOwner \<and> mr_status r = StActive \<longrightarrow> length (filter (active_owner (mr_org_id r)) (db_mem d)) \<noteq> 1"
    unfolding append_Nil2 by (elim exE conjE)
  show ?case by (rule owned_row_changed [OF 1(3,4) r eff(3,1,2)])
qed

lemma remove_member_run:
  assumes "remove_member u m usrU orgU by1 e n d = Some (Inr x, n', d')"
  shows "\<exists>t. db_org d' = db_org d \<and> db_mem d' = map (\<lambda>m. if mr_id m = u
    then m\<lparr>mr_status := StRevoked, mr_removed_by := Some by1, mr_updated_at := t\<rparr> else m) (db_mem d) @ []"
  using assms unfolding remove_member_def row_steps by (clarsimp simp: db_runs) (auto dest!: member_statements)

lemma AdminRemove_owned: "keeps_owned (pg_AdminRemove memID adminUsrID)"
  unfolding pg_AdminRemove_def
proof (intro keeps_owned_wire keeps_owned_tx, goal_cases)
  case (1 u adminU e n d x n' d')
  obtain r where r: "find (\<lambda>r. mr_id r = u) (db_mem d) = Some r" using 1(6) by (auto simp: db_runs)
  note ids = scanned_ids [OF 1(3) found_member(3) [OF 1(4) r]]
  have run: "(\<exists>n1. remove_member u (scanMembership r) (mr_usr_id r) (mr_org_id r) adminU e n1 d = Some (Inr x, n', d')) \<and>
      (mr_role r = RoleOwner \<and> mr_status r = StActive \<longrightarrow> length (filter (active_owner (mr_org_id r)) (db_mem d)) \<noteq> 1)"
    using 1(6) unfolding row_steps by (clarsimp simp: db_runs r ids split: if_splits) auto
  then obtain t where eff: "db_org d' = db_org d" "db_mem d' = map (\<lambda>m. if mr_id m = u
      then m\<lparr>mr_status := StRevoked, mr_removed_by := Some adminU, mr_updated_at := t\<rparr> else m) (db_mem d) @ []"
    using remove_member_run by blast
  show ?case by (rule owned_row_changed [OF 1(4,5) r run [THEN conjunct2] eff])
qed

text \<open>One member is promoted before another one goes.\<close>

lemma has_owner_promoted:
  assumes ids: "distinct (map mr_id M)" and a: "a \<in> set M" "mr_org_id a = orgU" and b: "b \<in> set M" "mr_org_id b = orgU"
    and new: "active_owner orgU nm" "mr_id nm \<noteq> mr_id b" and had: "has_owner O1 M"
  shows "has_owner O1 (map (\<lambda>m. if mr_id m = mr_id b then g m else m)
    (map (\<lambda>m. if mr_id m = mr_id a then f m else m) M @ [nm]) @ ms)"
proof (cases "O1 = orgU")
  case True
  then show ?thesis using new by (simp add: has_owner_def)
next
  case False
  obtain q where q: "q \<in> set M" "active_owner O1 q" using had by (auto simp: has_owner_def list_ex_iff)
  then have "mr_id q \<noteq> mr_id a" "mr_id q \<noteq> mr_id b"
    using False a b row_of_id [OF ids a(1) q(1)] row_of_id [OF ids b(1) q(1)] by (auto simp: active_owner_def)
  then have "q \<in> set (map (\<lambda>m. if mr_id m = mr_id b then g m else m) (map (\<lambda>m. if mr_id m = mr_id a then f m else m) M))"
    unfolding map_map set_map by (intro image_eqI [OF _ q(1)]) simp
  then have "list_ex (active_owner O1) (map (\<lambda>m. if mr_id m = mr_id b then g m else m) (map (\<lambda>m. if mr_id m = mr_id a then f m else m) M))"
    unfolding list_ex_iff using q(2) by (rule rev_bexI)
  then show ?thesis unfolding has_owner_def map_append list_ex_append by blast
qed

lemma insert_mem_new: "insert_mem row d = Inr (m, d1) \<Longrightarrow> distinct (map mr_id (db_mem d @ [row]))"
  by (auto simp: insert_mem_def sql_insert_Inr map_sum_def mem_uniq_def split: sum.splits)

lemma changeRoleLocked_run:
  assumes "changeRoleLocked oldMem usrU orgU oldRole newRole e n d = Some (Inr x, n', d')"
  obtains t nm where "db_org d' = db_org d" "mr_org_id nm = orgU" "mr_role nm = newRole" "mr_status nm = StActive"
    "db_mem d' = map (\<lambda>m. if mr_id m = oldMem then m\<lparr>mr_status := StRevoked, mr_updated_at := t\<rparr> else m) (db_mem d) @ [nm]"
    "mr_id nm \<notin> mr_id ` set (db_mem d)"
proof -
  obtain t rows d1 k T d2 row m d3 t' tr where 1:
    "update_mem (\<lambda>r. mr_id r = oldMem) (\<lambda>r. r\<lparr>mr_status := StRevoked, mr_updated_at := t\<rparr>) d = Inr (rows, d1)"
    "delete_tup T d1 = (k, d2)" "insert_mem row d2 = Inr (m, d3)" "insert_tup tr d3 = Inr (t', d')"
    "mr_org_id row = orgU" "mr_role row = newRole" "mr_status row = StActive"
    using assms unfolding row_steps by (clarsimp simp: db_runs new_mem_def)
  note eff = member_statements(1) [OF 1(1)] member_statements(6) [OF 1(2)] member_statements(2) [OF 1(3)]
    member_statements(5) [OF 1(4)]
  have "map mr_id (db_mem d2) = map mr_id (db_mem d)"
    unfolding eff(2) [THEN conjunct2] eff(1) [THEN conjunct2] map_map by (rule map_cong [OF refl]) simp
  then have "distinct (map mr_id (db_mem d) @ [mr_id row])" using insert_mem_new [OF 1(3)] by simp
  then have new: "mr_id row \<notin> mr_id ` set (db_mem d)" by (simp only: distinct_append set_map) auto
  have "db_org d' = db_org d" "db_mem d' = map (\<lambda>m. if mr_id m = oldMem then m\<lparr>mr_status := StRevoked, mr_updated_at := t\<rparr> else m)
      (db_mem d) @ [row]" using eff by simp_all
  then show thesis using that 1(5-7) new by blast
qed

lemma promote_target_run:
  assumes "promote_target transferTo orgU e n d = Some (Inr x, n', d')"
  obtains q ttU n1 where "q \<in> set (db_mem d)" "mr_org_id q = orgU"
    "changeRoleLocked (mr_id q) ttU orgU (mr_role q) RoleOwner e n1 d = Some (Inr (), n', d')"
proof -
  obtain q ttU n1 where "find (\<lambda>r. mr_org_id r = orgU \<and> mr_usr_id r = ttU \<and> mr_status r = StActive) (db_mem d) = Some q"
    and change: "changeRoleLocked (mr_id q) ttU orgU (mr_role q) RoleOwner e n1 d = Some (Inr (), n', d')"
    using assms unfolding promote_target_def select_active_def by (cases transferTo) (auto simp: db_runs split: if_splits)
  then have "q \<in> set (db_mem d)" "mr_org_id q = orgU" by (auto simp: find_Some_iff)
  then show thesis using change by (rule that)
qed

lemma SelfLeave_owned: "keeps_owned (pg_SelfLeave memID transferTo)"
  unfolding pg_SelfLeave_def
proof (intro keeps_owned_wire keeps_owned_tx, goal_cases)
  case (1 u e n d x n' d')
  obtain r where r: "find (\<lambda>r. mr_id r = u) (db_mem d) = Some r" using 1(5) by (auto simp: db_runs)
  note row = found_member [OF 1(3) r]
  note ids = scanned_ids [OF 1(2) row(3)]
  let ?sole = "mr_role r = RoleOwner \<and> length (filter (active_owner (mr_org_id r)) (db_mem d)) = 1"
  have "\<exists>n2 d1. remove_member u (scanMembership r) (mr_usr_id r) (mr_org_id r) (mr_usr_id r) e n2 d1 = Some (Inr x, n', d') \<and>
      (if ?sole then \<exists>n3 y. promote_target transferTo (mr_org_id r) e n3 d = Some (Inr y, n2, d1) else d1 = d)"
    using 1(5) by (cases "mr_role r = RoleOwner"; cases ?sole) (auto simp: db_runs r ids countActiveOwners_def split: if_splits)
  then obtain n2 d1 where leave: "remove_member u (scanMembership r) (mr_usr_id r) (mr_org_id r) (mr_usr_id r) e n2 d1 = Some (Inr x, n', d')"
    and promote: "if ?sole then \<exists>n3 y. promote_target transferTo (mr_org_id r) e n3 d = Some (Inr y, n2, d1) else d1 = d"
    by blast
  obtain t where eff: "db_org d' = db_org d1" "db_mem d' = map (\<lambda>m. if mr_id m = u
      then m\<lparr>mr_status := StRevoked, mr_removed_by := Some (mr_usr_id r), mr_updated_at := t\<rparr> else m) (db_mem d1) @ []"
    using remove_member_run [OF leave] by blast
  show ?case
  proof (cases ?sole)
    case True
    then obtain n3 y where "promote_target transferTo (mr_org_id r) e n3 d = Some (Inr y, n2, d1)"
      using promote by (simp only: if_True simp_thms) blast
    then obtain q ttU n4 where q: "q \<in> set (db_mem d)" "mr_org_id q = mr_org_id r"
      and change: "changeRoleLocked (mr_id q) ttU (mr_org_id r) (mr_role q) RoleOwner e n4 d = Some (Inr (), n2, d1)"
      by (rule promote_target_run)
    obtain t1 nm where new: "db_org d1 = db_org d" "mr_org_id nm = mr_org_id r" "mr_role nm = RoleOwner" "mr_status nm = StActive"
      "db_mem d1 = map (\<lambda>m. if mr_id m = mr_id q then m\<lparr>mr_status := StRevoked, mr_updated_at := t1\<rparr> else m) (db_mem d) @ [nm]"
      "mr_id nm \<notin> mr_id ` set (db_mem d)"
      using changeRoleLocked_run [OF change] .
    have "active_owner (mr_org_id r) nm" "mr_id nm \<noteq> mr_id r" using new row(1) by (auto simp: active_owner_def)
    note promoted = has_owner_promoted [OF good_members(1) [OF 1(3)] q row(1) refl this]
    show ?thesis
    proof (rule ownedI [OF 1(4)])
      show "db_org d' = db_org d" using eff(1) new(1) by simp
    next
      fix orgU assume "has_owner orgU (db_mem d)"
      then show "has_owner orgU (db_mem d')" unfolding eff(2) new(5) row(2) [symmetric] by (rule promoted)
    qed
  next
    case False
    then have "d1 = d" using promote by (simp only: if_False)
    then show ?thesis using owned_row_changed [OF 1(3,4) r _ eff(1,2) [unfolded \<open>d1 = d\<close>]] False by blast
  qed
qed

lemma TransferOwnership_run:
  assumes "db_bind (select_mem fromU) (\<lambda>fm.
       db_bind (select_mem toU) (\<lambda>tm.
       if mr_org_id fm \<noteq> orgU \<or> mr_role fm \<noteq> RoleOwner \<or> mr_status fm \<noteq> StActive
       then db_fail (PgErr (TenPrecondition ''not_active_owner''))
       else if mr_org_id tm \<noteq> orgU \<or> mr_status tm \<noteq> StActive
       then db_fail (PgErr (TenPrecondition ''not_active_member''))
       else if fromU = toU then db_fail (PgErr (TenPrecondition ''self_transfer''))
       else
         db_bind (changeRoleLocked toU (mr_usr_id tm) orgU (mr_role tm) RoleOwner) (\<lambda>_.
         db_bind (changeRoleLocked fromU (mr_usr_id fm) orgU RoleOwner RoleMember) (\<lambda>_.
         db_bind (select_active orgU (mr_usr_id tm)) (\<lambda>toMem.
         db_bind (select_active orgU (mr_usr_id fm)) (\<lambda>fromMem.
         db_ok \<lparr>tor_FromMembership = scanMembership fromMem, tor_ToMembership = scanMembership toMem\<rparr>)))))) e n d
    = Some (Inr x, n', d')"
  obtains fm tm n1 n2 d1 where "find (\<lambda>r. mr_id r = fromU) (db_mem d) = Some fm" "find (\<lambda>r. mr_id r = toU) (db_mem d) = Some tm"
    "mr_org_id fm = orgU" "mr_org_id tm = orgU"
    "changeRoleLocked toU (mr_usr_id tm) orgU (mr_role tm) RoleOwner e n1 d = Some (Inr (), n2, d1)"
    "\<exists>n3. changeRoleLocked fromU (mr_usr_id fm) orgU RoleOwner RoleMember e n2 d1 = Some (Inr (), n3, d')"
  using assms unfolding select_mem_def select_active_def by (simp add: db_runs split: if_splits) blast

lemma TransferOwnership_owned: "keeps_owned (pg_TransferOwnership orgID fromMemID toMemID)"
  unfolding pg_TransferOwnership_def
proof (intro keeps_owned_wire keeps_owned_tx, goal_cases)
  case (1 orgU fromU toU e n d x n' d')
  from 1(7) obtain fm tm n1 n2 d1 n3 where fm: "find (\<lambda>r. mr_id r = fromU) (db_mem d) = Some fm" "mr_org_id fm = orgU"
    and tm: "find (\<lambda>r. mr_id r = toU) (db_mem d) = Some tm" "mr_org_id tm = orgU"
    and up: "changeRoleLocked toU (mr_usr_id tm) orgU (mr_role tm) RoleOwner e n1 d = Some (Inr (), n2, d1)"
    and down: "changeRoleLocked fromU (mr_usr_id fm) orgU RoleOwner RoleMember e n2 d1 = Some (Inr (), n3, d')"
    by (rule TransferOwnership_run) blast
  note f = found_member [OF 1(5) fm(1)] note t = found_member [OF 1(5) tm(1)]
  obtain t1 nm where new: "db_org d1 = db_org d" "mr_org_id nm = orgU" "mr_role nm = RoleOwner" "mr_status nm = StActive"
    "db_mem d1 = map (\<lambda>m. if mr_id m = toU then m\<lparr>mr_status := StRevoked, mr_updated_at := t1\<rparr> else m) (db_mem d) @ [nm]"
    "mr_id nm \<notin> mr_id ` set (db_mem d)"
    using changeRoleLocked_run [OF up] .
  obtain t2 nm2 where old: "db_org d' = db_org d1"
    "db_mem d' = map (\<lambda>m. if mr_id m = fromU then m\<lparr>mr_status := StRevoked, mr_updated_at := t2\<rparr> else m) (db_mem d1) @ [nm2]"
    using changeRoleLocked_run [OF down] .
  have "active_owner orgU nm" "mr_id nm \<noteq> mr_id fm" using new f(1) by (auto simp: active_owner_def)
  note promoted = has_owner_promoted [OF good_members(1) [OF 1(5)] t(1) tm(2) f(1) fm(2) this]
  show ?case
  proof (rule ownedI [OF 1(6)])
    show "db_org d' = db_org d" using old(1) new(1) by simp
  next
    fix orgU' assume "has_owner orgU' (db_mem d)"
    then show "has_owner orgU' (db_mem d')" unfolding old(2) new(5) f(2) [symmetric] t(2) [symmetric] by (rule promoted)
  qed
qed

lemma accepting_user_run: "accepting_user opts iv e n d = Some (Inr v, n', d') \<Longrightarrow> d' = d"
  unfolding accepting_user_def by (auto simp: db_runs split: option.splits if_splits)

lemma scan_inv_run: "scan_inv row e n d = Some (Inr v, n', d') \<Longrightarrow> d' = d"
  unfolding scan_inv_def by (auto simp: db_runs)

lemma pre_tuples_run:
  "env_ok e \<Longrightarrow> insert_pre_tuples acceptingU pts e n d = Some (Inr x, n', d') \<Longrightarrow> db_org d' = db_org d \<and> db_mem d' = db_mem d"
  using keepsD(1) [OF keeps_members_pre_tuples [of "\<lambda>_. True"], of e "db_org d" "db_mem d" d acceptingU pts n "Inr x" n' d']
  by (simp add: same_members_def)

lemma AcceptInvitation_run:
  assumes "accept_invitation u iv opts now e n d = Some (Inr x, n', d')" and "env_ok e"
  shows "\<exists>row. db_org d' = db_org d \<and> db_mem d' = db_mem d @ [row]"
  using assms(1) unfolding accept_invitation_def insert_member_def insert_user_tuple_def no_active_membership_def
  by (clarsimp simp: db_runs split: if_splits)
    (auto dest!: member_statements accepting_user_run scan_inv_run pre_tuples_run [OF assms(2)])

lemma select_inv_run: "select_inv invID u e n d = Some (Inr v, n', d') \<Longrightarrow> d' = d"
  unfolding select_inv_def by (auto simp: db_runs dest: scan_inv_run)

lemma AcceptInvitation_owned: "keeps_owned (pg_AcceptInvitation invID opts)"
  unfolding pg_AcceptInvitation_def
proof (intro keeps_owned_wire keeps_owned_tx, goal_cases)
  case (1 u e n d x n' d')
  obtain iv n1 d1 where sel: "select_inv invID u e n d = Some (Inr iv, n1, d1)"
    and rest: "(if inv_Status iv \<noteq> InvPending then db_fail (PgErr TenInvitationNotPending)
       else db_bind db_clock (\<lambda>now. if \<not> now < inv_ExpiresAt iv
         then db_bind (db_stmt (\<lambda>_. update_inv (\<lambda>r. ir_id r = u) (expire_row now))) (\<lambda>_. db_fail (PgErr TenInvitationExpired))
         else accept_invitation u iv opts now)) e n1 d1 = Some (Inr x, n', d')"
    using 1(5) by (simp only: db_bind_run) blast
  have d1: "d1 = d" using sel by (rule select_inv_run)
  obtain now n2 where "accept_invitation u iv opts now e n2 d = Some (Inr x, n', d')"
    using rest unfolding d1 by (auto simp: db_runs split: if_splits)
  then have "\<exists>row. db_org d' = db_org d \<and> db_mem d' = db_mem d @ [row]"
    by (rule AcceptInvitation_run [OF _ 1(2)])
  then show ?case using 1(4) by (auto intro: ownedI simp: has_owner_append)
qed

lemma trans_owned:
  "keeps_owned (pg_SuspendOrg orgID1)" "keeps_owned (pg_ReinstateOrg orgID2)" "keeps_owned (pg_RevokeOrg orgID3)"
  "keeps_owned (pg_SuspendMembership memID4)" "keeps_owned (pg_ReinstateMembership memID5)"
  unfolding pg_SuspendOrg_def pg_ReinstateOrg_def pg_RevokeOrg_def pg_SuspendMembership_def pg_ReinstateMembership_def
  by (rule transOrg_owned transMem_owned)+

lemmas member_methods = CreateOrg_owned UpdateOrg_owned trans_owned AddMember_owned ChangeRole_owned SelfLeave_owned
  AdminRemove_owned TransferOwnership_owned AcceptInvitation_owned

lemmas frame_methods = frame_methods1 frame_methods2 frame_methods3 frame_methods4 pg_CheckAny_keeps

definition effect_owned :: "(pg_env \<Rightarrow> pg_db \<Rightarrow> pg_db option) \<Rightarrow> bool" where
  "effect_owned M \<longleftrightarrow> (\<forall>e d d'. env_ok e \<longrightarrow> db_good d \<longrightarrow> orgs_owned d \<longrightarrow> M e d = Some d' \<longrightarrow> orgs_owned d')"

lemma effect_ownedI: "keeps_owned m \<Longrightarrow> effect_owned (db_effect m)"
  unfolding keeps_owned_def effect_owned_def db_effect_def by fastforce

lemma pg_method_owned: "pg_method M \<Longrightarrow> effect_owned M"
  by (induction rule: pg_method.induct;
      ((rule effect_ownedI, rule member_methods) | (rule effect_ownedI, rule keeps_owned_frame, rule frame_methods)))

lemma pg_step_owned: "pg_step d d' \<Longrightarrow> db_good d \<Longrightarrow> orgs_owned d \<Longrightarrow> orgs_owned d'"
  unfolding pg_step_def using pg_method_owned unfolding effect_owned_def by blast

lemma pg_reach_owned: "pg_reach d \<Longrightarrow> orgs_owned d"
  unfolding pg_reach_def pg_steps_def
proof (induction rule: rtranclp_induct)
  case base
  show ?case by (simp add: orgs_owned_def empty_db_def)
next
  case (step d d')
  then have "db_good d" using pg_reach_good unfolding pg_reach_def pg_steps_def by blast
  then show ?case using pg_step_owned [OF step(2)] step(3) by blast
qed

end
