(* ===== verification/TenancyPgClaims.thy ===== *)
theory TenancyPgClaims
  imports PgOwners AuthzPgCheck PgDemo
begin

text \<open>
  The properties of the PostgreSQL tenancy store, and what its memberships mean to the tuple store on the same database.
\<close>

subsection \<open>Owners\<close>

text \<open>C7: in every database that calls of the three stores lead to, an organization that is not revoked has an active
  owner, who is a user of the database.\<close>

theorem pg_organization_owner:
  assumes "pg_reach d" and "org \<in> set (db_org d)" and "og_status org \<noteq> StRevoked"
  shows "\<exists>m \<in> set (db_mem d). mr_org_id m = og_id org \<and> mr_role m = RoleOwner \<and> mr_status m = StActive \<and>
    usr_exists d (mr_usr_id m)"
proof -
  have "has_owner (og_id org) (db_mem d)" using pg_reach_owned [OF assms(1)] assms(2,3) by (auto simp: orgs_owned_def list_all_iff)
  then obtain m where m: "m \<in> set (db_mem d)" "active_owner (og_id org) m" by (auto simp: has_owner_def list_ex_iff)
  have "mem_fk d m" using pg_reach_good [OF assms(1)] m(1) by (auto simp: db_good_def db_valid_def list_all_iff)
  then show ?thesis using m by (auto simp: active_owner_def mem_fk_def)
qed

lemma pg_demo2_org: "map og_status (db_org pg_demo2) = [StActive]" "map og_id (db_org pg_demo2) = [pg_demo_uuid CHR ''b'' 1]"
  by code_simp+

theorem pg_organization_owner_witness:
  "list_ex (\<lambda>m. mr_org_id m = pg_demo_uuid CHR ''b'' 1 \<and> mr_role m = RoleOwner \<and> usr_exists pg_demo2 (mr_usr_id m)) (db_mem pg_demo2)"
proof -
  obtain org where org: "org \<in> set (db_org pg_demo2)" "og_status org \<noteq> StRevoked" "og_id org = pg_demo_uuid CHR ''b'' 1"
    using pg_demo2_org by (cases "db_org pg_demo2") auto
  show ?thesis using pg_organization_owner [OF pg_demo_reach2 org(1,2)] org(3) by (auto simp: list_ex_iff)
qed

subsection \<open>Owners who leave at the same time\<close>

text \<open>The transaction of \<open>SelfLeave\<close> in two parts: what it reads, with the lock on its own row only (and the promotion
  of a successor when there is no other owner), and what it writes.  At READ COMMITTED the parts of two such transactions on different rows can follow each other in any order,
  and the count of the second does not see what the first has yet to write.\<close>

definition SelfLeave_reads :: "uuid \<Rightarrow> string \<Rightarrow> string option \<Rightarrow> (Membership \<times> uuid \<times> uuid) ten_db" where
  "SelfLeave_reads u memID transferTo =
     db_bind (lock_member memID u) (\<lambda>m.
     if mem_Status m \<noteq> StActive then db_fail (PgErr (TenPrecondition ''mem_not_active''))
     else
       db_bind (db_wire_value (mem_OrgID m)) (\<lambda>orgU.
       db_bind (db_wire_value (mem_UsrID m)) (\<lambda>usrU.
       db_bind (if mem_Role m = RoleOwner
                then db_bind (countActiveOwners orgU) (\<lambda>n. if n = 1 then promote_target transferTo orgU else db_ok ())
                else db_ok ()) (\<lambda>_.
       db_ok (m, usrU, orgU)))))"

definition SelfLeave_writes :: "uuid \<Rightarrow> Membership \<times> uuid \<times> uuid \<Rightarrow> Membership ten_db" where
  "SelfLeave_writes u = (\<lambda>(m, usrU, orgU). remove_member u m usrU orgU usrU)"

lemma db_bind_assoc: "db_bind (db_bind m f) g = db_bind m (\<lambda>x. db_bind (f x) g)"
  by (intro ext) (auto simp: db_bind_def split: option.splits sum.splits)

lemma db_bind_ok: "db_bind (db_ok x) f = f x" "db_bind (db_fail err) f = db_fail err"
  by (intro ext; simp add: db_bind_def db_ok_def db_fail_def)+

lemma SelfLeave_parts:
  "pg_SelfLeave memID transferTo =
     db_bind (db_wire memID) (\<lambda>u. inTx (db_bind (SelfLeave_reads u memID transferTo) (SelfLeave_writes u)))"
  by (simp add: pg_SelfLeave_def SelfLeave_reads_def SelfLeave_writes_def db_bind_assoc db_bind_ok if_distrib
      [of "\<lambda>m. db_bind m _"] cong: if_cong)

definition pg_demo_bob :: string where "pg_demo_bob = ''usr_0190f2a81b3c7abc8123456789abcdc0''"

definition pg_demo_two_users :: pg_db where
  "pg_demo_two_users = pg_demo_after (pg_CreateUser (Some ''Bob'')) (pg_demo CHR ''c'' 3000) pg_demo2"

lemma pg_demo_two_users_reach: "pg_reach pg_demo_two_users"
  unfolding pg_demo_two_users_def
  by (rule pg_demo_after_step [OF CreateUser_call _ pg_demo_reach2]) (simp add: class_defs)

definition pg_demo_two_owners :: pg_db where
  "pg_demo_two_owners =
     pg_demo_after (pg_AddMember pg_demo_org pg_demo_bob RoleOwner (Some pg_demo_usr)) (pg_demo CHR ''d'' 4000) pg_demo_two_users"

definition leave_together :: "pg_env \<Rightarrow> pg_env \<Rightarrow> uuid \<Rightarrow> uuid \<Rightarrow> pg_db \<Rightarrow> pg_db option" where
  "leave_together e1 e2 u1 u2 d =
     (case (db_run (SelfLeave_reads u1 (uuidToWire ''mem'' u1) None) e1 d, db_run (SelfLeave_reads u2 (uuidToWire ''mem'' u2) None) e2 d) of
        (Some (Inr x1, _), Some (Inr x2, _)) \<Rightarrow>
          (case db_run (SelfLeave_writes u1 x1) e1 d of
             Some (Inr m1, d1) \<Rightarrow>
               (case db_run (SelfLeave_writes u2 x2) e2 d1 of Some (Inr m2, d2) \<Rightarrow> Some d2 | _ \<Rightarrow> None)
           | _ \<Rightarrow> None)
      | _ \<Rightarrow> None)"

text \<open>Each of two owners counts the other one, both leave, and the active organization has no owner.\<close>

lemma owners_leave_together:
  "map_option (\<lambda>d. (map og_status (db_org d), has_owner (pg_demo_uuid CHR ''b'' 1) (db_mem d)))
     (leave_together (pg_demo CHR ''e'' 5000) (pg_demo CHR ''f'' 5000) (mr_id (db_mem pg_demo_two_owners ! 0))
        (mr_id (db_mem pg_demo_two_owners ! 1)) pg_demo_two_owners) = Some ([StActive], False)"
  by code_simp

subsection \<open>Memberships and access\<close>

definition role_check :: "string \<Rightarrow> Role \<Rightarrow> string \<Rightarrow> CheckInput" where
  "role_check usrID role orgID = \<lparr>ci_SubjectType = ''usr'', ci_SubjectID = usrID, ci_Relation = role,
     ci_ObjectType = ''org'', ci_ObjectID = orgID\<rparr>"

text \<open>Without rules a check that meets no fault of the database answers by the row.\<close>

lemma plain_Check:
  assumes "pts_rules s = None" and "pe_lookup_fault e = (\<lambda>_ _ _ _ _. None)" and "env_ok e" and "db_good d"
    and "canonical u" and "canonical v"
  obtains r where "pg_Check s (role_check (uuidToWire ''usr'' u) role (uuidToWire ''org'' v)) e d = Inr r"
    "chk_Allowed r \<longleftrightarrow> (\<exists>t \<in> set (db_tup d). tup_parts t = (''usr'', u, role, ''org'', v))"
proof -
  have w: "wireToUUID (pe_uuid e) (uuidToWire ''usr'' u) = Inr u" "wireToUUID (pe_uuid e) (uuidToWire ''org'' v) = Inr v"
    using assms(3,5,6) by (simp_all add: wire_form_parse)
  let ?hit = "find (\<lambda>t. tup_parts t = (''usr'', u, role, ''org'', v)) (db_tup d)"
  have hit: "?hit \<noteq> None \<longleftrightarrow> (\<exists>t \<in> set (db_tup d). tup_parts t = (''usr'', u, role, ''org'', v))"
    using find_hit [of "\<lambda>t. tup_parts t = (''usr'', u, role, ''org'', v)" "db_tup d"] by auto
  show thesis
  proof (rule that)
    show "pg_Check s (role_check (uuidToWire ''usr'' u) role (uuidToWire ''org'' v)) e d
        = Inr (case ?hit of None \<Rightarrow> check_denied | Some t \<Rightarrow> check_allowed (uuidToWire ''tup'' (tr_id t)))"
      using assms(1,2) w by (simp add: pg_Check_def role_check_def directLookup_def pg_direct_def split: option.splits)
    show "chk_Allowed (case ?hit of None \<Rightarrow> check_denied | Some t \<Rightarrow> check_allowed (uuidToWire ''tup'' (tr_id t)))
        \<longleftrightarrow> (\<exists>t \<in> set (db_tup d). tup_parts t = (''usr'', u, role, ''org'', v))"
      using hit by (cases ?hit) (auto simp: check_allowed_def check_denied_def)
  qed
qed

lemma insert_tup_row: "insert_tup t d = Inr (t', d1) \<Longrightarrow> t \<in> set (db_tup d1)"
  by (auto simp: insert_tup_def sql_insert_Inr map_sum_def split: sum.splits)

lemma AddMember_run:
  assumes "db_run (pg_AddMember orgID usrID role invitedBy) e d = Some (Inr m, d1)" and "env_ok e"
  obtains u v t where "mem_UsrID m = uuidToWire ''usr'' u" "mem_OrgID m = uuidToWire ''org'' v" "canonical u" "canonical v"
    "t \<in> set (db_tup d1)" "tup_parts t = (''usr'', u, role, ''org'', v)"
proof -
  obtain n' where run: "pg_AddMember orgID usrID role invitedBy e 0 d = Some (Inr m, n', d1)" using assms by (auto simp: db_run_def)
  then obtain u v invU n n1 d0 where u: "wireToUUID (pe_uuid e) usrID = Inr u" and v: "wireToUUID (pe_uuid e) orgID = Inr v"
    and tx: "db_bind (db_map_error duplicate_member (insert_member u v role None invU)) (\<lambda>m.
       db_bind (insert_user_tuple u role ''org'' v) (\<lambda>_. db_ok (scanMembership m))) (e\<lparr>pe_now := \<lambda>_. pe_now e n\<rparr>) (Suc n) d0 = Some (Inr m, n1, d1)"
    unfolding pg_AddMember_def by (simp only: db_bind_run db_wire_run inTx_run) blast
  have c: "canonical u" "canonical v" using u v assms(2) wireToUUID_canonical by (auto simp: env_ok_def)
  obtain row d2 t t' where ins: "insert_tup t d2 = Inr (t', d1)" "tup_parts t = (''usr'', u, role, ''org'', v)"
    "m = scanMembership row" "mr_usr_id row = u" "mr_org_id row = v"
    using tx unfolding insert_member_def insert_user_tuple_def
    by (clarsimp simp: db_runs) (auto simp: new_mem_def tup_parts_def dest!: member_statements(2))
  show thesis by (rule that [OF _ _ c insert_tup_row [OF ins(1)] ins(2)]) (use ins(3-5) in \<open>simp_all add: scanMembership_def\<close>)
qed

text \<open>C14: a member who has been added to an organization is allowed the relation of the role at once: \<open>Check\<close> of a
  tuple store without rules on the same database says so.\<close>

theorem pg_AddMember_grants:
  assumes "pg_reach d" and "env_ok e" and "db_run (pg_AddMember orgID usrID role invitedBy) e d = Some (Inr m, d1)"
    and "pts_rules s = None" and "env_ok e2" and "pe_lookup_fault e2 = (\<lambda>_ _ _ _ _. None)"
  shows "\<exists>r. pg_Check s (role_check (mem_UsrID m) role (mem_OrgID m)) e2 d1 = Inr r \<and> chk_Allowed r"
proof -
  obtain u v t where m: "mem_UsrID m = uuidToWire ''usr'' u" "mem_OrgID m = uuidToWire ''org'' v" "canonical u" "canonical v"
    and t: "t \<in> set (db_tup d1)" "tup_parts t = (''usr'', u, role, ''org'', v)"
    using AddMember_run [OF assms(3,2)] .
  have "db_good d1" using assms(1) pg_reach_step [OF _ db_run_step [OF AddMember_call assms(2,3)]] by (auto intro: pg_reach_good)
  then obtain r where "pg_Check s (role_check (uuidToWire ''usr'' u) role (uuidToWire ''org'' v)) e2 d1 = Inr r"
    "chk_Allowed r \<longleftrightarrow> (\<exists>t \<in> set (db_tup d1). tup_parts t = (''usr'', u, role, ''org'', v))"
    by (rule plain_Check [OF assms(4,6,5) _ m(3,4)])
  then show ?thesis using m(1,2) t by auto
qed

definition pg_demo_member :: pg_db where
  "pg_demo_member =
     pg_demo_after (pg_AddMember pg_demo_org pg_demo_bob RoleMember (Some pg_demo_usr)) (pg_demo CHR ''d'' 4000) pg_demo_two_users"

lemma pg_demo_member_reach: "pg_reach pg_demo_member"
  unfolding pg_demo_member_def
  by (rule pg_demo_after_step [OF AddMember_call _ pg_demo_two_users_reach]) (simp add: class_defs)

lemma pg_demo_added:
  "map_option (map_sum id (\<lambda>m. (mem_UsrID m, mem_OrgID m)) \<circ> fst)
     (db_run (pg_AddMember pg_demo_org pg_demo_bob RoleMember (Some pg_demo_usr)) (pg_demo CHR ''d'' 4000) pg_demo_two_users)
   = Some (Inr (pg_demo_bob, pg_demo_org))"
  by code_simp

theorem pg_AddMember_grants_witness:
  "\<exists>r. pg_Check NewPostgresTupleStore (role_check pg_demo_bob RoleMember pg_demo_org) (pg_demo CHR ''c'' 5000) pg_demo_member = Inr r \<and>
     chk_Allowed r"
proof -
  obtain m d1 where run: "db_run (pg_AddMember pg_demo_org pg_demo_bob RoleMember (Some pg_demo_usr)) (pg_demo CHR ''d'' 4000)
      pg_demo_two_users = Some (Inr m, d1)" and m: "(mem_UsrID m, mem_OrgID m) = (pg_demo_bob, pg_demo_org)"
    by (rule run_result [OF pg_demo_added])
  have d1: "d1 = pg_demo_member" unfolding pg_demo_member_def by (rule pg_demo_after_run [OF run, symmetric])
  have "env_ok (pg_demo CHR ''d'' 4000)" "env_ok (pg_demo CHR ''c'' 5000)" by (rule pg_demo_ok, simp add: class_defs)+
  from pg_AddMember_grants [OF pg_demo_two_users_reach this(1) run _ this(2), of NewPostgresTupleStore] m show ?thesis
    by (simp add: d1 NewPostgresTupleStore_def pg_demo_def)
qed

text \<open>What \<open>RevokeOrg\<close> leaves.\<close>

definition org_role_tuple :: "uuid \<Rightarrow> tup_row \<Rightarrow> bool" where
  "org_role_tuple u t \<longleftrightarrow> tr_object_type t = ''org'' \<and> tr_object_id t = u \<and> tr_relation t \<in> set role_names"

lemma RevokeOrg_run:
  assumes "db_run (pg_RevokeOrg orgID) e d = Some (Inr org, d1)" and "env_ok e"
  obtains u t where "org_ID org = uuidToWire ''org'' u" "canonical u" "org_Status org = StRevoked"
    "db_mem d1 = map (\<lambda>m. if mr_org_id m = u \<and> mr_status m = StActive then m\<lparr>mr_status := StRevoked, mr_updated_at := t\<rparr> else m) (db_mem d)"
    "db_tup d1 = filter (\<lambda>t. \<not> org_role_tuple u t) (db_tup d)"
proof -
  obtain n' where run: "pg_RevokeOrg orgID e 0 d = Some (Inr org, n', d1)" using assms by (auto simp: db_run_def)
  then obtain u where u: "wireToUUID (pe_uuid e) orgID = Inr u"
    unfolding pg_RevokeOrg_def transOrg_def by (simp only: db_bind_run db_wire_run) blast
  have "canonical u" using u assms(2) wireToUUID_canonical by (auto simp: env_ok_def)
  let ?T = "\<lambda>t. tr_object_type t = ''org'' \<and> tr_object_id t = u \<and>
    tr_relation t \<in> {''owner'', ''admin'', ''member'', ''guest'', ''viewer'', ''editor''}"
  have T: "?T = org_role_tuple u"
    by (rule ext) (simp add: org_role_tuple_def role_names_def RoleOwner_def RoleAdmin_def RoleMember_def RoleGuest_def
        RoleViewer_def RoleEditor_def)
  have "\<exists>t t2 r orgs d2 mems d3 k. org = scanOrg r \<and>
      update_org (\<lambda>r. og_id r = u) (\<lambda>r. r\<lparr>og_status := StRevoked, og_updated_at := t\<rparr>) d = Inr (r # orgs, d2) \<and>
      update_mem (\<lambda>m. mr_org_id m = u \<and> mr_status m = StActive) (\<lambda>m. m\<lparr>mr_status := StRevoked, mr_updated_at := t2\<rparr>) d2 = Inr (mems, d3) \<and>
      delete_tup ?T d3 = (k, d1)"
    using run unfolding pg_RevokeOrg_def transOrg_def
    by (clarsimp simp: u select_org_def db_runs split: if_splits) blast+
  then obtain t t2 r orgs d2 mems d3 k where r: "org = scanOrg r"
    and 1: "update_org (\<lambda>r. og_id r = u) (\<lambda>r. r\<lparr>og_status := StRevoked, og_updated_at := t\<rparr>) d = Inr (r # orgs, d2)"
    and 2: "update_mem (\<lambda>m. mr_org_id m = u \<and> mr_status m = StActive) (\<lambda>m. m\<lparr>mr_status := StRevoked, mr_updated_at := t2\<rparr>) d2 = Inr (mems, d3)"
    and 3: "delete_tup (org_role_tuple u) d3 = (k, d1)"
    unfolding T by (elim exE conjE)
  have org: "og_id r = u" "og_status r = StRevoked" using 1 by (auto simp: update_org_def map_sum_def filter_eq_Cons_iff map_eq_Cons_conv split: sum.splits)
  have tup: "db_tup d3 = db_tup d" using 1 2 by (auto simp: update_org_def update_mem_def map_sum_def split: sum.splits)
  show thesis
    by (rule that [OF _ \<open>canonical u\<close>]) (use r org tup 1 2 3 member_statements(1) [OF 2] member_statements(3) [OF 1] member_statements(6) [OF 3]
      in \<open>auto simp: scanOrg_def delete_tup_def sql_delete_def\<close>)
qed

text \<open>C10: revoking an organization cuts its members off at once: it is revoked, none of its memberships is active, and
  a check of any relation that a role stands for, by a tuple store without rules on the same database, is denied.\<close>

theorem pg_RevokeOrg_cuts_off:
  assumes "pg_reach d" and "env_ok e" and "db_run (pg_RevokeOrg orgID) e d = Some (Inr org, d1)"
    and "pts_rules s = None" and "env_ok e2" and "pe_lookup_fault e2 = (\<lambda>_ _ _ _ _. None)"
  shows "org_Status org = StRevoked \<and>
    (\<forall>m \<in> set (db_mem d1). uuidToWire ''org'' (mr_org_id m) = org_ID org \<longrightarrow> mr_status m \<noteq> StActive) \<and>
    (\<forall>u role. canonical u \<longrightarrow> role \<in> set role_names \<longrightarrow>
       (\<exists>r. pg_Check s (role_check (uuidToWire ''usr'' u) role (org_ID org)) e2 d1 = Inr r \<and> \<not> chk_Allowed r))"
proof -
  obtain v t where org: "org_ID org = uuidToWire ''org'' v" "canonical v" "org_Status org = StRevoked"
    and mem: "db_mem d1 = map (\<lambda>m. if mr_org_id m = v \<and> mr_status m = StActive then m\<lparr>mr_status := StRevoked, mr_updated_at := t\<rparr> else m) (db_mem d)"
    and tup: "db_tup d1 = filter (\<lambda>t. \<not> org_role_tuple v t) (db_tup d)"
    using RevokeOrg_run [OF assms(3,2)] .
  have good: "db_good d1" using assms(1) pg_reach_step [OF _ db_run_step [OF RevokeOrg_call assms(2,3)]] by (auto intro: pg_reach_good)
  have "mr_status m \<noteq> StActive" if m: "m \<in> set (db_mem d1)" "uuidToWire ''org'' (mr_org_id m) = org_ID org" for m
  proof -
    have "mr_org_id m = v" using good_members(2) [OF good m(1)] m(2) org(1,2) by (simp add: mem_typed_def uuidToWire_inj)
    moreover have "m \<in> (\<lambda>m. if mr_org_id m = v \<and> mr_status m = StActive then m\<lparr>mr_status := StRevoked, mr_updated_at := t\<rparr> else m) ` set (db_mem d)"
      using m(1) unfolding mem set_map .
    then obtain m0 where "m = (if mr_org_id m0 = v \<and> mr_status m0 = StActive then m0\<lparr>mr_status := StRevoked, mr_updated_at := t\<rparr> else m0)"
      by (rule imageE)
    ultimately show ?thesis by (cases "mr_org_id m0 = v \<and> mr_status m0 = StActive") auto
  qed
  moreover have "\<exists>r. pg_Check s (role_check (uuidToWire ''usr'' u) role (org_ID org)) e2 d1 = Inr r \<and> \<not> chk_Allowed r"
    if ur: "canonical u" "role \<in> set role_names" for u role
  proof -
    obtain r where "pg_Check s (role_check (uuidToWire ''usr'' u) role (uuidToWire ''org'' v)) e2 d1 = Inr r"
      "chk_Allowed r \<longleftrightarrow> (\<exists>t \<in> set (db_tup d1). tup_parts t = (''usr'', u, role, ''org'', v))"
      by (rule plain_Check [OF assms(4,6,5) good ur(1) org(2)])
    then show ?thesis using ur(2) org(1) by (auto simp: tup org_role_tuple_def tup_parts_def)
  qed
  ultimately show ?thesis using org(3) by blast
qed

lemma pg_demo_revoked:
  "map_option (map_sum id org_ID \<circ> fst) (db_run (pg_RevokeOrg pg_demo_org) (pg_demo CHR ''e'' 4500) pg_demo_member)
   = Some (Inr pg_demo_org)"
  by code_simp

definition pg_demo_closed :: pg_db where
  "pg_demo_closed = pg_demo_after (pg_RevokeOrg pg_demo_org) (pg_demo CHR ''e'' 4500) pg_demo_member"

theorem pg_RevokeOrg_cuts_off_witness:
  "\<exists>r. pg_Check NewPostgresTupleStore (role_check pg_demo_bob RoleMember pg_demo_org) (pg_demo CHR ''c'' 5000) pg_demo_closed = Inr r \<and>
     \<not> chk_Allowed r"
proof -
  obtain org d1 where run: "db_run (pg_RevokeOrg pg_demo_org) (pg_demo CHR ''e'' 4500) pg_demo_member = Some (Inr org, d1)"
    and org: "org_ID org = pg_demo_org" by (rule run_result [OF pg_demo_revoked])
  have d1: "d1 = pg_demo_closed" unfolding pg_demo_closed_def by (rule pg_demo_after_run [OF run, symmetric])
  have env: "env_ok (pg_demo CHR ''e'' 4500)" "env_ok (pg_demo CHR ''c'' 5000)" by (rule pg_demo_ok, simp add: class_defs)+
  have bob: "canonical (pg_demo_uuid CHR ''c'' 0)" "uuidToWire ''usr'' (pg_demo_uuid CHR ''c'' 0) = pg_demo_bob"
    using NewV7_canonical [OF pg_demo_lib_ok, of "CHR ''c''" 0 "pg_demo_uuid CHR ''c'' 0"]
    by (simp add: class_defs pg_demo_lib_def) code_simp
  have "RoleMember \<in> set role_names" by (simp add: role_names_def)
  moreover from pg_RevokeOrg_cuts_off [OF pg_demo_member_reach env(1) run _ env(2), of NewPostgresTupleStore]
  have "\<forall>u role. canonical u \<longrightarrow> role \<in> set role_names \<longrightarrow>
      (\<exists>r. pg_Check NewPostgresTupleStore (role_check (uuidToWire ''usr'' u) role pg_demo_org) (pg_demo CHR ''c'' 5000) pg_demo_closed = Inr r \<and>
        \<not> chk_Allowed r)"
    by (simp add: d1 org NewPostgresTupleStore_def pg_demo_def)
  ultimately show ?thesis using bob by metis
qed

subsection \<open>Invitations\<close>

lemma wire_tx_error: "db_bind (db_wire w) (\<lambda>u. inTx (m u)) e n d = Some (Inl err, n', d') \<Longrightarrow> d' = d"
  by (auto simp: db_bind_def db_wire_def db_sum_def db_ok_def db_fail_def split: sum.splits dest: inTx_error)

text \<open>C15: without \<open>AsUsrID\<close> no invitation is ever accepted: the generated identifier is no user yet, the membership refers
  to a user, and the transaction changes nothing.\<close>

theorem pg_AcceptInvitation_needs_user:
  assumes "aio_AsUsrID opts = None" and "\<And>n u. uuid_NewV7 (pe_uuid e) n = Inr u \<Longrightarrow> \<not> usr_exists d u"
    and "db_run (pg_AcceptInvitation invID opts) e d = Some (r, d1)"
  shows "d1 = d \<and> \<not> (\<exists>x. r = Inr x)"
proof -
  obtain n' where run: "pg_AcceptInvitation invID opts e 0 d = Some (r, n', d1)" using assms(3) by (auto simp: db_run_def)
  have no: "\<not> (\<exists>x. r = Inr x)"
  proof
    assume "\<exists>x. r = Inr x"
    then obtain x where "pg_AcceptInvitation invID opts e 0 d = Some (Inr x, n', d1)" using run by blast
    then obtain u n n1 where tx: "db_bind (select_inv invID u) (\<lambda>iv.
       if inv_Status iv \<noteq> InvPending then db_fail (PgErr TenInvitationNotPending)
       else db_bind db_clock (\<lambda>now. if \<not> now < inv_ExpiresAt iv
         then db_bind (db_stmt (\<lambda>_. update_inv (\<lambda>r. ir_id r = u) (expire_row now))) (\<lambda>_. db_fail (PgErr TenInvitationExpired))
         else accept_invitation u iv opts now)) (e\<lparr>pe_now := \<lambda>_. pe_now e n\<rparr>) (Suc n) d = Some (Inr x, n1, d1)"
      unfolding pg_AcceptInvitation_def by (simp only: db_bind_run [of "db_wire invID"] db_wire_run inTx_run) blast
    define e1 where "e1 = e\<lparr>pe_now := \<lambda>_. pe_now e n\<rparr>"
    obtain iv now n2 n3 d2 where sel: "select_inv invID u e1 (Suc n) d = Some (Inr iv, n3, d2)"
      and acc: "accept_invitation u iv opts now e1 n2 d2 = Some (Inr x, n1, d1)"
      using tx unfolding e1_def [symmetric] by (simp only: db_bind_run [of "select_inv invID u"]) (auto simp: db_runs split: if_splits)
    have d2: "d2 = d" using sel by (rule select_inv_run)
    have lib: "pe_uuid e1 = pe_uuid e" by (simp add: e1_def)
    obtain k acceptingU mem m d3 where "uuid_NewV7 (pe_uuid e) k = Inr acceptingU" "insert_mem mem d = Inr (m, d3)" "mr_usr_id mem = acceptingU"
      using acc unfolding d2 accept_invitation_def accepting_user_def no_active_membership_def insert_member_def
      by (clarsimp simp: assms(1) lib db_runs new_mem_def split: if_splits)
    then show False using assms(2) by (auto simp: insert_mem_def sql_insert_Inr map_sum_def mem_fk_def split: sum.splits)
  qed
  then obtain err where "r = Inl err" by (cases r) auto
  with run have "d1 = d" unfolding pg_AcceptInvitation_def by (auto dest: wire_tx_error)
  then show ?thesis using no by blast
qed

definition pg_demo_invited :: pg_db where
  "pg_demo_invited = pg_demo_after (pg_CreateInvitation pg_demo_org ''bob'' RoleMember pg_demo_usr 9000000 [])
     (pg_demo CHR ''d'' 3000) pg_demo2"

definition pg_demo_accept :: "(ten_error pg_fail + AcceptInvitationResult) \<times> pg_db \<Rightarrow> bool" where
  "pg_demo_accept p \<longleftrightarrow> (case fst p of Inl err \<Rightarrow> err = PgDb PgForeignKey | Inr _ \<Rightarrow> False) \<and> length (db_inv (snd p)) = 1"

lemma pg_demo_accepted:
  "map_option pg_demo_accept (db_run (pg_AcceptInvitation ''inv_0190f2a81b3c7abc8123456789abcdd0''
     \<lparr>aio_AsUsrID = None, aio_AcceptingIdentifier = None\<rparr>) (pg_demo CHR ''f'' 5000) pg_demo_invited) = Some True"
  "map ur_id (db_usr pg_demo_invited) = [pg_demo_uuid CHR ''a'' 0]"
  by code_simp+

theorem pg_AcceptInvitation_needs_user_witness:
  "db_run (pg_AcceptInvitation ''inv_0190f2a81b3c7abc8123456789abcdd0'' \<lparr>aio_AsUsrID = None, aio_AcceptingIdentifier = None\<rparr>)
     (pg_demo CHR ''f'' 5000) pg_demo_invited = Some (Inl (PgDb PgForeignKey), pg_demo_invited)"
proof -
  obtain r d1 where run: "db_run (pg_AcceptInvitation ''inv_0190f2a81b3c7abc8123456789abcdd0''
      \<lparr>aio_AsUsrID = None, aio_AcceptingIdentifier = None\<rparr>) (pg_demo CHR ''f'' 5000) pg_demo_invited = Some (r, d1)"
    and r: "pg_demo_accept (r, d1)"
    using pg_demo_accepted(1) by auto
  have "\<not> usr_exists pg_demo_invited u" if "uuid_NewV7 (pe_uuid (pg_demo CHR ''f'' 5000)) n = Inr u" for n u
  proof -
    have "u = pg_demo_uuid CHR ''f'' n" using that by (simp add: pg_demo_def pg_demo_lib_def)
    moreover have "usr_exists pg_demo_invited u \<longleftrightarrow> u \<in> set (map ur_id (db_usr pg_demo_invited))"
      by (auto simp: usr_exists_def list_ex_iff)
    ultimately show ?thesis by (simp only: pg_demo_accepted(2)) (simp add: pg_demo_uuid_def)
  qed
  then have "d1 = pg_demo_invited" using pg_AcceptInvitation_needs_user [OF _ _ run] by simp
  then show ?thesis using run r by (auto simp: pg_demo_accept_def split: sum.splits)
qed

end
