(* ===== verification/PgPaging.thy ===== *)
theory PgPaging
  imports PgDemo
begin

text \<open>
  The listings of the PostgreSQL stores.  Five of them have the same statement, \<open>page_query\<close>: rows of a table after the
  row of the cursor, in the order of creation time and identifier, one more than the limit.  The interpretation of
  the locale \<open>paging\<close> on it is what a client that follows the cursors relies on.
\<close>

subsection \<open>One query for five listings\<close>

definition page_query :: "('r \<Rightarrow> uuid) \<Rightarrow> ('r \<Rightarrow> gotime) \<Rightarrow> ('r \<Rightarrow> bool) \<Rightarrow> ('d \<Rightarrow> 'r list) \<Rightarrow> ('a \<Rightarrow> string) \<Rightarrow> ('r \<Rightarrow> 'a) \<Rightarrow>
    int \<Rightarrow> string option \<Rightarrow> ('d, 'e, 'a page) db" where
  "page_query rid at P tab ident row limit cursor =
     db_bind (db_cursor cursor) (\<lambda>cur.
     db_bind (db_select_page rid at P cur limit tab) (\<lambda>rows. db_ok (page_of ident limit (map row rows))))"

lemma page_query_listings:
  "pg_ListTuplesBySubject st sid opts1 = db_bind (db_wire sid) (\<lambda>u. page_query tr_id tr_created_at
     (\<lambda>r. tr_subject_type r = st \<and> tr_subject_id r = u) db_tup tup_ID tuple_of_row (page_limit (lt_Limit opts1)) (lt_Cursor opts1))"
  "pg_ListTuplesByObject ot oid opts2 = db_bind (db_wire oid) (\<lambda>u. page_query tr_id tr_created_at
     (\<lambda>r. tr_object_type r = ot \<and> tr_object_id r = u \<and> (case lo_Relation opts2 of None \<Rightarrow> True | Some rel \<Rightarrow> tr_relation r = rel))
     db_tup tup_ID tuple_of_row (page_limit (lo_Limit opts2)) (lo_Cursor opts2))"
  "pg_ListSharesForObject ot oid opts3 = db_bind (db_wire oid) (\<lambda>u. page_query sr_id sr_created_at
     (\<lambda>r. sr_object_type r = ot \<and> sr_object_id r = u) db_shr shr_ID share_of_row (page_limit (ls_Limit opts3)) (ls_Cursor opts3))"
  "pg_ListMembers orgID opts4 = db_bind (db_wire orgID) (\<lambda>u. page_query mr_id mr_created_at
     (\<lambda>r. mr_org_id r = u \<and> (case lmo_Status opts4 of None \<Rightarrow> True | Some s \<Rightarrow> mr_status r = s))
     db_mem mem_ID scanMembership (page_limit (lmo_Limit opts4)) (lmo_Cursor opts4))"
  "pg_ListSessionsForUser usrID opts5 = db_bind (db_wire usrID) (\<lambda>u. page_query sn_id sn_created_at
     (\<lambda>r. sn_usr_id r = u) db_ses ses_ID session_of_row (page_limit (lso_Limit opts5)) (lso_Cursor opts5))"
  by (simp_all add: pg_ListTuplesBySubject_def pg_ListTuplesByObject_def listTuples_def pg_ListSharesForObject_def
      pg_ListMembers_def pg_ListSessionsForUser_def page_query_def Let_def)

subsection \<open>Rows after a row\<close>

lemma filter_after:
  fixes k :: "'r \<Rightarrow> 'k::linorder"
  assumes "sorted (map k (us @ x # vs))" and "distinct (map k (us @ x # vs))"
  shows "filter (\<lambda>r. k x < k r) (us @ x # vs) = vs"
proof -
  have "\<forall>r \<in> set us. k r \<le> k x" "\<forall>r \<in> set vs. k x \<le> k r"
    using assms(1) by (auto simp: sorted_append)
  moreover have "\<forall>r \<in> set vs. k x \<noteq> k r" using assms(2) by auto
  ultimately have "filter (\<lambda>r. k x < k r) us = []" "filter (\<lambda>r. k x < k r) vs = vs"
    by (auto simp: filter_empty_conv filter_id_conv not_less le_neq_trans)
  then show ?thesis by simp
qed

definition row_key :: "('r \<Rightarrow> uuid) \<Rightarrow> ('r \<Rightarrow> gotime) \<Rightarrow> 'r \<Rightarrow> gotime \<times> uuid" where
  "row_key rid at r = (at r, rid r)"

text \<open>The rows that the listing shows, in its order.\<close>

definition listed :: "('r \<Rightarrow> uuid) \<Rightarrow> ('r \<Rightarrow> gotime) \<Rightarrow> ('r \<Rightarrow> bool) \<Rightarrow> 'r list \<Rightarrow> 'r list" where
  "listed rid at P t = sort_key (row_key rid at) (filter P t)"

lemma listed_keys:
  assumes "distinct (map rid t)"
  shows "distinct (map (row_key rid at) (listed rid at P t))" and "distinct (map rid (listed rid at P t))"
proof -
  have d: "distinct (map rid (filter P t))" using assms by (rule distinct_map_filter)
  then have "distinct (map (row_key rid at) (filter P t))" by (auto simp: distinct_map inj_on_def row_key_def)
  then show "distinct (map (row_key rid at) (listed rid at P t))" by (simp only: listed_def distinct_sort_key)
  show "distinct (map rid (listed rid at P t))" using d by (simp only: listed_def distinct_sort_key)
qed

lemma listed_after:
  assumes "distinct (map rid t)" and "listed rid at P t = us @ x # vs"
  shows "listed rid at (\<lambda>r. P r \<and> sql_after rid at (Some (rid x)) t r) t = vs"
proof -
  have "x \<in> set (listed rid at P t)" using assms(2) by simp
  then have x: "x \<in> set t" by (simp add: listed_def)
  have "find (\<lambda>r. rid r = rid x) t = Some x"
  proof (cases "find (\<lambda>r. rid r = rid x) t")
    case None
    then show ?thesis using x by (auto simp: find_None_iff)
  next
    case (Some q)
    then have "q \<in> set t" "rid q = rid x" by (auto simp: find_Some_iff)
    then show ?thesis using Some x assms(1) by (auto simp: distinct_map inj_on_def)
  qed
  then have "filter (\<lambda>r. P r \<and> sql_after rid at (Some (rid x)) t r) t =
      filter (\<lambda>r. row_key rid at x < row_key rid at r) (filter P t)"
    by (simp add: sql_after_def row_key_def conj_commute)
  then have "listed rid at (\<lambda>r. P r \<and> sql_after rid at (Some (rid x)) t r) t =
      filter (\<lambda>r. row_key rid at x < row_key rid at r) (listed rid at P t)"
    by (simp only: listed_def filter_sort)
  also have "\<dots> = vs"
    unfolding assms(2) using listed_keys(1) [OF assms(1), of at P] unfolding assms(2)
    by (intro filter_after) (simp_all only: listed_def [symmetric] assms(2) [symmetric], simp add: listed_def)
  finally show ?thesis .
qed

subsection \<open>The pages\<close>

definition answer :: "(('e pg_fail + 'a) \<times> 'd) option \<Rightarrow> 'a option" where
  "answer x = (case x of Some (Inr v, _) \<Rightarrow> Some v | _ \<Rightarrow> None)"

text \<open>No statement fails, no rows break off, every slice can be allocated.\<close>

definition no_fault :: "pg_env \<Rightarrow> bool" where
  "no_fault e \<longleftrightarrow> pe_fault e = (\<lambda>_. None) \<and> pe_cut e = (\<lambda>_. None) \<and> pe_make e = (\<lambda>_. True)"

definition limit_fits :: "int \<Rightarrow> bool" where
  "limit_fits limit \<longleftrightarrow> 0 < limit \<and> limit < max_int64"

lemma page_of_take:
  assumes "0 < limit"
  shows "page_of ident limit (map row (take (nat (limit + 1)) rows)) = page_after ident (nat limit) (map row rows)"
proof -
  have n: "nat (limit + 1) = Suc (nat limit)" "nat (limit - 1) = nat limit - 1" using assms by simp_all
  show ?thesis
    using assms by (auto simp: page_of_def page_after_def n take_map min_def)
qed

lemma page_query_run:
  assumes "no_fault e" and "limit_fits limit"
    and "(db_cursor cursor :: ('d, 'e, uuid option) db) e 0 d = Some (Inr cur, 0, d)"
  shows "db_run (page_query rid at P tab ident row limit cursor :: ('d, 'e, 'a page) db) e d =
    Some (Inr (page_after ident (nat limit) (map row (listed rid at (\<lambda>r. P r \<and> sql_after rid at cur (tab d) r) (tab d)))), d)"
proof -
  have "wrap64 (limit + 1) = limit + 1" using assms(2) by (intro wrap64_id) (simp_all add: limit_fits_def max_int64_def)
  then show ?thesis
    using assms(1,3) page_of_take [of limit ident row] assms(2)
    by (simp add: db_run_def page_query_def db_bind_def db_select_page_def db_limited_def db_rows_def db_ok_def no_fault_def
        listed_def limit_fits_def row_key_def [abs_def])
qed

definition walkable :: "('r \<Rightarrow> uuid) \<Rightarrow> ('r \<Rightarrow> 'a) \<Rightarrow> ('a \<Rightarrow> string) \<Rightarrow> string \<Rightarrow> 'r list \<Rightarrow> bool" where
  "walkable rid row ident prefix t \<longleftrightarrow> CHR ''_'' \<notin> set prefix \<and> distinct (map rid t) \<and>
     (\<forall>r \<in> set t. canonical (rid r) \<and> ident (row r) = uuidToWire prefix (rid r))"

lemma walkable_listing_ok: "walkable rid row ident prefix t \<Longrightarrow> listing_ok ident (map row (listed rid at P t))"
proof -
  assume w: "walkable rid row ident prefix t"
  have "set (listed rid at P t) \<subseteq> set t" by (auto simp: listed_def)
  then have "\<forall>r \<in> set (listed rid at P t). canonical (rid r) \<and> ident (row r) = uuidToWire prefix (rid r)"
    using w by (auto simp: walkable_def)
  moreover have "distinct (map rid (listed rid at P t))" using w listed_keys(2) by (auto simp: walkable_def)
  ultimately show ?thesis
    by (auto simp: listing_ok_def distinct_map inj_on_def uuidToWire_inj) (simp add: uuidToWire_def)
qed

lemma cursor_parsed:
  assumes "env_ok e" and "canonical u" and "CHR ''_'' \<notin> set prefix"
  shows "db_cursor (Some (uuidToWire prefix u)) e n d = Some (Inr (Some u), n, d)"
  using assms wireToUUID_uuidToWire [of "pe_uuid e" u prefix]
  by (simp add: db_cursor_def env_ok_def uuidToWire_def db_bind_def db_wire_def db_sum_def db_ok_def)

interpretation pg_pages: paging ident "nat limit"
  "\<lambda>xs. xs = map row (listed rid at P (tab d)) \<and> walkable rid row ident prefix (tab d) \<and> limit_fits limit \<and>
     (\<forall>c. env_ok (es c) \<and> no_fault (es c))"
  "\<lambda>xs c. answer (db_run (page_query rid at P tab ident row limit c :: ('d, 'e, 'a page) db) (es c) d)"
  for ident :: "'a \<Rightarrow> string" and rid :: "'r \<Rightarrow> uuid" and at P row limit prefix es
    and tab :: "'d \<Rightarrow> 'r list" and d
proof unfold_locales
  fix xs
  assume ok: "xs = map row (listed rid at P (tab d)) \<and> walkable rid row ident prefix (tab d) \<and> limit_fits limit \<and>
    (\<forall>c. env_ok (es c) \<and> no_fault (es c))"
  show "0 < nat limit" using ok by (simp add: limit_fits_def)
  have start: "(db_cursor None :: ('d, 'e, uuid option) db) (es None) 0 d = Some (Inr None, 0, d)"
    by (simp add: db_cursor_def db_ok_def)
  show "answer (db_run (page_query rid at P tab ident row limit None :: ('d, 'e, 'a page) db) (es None) d) = Some (page_after ident (nat limit) xs)"
    using page_query_run [OF _ _ start, of limit rid at P tab ident row] ok by (simp add: answer_def sql_after_def)
  fix us x vs
  assume "xs = us @ x # vs"
  then obtain us' x' vs' where l: "listed rid at P (tab d) = us' @ x' # vs'" "x = row x'" "vs = map row vs'"
    using ok by (auto simp: map_eq_append_conv Cons_eq_map_conv)
  then have "x' \<in> set (listed rid at P (tab d))" by simp
  then have "x' \<in> set (tab d)" by (simp add: listed_def)
  then have x: "canonical (rid x')" "ident x = uuidToWire prefix (rid x')" "CHR ''_'' \<notin> set prefix" "distinct (map rid (tab d))"
    using ok l(2) by (auto simp: walkable_def)
  have cur: "(db_cursor (Some (ident x)) :: ('d, 'e, uuid option) db) (es (Some (ident x))) 0 d = Some (Inr (Some (rid x')), 0, d)"
    unfolding x(2) using ok by (intro cursor_parsed x) auto
  show "answer (db_run (page_query rid at P tab ident row limit (Some (ident x)) :: ('d, 'e, 'a page) db) (es (Some (ident x))) d)
      = Some (page_after ident (nat limit) vs)"
    using page_query_run [OF _ _ cur, of limit rid at P tab ident row] ok
      listed_after [OF x(4) l(1)] l(3) by (simp add: answer_def)
qed

subsection \<open>What a client reads\<close>

lemma walkable_tables:
  assumes "db_good d"
  shows "walkable tr_id tuple_of_row tup_ID ''tup'' (db_tup d)" "walkable sr_id share_of_row shr_ID ''shr'' (db_shr d)"
    "walkable mr_id scanMembership mem_ID ''mem'' (db_mem d)" "walkable sn_id session_of_row ses_ID ''ses'' (db_ses d)"
  using assms
  by (auto simp: walkable_def db_good_tables table_ok_def list_all_iff tup_uniq_def shr_uniq_def mem_uniq_def ses_uniq_def
      tup_typed_def shr_typed_def mem_typed_def ses_typed_def tuple_of_row_def share_of_row_def scanMembership_def session_of_row_def)

lemma pages_walk:
  fixes m :: "string option \<Rightarrow> ('d, 'e, 'a page) db"
  assumes "walkable rid row ident prefix (tab d)" and "limit_fits limit" and "\<forall>c. env_ok (es c) \<and> no_fault (es c)"
    and "\<And>c e. env_ok e \<Longrightarrow> db_run (m c) e d = db_run (page_query rid at P tab ident row limit c :: ('d, 'e, 'a page) db) e d"
  shows "walk_pages (\<lambda>c. answer (db_run (m c) (es c) d)) (length (listed rid at P (tab d)) + 1) None
    = Some (map row (listed rid at P (tab d)))"
proof -
  have "(\<lambda>c. answer (db_run (m c) (es c) d)) = (\<lambda>c. answer (db_run (page_query rid at P tab ident row limit c :: ('d, 'e, 'a page) db) (es c) d))"
    using assms(3,4) by simp
  then show ?thesis
    using pg_pages.walk_all [of "map row (listed rid at P (tab d))" row rid at P tab d ident prefix limit es]
      assms(1-3) walkable_listing_ok [OF assms(1), of at P] by simp
qed

lemma wire_bind_run:
  "env_ok e \<Longrightarrow> canonical u \<Longrightarrow> CHR ''_'' \<notin> set p \<Longrightarrow> db_run (db_bind (db_wire (uuidToWire p u)) f) e d = db_run (f u) e d"
  by (simp add: db_run_def db_bind_def db_wire_def env_ok_def wireToUUID_uuidToWire db_sum_def db_ok_def)

text \<open>C16: a client that follows \<open>NextCursor\<close> through \<open>ListTuplesBySubject\<close>, \<open>ListMembers\<close> or
  \<open>ListSessionsForUser\<close> of the PostgreSQL stores reads every row once, in the order of creation time and identifier,
  while the database does not change, whatever the limit below the largest \<open>int\<close>.\<close>

theorem pg_listings_complete:
  assumes "pg_reach d" and "\<forall>c. env_ok (es c) \<and> no_fault (es c)" and "limit_fits (page_limit limit)"
    and "canonical u" and "CHR ''_'' \<notin> set st"
    and "ts = listed tr_id tr_created_at (\<lambda>r. tr_subject_type r = st \<and> tr_subject_id r = u) (db_tup d)"
    and "ms = listed mr_id mr_created_at (\<lambda>r. mr_org_id r = u \<and> (case status of None \<Rightarrow> True | Some x \<Rightarrow> mr_status r = x)) (db_mem d)"
    and "ss = listed sn_id sn_created_at (\<lambda>r. sn_usr_id r = u) (db_ses d)"
  shows "walk_pages (\<lambda>c. answer (db_run (pg_ListTuplesBySubject st (uuidToWire st u) \<lparr>lt_Cursor = c, lt_Limit = limit\<rparr>) (es c) d))
      (length ts + 1) None = Some (map tuple_of_row ts)
    \<and> walk_pages (\<lambda>c. answer (db_run (pg_ListMembers (uuidToWire ''org'' u) \<lparr>lmo_Cursor = c, lmo_Limit = limit, lmo_Status = status\<rparr>) (es c) d))
      (length ms + 1) None = Some (map scanMembership ms)
    \<and> walk_pages (\<lambda>c. answer (db_run (pg_ListSessionsForUser (uuidToWire ''usr'' u) \<lparr>lso_Cursor = c, lso_Limit = limit\<rparr>) (es c) d))
      (length ss + 1) None = Some (map session_of_row ss)"
proof (intro conjI)
  note tables = walkable_tables [OF pg_reach_good [OF assms(1)]]
  show "walk_pages (\<lambda>c. answer (db_run (pg_ListTuplesBySubject st (uuidToWire st u) \<lparr>lt_Cursor = c, lt_Limit = limit\<rparr>) (es c) d))
      (length ts + 1) None = Some (map tuple_of_row ts)"
    unfolding assms(6) by (rule pages_walk [where tab = db_tup and d = d, OF tables(1) assms(3,2)]) (simp add: page_query_listings wire_bind_run assms(4,5))
  show "walk_pages (\<lambda>c. answer (db_run (pg_ListMembers (uuidToWire ''org'' u) \<lparr>lmo_Cursor = c, lmo_Limit = limit, lmo_Status = status\<rparr>) (es c) d))
      (length ms + 1) None = Some (map scanMembership ms)"
    unfolding assms(7) by (rule pages_walk [where tab = db_mem and d = d, OF tables(3) assms(3,2)]) (simp add: page_query_listings wire_bind_run assms(4))
  show "walk_pages (\<lambda>c. answer (db_run (pg_ListSessionsForUser (uuidToWire ''usr'' u) \<lparr>lso_Cursor = c, lso_Limit = limit\<rparr>) (es c) d))
      (length ss + 1) None = Some (map session_of_row ss)"
    unfolding assms(8) by (rule pages_walk [where tab = db_ses and d = d, OF tables(4) assms(3,2)]) (simp add: page_query_listings wire_bind_run assms(4))
qed

lemma pg_demo_members:
  "map mr_role (listed mr_id mr_created_at (\<lambda>r. mr_org_id r = pg_demo_uuid CHR ''b'' 1 \<and> (case None of None \<Rightarrow> True | Some x \<Rightarrow> mr_status r = x))
     (db_mem pg_demo2)) = [RoleOwner]"
  "uuidToWire ''org'' (pg_demo_uuid CHR ''b'' 1) = pg_demo_org"
  by code_simp+

theorem pg_listings_complete_witness:
  "map_option (map mem_Role) (walk_pages (\<lambda>c. answer (db_run (pg_ListMembers pg_demo_org
     \<lparr>lmo_Cursor = c, lmo_Limit = 1, lmo_Status = None\<rparr>) (pg_demo CHR ''c'' 5000) pg_demo2)) 2 None) = Some [RoleOwner]"
proof -
  let ?ms = "listed mr_id mr_created_at (\<lambda>r. mr_org_id r = pg_demo_uuid CHR ''b'' 1 \<and> (case None of None \<Rightarrow> True | Some x \<Rightarrow> mr_status r = x))
     (db_mem pg_demo2)"
  have u: "canonical (pg_demo_uuid CHR ''b'' 1)"
    using NewV7_canonical [OF pg_demo_lib_ok, of "CHR ''b''" 1 "pg_demo_uuid CHR ''b'' 1"] by (simp add: class_defs pg_demo_lib_def)
  have e: "\<forall>c::string option. env_ok (pg_demo CHR ''c'' 5000) \<and> no_fault (pg_demo CHR ''c'' 5000)"
    using pg_demo_ok [of "CHR ''c''" 5000] by (simp add: class_defs no_fault_def pg_demo_def)
  have l: "limit_fits (page_limit 1)" by (simp add: limit_fits_def page_limit_def max_int64_def)
  have n: "length ?ms = 1" using arg_cong [OF pg_demo_members(1), of length] unfolding length_map by simp
  have roles: "map mem_Role (map scanMembership ?ms) = [RoleOwner]"
    using pg_demo_members(1) by (simp add: scanMembership_def comp_def)
  have two: "length ?ms + 1 = 2" using n by simp
  note walk = pg_listings_complete [OF pg_demo_reach2 e l u _ refl refl refl, of "''usr''" None, THEN conjunct2, THEN conjunct1,
      unfolded pg_demo_members(2) two]
  show ?thesis by (subst walk, simp, simp only: option.map roles)
qed

end
