(* ===== verification/PgFactors.thy ===== *)
theory PgFactors
  imports PgEndings IdentityRuns PgDemo IdentityDemo
begin

text \<open>
  Recovery codes and signature counters on PostgreSQL.  \<open>factors_later d0 d\<close>: every factor of \<open>d0\<close> is still a row of
  \<open>d\<close> with the same identity and the same hashes, a slot that has been consumed stays consumed, a counter does not
  go back, and a code without its mark does not appear.
\<close>

definition codes_in :: "mfa_row \<Rightarrow> string list" where
  "codes_in r = (case mf_recovery_hashes r of None \<Rightarrow> [] | Some hs \<Rightarrow> hs)"

definition consumed_in :: "mfa_row \<Rightarrow> bool list" where
  "consumed_in r = (case mf_recovery_consumed r of None \<Rightarrow> [] | Some cs \<Rightarrow> cs)"

definition count_le :: "int option \<Rightarrow> int option \<Rightarrow> bool" where
  "count_le a b \<longleftrightarrow> (\<forall>m. a = Some m \<longrightarrow> (\<exists>n. b = Some n \<and> m \<le> n))"

lemma count_le_refl [simp]: "count_le a a"
  by (simp add: count_le_def)

lemma count_le_trans: "count_le a b \<Longrightarrow> count_le b c \<Longrightarrow> count_le a c"
  unfolding count_le_def by fastforce

lemma count_le_Some [simp]: "count_le (Some m) b \<longleftrightarrow> (\<exists>n. b = Some n \<and> m \<le> n)"
  by (simp add: count_le_def)

definition mfa_later :: "mfa_row \<Rightarrow> mfa_row \<Rightarrow> bool" where
  "mfa_later r r' \<longleftrightarrow> mf_id r' = mf_id r \<and> mf_usr_id r' = mf_usr_id r \<and> mf_type r' = mf_type r \<and>
     mf_recovery_hashes r' = mf_recovery_hashes r \<and> consumed_le (consumed_in r) (consumed_in r') \<and>
     count_le (mf_webauthn_sign_count r) (mf_webauthn_sign_count r')"

text \<open>Every code has its mark: the loop of \<open>vfyRecovery\<close> reads both columns with one index.  The schema does not see to
  it: the array of the marks may be empty (\<open>same_array_length\<close>).\<close>

definition marked :: "mfa_row \<Rightarrow> bool" where
  "marked r \<longleftrightarrow> length (consumed_in r) = length (codes_in r)"

definition factors_later :: "pg_db \<Rightarrow> pg_db \<Rightarrow> bool" where
  "factors_later d0 d \<longleftrightarrow> rows_later mfa_later (db_mfa d0) (db_mfa d) \<and>
     (list_all marked (db_mfa d0) \<longrightarrow> list_all marked (db_mfa d))"

lemma mfa_later_marked: "mfa_later r r' \<Longrightarrow> marked r \<Longrightarrow> marked r'"
  by (simp add: mfa_later_def marked_def codes_in_def consumed_le_def)

lemma unmarked_columns [simp]: "mf_recovery_hashes r = None \<Longrightarrow> mf_recovery_consumed r = None \<Longrightarrow> marked r"
  by (simp add: marked_def codes_in_def consumed_in_def)

interpretation mfa_rows: row_order mfa_later
  by unfold_locales (auto simp: mfa_later_def consumed_le_def intro: count_le_trans)

lemma factors_later_refl [simp]: "factors_later d d"
  by (simp add: factors_later_def)

lemma factors_later_trans: "factors_later d0 d1 \<Longrightarrow> factors_later d1 d2 \<Longrightarrow> factors_later d0 d2"
  unfolding factors_later_def using mfa_rows.rows_trans by blast

subsection \<open>Statements\<close>

lemma keeps_later_insert [db_rules]:
  "(\<And>r. Q0 r) \<Longrightarrow> keeps (factors_later d0) Q0 (db_stmt (\<lambda>now. insert_usr (row0 now)))"
  "(\<And>r. Q1 r) \<Longrightarrow> keeps (factors_later d0) Q1 (db_stmt (\<lambda>now. insert_org (row1 now)))"
  "(\<And>r. Q2 r) \<Longrightarrow> keeps (factors_later d0) Q2 (db_stmt (\<lambda>now. insert_mem (row2 now)))"
  "(\<And>r. Q3 r) \<Longrightarrow> keeps (factors_later d0) Q3 (db_stmt (\<lambda>now. insert_inv (row3 now)))"
  "(\<And>r. Q4 r) \<Longrightarrow> keeps (factors_later d0) Q4 (db_stmt (\<lambda>now. insert_tup (row4 now)))"
  "(\<And>r. Q5 r) \<Longrightarrow> keeps (factors_later d0) Q5 (db_stmt (\<lambda>now. insert_cred (row5 now)))"
  "(\<And>r. Q7 r) \<Longrightarrow> keeps (factors_later d0) Q7 (db_stmt (\<lambda>now. insert_ses (row7 now)))"
  "(\<And>r. Q8 r) \<Longrightarrow> keeps (factors_later d0) Q8 (db_stmt (\<lambda>now. insert_shr (row8 now)))"
  "(\<And>r. Q9 r) \<Longrightarrow> keeps (factors_later d0) Q9 (db_stmt (\<lambda>now. insert_pat (row9 now)))"
  by (rule keeps_stmt; auto simp: insert_usr_def insert_org_def insert_mem_def insert_inv_def insert_tup_def
      insert_cred_def insert_ses_def insert_shr_def insert_pat_def factors_later_def map_sum_def
      split: sum.splits)+

lemma keeps_later_insert_mfa [db_rules]:
  assumes "\<And>now. marked (row0 now)" and "\<And>r. Q r"
  shows "keeps (factors_later d0) Q (db_stmt (\<lambda>now. insert_mfa (row0 now)))"
proof (rule keeps_stmt)
  fix now d x d'
  assume d: "factors_later d0 d" and "insert_mfa (row0 now) d = Inr (x, d')"
  then obtain t where t: "sql_insert mfa_uniq mfa_chk (mfa_fk d) (row0 now) (db_mfa d) = Inr t" "d' = d\<lparr>db_mfa := t\<rparr>"
    by (auto simp: insert_mfa_def map_sum_def split: sum.splits)
  then have "t = db_mfa d @ [row0 now]" by (simp add: sql_insert_Inr)
  then show "factors_later d0 d' \<and> Q x"
    using d t mfa_rows.rows_insert [OF t(1)] assms by (simp add: factors_later_def)
qed

lemma keeps_later_update [db_rules]:
  "(\<And>rows. Q0 rows) \<Longrightarrow> keeps (factors_later d0) Q0 (db_stmt (\<lambda>now. update_usr (P0 now) (f0 now)))"
  "(\<And>rows. Q1 rows) \<Longrightarrow> keeps (factors_later d0) Q1 (db_stmt (\<lambda>now. update_org (P1 now) (f1 now)))"
  "(\<And>rows. Q2 rows) \<Longrightarrow> keeps (factors_later d0) Q2 (db_stmt (\<lambda>now. update_mem (P2 now) (f2 now)))"
  "(\<And>rows. Q3 rows) \<Longrightarrow> keeps (factors_later d0) Q3 (db_stmt (\<lambda>now. update_inv (P3 now) (f3 now)))"
  "(\<And>rows. Q4 rows) \<Longrightarrow> keeps (factors_later d0) Q4 (db_stmt (\<lambda>now. update_cred (P4 now) (f4 now)))"
  "(\<And>rows. Q5 rows) \<Longrightarrow> keeps (factors_later d0) Q5 (db_stmt (\<lambda>now. update_ses (P5 now) (f5 now)))"
  "(\<And>rows. Q6 rows) \<Longrightarrow> keeps (factors_later d0) Q6 (db_stmt (\<lambda>now. update_shr (P6 now) (f6 now)))"
  "(\<And>rows. Q7 rows) \<Longrightarrow> keeps (factors_later d0) Q7 (db_stmt (\<lambda>now. update_pat (P7 now) (f7 now)))"
  by (rule keeps_stmt; auto simp: update_usr_def update_org_def update_mem_def update_inv_def update_cred_def
      update_ses_def update_shr_def update_pat_def factors_later_def map_sum_def split: sum.splits)+

lemma keeps_later_update_mfa [db_rules]:
  "(\<And>now r. mfa_later r (f now r)) \<Longrightarrow> (\<And>rows. Q rows) \<Longrightarrow> keeps (factors_later d0) Q (db_stmt (\<lambda>now. update_mfa (P now) (f now)))"
proof (rule keeps_stmt)
  fix now d x d'
  assume later: "\<And>now r. mfa_later r (f now r)" and q: "\<And>rows. Q rows" and d: "factors_later d0 d"
    and "update_mfa (P now) (f now) d = Inr (x, d')"
  then obtain t where t: "sql_update mfa_uniq mfa_chk (mfa_fk d) (P now) (f now) (db_mfa d) = Inr t" "d' = d\<lparr>db_mfa := t\<rparr>"
    by (auto simp: update_mfa_def map_sum_def split: sum.splits)
  then have "t = map (\<lambda>r. if P now r then f now r else r) (db_mfa d)" by (simp add: sql_update_Inr)
  then have "list_all marked (db_mfa d) \<Longrightarrow> list_all marked t"
    using mfa_later_marked [OF later] by (auto simp: list_all_iff)
  then show "factors_later d0 d' \<and> Q x"
    using d t(2) mfa_rows.rows_update [OF t(1) _ later] q by (simp add: factors_later_def)
qed

lemma keeps_later_other [db_rules]:
  "(\<And>n. Q1 n) \<Longrightarrow> keeps (factors_later d0) Q1 (db_stmt (\<lambda>now d. Inr (delete_tup (P now) d)))"
  "(\<And>r. Q2 r) \<Longrightarrow> keeps (factors_later d0) Q2 (db_stmt (\<lambda>now. upsert_policy (row now)))"
  by (rule keeps_stmt; auto simp: delete_tup_def upsert_policy_def factors_later_def map_sum_def split: sum.splits if_splits)+

lemma keeps_later_pre_tuples [db_rules]: "(\<And>ts. Q ts) \<Longrightarrow> keeps (factors_later d0) Q (insert_pre_tuples acceptingU pts)"
proof (induction pts arbitrary: Q)
  case (Cons pt pts)
  then show ?case unfolding insert_pre_tuples.simps insert_user_tuple_def by (intro db_rules Cons.IH)
qed (auto intro: db_rules)

lemma mfa_later_same:
  "mf_recovery_consumed r' = mf_recovery_consumed r \<Longrightarrow> mf_recovery_hashes r' = mf_recovery_hashes r \<Longrightarrow> mf_id r' = mf_id r \<Longrightarrow>
   mf_usr_id r' = mf_usr_id r \<Longrightarrow> mf_type r' = mf_type r \<Longrightarrow> mf_webauthn_sign_count r' = mf_webauthn_sign_count r \<Longrightarrow>
   mfa_later r r'"
  by (simp add: mfa_later_def consumed_in_def consumed_le_def)

subsection \<open>Methods\<close>

lemma later_authz:
  "keeps (factors_later d0) (\<lambda>_. True) (pg_CreateTuple i1)"
  "keeps (factors_later d0) (\<lambda>_. True) (pg_DeleteTuple tupleID2)"
  "keeps (factors_later d0) (\<lambda>_. True) (pg_CascadeRevokeSubject subjectType3 subjectID3)"
  "keeps (factors_later d0) (\<lambda>_. True) (pg_GetTuple tupleID4)"
  "keeps (factors_later d0) (\<lambda>_. True) (pg_ListTuplesBySubject subjectType5 subjectID5 opts5)"
  "keeps (factors_later d0) (\<lambda>_. True) (pg_ListTuplesByObject objectType6 objectID6 opts6)"
  "keeps (factors_later d0) (\<lambda>_. True) (pg_CreateShare i7)"
  "keeps (factors_later d0) (\<lambda>_. True) (pg_GetShare shareID8)"
  "keeps (factors_later d0) (\<lambda>_. True) (pg_VerifyShareToken token9)"
  "keeps (factors_later d0) (\<lambda>_. True) (pg_RevokeShare shareID10)"
  "keeps (factors_later d0) (\<lambda>_. True) (pg_ListSharesForObject objectType11 objectID11 opts11)"
  unfolding pg_CreateTuple_def pg_DeleteTuple_def pg_CascadeRevokeSubject_def pg_GetTuple_def
    pg_ListTuplesBySubject_def pg_ListTuplesByObject_def pg_CreateShare_def pg_GetShare_def
    pg_VerifyShareToken_def pg_RevokeShare_def pg_ListSharesForObject_def loadShare_def verify_share_tx_def
    listTuples_def
  by (intro db_rules ballI; auto intro!: mfa_later_same split: option.splits)+

lemma later_tenancy:
  "keeps (factors_later d0) (\<lambda>_. True) (pg_CreateOrg creator12 opts12)"
  "keeps (factors_later d0) (\<lambda>_. True) (pg_GetOrg orgID13)"
  "keeps (factors_later d0) (\<lambda>_. True) (pg_UpdateOrg orgID14 i14)"
  "keeps (factors_later d0) (\<lambda>_. True) (pg_SuspendOrg orgID15)"
  "keeps (factors_later d0) (\<lambda>_. True) (pg_ReinstateOrg orgID16)"
  "keeps (factors_later d0) (\<lambda>_. True) (pg_RevokeOrg orgID17)"
  "keeps (factors_later d0) (\<lambda>_. True) (pg_ListOrgs opts18)"
  "keeps (factors_later d0) (\<lambda>_. True) (pg_AddMember orgID19 usrID19 role19 invitedBy19)"
  "keeps (factors_later d0) (\<lambda>_. True) (pg_GetMembership memID20)"
  "keeps (factors_later d0) (\<lambda>_. True) (pg_ListMembers orgID21 opts21)"
  "keeps (factors_later d0) (\<lambda>_. True) (pg_ChangeRole memID22 newRole22)"
  "keeps (factors_later d0) (\<lambda>_. True) (pg_SuspendMembership memID23)"
  "keeps (factors_later d0) (\<lambda>_. True) (pg_ReinstateMembership memID24)"
  "keeps (factors_later d0) (\<lambda>_. True) (pg_SelfLeave memID25 transferTo25)"
  "keeps (factors_later d0) (\<lambda>_. True) (pg_AdminRemove memID26 adminUsrID26)"
  "keeps (factors_later d0) (\<lambda>_. True) (pg_TransferOwnership orgID27 fromMemID27 toMemID27)"
  "keeps (factors_later d0) (\<lambda>_. True) (pg_CreateInvitation orgID28 identifier28 role28 invitedBy28 expiresAt28 preTuples28)"
  "keeps (factors_later d0) (\<lambda>_. True) (pg_GetInvitation invID29)"
  "keeps (factors_later d0) (\<lambda>_. True) (pg_ListInvitations orgID30 opts30)"
  "keeps (factors_later d0) (\<lambda>_. True) (pg_AcceptInvitation invID31 opts31)"
  "keeps (factors_later d0) (\<lambda>_. True) (pg_DeclineInvitation invID32 asUsrID32)"
  "keeps (factors_later d0) (\<lambda>_. True) (pg_RevokeInvitation invID33 adminUsrID33)"
  "keeps (factors_later d0) (\<lambda>_. True) (pg_ListTuplesForSubject subjectType34 subjectID34)"
  "keeps (factors_later d0) (\<lambda>_. True) (pg_ListTuplesForObject objectType35 objectID35 relation35)"
  unfolding pg_CreateOrg_def pg_GetOrg_def pg_UpdateOrg_def pg_SuspendOrg_def pg_ReinstateOrg_def
    pg_RevokeOrg_def pg_ListOrgs_def pg_AddMember_def pg_GetMembership_def pg_ListMembers_def pg_ChangeRole_def
    pg_SuspendMembership_def pg_ReinstateMembership_def pg_SelfLeave_def pg_AdminRemove_def
    pg_TransferOwnership_def pg_CreateInvitation_def pg_GetInvitation_def pg_ListInvitations_def
    pg_AcceptInvitation_def pg_DeclineInvitation_def pg_RevokeInvitation_def pg_ListTuplesForSubject_def
    pg_ListTuplesForObject_def tenancy_steps tenancy_statements
  by (intro db_rules ballI; auto intro!: mfa_later_same split: option.splits)+

lemma later_users:
  "keeps (factors_later d0) (\<lambda>_. True) (pg_CreateUser displayName36)"
  "keeps (factors_later d0) (\<lambda>_. True) (pg_GetUser usrID37)"
  "keeps (factors_later d0) (\<lambda>_. True) (pg_UpdateUser usrID38 i38)"
  "keeps (factors_later d0) (\<lambda>_. True) (pg_ListUsers opts39)"
  "keeps (factors_later d0) (\<lambda>_. True) (pg_SuspendUser usrID40)"
  "keeps (factors_later d0) (\<lambda>_. True) (pg_ReinstateUser usrID41)"
  "keeps (factors_later d0) (\<lambda>_. True) (pg_RevokeUser usrID42)"
  "keeps (factors_later d0) (\<lambda>_. True) (pg_CreatePasswordCredential L43 usrID43 ident43 password43)"
  "keeps (factors_later d0) (\<lambda>_. True) (pg_CreatePasskeyCredential usrID44 ident44 publicKey44 signCount44 rpID44)"
  "keeps (factors_later d0) (\<lambda>_. True) (pg_CreateOIDCCredential usrID45 ident45 issuer45 sub45)"
  "keeps (factors_later d0) (\<lambda>_. True) (pg_GetCredential credID46)"
  "keeps (factors_later d0) (\<lambda>_. True) (pg_ListCredentialsForUser usrID47)"
  "keeps (factors_later d0) (\<lambda>_. True) (pg_FindCredentialByIdentifier t48 ident48)"
  "keeps (factors_later d0) (\<lambda>_. True) (pg_RotatePassword L49 credID49 newPassword49)"
  "keeps (factors_later d0) (\<lambda>_. True) (pg_RotatePasskey credID50 publicKey50 signCount50 rpID50)"
  "keeps (factors_later d0) (\<lambda>_. True) (pg_RotateOIDC credID51 issuer51 sub51)"
  "keeps (factors_later d0) (\<lambda>_. True) (pg_SuspendCredential credID52)"
  "keeps (factors_later d0) (\<lambda>_. True) (pg_ReinstateCredential credID53)"
  "keeps (factors_later d0) (\<lambda>_. True) (pg_RevokeCredential credID54)"
  "keeps (factors_later d0) (\<lambda>_. True) (pg_VerifyPassword L55 ident55 password55)"
  "keeps (factors_later d0) (\<lambda>_. True) (pg_CreateSession usrID56 credID56 ttlSeconds56)"
  "keeps (factors_later d0) (\<lambda>_. True) (pg_GetSession sesID57)"
  "keeps (factors_later d0) (\<lambda>_. True) (pg_ListSessionsForUser usrID58 opts58)"
  "keeps (factors_later d0) (\<lambda>_. True) (pg_VerifySessionToken token59)"
  "keeps (factors_later d0) (\<lambda>_. True) (pg_RefreshSession sesID60)"
  "keeps (factors_later d0) (\<lambda>_. True) (pg_RevokeSession sesID61)"
  unfolding pg_CreateUser_def pg_GetUser_def pg_UpdateUser_def pg_ListUsers_def pg_SuspendUser_def
    pg_ReinstateUser_def pg_RevokeUser_def pg_CreatePasswordCredential_def pg_CreatePasskeyCredential_def
    pg_CreateOIDCCredential_def pg_GetCredential_def pg_ListCredentialsForUser_def
    pg_FindCredentialByIdentifier_def pg_RotatePassword_def pg_RotatePasskey_def pg_RotateOIDC_def
    pg_SuspendCredential_def pg_ReinstateCredential_def pg_RevokeCredential_def pg_VerifyPassword_def
    pg_CreateSession_def pg_GetSession_def pg_ListSessionsForUser_def pg_VerifySessionToken_def
    pg_RefreshSession_def pg_RevokeSession_def identity_steps
  by (intro db_rules ballI; auto intro!: mfa_later_same split: option.splits)+

lemma later_factors:
  "keeps (factors_later d0) (\<lambda>_. True) (pg_EnrollTotpFactor L62 usrID62 label62 opts62)"
  "keeps (factors_later d0) (\<lambda>_. True) (pg_EnrollWebAuthnFactor usrID63 credentialID63 publicKey63 signCount63 rpID63)"
  "keeps (factors_later d0) (\<lambda>_. True) (pg_ConfirmTotpFactor L65 mfaID65 code65)"
  "keeps (factors_later d0) (\<lambda>_. True) (pg_GetFactor mfaID67)"
  "keeps (factors_later d0) (\<lambda>_. True) (pg_ListFactorsForUser usrID68)"
  "keeps (factors_later d0) (\<lambda>_. True) (pg_SuspendFactor mfaID69)"
  "keeps (factors_later d0) (\<lambda>_. True) (pg_ReinstateFactor mfaID70)"
  "keeps (factors_later d0) (\<lambda>_. True) (pg_RevokeFactor mfaID71)"
  "keeps (factors_later d0) (\<lambda>_. True) (pg_GetUserMfaPolicy usrID72)"
  "keeps (factors_later d0) (\<lambda>_. True) (pg_SetUserMfaPolicy usrID73 required73 graceUntil73)"
  "keeps (factors_later d0) (\<lambda>_. True) (pg_CreatePat L74 i74)"
  "keeps (factors_later d0) (\<lambda>_. True) (pg_GetPat patID75)"
  "keeps (factors_later d0) (\<lambda>_. True) (pg_ListPatsForUser usrID76 opts76)"
  "keeps (factors_later d0) (\<lambda>_. True) (pg_VerifyPatToken L77 token77)"
  "keeps (factors_later d0) (\<lambda>_. True) (pg_RevokePat patID78)"
  unfolding pg_EnrollTotpFactor_def pg_EnrollWebAuthnFactor_def
    pg_ConfirmTotpFactor_def pg_GetFactor_def pg_ListFactorsForUser_def
    pg_SuspendFactor_def pg_ReinstateFactor_def pg_RevokeFactor_def pg_GetUserMfaPolicy_def
    pg_SetUserMfaPolicy_def pg_CreatePat_def pg_GetPat_def pg_ListPatsForUser_def pg_VerifyPatToken_def
    pg_RevokePat_def mfa_steps
  by (intro db_rules ballI; auto intro!: mfa_later_same split: option.splits)+

lemma keeps_hashes_length: "keeps I (\<lambda>hs. length hs = length cs) (db_hashes L cs)"
proof (induction cs)
  case (Cons c cs)
  have "keeps I (\<lambda>hs. length hs = length (c # cs)) (db_bind (db_hashes L cs) (\<lambda>hs. db_ok (h # hs)))" for h
    by (rule keeps_bind, rule keeps_weaken [OF Cons.IH]) (simp add: keeps_ok)
  then show ?case unfolding db_hashes.simps by (rule keeps_bind [OF keeps_hash])
qed (simp add: keeps_ok)

lemma later_recovery: "keeps (factors_later d0) (\<lambda>_. True) (pg_EnrollRecoveryFactor L usrID)"
  unfolding pg_EnrollRecoveryFactor_def
proof (rule keeps_bind, rule keeps_wire, rule keeps_bind, rule keeps_lib, rule keeps_bind)
  fix usrU and codes :: "string list"
  have "keeps (factors_later d0) (\<lambda>_. True) (db_bind db_newV7 (\<lambda>newID. db_bind (db_stmt (\<lambda>now. insert_mfa
       ((new_mfa newID usrU FactorTypeRecovery FactorStatusActive None None now)
          \<lparr>mf_recovery_hashes := Some hashes, mf_recovery_consumed := Some (replicate (length codes) False)\<rparr>))) (\<lambda>r.
     db_ok \<lparr>rer_Factor = (enrolled r usrID FactorTypeRecovery [] FactorStatusActive)
          \<lparr>fac_Remaining := int (length codes)\<rparr>, rer_Codes = codes\<rparr>)))" if "length hashes = length codes" for hashes
    by (intro db_rules) (simp_all add: marked_def codes_in_def consumed_in_def that)
  then show "keeps (factors_later d0) (\<lambda>hashes. keeps (factors_later d0) (\<lambda>_. True) (db_bind db_newV7 (\<lambda>newID.
     db_bind (db_stmt (\<lambda>now. insert_mfa ((new_mfa newID usrU FactorTypeRecovery FactorStatusActive None None now)
          \<lparr>mf_recovery_hashes := Some hashes, mf_recovery_consumed := Some (replicate (length codes) False)\<rparr>))) (\<lambda>r.
     db_ok \<lparr>rer_Factor = (enrolled r usrID FactorTypeRecovery [] FactorStatusActive)
          \<lparr>fac_Remaining := int (length codes)\<rparr>, rer_Codes = codes\<rparr>)))) (db_hashes L codes)"
    by (rule keeps_weaken [OF keeps_hashes_length])
qed

lemma db_lib_run [db_runs]: "db_lib wrap r e n d = Some (Inr x, n', d') \<longleftrightarrow> r = Some (Inr x) \<and> n' = n \<and> d' = d"
  by (auto simp: db_lib_def split: option.splits sum.splits)

text \<open>A recovery proof that is accepted.\<close>

lemma vfyRecovery_run:
  assumes "vfyRecovery L usrU p e n d = Some (Inr v, n', d')"
  obtains r i rows t where "r \<in> set (db_mfa d)" "active_factor usrU ''recovery'' r" "mvr_MfaID v = uuidToWire ''mfa'' (mf_id r)"
    "i < length (codes_in r)" "i < length (consumed_in r)" "\<not> consumed_in r ! i"
    "VerifyPasswordHash (ev_idkey L) (codes_in r ! i) (NormalizeRecoveryInput (ev_text L) (rp_Code p)) = Inr True"
    "update_mfa (\<lambda>q. mf_id q = mf_id r) (\<lambda>q. q\<lparr>mf_recovery_consumed := Some ((consumed_in r)[i := True]), mf_updated_at := t\<rparr>) d = Inr (rows, d')"
proof -
  obtain r i rows t where r: "find (active_factor usrU ''recovery'') (db_mfa d) = Some r"
    and m: "match_code (ev_idkey L) (NormalizeRecoveryInput (ev_text L) (rp_Code p)) 0 (codes_in r) (consumed_in r) = Some (Inr (Some i))"
    and u: "update_mfa (\<lambda>q. mf_id q = mf_id r) (\<lambda>q. q\<lparr>mf_recovery_consumed := Some ((consumed_in r)[i := True]), mf_updated_at := t\<rparr>) d = Inr (rows, d')"
    and v: "mvr_MfaID v = uuidToWire ''mfa'' (mf_id r)"
    using assms unfolding vfyRecovery_def Let_def update_mfa_row_def codes_in_def [symmetric] consumed_in_def [symmetric]
    by (clarsimp simp: db_runs split: if_splits option.splits)
  have "r \<in> set (db_mfa d)" "active_factor usrU ''recovery'' r"
    using r by (auto simp: find_Some_iff)
  moreover note match_code_Some [OF m, simplified]
  ultimately show thesis using v u by (intro that) auto
qed

lemma inTx_Inl: "inTx m e n d = Some (Inl err, n', d') \<Longrightarrow> d' = d"
  by (auto simp: inTx_def split: option.splits sum.splits)

lemma row_update_later:
  assumes "db_good d" and "r \<in> set (db_mfa d)" and "update_mfa (\<lambda>q. mf_id q = mf_id r) g d = Inr (rows, d')" and "mfa_later r (g r)"
  shows "factors_later d d'" and "g r \<in> set (db_mfa d')"
proof -
  have t: "db_mfa d' = map (\<lambda>q. if mf_id q = mf_id r then g q else q) (db_mfa d)"
    using assms(3) by (auto simp: update_mfa_def map_sum_def sql_update_Inr split: sum.splits)
  have inj: "q = r" if "q \<in> set (db_mfa d)" "mf_id q = mf_id r" for q
    using assms(1,2) that by (auto simp: db_good_tables table_ok_def mfa_uniq_def distinct_map inj_on_def)
  have step: "mfa_later q (if mf_id q = mf_id r then g q else q)" if q: "q \<in> set (db_mfa d)" for q
  proof (cases "mf_id q = mf_id r")
    case True
    then have "q = r" by (rule inj [OF q])
    then show ?thesis using assms(4) by simp
  qed simp
  have "list_all marked (db_mfa d) \<Longrightarrow> list_all marked (db_mfa d')"
    using step mfa_later_marked unfolding t list_all_iff set_map by blast
  then show "factors_later d d'"
    unfolding factors_later_def rows_later_def using step unfolding t set_map by (intro conjI impI ballI bexI [OF _ imageI]) auto
  show "g r \<in> set (db_mfa d')"
    unfolding t set_map by (rule image_eqI [OF _ assms(2)]) simp
qed

lemma consumed_row_later:
  assumes "db_good d" and "r \<in> set (db_mfa d)"
    and "update_mfa (\<lambda>q. mf_id q = mf_id r) (\<lambda>q. q\<lparr>mf_recovery_consumed := Some ((consumed_in r)[i := True]), mf_updated_at := t\<rparr>) d = Inr (rows, d')"
  shows "factors_later d d'"
    and "r\<lparr>mf_recovery_consumed := Some ((consumed_in r)[i := True]), mf_updated_at := t\<rparr> \<in> set (db_mfa d')"
proof -
  have "mfa_later r (r\<lparr>mf_recovery_consumed := Some ((consumed_in r)[i := True]), mf_updated_at := t\<rparr>)"
    by (simp add: mfa_later_def consumed_le_upd) (simp add: consumed_in_def codes_in_def consumed_le_upd)
  from row_update_later [OF assms this]
  show "factors_later d d'"
    and "r\<lparr>mf_recovery_consumed := Some ((consumed_in r)[i := True]), mf_updated_at := t\<rparr> \<in> set (db_mfa d')" .
qed

text \<open>An assertion that is accepted, as a proof or to confirm a factor: its counter is what the row then holds.\<close>

lemma scan_value_run [db_runs]: "scan_value x e n d = Some (Inr v, n', d') \<longleftrightarrow> x = Some v \<and> n' = n \<and> d' = d"
  by (auto simp: scan_value_def db_fail_def db_ok_def split: option.splits)

definition auth_counter :: "string \<Rightarrow> int" where
  "auth_counter authData = uint (BigEndian_Uint32 (take 4 (drop 33 authData)))"

lemma assertion_count:
  assumes "WebAuthnVerifyAssertion lib (assertion_of_row key stored rp w) = Some (Inr m)"
  shows "m = auth_counter (wp_AuthenticatorData w)" and "counter_advances stored m" and "0 \<le> m"
  using assms by (auto simp: verify_assertion_iff assertion_valid_def assertion_of_row_def auth_counter_def)

lemma counter_advances_le: "counter_advances a b \<Longrightarrow> a \<le> b"
  by (auto simp: counter_advances_def)

lemma vfyWebAuthn_run:
  assumes "vfyWebAuthn L usrU p e n d = Some (Inr v, n', d')"
  obtains r c m rows t where "r \<in> set (db_mfa d)" "active_factor usrU ''webauthn'' r" "mvr_MfaID v = uuidToWire ''mfa'' (mf_id r)"
    "mvr_NewSignCount v = Some m" "mf_webauthn_sign_count r = Some c" "m = auth_counter (wp_AuthenticatorData p)"
    "counter_advances c m" "0 \<le> m"
    "update_mfa (\<lambda>q. mf_id q = mf_id r) (\<lambda>q. q\<lparr>mf_webauthn_sign_count := Some m, mf_updated_at := t\<rparr>) d = Inr (rows, d')"
proof -
  obtain r c rp m rows t where r: "find (\<lambda>r. active_factor usrU ''webauthn'' r \<and> mf_identifier r = Some (wp_CredentialID p)) (db_mfa d) = Some r"
    and c: "mf_webauthn_sign_count r = Some c" "mvr_NewSignCount v = Some m" "mvr_MfaID v = uuidToWire ''mfa'' (mf_id r)"
    and m: "WebAuthnVerifyAssertion (ev_wa L) (assertion_of_row (mf_webauthn_public_key r) c rp p) = Some (Inr m)"
    and u: "update_mfa (\<lambda>q. mf_id q = mf_id r) (\<lambda>q. q\<lparr>mf_webauthn_sign_count := Some m, mf_updated_at := t\<rparr>) d = Inr (rows, d')"
    using assms unfolding vfyWebAuthn_def update_mfa_row_def by (clarsimp simp: db_runs)
  have "r \<in> set (db_mfa d)" "active_factor usrU ''webauthn'' r" using r by (auto simp: find_Some_iff)
  then show thesis using c u assertion_count [OF m] by (intro that) auto
qed

lemma ConfirmWebAuthn_run:
  assumes "pg_ConfirmWebAuthnFactor L mfaID p e n d = Some (Inr f, n', d')"
  obtains r c m rows t where "r \<in> set (db_mfa d)" "mf_webauthn_sign_count r = Some c" "counter_advances c m"
    "update_mfa (\<lambda>q. mf_id q = mf_id r) (\<lambda>q. q\<lparr>mf_status := FactorStatusActive, mf_webauthn_sign_count := Some m,
        mf_pending_expires_at := None, mf_updated_at := t\<rparr>) d = Inr (rows, d')"
proof -
  obtain u r c rp m rows t where r: "find (\<lambda>r. mf_id r = u) (db_mfa d) = Some r" and c: "mf_webauthn_sign_count r = Some c"
    and m: "WebAuthnVerifyAssertion (ev_wa L) (assertion_of_row (mf_webauthn_public_key r) c rp p) = Some (Inr m)"
    and u: "update_mfa (\<lambda>q. mf_id q = u) (\<lambda>q. q\<lparr>mf_status := FactorStatusActive, mf_webauthn_sign_count := Some m,
        mf_pending_expires_at := None, mf_updated_at := t\<rparr>) d = Inr (rows, d')"
    using assms unfolding pg_ConfirmWebAuthnFactor_def update_mfa_row_def select_mfa_def
    by (clarsimp simp: db_runs split: if_splits)
  have "r \<in> set (db_mfa d)" "mf_id r = u" using r by (auto simp: find_Some_iff)
  then show thesis using c u assertion_count(2) [OF m] by (intro that) auto
qed

lemma count_row_later:
  assumes "db_good d" and "r \<in> set (db_mfa d)" and "mf_webauthn_sign_count r = Some c" and "counter_advances c m"
  shows "update_mfa (\<lambda>q. mf_id q = mf_id r) (\<lambda>q. q\<lparr>mf_webauthn_sign_count := Some m, mf_updated_at := t\<rparr>) d = Inr (rows, d') \<Longrightarrow>
      factors_later d d' \<and> r\<lparr>mf_webauthn_sign_count := Some m, mf_updated_at := t\<rparr> \<in> set (db_mfa d')"
    and "update_mfa (\<lambda>q. mf_id q = mf_id r) (\<lambda>q. q\<lparr>mf_status := FactorStatusActive, mf_webauthn_sign_count := Some m,
        mf_pending_expires_at := None, mf_updated_at := t\<rparr>) d = Inr (rows, d') \<Longrightarrow> factors_later d d'"
proof -
  have later: "mfa_later r (r\<lparr>mf_webauthn_sign_count := Some m, mf_updated_at := t\<rparr>)"
    "mfa_later r (r\<lparr>mf_status := FactorStatusActive, mf_webauthn_sign_count := Some m, mf_pending_expires_at := None, mf_updated_at := t\<rparr>)"
    using assms(3) counter_advances_le [OF assms(4)] by (simp_all add: mfa_later_def consumed_in_def consumed_le_def)
  show "update_mfa (\<lambda>q. mf_id q = mf_id r) (\<lambda>q. q\<lparr>mf_webauthn_sign_count := Some m, mf_updated_at := t\<rparr>) d = Inr (rows, d') \<Longrightarrow>
      factors_later d d' \<and> r\<lparr>mf_webauthn_sign_count := Some m, mf_updated_at := t\<rparr> \<in> set (db_mfa d')"
    using row_update_later [OF assms(1,2), of "\<lambda>q. q\<lparr>mf_webauthn_sign_count := Some m, mf_updated_at := t\<rparr>"] later(1) by blast
  show "update_mfa (\<lambda>q. mf_id q = mf_id r) (\<lambda>q. q\<lparr>mf_status := FactorStatusActive, mf_webauthn_sign_count := Some m,
        mf_pending_expires_at := None, mf_updated_at := t\<rparr>) d = Inr (rows, d') \<Longrightarrow> factors_later d d'"
    using row_update_later(1) [OF assms(1,2), of "\<lambda>q. q\<lparr>mf_status := FactorStatusActive, mf_webauthn_sign_count := Some m,
        mf_pending_expires_at := None, mf_updated_at := t\<rparr>"] later(2) by blast
qed

lemma wire_run_cases:
  assumes "db_bind (db_wire w) f e n d = Some (r, n', d')"
  obtains "d' = d" | u where "f u e n d = Some (r, n', d')"
  using assms by (auto simp: db_bind_def db_wire_def db_sum_def db_fail_def db_ok_def split: sum.splits)

lemma ConfirmWebAuthn_later:
  assumes "env_ok e" and "db_good d" and "pg_ConfirmWebAuthnFactor L mfaID p e n d = Some (r, n', d')"
  shows "factors_later d d'"
proof (cases r)
  case (Inl err)
  have "d' = d" using assms(3) unfolding pg_ConfirmWebAuthnFactor_def Inl by (cases rule: wire_run_cases) (auto dest: inTx_Inl)
  then show ?thesis by simp
next
  case (Inr f)
  from ConfirmWebAuthn_run [OF assms(3) [unfolded Inr]] show ?thesis using count_row_later(2) [OF assms(2)] by metis
qed

lemma VerifyMfa_later:
  assumes "env_ok e" and "db_good d" and "pg_VerifyMfa L usrID p e n d = Some (r, n', d')"
  shows "factors_later d d'"
proof -
  have totp: "keeps (factors_later d) (\<lambda>_. True) (vfyTotp L u1 p1)" for u1 p1
    unfolding vfyTotp_def mfa_steps by (intro db_rules ballI; auto intro!: mfa_later_same split: option.splits)+
  have rec: "factors_later d d2" if "vfyRecovery L u rp e n1 d = Some (x, n2, d2)" for u rp n1 x n2 d2
  proof (cases x)
    case (Inl err)
    then have "d2 = d" using that unfolding vfyRecovery_def by (auto simp: Let_def db_fail_def split: if_splits dest: inTx_Inl)
    then show ?thesis by simp
  next
    case (Inr v)
    from vfyRecovery_run [OF that [unfolded Inr]] show ?thesis using consumed_row_later(1) [OF assms(2)] by metis
  qed
  have wa: "factors_later d d2" if "vfyWebAuthn L u w e n1 d = Some (x, n2, d2)" for u w n1 x n2 d2
  proof (cases x)
    case (Inl err)
    then have "d2 = d" using that unfolding vfyWebAuthn_def by (auto dest: inTx_Inl)
    then show ?thesis by simp
  next
    case (Inr v)
    from vfyWebAuthn_run [OF that [unfolded Inr]] show ?thesis using count_row_later(1) [OF assms(2)] by metis
  qed
  from assms(3) show ?thesis unfolding pg_VerifyMfa_def
  proof (cases rule: wire_run_cases)
    case (2 u)
    then show ?thesis
      using rec wa keepsD(1) [OF totp assms(1) factors_later_refl]
      by (auto simp: db_fail_def split: option.splits)
  qed simp
qed

subsection \<open>Every call\<close>

lemmas later_methods = later_authz later_tenancy later_users later_factors later_recovery pg_CheckAny_keeps

definition effect_later :: "(pg_env \<Rightarrow> pg_db \<Rightarrow> pg_db option) \<Rightarrow> bool" where
  "effect_later M \<longleftrightarrow> (\<forall>e d d'. env_ok e \<longrightarrow> db_good d \<longrightarrow> M e d = Some d' \<longrightarrow> factors_later d d')"

lemma effect_laterI: "(\<And>d. keeps (factors_later d) Q m) \<Longrightarrow> effect_later (db_effect m)"
  unfolding effect_later_def db_effect_def keeps_def using factors_later_refl by fastforce

lemma effect_later_VerifyMfa: "effect_later (db_effect (pg_VerifyMfa L usrID p))"
  unfolding effect_later_def db_effect_def by (auto dest: VerifyMfa_later)

lemma effect_later_ConfirmWebAuthn: "effect_later (db_effect (pg_ConfirmWebAuthnFactor L mfaID p))"
  unfolding effect_later_def db_effect_def by (auto dest: ConfirmWebAuthn_later)

lemma pg_method_later: "pg_method M \<Longrightarrow> effect_later M"
  by (induction rule: pg_method.induct; ((rule effect_later_VerifyMfa effect_later_ConfirmWebAuthn) | (rule effect_laterI, rule later_methods)))

lemma pg_steps_later: "pg_steps d d' \<Longrightarrow> db_good d \<Longrightarrow> factors_later d d'"
  unfolding pg_steps_def
proof (induction rule: rtranclp_induct)
  case (step d1 d2)
  then have "db_good d1" using pg_steps_good unfolding pg_steps_def by blast
  then have "factors_later d1 d2"
    using step(2) pg_method_later unfolding pg_step_def effect_later_def by blast
  with step show ?case by (blast intro: factors_later_trans)
qed simp

lemma VerifyMfa_recovery_run:
  assumes "db_run (pg_VerifyMfa L usrID p) e d = Some (Inr v, d')" and "mp_Totp p = None" and "mp_Recovery p = Some rp"
  obtains u n n' where "vfyRecovery L u rp e n d = Some (Inr v, n', d')"
  using assms by (auto simp: db_run_def pg_VerifyMfa_def db_runs)

subsection \<open>Single use\<close>

text \<open>C12: On PostgreSQL too a recovery code is used once.  A recovery proof that is accepted matched a code of an active
  factor that had not been used; and whatever calls follow, every later recovery proof accepted under that factor matched
  another of its codes, one that was still unused when the first was accepted.\<close>

theorem pg_recovery_code_once:
  assumes "pg_reach d" and "env_ok e" and "mp_Totp p = None" and "mp_Recovery p = Some rp"
    and "db_run (pg_VerifyMfa L usrID p) e d = Some (Inr v, d1)" and "pg_steps d1 d2"
  shows "\<exists>r \<in> set (db_mfa d). \<exists>i < length (codes_in r). mvr_MfaID v = uuidToWire ''mfa'' (mf_id r) \<and> mf_status r = ''active'' \<and>
     \<not> consumed_in r ! i \<and>
     VerifyPasswordHash (ev_idkey L) (codes_in r ! i) (NormalizeRecoveryInput (ev_text L) (rp_Code rp)) = Inr True \<and>
     (\<forall>L2 usr2 p2 rp2 e2 v2 d3. mp_Totp p2 = None \<longrightarrow> mp_Recovery p2 = Some rp2 \<longrightarrow> mvr_MfaID v2 = mvr_MfaID v \<longrightarrow>
        db_run (pg_VerifyMfa L2 usr2 p2) e2 d2 = Some (Inr v2, d3) \<longrightarrow>
        (\<exists>j < length (codes_in r). j \<noteq> i \<and> \<not> consumed_in r ! j \<and>
           VerifyPasswordHash (ev_idkey L2) (codes_in r ! j) (NormalizeRecoveryInput (ev_text L2) (rp_Code rp2)) = Inr True))"
proof -
  obtain u n n' where "vfyRecovery L u rp e n d = Some (Inr v, n', d1)"
    using VerifyMfa_recovery_run [OF assms(5,3,4)] by metis
  then obtain r i rows t where r: "r \<in> set (db_mfa d)" "active_factor u ''recovery'' r" "mvr_MfaID v = uuidToWire ''mfa'' (mf_id r)"
    and i: "i < length (codes_in r)" "i < length (consumed_in r)" "\<not> consumed_in r ! i"
      "VerifyPasswordHash (ev_idkey L) (codes_in r ! i) (NormalizeRecoveryInput (ev_text L) (rp_Code rp)) = Inr True"
    and up: "update_mfa (\<lambda>q. mf_id q = mf_id r) (\<lambda>q. q\<lparr>mf_recovery_consumed := Some ((consumed_in r)[i := True]), mf_updated_at := t\<rparr>) d = Inr (rows, d1)"
    by (rule vfyRecovery_run)
  let ?r1 = "r\<lparr>mf_recovery_consumed := Some ((consumed_in r)[i := True]), mf_updated_at := t\<rparr>"
  have reach: "pg_reach d1" "pg_reach d2"
    using pg_reach_step [OF assms(1) db_run_step [OF VerifyMfa_call assms(2,5)]] assms(6) by (auto intro: pg_reach_steps)
  note good = pg_reach_good [OF assms(1)] pg_reach_good [OF reach(1)] pg_reach_good [OF reach(2)]
  obtain r2 where r2: "r2 \<in> set (db_mfa d2)" "mfa_later ?r1 r2"
    using pg_steps_later [OF assms(6) good(2)] consumed_row_later(2) [OF good(1) r(1) up]
    unfolding factors_later_def rows_later_def by blast
  have same: "mf_id r2 = mf_id r" "codes_in r2 = codes_in r" "consumed_le ((consumed_in r)[i := True]) (consumed_in r2)"
    using r2(2) by (simp_all add: mfa_later_def codes_in_def consumed_in_def)
  have "\<exists>j < length (codes_in r). j \<noteq> i \<and> \<not> consumed_in r ! j \<and>
       VerifyPasswordHash (ev_idkey L2) (codes_in r ! j) (NormalizeRecoveryInput (ev_text L2) (rp_Code rp2)) = Inr True"
    if later: "mp_Totp p2 = None" "mp_Recovery p2 = Some rp2" "mvr_MfaID v2 = mvr_MfaID v"
      "db_run (pg_VerifyMfa L2 usr2 p2) e2 d2 = Some (Inr v2, d3)" for L2 usr2 p2 rp2 e2 v2 d3
  proof -
    obtain u2 n2 n3 where "vfyRecovery L2 u2 rp2 e2 n2 d2 = Some (Inr v2, n3, d3)"
      using VerifyMfa_recovery_run [OF later(4,1,2)] by metis
    then obtain q j where q: "q \<in> set (db_mfa d2)" "mvr_MfaID v2 = uuidToWire ''mfa'' (mf_id q)"
      and j: "j < length (codes_in q)" "j < length (consumed_in q)" "\<not> consumed_in q ! j"
        "VerifyPasswordHash (ev_idkey L2) (codes_in q ! j) (NormalizeRecoveryInput (ev_text L2) (rp_Code rp2)) = Inr True"
      by (rule vfyRecovery_run)
    have "canonical (mf_id q)" "canonical (mf_id r)"
      using good q(1) r(1) by (auto simp: db_good_tables table_ok_def mfa_typed_def list_all_iff)
    then have "mf_id q = mf_id r2" using later(3) q(2) r(3) same(1) by (simp add: uuidToWire_inj)
    then have "q = r2" using good(3) q(1) r2(1) by (auto simp: db_good_tables table_ok_def mfa_uniq_def distinct_map inj_on_def)
    moreover have "j \<noteq> i" "\<not> consumed_in r ! j" if "q = r2"
      using same(3) i(2) j(2,3) that by (auto simp: consumed_le_def nth_list_update split: if_splits)
    ultimately show ?thesis using j same(2) by (intro exI [of _ j]) simp
  qed
  then show ?thesis using r i by (intro bexI [OF _ r(1)] exI [of _ i]) (auto simp: active_factor_def)
qed

text \<open>A run that enrols recovery codes and uses one; the hashes are not evaluated.\<close>

lemma pg_demo_hashes:
  "list_all (\<lambda>c. length c \<le> MaxPasswordBytes) cs \<Longrightarrow>
   \<exists>hs. db_hashes (demo_env y t) cs (pg_demo x now) n d = Some (Inr hs, n + length cs, d) \<and>
     list_all2 (\<lambda>c h. HashPassword demo_idkey (Inr (replicate 16 x)) c = Inr h) cs hs"
proof (induction cs arbitrary: n)
  case (Cons c cs)
  obtain h where h: "HashPassword demo_idkey (Inr (replicate 16 x)) c = Inr h" using Cons(2) by (simp add: demo_hash)
  obtain hs where "db_hashes (demo_env y t) cs (pg_demo x now) (Suc n) d = Some (Inr hs, Suc n + length cs, d)"
    "list_all2 (\<lambda>c h. HashPassword demo_idkey (Inr (replicate 16 x)) c = Inr h) cs hs"
    using Cons(1) [of "Suc n"] Cons(2) by auto
  with h show ?case
    by (intro exI [of _ "h # hs"]) (simp add: db_bind_def db_hash_def pg_demo_def demo_env_def argon2idSaltBytes_def db_ok_def)
qed (simp add: db_ok_def)

definition pg_demo_mfa :: "string list \<Rightarrow> mfa_row" where
  "pg_demo_mfa hs = (new_mfa (pg_demo_uuid CHR ''b'' 10) (pg_demo_uuid CHR ''a'' 0) FactorTypeRecovery FactorStatusActive None None 2000)
     \<lparr>mf_recovery_hashes := Some hs, mf_recovery_consumed := Some (replicate 10 False)\<rparr>"

lemma pg_demo_mfa_usr: "usr_exists pg_demo1 (pg_demo_uuid CHR ''a'' 0)"
  "wireToUUID (pg_demo_lib CHR ''b'') pg_demo_usr = Inr (pg_demo_uuid CHR ''a'' 0)" "db_mfa pg_demo1 = []"
  by code_simp+

lemma pg_demo_mfa_enrolled:
  obtains r h hs where "db_run (pg_EnrollRecoveryFactor (demo_env CHR ''b'' 2000) pg_demo_usr) (pg_demo CHR ''b'' 2000) pg_demo1
      = Some (Inr r, pg_demo1\<lparr>db_mfa := [pg_demo_mfa (h # hs)]\<rparr>)" "length hs = 9"
    "VerifyPasswordHash demo_idkey h ''AAAA-AAAA-AAAA'' = Inr True"
proof -
  let ?codes = "replicate 10 ''AAAA-AAAA-AAAA''"
  have codes: "GenerateRecoveryCodes (ev_bytes (demo_env CHR ''b'' 2000)) = Some (Inr ?codes)"
    by (simp add: GenerateRecoveryCodes_def demo_env_def demo_recovery_codes RecoveryCodeCount_def)
  obtain hashes where run: "db_hashes (demo_env CHR ''b'' 2000) ?codes (pg_demo CHR ''b'' 2000) 0 pg_demo1 = Some (Inr hashes, 10, pg_demo1)"
    and all: "list_all2 (\<lambda>c h. HashPassword demo_idkey (Inr (replicate 16 CHR ''b'')) c = Inr h) ?codes hashes"
    using pg_demo_hashes [of ?codes "CHR ''b''" 2000 "CHR ''b''" 2000 0 pg_demo1] by (auto simp: MaxPasswordBytes_def list_all_iff)
  have len: "length hashes = 10" using all [THEN list_all2_lengthD] by simp
  then obtain h hs where hs: "hashes = h # hs" by (cases hashes) auto
  have "replicate 10 ''AAAA-AAAA-AAAA'' = ''AAAA-AAAA-AAAA'' # replicate 9 ''AAAA-AAAA-AAAA''"
    by (simp add: numeral_eq_Suc)
  then have h: "HashPassword demo_idkey (Inr (replicate 16 CHR ''b'')) ''AAAA-AAAA-AAAA'' = Inr h"
    using all by (simp add: hs)
  have "VerifyPasswordHash demo_idkey h ''AAAA-AAAA-AAAA'' = Inr True"
  proof -
    have l: "length ''AAAA-AAAA-AAAA'' \<le> MaxPasswordBytes" by (simp add: MaxPasswordBytes_def)
    show ?thesis using h VerifyPasswordHash_encoded [OF demo_idkey_length l] by (auto simp: demo_hash [OF l])
  qed
  moreover have "same_array_length hashes (replicate 10 False)" by (simp add: same_array_length_def len)
  then have "\<exists>r. db_run (pg_EnrollRecoveryFactor (demo_env CHR ''b'' 2000) pg_demo_usr) (pg_demo CHR ''b'' 2000) pg_demo1
      = Some (Inr r, pg_demo1\<lparr>db_mfa := [pg_demo_mfa hashes]\<rparr>)"
    using run pg_demo_mfa_usr
    by (simp add: db_run_def pg_EnrollRecoveryFactor_def db_bind_def db_wire_def pg_demo_def db_sum_def db_ok_def db_lib_def codes
        db_newV7_def pg_demo_lib_def db_stmt_def insert_mfa_def sql_insert_def mfa_chk_def mfa_uniq_def mfa_fk_def
        pg_demo_mfa_def new_mfa_def mfa_columns_def some_values_def pg_time_def opt_all_def
        FactorTypeRecovery_def FactorStatusActive_def status_names_def)
  ultimately show thesis using that len unfolding hs by auto
qed

definition pg_demo_proof :: MfaProof where
  "pg_demo_proof = \<lparr>mp_Totp = None, mp_WebAuthn = None, mp_Recovery = Some \<lparr>rp_Code = ''aaaa-aaaa-aaaa''\<rparr>\<rparr>"

lemma pg_demo_mfa_used:
  assumes "length hs = 9" and "VerifyPasswordHash demo_idkey h ''AAAA-AAAA-AAAA'' = Inr True"
  shows "\<exists>v d1. db_run (pg_VerifyMfa (demo_env CHR ''b'' 2000) pg_demo_usr pg_demo_proof) (pg_demo CHR ''b'' 3000)
    (pg_demo1\<lparr>db_mfa := [pg_demo_mfa (h # hs)]\<rparr>) = Some (Inr v, d1)"
proof -
  have n: "NormalizeRecoveryInput (ev_text (demo_env CHR ''b'' 2000)) ''aaaa-aaaa-aaaa'' = ''AAAA-AAAA-AAAA''" by code_simp
  have ok: "IsValidRecoveryCode ''AAAA-AAAA-AAAA''" by code_simp
  have ten: "replicate 10 False = False # replicate 9 False" by (simp add: numeral_eq_Suc)
  have arr: "same_array_length (h # hs) (True # replicate 9 False)" by (simp add: same_array_length_def assms(1))
  have key: "ev_idkey (demo_env CHR ''b'' 2000) = demo_idkey" by (simp add: demo_env_def)
  show ?thesis
    using pg_demo_mfa_usr(1,2) arr
    by (simp add: db_run_def pg_VerifyMfa_def vfyRecovery_def n ok inTx_def db_bind_def db_wire_def pg_demo_def db_sum_def db_ok_def
        pg_demo_lib_def db_map_error_def first_row_def db_query_def pg_demo_mfa_def new_mfa_def active_factor_def pg_demo_proof_def
        FactorTypeRecovery_def FactorStatusActive_def db_lib_def key assms(2) ten update_mfa_row_def returning_def db_stmt_def
        update_mfa_def sql_update_def mfa_chk_def mfa_uniq_def mfa_fk_def mfa_columns_def some_values_def pg_time_def opt_all_def
        db_clock_def status_names_def usr_exists_def Let_def)
qed

theorem pg_recovery_code_once_witness:
  "\<exists>d e v d1 r i. pg_reach d \<and> db_run (pg_VerifyMfa (demo_env CHR ''b'' 2000) pg_demo_usr pg_demo_proof) e d = Some (Inr v, d1) \<and>
     r \<in> set (db_mfa d) \<and> i < length (codes_in r) \<and> \<not> consumed_in r ! i \<and>
     \<not> (\<exists>usr2 e2 v2 d3. db_run (pg_VerifyMfa (demo_env CHR ''b'' 2000) usr2 pg_demo_proof) e2 d1 = Some (Inr v2, d3) \<and>
       mvr_MfaID v2 = mvr_MfaID v \<and> \<not> (\<exists>j < length (codes_in r). j \<noteq> i \<and> \<not> consumed_in r ! j))"
proof -
  obtain r0 h hs where enrol: "db_run (pg_EnrollRecoveryFactor (demo_env CHR ''b'' 2000) pg_demo_usr) (pg_demo CHR ''b'' 2000) pg_demo1
      = Some (Inr r0, pg_demo1\<lparr>db_mfa := [pg_demo_mfa (h # hs)]\<rparr>)" and h: "length hs = 9"
    "VerifyPasswordHash demo_idkey h ''AAAA-AAAA-AAAA'' = Inr True" by (rule pg_demo_mfa_enrolled)
  have e: "env_ok (pg_demo CHR ''b'' t)" for t by (rule pg_demo_ok) (simp add: class_defs)
  have reach: "pg_reach (pg_demo1\<lparr>db_mfa := [pg_demo_mfa (h # hs)]\<rparr>)"
    by (rule pg_reach_step [OF pg_demo_reach1 db_run_step [OF EnrollRecoveryFactor_call e enrol]])
  obtain v d1 where run: "db_run (pg_VerifyMfa (demo_env CHR ''b'' 2000) pg_demo_usr pg_demo_proof) (pg_demo CHR ''b'' 3000)
    (pg_demo1\<lparr>db_mfa := [pg_demo_mfa (h # hs)]\<rparr>) = Some (Inr v, d1)" using pg_demo_mfa_used [OF h] by blast
  have p: "mp_Totp pg_demo_proof = None" "mp_Recovery pg_demo_proof = Some \<lparr>rp_Code = ''aaaa-aaaa-aaaa''\<rparr>"
    by (simp_all add: pg_demo_proof_def)
  let ?d = "pg_demo1\<lparr>db_mfa := [pg_demo_mfa (h # hs)]\<rparr>"
  obtain r i where r: "r \<in> set (db_mfa ?d)" "i < length (codes_in r)" "\<not> consumed_in r ! i"
    and later: "\<And>usr2 e2 v2 d3. mvr_MfaID v2 = mvr_MfaID v \<Longrightarrow>
      db_run (pg_VerifyMfa (demo_env CHR ''b'' 2000) usr2 pg_demo_proof) e2 d1 = Some (Inr v2, d3) \<Longrightarrow>
      \<exists>j < length (codes_in r). j \<noteq> i \<and> \<not> consumed_in r ! j"
    using pg_recovery_code_once [OF reach e p run pg_steps_refl] p by (elim bexE exE conjE) meson
  show ?thesis
    by (rule exI [of _ ?d], rule exI [of _ "pg_demo CHR ''b'' 3000"], rule exI [of _ v], rule exI [of _ d1], rule exI [of _ r],
        rule exI [of _ i]) (use reach run r later in blast)
qed

subsection \<open>No panic\<close>

lemma reach_marked: "pg_reach d \<Longrightarrow> list_all marked (db_mfa d)"
  using pg_steps_later [of empty_db d] pg_reach_good [of empty_db]
  by (simp add: pg_reach_def pg_steps_refl factors_later_def empty_db_def)

lemma match_code_returns: "length cs = length hs \<Longrightarrow> match_code k c i hs cs \<noteq> None"
  by (induction k c i hs cs rule: match_code.induct) (auto split: sum.splits)

lemma db_bind_returns:
  "m e n d \<noteq> None \<Longrightarrow> (\<And>x n' d'. m e n d = Some (Inr x, n', d') \<Longrightarrow> f x e n' d' \<noteq> None) \<Longrightarrow> db_bind m f e n d \<noteq> None"
  by (auto simp: db_bind_def split: option.splits sum.splits)

lemma inTx_returns: "(\<And>e n. m e n d \<noteq> None) \<Longrightarrow> inTx m e n d \<noteq> None"
  by (simp add: inTx_def split: option.splits sum.splits prod.splits) (metis option.distinct(1))

lemma db_parts_return [simp]:
  "db_ok x e n d \<noteq> None" "db_fail err e n d \<noteq> None" "db_clock e n d \<noteq> None" "db_wire w e n d \<noteq> None"
  "(first_row P tab :: 'a id_db) e n d \<noteq> None" "update_mfa_row u g e n d \<noteq> None"
  by (auto simp: db_ok_def db_fail_def db_clock_def db_stmt_def db_wire_def db_sum_def first_row_def db_query_def db_bind_def
      update_mfa_row_def returning_def split: option.splits sum.splits list.splits)

lemma db_map_error_returns: "m e n d \<noteq> None \<Longrightarrow> db_map_error h m e n d \<noteq> None"
  by (auto simp: db_map_error_def split: option.splits sum.splits)

lemma db_lib_returns: "r \<noteq> None \<Longrightarrow> db_lib wrap r e n d \<noteq> None"
  by (auto simp: db_lib_def split: option.splits sum.splits)

lemma vfyRecovery_returns:
  assumes "list_all marked (db_mfa d)"
  shows "vfyRecovery L u rp e n d \<noteq> None"
proof -
  let ?candidate = "NormalizeRecoveryInput (ev_text L) (rp_Code rp)"
  let ?use = "\<lambda>r hit. (case hit of None \<Rightarrow> db_fail (PgErr IdnInvalidCredential)
     | Some i \<Rightarrow> db_bind (update_mfa_row (mf_id r) (\<lambda>q. q\<lparr>mf_recovery_consumed := Some ((consumed_in r)[i := True])\<rparr>)) (\<lambda>_.
         db_bind db_clock (\<lambda>now. db_ok \<lparr>mvr_MfaID = uuidToWire ''mfa'' (mf_id r), mvr_Type = FactorTypeRecovery,
            mvr_MfaVerifiedAt = now, mvr_NewSignCount = None\<rparr>)))"
  have "?use r hit e n d' \<noteq> None" for r hit e n d'
    by (cases hit) (simp_all only: option.case, rule db_parts_return, intro db_bind_returns db_parts_return)
  moreover have "match_code (ev_idkey L) ?candidate 0 (codes_in r) (consumed_in r) \<noteq> None"
    if "db_map_error h (first_row P db_mfa) e n d = Some (Inr r, n', d')" for h r P e n n' d'
  proof (rule match_code_returns)
    have "r \<in> set (db_mfa d)" using that by (auto simp: db_map_error_run first_row_run find_Some_iff)
    then show "length (consumed_in r) = length (codes_in r)" using assms by (simp add: list_all_iff marked_def)
  qed
  ultimately have run: "db_bind (db_map_error (not_found (IdnNotFound [])) (first_row (active_factor u ''recovery'') db_mfa)) (\<lambda>r.
      db_bind (db_lib IdnHash (match_code (ev_idkey L) ?candidate 0 (codes_in r) (consumed_in r))) (?use r)) e n d \<noteq> None" for e n
    by (intro db_bind_returns db_lib_returns db_map_error_returns db_parts_return)
  show ?thesis
  proof (cases "IsValidRecoveryCode ?candidate")
    case True
    show ?thesis
      unfolding vfyRecovery_def Let_def codes_in_def [symmetric] consumed_in_def [symmetric]
      by (simp only: True not_True_eq_False if_False) (rule inTx_returns, rule run)
  next
    case False
    then show ?thesis by (simp add: vfyRecovery_def Let_def)
  qed
qed

text \<open>C9: Every code of a recovery factor has its mark in every database that calls of the three stores lead to, so the loop
  over the codes stays inside the array of the marks: verifying a recovery code on PostgreSQL returns, with a result or an
  error, and does not panic.  The schema alone would admit codes without marks.\<close>

theorem pg_recovery_proof_returns:
  assumes "pg_reach d" and "mp_Totp p = None" and "mp_Recovery p = Some rp"
  shows "(\<forall>r \<in> set (db_mfa d). length (consumed_in r) = length (codes_in r)) \<and> db_run (pg_VerifyMfa L usrID p) e d \<noteq> None"
proof
  note marks = reach_marked [OF assms(1)]
  show "\<forall>r \<in> set (db_mfa d). length (consumed_in r) = length (codes_in r)"
    using marks by (simp add: list_all_iff marked_def)
  have "vfyRecovery L u rp e n d' \<noteq> None" if "db_wire usrID e 0 d = Some (Inr u, n, d')" for u n d'
    using that vfyRecovery_returns [OF marks] by (simp add: db_wire_run)
  then have "pg_VerifyMfa L usrID p e 0 d \<noteq> None"
    unfolding pg_VerifyMfa_def assms(2,3) option.case by (intro db_bind_returns db_parts_return)
  then show "db_run (pg_VerifyMfa L usrID p) e d \<noteq> None" by (simp add: db_run_def)
qed

theorem pg_recovery_proof_returns_witness:
  "\<exists>d r. pg_reach d \<and> r \<in> set (db_mfa d) \<and> length (codes_in r) = 10 \<and> length (consumed_in r) = 10 \<and>
     db_run (pg_VerifyMfa (demo_env CHR ''b'' 2000) pg_demo_usr pg_demo_proof) (pg_demo CHR ''b'' 3000) d \<noteq> None"
proof -
  obtain r0 h hs where enrol: "db_run (pg_EnrollRecoveryFactor (demo_env CHR ''b'' 2000) pg_demo_usr) (pg_demo CHR ''b'' 2000) pg_demo1
      = Some (Inr r0, pg_demo1\<lparr>db_mfa := [pg_demo_mfa (h # hs)]\<rparr>)" and h: "length hs = 9" by (rule pg_demo_mfa_enrolled)
  have e: "env_ok (pg_demo CHR ''b'' 2000)" by (rule pg_demo_ok) (simp add: class_defs)
  have reach: "pg_reach (pg_demo1\<lparr>db_mfa := [pg_demo_mfa (h # hs)]\<rparr>)"
    by (rule pg_reach_step [OF pg_demo_reach1 db_run_step [OF EnrollRecoveryFactor_call e enrol]])
  have p: "mp_Totp pg_demo_proof = None" "mp_Recovery pg_demo_proof = Some \<lparr>rp_Code = ''aaaa-aaaa-aaaa''\<rparr>"
    by (simp_all add: pg_demo_proof_def)
  have "length (codes_in (pg_demo_mfa (h # hs))) = 10" using h by (simp add: pg_demo_mfa_def codes_in_def)
  with pg_recovery_proof_returns [OF reach p, of "demo_env CHR ''b'' 2000" pg_demo_usr "pg_demo CHR ''b'' 3000"] reach
  show ?thesis by (intro exI [of _ "pg_demo1\<lparr>db_mfa := [pg_demo_mfa (h # hs)]\<rparr>"] exI [of _ "pg_demo_mfa (h # hs)"]) simp
qed

subsection \<open>No replay\<close>


















end
