(* ===== verification/Spec2Isabelle.thy ===== *)
theory Spec2Isabelle
  imports AuthzTuples AuthzShares Flags Notify FileMetadata AuditLog TenancyClaims Encoding Otpauth IdentityClaims AuthzPgClaims IdentityPgClaims TenancyPgClaims PgPaging PgFactors
begin

text \<open>
  Flametrench is a Go library of the stores an application needs around its users: identifiers, identity,
  tenancy, authorization, feature flags, notifications, file metadata and an audit log.  Every package under
  \<open>packages/\<close> has an interface (\<open>store.go\<close>), types, errors and an in-memory implementation (\<open>inmem.go\<close>); three
  of them also have an implementation on PostgreSQL.  This development models both implementations and the
  algorithms they call, and proves what makes them correct.

  \<^bold>\<open>How the code is rendered.\<close>  A Go string is a list of \<open>char\<close> (bytes), a map a partial function, a nil pointer
  \<open>None\<close>, a \<open>time.Time\<close> the number of nanoseconds as an \<open>int\<close>, an \<open>int64\<close> that may overflow an \<open>int\<close> with
  \<open>wrap64\<close> written out, a \<open>uint32\<close> or \<open>byte\<close> a \<open>word\<close>.  A method takes the state record of its store and returns
  the pair of its result and the new state; the result is \<open>Inl\<close> an error of the package's own datatype or \<open>Inr\<close>
  a value.  Where the code can panic or loop for ever, the outer type is an \<open>option\<close> and \<open>None\<close> is that outcome.
  The order in which \<open>range\<close> visits a map is an argument (\<open>ks\<close>, with \<open>visits ks m\<close>), so a theorem that holds for
  every such \<open>ks\<close> holds for every run of the program.  The clock is a function from the number of the reading
  within a call; a method is one critical section of its lock, except where the code releases the lock on the way
  (the WebAuthn and token methods of the identity store), which is then two definitions.

  \<^bold>\<open>Parameters.\<close>  Code that is not in the repository is an argument: \<open>uuid_lib\<close> (github.com/google/uuid), the digest
  and HMAC functions, \<open>argon2.IDKey\<close>, the signature schemes, \<open>encoding/json\<close>, \<open>crypto/rand\<close>, the Unicode case
  tables.  What a theorem needs of them is a named predicate (\<open>uuid_ok\<close>, \<open>idkey_length\<close>, \<open>hmac_long\<close>, \<open>text_ok\<close>,
  \<open>delivers\<close>, \<open>fresh_for\<close>, \<open>new_token\<close>), and each has an instance (\<open>demo_seq_ok\<close>, \<open>demo_idkey_length\<close> and so on).

  \<^bold>\<open>The theories\<close>, in the order of their dependencies.

  \<^item> \<open>GoPrelude\<close>: the vocabulary above, the insertion sort of the listings, and the locales \<open>key_order\<close>,
    \<open>op_system\<close> (reachability and an invariant), \<open>stable_system\<close> (what a run never undoes) and \<open>entity_store\<close>
    (records that evolve along an order).  Every store interprets them on its own steps, and its claims about
    runs rest on that interpretation.
  \<^item> \<open>Regexp\<close>, \<open>Encoding\<close>, \<open>GoText\<close>, \<open>GoBytes\<close>: the parts of \<open>regexp\<close>, \<open>encoding/hex\<close>, \<open>encoding/base64\<close>,
    \<open>encoding/binary\<close>, \<open>strconv\<close> and \<open>strings\<close> the code uses.
  \<^item> \<open>Paging\<close>: the two cursor paginations; the locale \<open>paging\<close> is what a client that follows the cursors relies on.
  \<^item> \<open>Ids\<close>: \<open>packages/ids/id.go\<close>, the prefixed identifiers and their round trips.
  \<^item> \<open>AuthzTypes\<close>, \<open>AuthzRewrite\<close>: \<open>packages/authz\<close>, \<open>rewrite_rules.go\<close>; \<open>Evaluate\<close> with its limits on depth
    and fan-out and its cycle check, against the inductive meaning \<open>grants\<close>.
  \<^item> \<open>AuthzTuples\<close>, \<open>AuthzShares\<close>: \<open>inmem.go\<close>, the tuple store (\<open>Check\<close> refines the meaning of the stored tuples) and
    the share store (life and single use of a share token).
  \<^item> \<open>Flags\<close>, \<open>Notify\<close>, \<open>FileMetadata\<close>, \<open>AuditLog\<close>: the stores of \<open>packages/flags\<close>, \<open>notify\<close>, \<open>file-metadata\<close> and
    \<open>audit\<close>.  The audit log hands out the pointers and the map it stores, so there the memory is part of the model:
    \<open>audit_heap\<close> has a cell for each address, and \<open>audit_caller\<close> is a step of the code around the log that writes to it.
  \<^item> \<open>TenancyTypes\<close>, \<open>TenancyOrgs\<close>, \<open>TenancyMembers\<close>, \<open>TenancyInvitations\<close>: \<open>packages/tenancy\<close>; \<open>TenancyRuns\<close> has its
    steps and invariants, \<open>TenancyClaims\<close> its properties (an organization keeps an owner, an invitation is
    accepted once, cascades, ranks).
  \<^item> \<open>Passwords\<close> (\<open>hashing.go\<close>), \<open>Totp\<close>, \<open>RecoveryCodes\<close>, \<open>Otpauth\<close> (\<open>mfa.go\<close>), \<open>Cbor\<close>, \<open>WebAuthn\<close>
    (\<open>webauthn.go\<close>): the algorithms of \<open>packages/identity\<close>.
  \<^item> \<open>IdentityTypes\<close>, \<open>IdentityUsers\<close>, \<open>IdentityCredentials\<close>, \<open>IdentitySessions\<close>, \<open>IdentityMfa\<close>, \<open>IdentityPats\<close>: the
    records, the state \<open>identity\<close> (\<open>InMemoryIdentityStore\<close>) and every method of \<open>packages/identity/inmem.go\<close>.
    \<open>IdentityCore\<close> has the invariants of users, credentials and sessions (a live session has its token entries and
    an active credential of its user; the index of identifiers points to active credentials) and the steps that
    keep them, \<open>IdentityRuns\<close> those of factors and tokens and the whole step relation \<open>identity_step\<close>;
    \<open>IdentityDemo\<close> has concrete runs, \<open>IdentityClaims\<close> the properties.
  \<^item> \<open>PgSql\<close>: code on a database (\<open>postgres.go\<close> of authz, tenancy and identity).  A method is a function of an
    environment (clock, identifiers, randomness, the order of scans, faults of the database) and a database; statements
    (\<open>db_stmt\<close>), loops over rows with or without a look at \<open>rows.Err()\<close> (\<open>db_rows\<close>), transactions that leave nothing
    behind on an error (\<open>inTx\<close>), wire identifiers, keyset pages.
    \<open>PgSchema\<close>: the tables of \<open>tests/postgres-schema.sql\<close> as lists of rows, with their checks, unique indexes and
    foreign keys, and the statements on them, which fail as PostgreSQL fails.
  \<^item> \<open>AuthzPg\<close>, \<open>TenancyPg\<close>, \<open>IdentityPg\<close>, \<open>IdentityPgMfa\<close>: every method of the three PostgreSQL stores.
  \<^item> \<open>PgLogic\<close>: \<open>keeps\<close>, what a method preserves, with rules that compute backwards, and the rules that take a
    successful run apart.  \<open>PgTables\<close>: the locale \<open>pg_table\<close>, interpreted on the eleven tables, keeps the constraints;
    \<open>PgMethods\<close>: every method does.  \<open>PgRuns\<close>: the calls \<open>pg_method\<close>, the steps and the reachable databases of the
    three stores on one database.  \<open>PgEndings\<close> (locale \<open>row_order\<close>): what has been revoked or consumed stays so.
    \<open>PgOwners\<close>: organizations keep an owner.
    \<open>PgFactors\<close>: recovery codes are used once and their verification does not panic, the counter of a WebAuthn factor
    does not go back and an assertion is not accepted again.  \<open>PgPaging\<close>: the locale \<open>paging\<close> on the keyset queries.
  \<^item> \<open>AuthzPgCheck\<close>: \<open>Check\<close> over the rows, through the interpretations of \<open>tuple_source\<close> (what is allowed is granted,
    however the listings fail) and of \<open>tuple_backend\<close> (and conversely, when none breaks off).  \<open>AuthzPgRefine\<close>: the
    locale \<open>tuple_contract\<close>, which both tuple stores satisfy, and the agreement of the two.  \<open>PgDemo\<close> has a concrete
    environment and databases; \<open>AuthzPgClaims\<close>, \<open>IdentityPgClaims\<close>, \<open>TenancyPgClaims\<close> the properties, among them
    those that span stores: a membership is a tuple that \<open>Check\<close> finds, a revoked organization is closed to it.

  \<^bold>\<open>Termination and fuel.\<close>  \<open>Evaluate\<close> recurses on the depth that is left, so it always ends; \<open>Evaluate_no_limit\<close> says
  when the default limits are enough.  \<open>decodeItem\<close> has fuel, twice the bytes of the buffer and two, and
  \<open>decodeCBORMap_returns\<close> shows that it never runs out; the allocation of a map for the entries that the buffer announces
  may fail (the argument \<open>mk\<close>, the field \<open>map_Make\<close>), which ends the process as a panic does.  The rejection sampling of \<open>recovery_char\<close> is a
  \<open>partial_function\<close>: \<open>GenerateRecoveryCode_returns\<close> shows that it ends when the source goes on to deliver accepted
  bytes.  All other loops are structural.

  \<^bold>\<open>Where the code falls short\<close> is recorded as theorems beside the ones that hold: \<open>Check_separator_collision\<close>,
  \<open>Evaluate_node_order\<close>, \<open>paginate_panic\<close>, \<open>UpdateFlag_partial\<close>, \<open>active_without_facts\<close>,
  \<open>duplicate_active_membership\<close>, \<open>member_of_revoked_org\<close>, \<open>decodePHC_parallelism_wraps\<close>, \<open>TotpCompute_panics\<close>,
  \<open>decodeCBORMap_panics\<close>, \<open>require_defaults_not_applied\<close>, \<open>totp_code_length\<close>, \<open>revoked_user_regains_session\<close>,
  \<open>active_credential_unindexed\<close>, \<open>revoked_factor_confirmed\<close>, \<open>pending_factor_reinstated\<close>, \<open>overlapping_replay\<close>,
  \<open>pg_Check_cut\<close>, \<open>audit_metadata_shared\<close>, \<open>decodeCBORMap_allocates\<close>.

  \<^bold>\<open>The PostgreSQL stores\<close> are modelled with one call after the other.  What two overlapping transactions see of
  each other is shown where it matters most: \<open>owners_leave_together\<close> splits \<open>SelfLeave\<close> at its count and lets two owners
  leave an organization without one.  A statement may fail at any point (\<open>pe_fault\<close>), a query may break off
  while its rows are read (\<open>pe_cut\<close>, \<open>pe_list_cut\<close>; most listings do not notice), the slice for a page may be too large to
  allocate (\<open>pe_make\<close>), and a query without \<open>ORDER BY\<close> gives its rows in any order (\<open>pe_scan\<close>, \<open>pe_order\<close>).

  \<^bold>\<open>Not modelled.\<close>  The interfaces of \<open>store.go\<close>, which have no code; other interleavings of PostgreSQL transactions,
  deadlocks and retries; errors of the text encoding of a column, the difference between a nil and an empty byte slice;
  the failure of other allocations; what hides behind an entry of the audit metadata (a value \<open>'v\<close>); the texts of error messages (an error keeps its kind and the data a
  caller can read); time zones and monotonic clocks; the timing of comparisons (the verifications of a dummy hash change
  no state); scheduling of the in-memory stores other than the order of critical sections.
\<close>

end
